(* ===== verification/Prelude.thy ===== *)
theory Prelude
  imports Main "HOL-Library.Word" "HOL-Library.Multiset"
begin

text \<open>
  Shared material of the development: names for the machine types the C sources use,
  the little-endian view of an unsigned integer in memory (what a cast such as
  \<open>*(uint32_t*)ptr\<close> reads and what \<open>DataCopy(&number, sizeof(number))\<close> writes on the
  little-endian targets the program is built for), and generic facts on lists, options
  and words that the component theories use. \<open>codec\<close> collects the read-after-write
  equations of the byte level, \<open>sizes\<close> the lengths of encoded values.
\<close>

unbundle bit_operations_syntax

named_theorems codec "read-after-write equations of encoders and decoders"
named_theorems sizes "lengths of encoded values"

type_synonym u8 = "8 word"
type_synonym u16 = "16 word"
type_synonym u32 = "32 word"
type_synonym u64 = "64 word"

type_synonym bytes = "u8 list"

section \<open>Lists\<close>

lemma take_append_length [simp]: "length xs = n \<Longrightarrow> take n (xs @ ys) = xs"
  by simp

lemma drop_append_length [simp]: "length xs = n \<Longrightarrow> drop n (xs @ ys) = ys"
  by simp

lemma concat_map_append: "concat (map f (xs @ ys)) = concat (map f xs) @ concat (map f ys)"
  by simp

section \<open>Little-endian encoding\<close>

fun le_bytes :: "nat \<Rightarrow> 'a::len word \<Rightarrow> bytes" where
  "le_bytes 0 w = []"
| "le_bytes (Suc n) w = ucast w # le_bytes n (drop_bit 8 w)"

fun le_word :: "bytes \<Rightarrow> 'a::len word" where
  "le_word [] = 0"
| "le_word (b # bs) = ucast b OR push_bit 8 (le_word bs)"

lemma le_bytes_numeral [simp]:
  "le_bytes (numeral k) w = ucast w # le_bytes (pred_numeral k) (drop_bit 8 w)"
  by (simp add: numeral_eq_Suc)

lemma length_le_bytes [simp, sizes]: "length (le_bytes n w) = n"
  by (induction n arbitrary: w) auto

lemma le_bytes_eq_Nil [simp]: "le_bytes n w = [] \<longleftrightarrow> n = 0"
  by (cases n) auto

lemma le_bytes_one [simp]: "le_bytes (Suc 0) w = [ucast w]"
  by simp

lemma le_word_le_bytes_take_bit:
  "le_word (le_bytes n (w :: 'a::len word)) = take_bit (8 * n) w"
proof (induction n arbitrary: w)
  case 0
  then show ?case by simp
next
  case (Suc n)
  show ?case
    by (rule bit_word_eqI)
      (auto simp: Suc bit_simps not_less)
qed

lemma le_word_le_bytes [codec]:
  fixes w :: "'a::len word"
  assumes "LENGTH('a) \<le> 8 * n"
  shows "le_word (le_bytes n w) = w"
proof -
  have "take_bit (8 * n) w = w"
    using assms by (intro bit_word_eqI) (auto simp: bit_simps)
  then show ?thesis by (simp add: le_word_le_bytes_take_bit)
qed

lemma le_bytes_le_word [codec]:
  assumes "8 * length bs \<le> LENGTH('a)"
  shows "le_bytes (length bs) (le_word bs :: 'a::len word) = bs"
  using assms
proof (induction bs)
  case Nil
  then show ?case by simp
next
  case (Cons b bs)
  let ?w = "le_word bs :: 'a word"
  have len: "8 * length bs + 8 \<le> LENGTH('a)" using Cons.prems by simp
  have low: "ucast (ucast b OR push_bit 8 ?w) = b"
    using len by (intro bit_word_eqI) (auto simp: bit_simps)
  have tb: "take_bit (8 * length bs) ?w = ?w"
    using Cons.IH len le_word_le_bytes_take_bit [of "length bs" ?w] by simp
  have high: "drop_bit 8 (ucast b OR push_bit 8 ?w) = ?w"
  proof (rule bit_word_eqI)
    fix i assume i: "i < LENGTH('a)"
    have "bit ?w i \<Longrightarrow> i < 8 * length bs"
      using tb by (metis bit_take_bit_iff)
    then show "bit (drop_bit 8 (ucast b OR push_bit 8 ?w)) i = bit ?w i"
      using len by (auto simp: bit_simps dest: bit_imp_le_length)
  qed
  have "le_bytes (length (b # bs)) (le_word (b # bs) :: 'a word)
      = ucast (ucast b OR push_bit 8 ?w) # le_bytes (length bs) (drop_bit 8 (ucast b OR push_bit 8 ?w))"
    by (simp only: le_bytes.simps le_word.simps list.size add_0_right add_Suc_right)
  also have "\<dots> = b # bs"
    using Cons.IH len by (simp only: low high)
  finally show ?case .
qed

lemma unat_le_word_less:
  "unat (le_word bs :: 'a::len word) < 2 ^ (8 * length bs)"
proof (cases "8 * length bs \<le> LENGTH('a)")
  case True
  have "take_bit (8 * length bs) (le_word bs :: 'a word) = le_word bs"
    using le_word_le_bytes_take_bit [of "length bs" "le_word bs :: 'a word"]
      le_bytes_le_word [OF True] by simp
  then show ?thesis by (metis take_bit_nat_less_exp unsigned_take_bit_eq)
next
  case False
  then have "(2::nat) ^ LENGTH('a) \<le> 2 ^ (8 * length bs)" by simp
  then show ?thesis by (rule order.strict_trans2 [OF unsigned_less])
qed

section \<open>Words\<close>

lemma ucast_ucast_down [simp]:
  "LENGTH('a) \<le> LENGTH('b) \<Longrightarrow> ucast (ucast (w :: 'a::len word) :: 'b::len word) = w"
  by (rule bit_word_eqI) (simp add: bit_simps)

lemma unat_ucast_up:
  "LENGTH('a) \<le> LENGTH('b) \<Longrightarrow> unat (ucast (w :: 'a::len word) :: 'b::len word) = unat w"
  by (simp add: unsigned_ucast_eq take_bit_nat_eq_self order.strict_trans2 [OF unsigned_less])

lemma unat_of_nat_small:
  "n < 2 ^ LENGTH('a) \<Longrightarrow> unat (of_nat n :: 'a::len word) = n"
  by (simp add: take_bit_nat_eq_self unat_of_nat)

lemma and_not_mask_eq_0: "(n :: 'a::len word) AND NOT (mask k) = 0 \<longleftrightarrow> take_bit k n = n"
  by (auto simp: bit_eq_iff bit_simps dest: bit_imp_le_length)

lemma take_bit_self_iff: "take_bit k (n :: 'a::len word) = n \<longleftrightarrow> unat n < 2 ^ k"
  by (metis take_bit_nat_eq_self_iff unsigned_take_bit_eq word_unat_eq_iff)

text \<open>Testing the bits between \<open>k\<close> and \<open>j\<close> of a number below \<open>2 ^ j\<close>.\<close>

lemma and_high_mask:
  fixes n :: "'a::len word"
  assumes "unat n < 2 ^ j"
  shows "n AND take_bit j (NOT (mask k)) = 0 \<longleftrightarrow> unat n < 2 ^ k"
proof -
  have "n AND take_bit j (NOT (mask k)) = take_bit j n AND NOT (mask k)"
    by (rule bit_word_eqI) (auto simp: bit_simps)
  also have "take_bit j n = n" using assms by (simp only: take_bit_self_iff)
  finally show ?thesis by (simp only: and_not_mask_eq_0 take_bit_self_iff)
qed

lemma unat_drop_bit: "unat (drop_bit k (w :: 'a::len word)) = unat w div 2 ^ k"
proof -
  have "take_bit LENGTH('a) (unat w) = unat w"
    using unsigned_less [of w, where 'a = nat] by (rule take_bit_nat_eq_self)
  then show ?thesis
    by (simp only: unsigned_drop_bit_eq take_bit_drop_bit) (simp add: drop_bit_eq_div)
qed

lemma ucast_of_nat_small:
  "n < 2 ^ LENGTH('a) \<Longrightarrow> ucast (of_nat n :: 'a::len word) = (of_nat n :: 'b::len word)"
  by (simp add: unsigned_of_nat take_bit_nat_eq_self)

lemma sint_small_nat:
  fixes w :: u32
  assumes "unat w < 2 ^ 31"
  shows "sint w = int (unat w)"
proof -
  have "uint w < 2 ^ 31" using assms by (metis nat_less_numeral_power_cancel_iff unat_eq_nat_uint)
  then have "signed_take_bit 31 (uint w) = uint w" using order_trans [OF _ uint_ge_0 [of w]] by (simp add: signed_take_bit_int_eq_self_iff)
  then show ?thesis by (simp add: sint_uint)
qed

end
