(* ===== verification/Data_Values.thy ===== *)
theory Data_Values
  imports Prelude "HOL-Library.List_Lexorder"
begin

text \<open>
  The contents level of \<open>src/code/Data.c\<close>: a \<open>Data\<close> is the null object \<open>{NULL, 0}\<close> or a
  byte buffer, a \<open>Datas\<close> is the list of its elements. Which allocation a buffer lives in and
  which track stack owns it does not show at this level; functions are named after the C
  functions whose result they give. A C call that reads outside its buffer has no defined
  result; the functions below are total and the calls the other theories make are in range. The theories
  on memory have the level below.
  \<open>abort()\<close> is the value \<open>Inl Abort\<close>.
\<close>

section \<open>Buffers\<close>

datatype fault = Abort | Fault

datatype data = DataNull | Bytes bytes

fun dbytes :: "data \<Rightarrow> bytes" where
  "dbytes DataNull = []"
| "dbytes (Bytes bs) = bs"

abbreviation dlength :: "data \<Rightarrow> nat" where
  "dlength d \<equiv> length (dbytes d)"

definition DataNew :: "nat \<Rightarrow> data" where
  "DataNew len = Bytes (replicate len 0x33)"

definition DataZero :: "nat \<Rightarrow> data" where
  "DataZero len = Bytes (replicate len 0)"

definition DataInt :: "u32 \<Rightarrow> data" where
  "DataInt value = Bytes (le_bytes 4 value)"

definition DataGetInt :: "data \<Rightarrow> fault + u32" where
  "DataGetInt d = (case d of DataNull \<Rightarrow> Inr 0
     | Bytes bs \<Rightarrow> if length bs \<noteq> 4 then Inl Abort else Inr (le_word bs))"

definition DataLong :: "u64 \<Rightarrow> data" where
  "DataLong value = Bytes (le_bytes 8 value)"

definition DataGetLong :: "data \<Rightarrow> fault + u64" where
  "DataGetLong d = (case d of DataNull \<Rightarrow> Inr 0
     | Bytes bs \<Rightarrow> if length bs \<noteq> 8 then Inl Abort else Inr (le_word bs))"

definition DataCopyData :: "data \<Rightarrow> data" where
  "DataCopyData d = (case d of DataNull \<Rightarrow> DataNull | Bytes bs \<Rightarrow> Bytes bs)"

text \<open>
  \<open>DataResizeFlexible\<close>: the same length returns the object unchanged, length 0 frees it and
  gives the null object, new bytes are set to \<open>0x66\<close>.
\<close>

definition DataResize :: "data \<Rightarrow> nat \<Rightarrow> data" where
  "DataResize d len =
     (if dlength d = len then d
      else if len = 0 then DataNull
      else Bytes (take len (dbytes d) @ replicate (len - dlength d) 0x66))"

definition DataGrow :: "data \<Rightarrow> nat \<Rightarrow> data" where
  "DataGrow d added = DataResize d (dlength d + added)"

definition DataShrink :: "data \<Rightarrow> nat \<Rightarrow> data" where
  "DataShrink d fewer = DataResize d (dlength d - fewer)"

definition DataTrimFront :: "data \<Rightarrow> nat \<Rightarrow> data" where
  "DataTrimFront d n =
     (case d of DataNull \<Rightarrow> DataNull
      | Bytes bs \<Rightarrow> DataResize (Bytes (drop n bs @ drop (length bs - n) bs)) (length bs - n))"

definition DataSetByte :: "data \<Rightarrow> u8 \<Rightarrow> nat \<Rightarrow> fault + data" where
  "DataSetByte d b i = (if i \<ge> dlength d then Inl Abort else Inr (Bytes ((dbytes d)[i := b])))"

definition DataCopyDataPart :: "data \<Rightarrow> nat \<Rightarrow> nat \<Rightarrow> data" where
  "DataCopyDataPart d start len = Bytes (take len (drop start (dbytes d)))"

definition DataDelete :: "data \<Rightarrow> nat \<Rightarrow> nat \<Rightarrow> data" where
  "DataDelete d start len =
     (case d of DataNull \<Rightarrow> DataNull
      | Bytes bs \<Rightarrow> DataShrink
          (Bytes (take start bs @ drop (start + len) bs @ drop (length bs - len) bs)) len)"

definition DataAppend :: "data \<Rightarrow> data \<Rightarrow> data" where
  "DataAppend a b =
     (let r = DataResize a (dlength a + dlength b) in
      case r of DataNull \<Rightarrow> DataNull | Bytes bs \<Rightarrow> Bytes (take (dlength a) bs @ dbytes b))"

definition DataAdd :: "data \<Rightarrow> data \<Rightarrow> data" where
  "DataAdd a b = DataAppend a b"

definition DataAddCopy :: "data \<Rightarrow> data \<Rightarrow> data" where
  "DataAddCopy a b = Bytes (dbytes a @ dbytes b)"

definition DataInsert :: "data \<Rightarrow> nat \<Rightarrow> data \<Rightarrow> data" where
  "DataInsert d i ins =
     (case DataGrow d (dlength ins) of DataNull \<Rightarrow> DataNull
      | Bytes bs \<Rightarrow> Bytes (take i bs @ dbytes ins @ take (dlength d - i) (drop i bs)))"

definition DataFlipEndianCopy :: "data \<Rightarrow> data" where
  "DataFlipEndianCopy d = Bytes (map (\<lambda>i. dbytes d ! (dlength d - 1 - i)) [0..<dlength d])"

subsection \<open>What the buffer operations compute\<close>

lemma DataCopyData_id [simp]: "DataCopyData d = d"
  by (simp add: DataCopyData_def split: data.split)

lemma DataGetInt_DataInt [codec]: "DataGetInt (DataInt v) = Inr v"
  by (simp add: DataGetInt_def DataInt_def le_word_le_bytes del: le_bytes_numeral)

lemma DataGetLong_DataLong [codec]: "DataGetLong (DataLong v) = Inr v"
  by (simp add: DataGetLong_def DataLong_def le_word_le_bytes del: le_bytes_numeral)

lemma DataAppend_bytes [simp]: "dbytes (DataAppend a b) = dbytes a @ dbytes b"
  by (cases a) (auto simp: DataAppend_def DataResize_def Let_def split: data.split)

lemma DataAdd_bytes [simp]: "dbytes (DataAdd a b) = dbytes a @ dbytes b"
  by (simp add: DataAdd_def)

lemma DataAddCopy_bytes [simp]: "dbytes (DataAddCopy a b) = dbytes a @ dbytes b"
  by (simp add: DataAddCopy_def)

lemma DataAdd_Bytes [simp]: "DataAdd (Bytes a) b = Bytes (a @ dbytes b)"
  by (cases b) (auto simp: DataAdd_def DataAppend_def DataResize_def Let_def)

lemma DataAppend_Bytes [simp]: "DataAppend (Bytes a) b = Bytes (a @ dbytes b)"
  using DataAdd_Bytes [of a b] by (simp only: DataAdd_def)

lemma DataFlipEndianCopy_rev [simp]: "DataFlipEndianCopy d = Bytes (rev (dbytes d))"
  by (auto simp: DataFlipEndianCopy_def rev_nth intro: nth_equalityI)

lemma DataTrimFront_bytes: "n \<le> dlength d \<Longrightarrow> dbytes (DataTrimFront d n) = drop n (dbytes d)"
  by (cases d) (auto simp: DataTrimFront_def DataResize_def)

lemma DataDelete_bytes:
  "start + len \<le> dlength d
   \<Longrightarrow> dbytes (DataDelete d start len) = take start (dbytes d) @ drop (start + len) (dbytes d)"
  by (cases d) (auto simp: DataDelete_def DataShrink_def DataResize_def)

lemma DataInsert_bytes:
  assumes "i \<le> dlength d"
  shows "dbytes (DataInsert d i ins) = take i (dbytes d) @ dbytes ins @ drop i (dbytes d)"
  using assms
  by (cases d) (auto simp: DataInsert_def DataGrow_def DataResize_def split: data.split)

text \<open>Inserting and deleting the same range are inverse on the contents.\<close>

lemma DataDelete_DataInsert:
  assumes "i \<le> dlength d"
  shows "dbytes (DataDelete (DataInsert d i ins) i (dlength ins)) = dbytes d"
proof -
  have "i + dlength ins \<le> dlength (DataInsert d i ins)"
    using assms by (simp add: DataInsert_bytes)
  then show ?thesis using assms by (simp add: DataDelete_bytes DataInsert_bytes)
qed

section \<open>Comparison\<close>

text \<open>The result of \<open>memcmp\<close> over the first \<open>n\<close> bytes, of which C fixes the sign.\<close>

fun memcmp :: "bytes \<Rightarrow> bytes \<Rightarrow> nat \<Rightarrow> int" where
  "memcmp (x # xs) (y # ys) (Suc n) =
     (if x < y then - 1 else if y < x then 1 else memcmp xs ys n)"
| "memcmp _ _ _ = 0"

definition DataCompare :: "data \<Rightarrow> data \<Rightarrow> int" where
  "DataCompare a b =
     (let r = memcmp (dbytes a) (dbytes b) (min (dlength a) (dlength b)) in
      if dlength a = dlength b \<or> r \<noteq> 0 then r
      else sint (of_nat (dlength a) - of_nat (dlength b) :: u32))"

definition DataEqual :: "data \<Rightarrow> data \<Rightarrow> bool" where
  "DataEqual a b \<longleftrightarrow> DataCompare a b = 0"

fun DatasEqual :: "data list \<Rightarrow> data list \<Rightarrow> bool" where
  "DatasEqual [] [] \<longleftrightarrow> True"
| "DatasEqual (a # as) (b # bs) \<longleftrightarrow> DataEqual a b \<and> DatasEqual as bs"
| "DatasEqual _ _ \<longleftrightarrow> False"

lemma memcmp_eq_0: "n \<le> length xs \<Longrightarrow> n \<le> length ys \<Longrightarrow> memcmp xs ys n = 0 \<longleftrightarrow> take n xs = take n ys"
  by (induction xs ys n rule: memcmp.induct) (auto simp: not_less)

lemma memcmp_antisym: "memcmp ys xs n = - memcmp xs ys n"
  by (induction xs ys n rule: memcmp.induct) auto

text \<open>
  The length difference is a 32-bit subtraction read as a signed int, so it has the right sign
  when both lengths are below \<open>2 ^ 31\<close>.
\<close>

definition small_data :: "data \<Rightarrow> bool" where
  "small_data d \<longleftrightarrow> dlength d < 2 ^ 31"

lemma sint_diff_small:
  assumes "m < 2 ^ 31" "n < 2 ^ 31"
  shows "sint (of_nat m - of_nat n :: u32) = int m - int n"
proof -
  have "sint (of_int (int m - int n) :: u32) = int m - int n"
    using assms by (subst signed_of_int) (auto simp: signed_take_bit_int_eq_self_iff)
  then show ?thesis by simp
qed

lemma memcmp_lexord:
  "xs < ys \<longleftrightarrow> memcmp xs ys (min (length xs) (length ys)) < 0
     \<or> memcmp xs ys (min (length xs) (length ys)) = 0 \<and> length xs < length ys"
proof (induction xs arbitrary: ys)
  case Nil
  then show ?case by (cases ys) auto
next
  case (Cons x xs)
  show ?case
  proof (cases ys)
    case Nil
    then show ?thesis by simp
  next
    case (Cons y ys')
    then show ?thesis using Cons.IH [of ys'] by auto
  qed
qed

lemma DataCompare_0_iff:
  assumes "small_data a" "small_data b"
  shows "DataCompare a b = 0 \<longleftrightarrow> dbytes a = dbytes b"
  using assms memcmp_eq_0 [of "min (dlength a) (dlength b)" "dbytes a" "dbytes b"]
  by (auto simp: DataCompare_def Let_def small_data_def sint_diff_small)

lemma DataCompare_neg_iff:
  assumes "small_data a" "small_data b"
  shows "DataCompare a b < 0 \<longleftrightarrow> dbytes a < dbytes b"
proof (cases "dbytes a = dbytes b")
  case True
  then show ?thesis using DataCompare_0_iff [OF assms] by simp
next
  case False
  then show ?thesis
    using assms memcmp_lexord [of "dbytes a" "dbytes b"]
      memcmp_eq_0 [of "dlength a" "dbytes a" "dbytes b"]
    by (auto simp: DataCompare_def Let_def small_data_def sint_diff_small split: if_splits)
qed

lemma DataCompare_antisym:
  "small_data a \<Longrightarrow> small_data b \<Longrightarrow> DataCompare b a = - DataCompare a b"
  by (auto simp: DataCompare_def Let_def small_data_def sint_diff_small
      memcmp_antisym [of "dbytes b" "dbytes a"] min.commute)

lemma DataCompare_pos_iff:
  "small_data a \<Longrightarrow> small_data b \<Longrightarrow> DataCompare a b > 0 \<longleftrightarrow> dbytes b < dbytes a"
  using DataCompare_neg_iff [of b a] DataCompare_antisym [of a b] by auto

lemmas DataCompare_iffs = DataCompare_0_iff DataCompare_neg_iff DataCompare_pos_iff

end
