(* ===== verification/Data_Lists.thy ===== *)
theory Data_Lists
  imports Data_Values
begin

text \<open>
  The \<open>Datas\<close> arrays of \<open>src/code/Data.c\<close> at the contents level: indexed access and update with
  the source's \<open>abort()\<close> guards, searching by content, sorting through \<open>qsort\<close>, and the
  length-prefixed serialisation with its decoder. \<open>qsort\<close> fixes the result only up to the order
  of elements the comparison calls equal; the insertion sort below is one such result and every
  fact used about it is that it permutes its input and sorts it.
\<close>

section \<open>Arrays\<close>

type_synonym datas = "data list"

definition DatasAddCopy :: "datas \<Rightarrow> data \<Rightarrow> datas" where
  "DatasAddCopy ds d = ds @ [DataCopyData d]"

definition DatasAddRef :: "datas \<Rightarrow> data \<Rightarrow> datas" where
  "DatasAddRef ds d = ds @ [d]"

definition DatasAddRefIndex :: "datas \<Rightarrow> data \<Rightarrow> nat \<Rightarrow> datas" where
  "DatasAddRefIndex ds d i = take i ds @ d # drop i ds"

definition DatasAddCopyFront :: "datas \<Rightarrow> data \<Rightarrow> datas" where
  "DatasAddCopyFront ds d = DataCopyData d # ds"

fun DatasAddDatasCopy :: "datas \<Rightarrow> datas \<Rightarrow> datas" where
  "DatasAddDatasCopy ds [] = ds"
| "DatasAddDatasCopy ds (a # as) = DatasAddDatasCopy (DatasAddCopy ds a) as"

definition DatasCopy :: "datas \<Rightarrow> datas" where
  "DatasCopy ds = DatasAddDatasCopy [] ds"

definition DatasRemoveIndexTake :: "datas \<Rightarrow> int \<Rightarrow> fault + datas" where
  "DatasRemoveIndexTake ds i =
     (if i < 0 \<or> i \<ge> int (length ds) then Inl Abort
      else Inr (take (nat i) ds @ drop (nat i + 1) ds))"

definition DatasRemoveIndex :: "datas \<Rightarrow> int \<Rightarrow> fault + datas" where
  "DatasRemoveIndex ds i =
     (if i < 0 \<or> i \<ge> int (length ds) then Inl Abort else DatasRemoveIndexTake ds i)"

definition DatasRemoveLast :: "datas \<Rightarrow> fault + datas" where
  "DatasRemoveLast ds = DatasRemoveIndex ds (int (length ds) - 1)"

definition DatasReplaceIndexCopy :: "datas \<Rightarrow> int \<Rightarrow> data \<Rightarrow> fault + datas" where
  "DatasReplaceIndexCopy ds i d =
     (case DatasRemoveIndex ds i of Inl e \<Rightarrow> Inl e
      | Inr ds' \<Rightarrow> Inr (DatasAddRefIndex ds' (DataCopyData d) (nat i)))"

definition DatasFirst :: "datas \<Rightarrow> data" where
  "DatasFirst ds = (case ds of [] \<Rightarrow> DataNull | d # _ \<Rightarrow> d)"

definition DatasLast :: "datas \<Rightarrow> data" where
  "DatasLast ds = (if ds = [] then DataNull else ds ! (length ds - 1))"

definition DatasIndex :: "datas \<Rightarrow> int \<Rightarrow> fault + data" where
  "DatasIndex ds i = (if i < 0 \<or> i \<ge> int (length ds) then Inl Abort else Inr (ds ! nat i))"

definition DatasTakeFirst :: "datas \<Rightarrow> fault + data \<times> datas" where
  "DatasTakeFirst ds = (case DatasRemoveIndexTake ds 0 of Inl e \<Rightarrow> Inl e
     | Inr ds' \<Rightarrow> Inr (DatasFirst ds, ds'))"

definition DatasTakeLast :: "datas \<Rightarrow> fault + data \<times> datas" where
  "DatasTakeLast ds = (case DatasRemoveIndexTake ds (int (length ds) - 1) of Inl e \<Rightarrow> Inl e
     | Inr ds' \<Rightarrow> Inr (DatasLast ds, ds'))"

definition same_content :: "data \<Rightarrow> data \<Rightarrow> bool" where
  "same_content a b \<longleftrightarrow> dlength a = dlength b \<and> memcmp (dbytes a) (dbytes b) (dlength b) = 0"

fun DatasHasMatchingData :: "datas \<Rightarrow> data \<Rightarrow> nat" where
  "DatasHasMatchingData [] d = 0"
| "DatasHasMatchingData (x # xs) d =
     (if same_content x d then 1 else 0) + DatasHasMatchingData xs d"

fun matching_from :: "datas \<Rightarrow> data \<Rightarrow> nat \<Rightarrow> int" where
  "matching_from [] d i = - 1"
| "matching_from (x # xs) d i = (if same_content x d then int i else matching_from xs d (i + 1))"

definition DatasMatchingDataIndex :: "datas \<Rightarrow> data \<Rightarrow> int" where
  "DatasMatchingDataIndex ds d = matching_from ds d 0"

subsection \<open>Facts\<close>

lemma DatasAddDatasCopy_append [simp]: "DatasAddDatasCopy ds as = ds @ as"
  by (induction ds as rule: DatasAddDatasCopy.induct) (auto simp: DatasAddCopy_def)

lemma DatasCopy_id [simp]: "DatasCopy ds = ds"
  by (simp add: DatasCopy_def)

lemma DatasReplaceIndexCopy_update:
  assumes "0 \<le> i" "i < int (length ds)"
  shows "DatasReplaceIndexCopy ds i d = Inr (ds[nat i := d])"
proof -
  have "nat i < length ds" using assms by simp
  then have "min (nat i) (length ds) = nat i" by simp
  then show ?thesis
    using assms
    by (simp add: DatasReplaceIndexCopy_def DatasRemoveIndex_def DatasRemoveIndexTake_def
        DatasAddRefIndex_def upd_conv_take_nth_drop not_le)
qed

lemma DatasTakeLast_append: "DatasTakeLast (ds @ [d]) = Inr (d, ds)"
  by (simp add: DatasTakeLast_def DatasRemoveIndexTake_def DatasLast_def)

lemma same_content_iff [simp]: "same_content a b \<longleftrightarrow> dbytes a = dbytes b"
  using memcmp_eq_0 [of "dlength b" "dbytes a" "dbytes b"] by (auto simp: same_content_def)

lemma DatasHasMatchingData_pos:
  "DatasHasMatchingData ds d > 0 \<longleftrightarrow> (\<exists>x \<in> set ds. dbytes x = dbytes d)"
  by (induction ds) auto

section \<open>Sorting\<close>

fun qsort_insert :: "('a \<Rightarrow> 'a \<Rightarrow> int) \<Rightarrow> 'a \<Rightarrow> 'a list \<Rightarrow> 'a list" where
  "qsort_insert cmp x [] = [x]"
| "qsort_insert cmp x (y # ys) = (if cmp x y \<le> 0 then x # y # ys else y # qsort_insert cmp x ys)"

fun qsort :: "('a \<Rightarrow> 'a \<Rightarrow> int) \<Rightarrow> 'a list \<Rightarrow> 'a list" where
  "qsort cmp [] = []"
| "qsort cmp (x # xs) = qsort_insert cmp x (qsort cmp xs)"

definition DatasSort :: "datas \<Rightarrow> (data \<Rightarrow> data \<Rightarrow> int) \<Rightarrow> datas" where
  "DatasSort ds cmp = qsort cmp ds"

text \<open>
  The contract of a comparison: on the elements in question it orders by a key. Sorting facts
  are proved once under it and interpreted for each comparison function of the program.
\<close>

locale comparison =
  fixes cmp :: "'a \<Rightarrow> 'a \<Rightarrow> int"
    and key :: "'a \<Rightarrow> 'k::linorder"
    and dom_ok :: "'a \<Rightarrow> bool"
  assumes cmp_le: "dom_ok x \<Longrightarrow> dom_ok y \<Longrightarrow> cmp x y \<le> 0 \<longleftrightarrow> key x \<le> key y"
begin

lemma mset_insert: "mset (qsort_insert cmp x xs) = {#x#} + mset xs"
  by (induction xs) auto

lemma mset_qsort: "mset (qsort cmp xs) = mset xs"
  by (induction xs) (auto simp: mset_insert)

lemma set_qsort: "set (qsort cmp xs) = set xs"
  by (metis mset_qsort set_mset_mset)

lemma set_insert: "set (qsort_insert cmp x xs) = insert x (set xs)"
  by (metis mset_insert set_mset_mset set_mset_add_mset_insert add_mset_add_single union_commute)

lemma sorted_insert:
  "dom_ok x \<Longrightarrow> \<forall>y \<in> set xs. dom_ok y \<Longrightarrow> sorted (map key xs)
   \<Longrightarrow> sorted (map key (qsort_insert cmp x xs))"
  by (induction xs) (auto simp: cmp_le set_insert)

lemma sorted_qsort:
  "\<forall>y \<in> set xs. dom_ok y \<Longrightarrow> sorted (map key (qsort cmp xs))"
  by (induction xs) (auto simp: sorted_insert set_qsort)

lemma keys_qsort:
  "\<forall>y \<in> set xs. dom_ok y \<Longrightarrow> map key (qsort cmp xs) = sort (map key xs)"
  by (metis mset_map mset_qsort properties_for_sort sorted_qsort)

lemma qsort_sorted_id:
  "\<forall>y \<in> set xs. dom_ok y \<Longrightarrow> sorted (map key xs) \<Longrightarrow> qsort cmp xs = xs"
proof (induction xs)
  case Nil
  then show ?case by simp
next
  case (Cons x xs)
  then show ?case by (cases xs) (auto simp: cmp_le)
qed

end

interpretation data_order: comparison DataCompare dbytes small_data
proof
  fix x y :: data
  assume "small_data x" "small_data y"
  then show "DataCompare x y \<le> 0 \<longleftrightarrow> dbytes x \<le> dbytes y"
    using DataCompare_pos_iff [of x y] by (simp add: not_less [symmetric])
qed

section \<open>Serialisation\<close>

fun DatasSerialize_from :: "data \<Rightarrow> datas \<Rightarrow> data" where
  "DatasSerialize_from acc [] = acc"
| "DatasSerialize_from acc (d # ds) =
     DatasSerialize_from
       (DataAppend (DataAppend acc (Bytes (le_bytes 4 (of_nat (dlength d) :: u32))))
                   (Bytes (dbytes d))) ds"

definition DatasSerialize :: "datas \<Rightarrow> data" where
  "DatasSerialize ds = DatasSerialize_from (DataNew 0) ds"

text \<open>
  The loop of \<open>DatasDeserialize\<close> on the bytes from index \<open>i\<close> on: it stops at the end, at a
  truncated length field and at a length that runs past the end.
\<close>

function deserialize_loop :: "bytes \<Rightarrow> datas" where
  "deserialize_loop bs =
     (if bs = [] then []
      else if length bs < 4 then []
      else let len = unat (le_word (take 4 bs) :: u32); rest = drop 4 bs in
           if len > length rest then []
           else Bytes (take len rest) # deserialize_loop (drop len rest))"
  by pat_completeness auto
termination
  by (relation "measure length") auto

declare deserialize_loop.simps [simp del]

definition DatasDeserialize :: "data \<Rightarrow> datas" where
  "DatasDeserialize d = deserialize_loop (dbytes d)"

text \<open>What serialisation cannot tell apart: the null object and an empty buffer.\<close>

definition renull :: "data \<Rightarrow> data" where
  "renull d = Bytes (dbytes d)"

definition frame :: "data \<Rightarrow> bytes" where
  "frame d = le_bytes 4 (of_nat (dlength d) :: u32) @ dbytes d"

lemma DatasSerialize_from_concat:
  "dbytes (DatasSerialize_from acc ds) = dbytes acc @ concat (map frame ds)"
  by (induction acc ds rule: DatasSerialize_from.induct) (auto simp: frame_def)

lemma DatasSerialize_bytes: "dbytes (DatasSerialize ds) = concat (map frame ds)"
  by (simp add: DatasSerialize_def DatasSerialize_from_concat DataNew_def)

lemma deserialize_frame:
  assumes "dlength d < 2 ^ 32"
  shows "deserialize_loop (frame d @ bs) = renull d # deserialize_loop bs"
proof -
  let ?h = "le_bytes 4 (of_nat (dlength d) :: u32)"
  have len: "unat (le_word ?h :: u32) = dlength d"
    using assms by (simp add: le_word_le_bytes unat_of_nat_small del: le_bytes_numeral)
  have split: "frame d @ bs = ?h @ dbytes d @ bs" by (simp add: frame_def)
  have h4: "length ?h = 4" by (rule length_le_bytes)
  show ?thesis
    unfolding split
    by (subst deserialize_loop.simps)
      (use len h4 in \<open>simp add: renull_def Let_def del: le_bytes_numeral\<close>)
qed

lemma deserialize_concat:
  "\<forall>d \<in> set ds. dlength d < 2 ^ 32 \<Longrightarrow> deserialize_loop (concat (map frame ds)) = map renull ds"
proof (induction ds)
  case Nil
  then show ?case by (simp add: deserialize_loop.simps)
next
  case (Cons d ds)
  then show ?case by (simp add: deserialize_frame)
qed

end
