(* ===== verification/Byte_IO.thy ===== *)
theory Byte_IO
  imports Data_Lists
begin

text \<open>
  The byte readers and writers of \<open>src/code/BTCUtil.c\<close>. A read position \<open>(ptr, end)\<close> is the list
  of the bytes from \<open>ptr\<close> to \<open>end\<close>; a reader returns its value and the bytes left. A read past
  the end gives 0 (or the null object) and moves the position to the end, as in the source.
\<close>

section \<open>Fixed-width integers\<close>

definition read_le :: "nat \<Rightarrow> bytes \<Rightarrow> 'a::len word \<times> bytes" where
  "read_le n bs = (if length bs \<ge> n then (le_word (take n bs), drop n bs) else (0, []))"

definition uint8readP :: "bytes \<Rightarrow> u8 \<times> bytes" where
  "uint8readP bs = read_le 1 bs"

definition uint16readP :: "bytes \<Rightarrow> u16 \<times> bytes" where
  "uint16readP bs = read_le 2 bs"

definition uint32readP :: "bytes \<Rightarrow> u32 \<times> bytes" where
  "uint32readP bs = read_le 4 bs"

definition uint64readP :: "bytes \<Rightarrow> u64 \<times> bytes" where
  "uint64readP bs = read_le 8 bs"

definition uint8read :: "data \<Rightarrow> u8" where
  "uint8read d = (if dlength d = 0 then 0 else le_word (take 1 (dbytes d)))"

definition uint16read :: "data \<Rightarrow> u16" where
  "uint16read d = (if dlength d < 2 then 0 else le_word (take 2 (dbytes d)))"

definition uint32read :: "data \<Rightarrow> u32" where
  "uint32read d = (if dlength d < 4 then 0 else le_word (take 4 (dbytes d)))"

definition uint64read :: "data \<Rightarrow> u64" where
  "uint64read d = (if dlength d < 8 then 0 else le_word (take 8 (dbytes d)))"

definition uint8D :: "u8 \<Rightarrow> data" where
  "uint8D number = Bytes (le_bytes 1 number)"

definition uint16D :: "u16 \<Rightarrow> data" where
  "uint16D number = Bytes (le_bytes 2 number)"

definition uint32D :: "u32 \<Rightarrow> data" where
  "uint32D number = Bytes (le_bytes 4 number)"

definition uint64D :: "u64 \<Rightarrow> data" where
  "uint64D number = Bytes (le_bytes 8 number)"

lemmas uintD_defs = uint8D_def uint16D_def uint32D_def uint64D_def
lemmas uintreadP_defs = uint8readP_def uint16readP_def uint32readP_def uint64readP_def

section \<open>Byte strings\<close>

text \<open>\<open>DataRef((void*)*ptr, (uint32_t)bytes)\<close>: the length is cut to 32 bits.\<close>

definition readBytesUnsafe :: "u64 \<Rightarrow> bytes \<Rightarrow> data \<times> bytes" where
  "readBytesUnsafe n bs =
     (if length bs \<ge> unat n
      then (Bytes (take (unat (ucast n :: u32)) bs), drop (unat n) bs)
      else (DataNull, []))"

definition readBytes :: "u64 \<Rightarrow> bytes \<Rightarrow> data \<times> bytes" where
  "readBytes n bs = (let (d, rest) = readBytesUnsafe n bs in (DataCopyData d, rest))"

section \<open>Variable-length integers\<close>

definition readVarInt :: "bytes \<Rightarrow> u64 \<times> bytes" where
  "readVarInt bs =
     (let (result, bs) = uint8readP bs in
      if result < 253 then (ucast result, bs)
      else if result < 254 then (let (r, bs) = uint16readP bs in (ucast r, bs))
      else if result < 255 then (let (r, bs) = uint32readP bs in (ucast r, bs))
      else uint64readP bs)"

definition varIntD :: "u64 \<Rightarrow> data" where
  "varIntD number =
     (let d = DataNew 0 in
      if number AND 0xFFFFFFFF00000000 \<noteq> 0 then
        DataAdd (DataAdd d (uint8D 0xff)) (uint64D number)
      else if number AND 0xFFFF0000 \<noteq> 0 then
        DataAdd (DataAdd d (uint8D 0xfe)) (uint32D (ucast number))
      else if number AND 0xFF00 \<noteq> 0 then
        DataAdd (DataAdd d (uint8D 0xfd)) (uint16D (ucast number))
      else DataAdd d (uint8D (ucast number)))"

section \<open>Hexadecimal text\<close>

text \<open>
  A C string inside a buffer is its bytes up to the first zero byte. Character codes are written
  as numbers: \<open>0x30\<close> is the digit 0, \<open>0x41\<close> and \<open>0x61\<close> are the letters A and a.
\<close>

definition cstr :: "data \<Rightarrow> bytes" where
  "cstr d = takeWhile (\<lambda>b. b \<noteq> 0) (dbytes d)"

definition hex_digit :: "u8 \<Rightarrow> u8" where
  "hex_digit n = (if n < 10 then 0x30 + n else 0x61 + (n - 10))"

definition toHex :: "data \<Rightarrow> data" where
  "toHex d = Bytes (concat (map (\<lambda>b. [hex_digit (drop_bit 4 b), hex_digit (b AND 15)]) (dbytes d)) @ [0])"

definition parseHexChar :: "u8 \<Rightarrow> u8" where
  "parseHexChar c =
     (if c \<ge> 0x61 \<and> c \<le> 0x66 then c - 0x61 + 10
      else if c \<ge> 0x41 \<and> c \<le> 0x46 then c - 0x41 + 10
      else if c \<ge> 0x30 \<and> c \<le> 0x39 then c - 0x30
      else 0)"

text \<open>With an odd number of characters the last pair takes the terminating zero byte.\<close>

fun fromHex_loop :: "data \<Rightarrow> bytes \<Rightarrow> data" where
  "fromHex_loop acc [] = acc"
| "fromHex_loop acc [c] = DataAdd acc (Bytes [push_bit 4 (parseHexChar c) OR parseHexChar 0])"
| "fromHex_loop acc (c # c' # cs) =
     fromHex_loop (DataAdd acc (Bytes [push_bit 4 (parseHexChar c) OR parseHexChar c'])) cs"

definition fromHex :: "bytes \<Rightarrow> data" where
  "fromHex str = fromHex_loop (DataNew 0) str"

section \<open>Padding to cipher blocks\<close>

definition padData16 :: "data \<Rightarrow> data" where
  "padData16 dataIn =
     (let d = DataCopyData dataIn; padNum = (16 - of_nat (dlength d mod 16) :: u8) in
      foldl (\<lambda>d i. DataAdd d (uint8D padNum)) d [0..<unat padNum])"

definition unpadData16 :: "data \<Rightarrow> data" where
  "unpadData16 d =
     (if dlength d = 0 then DataCopyData d
      else let padNum = dbytes d ! (dlength d - 1) in
           if unat padNum > dlength d \<or> padNum > 16 then DataNull
           else DataCopyDataPart d 0 (dlength d - unat padNum))"

section \<open>Read-after-write\<close>

lemma read_le_append [codec]:
  fixes w :: "'a::len word"
  assumes "LENGTH('a) \<le> 8 * n"
  shows "read_le n (le_bytes n w @ bs) = (w, bs)"
  using assms by (simp add: read_le_def le_word_le_bytes)

lemma uint8readP_append [simp, codec]: "uint8readP (le_bytes (Suc 0) w @ bs) = (w, bs)"
  using read_le_append [of 1 w bs] by (simp add: uint8readP_def)

lemma uint8readP_Cons [simp]: "uint8readP (b # bs) = (b, bs)"
  using uint8readP_append [of b bs] by simp

lemma uint8readP_Nil [simp]: "uint8readP [] = (0, [])"
  by (simp add: uint8readP_def read_le_def)

lemma uint16readP_append [codec]: "uint16readP (le_bytes 2 w @ bs) = (w, bs)"
  by (simp add: uint16readP_def read_le_append del: le_bytes_numeral)

lemma uint32readP_append [codec]: "uint32readP (le_bytes 4 w @ bs) = (w, bs)"
  by (simp add: uint32readP_def read_le_append del: le_bytes_numeral)

lemma uint64readP_append [codec]: "uint64readP (le_bytes 8 w @ bs) = (w, bs)"
  by (simp add: uint64readP_def read_le_append del: le_bytes_numeral)

lemma uint32read_uint32D [codec]: "uint32read (uint32D w) = w"
  by (simp add: uint32read_def uint32D_def le_word_le_bytes del: le_bytes_numeral)

lemma uint64read_uint64D [codec]: "uint64read (uint64D w) = w"
  by (simp add: uint64read_def uint64D_def le_word_le_bytes del: le_bytes_numeral)

lemma unat_ucast_u32:
  "unat (n :: u64) < 2 ^ 32 \<Longrightarrow> unat (ucast n :: u32) = unat n"
  by (simp add: unsigned_ucast_eq take_bit_nat_eq_self)

lemma readBytes_append [codec]:
  assumes "length xs < 2 ^ 32"
  shows "readBytes (of_nat (length xs)) (xs @ bs) = (Bytes xs, bs)"
proof -
  have "unat (of_nat (length xs) :: u64) = length xs"
    using assms by (intro unat_of_nat_small) simp
  then show ?thesis
    using assms by (simp add: readBytes_def readBytesUnsafe_def unat_ucast_u32)
qed

text \<open>No reader gives back more bytes than it got.\<close>

lemma read_le_rest: "read_le n bs = (r, rest) \<Longrightarrow> length rest \<le> length bs"
  by (auto simp: read_le_def split: if_splits)

lemma uintreadP_rest:
  "uint8readP bs = (r8, rest) \<Longrightarrow> length rest \<le> length bs"
  "uint16readP bs = (r16, rest) \<Longrightarrow> length rest \<le> length bs"
  "uint32readP bs = (r32, rest) \<Longrightarrow> length rest \<le> length bs"
  "uint64readP bs = (r64, rest) \<Longrightarrow> length rest \<le> length bs"
  by (auto simp: uintreadP_defs dest: read_le_rest)

lemma uint8readP_rest_less: "bs \<noteq> [] \<Longrightarrow> uint8readP bs = (r, rest) \<Longrightarrow> length rest < length bs"
  by (cases bs) auto

lemma readVarInt_rest: "readVarInt bs = (r, rest) \<Longrightarrow> length rest \<le> length bs"
  by (fastforce simp: readVarInt_def split: prod.splits if_splits dest: uintreadP_rest)

lemma readBytesUnsafe_rest: "readBytesUnsafe n bs = (d, rest) \<Longrightarrow> length rest \<le> length bs"
  by (auto simp: readBytesUnsafe_def split: if_splits)

lemma readBytes_rest: "readBytes n bs = (d, rest) \<Longrightarrow> length rest \<le> length bs"
  by (auto simp: readBytes_def split: prod.splits dest: readBytesUnsafe_rest)

lemmas reader_rest = uintreadP_rest readVarInt_rest readBytesUnsafe_rest readBytes_rest

section \<open>The ranges of the variable-length encoding\<close>

lemma varint_masks:
  fixes n :: u64
  shows "n AND 0xFFFFFFFF00000000 = 0 \<longleftrightarrow> unat n < 2 ^ 32"
    and "unat n < 2 ^ 32 \<Longrightarrow> n AND 0xFFFF0000 = 0 \<longleftrightarrow> unat n < 2 ^ 16"
    and "unat n < 2 ^ 16 \<Longrightarrow> n AND 0xFF00 = 0 \<longleftrightarrow> unat n < 2 ^ 8"
proof -
  have m: "take_bit 64 (NOT (mask 32)) = (0xFFFFFFFF00000000 :: u64)"
    "take_bit 32 (NOT (mask 16)) = (0xFFFF0000 :: u64)"
    "take_bit 16 (NOT (mask 8)) = (0xFF00 :: u64)"
    by (simp_all add: mask_eq_exp_minus_1)
  have "unat n < 2 ^ 64" using unsigned_less [of n] by simp
  from and_high_mask [OF this, of 32]
  show "n AND 0xFFFFFFFF00000000 = 0 \<longleftrightarrow> unat n < 2 ^ 32" by (simp only: m)
  show "unat n < 2 ^ 32 \<Longrightarrow> n AND 0xFFFF0000 = 0 \<longleftrightarrow> unat n < 2 ^ 16"
    using and_high_mask [of n 32 16] by (simp only: m)
  show "unat n < 2 ^ 16 \<Longrightarrow> n AND 0xFF00 = 0 \<longleftrightarrow> unat n < 2 ^ 8"
    using and_high_mask [of n 16 8] by (simp only: m)
qed

lemma varIntD_bytes:
  "dbytes (varIntD n) =
     (if unat n < 2 ^ 8 then [ucast n]
      else if unat n < 2 ^ 16 then 0xfd # le_bytes 2 (ucast n :: u16)
      else if unat n < 2 ^ 32 then 0xfe # le_bytes 4 (ucast n :: u32)
      else 0xff # le_bytes 8 n)"
  using varint_masks [of n]
  by (auto simp: varIntD_def uintD_defs DataNew_def simp del: le_bytes_numeral)

lemma ucast_back:
  fixes n :: u64
  assumes "unat n < 2 ^ LENGTH('a::len)"
  shows "ucast (ucast n :: 'a word) = n"
proof -
  have "take_bit LENGTH('a) n = n" using assms by (simp only: take_bit_self_iff)
  then have "bit n i \<Longrightarrow> i < LENGTH('a)" for i by (metis bit_take_bit_iff)
  then show ?thesis by (intro bit_word_eqI) (auto simp: bit_simps)
qed

text \<open>The numbers whose encoding reads back.\<close>

definition varint_safe :: "u64 \<Rightarrow> bool" where
  "varint_safe n \<longleftrightarrow> unat n < 253 \<or> 256 \<le> unat n"

lemma readVarInt_varIntD [codec]:
  assumes "varint_safe n"
  shows "readVarInt (dbytes (varIntD n) @ bs) = (n, bs)"
proof -
  consider "unat n < 253" | "256 \<le> unat n" "unat n < 2 ^ 16" | "2 ^ 16 \<le> unat n" "unat n < 2 ^ 32"
    | "2 ^ 32 \<le> unat n"
    using assms unfolding varint_safe_def by (metis linorder_not_less)
  then show ?thesis
  proof cases
    case 1
    then have "unat (ucast n :: u8) = unat n"
      by (simp add: unsigned_ucast_eq take_bit_nat_eq_self)
    then have "(ucast n :: u8) < 253" using 1 by (simp add: word_less_nat_alt)
    then show ?thesis using 1 by (simp add: varIntD_bytes readVarInt_def ucast_back)
  next
    case 2
    then show ?thesis
      by (simp add: varIntD_bytes readVarInt_def ucast_back uint16readP_append del: le_bytes_numeral)
  next
    case 3
    then show ?thesis
      by (simp add: varIntD_bytes readVarInt_def ucast_back uint32readP_append del: le_bytes_numeral)
  next
    case 4
    then show ?thesis
      by (simp add: varIntD_bytes readVarInt_def uint64readP_append del: le_bytes_numeral)
  qed
qed

section \<open>Hexadecimal and padding facts\<close>

lemma less_16_cases:
  fixes x :: u8
  assumes "x < 16"
  shows "x \<in> {0, 1, 2, 3, 4, 5, 6, 7, 8, 9, 10, 11, 12, 13, 14, 15}"
proof -
  have "unat x < 16" using assms by (simp add: word_less_nat_alt)
  then have "unat x \<in> {0, 1, 2, 3, 4, 5, 6, 7, 8, 9, 10, 11, 12, 13, 14, 15}"
    by (simp only: insert_iff empty_iff) presburger
  then have "of_nat (unat x) \<in> (of_nat ` {0, 1, 2, 3, 4, 5, 6, 7, 8, 9, 10, 11, 12, 13, 14, 15} :: u8 set)"
    by (rule imageI)
  then show ?thesis by simp
qed

lemma parseHexChar_hex_digit: "x < 16 \<Longrightarrow> parseHexChar (hex_digit x) = x \<and> hex_digit x \<noteq> 0"
  by (drule less_16_cases) (elim insertE emptyE; simp add: parseHexChar_def hex_digit_def)

lemma nibbles_small: "drop_bit 4 (b :: u8) < 16" "b AND 15 < 16"
proof -
  have "unat (drop_bit 4 b) = unat b div 16" by (simp only: unat_drop_bit) simp
  then have "unat (drop_bit 4 b) < 16" using unsigned_less [of b, where 'a = nat] by simp
  then show "drop_bit 4 b < 16" by (simp add: word_less_nat_alt)
  have "b AND 15 \<le> 15" by (rule word_and_le1)
  then show "b AND 15 < 16" by (simp add: order.strict_trans1)
qed

lemma nibbles_join: "push_bit 4 (drop_bit 4 b) OR (b AND 15) = (b :: u8)"
proof -
  have "(15 :: u8) = mask 4" by (simp add: mask_eq_exp_minus_1)
  then show ?thesis by (auto simp: bit_eq_iff bit_simps)
qed

lemma fromHex_loop_pairs:
  "fromHex_loop (Bytes as) (concat (map (\<lambda>b. [hex_digit (drop_bit 4 b), hex_digit (b AND 15)]) bs))
     = Bytes (as @ bs)"
  by (induction bs arbitrary: as)
    (auto simp: parseHexChar_hex_digit nibbles_small nibbles_join)

lemma padData16_bytes:
  "dbytes (padData16 d) = dbytes d @ replicate (16 - dlength d mod 16) (of_nat (16 - dlength d mod 16))"
proof -
  define m where "m = dlength d mod 16"
  have m: "m < 16" by (simp add: m_def)
  then have p: "16 - of_nat m = (of_nat (16 - m) :: u8)"
    using of_nat_diff [of m 16, where 'a = u8] by simp
  have n: "unat (of_nat (16 - m) :: u8) = 16 - m" by (rule unat_of_nat_small) simp
  have "dbytes (foldl (\<lambda>d i. DataAdd d (uint8D c)) d xs) = dbytes d @ replicate (length xs) c" for c xs
    by (induction xs arbitrary: d) (auto simp: uint8D_def replicate_append_same)
  from this [of "of_nat (16 - m)" "[0..<16 - m]"] show ?thesis
    unfolding padData16_def Let_def DataCopyData_id m_def [symmetric] p n by simp
qed

lemma unpad_replicate:
  assumes "dbytes p = xs @ replicate n c" "0 < n" "n \<le> 16" "unat c = n"
  shows "unpadData16 p = Bytes xs"
proof -
  have "dbytes p ! (dlength p - 1) = c"
    using assms(2) by (cases n) (simp_all add: assms(1) nth_append del: replicate_Suc)
  moreover have "\<not> c > 16" using assms(3,4) by (simp add: word_less_nat_alt)
  ultimately show ?thesis
    using assms(2,4) by (simp add: unpadData16_def DataCopyDataPart_def Let_def) (simp add: assms(1))
qed

section \<open>Properties\<close>

text \<open>
  A variable-length integer reads back from its encoding, whatever follows it, exactly when
  it is below 253 or at least 256: the encoder writes 253, 254 and 255 as a single byte that the
  reader takes for a prefix.
\<close>

lemma varint_roundtrip_iff:
  "(\<forall>bs. readVarInt (dbytes (varIntD n) @ bs) = (n, bs)) \<longleftrightarrow> unat n < 253 \<or> 256 \<le> unat n"
proof
  assume "unat n < 253 \<or> 256 \<le> unat n"
  then show "\<forall>bs. readVarInt (dbytes (varIntD n) @ bs) = (n, bs)"
    by (simp add: readVarInt_varIntD varint_safe_def)
next
  assume *: "\<forall>bs. readVarInt (dbytes (varIntD n) @ bs) = (n, bs)"
  show "unat n < 253 \<or> 256 \<le> unat n"
  proof (rule ccontr)
    assume "\<not> (unat n < 253 \<or> 256 \<le> unat n)"
    then have range: "253 \<le> unat n" "unat n < 256" by auto
    then have "unat (ucast n :: u8) = unat n" by (simp add: unsigned_ucast_eq take_bit_nat_eq_self)
    then have "\<not> (ucast n :: u8) < 253" using range by (simp add: word_less_nat_alt)
    then have "fst (readVarInt (dbytes (varIntD n) @ [])) = 0"
      using range by (simp add: varIntD_bytes readVarInt_def uintreadP_defs read_le_def)
    moreover have "fst (readVarInt (dbytes (varIntD n) @ [])) = n" using * by (metis fst_conv)
    ultimately show False using range by simp
  qed
qed

text \<open>
  Hexadecimal text decodes to the bytes it was printed from.
\<close>

lemma hex_roundtrip: "fromHex (cstr (toHex d)) = Bytes (dbytes d)"
proof -
  let ?h = "concat (map (\<lambda>b. [hex_digit (drop_bit 4 b), hex_digit (b AND 15)]) (dbytes d))"
  have "\<forall>c \<in> set ?h. c \<noteq> 0" using parseHexChar_hex_digit nibbles_small by auto
  then have "takeWhile (\<lambda>b. b \<noteq> 0) (?h @ [0]) = ?h @ takeWhile (\<lambda>b. b \<noteq> 0) [0]"
    by (intro takeWhile_append2) blast
  then have "cstr (toHex d) = ?h" by (simp add: cstr_def toHex_def)
  then show ?thesis by (simp add: fromHex_def DataNew_def fromHex_loop_pairs)
qed

text \<open>
  Padding fills the last cipher block (a whole block when the input already ends on a block
  boundary) and unpadding restores the contents.
\<close>

lemma pad_roundtrip:
  "dlength (padData16 d) mod 16 = 0 \<and> dlength d < dlength (padData16 d)
   \<and> unpadData16 (padData16 d) = Bytes (dbytes d)"
proof -
  let ?n = "16 - dlength d mod 16"
  have n: "0 < ?n" "?n \<le> 16" by (simp_all add: mod_less_divisor)
  have len: "dlength (padData16 d) = dlength d + ?n" by (simp add: padData16_bytes)
  have "x + (16 - x mod 16) = 16 * (x div 16 + 1)" for x :: nat by presburger
  then have m: "dlength (padData16 d) mod 16 = 0" using len by simp
  have "unat (of_nat ?n :: u8) = ?n" by (rule unat_of_nat_small) simp
  then have "unpadData16 (padData16 d) = Bytes (dbytes d)"
    using n by (intro unpad_replicate [OF padData16_bytes]) simp_all
  then show ?thesis using m len n by simp
qed

end
