(* ===== verification/Block_Hash.thy ===== *)
theory Block_Hash
  imports Prelude
begin

text \<open>
  What the Merkle-Damgard hashes share: a compression function iterated over blocks of a fixed
  size, and the bytes left over after the last full block.
\<close>

definition tail_n :: "nat \<Rightarrow> bytes \<Rightarrow> bytes" where
  "tail_n n bs = drop (n * (length bs div n)) bs"

lemma length_tail_n: "length (tail_n n bs) = length bs mod n"
  by (simp add: tail_n_def minus_mult_div_eq_mod)

lemma tail_n_drop: "0 < n \<Longrightarrow> n \<le> length bs \<Longrightarrow> tail_n n (drop n bs) = tail_n n bs"
proof -
  assume a: "0 < n" "n \<le> length bs"
  then have "n * ((length bs - n) div n) + n = n * (length bs div n)"
    by (simp add: le_div_geq [of n "length bs"])
  then show ?thesis by (simp add: tail_n_def add.commute)
qed

lemma tail_n_small: "length bs < n \<Longrightarrow> tail_n n bs = bs"
  by (simp add: tail_n_def)

lemma tail_n_snoc:
  assumes "0 < n"
  shows "tail_n n (bs @ [b]) = (if Suc (length bs mod n) = n then [] else tail_n n bs @ [b])"
proof (cases "Suc (length bs mod n) = n")
  case True
  then have "length (bs @ [b]) mod n = 0" by (simp add: mod_Suc)
  then show ?thesis using True length_tail_n [of n "bs @ [b]"] by simp
next
  case False
  then have "Suc (length bs) div n = length bs div n" by (simp add: div_Suc mod_Suc)
  then show ?thesis using False by (simp add: tail_n_def)
qed

text \<open>Bytes appended to a tail: the tail of the whole.\<close>

lemma tail_n_append: "tail_n n (bs @ cs) = tail_n n (tail_n n bs @ cs)"
proof (cases "n = 0")
  case False
  let ?q = "length bs div n" and ?r = "length bs mod n"
  have len: "length (bs @ cs) = n * ?q + (?r + length cs)"
    by (simp add: add.assoc [symmetric])
  have "n * (length (bs @ cs) div n) = n * ?q + n * ((?r + length cs) div n)"
    unfolding len div_mult_self4 [OF False] by (simp only: distrib_left)
  then have "tail_n n (bs @ cs) = drop (n * ((?r + length cs) div n)) (drop (n * ?q) (bs @ cs))"
    by (simp add: tail_n_def add.commute)
  also have "drop (n * ?q) (bs @ cs) = tail_n n bs @ cs"
    by (simp add: tail_n_def)
  finally show ?thesis by (simp add: tail_n_def [of n "tail_n n bs @ cs"] length_tail_n)
qed (simp add: tail_n_def)

text \<open>The block size of SHA-256 and RIPEMD-160.\<close>

abbreviation tail_of :: "bytes \<Rightarrow> bytes" where
  "tail_of bs \<equiv> tail_n 64 bs"

lemmas length_tail_of = length_tail_n [of 64]
lemmas tail_of_small = tail_n_small [of _ 64]

lemma tail_of_drop: "64 \<le> length bs \<Longrightarrow> tail_of (drop 64 bs) = tail_of bs"
  by (rule tail_n_drop) simp_all

lemma tail_of_snoc:
  "tail_of (bs @ [b]) = (if length bs mod 64 = 63 then [] else tail_of bs @ [b])"
  by (subst tail_n_snoc) simp_all

locale block_chain =
  fixes size :: nat
    and comp :: "'s \<Rightarrow> bytes \<Rightarrow> 's"
    and blocks :: "'s \<Rightarrow> bytes \<Rightarrow> 's"
  assumes size_pos: "0 < size"
    and blocks_step:
    "blocks st bs = (if length bs < size then st else blocks (comp st (take size bs)) (drop size bs))"
begin

lemma small: "length bs < size \<Longrightarrow> blocks st bs = st"
  by (subst blocks_step) simp

lemma block: "length d = size \<Longrightarrow> blocks st (d @ cs) = blocks (comp st d) cs"
  by (subst blocks_step) simp

lemma one: "length d = size \<Longrightarrow> blocks st d = comp st d"
  using block [of d st "[]"] size_pos by (simp add: small)

lemma step_append:
  assumes "size \<le> length bs"
  shows "blocks st (bs @ cs) = blocks (comp st (take size bs)) (drop size bs @ cs)"
  using assms block [of "take size bs" st "drop size bs @ cs"] by (simp flip: append_assoc)

lemma append: "blocks st (bs @ cs) = blocks (blocks st bs) (tail_n size bs @ cs)"
proof (induction "length bs" arbitrary: st bs rule: less_induct)
  case less
  show ?case
  proof (cases "length bs < size")
    case True
    then show ?thesis by (simp add: tail_n_small small)
  next
    case False
    then have "blocks st (bs @ cs) = blocks (blocks (comp st (take size bs)) (drop size bs)) (tail_n size bs @ cs)"
      using less [of "drop size bs" "comp st (take size bs)"] size_pos by (simp add: step_append tail_n_drop)
    also have "blocks (comp st (take size bs)) (drop size bs) = blocks st bs"
      using False step_append [of bs st "[]"] by simp
    finally show ?thesis .
  qed
qed

end

end
