(* ===== verification/Sha256.thy ===== *)
theory Sha256
  imports Byte_IO Block_Hash
begin

text \<open>
  \<open>src/libraries/sha256/sha256.c\<close> and its caller \<open>sha256\<close> of \<open>src/code/BTCUtil.c\<close>: the
  streaming context with its 64-byte buffer, the compression function, the padding of
  \<open>sha256_final\<close>. The reference definition hashes the padded message block by block; the
  streaming code is shown to compute it for any sequence of updates. The 32-bit counter of
  \<open>sha256_update\<close> limits one call to less than 2 to the 32 bytes; longer calls are not modelled.
\<close>

section \<open>The compression function\<close>

definition ROTRIGHT :: "u32 \<Rightarrow> nat \<Rightarrow> u32" where
  "ROTRIGHT a b = drop_bit b a OR push_bit (32 - b) a"

definition CH :: "u32 \<Rightarrow> u32 \<Rightarrow> u32 \<Rightarrow> u32" where
  "CH x y z = (x AND y) XOR (NOT x AND z)"

definition MAJ :: "u32 \<Rightarrow> u32 \<Rightarrow> u32 \<Rightarrow> u32" where
  "MAJ x y z = (x AND y) XOR (x AND z) XOR (y AND z)"

definition EP0 :: "u32 \<Rightarrow> u32" where
  "EP0 x = ROTRIGHT x 2 XOR ROTRIGHT x 13 XOR ROTRIGHT x 22"

definition EP1 :: "u32 \<Rightarrow> u32" where
  "EP1 x = ROTRIGHT x 6 XOR ROTRIGHT x 11 XOR ROTRIGHT x 25"

definition SIG0 :: "u32 \<Rightarrow> u32" where
  "SIG0 x = ROTRIGHT x 7 XOR ROTRIGHT x 18 XOR drop_bit 3 x"

definition SIG1 :: "u32 \<Rightarrow> u32" where
  "SIG1 x = ROTRIGHT x 17 XOR ROTRIGHT x 19 XOR drop_bit 10 x"

definition sha256_k :: "u32 list" where
  "sha256_k = concat [
    [0x428a2f98, 0x71374491, 0xb5c0fbcf, 0xe9b5dba5, 0x3956c25b, 0x59f111f1, 0x923f82a4, 0xab1c5ed5],
    [0xd807aa98, 0x12835b01, 0x243185be, 0x550c7dc3, 0x72be5d74, 0x80deb1fe, 0x9bdc06a7, 0xc19bf174],
    [0xe49b69c1, 0xefbe4786, 0x0fc19dc6, 0x240ca1cc, 0x2de92c6f, 0x4a7484aa, 0x5cb0a9dc, 0x76f988da],
    [0x983e5152, 0xa831c66d, 0xb00327c8, 0xbf597fc7, 0xc6e00bf3, 0xd5a79147, 0x06ca6351, 0x14292967],
    [0x27b70a85, 0x2e1b2138, 0x4d2c6dfc, 0x53380d13, 0x650a7354, 0x766a0abb, 0x81c2c92e, 0x92722c85],
    [0xa2bfe8a1, 0xa81a664b, 0xc24b8b70, 0xc76c51a3, 0xd192e819, 0xd6990624, 0xf40e3585, 0x106aa070],
    [0x19a4c116, 0x1e376c08, 0x2748774c, 0x34b0bcb5, 0x391c0cb3, 0x4ed8aa4a, 0x5b9cca4f, 0x682e6ff3],
    [0x748f82ee, 0x78a5636f, 0x84c87814, 0x8cc70208, 0x90befffa, 0xa4506ceb, 0xbef9a3f7, 0xc67178f2]]"

definition message_word :: "bytes \<Rightarrow> nat \<Rightarrow> u32" where
  "message_word d j = push_bit 24 (ucast (d ! j)) OR push_bit 16 (ucast (d ! (j + 1)))
     OR push_bit 8 (ucast (d ! (j + 2))) OR ucast (d ! (j + 3))"

definition message_schedule :: "bytes \<Rightarrow> u32 list" where
  "message_schedule d =
     fold (\<lambda>i m. m @ [SIG1 (m ! (i - 2)) + m ! (i - 7) + SIG0 (m ! (i - 15)) + m ! (i - 16)])
       [16..<64] (map (\<lambda>i. message_word d (4 * i)) [0..<16])"

type_synonym working = "u32 \<times> u32 \<times> u32 \<times> u32 \<times> u32 \<times> u32 \<times> u32 \<times> u32"

definition sha256_round :: "u32 list \<Rightarrow> nat \<Rightarrow> working \<Rightarrow> working" where
  "sha256_round m i = (\<lambda>(a, b, c, d, e, f, g, h).
     let t1 = h + EP1 e + CH e f g + sha256_k ! i + m ! i;
         t2 = EP0 a + MAJ a b c
     in (t1 + t2, a, b, c, d + t1, e, f, g))"

definition sha256_compress :: "u32 list \<Rightarrow> bytes \<Rightarrow> u32 list" where
  "sha256_compress st d =
     (let (a, b, c, d', e, f, g, h) = fold (sha256_round (message_schedule d)) [0..<64]
            (st ! 0, st ! 1, st ! 2, st ! 3, st ! 4, st ! 5, st ! 6, st ! 7)
      in [st ! 0 + a, st ! 1 + b, st ! 2 + c, st ! 3 + d', st ! 4 + e, st ! 5 + f, st ! 6 + g, st ! 7 + h])"

section \<open>The streaming context\<close>

record sha256_ctx =
  cdata :: bytes
  datalen :: nat
  bitlen :: u64
  cstate :: "u32 list"

definition sha256_transform :: "sha256_ctx \<Rightarrow> bytes \<Rightarrow> sha256_ctx" where
  "sha256_transform ctx d = ctx\<lparr>cstate := sha256_compress (cstate ctx) d\<rparr>"

definition sha256_init_state :: "u32 list" where
  "sha256_init_state = [0x6a09e667, 0xbb67ae85, 0x3c6ef372, 0xa54ff53a,
     0x510e527f, 0x9b05688c, 0x1f83d9ab, 0x5be0cd19]"

text \<open>The 64 buffer bytes are whatever the uninitialised context holds.\<close>

definition sha256_init :: "bytes \<Rightarrow> sha256_ctx" where
  "sha256_init buffer = \<lparr>cdata = buffer, datalen = 0, bitlen = 0, cstate = sha256_init_state\<rparr>"

definition sha256_update_byte :: "u8 \<Rightarrow> sha256_ctx \<Rightarrow> sha256_ctx" where
  "sha256_update_byte b ctx =
     (let ctx = ctx\<lparr>cdata := (cdata ctx)[datalen ctx := b], datalen := datalen ctx + 1\<rparr> in
      if datalen ctx = 64 then
        let ctx = sha256_transform ctx (cdata ctx)
        in ctx\<lparr>bitlen := bitlen ctx + 512, datalen := 0\<rparr>
      else ctx)"

definition sha256_update :: "sha256_ctx \<Rightarrow> bytes \<Rightarrow> sha256_ctx" where
  "sha256_update ctx d = fold sha256_update_byte d ctx"

definition zero_range :: "nat \<Rightarrow> nat \<Rightarrow> bytes \<Rightarrow> bytes" where
  "zero_range i j d = fold (\<lambda>k d. d[k := 0]) [i..<j] d"

definition put_bitlen :: "u64 \<Rightarrow> bytes \<Rightarrow> bytes" where
  "put_bitlen n d = d[63 := ucast n, 62 := ucast (drop_bit 8 n), 61 := ucast (drop_bit 16 n),
     60 := ucast (drop_bit 24 n), 59 := ucast (drop_bit 32 n), 58 := ucast (drop_bit 40 n),
     57 := ucast (drop_bit 48 n), 56 := ucast (drop_bit 56 n)]"

definition state_bytes :: "u32 list \<Rightarrow> bytes" where
  "state_bytes st = concat (map (\<lambda>w. map (\<lambda>i. ucast (drop_bit (24 - i * 8) w AND 0xff)) [0..<4]) (take 8 st))"

definition sha256_finish :: "sha256_ctx \<Rightarrow> sha256_ctx" where
  "sha256_finish ctx =
     (let i = datalen ctx;
          ctx = (if datalen ctx < 56
                 then ctx\<lparr>cdata := zero_range (i + 1) 56 ((cdata ctx)[i := 0x80])\<rparr>
                 else let d = zero_range (i + 1) 64 ((cdata ctx)[i := 0x80]);
                          ctx = sha256_transform (ctx\<lparr>cdata := d\<rparr>) d
                      in ctx\<lparr>cdata := zero_range 0 56 (cdata ctx)\<rparr>);
          ctx = ctx\<lparr>bitlen := bitlen ctx + of_nat (datalen ctx * 8)\<rparr>;
          ctx = ctx\<lparr>cdata := put_bitlen (bitlen ctx) (cdata ctx)\<rparr>
      in sha256_transform ctx (cdata ctx))"

definition sha256_final :: "sha256_ctx \<Rightarrow> bytes" where
  "sha256_final ctx = state_bytes (cstate (sha256_finish ctx))"

definition sha256 :: "data \<Rightarrow> data" where
  "sha256 d = (case d of DataNull \<Rightarrow> DataNull
     | Bytes bs \<Rightarrow> Bytes (sha256_final (sha256_update (sha256_init (replicate 64 0)) bs)))"

definition hash256 :: "data \<Rightarrow> data" where
  "hash256 d = sha256 (sha256 d)"

section \<open>The reference: padding, then block by block\<close>

function sha256_blocks :: "u32 list \<Rightarrow> bytes \<Rightarrow> u32 list" where
  "sha256_blocks st bs =
     (if length bs < 64 then st else sha256_blocks (sha256_compress st (take 64 bs)) (drop 64 bs))"
  by pat_completeness auto
termination
  by (relation "measure (\<lambda>(st, bs). length bs)") auto

declare sha256_blocks.simps [simp del]

definition be64 :: "u64 \<Rightarrow> bytes" where
  "be64 n = map (\<lambda>i. ucast (drop_bit (56 - 8 * i) n)) [0..<8]"

definition sha256_pad :: "nat \<Rightarrow> bytes" where
  "sha256_pad len = 0x80 # replicate ((119 - len mod 64) mod 64) 0 @ be64 (of_nat (8 * len))"

definition sha256_spec :: "bytes \<Rightarrow> bytes" where
  "sha256_spec bs = state_bytes (sha256_blocks sha256_init_state (bs @ sha256_pad (length bs)))"

section \<open>The streaming code computes the reference\<close>

interpretation sha: block_chain 64 sha256_compress sha256_blocks
  by unfold_locales (simp, subst sha256_blocks.simps, rule refl)

text \<open>What the context holds after the bytes \<open>bs\<close>.\<close>

definition ctx_after :: "bytes \<Rightarrow> sha256_ctx \<Rightarrow> bool" where
  "ctx_after bs ctx \<longleftrightarrow> length (cdata ctx) = 64 \<and> datalen ctx = length bs mod 64
     \<and> take (datalen ctx) (cdata ctx) = tail_of bs
     \<and> cstate ctx = sha256_blocks sha256_init_state bs
     \<and> bitlen ctx = of_nat (512 * (length bs div 64))"

lemma ctx_after_init: "length buffer = 64 \<Longrightarrow> ctx_after [] (sha256_init buffer)"
  by (simp add: ctx_after_def sha256_init_def tail_n_def sha256_blocks.simps)

lemma take_Suc_put:
  assumes "n < length d" and "take n d = t"
  shows "take (Suc n) (d[n := b]) = t @ [b]"
proof -
  have "take (Suc n) (d[n := b]) = take n (d[n := b]) @ [d[n := b] ! n]"
    using assms(1) by (intro take_Suc_conv_app_nth) simp
  then show ?thesis using assms by simp
qed

lemma ctx_after_step:
  assumes "ctx_after bs ctx"
  shows "ctx_after (bs @ [b]) (sha256_update_byte b ctx)"
proof -
  let ?n = "length bs mod 64"
  have n: "?n < 64" by simp
  have c: "length (cdata ctx) = 64" "datalen ctx = ?n" "take ?n (cdata ctx) = tail_of bs"
      "cstate ctx = sha256_blocks sha256_init_state bs" "bitlen ctx = of_nat (512 * (length bs div 64))"
    using assms by (auto simp: ctx_after_def)
  have new: "take (Suc ?n) ((cdata ctx)[?n := b]) = tail_of bs @ [b]"
    by (rule take_Suc_put) (use c n in simp_all)
  have st: "sha256_blocks sha256_init_state (bs @ [b]) = sha256_blocks (cstate ctx) (tail_of bs @ [b])"
    unfolding c(4) by (rule sha.append)
  show ?thesis
  proof (cases "?n = 63")
    case True
    have "take 64 ((cdata ctx)[63 := b]) = tail_of bs @ [b]" using new unfolding True by simp
    then have full: "(cdata ctx)[63 := b] = tail_of bs @ [b]" using c(1) by simp
    have len: "length (tail_of bs @ [b]) = 64" using True by (simp add: length_tail_of)
    have "sha256_update_byte b ctx = ctx\<lparr>cdata := tail_of bs @ [b], datalen := 0,
        cstate := sha256_compress (cstate ctx) (tail_of bs @ [b]), bitlen := bitlen ctx + 512\<rparr>"
      using full c(2) unfolding True by (simp add: sha256_update_byte_def sha256_transform_def Let_def)
    moreover have "length (bs @ [b]) div 64 = Suc (length bs div 64)" "length (bs @ [b]) mod 64 = 0"
      using True by (simp_all add: div_Suc mod_Suc)
    moreover have "tail_of (bs @ [b]) = []" using True by (simp add: tail_of_snoc)
    ultimately show ?thesis
      unfolding ctx_after_def using len c(5) st sha.one [OF len] by (simp add: algebra_simps)
  next
    case False
    have upd: "sha256_update_byte b ctx = ctx\<lparr>cdata := (cdata ctx)[?n := b], datalen := Suc ?n\<rparr>"
      using False c(2) by (simp add: sha256_update_byte_def Let_def)
    have "length (bs @ [b]) div 64 = length bs div 64" "length (bs @ [b]) mod 64 = Suc ?n"
      using False n by (simp_all add: div_Suc mod_Suc)
    moreover have "sha256_blocks (cstate ctx) (tail_of bs @ [b]) = cstate ctx"
      using False n by (intro sha.small) (simp add: length_tail_of)
    moreover have "tail_of (bs @ [b]) = tail_of bs @ [b]" using False by (simp add: tail_of_snoc)
    ultimately show ?thesis
      unfolding ctx_after_def upd using new c st by simp
  qed
qed

lemma ctx_after_update: "ctx_after bs ctx \<Longrightarrow> ctx_after (bs @ cs) (sha256_update ctx cs)"
proof (induction cs arbitrary: bs ctx)
  case Nil
  then show ?case by (simp add: sha256_update_def)
next
  case (Cons c cs)
  then have "ctx_after ((bs @ [c]) @ cs) (sha256_update (sha256_update_byte c ctx) cs)"
    by (blast intro: ctx_after_step)
  then show ?case by (simp add: sha256_update_def)
qed

lemma zero_range_eq:
  "i \<le> j \<Longrightarrow> j \<le> length d \<Longrightarrow> zero_range i j d = take i d @ replicate (j - i) 0 @ drop j d"
proof (induction j)
  case 0
  then show ?case by (simp add: zero_range_def)
next
  case (Suc j)
  show ?case
  proof (cases "i = Suc j")
    case True
    then show ?thesis by (simp add: zero_range_def)
  next
    case False
    then have "i \<le> j" "j \<le> length d" using Suc.prems by simp_all
    moreover have "drop j d = d ! j # drop (Suc j) d" using Suc.prems by (simp add: Cons_nth_drop_Suc)
    ultimately show ?thesis
      using Suc.IH Suc.prems by (simp add: zero_range_def list_update_append Suc_diff_le replicate_append_same)
  qed
qed

lemma put_bitlen_eq:
  assumes "length d = 64"
  shows "put_bitlen n d = take 56 d @ be64 n"
proof (rule nth_equalityI)
  show "length (put_bitlen n d) = length (take 56 d @ be64 n)"
    using assms by (simp add: put_bitlen_def be64_def)
next
  fix i
  assume "i < length (put_bitlen n d)"
  then have i: "i < 64" using assms by (simp add: put_bitlen_def)
  show "put_bitlen n d ! i = (take 56 d @ be64 n) ! i"
  proof (cases "i < 56")
    case True
    then show ?thesis using assms by (simp add: put_bitlen_def nth_append)
  next
    case False
    then have "i = 56 \<or> i = 57 \<or> i = 58 \<or> i = 59 \<or> i = 60 \<or> i = 61 \<or> i = 62 \<or> i = 63"
      using i by arith
    then show ?thesis using assms by (auto simp: put_bitlen_def be64_def nth_append)
  qed
qed

lemma of_nat_bits: "512 * (n div 64) + 8 * (n mod 64) = 8 * (n::nat)"
proof -
  have "512 * (n div 64) + 8 * (n mod 64) = 8 * (64 * (n div 64) + n mod 64)"
    unfolding distrib_left by simp
  then show ?thesis by (simp only: mult_div_mod_eq)
qed

lemma sha256_final_short:
  assumes "datalen ctx = n" "n < 56" "cstate ctx = st" "zero_range (n + 1) 56 ((cdata ctx)[n := 0x80]) = z"
    "bitlen ctx + of_nat (n * 8) = l" "put_bitlen l z = d"
  shows "sha256_final ctx = state_bytes (sha256_compress st d)"
  unfolding sha256_final_def sha256_finish_def Let_def using assms by (simp add: sha256_transform_def)

lemma sha256_final_long:
  assumes "datalen ctx = n" "\<not> n < 56" "cstate ctx = st" "zero_range (n + 1) 64 ((cdata ctx)[n := 0x80]) = z"
    "zero_range 0 56 z = y" "bitlen ctx + of_nat (n * 8) = l" "put_bitlen l y = d"
  shows "sha256_final ctx = state_bytes (sha256_compress (sha256_compress st z) d)"
  unfolding sha256_final_def sha256_finish_def Let_def using assms by (simp add: sha256_transform_def)

lemma sha256_final_spec:
  assumes "ctx_after bs ctx"
  shows "sha256_final ctx = sha256_spec bs"
proof -
  let ?n = "length bs mod 64" and ?t = "tail_of bs" and ?l = "be64 (of_nat (8 * length bs))"
  let ?st = "sha256_blocks sha256_init_state bs"
  have n: "?n < 64" and tl: "length ?t = ?n" by (simp_all add: length_tail_of)
  have c: "length (cdata ctx) = 64" "datalen ctx = ?n" "take ?n (cdata ctx) = ?t" "cstate ctx = ?st"
      "bitlen ctx = of_nat (512 * (length bs div 64))"
    using assms by (auto simp: ctx_after_def)
  have bits: "bitlen ctx + of_nat (?n * 8) = of_nat (8 * length bs)"
    unfolding c(5) of_nat_add [symmetric] using of_nat_bits [of "length bs"] by (simp add: mult.commute)
  have mark: "take (?n + 1) ((cdata ctx)[?n := 0x80]) = ?t @ [0x80]"
    unfolding Suc_eq_plus1 [symmetric] by (rule take_Suc_put) (use c n in simp_all)
  have spec: "sha256_spec bs = state_bytes (sha256_blocks ?st (?t @ sha256_pad (length bs)))"
    unfolding sha256_spec_def by (subst sha.append) (rule refl)
  have put: "put_bitlen (of_nat (8 * length bs)) (z @ drop 56 d) = z @ ?l"
    if "length z = 56" "length d = 64" for z d using that by (simp add: put_bitlen_eq)
  show ?thesis
  proof (cases "?n < 56")
    case True
    have "119 - ?n = (55 - ?n) + 64" "55 - ?n < 64" using True by simp_all
    then have "(119 - ?n) mod 64 = 55 - ?n" by (simp only: mod_add_self2 mod_less)
    then have pad: "?t @ sha256_pad (length bs) = ?t @ [0x80] @ replicate (55 - ?n) 0 @ ?l"
      by (simp add: sha256_pad_def)
    have "zero_range (?n + 1) 56 ((cdata ctx)[?n := 0x80])
        = (?t @ [0x80] @ replicate (55 - ?n) 0) @ drop 56 ((cdata ctx)[?n := 0x80])"
      by (subst zero_range_eq) (use True c(1) in \<open>simp_all only: mark length_list_update, simp_all\<close>)
    moreover have "put_bitlen (of_nat (8 * length bs)) ((?t @ [0x80] @ replicate (55 - ?n) 0)
        @ drop 56 ((cdata ctx)[?n := 0x80])) = (?t @ [0x80] @ replicate (55 - ?n) 0) @ ?l"
      by (rule put) (use True c(1) tl in simp_all)
    ultimately have "sha256_final ctx = state_bytes (sha256_compress ?st ((?t @ [0x80] @ replicate (55 - ?n) 0) @ ?l))"
      by (intro sha256_final_short) (use True c bits in simp_all)
    moreover have "length ((?t @ [0x80] @ replicate (55 - ?n) 0) @ ?l) = 64"
      using True tl by (simp add: be64_def)
    ultimately show ?thesis unfolding spec pad by (simp add: sha.one)
  next
    case False
    have "(119 - ?n) mod 64 = (63 - ?n) + 56" using False n by simp
    then have pad: "?t @ sha256_pad (length bs)
        = (?t @ [0x80] @ replicate (63 - ?n) 0) @ (replicate 56 0 @ ?l)"
      unfolding sha256_pad_def by (simp only: replicate_add append.simps append_assoc)
    let ?d = "?t @ [0x80] @ replicate (63 - ?n) 0"
    have z1: "zero_range (?n + 1) 64 ((cdata ctx)[?n := 0x80]) = ?d"
      by (subst zero_range_eq) (use n c(1) in \<open>simp_all only: mark length_list_update, simp_all\<close>)
    have ld: "length ?d = 64" using n tl by simp
    have z2: "zero_range 0 56 ?d = replicate 56 0 @ drop 56 ?d"
      using ld by (subst zero_range_eq) simp_all
    have "sha256_final ctx = state_bytes (sha256_compress (sha256_compress ?st ?d) (replicate 56 0 @ ?l))"
      by (rule sha256_final_long [OF c(2) _ c(4) z1 z2 bits put]) (use False ld in simp_all)
    moreover have "sha256_blocks ?st (?d @ (replicate 56 0 @ ?l))
        = sha256_blocks (sha256_compress ?st ?d) (replicate 56 0 @ ?l)"
      by (rule sha.block [OF ld])
    moreover have "length (replicate 56 0 @ ?l) = 64" by (simp add: be64_def)
    ultimately show ?thesis unfolding spec pad by (simp add: sha.one)
  qed
qed

lemma length_state_bytes: "length (state_bytes st) = 4 * min 8 (length st)"
proof -
  have "length (concat (map (\<lambda>w. map (f w) [0..<4]) ws)) = 4 * length ws" for f :: "u32 \<Rightarrow> nat \<Rightarrow> u8" and ws
    by (induction ws) simp_all
  then show ?thesis by (simp add: state_bytes_def min.commute)
qed

text \<open>C15. The streaming SHA-256 of the vendored sha256.c computes, for every way of splitting the
  message into calls of sha256\<open>_\<close>update and whatever the uninitialised context buffer held, the
  digest of FIPS 180-4: the message padded with 0x80, zeros and its 64-bit big endian bit length
  (reduced modulo 2 to the 64 as the counter is), compressed block by block.\<close>

theorem sha256_stream_spec:
  assumes "length buffer = 64"
  shows "sha256_final (fold (\<lambda>part ctx. sha256_update ctx part) parts (sha256_init buffer))
    = sha256_spec (concat parts)"
proof -
  have "ctx_after (concat parts) (fold (\<lambda>part ctx. sha256_update ctx part) parts (sha256_init buffer))"
  proof (induction parts rule: rev_induct)
    case Nil
    then show ?case using assms by (simp add: ctx_after_init)
  next
    case (snoc part parts)
    then show ?case by (simp add: ctx_after_update)
  qed
  then show ?thesis by (rule sha256_final_spec)
qed

theorem sha256_stream_spec_witness:
  "length (replicate 64 (7::u8)) = 64 \<and>
   sha256_final (fold (\<lambda>part ctx. sha256_update ctx part) [[97], [98, 99]] (sha256_init (replicate 64 7)))
     = sha256_spec [97, 98, 99]"
  using sha256_stream_spec [of "replicate 64 7" "[[97], [98, 99]]"] by simp

lemma sha256_eq_spec: "sha256 (Bytes bs) = Bytes (sha256_spec bs)"
proof -
  have "ctx_after ([] @ bs) (sha256_update (sha256_init (replicate 64 0)) bs)"
    by (intro ctx_after_update ctx_after_init) simp
  then show ?thesis by (simp add: sha256_def sha256_final_spec)
qed

lemma length_sha256_compress: "length (sha256_compress st d) = 8"
  by (simp add: sha256_compress_def Let_def split: prod.split)

lemma length_sha256_blocks: "length st = 8 \<Longrightarrow> length (sha256_blocks st bs) = 8"
  by (induction st bs rule: sha256_blocks.induct) (subst sha256_blocks.simps, simp add: length_sha256_compress)

lemma length_sha256_spec: "length (sha256_spec bs) = 32"
  by (simp add: sha256_spec_def length_state_bytes length_sha256_blocks sha256_init_state_def)

lemma hash256_Bytes: "hash256 (Bytes bs) = Bytes (sha256_spec (sha256_spec bs))"
  by (simp add: hash256_def sha256_eq_spec)

end
