(* ===== verification/Merkle_Block.thy ===== *)
theory Merkle_Block
  imports Sha256 Byte_IO
begin

text \<open>
  \<open>src/code/MerkleBlock.c\<close>: the accessors of a \<open>merkleblock\<close> message (an 80 byte header, the
  transaction count, the hashes and flag bits of a partial Merkle tree), the reconstruction of
  the Merkle root from them, and the list of matched transaction ids. The reference is the usual
  Merkle tree, which pairs up the hashes level by level and doubles an odd last one, and the
  depth-first encoding of its matched part.
\<close>

section \<open>The model\<close>

record merkle_block =
  mb_data :: data
  hashCache :: data

definition MerkleBlockNew :: "data \<Rightarrow> merkle_block" where
  "MerkleBlockNew d = \<lparr>mb_data = d, hashCache = DataNull\<rparr>"

definition block_u32 :: "merkle_block \<Rightarrow> nat \<Rightarrow> u32" where
  "block_u32 block start = le_word (dbytes (DataCopyDataPart (mb_data block) start 4))"

definition blockVersion :: "merkle_block \<Rightarrow> int" where
  "blockVersion block =
     (if dlength (mb_data block) < 80 then 0 else sint (le_word (take 4 (dbytes (mb_data block))) :: u32))"

text \<open>The hash is computed once and kept in the block.\<close>

definition blockHash :: "merkle_block \<Rightarrow> data \<times> merkle_block" where
  "blockHash block =
     (if hashCache block \<noteq> DataNull then (hashCache block, block)
      else if dlength (mb_data block) < 80 then (DataNull, block)
      else let h = hash256 (DataCopyDataPart (mb_data block) 0 80) in (h, block\<lparr>hashCache := h\<rparr>))"

definition blockPrevHash :: "merkle_block \<Rightarrow> data" where
  "blockPrevHash block =
     (if dlength (mb_data block) < 80 then DataNull else DataCopyDataPart (mb_data block) 4 32)"

definition merkleRoot :: "merkle_block \<Rightarrow> data" where
  "merkleRoot block =
     (if dlength (mb_data block) < 80 then DataNull else DataCopyDataPart (mb_data block) 36 32)"

definition blockTimestamp :: "merkle_block \<Rightarrow> u32" where
  "blockTimestamp block = (if dlength (mb_data block) < 80 then 0 else block_u32 block 68)"

definition blockBits :: "merkle_block \<Rightarrow> u32" where
  "blockBits block = (if dlength (mb_data block) < 80 then 0 else block_u32 block 72)"

definition blockNonce :: "merkle_block \<Rightarrow> u32" where
  "blockNonce block = (if dlength (mb_data block) < 80 then 0 else block_u32 block 76)"

definition MerkleBlockTransactionCount :: "merkle_block \<Rightarrow> u32" where
  "MerkleBlockTransactionCount block = (if dlength (mb_data block) < 84 then 0 else block_u32 block 80)"

definition hasMerkleData :: "merkle_block \<Rightarrow> bool" where
  "hasMerkleData block \<longleftrightarrow> dlength (mb_data block) > 84"

text \<open>
  \<open>end - ptr < 32 * count\<close> compares as unsigned 64-bit values, and the product wraps.
\<close>

definition allMerkleHashes :: "merkle_block \<Rightarrow> data" where
  "allMerkleHashes block =
     (if dlength (mb_data block) < 85 then DataNull
      else let (count, bs) = readVarInt (drop 84 (dbytes (mb_data block))) in
        if length bs < unat (32 * count) then DataNull
        else Bytes (take (unat (ucast (32 * count) :: u32)) bs))"

fun merkleHashes_loop :: "nat \<Rightarrow> bytes \<Rightarrow> datas \<Rightarrow> datas" where
  "merkleHashes_loop 0 bs array = array"
| "merkleHashes_loop (Suc n) bs array =
     (if length bs < 32 then []
      else merkleHashes_loop n (drop 32 bs) (DatasAddRef array (Bytes (take 32 bs))))"

definition merkleHashes :: "merkle_block \<Rightarrow> datas" where
  "merkleHashes block =
     (if dlength (mb_data block) < 85 then []
      else let (count, bs) = readVarInt (drop 84 (dbytes (mb_data block)))
           in merkleHashes_loop (unat count) bs [])"

text \<open>
  Unlike the other accessors \<open>merkleFlags\<close> has no length test: on fewer than 84 bytes the read
  position starts behind the end, the unsigned bounds tests of the readers let it pass, and the
  C code reads outside the buffer.
\<close>

definition merkleFlags :: "merkle_block \<Rightarrow> fault + data" where
  "merkleFlags block =
     (if dlength (mb_data block) < 84 then Inl Fault
      else let (hashCount, bs) = readVarInt (drop 84 (dbytes (mb_data block))) in
        if length bs < unat (hashCount * 32) then Inr DataNull
        else let (flagBytes, bs) = readVarInt (drop (unat (hashCount * 32)) bs) in
          if length bs \<noteq> unat flagBytes then Inr DataNull
          else Inr (Bytes (take (unat (ucast flagBytes :: u32)) bs)))"

definition MerkleBlockValid :: "merkle_block \<Rightarrow> bool" where
  "MerkleBlockValid block \<longleftrightarrow>
     (let result = dlength (mb_data block) \<ge> 80;
          hashes = merkleHashes block in
      if length hashes > 1
      then result \<and> \<not> DataEqual (hashes ! (length hashes - 1)) (hashes ! (length hashes - 2))
      else result)"

text \<open>The width is an unsigned 32-bit value returned as an \<open>int\<close>.\<close>

definition calculateTreeWidth :: "merkle_block \<Rightarrow> nat \<Rightarrow> int" where
  "calculateTreeWidth block height =
     sint (drop_bit height (MerkleBlockTransactionCount block + push_bit height 1 - 1) :: u32)"

lemma calculateTreeWidth_ends: "height \<ge> 32 \<Longrightarrow> calculateTreeWidth block height = 0"
proof -
  assume "height \<ge> 32"
  then have "(2::nat) ^ 32 \<le> 2 ^ height" by (intro power_increasing) simp_all
  then have "unat (w :: u32) < 2 ^ height" for w using unsigned_less [of w, where ?'a = nat] by simp
  then have "unat (drop_bit height w :: u32) = 0" for w by (simp add: unat_drop_bit)
  then show ?thesis by (simp add: calculateTreeWidth_def unsigned_eq_0_iff)
qed

function tree_height :: "merkle_block \<Rightarrow> nat \<Rightarrow> nat" where
  "tree_height block height =
     (if calculateTreeWidth block height > 1 then tree_height block (height + 1) else height)"
  by pat_completeness auto
termination
proof (relation "measure (\<lambda>(block, height). 32 - height)")
  show "wf (measure (\<lambda>(block :: merkle_block, height). 32 - height))" by simp
next
  fix block :: merkle_block and height :: nat
  assume "calculateTreeWidth block height > 1"
  then have "height < 32" using calculateTreeWidth_ends [of height block] by (cases "height < 32") auto
  then show "((block, height + 1), (block, height)) \<in> measure (\<lambda>(block, height). 32 - height)"
    by simp
qed

declare tree_height.simps [simp del]

definition nextElement :: "datas \<Rightarrow> data \<times> datas" where
  "nextElement array =
     (if length array = 0 then (DataNull, array)
      else case DatasRemoveIndexTake array 0 of Inl _ \<Rightarrow> (DatasFirst array, array)
        | Inr rest \<Rightarrow> (DatasFirst array, rest))"

text \<open>
  \<open>i\<close>, \<open>hashes\<close> and \<open>matches\<close> are in-out parameters; \<open>matches\<close> may be the null pointer. The
  number of flag bits is a 32-bit product.
\<close>

definition flag_count :: "data \<Rightarrow> nat" where
  "flag_count flags = unat (of_nat (dlength flags) * 8 :: u32)"

definition flag_bit :: "data \<Rightarrow> nat \<Rightarrow> bool" where
  "flag_bit flags i \<longleftrightarrow> (dbytes flags ! (i div 8)) AND push_bit (i mod 8) 1 \<noteq> 0"

fun calculatedMerkleRootFlexible ::
    "data \<Rightarrow> nat \<Rightarrow> datas \<Rightarrow> nat \<Rightarrow> datas option \<Rightarrow> data \<times> nat \<times> datas \<times> datas option" where
  "calculatedMerkleRootFlexible flags i hashes height matches =
     (if i \<ge> flag_count flags then (DataNull, i, hashes, matches)
      else let flag = flag_bit flags i; i = i + 1 in
        if flag then
          (case height of
             0 \<Rightarrow> let (element, hashes) = nextElement hashes
                 in (element, i, hashes, map_option (\<lambda>m. DatasAddRef m element) matches)
           | Suc height \<Rightarrow>
               let (left, i, hashes, matches) = calculatedMerkleRootFlexible flags i hashes height matches;
                   (right, i, hashes, matches) = calculatedMerkleRootFlexible flags i hashes height matches;
                   right = (if right = DataNull then left else right)
               in (hash256 (DataAddCopy left right), i, hashes, matches))
        else let (element, hashes) = nextElement hashes in (element, i, hashes, matches))"

definition calculatedMerkleRootMaestro :: "merkle_block \<Rightarrow> datas option \<Rightarrow> fault + data \<times> datas option" where
  "calculatedMerkleRootMaestro block matches =
     (if \<not> MerkleBlockValid block then Inr (DataNull, matches)
      else case merkleFlags block of Inl e \<Rightarrow> Inl e
        | Inr flags \<Rightarrow>
            let height = tree_height block 0;
                hashes = DatasCopy (merkleHashes block);
                (root, _, _, matches) = calculatedMerkleRootFlexible flags 0 hashes height matches
            in Inr (root, matches))"

definition calculatedMerkleRoot :: "merkle_block \<Rightarrow> fault + data" where
  "calculatedMerkleRoot block =
     (case calculatedMerkleRootMaestro block None of Inl e \<Rightarrow> Inl e | Inr (root, _) \<Rightarrow> Inr root)"

definition matchingTxIdsIfValidRoot :: "merkle_block \<Rightarrow> fault + datas" where
  "matchingTxIdsIfValidRoot block =
     (case calculatedMerkleRootMaestro block (Some []) of Inl e \<Rightarrow> Inl e
      | Inr (root, matches) \<Rightarrow>
          if root = DataNull \<or> merkleRoot block = DataNull \<or> \<not> DataEqual root (merkleRoot block)
          then Inr []
          else Inr (case matches of None \<Rightarrow> [] | Some m \<Rightarrow> m))"

declare calculatedMerkleRootFlexible.simps [simp del]

end
