(* ===== verification/Merkle_Props.thy ===== *)
theory Merkle_Props
  imports Merkle_Block
begin

text \<open>
  Correctness of the partial Merkle tree decoder: the reference tree, the depth-first encoding of
  its matched part as in BIP 37, and the proof that the code, which always descends into a right
  child and falls back on the left hash when nothing is left, recovers root and matches.
\<close>

section \<open>The reference tree\<close>

definition join :: "data \<Rightarrow> data \<Rightarrow> data" where
  "join a b = hash256 (Bytes (dbytes a @ dbytes b))"

fun next_level :: "datas \<Rightarrow> datas" where
  "next_level [] = []"
| "next_level [a] = [join a a]"
| "next_level (a # b # xs) = join a b # next_level xs"

lemma length_next_level: "length (next_level xs) = (length xs + 1) div 2"
  by (induction xs rule: next_level.induct) auto

function merkle_root_of :: "datas \<Rightarrow> data" where
  "merkle_root_of xs = (if length xs \<le> 1 then DatasFirst xs else merkle_root_of (next_level xs))"
  by pat_completeness auto
termination
  by (relation "measure length") (auto simp: length_next_level)

declare merkle_root_of.simps [simp del]

text \<open>The same tree from the top: the node over up to \<open>2 ^ h\<close> leaves.\<close>

fun node :: "nat \<Rightarrow> datas \<Rightarrow> data" where
  "node 0 xs = hd xs"
| "node (Suc h) xs =
     (if length xs \<le> 2 ^ h then join (node h xs) (node h xs)
      else join (node h (take (2 ^ h) xs)) (node h (drop (2 ^ h) xs)))"

lemma next_level_append: "even (length xs) \<Longrightarrow> next_level (xs @ ys) = next_level xs @ next_level ys"
  by (induction xs rule: next_level.induct) auto

lemma take_next_level: "take n (next_level xs) = next_level (take (2 * n) xs)"
proof (cases "2 * n \<le> length xs")
  case True
  then have "next_level xs = next_level (take (2 * n) xs) @ next_level (drop (2 * n) xs)"
    using next_level_append [of "take (2 * n) xs" "drop (2 * n) xs"] by (simp add: min_absorb2)
  moreover have "length (next_level (take (2 * n) xs)) = n" using True by (simp add: length_next_level min_absorb2)
  ultimately show ?thesis by simp
next
  case False
  then show ?thesis by (simp add: length_next_level)
qed

lemma drop_next_level: "drop n (next_level xs) = next_level (drop (2 * n) xs)"
proof (cases "2 * n \<le> length xs")
  case True
  then have "next_level xs = next_level (take (2 * n) xs) @ next_level (drop (2 * n) xs)"
    using next_level_append [of "take (2 * n) xs" "drop (2 * n) xs"] by (simp add: min_absorb2)
  moreover have "length (next_level (take (2 * n) xs)) = n" using True by (simp add: length_next_level min_absorb2)
  ultimately show ?thesis by simp
next
  case False
  then show ?thesis by (simp add: length_next_level)
qed

lemma node_next_level: "xs \<noteq> [] \<Longrightarrow> length xs \<le> 2 ^ Suc h \<Longrightarrow> node (Suc h) xs = node h (next_level xs)"
proof (induction h arbitrary: xs)
  case 0
  then consider a where "xs = [a]" | a b where "xs = [a, b]"
    by (cases xs rule: next_level.cases) auto
  then show ?case by cases simp_all
next
  case (Suc h)
  show ?case
  proof (cases "length xs \<le> 2 ^ Suc h")
    case True
    then have "length (next_level xs) \<le> 2 ^ h" by (simp add: length_next_level)
    then show ?thesis using True Suc by simp
  next
    case False
    then have "\<not> length (next_level xs) \<le> 2 ^ h" by (simp add: length_next_level)
    moreover have "node (Suc h) (take (2 ^ Suc h) xs) = node h (take (2 ^ h) (next_level xs))"
      using False Suc.prems Suc.IH [of "take (2 ^ Suc h) xs"] by (simp add: take_next_level)
    moreover have "node (Suc h) (drop (2 ^ Suc h) xs) = node h (drop (2 ^ h) (next_level xs))"
      using False Suc.prems Suc.IH [of "drop (2 ^ Suc h) xs"] by (simp add: drop_next_level)
    ultimately show ?thesis using False by (simp del: node.simps add: node.simps(2) [of "Suc h"] node.simps(2) [of h "next_level xs"])
  qed
qed

lemma merkle_root_of_node:
  assumes "xs \<noteq> []" "length xs \<le> 2 ^ h" "h = 0 \<or> 2 ^ (h - 1) < length xs"
  shows "merkle_root_of xs = node h xs"
  using assms
proof (induction h arbitrary: xs)
  case 0
  then show ?case by (cases xs) (simp_all add: merkle_root_of.simps DatasFirst_def)
next
  case (Suc h)
  have big: "2 ^ h < length xs" using Suc.prems by simp
  then have "\<not> length xs \<le> 1" using one_le_power [of "2::nat" h] by linarith
  then have "merkle_root_of xs = merkle_root_of (next_level xs)"
    by (subst merkle_root_of.simps) simp
  also have "\<dots> = node h (next_level xs)"
  proof (rule Suc.IH)
    show "next_level xs \<noteq> []" using Suc.prems(1) by (cases xs rule: next_level.cases) auto
    show "length (next_level xs) \<le> 2 ^ h" using Suc.prems(2) by (simp add: length_next_level)
    show "h = 0 \<or> 2 ^ (h - 1) < length (next_level xs)"
      using big by (cases h) (simp_all add: length_next_level)
  qed
  also have "\<dots> = node (Suc h) xs" by (rule node_next_level [symmetric]) (use Suc.prems in simp_all)
  finally show ?case .
qed

section \<open>The depth-first encoding\<close>

text \<open>
  The leaves carry their match flags. A subtree without a match is one clear bit and its hash;
  a matched leaf is a set bit and its hash; any other node is a set bit and its children.
\<close>

fun pmt :: "nat \<Rightarrow> (data \<times> bool) list \<Rightarrow> bool list \<times> datas" where
  "pmt 0 xs = ([snd (hd xs)], [fst (hd xs)])"
| "pmt (Suc h) xs =
     (if \<not> list_ex snd xs then ([False], [node (Suc h) (map fst xs)])
      else if length xs \<le> 2 ^ h then (let (bits, hs) = pmt h xs in (True # bits, hs))
      else let (bits1, hs1) = pmt h (take (2 ^ h) xs); (bits2, hs2) = pmt h (drop (2 ^ h) xs)
           in (True # bits1 @ bits2, hs1 @ hs2))"

definition matched :: "(data \<times> bool) list \<Rightarrow> datas" where
  "matched xs = map fst (filter snd xs)"

text \<open>The decoder on the list of the flag bits that are left.\<close>

fun decode :: "nat \<Rightarrow> bool list \<Rightarrow> datas \<Rightarrow> data \<times> bool list \<times> datas \<times> datas" where
  "decode h [] hs = (DataNull, [], hs, [])"
| "decode h (False # fl) hs = (DatasFirst hs, fl, tl hs, [])"
| "decode 0 (True # fl) hs = (DatasFirst hs, fl, tl hs, [DatasFirst hs])"
| "decode (Suc h) (True # fl) hs =
     (let (left, fl, hs, ms1) = decode h fl hs; (right, fl, hs, ms2) = decode h fl hs
      in (join left (if right = DataNull then left else right), fl, hs, ms1 @ ms2))"

lemma join_not_null [simp]: "join a b \<noteq> DataNull"
  by (simp add: join_def hash256_def sha256_def)

lemma node_not_null: "xs \<noteq> [] \<Longrightarrow> DataNull \<notin> set xs \<Longrightarrow> node h xs \<noteq> DataNull"
  by (cases h; cases xs) auto

lemma matched_none: "\<not> list_ex snd xs \<Longrightarrow> matched xs = []"
  by (induction xs) (auto simp: matched_def)

lemma matched_split: "matched xs = matched (take n xs) @ matched (drop n xs)"
  by (metis append_take_drop_id filter_append map_append matched_def)

lemma decode_pmt_full:
  assumes "length xs = 2 ^ h" "DataNull \<notin> set (map fst xs)"
  shows "decode h (fst (pmt h xs) @ fl) (snd (pmt h xs) @ hs) = (node h (map fst xs), fl, hs, matched xs)"
  using assms
proof (induction h arbitrary: xs fl hs)
  case 0
  then obtain a m where "xs = [(a, m)]" by (cases xs) auto
  then show ?case by (cases m) (simp_all add: matched_def DatasFirst_def)
next
  case (Suc h)
  show ?case
  proof (cases "list_ex snd xs")
    case False
    then show ?thesis by (simp add: matched_none DatasFirst_def)
  next
    case True
    let ?l = "take (2 ^ h) xs" and ?r = "drop (2 ^ h) xs"
    have nn: "DataNull \<notin> set (map fst ?l)" "DataNull \<notin> set (map fst ?r)"
      using Suc.prems(2) by (auto dest: in_set_takeD in_set_dropD)
    have len: "length ?l = 2 ^ h" "length ?r = 2 ^ h" "?r \<noteq> []" using Suc.prems(1) by simp_all
    have "node h (map fst ?r) \<noteq> DataNull" using len nn by (intro node_not_null) simp_all
    then show ?thesis
      using True Suc.prems(1) Suc.IH [OF len(1) nn(1)] Suc.IH [OF len(2) nn(2)] matched_split [of xs "2 ^ h"]
      by (simp add: case_prod_beta take_map drop_map)
  qed
qed

lemma decode_pad: "\<not> list_ex (\<lambda>b. b) fl \<Longrightarrow> decode h fl [] = (DataNull, tl fl, [], [])"
  by (cases fl) (simp_all add: DatasFirst_def)

lemma list_ex_tl: "\<not> list_ex P xs \<Longrightarrow> \<not> list_ex P (tl xs)"
  by (cases xs) simp_all

lemma decode_pmt:
  assumes "xs \<noteq> []" "length xs \<le> 2 ^ h" "DataNull \<notin> set (map fst xs)" "\<not> list_ex (\<lambda>b. b) fl"
  shows "\<exists>fl'. decode h (fst (pmt h xs) @ fl) (snd (pmt h xs)) = (node h (map fst xs), fl', [], matched xs)
    \<and> \<not> list_ex (\<lambda>b. b) fl'"
  using assms
proof (induction h arbitrary: xs)
  case 0
  then obtain a m where "xs = [(a, m)]" by (cases xs) auto
  then show ?case using 0 by (cases m) (simp_all add: matched_def DatasFirst_def)
next
  case (Suc h)
  consider (none) "\<not> list_ex snd xs" | (left) "list_ex snd xs" "length xs \<le> 2 ^ h"
    | (both) "list_ex snd xs" "2 ^ h < length xs" by linarith
  then show ?case
  proof cases
    case none
    then show ?thesis using Suc.prems(4) by (simp add: matched_none DatasFirst_def)
  next
    case left
    then obtain fl' where "decode h (fst (pmt h xs) @ fl) (snd (pmt h xs)) = (node h (map fst xs), fl', [], matched xs)"
        "\<not> list_ex (\<lambda>b. b) fl'"
      using Suc by blast
    then show ?thesis using left by (simp add: case_prod_beta decode_pad list_ex_tl)
  next
    case both
    let ?l = "take (2 ^ h) xs" and ?r = "drop (2 ^ h) xs"
    have nn: "DataNull \<notin> set (map fst ?l)" "DataNull \<notin> set (map fst ?r)"
      using Suc.prems(3) by (auto dest: in_set_takeD in_set_dropD)
    have len: "length ?l = 2 ^ h" "length ?r \<le> 2 ^ h" "?r \<noteq> []" using both Suc.prems(2) by simp_all
    then obtain fl' where r: "decode h (fst (pmt h ?r) @ fl) (snd (pmt h ?r)) = (node h (map fst ?r), fl', [], matched ?r)"
        "\<not> list_ex (\<lambda>b. b) fl'"
      using Suc.IH [OF len(3,2) nn(2) Suc.prems(4)] by blast
    have "node h (map fst ?r) \<noteq> DataNull" using len nn by (intro node_not_null) simp_all
    then show ?thesis
      using both r decode_pmt_full [OF len(1) nn(1)] matched_split [of xs "2 ^ h"]
      by (simp add: case_prod_beta take_map drop_map)
  qed
qed

lemma nextElement_eq: "nextElement hs = (DatasFirst hs, tl hs)"
  by (cases hs) (simp_all add: nextElement_def DatasFirst_def DatasRemoveIndexTake_def)

lemma flexible_decode:
  assumes "i \<le> flag_count flags"
    and "decode h (map (flag_bit flags) [i..<flag_count flags]) hs = (r, fl, hs', ms)"
  shows "\<exists>i'. calculatedMerkleRootFlexible flags i hs h m = (r, i', hs', map_option (\<lambda>m. m @ ms) m)
    \<and> i' \<le> flag_count flags \<and> fl = map (flag_bit flags) [i'..<flag_count flags]"
  using assms
proof (induction h arbitrary: i hs r fl hs' ms m)
  case 0
  show ?case
  proof (cases "i = flag_count flags")
    case True
    then show ?thesis using 0 by (simp add: calculatedMerkleRootFlexible.simps option.map_ident)
  next
    case False
    then have "[i..<flag_count flags] = i # [Suc i..<flag_count flags]" using 0 by (simp add: upt_conv_Cons)
    then show ?thesis
      using False 0 by (cases "flag_bit flags i")
        (auto simp: calculatedMerkleRootFlexible.simps nextElement_eq DatasAddRef_def option.map_ident)
  qed
next
  case (Suc h)
  show ?case
  proof (cases "i = flag_count flags")
    case True
    then show ?thesis using Suc.prems by (simp add: calculatedMerkleRootFlexible.simps option.map_ident)
  next
    case False
    then have i: "i < flag_count flags" using Suc.prems by simp
    then have cons: "[i..<flag_count flags] = i # [Suc i..<flag_count flags]" by (simp add: upt_conv_Cons)
    show ?thesis
    proof (cases "flag_bit flags i")
      case clear: False
      then show ?thesis
        using i cons Suc.prems
        by (auto simp: calculatedMerkleRootFlexible.simps nextElement_eq option.map_ident)
    next
      case set: True
      obtain l fl1 hs1 ms1 where d1: "decode h (map (flag_bit flags) [Suc i..<flag_count flags]) hs = (l, fl1, hs1, ms1)"
        by (metis prod_cases4)
      then obtain i1 where c1: "calculatedMerkleRootFlexible flags (Suc i) hs h m = (l, i1, hs1, map_option (\<lambda>m. m @ ms1) m)"
          "i1 \<le> flag_count flags" "fl1 = map (flag_bit flags) [i1..<flag_count flags]"
        using Suc.IH [of "Suc i"] i by (metis Suc_leI)
      obtain q fl2 hs2 ms2 where d2: "decode h fl1 hs1 = (q, fl2, hs2, ms2)"
        by (metis prod_cases4)
      then obtain i2 where c2: "calculatedMerkleRootFlexible flags i1 hs1 h (map_option (\<lambda>m. m @ ms1) m)
            = (q, i2, hs2, map_option (\<lambda>m. m @ ms2) (map_option (\<lambda>m. m @ ms1) m))"
          "i2 \<le> flag_count flags" "fl2 = map (flag_bit flags) [i2..<flag_count flags]"
        using Suc.IH c1 by blast
      have "(r, fl, hs', ms) = (join l (if q = DataNull then l else q), fl2, hs2, ms1 @ ms2)"
        using Suc.prems(2) set d1 d2 cons by simp
      then show ?thesis
        using i set c1 c2
        by (subst calculatedMerkleRootFlexible.simps)
          (simp add: join_def DataAddCopy_def option.map_comp comp_def)
    qed
  qed
qed

section \<open>The message\<close>

text \<open>The Bitcoin compact size, the flag bits packed low bit first, and the message around them.\<close>

definition compact_size :: "nat \<Rightarrow> bytes" where
  "compact_size n =
     (if n < 253 then [of_nat n]
      else if n < 2 ^ 16 then 0xfd # le_bytes 2 (of_nat n :: u16)
      else if n < 2 ^ 32 then 0xfe # le_bytes 4 (of_nat n :: u32)
      else 0xff # le_bytes 8 (of_nat n :: u64))"

function pack_bits :: "bool list \<Rightarrow> bytes" where
  "pack_bits bits = (if bits = [] then [] else horner_sum of_bool 2 (take 8 bits) # pack_bits (drop 8 bits))"
  by pat_completeness auto
termination
  by (relation "measure length") auto

declare pack_bits.simps [simp del]

definition merkle_message :: "bytes \<Rightarrow> nat \<Rightarrow> bool list \<times> datas \<Rightarrow> bytes" where
  "merkle_message header txs tree =
     header @ le_bytes 4 (of_nat txs :: u32)
       @ compact_size (length (snd tree)) @ concat (map dbytes (snd tree))
       @ compact_size (length (pack_bits (fst tree))) @ pack_bits (fst tree)"

lemma readVarInt_compact_size:
  assumes "n < 2 ^ 64"
  shows "readVarInt (compact_size n @ bs) = (of_nat n, bs)"
proof -
  consider "n < 253" | "253 \<le> n" "n < 2 ^ 16" | "2 ^ 16 \<le> n" "n < 2 ^ 32" | "2 ^ 32 \<le> n" by linarith
  then show ?thesis
  proof cases
    case 1
    then have "unat (of_nat n :: u8) = n" by (simp add: unat_of_nat_small)
    then have "(of_nat n :: u8) < 253" "ucast (of_nat n :: u8) = (of_nat n :: u64)"
      using 1 by (simp_all add: word_less_nat_alt ucast_of_nat_small)
    then show ?thesis using 1 by (simp add: compact_size_def readVarInt_def uint8readP_def read_le_def le_word.simps)
  next
    case 2
    then show ?thesis by (simp add: compact_size_def readVarInt_def uintreadP_defs read_le_def
          le_word_le_bytes ucast_of_nat_small del: le_bytes_numeral)
  next
    case 3
    then show ?thesis by (simp add: compact_size_def readVarInt_def uintreadP_defs read_le_def
          le_word_le_bytes ucast_of_nat_small del: le_bytes_numeral)
  next
    case 4
    then show ?thesis by (simp add: compact_size_def readVarInt_def uintreadP_defs read_le_def
          le_word_le_bytes ucast_of_nat_small del: le_bytes_numeral)
  qed
qed

lemma length_compact_size: "1 \<le> length (compact_size n)"
  by (simp add: compact_size_def)

lemma length_pack_bits: "length (pack_bits bits) = (length bits + 7) div 8"
proof (induction bits rule: pack_bits.induct)
  case (1 bits)
  show ?case
  proof (cases "bits = []")
    case True
    then show ?thesis by (simp add: pack_bits.simps)
  next
    case False
    then have "length (pack_bits bits) = Suc ((length bits - 8 + 7) div 8)"
      using 1 by (subst pack_bits.simps) simp
    moreover have "(length bits + 7) div 8 = Suc ((length bits - 1) div 8)"
      using False by (subst le_div_geq) (simp_all add: Suc_le_eq)
    moreover have "(length bits - 8 + 7) div 8 = (length bits - 1) div 8"
      by (cases "length bits \<le> 8") simp_all
    ultimately show ?thesis by simp
  qed
qed

lemma pack_bits_nth:
  "i < 8 * length (pack_bits bits) \<Longrightarrow> bit (pack_bits bits ! (i div 8)) (i mod 8) \<longleftrightarrow> i < length bits \<and> bits ! i"
proof (induction bits arbitrary: i rule: pack_bits.induct)
  case (1 bits)
  then have ne: "bits \<noteq> []" by (auto simp: pack_bits.simps)
  then have eq: "pack_bits bits = horner_sum of_bool 2 (take 8 bits) # pack_bits (drop 8 bits)"
    by (subst pack_bits.simps) simp
  show ?case
  proof (cases "i < 8")
    case True
    then show ?thesis unfolding eq by (simp add: bit_horner_sum_bit_word_iff)
  next
    case False
    then obtain j where j: "i = 8 + j" using le_Suc_ex not_less by blast
    have "bit (pack_bits (drop 8 bits) ! (j div 8)) (j mod 8) \<longleftrightarrow> j < length (drop 8 bits) \<and> drop 8 bits ! j"
      using 1 ne eq j by simp
    moreover have "(8 + j) div 8 = Suc (j div 8)" "(8 + j) mod 8 = j mod 8" by simp_all
    ultimately show ?thesis unfolding eq j by auto
  qed
qed

lemma flag_bit_iff: "flag_bit flags i \<longleftrightarrow> bit (dbytes flags ! (i div 8)) (i mod 8)"
  unfolding flag_bit_def by (simp only: bit_iff_and_push_bit_not_eq_0)

lemma flag_bits_pack:
  assumes "length (pack_bits bits) < 2 ^ 29"
  obtains pad where "map (flag_bit (Bytes (pack_bits bits))) [0..<flag_count (Bytes (pack_bits bits))] = bits @ pad"
    "\<not> list_ex (\<lambda>b. b) pad"
proof
  let ?n = "8 * length (pack_bits bits)" and ?pad = "replicate (8 * length (pack_bits bits) - length bits) False"
  have "of_nat (length (pack_bits bits)) * 8 = (of_nat ?n :: u32)" by simp
  then have count: "flag_count (Bytes (pack_bits bits)) = ?n"
    using assms by (simp add: flag_count_def unat_of_nat_small del: of_nat_mult)
  have "length bits \<le> ?n" unfolding length_pack_bits by presburger
  then show "map (flag_bit (Bytes (pack_bits bits))) [0..<flag_count (Bytes (pack_bits bits))] = bits @ ?pad"
    unfolding count
    by (intro nth_equalityI)
      (auto simp: flag_bit_iff nth_append pack_bits_nth)
  show "\<not> list_ex (\<lambda>b. b) ?pad" by (simp add: list_ex_iff)
qed

section \<open>The decoder on the message\<close>

definition hash_sized :: "data \<Rightarrow> bool" where
  "hash_sized d \<longleftrightarrow> d \<noteq> DataNull \<and> dlength d = 32"

lemma hash_sized_join [simp]: "hash_sized (join a b)"
  by (simp add: hash_sized_def join_def hash256_Bytes length_sha256_spec)

lemma hash_sized_Bytes: "hash_sized d \<longleftrightarrow> (\<exists>bs. d = Bytes bs \<and> length bs = 32)"
  by (cases d) (auto simp: hash_sized_def)

lemma node_hash_sized: "xs \<noteq> [] \<Longrightarrow> list_all hash_sized xs \<Longrightarrow> hash_sized (node h xs)"
  by (cases h; cases xs) auto

lemma pmt_hash_sized:
  "xs \<noteq> [] \<Longrightarrow> list_all hash_sized (map fst xs) \<Longrightarrow> list_all hash_sized (snd (pmt h xs))"
proof (induction h arbitrary: xs)
  case 0
  then show ?case by (cases xs) auto
next
  case (Suc h)
  have parts: "list_all hash_sized (map fst (take n xs))" "list_all hash_sized (map fst (drop n xs))" for n
    using Suc.prems(2) by (auto simp: list_all_iff dest: in_set_takeD in_set_dropD)
  show ?case
  proof (cases "2 ^ h < length xs")
    case True
    then have "take (2 ^ h) xs \<noteq> []" "drop (2 ^ h) xs \<noteq> []" by auto
    then show ?thesis
      using True Suc.prems Suc.IH parts node_hash_sized [of "map fst xs" "Suc h"]
      by (simp add: case_prod_beta)
  next
    case False
    then show ?thesis
      using Suc.prems Suc.IH [of xs] node_hash_sized [of "map fst xs" "Suc h"] by (simp add: case_prod_beta)
  qed
qed

lemma merkleHashes_loop_concat:
  "list_all hash_sized hs \<Longrightarrow> merkleHashes_loop (length hs) (concat (map dbytes hs) @ rest) acc = acc @ hs"
proof (induction hs arbitrary: acc)
  case Nil
  then show ?case by simp
next
  case (Cons h hs)
  then obtain bs where "h = Bytes bs" "length bs = 32" by (auto simp: hash_sized_Bytes)
  then show ?case using Cons by (simp add: DatasAddRef_def)
qed

lemma length_concat_hashes: "list_all hash_sized hs \<Longrightarrow> length (concat (map dbytes hs)) = length hs * 32"
  by (induction hs) (auto simp: hash_sized_def)

lemma tree_width_gt1:
  assumes "1 \<le> unat (MerkleBlockTransactionCount block)" "unat (MerkleBlockTransactionCount block) < 2 ^ 31" "h \<le> 31"
  shows "calculateTreeWidth block h > 1 \<longleftrightarrow> 2 ^ h < unat (MerkleBlockTransactionCount block)"
proof -
  let ?c = "unat (MerkleBlockTransactionCount block)"
  have p: "(2::nat) ^ h \<le> 2 ^ 31" using assms(3) by (intro power_increasing) simp_all
  have "MerkleBlockTransactionCount block + push_bit h 1 - 1 = (of_nat (?c + 2 ^ h - 1) :: u32)"
    using assms(1) by (simp add: push_bit_eq_mult of_nat_diff)
  moreover have "?c + 2 ^ h - 1 < 2 ^ 32" using assms(2) p by simp
  ultimately have q: "unat (drop_bit h (MerkleBlockTransactionCount block + push_bit h 1 - 1)) = (?c + 2 ^ h - 1) div 2 ^ h"
    by (simp add: unat_drop_bit unat_of_nat_small del: of_nat_diff of_nat_add)
  have small: "(?c + 2 ^ h - 1) div 2 ^ h < 2 ^ 31"
  proof (cases h)
    case 0
    then show ?thesis using assms(2) by simp
  next
    case (Suc k)
    have "?c < 2147483648" "1 \<le> (2::nat) ^ k" using assms(2) by simp_all
    then have "?c + 2 * 2 ^ k - 1 < 4294967296 * 2 ^ k" by linarith
    then have "?c + 2 ^ h - 1 < 2 ^ 31 * 2 ^ h" by (simp add: Suc)
    then show ?thesis by (simp add: less_mult_imp_div_less)
  qed
  have "calculateTreeWidth block h = int ((?c + 2 ^ h - 1) div 2 ^ h)"
    unfolding calculateTreeWidth_def using q small sint_small_nat by metis
  moreover have "1 < (?c + 2 ^ h - 1) div 2 ^ h \<longleftrightarrow> 2 * 2 ^ h \<le> ?c + 2 ^ h - 1"
    using div_le_mono less_eq_div_iff_mult_less_eq [of "2 ^ h" 2 "?c + 2 ^ h - 1"] by (simp add: numeral_2_eq_2 Suc_le_eq)
  moreover have "2 * 2 ^ h \<le> ?c + 2 ^ h - 1 \<longleftrightarrow> 2 ^ h < ?c" using assms(1) by auto
  ultimately show ?thesis by simp
qed

lemma tree_height_bounds:
  assumes "1 \<le> unat (MerkleBlockTransactionCount block)" "unat (MerkleBlockTransactionCount block) < 2 ^ 31"
    "h \<le> 31" "h = 0 \<or> 2 ^ (h - 1) < unat (MerkleBlockTransactionCount block)"
  shows "unat (MerkleBlockTransactionCount block) \<le> 2 ^ tree_height block h
    \<and> (tree_height block h = 0 \<or> 2 ^ (tree_height block h - 1) < unat (MerkleBlockTransactionCount block))"
  using assms
proof (induction block h rule: tree_height.induct)
  case (1 block h)
  let ?c = "unat (MerkleBlockTransactionCount block)"
  show ?case
  proof (cases "2 ^ h < ?c")
    case True
    then have "h \<noteq> 31" using 1 by auto
    then have "Suc h \<le> 31" using 1 by simp
    moreover have "tree_height block h = tree_height block (Suc h)"
      using True 1 by (subst tree_height.simps) (simp add: tree_width_gt1)
    ultimately show ?thesis using True 1 by (simp add: tree_width_gt1)
  next
    case False
    then have "tree_height block h = h" using 1 by (subst tree_height.simps) (simp add: tree_width_gt1)
    then show ?thesis using False 1 by simp
  qed
qed

lemma pmt_not_empty: "snd (pmt h xs) \<noteq> []" "fst (pmt h xs) \<noteq> []"
proof -
  have "snd (pmt h xs) \<noteq> [] \<and> fst (pmt h xs) \<noteq> []"
    by (induction h arbitrary: xs) (simp_all add: case_prod_beta)
  then show "snd (pmt h xs) \<noteq> []" "fst (pmt h xs) \<noteq> []" by simp_all
qed

lemma message_parts:
  assumes "length header = 80" "list_all hash_sized (snd tree)" "snd tree \<noteq> []" "txs < 2 ^ 32"
    "length (merkle_message header txs tree) < 2 ^ 29"
  defines "block \<equiv> MerkleBlockNew (Bytes (merkle_message header txs tree))"
  shows "unat (MerkleBlockTransactionCount block) = txs"
    and "merkleHashes block = snd tree"
    and "merkleFlags block = Inr (Bytes (pack_bits (fst tree)))"
    and "merkleRoot block = Bytes (take 32 (drop 36 header))"
    and "dlength (mb_data block) \<ge> 85"
proof -
  let ?n = "length (snd tree)" and ?f = "pack_bits (fst tree)" and ?hs = "concat (map dbytes (snd tree))"
  let ?rest = "compact_size ?n @ ?hs @ compact_size (length ?f) @ ?f"
  have m: "dbytes (mb_data block) = header @ le_bytes 4 (of_nat txs :: u32) @ ?rest"
    by (simp add: block_def MerkleBlockNew_def merkle_message_def del: le_bytes_numeral)
  then have rest: "drop 84 (dbytes (mb_data block)) = ?rest"
    using assms(1) by (simp del: le_bytes_numeral)
  have len: "length ?hs = ?n * 32" using assms(2) by (rule length_concat_hashes)
  have bound: "?n * 32 + length ?f < 2 ^ 29"
    using assms(5) len by (simp add: merkle_message_def del: le_bytes_numeral)
  show l85: "dlength (mb_data block) \<ge> 85"
    unfolding m using assms(1) length_compact_size [of ?n] by (simp del: le_bytes_numeral)
  have "block_u32 block 80 = (of_nat txs :: u32)"
    unfolding block_u32_def DataCopyDataPart_def m using assms(1)
    by (simp add: le_word_le_bytes del: le_bytes_numeral)
  then show "unat (MerkleBlockTransactionCount block) = txs"
    using l85 assms(4) by (simp add: MerkleBlockTransactionCount_def unat_of_nat_small)
  have v: "readVarInt ?rest = (of_nat ?n, ?hs @ compact_size (length ?f) @ ?f)"
    using bound by (intro readVarInt_compact_size) simp
  have n: "unat (of_nat ?n :: u64) = ?n" using bound by (simp add: unat_of_nat_small)
  show "merkleHashes block = snd tree"
    unfolding merkleHashes_def rest v using l85 assms(2)
    by (simp add: n merkleHashes_loop_concat)
  have "of_nat ?n * 32 = (of_nat (?n * 32) :: u64)" by simp
  then have n32: "unat (of_nat ?n * 32 :: u64) = ?n * 32"
    using bound by (simp add: unat_of_nat_small del: of_nat_mult)
  have v2: "readVarInt (compact_size (length ?f) @ ?f) = (of_nat (length ?f), ?f)"
    using bound by (intro readVarInt_compact_size) simp
  have f: "unat (of_nat (length ?f) :: u64) = length ?f" "unat (ucast (of_nat (length ?f) :: u64) :: u32) = length ?f"
    using bound by (simp_all add: unat_of_nat_small ucast_of_nat_small)
  show "merkleFlags block = Inr (Bytes ?f)"
    unfolding merkleFlags_def rest v using l85 len by (simp add: n32 v2 f)
  show "merkleRoot block = Bytes (take 32 (drop 36 header))"
    unfolding merkleRoot_def DataCopyDataPart_def m using l85 assms(1)
    by (simp add: m del: le_bytes_numeral)
qed

lemma exponent_unique:
  assumes "n \<le> (2::nat) ^ a" "a = 0 \<or> 2 ^ (a - 1) < n" "n \<le> 2 ^ b" "b = 0 \<or> 2 ^ (b - 1) < n"
  shows "a = b"
proof -
  have le: "\<not> a < b" if "n \<le> (2::nat) ^ a" "b = 0 \<or> 2 ^ (b - 1) < n" for a b
  proof
    assume "a < b"
    then have "(2::nat) ^ a \<le> 2 ^ (b - 1)" by (intro power_increasing) simp_all
    then show False using that \<open>a < b\<close> by linarith
  qed
  show ?thesis using le [OF assms(1,4)] le [OF assms(3,2)] by simp
qed

lemma DataEqual_iff:
  assumes "a \<noteq> DataNull" "b \<noteq> DataNull" "small_data a" "small_data b"
  shows "DataEqual a b \<longleftrightarrow> a = b"
  using assms by (cases a; cases b) (simp_all add: DataEqual_def DataCompare_0_iff)

lemma valid_hashes:
  assumes "dlength (mb_data block) \<ge> 85" "merkleHashes block = hs" "list_all hash_sized hs"
    "length hs = 1 \<or> last hs \<noteq> last (butlast hs)" "hs \<noteq> []"
  shows "MerkleBlockValid block"
proof (cases "length hs = 1")
  case True
  then show ?thesis using assms by (simp add: MerkleBlockValid_def)
next
  case False
  then have len: "1 < length hs" using assms(5) by (cases hs) auto
  then have last: "last hs = hs ! (length hs - 1)" "last (butlast hs) = hs ! (length hs - 2)"
  proof -
    have "hs \<noteq> []" "butlast hs \<noteq> []" using len by (auto simp: butlast_conv_take)
    then show "last hs = hs ! (length hs - 1)" "last (butlast hs) = hs ! (length hs - 2)"
      using len by (simp_all add: last_conv_nth nth_butlast numeral_2_eq_2)
  qed
  have "hash_sized (hs ! (length hs - 1))" "hash_sized (hs ! (length hs - 2))"
    using assms(3) len by (simp_all add: list_all_length)
  then have "DataEqual (hs ! (length hs - 1)) (hs ! (length hs - 2))
      \<longleftrightarrow> hs ! (length hs - 1) = hs ! (length hs - 2)"
    by (intro DataEqual_iff) (auto simp: hash_sized_def small_data_def)
  then show ?thesis
    using assms len last False by (simp add: MerkleBlockValid_def Let_def)
qed

text \<open>
  C2. On the message for a block with the given transactions (32 byte ids, some of them matched)
  the code recomputes the Merkle root of the whole block from the partial tree, and returns
  exactly the matched ids, in order, when that root is the one in the header and nothing
  otherwise. This needs the last two transmitted hashes to differ, as \<open>MerkleBlockValid\<close> demands.
\<close>

theorem merkle_block_decodes:
  fixes xs :: "(data \<times> bool) list"
  assumes "length header = 80" "xs \<noteq> []" "list_all hash_sized (map fst xs)" "length xs < 2 ^ 31"
    and "length xs \<le> 2 ^ h" "h = 0 \<or> 2 ^ (h - 1) < length xs"
    and "length (merkle_message header (length xs) (pmt h xs)) < 2 ^ 29"
    and "length (snd (pmt h xs)) = 1 \<or> last (snd (pmt h xs)) \<noteq> last (butlast (snd (pmt h xs)))"
  shows "calculatedMerkleRoot (MerkleBlockNew (Bytes (merkle_message header (length xs) (pmt h xs))))
       = Inr (merkle_root_of (map fst xs))
    \<and> matchingTxIdsIfValidRoot (MerkleBlockNew (Bytes (merkle_message header (length xs) (pmt h xs))))
       = Inr (if merkle_root_of (map fst xs) = Bytes (take 32 (drop 36 header)) then matched xs else [])"
proof -
  define block where "block = MerkleBlockNew (Bytes (merkle_message header (length xs) (pmt h xs)))"
  let ?hs = "snd (pmt h xs)" and ?f = "Bytes (pack_bits (fst (pmt h xs)))" and ?ids = "map fst xs"
  have sized: "list_all hash_sized ?hs" using assms by (intro pmt_hash_sized)
  have parts: "unat (MerkleBlockTransactionCount block) = length xs" "merkleHashes block = ?hs"
      "merkleFlags block = Inr ?f" "merkleRoot block = Bytes (take 32 (drop 36 header))"
      "dlength (mb_data block) \<ge> 85"
    unfolding block_def using message_parts [OF assms(1) sized pmt_not_empty(1) _ assms(7)] assms(4) by simp_all
  have h: "tree_height block 0 = h"
  proof -
    have "length xs \<le> 2 ^ tree_height block 0 \<and> (tree_height block 0 = 0 \<or> 2 ^ (tree_height block 0 - 1) < length xs)"
      using tree_height_bounds [of block 0] parts(1) assms(2,4) by (simp add: Suc_le_eq)
    then show ?thesis by (intro exponent_unique [OF _ _ assms(5,6)]) (rule conjunct1, assumption, rule conjunct2)
  qed
  have valid: "MerkleBlockValid block" by (rule valid_hashes) (use parts sized assms(8) pmt_not_empty in simp_all)
  have root: "merkle_root_of ?ids = node h ?ids"
    by (rule merkle_root_of_node) (use assms(2,5,6) in simp_all)
  have "length (pack_bits (fst (pmt h xs))) < 2 ^ 29"
    using assms(7) by (simp add: merkle_message_def del: le_bytes_numeral)
  then obtain pad where pad: "map (flag_bit ?f) [0..<flag_count ?f] = fst (pmt h xs) @ pad" "\<not> list_ex (\<lambda>b. b) pad"
    by (rule flag_bits_pack)
  have "DataNull \<notin> set ?ids" using assms(3) by (auto simp: list_all_iff hash_sized_def)
  then obtain fl where "decode h (map (flag_bit ?f) [0..<flag_count ?f]) ?hs = (node h ?ids, fl, [], matched xs)"
    using decode_pmt [OF assms(2,5) _ pad(2)] unfolding pad(1) by blast
  then have flex: "\<exists>i. calculatedMerkleRootFlexible ?f 0 ?hs h m = (node h ?ids, i, [], map_option (\<lambda>m. m @ matched xs) m)" for m
    using flexible_decode [of 0] by blast
  have maestro: "calculatedMerkleRootMaestro block m = Inr (node h ?ids, map_option (\<lambda>m. m @ matched xs) m)" for m
  proof -
    obtain i where "calculatedMerkleRootFlexible ?f 0 ?hs h m = (node h ?ids, i, [], map_option (\<lambda>m. m @ matched xs) m)"
      using flex by blast
    then show ?thesis
      unfolding calculatedMerkleRootMaestro_def Let_def using valid by (simp add: parts h)
  qed
  have node: "hash_sized (node h ?ids)" using assms(2,3) by (intro node_hash_sized) simp_all
  moreover have "DataEqual (node h ?ids) (Bytes (take 32 (drop 36 header))) \<longleftrightarrow> node h ?ids = Bytes (take 32 (drop 36 header))"
    by (rule DataEqual_iff) (use node assms(1) in \<open>auto simp: hash_sized_def small_data_def\<close>)
  ultimately show ?thesis
    unfolding block_def [symmetric] root calculatedMerkleRoot_def matchingTxIdsIfValidRoot_def maestro parts
    by (simp add: hash_sized_def)
qed

theorem merkle_block_decodes_witness:
  "matchingTxIdsIfValidRoot (MerkleBlockNew (Bytes (merkle_message (replicate 80 0) 3
      (pmt 2 [(Bytes (replicate 32 1), True), (Bytes (replicate 32 2), True), (Bytes (replicate 32 3), True)]))))
    = Inr (if merkle_root_of [Bytes (replicate 32 1), Bytes (replicate 32 2), Bytes (replicate 32 3)]
          = Bytes (replicate 32 0)
        then [Bytes (replicate 32 1), Bytes (replicate 32 2), Bytes (replicate 32 3)] else [])"
proof -
  let ?xs = "[(Bytes (replicate 32 1), True), (Bytes (replicate 32 2), True), (Bytes (replicate 32 3), True)]"
  have pmt: "pmt 2 ?xs = ([True, True, True, True, True, True], map fst ?xs)"
    by (simp add: numeral_2_eq_2)
  have "length (merkle_message (replicate 80 0) 3 (pmt 2 ?xs)) < 2 ^ 29"
    unfolding pmt by (simp add: merkle_message_def compact_size_def pack_bits.simps)
  moreover have "last (snd (pmt 2 ?xs)) \<noteq> last (butlast (snd (pmt 2 ?xs)))"
    unfolding pmt by (simp add: numeral_eq_Suc)
  moreover have "length ?xs = 3" "map fst ?xs = [Bytes (replicate 32 1), Bytes (replicate 32 2), Bytes (replicate 32 3)]"
      "matched ?xs = [Bytes (replicate 32 1), Bytes (replicate 32 2), Bytes (replicate 32 3)]"
      "take 32 (drop 36 (replicate 80 0)) = replicate 32 (0::u8)"
    by (simp_all add: matched_def)
  ultimately show ?thesis
    using merkle_block_decodes [of "replicate 80 0" ?xs 2] by (simp only:) (simp add: hash_sized_def)
qed

section \<open>What an untrusted message can claim\<close>

text \<open>A chain of hashing steps from an id up to a root at the given depth.\<close>

inductive auth_path :: "nat \<Rightarrow> data \<Rightarrow> data \<Rightarrow> bool" where
  here: "auth_path 0 m m"
| left: "auth_path h m l \<Longrightarrow> auth_path (Suc h) m (join l r)"
| right: "auth_path h m r \<Longrightarrow> auth_path (Suc h) m (join l r)"

inductive_cases auth_path_0: "auth_path 0 m r"

lemma decode_auth_path:
  "decode h fl hs = (r, fl', hs', ms) \<Longrightarrow> m \<in> set ms \<Longrightarrow> m \<noteq> DataNull \<Longrightarrow> r \<noteq> DataNull \<and> auth_path h m r"
proof (induction h fl hs arbitrary: r fl' hs' ms rule: decode.induct)
  case (4 h fl hs)
  obtain l fl1 hs1 ms1 where d1: "decode h fl hs = (l, fl1, hs1, ms1)" by (metis prod_cases4)
  obtain q fl2 hs2 ms2 where d2: "decode h fl1 hs1 = (q, fl2, hs2, ms2)" by (metis prod_cases4)
  have r: "r = join l (if q = DataNull then l else q)" "ms = ms1 @ ms2" using 4(3) d1 d2 by auto
  then consider "m \<in> set ms1" | "m \<in> set ms2" using 4(4) by auto
  then show ?case
  proof cases
    case 1
    then have "auth_path h m l" using 4(1) [OF d1] 4(5) by blast
    then show ?thesis using r auth_path.left by simp
  next
    case 2
    then have "q \<noteq> DataNull \<and> auth_path h m q" using 4(2) d1 d2 4(5) by auto
    then show ?thesis using r auth_path.right by simp
  qed
qed (auto intro: here)

text \<open>
  C3. Whatever bytes a peer sends: an id the code reports as matched is the null object or is
  linked to the root in the header by a chain of double SHA-256 steps whose length is the tree
  height that follows from the transaction count. A peer cannot have a transaction accepted
  without such a proof of inclusion.
\<close>

theorem matched_ids_authenticated:
  assumes "matchingTxIdsIfValidRoot block = Inr ms" "m \<in> set ms" "m \<noteq> DataNull"
  shows "\<exists>root. auth_path (tree_height block 0) m root \<and> DataEqual root (merkleRoot block)"
proof -
  obtain root matches where maestro: "calculatedMerkleRootMaestro block (Some []) = Inr (root, matches)"
      and ms: "matches = Some ms" and eq: "DataEqual root (merkleRoot block)"
    using assms(1,2) by (auto simp: matchingTxIdsIfValidRoot_def split: sum.splits if_splits option.splits)
  obtain flags where "merkleFlags block = Inr flags"
    using maestro ms assms(2) by (auto simp: calculatedMerkleRootMaestro_def split: if_splits sum.splits)
  moreover obtain r fl hs ms' where
    d: "decode (tree_height block 0) (map (flag_bit flags) [0..<flag_count flags]) (merkleHashes block) = (r, fl, hs, ms')"
    by (metis prod_cases4)
  moreover obtain i where "calculatedMerkleRootFlexible flags 0 (merkleHashes block) (tree_height block 0) (Some [])
      = (r, i, hs, Some ms')"
    using flexible_decode [OF _ d, of "Some []"] by auto
  ultimately have "r = root" "ms' = ms"
    using maestro ms assms(2) by (auto simp: calculatedMerkleRootMaestro_def split: if_splits)
  then show ?thesis using decode_auth_path [OF d] assms eq by blast
qed

theorem matched_ids_authenticated_witness:
  "\<exists>root. auth_path (tree_height (MerkleBlockNew (Bytes (replicate 36 0 @ replicate 32 1 @ replicate 12 0
        @ [1, 0, 0, 0, 1] @ replicate 32 1 @ [1, 1]))) 0) (Bytes (replicate 32 1)) root
    \<and> DataEqual root (Bytes (replicate 32 1))"
proof -
  let ?b = "MerkleBlockNew (Bytes (replicate 36 0 @ replicate 32 1 @ replicate 12 0
        @ [1, 0, 0, 0, 1] @ replicate 32 1 @ [1, 1]))"
  have "matchingTxIdsIfValidRoot ?b = Inr [Bytes (replicate 32 1)]" by code_simp
  moreover have "merkleRoot ?b = Bytes (replicate 32 1)" by code_simp
  ultimately show ?thesis using matched_ids_authenticated [of ?b] by simp
qed

section \<open>Header fields and the hash cache\<close>

definition header_bytes :: "u32 \<Rightarrow> bytes \<Rightarrow> bytes \<Rightarrow> u32 \<Rightarrow> u32 \<Rightarrow> u32 \<Rightarrow> bytes" where
  "header_bytes version prev root time bits nonce =
     le_bytes 4 version @ prev @ root @ le_bytes 4 time @ le_bytes 4 bits @ le_bytes 4 nonce"

text \<open>
  The accessors return the six fields of an 80 byte header, whatever follows it; the block
  hash is the double SHA-256 of the header, and asking again gives the same answer from the
  cache without changing the block.
\<close>

lemma header_fields:
  assumes "length prev = 32" "length root = 32"
  shows "let block = MerkleBlockNew (Bytes (header_bytes version prev root time bits nonce @ rest));
           (h, block') = blockHash block in
      blockVersion block = sint version \<and> blockPrevHash block = Bytes prev \<and> merkleRoot block = Bytes root
    \<and> blockTimestamp block = time \<and> blockBits block = bits \<and> blockNonce block = nonce
    \<and> h = Bytes (sha256_spec (sha256_spec (header_bytes version prev root time bits nonce)))
    \<and> mb_data block' = mb_data block \<and> blockHash block' = (h, block')"
  using assms
  by (simp add: Let_def MerkleBlockNew_def header_bytes_def blockVersion_def blockPrevHash_def merkleRoot_def
      blockTimestamp_def blockBits_def blockNonce_def blockHash_def block_u32_def DataCopyDataPart_def
      le_word_le_bytes hash256_Bytes del: le_bytes_numeral)

end
