(* ===== verification/Ripemd160.thy ===== *)
theory Ripemd160
  imports Sha256
begin

text \<open>
  RIPEMD-160 (\<open>src/libraries/rmd160\<close>) as \<open>ripemd160\<close> and \<open>hash160\<close> in \<open>src/code/BTCUtil.c\<close> use it.
  A step of the C code names its five registers in an order that rotates by one from step to
  step; here the registers are a tuple that each step rotates.
\<close>

section \<open>The compression function\<close>

definition ROL :: "u32 \<Rightarrow> nat \<Rightarrow> u32" where
  "ROL x n = push_bit n x OR drop_bit (32 - n) x"

definition rmd_F :: "u32 \<Rightarrow> u32 \<Rightarrow> u32 \<Rightarrow> u32" where "rmd_F x y z = x XOR y XOR z"
definition rmd_G :: "u32 \<Rightarrow> u32 \<Rightarrow> u32 \<Rightarrow> u32" where "rmd_G x y z = (x AND y) OR (NOT x AND z)"
definition rmd_H :: "u32 \<Rightarrow> u32 \<Rightarrow> u32 \<Rightarrow> u32" where "rmd_H x y z = (x OR NOT y) XOR z"
definition rmd_I :: "u32 \<Rightarrow> u32 \<Rightarrow> u32 \<Rightarrow> u32" where "rmd_I x y z = (x AND z) OR (y AND NOT z)"
definition rmd_J :: "u32 \<Rightarrow> u32 \<Rightarrow> u32 \<Rightarrow> u32" where "rmd_J x y z = x XOR (y OR NOT z)"

type_synonym registers = "u32 \<times> u32 \<times> u32 \<times> u32 \<times> u32"

definition rmd_step :: "(u32 \<Rightarrow> u32 \<Rightarrow> u32 \<Rightarrow> u32) \<Rightarrow> u32 \<Rightarrow> u32 \<Rightarrow> nat \<Rightarrow> registers \<Rightarrow> registers" where
  "rmd_step f k x s = (\<lambda>(a, b, c, d, e). (e, ROL (a + (f b c d + x + k)) s + e, b, ROL c 10, d))"

text \<open>Message word and shift of each step, line by line; the second five are the parallel line.\<close>

definition rmd_line1 :: "(nat \<times> nat) list" where
  "rmd_line1 = [(0, 11), (1, 14), (2, 15), (3, 12), (4, 5), (5, 8), (6, 7), (7, 9),
     (8, 11), (9, 13), (10, 14), (11, 15), (12, 6), (13, 7), (14, 9), (15, 8)]"

definition rmd_line2 :: "(nat \<times> nat) list" where
  "rmd_line2 = [(7, 7), (4, 6), (13, 8), (1, 13), (10, 11), (6, 9), (15, 7), (3, 15),
     (12, 7), (0, 12), (9, 15), (5, 9), (2, 11), (14, 7), (11, 13), (8, 12)]"

definition rmd_line3 :: "(nat \<times> nat) list" where
  "rmd_line3 = [(3, 11), (10, 13), (14, 6), (4, 7), (9, 14), (15, 9), (8, 13), (1, 15),
     (2, 14), (7, 8), (0, 13), (6, 6), (13, 5), (11, 12), (5, 7), (12, 5)]"

definition rmd_line4 :: "(nat \<times> nat) list" where
  "rmd_line4 = [(1, 11), (9, 12), (11, 14), (10, 15), (0, 14), (8, 15), (12, 9), (4, 8),
     (13, 9), (3, 14), (7, 5), (15, 6), (14, 8), (5, 6), (6, 5), (2, 12)]"

definition rmd_line5 :: "(nat \<times> nat) list" where
  "rmd_line5 = [(4, 9), (0, 15), (5, 5), (9, 11), (7, 6), (12, 8), (2, 13), (10, 12),
     (14, 5), (1, 12), (3, 13), (8, 14), (11, 11), (6, 8), (15, 5), (13, 6)]"

definition rmd_parallel1 :: "(nat \<times> nat) list" where
  "rmd_parallel1 = [(5, 8), (14, 9), (7, 9), (0, 11), (9, 13), (2, 15), (11, 15), (4, 5),
     (13, 7), (6, 7), (15, 8), (8, 11), (1, 14), (10, 14), (3, 12), (12, 6)]"

definition rmd_parallel2 :: "(nat \<times> nat) list" where
  "rmd_parallel2 = [(6, 9), (11, 13), (3, 15), (7, 7), (0, 12), (13, 8), (5, 9), (10, 11),
     (14, 7), (15, 7), (8, 12), (12, 7), (4, 6), (9, 15), (1, 13), (2, 11)]"

definition rmd_parallel3 :: "(nat \<times> nat) list" where
  "rmd_parallel3 = [(15, 9), (5, 7), (1, 15), (3, 11), (7, 8), (14, 6), (6, 6), (9, 14),
     (11, 12), (8, 13), (12, 5), (2, 14), (10, 13), (0, 13), (4, 7), (13, 5)]"

definition rmd_parallel4 :: "(nat \<times> nat) list" where
  "rmd_parallel4 = [(8, 15), (6, 5), (4, 8), (1, 11), (3, 14), (11, 14), (15, 6), (0, 14),
     (5, 6), (12, 9), (2, 12), (13, 9), (9, 12), (7, 5), (10, 15), (14, 8)]"

definition rmd_parallel5 :: "(nat \<times> nat) list" where
  "rmd_parallel5 = [(12, 8), (15, 5), (10, 12), (4, 9), (1, 12), (5, 5), (8, 14), (7, 6),
     (6, 8), (2, 13), (13, 6), (14, 5), (0, 15), (3, 13), (9, 11), (11, 11)]"

definition rmd_round ::
    "(u32 \<Rightarrow> u32 \<Rightarrow> u32 \<Rightarrow> u32) \<Rightarrow> u32 \<Rightarrow> (nat \<times> nat) list \<Rightarrow> u32 list \<Rightarrow> registers \<Rightarrow> registers" where
  "rmd_round f k tab X st = fold (\<lambda>(i, s). rmd_step f k (X ! i) s) tab st"

definition compress :: "u32 list \<Rightarrow> u32 list \<Rightarrow> u32 list" where
  "compress MDbuf X =
     (let st = (MDbuf ! 0, MDbuf ! 1, MDbuf ! 2, MDbuf ! 3, MDbuf ! 4);
          (aa, bb, cc, dd, ee) =
            rmd_round rmd_J 0xa953fd4e rmd_line5 X (rmd_round rmd_I 0x8f1bbcdc rmd_line4 X
            (rmd_round rmd_H 0x6ed9eba1 rmd_line3 X (rmd_round rmd_G 0x5a827999 rmd_line2 X
            (rmd_round rmd_F 0 rmd_line1 X st))));
          (aaa, bbb, ccc, ddd, eee) =
            rmd_round rmd_F 0 rmd_parallel5 X (rmd_round rmd_G 0x7a6d76e9 rmd_parallel4 X
            (rmd_round rmd_H 0x6d703ef3 rmd_parallel3 X (rmd_round rmd_I 0x5c4dd124 rmd_parallel2 X
            (rmd_round rmd_J 0x50a28be6 rmd_parallel1 X st))))
      in [ddd + (cc + MDbuf ! 1), MDbuf ! 2 + dd + eee, MDbuf ! 3 + ee + aaa, MDbuf ! 4 + aa + bbb,
          MDbuf ! 0 + bb + ccc])"

section \<open>The hash\<close>

definition MDinit :: "u32 list" where
  "MDinit = [0x67452301, 0xefcdab89, 0x98badcfe, 0x10325476, 0xc3d2e1f0]"

text \<open>Byte \<open>i\<close> goes into word \<open>i div 4\<close>.\<close>

definition put_byte :: "nat \<Rightarrow> u8 \<Rightarrow> u32 list \<Rightarrow> u32 list" where
  "put_byte i b X = X[i div 4 := X ! (i div 4) XOR push_bit (8 * (i mod 4)) (ucast b)]"

fun put_bytes :: "nat \<Rightarrow> bytes \<Rightarrow> u32 list \<Rightarrow> u32 list" where
  "put_bytes i [] X = X"
| "put_bytes i (b # bs) X = put_bytes (i + 1) bs (put_byte i b X)"

definition MDfinish :: "u32 list \<Rightarrow> bytes \<Rightarrow> u32 \<Rightarrow> u32 \<Rightarrow> u32 list" where
  "MDfinish MDbuf strptr lswlen mswlen =
     (let n = unat lswlen;
          X = put_bytes 0 (take (n mod 64) strptr) (replicate 16 0);
          X = X[n div 4 mod 16 := X ! (n div 4 mod 16) XOR push_bit (8 * (n mod 4) + 7) 1];
          (MDbuf, X) = (if n mod 64 > 55 then (compress MDbuf X, replicate 16 0) else (MDbuf, X));
          X = X[14 := push_bit 3 lswlen];
          X = X[15 := drop_bit 29 lswlen OR push_bit 3 mswlen]
      in compress MDbuf X)"

definition chunk_words :: "bytes \<Rightarrow> u32 list" where
  "chunk_words bs = map (\<lambda>i. le_word (take 4 (drop (4 * i) bs))) [0..<16]"

function rmd_chunks :: "nat \<Rightarrow> bytes \<Rightarrow> u32 list \<Rightarrow> u32 list \<times> bytes" where
  "rmd_chunks nbytes bs MDbuf =
     (if nbytes > 63 then rmd_chunks (nbytes - 64) (drop 64 bs) (compress MDbuf (chunk_words bs))
      else (MDbuf, bs))"
  by pat_completeness auto
termination
  by (relation "measure (\<lambda>(n, _, _). n)") auto

declare rmd_chunks.simps [simp del]

definition ripemd160 :: "data \<Rightarrow> data" where
  "ripemd160 d = (case d of DataNull \<Rightarrow> DataNull
     | Bytes bs \<Rightarrow>
         let len = of_nat (length bs) :: u32;
             (MDbuf, rest) = rmd_chunks (unat len) bs MDinit;
             MDbuf = MDfinish MDbuf rest len 0
         in Bytes (concat (map (\<lambda>i. le_bytes 4 (MDbuf ! i)) [0..<5])))"

definition hash160 :: "data \<Rightarrow> data" where
  "hash160 d = ripemd160 (sha256 d)"

section \<open>The reference\<close>

definition rmd_pad :: "nat \<Rightarrow> bytes" where
  "rmd_pad len = 0x80 # replicate ((119 - len mod 64) mod 64) 0 @ le_bytes 8 (of_nat (8 * len) :: u64)"

function rmd_blocks :: "u32 list \<Rightarrow> bytes \<Rightarrow> u32 list" where
  "rmd_blocks st bs = (if length bs < 64 then st else rmd_blocks (compress st (chunk_words (take 64 bs))) (drop 64 bs))"
  by pat_completeness auto
termination
  by (relation "measure (\<lambda>(st, bs). length bs)") auto

declare rmd_blocks.simps [simp del]

definition ripemd160_spec :: "bytes \<Rightarrow> bytes" where
  "ripemd160_spec bs = concat (map (le_bytes 4) (rmd_blocks MDinit (bs @ rmd_pad (length bs))))"

interpretation rmd: block_chain 64 "\<lambda>st bs. compress st (chunk_words bs)" rmd_blocks
  by unfold_locales (simp, subst rmd_blocks.simps, rule refl)

section \<open>Message words\<close>

lemma le_word_snoc:
  "length xs < 4 \<Longrightarrow> (le_word (xs @ [b]) :: u32) = le_word xs XOR push_bit (8 * length xs) (ucast b)"
proof (induction xs)
  case Nil
  then show ?case by simp
next
  case (Cons x xs)
  then have IH: "(le_word (xs @ [b]) :: u32) = le_word xs XOR push_bit (8 * length xs) (ucast b)" by simp
  show ?case
    by (rule bit_word_eqI) (auto simp: IH bit_simps dest: bit_imp_le_length)
qed

lemma le_word_zeros: "le_word (xs @ replicate k 0) = le_word xs"
proof (induction xs)
  case Nil
  then show ?case by (induction k) simp_all
qed simp

lemma chunk_words_zeros: "chunk_words (t @ replicate k 0) = chunk_words t"
proof -
  have "take 4 (drop (4 * i) (t @ replicate k 0)) = take 4 (drop (4 * i) t)
      @ replicate (min (4 - length (drop (4 * i) t)) (k - (4 * i - length t))) 0" for i
    by simp
  then show ?thesis unfolding chunk_words_def by (simp only: le_word_zeros)
qed

lemma chunk_words_nth: "j < 16 \<Longrightarrow> chunk_words t ! j = le_word (take 4 (drop (4 * j) t))"
  by (simp add: chunk_words_def)

lemma put_byte_chunk:
  assumes "length t < 64"
  shows "put_byte (length t) b (chunk_words t) = chunk_words (t @ [b])"
proof (rule nth_equalityI)
  show "length (put_byte (length t) b (chunk_words t)) = length (chunk_words (t @ [b]))"
    by (simp add: put_byte_def chunk_words_def)
  fix j
  assume "j < length (put_byte (length t) b (chunk_words t))"
  then have j: "j < 16" by (simp add: put_byte_def chunk_words_def)
  let ?q = "length t div 4"
  have split: "length t = 4 * ?q + length t mod 4" by simp
  have q: "?q < 16" using assms by simp
  show "put_byte (length t) b (chunk_words t) ! j = chunk_words (t @ [b]) ! j"
  proof (cases "j = ?q")
    case True
    have "length (drop (4 * ?q) t) = length t mod 4" by (simp add: minus_mult_div_eq_mod)
    moreover have "length t mod 4 < 4" by simp
    ultimately have "(le_word (drop (4 * ?q) t @ [b]) :: u32)
        = le_word (drop (4 * ?q) t) XOR push_bit (8 * (length t mod 4)) (ucast b)"
      and "take 4 (drop (4 * ?q) t) = drop (4 * ?q) t" "take 4 (drop (4 * ?q) t @ [b]) = drop (4 * ?q) t @ [b]"
      using le_word_snoc [of "drop (4 * ?q) t" b] by simp_all
    moreover have "drop (4 * ?q) (t @ [b]) = drop (4 * ?q) t @ [b]" using split by simp
    ultimately show ?thesis
      unfolding True using q by (simp add: put_byte_def chunk_words_nth chunk_words_def [of t])
  next
    case False
    have "take 4 (drop (4 * j) (t @ [b])) = take 4 (drop (4 * j) t)"
    proof (cases "j < ?q")
      case True
      then have "4 * j + 4 \<le> length t" using split by linarith
      then show ?thesis by simp
    next
      case False
      then have "length t < 4 * j" using \<open>j \<noteq> ?q\<close> split mod_less_divisor [of 4 "length t"] by linarith
      then show ?thesis by simp
    qed
    then have "chunk_words (t @ [b]) ! j = chunk_words t ! j" using j by (simp only: chunk_words_nth)
    then show ?thesis using False by (simp add: put_byte_def)
  qed
qed

lemma put_bytes_chunk:
  "length (t @ bs) \<le> 64 \<Longrightarrow> put_bytes (length t) bs (chunk_words t) = chunk_words (t @ bs)"
proof (induction bs arbitrary: t)
  case Nil
  then show ?case by simp
next
  case (Cons b bs)
  then have "put_byte (length t) b (chunk_words t) = chunk_words (t @ [b])" by (intro put_byte_chunk) simp
  then show ?case using Cons.IH [of "t @ [b]"] Cons.prems by simp
qed

lemma chunk_words_Nil: "chunk_words [] = replicate 16 0"
  by (simp add: chunk_words_def map_replicate_const)

lemma chunk_words_end:
  assumes "length z = 56" "length l = 4" "length h = 4"
  shows "chunk_words (z @ l @ h) = (chunk_words z)[14 := le_word l, 15 := le_word h]"
proof (rule nth_equalityI)
  show "length (chunk_words (z @ l @ h)) = length ((chunk_words z)[14 := le_word l, 15 := le_word h])"
    by (simp add: chunk_words_def)
  fix j
  assume "j < length (chunk_words (z @ l @ h))"
  then have j: "j < 16" by (simp add: chunk_words_def)
  then consider "j < 14" | "j = 14" | "j = 15" by linarith
  then show "chunk_words (z @ l @ h) ! j = (chunk_words z)[14 := le_word l, 15 := le_word h] ! j"
  proof cases
    case 1
    then show ?thesis using assms by (simp add: chunk_words_nth)
  qed (use assms in \<open>simp_all add: chunk_words_nth chunk_words_def\<close>)
qed

lemma le_bytes_split:
  "le_bytes 8 (w :: u64) = le_bytes 4 (ucast w :: u32) @ le_bytes 4 (ucast (drop_bit 32 w) :: u32)"
  by (simp add: ucast_drop_bit_eq flip: take_bit_eq_mod) (auto intro!: bit_word_eqI simp: bit_simps)

lemma ucast_of_nat_u64: "(ucast (of_nat m :: u64) :: u32) = of_nat m"
  by transfer simp

lemma bit_length_words:
  assumes "n < 2 ^ 32"
  shows "(ucast (of_nat (8 * n) :: u64) :: u32) = push_bit 3 (of_nat n)"
    and "(ucast (drop_bit 32 (of_nat (8 * n) :: u64)) :: u32) = drop_bit 29 (of_nat n :: u32)"
proof -
  show "(ucast (of_nat (8 * n) :: u64) :: u32) = push_bit 3 (of_nat n)"
    unfolding ucast_of_nat_u64 by (simp add: push_bit_eq_mult)
  have "unat (of_nat (8 * n) :: u64) = 8 * n" using assms by (intro unat_of_nat_small) simp
  then have "unat (drop_bit 32 (of_nat (8 * n) :: u64)) = n div 2 ^ 29"
    by (simp only: unat_drop_bit) (simp add: div_mult2_eq [of _ 8 536870912, symmetric])
  moreover have "unat (drop_bit 29 (of_nat n :: u32)) = n div 2 ^ 29"
    using assms by (simp only: unat_drop_bit) (simp add: unat_of_nat_small)
  ultimately have "unat (ucast (drop_bit 32 (of_nat (8 * n) :: u64)) :: u32) = unat (drop_bit 29 (of_nat n :: u32))"
    using assms by (simp add: unsigned_ucast_eq take_bit_nat_eq_self)
  then show "(ucast (drop_bit 32 (of_nat (8 * n) :: u64)) :: u32) = drop_bit 29 (of_nat n :: u32)"
    by (simp only: word_unat_eq_iff)
qed

section \<open>The code computes the reference\<close>

lemma chunk_words_take: "chunk_words (take 64 bs) = chunk_words bs"
proof -
  have "take 4 (drop (4 * i) (take 64 bs)) = take 4 (drop (4 * i) bs)" if "i < 16" for i
    using that by (simp add: drop_take min_absorb1)
  then show ?thesis by (simp add: chunk_words_def)
qed

lemma rmd_chunks_blocks: "rmd_chunks (length bs) bs st = (rmd_blocks st bs, tail_of bs)"
proof (induction "length bs" arbitrary: bs st rule: less_induct)
  case less
  show ?case
  proof (cases "63 < length bs")
    case True
    then show ?thesis
      using less [of "drop 64 bs" "compress st (chunk_words bs)"] rmd.step_append [of bs st "[]"]
      by (subst rmd_chunks.simps) (simp add: tail_of_drop chunk_words_take)
  next
    case False
    then show ?thesis by (subst rmd_chunks.simps) (simp add: tail_of_small rmd.small)
  qed
qed

text \<open>Marking the end of the message is putting the byte 0x80.\<close>

lemma put_marker:
  assumes "length t = n mod 64"
  shows "(chunk_words t)[n div 4 mod 16 := chunk_words t ! (n div 4 mod 16) XOR push_bit (8 * (n mod 4) + 7) 1]
    = chunk_words (t @ [0x80])"
proof -
  have "n div 4 mod 16 = n mod 64 div 4" "n mod 4 = n mod 64 mod 4"
    using mod_mult2_eq [of n 4 16] by (simp_all add: mod_mod_cancel)
  moreover have "push_bit (8 * k + 7) 1 = push_bit (8 * k) (ucast (0x80 :: u8) :: u32)" for k
  proof -
    have "push_bit (8 * k + 7) 1 = push_bit (8 * k) (push_bit 7 (1 :: u32))" by (simp only: push_bit_push_bit)
    then show ?thesis by simp
  qed
  ultimately show ?thesis
    using put_byte_chunk [of t "0x80"] assms by (simp only: put_byte_def mod_less_divisor zero_less_numeral)
qed

lemma MDfinish_blocks:
  assumes "length bs < 2 ^ 32"
  shows "MDfinish st (tail_of bs) (of_nat (length bs)) 0 = rmd_blocks st (tail_of bs @ rmd_pad (length bs))"
proof -
  let ?n = "length bs" and ?t = "tail_of bs"
  let ?l = "le_bytes 4 (push_bit 3 (of_nat (length bs)) :: u32)" and ?h = "le_bytes 4 (drop_bit 29 (of_nat (length bs)) :: u32)"
  have n: "unat (of_nat ?n :: u32) = ?n" using assms by (intro unat_of_nat_small) simp
  have tl: "length ?t = ?n mod 64" "?n mod 64 < 64" by (simp_all add: length_tail_of)
  have put: "put_bytes 0 (take (?n mod 64) ?t) (replicate 16 0) = chunk_words ?t"
    using put_bytes_chunk [of "[]" ?t] tl by (simp add: chunk_words_Nil)
  have len: "le_bytes 8 (of_nat (8 * ?n) :: u64) = ?l @ ?h"
    unfolding le_bytes_split bit_length_words [OF assms] by (rule refl)
  have fin: "chunk_words (z @ ?l @ ?h) = (chunk_words z)[14 := push_bit 3 (of_nat ?n), 15 := drop_bit 29 (of_nat ?n)]"
    if "length z = 56" for z
    using chunk_words_end [OF that, of ?l ?h] by (simp add: le_word_le_bytes del: le_bytes_numeral)
  show ?thesis
  proof (cases "?n mod 64 > 55")
    case False
    have "119 - ?n mod 64 = (55 - ?n mod 64) + 64" "55 - ?n mod 64 < 64" using False by simp_all
    then have pad: "?t @ rmd_pad ?n = ((?t @ [0x80]) @ replicate (55 - ?n mod 64) 0) @ ?l @ ?h"
      unfolding rmd_pad_def len by (simp only: mod_add_self2 mod_less append.simps append_assoc)
    have z: "length ((?t @ [0x80]) @ replicate (55 - ?n mod 64) 0) = 56" using False tl by simp
    have "MDfinish st ?t (of_nat ?n) 0 = compress st (chunk_words (?t @ rmd_pad ?n))"
      unfolding pad fin [OF z] chunk_words_zeros put_marker [OF tl(1), symmetric]
      unfolding MDfinish_def Let_def n put using False by simp
    moreover have "length (?t @ rmd_pad ?n) = 64" using z unfolding pad by (simp del: le_bytes_numeral)
    ultimately show ?thesis by (simp only: rmd.one)
  next
    case True
    let ?d = "(?t @ [0x80]) @ replicate (63 - ?n mod 64) 0"
    have "(119 - ?n mod 64) mod 64 = (63 - ?n mod 64) + 56" using True tl by simp
    then have pad: "?t @ rmd_pad ?n = ?d @ (replicate 56 0 @ ?l @ ?h)"
      unfolding rmd_pad_def len by (simp only: replicate_add append.simps append_assoc)
    have ld: "length ?d = 64" using tl by simp
    have "MDfinish st ?t (of_nat ?n) 0 = compress (compress st (chunk_words ?d)) (chunk_words (replicate 56 0 @ ?l @ ?h))"
      unfolding fin [OF length_replicate] chunk_words_zeros put_marker [OF tl(1), symmetric]
        chunk_words_zeros [of "[]" 56, unfolded append_Nil] chunk_words_Nil
      unfolding MDfinish_def Let_def n put using True by simp
    moreover have "length (replicate 56 0 @ ?l @ ?h) = 64" by (simp del: le_bytes_numeral)
    ultimately show ?thesis unfolding pad rmd.block [OF ld] by (simp only: rmd.one)
  qed
qed

lemma length_compress: "length (compress st X) = 5"
  by (simp add: compress_def Let_def split: prod.split)

lemma length_rmd_blocks: "length st = 5 \<Longrightarrow> length (rmd_blocks st bs) = 5"
  by (induction st bs rule: rmd_blocks.induct) (subst rmd_blocks.simps, simp add: length_compress)

lemma ripemd160_Bytes:
  assumes "length bs < 2 ^ 32"
  shows "ripemd160 (Bytes bs) = Bytes (ripemd160_spec bs) \<and> length (ripemd160_spec bs) = 20"
proof -
  let ?st = "rmd_blocks MDinit (bs @ rmd_pad (length bs))"
  have n: "unat (of_nat (length bs) :: u32) = length bs" using assms by (intro unat_of_nat_small) simp
  have len: "length ?st = 5" by (simp add: length_rmd_blocks MDinit_def)
  then have st: "map (\<lambda>i. le_bytes 4 (?st ! i)) [0..<5] = map (le_bytes 4) ?st"
    by (intro nth_equalityI) (simp_all del: le_bytes_numeral)
  have "MDfinish (rmd_blocks MDinit bs) (tail_of bs) (of_nat (length bs)) 0 = ?st"
    unfolding MDfinish_blocks [OF assms] by (rule rmd.append [symmetric])
  then have "ripemd160 (Bytes bs) = Bytes (ripemd160_spec bs)"
    unfolding ripemd160_def ripemd160_spec_def st [symmetric] by (simp add: n rmd_chunks_blocks del: le_bytes_numeral)
  moreover have "length (concat (map (le_bytes 4) ws)) = 4 * length ws" for ws :: "u32 list"
    by (induction ws) simp_all
  ultimately show ?thesis using len by (simp only: ripemd160_spec_def) simp
qed

text \<open>
  For every message below 4 gigabytes \<open>ripemd160\<close> is RIPEMD-160 by its definition: the message
  with the marker byte, zeros and the 64-bit little-endian bit length, compressed block by block;
  the digest has 20 bytes.
\<close>

lemma ripemd160_is_spec:
  assumes "length bs < 2 ^ 32"
  shows "ripemd160 (Bytes bs) = Bytes (ripemd160_spec bs) \<and> length (ripemd160_spec bs) = 20"
  using assms by (rule ripemd160_Bytes)

lemma hash160_Bytes: "hash160 (Bytes bs) = Bytes (ripemd160_spec (sha256_spec bs))"
  and length_hash160: "length (ripemd160_spec (sha256_spec bs)) = 20"
  using ripemd160_Bytes [of "sha256_spec bs"] by (simp_all add: hash160_def sha256_eq_spec length_sha256_spec)

lemma hash160_null [simp]: "hash160 DataNull = DataNull"
  by (simp add: hash160_def sha256_def ripemd160_def)

end
