(* ===== verification/Scripts.thy ===== *)
theory Scripts
  imports Byte_IO
begin

text \<open>
  Bitcoin scripts in \<open>src/code/BTCUtil.c\<close>: the push encoding, the tokeniser, the script templates
  the wallet builds and the analysis that finds public keys and signature checks in a script.
\<close>

section \<open>Opcodes\<close>

text \<open>The values of \<open>enum OP\<close> (\<open>src/code/BTCConstants.h\<close>) that the code below uses.\<close>

definition OP_PUSHDATA1 :: u8 where "OP_PUSHDATA1 = 0x4c"
definition OP_PUSHDATA2 :: u8 where "OP_PUSHDATA2 = 0x4d"
definition OP_PUSHDATA4 :: u8 where "OP_PUSHDATA4 = 0x4e"
definition OP_1 :: u8 where "OP_1 = 0x51"
definition OP_16 :: u8 where "OP_16 = 0x60"
definition OP_IF :: u8 where "OP_IF = 0x63"
definition OP_ELSE :: u8 where "OP_ELSE = 0x67"
definition OP_ENDIF :: u8 where "OP_ENDIF = 0x68"
definition OP_DROP :: u8 where "OP_DROP = 0x75"
definition OP_DUP :: u8 where "OP_DUP = 0x76"
definition OP_EQUAL :: u8 where "OP_EQUAL = 0x87"
definition OP_EQUALVERIFY :: u8 where "OP_EQUALVERIFY = 0x88"
definition OP_HASH160 :: u8 where "OP_HASH160 = 0xa9"
definition OP_CHECKSIG :: u8 where "OP_CHECKSIG = 0xac"
definition OP_CHECKSIGVERIFY :: u8 where "OP_CHECKSIGVERIFY = 0xad"
definition OP_CHECKMULTISIG :: u8 where "OP_CHECKMULTISIG = 0xae"
definition OP_CHECKMULTISIGVERIFY :: u8 where "OP_CHECKMULTISIGVERIFY = 0xaf"
definition OP_CHECKLOCKTIMEVERIFY :: u8 where "OP_CHECKLOCKTIMEVERIFY = 0xb1"

lemmas op_defs = OP_PUSHDATA1_def OP_PUSHDATA2_def OP_PUSHDATA4_def OP_1_def OP_16_def OP_IF_def
  OP_ELSE_def OP_ENDIF_def OP_DROP_def OP_DUP_def OP_EQUAL_def OP_EQUALVERIFY_def OP_HASH160_def
  OP_CHECKSIG_def OP_CHECKSIGVERIFY_def OP_CHECKMULTISIG_def OP_CHECKMULTISIGVERIFY_def
  OP_CHECKLOCKTIMEVERIFY_def

section \<open>Pushes\<close>

definition readPushDataWithOp :: "bytes \<Rightarrow> u64 \<times> u8 \<times> bytes" where
  "readPushDataWithOp bs =
     (let (result, bs) = uint8readP bs in
      if result < OP_PUSHDATA1 then (ucast result, result, bs)
      else if result = OP_PUSHDATA1 then (let (r, bs) = uint8readP bs in (ucast r, result, bs))
      else if result = OP_PUSHDATA2 then (let (r, bs) = uint16readP bs in (ucast r, result, bs))
      else (let (r, bs) = uint32readP bs in (ucast r, result, bs)))"

definition readPushData :: "bytes \<Rightarrow> u64 \<times> bytes" where
  "readPushData bs = (let (sz, _, rest) = readPushDataWithOp bs in (sz, rest))"

definition pushData :: "u32 \<Rightarrow> data" where
  "pushData amount =
     (if amount AND 0xFFFF0000 \<noteq> 0 then DataAdd (uint8D OP_PUSHDATA4) (uint32D amount)
      else if amount AND 0xFF00 \<noteq> 0 then DataAdd (uint8D OP_PUSHDATA2) (uint16D (ucast amount))
      else if amount \<ge> ucast OP_PUSHDATA1 then DataAdd (uint8D OP_PUSHDATA1) (uint8D (ucast amount))
      else uint8D (ucast amount))"

definition scriptPush :: "data \<Rightarrow> data" where
  "scriptPush d = DataAddCopy (pushData (of_nat (dlength d))) d"

definition isPushData :: "bytes \<Rightarrow> bool" where
  "isPushData bs = (case bs of [] \<Rightarrow> False | b # _ \<Rightarrow> b > 0 \<and> b \<le> OP_PUSHDATA4)"

lemma readPushDataWithOp_rest:
  assumes "bs \<noteq> []" "readPushDataWithOp bs = (sz, opc, rest)"
  shows "length rest < length bs"
proof -
  obtain b bs' where bs: "bs = b # bs'" using assms(1) by (cases bs) auto
  have "length rest \<le> length bs'"
    using assms(2) unfolding bs readPushDataWithOp_def
    by (auto split: prod.splits if_splits dest: uintreadP_rest)
  then show ?thesis by (simp add: bs)
qed

lemma readPushData_rest: "bs \<noteq> [] \<Longrightarrow> readPushData bs = (sz, rest) \<Longrightarrow> length rest < length bs"
  by (auto simp: readPushData_def split: prod.splits dest: readPushDataWithOp_rest)

function readPushes_loop :: "datas \<Rightarrow> bytes \<Rightarrow> datas" where
  "readPushes_loop array bs =
     (if isPushData bs then
        let (len, bs1) = readPushData bs; (d, bs2) = readBytes len bs1
        in readPushes_loop (DatasAddRef array d) bs2
      else array)"
  by pat_completeness auto
termination
proof (relation "measure (\<lambda>(_, bs). length bs)", goal_cases)
  case 1
  then show ?case by simp
next
  case (2 array bs x len bs1 y d bs2)
  then have "bs \<noteq> []" by (auto simp: isPushData_def)
  then show ?case
    using 2 by (auto dest!: sym [of "(_, _)" "readPushData _"] sym [of "(_, _)" "readBytes _ _"]
        readPushData_rest readBytes_rest)
qed

declare readPushes_loop.simps [simp del]

definition readPushes :: "data \<Rightarrow> datas" where
  "readPushes script = readPushes_loop [] (dbytes script)"

fun writePushes_loop :: "data \<Rightarrow> datas \<Rightarrow> data" where
  "writePushes_loop d [] = d"
| "writePushes_loop d (item # items) = writePushes_loop (DataAdd d (scriptPush item)) items"

definition writePushes :: "datas \<Rightarrow> data" where
  "writePushes items = writePushes_loop (DataNew 0) items"

section \<open>Tokens\<close>

record script_token =
  op :: u8
  tdata :: data
  neededSigs :: int
  pubKeys :: datas
  terror :: data

definition token_zero :: script_token where
  "token_zero = \<lparr>op = 0, tdata = DataNull, neededSigs = 0, pubKeys = [], terror = DataNull\<rparr>"

definition StringNew :: "string \<Rightarrow> data" where
  "StringNew str = Bytes (map of_char str @ [0])"

definition read_token :: "bytes \<Rightarrow> script_token \<times> bytes" where
  "read_token bs =
     (if isPushData bs then
        let (sz, opc, bs1) = readPushDataWithOp bs;
            (d, bs2) = readBytesUnsafe sz bs1;
            token = token_zero\<lparr>op := opc, tdata := d\<rparr>
        in (if of_nat (dlength d) \<noteq> sz
            then token\<lparr>terror := StringNew ''script ended before push data count was reached''\<rparr>
            else token, bs2)
      else let (opc, bs1) = uint8readP bs in (token_zero\<lparr>op := opc\<rparr>, bs1))"

lemma read_token_rest:
  assumes "bs \<noteq> []" "read_token bs = (t, rest)"
  shows "length rest < length bs"
proof (cases "isPushData bs")
  case True
  then obtain sz opc bs1 d where
    r: "readPushDataWithOp bs = (sz, opc, bs1)" "readBytesUnsafe sz bs1 = (d, rest)"
    using assms(2) by (auto simp: read_token_def Let_def split: prod.splits)
  then show ?thesis
    using readPushDataWithOp_rest [OF assms(1) r(1)] readBytesUnsafe_rest [OF r(2)] by linarith
next
  case False
  then show ?thesis
    using assms by (auto simp: read_token_def split: prod.splits dest: uint8readP_rest_less)
qed

function scriptToTokens_loop :: "bytes \<Rightarrow> script_token list" where
  "scriptToTokens_loop bs =
     (if bs = [] then [] else let (t, rest) = read_token bs in t # scriptToTokens_loop rest)"
  by pat_completeness auto
termination
  by (relation "measure length") (auto dest!: sym [of "(_, _)" "read_token _"] read_token_rest)

declare scriptToTokens_loop.simps [simp del]

definition scriptToTokens :: "data \<Rightarrow> script_token list" where
  "scriptToTokens script = scriptToTokens_loop (dbytes script)"

definition firstError :: "data \<Rightarrow> data" where
  "firstError script =
     (case filter (\<lambda>t. terror t \<noteq> DataNull) (scriptToTokens script) of
        [] \<Rightarrow> DataNull | t # _ \<Rightarrow> terror t)"

section \<open>Script templates\<close>

definition p2pkhPubScript :: "data \<Rightarrow> data" where
  "p2pkhPubScript hash =
     DataAdd (DataAdd (DataAdd (DataNew 0) (Bytes [OP_DUP, OP_HASH160, 0x14])) (DataCopyData hash))
       (Bytes [OP_EQUALVERIFY, OP_CHECKSIG])"

definition p2shPubScript :: "data \<Rightarrow> data" where
  "p2shPubScript scriptHash =
     DataAdd (DataAdd (DataAdd (DataNew 0) (uint8D OP_HASH160)) (scriptPush scriptHash)) (uint8D OP_EQUAL)"

definition p2wpkhPubScript :: "data \<Rightarrow> data" where
  "p2wpkhPubScript hash = (if hash = DataNull then DataNull
     else DataAdd (DataAdd (DataNew 0) (uint8D 0)) (scriptPush hash))"

definition p2wshPubScript :: "data \<Rightarrow> data" where
  "p2wshPubScript hash = DataAdd (DataAdd (DataNew 0) (uint8D 0)) (scriptPush hash)"

text \<open>\<open>ptr + length != end\<close> compares the push length with what is left.\<close>

definition p2wshHashFromPubScript :: "data \<Rightarrow> data" where
  "p2wshHashFromPubScript pubScript =
     (if dlength pubScript \<noteq> 34 then DataNull
      else let (v, bs) = uint8readP (dbytes pubScript) in
           if v \<noteq> 0 then DataNull
           else let (len, bs) = readPushData bs in
                if len \<noteq> 32 \<or> length bs \<noteq> unat len then DataNull
                else fst (readBytes len bs))"

fun push_all :: "data \<Rightarrow> datas \<Rightarrow> data" where
  "push_all d [] = d"
| "push_all d (k # ks) = push_all (DataAppend d (scriptPush k)) ks"

definition sigs_needed :: "nat \<Rightarrow> nat" where
  "sigs_needed n = (let m = n * 2 div 3 in if m < 1 then 1 else m)"

definition multisigScript :: "datas \<Rightarrow> data" where
  "multisigScript keys =
     (let keys = DatasSort keys DataCompare;
          m = sigs_needed (length keys);
          n = length keys;
          d = DataAppend (DataNew 0) (uint8D ((OP_1 - 1) + of_nat m));
          d = push_all d keys;
          d = DataAppend d (uint8D ((OP_1 - 1) + of_nat n))
      in DataAppend d (uint8D OP_CHECKMULTISIG))"

definition vaultScript :: "data \<Rightarrow> datas \<Rightarrow> data" where
  "vaultScript masterPubKey keys =
     (let keys = DatasSort keys DataCompare;
          m = sigs_needed (length keys);
          n = length keys;
          d = DataAdd (DataNew 0) (scriptPush masterPubKey);
          d = DataAdd d (uint8D OP_CHECKSIGVERIFY);
          d = DataAdd d (uint8D ((OP_1 - 1) + of_nat m));
          d = push_all d keys;
          d = DataAdd d (uint8D ((OP_1 - 1) + of_nat n))
      in DataAdd d (uint8D OP_CHECKMULTISIG))"

text \<open>\<open>uint64_t absvalue = value\<close>: the bytes are those of the two's complement of the value.\<close>

function scriptNum_bytes :: "u64 \<Rightarrow> bytes" where
  "scriptNum_bytes absvalue =
     (if absvalue = 0 then [] else ucast (absvalue AND 0xff) # scriptNum_bytes (drop_bit 8 absvalue))"
  by pat_completeness auto
termination
proof (relation "measure unat", goal_cases)
  case 1
  then show ?case by simp
next
  case (2 absvalue)
  have "unat (drop_bit 8 absvalue) = unat absvalue div 256" by (simp only: unat_drop_bit) simp
  moreover have "0 < unat absvalue" using 2 by (simp add: unat_gt_0)
  ultimately show ?case by simp
qed

declare scriptNum_bytes.simps [simp del]

definition encodeScriptNum :: "u64 \<Rightarrow> data" where
  "encodeScriptNum val =
     (if val = 0 then DataNew 0
      else let neg = sint val < 0; bs = scriptNum_bytes val; top = bs ! (length bs - 1) in
           if top AND 0x80 \<noteq> 0 then Bytes (bs @ [if neg then 0x80 else 0])
           else if neg then Bytes (bs[length bs - 1 := top OR 0x80])
           else Bytes bs)"

definition jimmyScript :: "data \<Rightarrow> data \<Rightarrow> u32 \<Rightarrow> data" where
  "jimmyScript jimmyPubKey receiverPubKey currentBlockHeight =
     (let sixMonths = 25920;
          d = DataNew 0;
          d = DataAdd d (scriptPush (encodeScriptNum (ucast (currentBlockHeight + sixMonths))));
          d = DataAdd d (uint8D OP_CHECKLOCKTIMEVERIFY);
          d = DataAdd d (uint8D OP_DROP);
          d = DataAdd d (scriptPush receiverPubKey);
          d = DataAdd d (uint8D OP_CHECKSIG);
          d = DataAdd d (uint8D OP_IF);
          d = DataAdd d (uint8D OP_1);
          d = DataAdd d (uint8D OP_ELSE);
          d = DataAdd d (scriptPush (encodeScriptNum (ucast (currentBlockHeight + sixMonths * 3))));
          d = DataAdd d (uint8D OP_CHECKLOCKTIMEVERIFY);
          d = DataAdd d (uint8D OP_DROP);
          d = DataAdd d (scriptPush jimmyPubKey);
          d = DataAdd d (uint8D OP_CHECKSIG)
      in DataAdd d (uint8D OP_ENDIF))"

section \<open>Signature checks of a script\<close>

definition is_checksig :: "u8 \<Rightarrow> bool" where
  "is_checksig opc \<longleftrightarrow> opc = OP_CHECKSIG \<or> opc = OP_CHECKSIGVERIFY"

definition is_checkmultisig :: "u8 \<Rightarrow> bool" where
  "is_checkmultisig opc \<longleftrightarrow> opc = OP_CHECKMULTISIG \<or> opc = OP_CHECKMULTISIGVERIFY"

definition bad_key_count :: "script_token list \<Rightarrow> nat \<Rightarrow> bool" where
  "bad_key_count tokens i \<longleftrightarrow> i = 0 \<or> op (tokens ! (i - 1)) < OP_1 \<or> op (tokens ! (i - 1)) > OP_16"

definition op_number :: "u8 \<Rightarrow> int" where
  "op_number opc = 1 + uint opc - uint OP_1"

definition allPubKeys_step :: "script_token list \<Rightarrow> nat \<Rightarrow> datas \<Rightarrow> datas" where
  "allPubKeys_step tokens i array =
     (let array = (if is_checksig (op (tokens ! i)) \<and> i > 0 \<and> tdata (tokens ! (i - 1)) \<noteq> DataNull
                   then DatasAddCopyFront array (tdata (tokens ! (i - 1))) else array)
      in if is_checkmultisig (op (tokens ! i)) \<and> \<not> bad_key_count tokens i then
           fold (\<lambda>j array. if j + 2 \<le> i then DatasAddCopyFront array (tdata (tokens ! (i - j - 2))) else array)
             [0..<nat (op_number (op (tokens ! (i - 1))))] array
         else array)"

definition allPubKeys :: "data \<Rightarrow> datas" where
  "allPubKeys script =
     (let tokens = scriptToTokens script in fold (allPubKeys_step tokens) [0..<length tokens] [])"

definition multisig_pubs :: "script_token list \<Rightarrow> nat \<Rightarrow> nat \<Rightarrow> datas" where
  "multisig_pubs tokens i numPubKeys =
     fold (\<lambda>j pubs. if j + 2 \<le> i \<and> tdata (tokens ! (i - j - 2)) \<noteq> DataNull
                    then DatasAddCopyFront pubs (tdata (tokens ! (i - j - 2))) else pubs)
       [0..<numPubKeys] []"

definition allCheckSigs_step :: "script_token list \<Rightarrow> nat \<Rightarrow> script_token list \<Rightarrow> script_token list" where
  "allCheckSigs_step tokens i array =
     (let array = (if is_checksig (op (tokens ! i)) \<and> i > 0 \<and> tdata (tokens ! (i - 1)) \<noteq> DataNull
                   then token_zero\<lparr>op := op (tokens ! i), neededSigs := 1,
                          pubKeys := [tdata (tokens ! (i - 1))]\<rparr> # array
                   else array)
      in if is_checkmultisig (op (tokens ! i)) \<and> \<not> bad_key_count tokens i then
           let numPubKeys = nat (op_number (op (tokens ! (i - 1)))) in
           if i < numPubKeys + 2 then array
           else token_zero\<lparr>op := op (tokens ! i), pubKeys := multisig_pubs tokens i numPubKeys,
                  neededSigs := op_number (op (tokens ! (i - numPubKeys - 2)))\<rparr> # array
         else array)"

definition allCheckSigs :: "data \<Rightarrow> script_token list" where
  "allCheckSigs script =
     (let tokens = scriptToTokens script in fold (allCheckSigs_step tokens) [0..<length tokens] [])"

end
