(* ===== verification/Keys.thy ===== *)
theory Keys
  imports Ripemd160 Scripts
begin

text \<open>
  The key and signature functions of \<open>src/code/BTCUtil.c\<close>. The curve operations of libsecp256k1
  are a parameter, the record \<open>ecc\<close>: each field is one library call on the byte representations
  the C code passes, with \<open>None\<close> for the return value 0. What the wallet relies on of them is the
  predicate \<open>ecc_correct\<close>, which states documented behaviour of the library.
\<close>

section \<open>The library calls\<close>

record ecc =
  ec_pubkey_create :: "bytes \<Rightarrow> bytes option"
  ec_pubkey_parse :: "bytes \<Rightarrow> bytes option"
  ec_pubkey_serialize :: "bytes \<Rightarrow> bool \<Rightarrow> bytes option"
  ecdsa_sign :: "bytes \<Rightarrow> bytes \<Rightarrow> bytes option"
  ecdsa_verify :: "bytes \<Rightarrow> bytes \<Rightarrow> bytes \<Rightarrow> bool"
  signature_parse_der :: "bytes \<Rightarrow> bytes option"
  signature_serialize_der :: "bytes \<Rightarrow> bytes option"
  signature_parse_compact :: "bytes \<Rightarrow> bytes option"
  signature_serialize_compact :: "bytes \<Rightarrow> bytes option"
  signature_normalize :: "bytes \<Rightarrow> bytes"
  ec_privkey_tweak_add :: "bytes \<Rightarrow> bytes \<Rightarrow> bytes option"
  ec_privkey_tweak_mul :: "bytes \<Rightarrow> bytes \<Rightarrow> bytes option"
  ec_pubkey_tweak_add :: "bytes \<Rightarrow> bytes \<Rightarrow> bytes option"
  ec_pubkey_tweak_mul :: "bytes \<Rightarrow> bytes \<Rightarrow> bytes option"
  ec_pubkey_combine :: "bytes \<Rightarrow> bytes \<Rightarrow> bytes option"
  ecdh :: "bytes \<Rightarrow> bytes \<Rightarrow> bytes option"

definition opt_data :: "bytes option \<Rightarrow> data" where
  "opt_data r = (case r of None \<Rightarrow> DataNull | Some bs \<Rightarrow> Bytes bs)"

section \<open>Public keys\<close>

definition publicKeyFromPrivate :: "ecc \<Rightarrow> data \<Rightarrow> data" where
  "publicKeyFromPrivate E privateKey =
     (if dlength privateKey \<noteq> 32 then DataNull else opt_data (ec_pubkey_create E (dbytes privateKey)))"

definition publicKeyParse :: "ecc \<Rightarrow> data \<Rightarrow> data" where
  "publicKeyParse E keyData =
     (if dlength keyData = 0 then DataNull else opt_data (ec_pubkey_parse E (dbytes keyData)))"

definition publicKeySerialize :: "ecc \<Rightarrow> data \<Rightarrow> bool \<Rightarrow> data" where
  "publicKeySerialize E publicKey compressed =
     (if publicKey = DataNull then DataNull
      else if dlength publicKey \<noteq> 64 then DataNull
      else opt_data (ec_pubkey_serialize E (dbytes publicKey) compressed))"

definition publicKeySerializeDefault :: "ecc \<Rightarrow> data \<Rightarrow> data" where
  "publicKeySerializeDefault E publicKey = publicKeySerialize E publicKey False"

definition publicKeyCompress :: "ecc \<Rightarrow> data \<Rightarrow> data" where
  "publicKeyCompress E publicKey = publicKeySerialize E publicKey True"

definition pubKeyExpand :: "ecc \<Rightarrow> data \<Rightarrow> data" where
  "pubKeyExpand E publicKey = publicKeySerializeDefault E (publicKeyParse E publicKey)"

definition pubKey :: "ecc \<Rightarrow> data \<Rightarrow> data" where
  "pubKey E privateKey = publicKeyCompress E (publicKeyFromPrivate E privateKey)"

definition pubKeyHash :: "ecc \<Rightarrow> data \<Rightarrow> data" where
  "pubKeyHash E privateKey = hash256 (pubKey E privateKey)"

definition pubKeyFull :: "ecc \<Rightarrow> data \<Rightarrow> data" where
  "pubKeyFull E privateKey = publicKeySerializeDefault E (publicKeyFromPrivate E privateKey)"

definition pubKeyFromPubKey64 :: "ecc \<Rightarrow> data \<Rightarrow> data" where
  "pubKeyFromPubKey64 E pubKey64 =
     (if dlength pubKey64 \<noteq> 64 then DataNull
      else publicKeySerialize E (publicKeyParse E (DataAdd (uint8D 4) pubKey64)) True)"

definition validPublicKey :: "ecc \<Rightarrow> data \<Rightarrow> bool" where
  "validPublicKey E keyData \<longleftrightarrow> publicKeyParse E keyData \<noteq> DataNull"

section \<open>Signatures\<close>

definition signatureCreate :: "ecc \<Rightarrow> data \<Rightarrow> data \<Rightarrow> data" where
  "signatureCreate E message32 privateKey =
     (if dlength message32 \<noteq> 32 then DataNull
      else if dlength privateKey \<noteq> 32 then DataNull
      else opt_data (ecdsa_sign E (dbytes message32) (dbytes privateKey)))"

definition signatureParse :: "ecc \<Rightarrow> data \<Rightarrow> data" where
  "signatureParse E signatureData =
     (if dlength signatureData = 0 then DataNull
      else opt_data (signature_parse_der E (take (dlength signatureData - 1) (dbytes signatureData))))"

definition signatureDER :: "ecc \<Rightarrow> data \<Rightarrow> data" where
  "signatureDER E signature =
     (if dlength signature \<noteq> 64 then DataNull else opt_data (signature_serialize_der E (dbytes signature)))"

definition signatureFromSig64 :: "ecc \<Rightarrow> data \<Rightarrow> data" where
  "signatureFromSig64 E sig64 =
     (if dlength sig64 \<noteq> 64 then DataNull
      else case signature_parse_compact E (dbytes sig64) of None \<Rightarrow> DataNull
        | Some sig \<Rightarrow> DataAdd (signatureDER E (Bytes (signature_normalize E sig))) (uint8D 1))"

definition compressSignature :: "ecc \<Rightarrow> data \<Rightarrow> data" where
  "compressSignature E derSignature =
     (let signature = signatureParse E derSignature in
      if dlength signature \<noteq> 64 then DataNull
      else opt_data (signature_serialize_compact E (dbytes signature)))"

definition signatureVerify :: "ecc \<Rightarrow> data \<Rightarrow> data \<Rightarrow> data \<Rightarrow> bool" where
  "signatureVerify E signature message32 publicKey \<longleftrightarrow>
     (if publicKey = DataNull then False
      else if dlength signature \<noteq> 64 then False
      else if dlength message32 \<noteq> 32 then False
      else if dlength publicKey \<noteq> 64 then False
      else ecdsa_verify E (dbytes signature) (dbytes message32) (dbytes publicKey))"

definition sign :: "ecc \<Rightarrow> data \<Rightarrow> data \<Rightarrow> u8 \<Rightarrow> data" where
  "sign E unhashedMsg privateKey typeFlag =
     DataAdd (signatureDER E (signatureCreate E (hash256 unhashedMsg) privateKey)) (uint8D typeFlag)"

definition signAll :: "ecc \<Rightarrow> data \<Rightarrow> data \<Rightarrow> data" where
  "signAll E unhashedMsg privateKey = sign E unhashedMsg privateKey 1"

definition verify :: "ecc \<Rightarrow> data \<Rightarrow> data \<Rightarrow> data \<Rightarrow> bool" where
  "verify E derSignature unhashedMsg compressedPublicKey \<longleftrightarrow>
     (if dlength derSignature = 0 then False
      else let sigParam = (if dlength derSignature \<noteq> 64 then signatureParse E derSignature else derSignature)
        in signatureVerify E sigParam (hash256 unhashedMsg) (publicKeyParse E compressedPublicKey))"

definition validSignature :: "ecc \<Rightarrow> data \<Rightarrow> bool" where
  "validSignature E signature \<longleftrightarrow> signatureParse E signature \<noteq> DataNull"

section \<open>Key arithmetic\<close>

definition ecdhKey :: "ecc \<Rightarrow> data \<Rightarrow> data \<Rightarrow> data" where
  "ecdhKey E privateKey publicKey =
     (let parsedPubKey = publicKeyParse E publicKey in
      if dlength privateKey \<noteq> 32 then DataNull
      else if dlength parsedPubKey \<noteq> 64 then DataNull
      else opt_data (ecdh E (dbytes parsedPubKey) (dbytes privateKey)))"

definition multiplyWithPubKey :: "ecc \<Rightarrow> data \<Rightarrow> data \<Rightarrow> data" where
  "multiplyWithPubKey E tweak key =
     (let parsedPubKey = publicKeyParse E key in
      if dlength parsedPubKey \<noteq> 64 then DataNull
      else if dlength tweak \<noteq> 32 then DataNull
      else case ec_pubkey_tweak_mul E (dbytes parsedPubKey) (dbytes tweak) of None \<Rightarrow> DataNull
        | Some p \<Rightarrow> publicKeySerializeDefault E (Bytes p))"

definition multiplyWithPrivKey :: "ecc \<Rightarrow> data \<Rightarrow> data \<Rightarrow> data" where
  "multiplyWithPrivKey E tweak privKey =
     (if dlength tweak \<noteq> 32 then DataNull
      else if dlength privKey \<noteq> 32 then DataNull
      else opt_data (ec_privkey_tweak_mul E (dbytes privKey) (dbytes tweak)))"

definition addToPubKey :: "ecc \<Rightarrow> data \<Rightarrow> data \<Rightarrow> data" where
  "addToPubKey E tweak key =
     (let parsedPubKey = publicKeyParse E key in
      if dlength parsedPubKey \<noteq> 64 then DataNull
      else if dlength tweak \<noteq> 32 then DataNull
      else case ec_pubkey_tweak_add E (dbytes parsedPubKey) (dbytes tweak) of None \<Rightarrow> DataNull
        | Some p \<Rightarrow> publicKeySerializeDefault E (Bytes p))"

definition addToPrivKey :: "ecc \<Rightarrow> data \<Rightarrow> data \<Rightarrow> data" where
  "addToPrivKey E tweak privKey =
     (if dlength tweak \<noteq> 32 then DataNull
      else if dlength privKey \<noteq> 32 then DataNull
      else opt_data (ec_privkey_tweak_add E (dbytes privKey) (dbytes tweak)))"

definition addPubKeys :: "ecc \<Rightarrow> data \<Rightarrow> data \<Rightarrow> data" where
  "addPubKeys E keyA keyB =
     (let keyA = publicKeyParse E keyA; keyB = publicKeyParse E keyB in
      if dlength keyA \<noteq> 64 then DataNull
      else if dlength keyB \<noteq> 64 then DataNull
      else opt_data (ec_pubkey_combine E (dbytes keyA) (dbytes keyB)))"

definition ecdhKeyRotate :: "ecc \<Rightarrow> data \<Rightarrow> data \<Rightarrow> u32 \<Rightarrow> data" where
  "ecdhKeyRotate E privateKey publicKey amount =
     (let secretZero = ecdhKey E privateKey publicKey in
      if amount = 0 then secretZero
      else let tweak = sha256 (DataAdd secretZero (uint32D amount))
        in ecdhKey E (addToPrivKey E tweak privateKey) (addToPubKey E tweak publicKey))"

section \<open>Scripts from keys\<close>

definition p2pkhPubScriptFromPubKey :: "ecc \<Rightarrow> data \<Rightarrow> data" where
  "p2pkhPubScriptFromPubKey E publicKey =
     p2pkhPubScript (hash160 (publicKeyCompress E (publicKeyParse E publicKey)))"

definition p2shPubScriptWithScript :: "data \<Rightarrow> data" where
  "p2shPubScriptWithScript scriptBytes = p2shPubScript (hash160 scriptBytes)"

definition p2wpkhPubScriptFromPubKey :: "ecc \<Rightarrow> data \<Rightarrow> data" where
  "p2wpkhPubScriptFromPubKey E publicKey =
     (if publicKey = DataNull then DataNull
      else let compressedPublicKey = publicKeyCompress E (publicKeyParse E publicKey) in
        if compressedPublicKey = DataNull then DataNull
        else p2wpkhPubScript (hash160 compressedPublicKey))"

definition p2wpkhImpliedScript :: "ecc \<Rightarrow> data \<Rightarrow> data" where
  "p2wpkhImpliedScript E publicKey =
     (let hash = hash160 (publicKeyCompress E (publicKeyParse E publicKey)) in
      DataAdd (DataAdd (DataAdd (DataNew 0) (Bytes [OP_DUP, OP_HASH160, 0x14])) hash)
        (Bytes [OP_EQUALVERIFY, OP_CHECKSIG]))"

definition p2wshPubScriptWithScript :: "data \<Rightarrow> data" where
  "p2wshPubScriptWithScript scriptBytes = p2wshPubScript (sha256 scriptBytes)"

definition nestedP2wpkhScript :: "ecc \<Rightarrow> data \<Rightarrow> data" where
  "nestedP2wpkhScript E key =
     (let pubKeyCompressed = publicKeyCompress E (publicKeyParse E key)
      in DataAdd (DataAdd (DataNew 0) (uint8D 0)) (scriptPush (hash160 pubKeyCompressed)))"

definition nestedP2wshScript :: "data \<Rightarrow> data" where
  "nestedP2wshScript script = DataAdd (DataAdd (DataNew 0) (uint8D 0)) (scriptPush (sha256 script))"

end
