(* ===== verification/Script_Props.thy ===== *)
theory Script_Props
  imports Scripts
begin

text \<open>
  Properties of the script code: pushes and tokens read back, and the analysis of the multisig
  and vault templates finds exactly the keys and thresholds the templates were built from.
\<close>

section \<open>Reading a push\<close>

definition push_op :: "nat \<Rightarrow> u8" where
  "push_op n = (if n < 76 then of_nat n else if n < 2 ^ 8 then OP_PUSHDATA1
     else if n < 2 ^ 16 then OP_PUSHDATA2 else OP_PUSHDATA4)"

lemma push_masks:
  fixes n :: u32
  shows "n AND 0xFFFF0000 = 0 \<longleftrightarrow> unat n < 2 ^ 16"
    and "unat n < 2 ^ 16 \<Longrightarrow> n AND 0xFF00 = 0 \<longleftrightarrow> unat n < 2 ^ 8"
proof -
  have m: "take_bit 32 (NOT (mask 16)) = (0xFFFF0000 :: u32)"
    "take_bit 16 (NOT (mask 8)) = (0xFF00 :: u32)"
    by (simp_all add: mask_eq_exp_minus_1)
  have "unat n < 2 ^ 32" using unsigned_less [of n] by simp
  from and_high_mask [OF this, of 16]
  show "n AND 0xFFFF0000 = 0 \<longleftrightarrow> unat n < 2 ^ 16" by (simp only: m)
  show "unat n < 2 ^ 16 \<Longrightarrow> n AND 0xFF00 = 0 \<longleftrightarrow> unat n < 2 ^ 8"
    using and_high_mask [of n 16 8] by (simp only: m)
qed

lemma pushData_bytes:
  assumes "n < 2 ^ 32"
  shows "dbytes (pushData (of_nat n)) =
     (if n < 76 then [of_nat n] else if n < 2 ^ 8 then [OP_PUSHDATA1, of_nat n]
      else if n < 2 ^ 16 then OP_PUSHDATA2 # le_bytes 2 (of_nat n :: u16)
      else OP_PUSHDATA4 # le_bytes 4 (of_nat n :: u32))"
proof -
  have u: "unat (of_nat n :: u32) = n" using assms by (intro unat_of_nat_small) simp
  have "(of_nat n :: u32) \<ge> ucast OP_PUSHDATA1 \<longleftrightarrow> 76 \<le> n"
    by (simp add: word_le_nat_alt u op_defs)
  then show ?thesis
    using push_masks [of "of_nat n"] u assms
    by (auto simp: pushData_def uintD_defs ucast_of_nat_small simp del: le_bytes_numeral)
qed

lemma readPushDataWithOp_pushData:
  assumes "0 < n" "n < 2 ^ 32"
  shows "readPushDataWithOp (dbytes (pushData (of_nat n)) @ bs) = (of_nat n, push_op n, bs)"
proof -
  consider "n < 76" | "76 \<le> n" "n < 2 ^ 8" | "2 ^ 8 \<le> n" "n < 2 ^ 16" | "2 ^ 16 \<le> n"
    by (metis linorder_not_less)
  then show ?thesis
  proof cases
    case 1
    then have "(of_nat n :: u8) < OP_PUSHDATA1"
      by (simp add: word_less_nat_alt op_defs unat_of_nat_small)
    then show ?thesis using 1 assms by (simp add: pushData_bytes readPushDataWithOp_def push_op_def ucast_of_nat_small)
  next
    case 2
    then show ?thesis
      by (simp add: pushData_bytes readPushDataWithOp_def push_op_def ucast_of_nat_small)
  next
    case 3
    then show ?thesis
      by (simp add: pushData_bytes readPushDataWithOp_def push_op_def ucast_of_nat_small
          uint16readP_append op_defs del: le_bytes_numeral)
  next
    case 4
    then show ?thesis using assms
      by (simp add: pushData_bytes readPushDataWithOp_def push_op_def ucast_of_nat_small
          uint32readP_append op_defs del: le_bytes_numeral)
  qed
qed

lemma isPushData_pushData:
  assumes "0 < n" "n < 2 ^ 32"
  shows "isPushData (dbytes (pushData (of_nat n)) @ bs)"
proof -
  have "n < 76 \<Longrightarrow> 0 < (of_nat n :: u8) \<and> (of_nat n :: u8) \<le> OP_PUSHDATA4"
    using assms(1) by (simp add: word_less_nat_alt word_le_nat_alt op_defs unat_of_nat_small)
  then show ?thesis using assms by (auto simp: pushData_bytes isPushData_def op_defs)
qed

lemma scriptPush_bytes: "dbytes (scriptPush d) = dbytes (pushData (of_nat (dlength d))) @ dbytes d"
  by (simp add: scriptPush_def)

section \<open>Script items\<close>

text \<open>A script as the templates build it: opcodes and pushes.\<close>

datatype script_item = Op u8 | Push bytes

fun item_bytes :: "script_item \<Rightarrow> bytes" where
  "item_bytes (Op b) = [b]"
| "item_bytes (Push bs) = dbytes (scriptPush (Bytes bs))"

fun item_ok :: "script_item \<Rightarrow> bool" where
  "item_ok (Op b) \<longleftrightarrow> b = 0 \<or> b > OP_PUSHDATA4"
| "item_ok (Push bs) \<longleftrightarrow> bs \<noteq> [] \<and> length bs < 2 ^ 32"

fun item_token :: "script_item \<Rightarrow> script_token" where
  "item_token (Op b) = token_zero\<lparr>op := b\<rparr>"
| "item_token (Push bs) = token_zero\<lparr>op := push_op (length bs), tdata := Bytes bs\<rparr>"

lemma read_token_item:
  assumes "item_ok it"
  shows "read_token (item_bytes it @ rest) = (item_token it, rest)"
proof (cases it)
  case (Op b)
  then show ?thesis using assms by (auto simp: read_token_def isPushData_def not_le)
next
  case (Push bs)
  then have n: "0 < length bs" "length bs < 2 ^ 32" using assms by auto
  have u: "unat (of_nat (length bs) :: u64) = length bs"
    using n by (intro unat_of_nat_small) simp
  have r: "readBytesUnsafe (of_nat (length bs)) (bs @ rest) = (Bytes bs, rest)"
    using u n by (simp add: readBytesUnsafe_def unat_ucast_u32)
  show ?thesis
    using isPushData_pushData [OF n] readPushDataWithOp_pushData [OF n] r
    by (simp add: Push scriptPush_bytes read_token_def Let_def)
qed

lemma item_bytes_nonempty: "item_ok it \<Longrightarrow> item_bytes it \<noteq> []"
  by (cases it) (auto simp: scriptPush_bytes)

lemma tokens_of_items:
  "\<forall>it \<in> set items. item_ok it \<Longrightarrow>
   scriptToTokens_loop (concat (map item_bytes items)) = map item_token items"
proof (induction items)
  case Nil
  then show ?case by (simp add: scriptToTokens_loop.simps)
next
  case (Cons it items)
  then show ?case
    using item_bytes_nonempty [of it]
    by (subst scriptToTokens_loop.simps) (auto simp: read_token_item)
qed

section \<open>Templates as items\<close>

lemma DataNew_0 [simp]: "DataNew 0 = Bytes []"
  by (simp add: DataNew_def)

lemma uint8D_bytes [simp]: "uint8D b = Bytes [b]"
  by (simp add: uint8D_def)

definition push_item :: "data \<Rightarrow> script_item" where
  "push_item d = Push (dbytes d)"

lemma item_bytes_push_item [simp]: "item_bytes (push_item d) = dbytes (scriptPush d)"
  by (simp add: push_item_def scriptPush_def DataAddCopy_def)

lemma push_all_bytes:
  "push_all (Bytes as) ks = Bytes (as @ concat (map (item_bytes \<circ> push_item) ks))"
  by (induction ks arbitrary: as) auto

definition number_op :: "nat \<Rightarrow> script_item" where
  "number_op n = Op ((OP_1 - 1) + of_nat n)"

definition multisig_items :: "datas \<Rightarrow> script_item list" where
  "multisig_items ks = number_op (sigs_needed (length ks)) # map push_item ks
     @ [number_op (length ks), Op OP_CHECKMULTISIG]"

lemma multisigScript_items:
  "multisigScript keys = Bytes (concat (map item_bytes (multisig_items (DatasSort keys DataCompare))))"
  by (simp add: multisigScript_def multisig_items_def number_op_def push_all_bytes Let_def)

lemma vaultScript_items:
  "vaultScript master keys = Bytes (concat (map item_bytes
     (push_item master # Op OP_CHECKSIGVERIFY # multisig_items (DatasSort keys DataCompare))))"
  by (simp add: vaultScript_def multisig_items_def number_op_def push_all_bytes Let_def)

lemma sigs_needed_bounds: "0 < n \<Longrightarrow> 0 < sigs_needed n \<and> sigs_needed n \<le> n"
  by (auto simp: sigs_needed_def Let_def)

lemma number_op_value:
  assumes "0 < n" "n \<le> 16"
  shows "unat ((OP_1 - 1) + of_nat n :: u8) = 80 + n"
proof -
  have "(OP_1 - 1) + of_nat n = (of_nat (80 + n) :: u8)" by (simp add: op_defs)
  moreover have "unat (of_nat (80 + n) :: u8) = 80 + n"
    using assms by (intro unat_of_nat_small) simp
  ultimately show ?thesis by (simp only:)
qed

lemma number_op_ok: "0 < n \<Longrightarrow> n \<le> 16 \<Longrightarrow> item_ok (number_op n)"
  using number_op_value [of n] by (simp add: number_op_def word_less_nat_alt OP_PUSHDATA4_def)

lemma number_op_token:
  assumes "0 < n" "n \<le> 16"
  shows "op_number (op (item_token (number_op n))) = int n"
    and "\<not> op (item_token (number_op n)) < OP_1" "\<not> op (item_token (number_op n)) > OP_16"
    and "tdata (item_token (number_op n)) = DataNull"
    and "\<not> is_checksig (op (item_token (number_op n)))"
    and "\<not> is_checkmultisig (op (item_token (number_op n)))"
proof -
  let ?w = "(OP_1 - 1) + of_nat n :: u8"
  have u: "unat ?w = 80 + n" by (rule number_op_value [OF assms])
  have i: "uint ?w = 80 + int n" using u by (metis of_nat_add of_nat_numeral uint_nat)
  have o: "op (item_token (number_op n)) = ?w" by (simp add: number_op_def)
  have v: "uint OP_1 = 81" "unat OP_1 = 81" "unat OP_16 = 96" by (simp_all add: op_defs)
  show "op_number (op (item_token (number_op n))) = int n" unfolding o op_number_def i v by simp
  show "\<not> op (item_token (number_op n)) < OP_1" "\<not> op (item_token (number_op n)) > OP_16"
    unfolding o using u v assms by (simp_all add: word_less_nat_alt)
  show "tdata (item_token (number_op n)) = DataNull" by (simp add: number_op_def token_zero_def)
  have "unat x = 80 + n \<Longrightarrow> x \<noteq> 0xac \<and> x \<noteq> 0xad \<and> x \<noteq> 0xae \<and> x \<noteq> 0xaf" for x :: u8
    using assms by auto
  from this [OF u] show "\<not> is_checksig (op (item_token (number_op n)))"
    "\<not> is_checkmultisig (op (item_token (number_op n)))"
    unfolding o by (simp_all add: is_checksig_def is_checkmultisig_def op_defs)
qed

text \<open>A key that can stand in a script.\<close>

definition key_ok :: "data \<Rightarrow> bool" where
  "key_ok d \<longleftrightarrow> 0 < dlength d \<and> dlength d < 2 ^ 31"

lemma push_op_le: "push_op n \<le> OP_PUSHDATA4"
proof (cases "n < 76")
  case True
  then show ?thesis by (simp add: push_op_def word_le_nat_alt op_defs unat_of_nat_small)
qed (simp add: push_op_def op_defs)

lemma push_token:
  assumes "key_ok d"
  shows "item_ok (push_item d)" "tdata (item_token (push_item d)) = Bytes (dbytes d)"
    and "\<not> is_checksig (op (item_token (push_item d)))"
    and "\<not> is_checkmultisig (op (item_token (push_item d)))"
  using assms push_op_le [of "dlength d"]
  by (auto simp: key_ok_def push_item_def is_checksig_def is_checkmultisig_def op_defs)

section \<open>The signature checks of a template\<close>

lemma fold_no_effect: "(\<And>i. i \<in> set is \<Longrightarrow> f i = id) \<Longrightarrow> fold f is a = a"
  by (simp add: fold_id)

lemma fold_front: "fold (\<lambda>j acc. f (n - j) # acc) [0..<n] [] = map f [1..<Suc n]"
proof -
  have "fold (\<lambda>j acc. g j # acc) xs as = rev (map g xs) @ as" for g :: "nat \<Rightarrow> 'a" and xs as
    by (induction xs arbitrary: as) auto
  then have "fold (\<lambda>j acc. f (n - j) # acc) [0..<n] [] = rev (map (\<lambda>j. f (n - j)) [0..<n])" by simp
  also have "\<dots> = map f [1..<Suc n]" by (rule nth_equalityI) (auto simp: rev_nth simp del: upt_Suc)
  finally show ?thesis .
qed

lemma allCheckSigs_step_prefix:
  assumes "i < length pre"
  shows "allCheckSigs_step (pre @ rest) i = allCheckSigs_step pre i"
proof -
  have nth: "k \<le> i \<Longrightarrow> (pre @ rest) ! k = pre ! k" for k using assms by (simp add: nth_append)
  have pubs: "multisig_pubs (pre @ rest) i n = multisig_pubs pre i n" for n
  proof -
    have "(pre @ rest) ! (i - j - 2) = pre ! (i - j - 2)" for j by (rule nth) simp
    then show ?thesis by (simp only: multisig_pubs_def)
  qed
  show ?thesis
    by (rule ext) (simp only: allCheckSigs_step_def bad_key_count_def Let_def nth pubs
        diff_le_self order_refl)
qed

lemma allCheckSigs_step_quiet:
  "\<not> is_checksig (op (tokens ! i)) \<Longrightarrow> \<not> is_checkmultisig (op (tokens ! i)) \<Longrightarrow>
   allCheckSigs_step tokens i = id"
  by (simp add: fun_eq_iff allCheckSigs_step_def)

definition check_fold :: "script_token list \<Rightarrow> script_token list" where
  "check_fold tokens = fold (allCheckSigs_step tokens) [0..<length tokens] []"

definition multisig_check :: "datas \<Rightarrow> script_token" where
  "multisig_check ks = token_zero\<lparr>op := OP_CHECKMULTISIG,
     pubKeys := map (\<lambda>k. Bytes (dbytes k)) ks, neededSigs := int (sigs_needed (length ks))\<rparr>"

lemma multisig_tokens_nth:
  fixes pre :: "script_token list" and ks :: datas
  defines "T \<equiv> pre @ map item_token (multisig_items ks)"
  shows "T ! length pre = item_token (number_op (sigs_needed (length ks)))"
    and "j < length ks \<Longrightarrow> T ! (length pre + 1 + j) = item_token (push_item (ks ! j))"
    and "T ! (length pre + length ks + 1) = item_token (number_op (length ks))"
    and "T ! (length pre + length ks + 2) = token_zero\<lparr>op := OP_CHECKMULTISIG\<rparr>"
    and "length T = length pre + length ks + 3"
  by (simp_all add: T_def multisig_items_def nth_append nth_Cons')

lemma multisig_step:
  fixes pre :: "script_token list" and ks :: datas
  defines "T \<equiv> pre @ map item_token (multisig_items ks)"
  assumes "ks \<noteq> []" "length ks \<le> 16" "\<forall>k \<in> set ks. key_ok k"
  shows "allCheckSigs_step T (length pre + length ks + 2) array = multisig_check ks # array"
proof -
  let ?n = "length ks" and ?i = "length pre + length ks + 2"
  note nth = multisig_tokens_nth [where pre = pre and ks = ks, folded T_def]
  have n: "0 < ?n" "?n \<le> 16" using assms by auto
  have m: "0 < sigs_needed ?n" "sigs_needed ?n \<le> 16" using sigs_needed_bounds [OF n(1)] n by auto
  have last: "T ! ?i = token_zero\<lparr>op := OP_CHECKMULTISIG\<rparr>" by (rule nth(4))
  have cnt: "T ! (?i - 1) = item_token (number_op ?n)" using nth(3) by simp
  have key: "tdata (T ! (?i - j - 2)) = Bytes (dbytes (ks ! (?n - j - 1)))" if "j < ?n" for j
  proof -
    have "?i - j - 2 = length pre + 1 + (?n - j - 1)" using that by simp
    then show ?thesis using nth(2) [of "?n - j - 1"] that assms(4) push_token(2) by simp
  qed
  have "multisig_pubs T ?i ?n
      = fold (\<lambda>j pubs. Bytes (dbytes (ks ! (?n - j - 1))) # pubs) [0..<?n] []"
    unfolding multisig_pubs_def using key by (intro fold_cong) (auto simp: DatasAddCopyFront_def)
  also have "\<dots> = map (\<lambda>i. Bytes (dbytes (ks ! (i - 1)))) [1..<Suc ?n]"
    using fold_front [of "\<lambda>i. Bytes (dbytes (ks ! (i - 1)))" ?n] by simp
  also have "\<dots> = map (\<lambda>k. Bytes (dbytes k)) ks"
    by (rule nth_equalityI) (simp_all del: upt_Suc)
  finally have pubs: "multisig_pubs T ?i ?n = map (\<lambda>k. Bytes (dbytes k)) ks" .
  have first: "T ! (?i - ?n - 2) = item_token (number_op (sigs_needed ?n))" using nth(1) by simp
  have opi: "is_checkmultisig (op (T ! ?i))" "\<not> is_checksig (op (T ! ?i))" "op (T ! ?i) = OP_CHECKMULTISIG"
    unfolding last by (simp_all add: is_checkmultisig_def is_checksig_def op_defs)
  have good: "\<not> bad_key_count T ?i" "nat (op_number (op (T ! (?i - 1)))) = ?n"
    unfolding bad_key_count_def cnt using number_op_token [OF n] by simp_all
  show ?thesis
    unfolding allCheckSigs_step_def Let_def good(2)
    using opi good(1) pubs first number_op_token(1) [OF m]
    by (simp add: multisig_check_def)
qed

lemma check_fold_multisig:
  assumes "ks \<noteq> []" "length ks \<le> 16" "\<forall>k \<in> set ks. key_ok k"
  shows "check_fold (pre @ map item_token (multisig_items ks)) = multisig_check ks # check_fold pre"
proof -
  let ?T = "pre @ map item_token (multisig_items ks)" and ?n = "length ks" and ?p = "length pre"
  note nth = multisig_tokens_nth [where pre = pre and ks = ks]
  have n: "0 < ?n" "?n \<le> 16" using assms by auto
  have m: "0 < sigs_needed ?n" "sigs_needed ?n \<le> 16" using sigs_needed_bounds [OF n(1)] n by auto
  have quiet: "allCheckSigs_step ?T i = id" if "?p \<le> i" "i < ?p + ?n + 2" for i
  proof -
    have "i = ?p \<or> i = ?p + ?n + 1 \<or> i = ?p + 1 + (i - ?p - 1) \<and> i - ?p - 1 < ?n"
      using that by arith
    then consider "i = ?p" | j where "i = ?p + 1 + j" "j < ?n" | "i = ?p + ?n + 1" by blast
    then have "\<not> is_checksig (op (?T ! i)) \<and> \<not> is_checkmultisig (op (?T ! i))"
    proof cases
      case 1
      show ?thesis unfolding 1 nth(1) using number_op_token(5,6) [OF m] by simp
    next
      case 2
      show ?thesis unfolding 2(1) nth(2) [OF 2(2)] using push_token(3,4) assms(3) 2(2) by simp
    next
      case 3
      show ?thesis unfolding 3 nth(3) using number_op_token(5,6) [OF n] by simp
    qed
    then show ?thesis by (intro allCheckSigs_step_quiet) auto
  qed
  have split: "[0..<length ?T] = [0..<?p] @ [?p..<?p + ?n + 2] @ [?p + ?n + 2]"
  proof -
    have "[0..<?p + (?n + 3)] = [0..<?p] @ [?p..<?p + (?n + 3)]" by (rule upt_add_eq_append) simp
    moreover have "[?p..<Suc (?p + ?n + 2)] = [?p..<?p + ?n + 2] @ [?p + ?n + 2]"
      by (rule upt_Suc_append) simp
    moreover have "Suc (?p + ?n + 2) = ?p + (?n + 3)" "length ?T = ?p + (?n + 3)"
      using nth(5) by simp_all
    ultimately show ?thesis by (simp only:)
  qed
  have "fold (allCheckSigs_step ?T) [0..<?p] [] = check_fold pre"
    unfolding check_fold_def by (rule fold_cong) (simp_all add: allCheckSigs_step_prefix)
  moreover have "fold (allCheckSigs_step ?T) [?p..<?p + ?n + 2] (check_fold pre) = check_fold pre"
    using quiet by (intro fold_no_effect) auto
  ultimately show ?thesis
    unfolding check_fold_def [of ?T] split using multisig_step [OF assms, of pre "check_fold pre"]
    by simp
qed

lemma multisig_items_ok:
  assumes "ks \<noteq> []" "length ks \<le> 16" "\<forall>k \<in> set ks. key_ok k"
  shows "\<forall>it \<in> set (multisig_items ks). item_ok it"
proof -
  have n: "0 < length ks" using assms by simp
  have m: "0 < sigs_needed (length ks)" "sigs_needed (length ks) \<le> 16"
    using sigs_needed_bounds [OF n] assms(2) by auto
  show ?thesis
    using number_op_ok [OF m] number_op_ok [OF n assms(2)] push_token(1) assms(3)
    by (auto simp: multisig_items_def op_defs)
qed

lemma DatasSort_facts:
  assumes "\<forall>k \<in> set keys. key_ok k"
  shows "mset (DatasSort keys DataCompare) = mset keys"
    and "sorted (map dbytes (DatasSort keys DataCompare))"
    and "length (DatasSort keys DataCompare) = length keys"
    and "\<forall>k \<in> set (DatasSort keys DataCompare). key_ok k"
proof -
  show m: "mset (DatasSort keys DataCompare) = mset keys"
    by (simp add: DatasSort_def data_order.mset_qsort)
  show "sorted (map dbytes (DatasSort keys DataCompare))"
    using assms unfolding DatasSort_def
    by (intro data_order.sorted_qsort) (auto simp: key_ok_def small_data_def)
  show "length (DatasSort keys DataCompare) = length keys" using m by (rule mset_eq_length)
  show "\<forall>k \<in> set (DatasSort keys DataCompare). key_ok k" using assms mset_eq_setD [OF m] by simp
qed

section \<open>Script numbers\<close>

fun le_nat :: "bytes \<Rightarrow> nat" where
  "le_nat [] = 0"
| "le_nat (b # bs) = unat b + 256 * le_nat bs"

text \<open>The number a script interpreter reads from its bytes: sign bit in the last byte.\<close>

definition script_num_value :: "bytes \<Rightarrow> int" where
  "script_num_value bs =
     (if bs = [] then 0
      else let top = last bs; mag = butlast bs @ [top AND 0x7f] in
           if top AND 0x80 \<noteq> 0 then - int (le_nat mag) else int (le_nat mag))"

lemma le_nat_append: "le_nat (xs @ ys) = le_nat xs + 256 ^ length xs * le_nat ys"
  by (induction xs) (auto simp: algebra_simps)

lemma scriptNum_bytes_value: "le_nat (scriptNum_bytes v) = unat v"
proof (induction v rule: scriptNum_bytes.induct)
  case (1 v)
  show ?case
  proof (cases "v = 0")
    case True
    then show ?thesis by (simp add: scriptNum_bytes.simps)
  next
    case False
    have "v AND 0xff = take_bit 8 v" by (simp add: take_bit_eq_mask mask_eq_exp_minus_1)
    then have "unat (ucast (v AND 0xff) :: u8) = unat v mod 256"
      by (simp only: unsigned_ucast_eq unsigned_take_bit_eq) (simp add: take_bit_eq_mod)
    moreover have "unat (drop_bit 8 v) = unat v div 256" by (simp only: unat_drop_bit) simp
    ultimately show ?thesis
      using 1 [OF False] False by (subst scriptNum_bytes.simps) (simp del: drop_bit_eq_div)
  qed
qed

lemma scriptNum_bytes_nonempty: "v \<noteq> 0 \<Longrightarrow> scriptNum_bytes v \<noteq> []"
  by (subst scriptNum_bytes.simps) simp

lemma top_bit_clear: "(t :: u8) AND 0x80 = 0 \<Longrightarrow> t AND 0x7f = t"
proof -
  assume "t AND 0x80 = 0"
  moreover have "t = (t AND 0x80) OR (t AND 0x7f)"
  proof -
    have "(t AND 0x80) OR (t AND 0x7f) = t AND (0x80 OR 0x7f)" by (simp only: bit.conj_disj_distrib)
    also have "(0x80 OR 0x7f :: u8) = - 1" by simp
    finally show ?thesis by simp
  qed
  ultimately show ?thesis by simp
qed

lemma top_bit_set:
  "(t :: u8) AND 0x80 = 0 \<Longrightarrow> (t OR 0x80) AND 0x7f = t \<and> (t OR 0x80) AND 0x80 \<noteq> 0"
  by (auto simp: bit.conj_disj_distrib2 top_bit_clear)

lemma list_update_last: "xs \<noteq> [] \<Longrightarrow> xs[length xs - Suc 0 := y] = butlast xs @ [y]"
  by (cases xs rule: rev_cases) auto

lemma sint_eq_uint_nonneg: "0 \<le> sint (v :: u64) \<Longrightarrow> sint v = uint v"
proof -
  assume "0 \<le> sint v"
  moreover have "sint v < 2 ^ 63" using sint_less [of v] by simp
  ultimately show ?thesis by (simp add: uint_sint take_bit_int_eq_self)
qed

lemma p2wshPubScript_bytes:
  assumes "dlength hash = 32"
  shows "dbytes (p2wshPubScript hash) = 0 # 0x20 # dbytes hash"
  using assms pushData_bytes [of 32] by (simp add: p2wshPubScript_def scriptPush_bytes)

lemma push_header_32:
  assumes "readPushData (b # bs) = (n, rest)" "length rest = 32" "length bs = 32" "n = 32"
  shows "b = 32 \<and> rest = bs"
proof (cases "b < OP_PUSHDATA1")
  case True
  then have "ucast b = (32 :: u64)" "rest = bs"
    using assms by (auto simp: readPushData_def readPushDataWithOp_def)
  then have "(ucast (ucast b :: u64) :: u8) = ucast (32 :: u64)" by (simp only:)
  then show ?thesis using \<open>rest = bs\<close> by simp
next
  case False
  then have "length rest < 32"
    using assms(1,3)
    by (auto simp: readPushData_def readPushDataWithOp_def uintreadP_defs read_le_def
        split: prod.splits if_splits)
  then show ?thesis using assms(2) by simp
qed

section \<open>Properties\<close>

text \<open>
  The tokeniser recovers a script from its bytes: a script made of opcodes and non-empty
  pushes, whatever the push form its length needs, tokenises to one token per item with the
  pushed bytes, and no error.
\<close>

lemma tokenize_roundtrip:
  assumes "\<forall>it \<in> set items. item_ok it"
  shows "scriptToTokens (Bytes (concat (map item_bytes items))) = map item_token items
    \<and> firstError (Bytes (concat (map item_bytes items))) = DataNull"
proof -
  have t: "scriptToTokens (Bytes (concat (map item_bytes items))) = map item_token items"
    using tokens_of_items [OF assms] by (simp add: scriptToTokens_def)
  have "terror (item_token it) = DataNull" for it by (cases it) (simp_all add: token_zero_def)
  then have "filter (\<lambda>t. terror t \<noteq> DataNull) (map item_token items) = []"
    by (auto simp: filter_empty_conv)
  then show ?thesis unfolding firstError_def t by simp
qed

text \<open>
  Reading the pushes of a script written from a list of non-empty items gives the items
  back, in order.
\<close>

lemma pushes_roundtrip:
  assumes "\<forall>d \<in> set items. 0 < dlength d \<and> dlength d < 2 ^ 32"
  shows "readPushes (writePushes items) = map (\<lambda>d. Bytes (dbytes d)) items"
proof -
  have w: "dbytes (writePushes_loop (Bytes as) xs)
      = as @ concat (map (\<lambda>d. dbytes (scriptPush d)) xs)" for as xs
    by (induction xs arbitrary: as) auto
  have r: "readPushes_loop array (concat (map (\<lambda>d. dbytes (scriptPush d)) xs))
      = array @ map (\<lambda>d. Bytes (dbytes d)) xs"
    if "\<forall>d \<in> set xs. 0 < dlength d \<and> dlength d < 2 ^ 32" for array xs
    using that
  proof (induction xs arbitrary: array)
    case Nil
    then show ?case by (simp add: readPushes_loop.simps isPushData_def)
  next
    case (Cons d xs)
    then have d: "0 < dlength d" "dlength d < 2 ^ 32" by auto
    show ?case
      using Cons isPushData_pushData [OF d] readPushDataWithOp_pushData [OF d] readBytes_append [OF d(2)]
      by (subst readPushes_loop.simps)
        (simp add: scriptPush_bytes readPushData_def DatasAddRef_def)
  qed
  show ?thesis using r [OF assms, of "[]"] by (simp add: readPushes_def writePushes_def w)
qed

lemma allCheckSigs_multisig:
  assumes "keys \<noteq> []" "length keys \<le> 16" "\<forall>k \<in> set keys. key_ok k"
  shows "allCheckSigs (multisigScript keys) = [multisig_check (DatasSort keys DataCompare)]"
proof -
  define ks where "ks = DatasSort keys DataCompare"
  note f = DatasSort_facts [OF assms(3), folded ks_def]
  have ks: "ks \<noteq> []" "length ks \<le> 16" using f(3) assms(1,2) by auto
  have "scriptToTokens (multisigScript keys) = map item_token (multisig_items ks)"
    using tokens_of_items [OF multisig_items_ok [OF ks f(4)]]
    by (simp add: multisigScript_items scriptToTokens_def ks_def)
  then show ?thesis
    using check_fold_multisig [OF ks f(4), of "[]"] by (simp add: allCheckSigs_def check_fold_def Let_def ks_def)
qed

lemma allCheckSigs_vault:
  assumes "keys \<noteq> []" "length keys \<le> 16" "\<forall>k \<in> set keys. key_ok k" "key_ok master"
  shows "allCheckSigs (vaultScript master keys) = [multisig_check (DatasSort keys DataCompare),
    token_zero\<lparr>op := OP_CHECKSIGVERIFY, neededSigs := 1, pubKeys := [Bytes (dbytes master)]\<rparr>]"
proof -
  define ks where "ks = DatasSort keys DataCompare"
  note f = DatasSort_facts [OF assms(3), folded ks_def]
  have ks: "ks \<noteq> []" "length ks \<le> 16" using f(3) assms(1,2) by auto
  let ?pre = "[item_token (push_item master), token_zero\<lparr>op := OP_CHECKSIGVERIFY\<rparr>]"
  have "\<forall>it \<in> set (push_item master # Op OP_CHECKSIGVERIFY # multisig_items ks). item_ok it"
    using multisig_items_ok [OF ks f(4)] push_token(1) [OF assms(4)] by (simp add: op_defs)
  from tokens_of_items [OF this]
  have "scriptToTokens (vaultScript master keys) = ?pre @ map item_token (multisig_items ks)"
    by (simp add: vaultScript_items scriptToTokens_def ks_def)
  then have "allCheckSigs (vaultScript master keys) = multisig_check ks # check_fold ?pre"
    using check_fold_multisig [OF ks f(4), of ?pre] by (simp add: allCheckSigs_def check_fold_def Let_def)
  moreover have "check_fold ?pre
      = [token_zero\<lparr>op := OP_CHECKSIGVERIFY, neededSigs := 1, pubKeys := [Bytes (dbytes master)]\<rparr>]"
    using push_token(2-4) [OF assms(4)]
    by (simp add: check_fold_def allCheckSigs_step_def is_checksig_def is_checkmultisig_def
        token_zero_def op_defs Let_def)
  ultimately show ?thesis by (simp add: ks_def)
qed

lemma multisig_check_needed:
  "neededSigs (multisig_check (DatasSort keys DataCompare)) = max 1 (int (length keys * 2 div 3))"
  if "\<forall>k \<in> set keys. key_ok k"
  using DatasSort_facts(3) [OF that] by (auto simp: multisig_check_def sigs_needed_def Let_def)

text \<open>
  The multisig template holds what it was built from: analysing the script finds one
  signature check, over all the given keys in ascending byte order, that needs two thirds of them
  and at least one.
\<close>

lemma multisig_script_checks:
  assumes "keys \<noteq> []" "length keys \<le> 16" "\<forall>k \<in> set keys. key_ok k"
  shows "\<exists>ks. mset ks = mset keys \<and> sorted (map dbytes ks)
    \<and> allCheckSigs (multisigScript keys) =
        [token_zero\<lparr>op := OP_CHECKMULTISIG, pubKeys := map (\<lambda>k. Bytes (dbytes k)) ks,
           neededSigs := max 1 (int (length keys * 2 div 3))\<rparr>]"
  using DatasSort_facts(1,2) [OF assms(3)] allCheckSigs_multisig [OF assms] multisig_check_needed [OF assms(3)]
  by (intro exI [of _ "DatasSort keys DataCompare"]) (simp add: multisig_check_def)

text \<open>
  The vault template requires the master key and the multisig: analysing it finds exactly
  these two checks, the multisig one first since results are put at the front.
\<close>

lemma vault_script_checks:
  assumes "keys \<noteq> []" "length keys \<le> 16" "\<forall>k \<in> set keys. key_ok k" "key_ok master"
  shows "\<exists>ks. mset ks = mset keys \<and> sorted (map dbytes ks)
    \<and> allCheckSigs (vaultScript master keys) =
        [token_zero\<lparr>op := OP_CHECKMULTISIG, pubKeys := map (\<lambda>k. Bytes (dbytes k)) ks,
           neededSigs := max 1 (int (length keys * 2 div 3))\<rparr>,
         token_zero\<lparr>op := OP_CHECKSIGVERIFY, neededSigs := 1, pubKeys := [Bytes (dbytes master)]\<rparr>]"
  using DatasSort_facts(1,2) [OF assms(3)] allCheckSigs_vault [OF assms] multisig_check_needed [OF assms(3)]
  by (intro exI [of _ "DatasSort keys DataCompare"]) (simp add: multisig_check_def)

text \<open>
  The witness script hash is recovered exactly from the output scripts that pay to it: a
  version byte 0, a push of 32 bytes and nothing else.
\<close>

lemma p2wsh_hash_exact:
  "p2wshHashFromPubScript s = Bytes h \<longleftrightarrow> length h = 32 \<and> dbytes s = dbytes (p2wshPubScript (Bytes h))"
proof
  assume r: "length h = 32 \<and> dbytes s = dbytes (p2wshPubScript (Bytes h))"
  then have "dbytes s = 0 # 0x20 # h" using p2wshPubScript_bytes [of "Bytes h"] by simp
  then show "p2wshHashFromPubScript s = Bytes h"
    using r readBytes_append [of h "[]"]
    by (simp add: p2wshHashFromPubScript_def readPushData_def readPushDataWithOp_def op_defs)
next
  assume *: "p2wshHashFromPubScript s = Bytes h"
  then have len: "dlength s = 34" by (auto simp: p2wshHashFromPubScript_def split: if_splits)
  then obtain v b bs where s: "dbytes s = v # b # bs" "length bs = 32"
    by (cases "dbytes s" rule: remdups_adj.cases) auto
  have v: "v = 0" using * s by (auto simp: p2wshHashFromPubScript_def split: if_splits)
  obtain n rest where n: "readPushData (b # bs) = (n, rest)" by fastforce
  have 1: "n = 32" "length rest = 32"
    using * len s v n by (auto simp: p2wshHashFromPubScript_def split: if_splits)
  have b: "b = 32 \<and> rest = bs" by (rule push_header_32 [OF n 1(2) s(2) 1(1)])
  have "readBytes 32 bs = (Bytes bs, [])" using readBytes_append [of bs "[]"] s(2) by simp
  then have "h = bs" using * len s v n 1 b by (simp add: p2wshHashFromPubScript_def)
  then show "length h = 32 \<and> dbytes s = dbytes (p2wshPubScript (Bytes h))"
    using s v b p2wshPubScript_bytes [of "Bytes h"] by simp
qed

text \<open>
  Script numbers: a number that is not negative encodes to bytes that a script interpreter
  reads as that number; a negative one reads as minus its 64-bit two's complement, not as the
  number.
\<close>

lemma encodeScriptNum_value:
  "script_num_value (dbytes (encodeScriptNum v)) = (if 0 \<le> sint v then sint v else - uint v)"
proof (cases "v = 0")
  case True
  then show ?thesis by (simp add: encodeScriptNum_def script_num_value_def)
next
  case False
  define bs where "bs = scriptNum_bytes v"
  have ne: "bs \<noteq> []" and nat: "le_nat bs = unat v"
    using False scriptNum_bytes_nonempty scriptNum_bytes_value by (auto simp: bs_def)
  have top: "bs ! (length bs - 1) = last bs" using ne by (simp add: last_conv_nth)
  have enc: "dbytes (encodeScriptNum v) =
      (if last bs AND 0x80 \<noteq> 0 then bs @ [if sint v < 0 then 0x80 else 0]
       else if sint v < 0 then butlast bs @ [last bs OR 0x80] else bs)"
    using False ne top by (simp add: encodeScriptNum_def bs_def [symmetric] Let_def list_update_last)
  have "script_num_value (dbytes (encodeScriptNum v))
      = (if sint v < 0 then - int (unat v) else int (unat v))"
    using ne nat top_bit_clear [of "last bs"] top_bit_set [of "last bs"]
    by (auto simp: enc script_num_value_def Let_def le_nat_append)
  then show ?thesis using sint_eq_uint_nonneg [of v] by auto
qed

end
