(* ===== verification/Dictionaries.thy ===== *)
theory Dictionaries
  imports Data_Lists
begin

text \<open>
  The \<open>Dictionary\<close> of \<open>src/code/Data.c\<close>: an array of key/value elements kept sorted by the
  dictionary's comparison function, searched with \<open>bsearch\<close>. Insertion finds its position from
  the element \<open>bsearch\<close> compared last (\<open>dataCompareLastTouchedPtr\<close>) and the result of that
  comparison (\<open>dataCompareLastResult\<close>), so the model of \<open>bsearch\<close> returns both. The locale
  \<open>keyed_store\<close> is what the rest of the program relies on; it is interpreted below for the
  dictionary operations.
\<close>

section \<open>Operations\<close>

record dictionary =
  compare :: "data \<Rightarrow> data \<Rightarrow> int"
  keysAndValues :: "(data \<times> data) list"

text \<open>\<open>probe\<close> is the comparison of the searched key with an element.\<close>

function bsearch_loop ::
    "('a \<Rightarrow> int) \<Rightarrow> 'a list \<Rightarrow> nat \<Rightarrow> nat \<Rightarrow> (nat \<times> int) option \<Rightarrow> nat option \<times> (nat \<times> int) option" where
  "bsearch_loop probe xs l u touched =
     (if l < u then
        let i = (l + u) div 2; r = probe (xs ! i) in
        if r < 0 then bsearch_loop probe xs l i (Some (i, r))
        else if r > 0 then bsearch_loop probe xs (i + 1) u (Some (i, r))
        else (Some i, Some (i, r))
      else (None, touched))"
  by pat_completeness auto
termination
  by (relation "measure (\<lambda>(_, _, l, u, _). u - l)") auto

declare bsearch_loop.simps [simp del]

definition bsearch :: "('a \<Rightarrow> int) \<Rightarrow> 'a list \<Rightarrow> nat option \<times> (nat \<times> int) option" where
  "bsearch probe xs = bsearch_loop probe xs 0 (length xs) None"

definition search_key :: "dictionary \<Rightarrow> data \<Rightarrow> nat option \<times> (nat \<times> int) option" where
  "search_key dict key = bsearch (\<lambda>(k, v). compare dict key k) (keysAndValues dict)"

definition insertion_index :: "(nat \<times> int) option \<Rightarrow> nat" where
  "insertion_index touched =
     (case touched of None \<Rightarrow> 0 | Some (i, r) \<Rightarrow> if r > 0 then i + 1 else i)"

definition DictionaryNew :: "(data \<Rightarrow> data \<Rightarrow> int) \<Rightarrow> dictionary" where
  "DictionaryNew cmp = \<lparr>compare = cmp, keysAndValues = []\<rparr>"

definition DictNew :: dictionary where
  "DictNew = DictionaryNew DataCompare"

definition DictionaryAddRef :: "dictionary \<Rightarrow> data \<Rightarrow> data \<Rightarrow> dictionary" where
  "DictionaryAddRef dict key val =
     (let (found, touched) = search_key dict key;
          index = insertion_index touched;
          kvs = (case found of None \<Rightarrow> keysAndValues dict
                 | Some i \<Rightarrow> take i (keysAndValues dict) @ drop (i + 1) (keysAndValues dict))
      in dict\<lparr>keysAndValues := take index kvs @ (key, val) # drop index kvs\<rparr>)"

definition DictionaryAddCopy :: "dictionary \<Rightarrow> data \<Rightarrow> data \<Rightarrow> dictionary" where
  "DictionaryAddCopy dict key val = DictionaryAddRef dict (DataCopyData key) (DataCopyData val)"

definition DictionaryRemove :: "dictionary \<Rightarrow> data \<Rightarrow> dictionary" where
  "DictionaryRemove dict key =
     (case fst (search_key dict key) of None \<Rightarrow> dict
      | Some i \<Rightarrow> dict\<lparr>keysAndValues :=
          take i (keysAndValues dict) @ drop (i + 1) (keysAndValues dict)\<rparr>)"

definition DictionaryGetValueFlexible :: "dictionary \<Rightarrow> data \<Rightarrow> data option" where
  "DictionaryGetValueFlexible dict key =
     (case fst (search_key dict key) of None \<Rightarrow> None
      | Some i \<Rightarrow> Some (snd (keysAndValues dict ! i)))"

definition DictionaryGetValue :: "dictionary \<Rightarrow> data \<Rightarrow> data" where
  "DictionaryGetValue dict key =
     (case DictionaryGetValueFlexible dict key of Some v \<Rightarrow> v | None \<Rightarrow> DataNull)"

definition DictionaryHasKey :: "dictionary \<Rightarrow> data \<Rightarrow> bool" where
  "DictionaryHasKey dict key \<longleftrightarrow> DictionaryGetValueFlexible dict key \<noteq> None"

definition DictionaryCount :: "dictionary \<Rightarrow> nat" where
  "DictionaryCount dict = length (keysAndValues dict)"

definition DictIsNull :: "dictionary \<Rightarrow> bool" where
  "DictIsNull dict \<longleftrightarrow> keysAndValues dict = [(DataNull, DataNull)]"

definition DictOne :: "data \<Rightarrow> data \<Rightarrow> dictionary" where
  "DictOne key val = DictionaryAddCopy DictNew key val"

definition DictTwo :: "data \<Rightarrow> data \<Rightarrow> data \<Rightarrow> data \<Rightarrow> dictionary" where
  "DictTwo key1 val1 key2 val2 = DictionaryAddCopy (DictionaryAddCopy DictNew key1 val1) key2 val2"

fun add_all :: "dictionary \<Rightarrow> (data \<times> data) list \<Rightarrow> dictionary" where
  "add_all dict [] = dict"
| "add_all dict ((k, v) # kvs) = add_all (DictionaryAddCopy dict k v) kvs"

definition DictAddDict :: "dictionary \<Rightarrow> dictionary \<Rightarrow> dictionary" where
  "DictAddDict dict addition = add_all dict (keysAndValues addition)"

definition DictionaryCopy :: "dictionary \<Rightarrow> dictionary" where
  "DictionaryCopy dict = add_all (DictionaryNew (compare dict)) (keysAndValues dict)"

definition DictAllKeysCopy :: "dictionary \<Rightarrow> datas" where
  "DictAllKeysCopy dict = DatasCopy (map fst (keysAndValues dict))"

definition DictionaryIntersection :: "dictionary \<Rightarrow> dictionary \<Rightarrow> dictionary" where
  "DictionaryIntersection dictA dictB =
     (let (smaller, larger) = (if DictionaryCount dictA > DictionaryCount dictB
                               then (dictB, dictA) else (dictA, dictB))
      in add_all DictNew (filter (\<lambda>(k, v). DictionaryHasKey larger k) (keysAndValues smaller)))"

definition DictionaryDoesIntersect :: "dictionary \<Rightarrow> dictionary \<Rightarrow> bool" where
  "DictionaryDoesIntersect dictA dictB =
     (let (smaller, larger) = (if DictionaryCount dictA > DictionaryCount dictB
                               then (dictB, dictA) else (dictA, dictB))
      in list_ex (\<lambda>(k, v). DictionaryHasKey larger k) (keysAndValues smaller))"

definition DictionarySerialize :: "dictionary \<Rightarrow> data" where
  "DictionarySerialize dict = DatasSerialize (concat (map (\<lambda>(k, v). [k, v]) (keysAndValues dict)))"

fun pair_up :: "datas \<Rightarrow> (data \<times> data) list" where
  "pair_up (k # v # rest) = (k, v) # pair_up rest"
| "pair_up _ = []"

definition DictionaryDeserialize :: "data \<Rightarrow> fault + dictionary" where
  "DictionaryDeserialize d =
     (let datas = DatasDeserialize d in
      if length datas mod 2 = 1 then Inl Abort
      else Inr (DictNew\<lparr>keysAndValues := pair_up datas\<rparr>))"

section \<open>Binary search\<close>

text \<open>
  A probe is ordered along a list when it is positive up to some position and negative after it.
\<close>

definition probe_ordered :: "('a \<Rightarrow> int) \<Rightarrow> 'a list \<Rightarrow> bool" where
  "probe_ordered probe xs \<longleftrightarrow>
     (\<forall>i j. i < j \<longrightarrow> j < length xs \<longrightarrow>
        (probe (xs ! i) \<le> 0 \<longrightarrow> probe (xs ! j) < 0) \<and> (probe (xs ! j) \<ge> 0 \<longrightarrow> probe (xs ! i) > 0))"

definition split_at :: "('a \<Rightarrow> int) \<Rightarrow> 'a list \<Rightarrow> nat \<Rightarrow> bool" where
  "split_at probe xs p \<longleftrightarrow> p \<le> length xs
     \<and> (\<forall>i < p. probe (xs ! i) > 0) \<and> (\<forall>i. p \<le> i \<longrightarrow> i < length xs \<longrightarrow> probe (xs ! i) < 0)"

lemma bsearch_loop_spec:
  assumes "probe_ordered probe xs" "l \<le> u" "u \<le> length xs"
    and "\<forall>i < l. probe (xs ! i) > 0" "\<forall>i. u \<le> i \<longrightarrow> i < length xs \<longrightarrow> probe (xs ! i) < 0"
    and "case touched of None \<Rightarrow> l = 0 \<and> u = length xs | Some _ \<Rightarrow> insertion_index touched \<in> {l, u}"
  shows "case bsearch_loop probe xs l u touched of
      (Some i, t) \<Rightarrow> i < length xs \<and> probe (xs ! i) = 0 \<and> t = Some (i, 0)
    | (None, t) \<Rightarrow> split_at probe xs (insertion_index t)"
  using assms
proof (induction probe xs l u touched rule: bsearch_loop.induct)
  case (1 probe xs l u touched)
  define i where "i = (l + u) div 2"
  show ?case
  proof (cases "l < u")
    case False
    with "1.prems"(2) have lu: "u = l" by simp
    have "insertion_index touched = l"
      using "1.prems"(6) lu by (cases touched) (auto simp: insertion_index_def)
    moreover have "bsearch_loop probe xs l u touched = (None, touched)"
      using lu by (subst bsearch_loop.simps) simp
    ultimately show ?thesis using "1.prems" lu by (simp add: split_at_def)
  next
    case True
    then have i: "l \<le> i" "i < u" "i < length xs" using "1.prems"(3) by (auto simp: i_def)
    have ord: "j < k \<Longrightarrow> k < length xs \<Longrightarrow>
        (probe (xs ! j) \<le> 0 \<longrightarrow> probe (xs ! k) < 0) \<and> (probe (xs ! k) \<ge> 0 \<longrightarrow> probe (xs ! j) > 0)" for j k
      using "1.prems"(1) by (auto simp: probe_ordered_def)
    consider "probe (xs ! i) < 0" | "probe (xs ! i) > 0" | "probe (xs ! i) = 0" by linarith
    then show ?thesis
    proof cases
      case 1
      have "\<forall>k. i \<le> k \<longrightarrow> k < length xs \<longrightarrow> probe (xs ! k) < 0"
        using 1 ord by (metis le_neq_implies_less less_imp_le)
      moreover have "bsearch_loop probe xs l u touched
          = bsearch_loop probe xs l i (Some (i, probe (xs ! i)))"
        using True 1 by (subst bsearch_loop.simps) (simp add: i_def Let_def)
      moreover have "insertion_index (Some (i, probe (xs ! i))) = i"
        using 1 by (simp add: insertion_index_def)
      ultimately show ?thesis
        using "1.IH"(1) [OF True i_def refl 1] "1.prems" i by simp
    next
      case 2
      have "\<forall>k < i + 1. probe (xs ! k) > 0"
        using 2 ord i by (metis Suc_eq_plus1 less_Suc_eq order_less_imp_le)
      moreover have "bsearch_loop probe xs l u touched
          = bsearch_loop probe xs (i + 1) u (Some (i, probe (xs ! i)))"
        using True 2 by (subst bsearch_loop.simps) (simp add: i_def Let_def)
      moreover have "insertion_index (Some (i, probe (xs ! i))) = i + 1"
        using 2 by (simp add: insertion_index_def)
      ultimately show ?thesis
        using "1.IH"(2) [OF True i_def refl _ 2] "1.prems" i 2 by simp
    next
      case 3
      then show ?thesis using True i
        by (subst bsearch_loop.simps) (simp add: i_def Let_def)
    qed
  qed
qed

lemma bsearch_found:
  assumes "probe_ordered probe xs" "bsearch probe xs = (Some i, t)"
  shows "i < length xs \<and> probe (xs ! i) = 0 \<and> t = Some (i, 0)"
  using bsearch_loop_spec [OF assms(1), of 0 "length xs" None] assms(2) by (simp add: bsearch_def)

lemma bsearch_missing:
  assumes "probe_ordered probe xs" "bsearch probe xs = (None, t)"
  shows "split_at probe xs (insertion_index t)"
  using bsearch_loop_spec [OF assms(1), of 0 "length xs" None] assms(2) by (simp add: bsearch_def)

section \<open>The dictionary as a map\<close>

text \<open>
  Keys are identified by their bytes: the null object and an empty buffer are the same key for
  \<open>DataCompare\<close>.
\<close>

definition by_bytes :: "(data \<times> data) list \<Rightarrow> (bytes \<times> data) list" where
  "by_bytes kvs = map (\<lambda>(k, v). (dbytes k, v)) kvs"

definition dict_map :: "dictionary \<Rightarrow> bytes \<rightharpoonup> data" where
  "dict_map dict = map_of (by_bytes (keysAndValues dict))"

definition dict_ok :: "dictionary \<Rightarrow> bool" where
  "dict_ok dict \<longleftrightarrow> compare dict = DataCompare
     \<and> sorted_wrt (<) (map fst (by_bytes (keysAndValues dict)))
     \<and> (\<forall>(k, v) \<in> set (keysAndValues dict). small_data k)"

lemma by_bytes_simps [simp]:
  "by_bytes [] = []" "by_bytes ((k, v) # kvs) = (dbytes k, v) # by_bytes kvs"
  "by_bytes (xs @ ys) = by_bytes xs @ by_bytes ys"
  "length (by_bytes kvs) = length kvs"
  "take n (by_bytes kvs) = by_bytes (take n kvs)" "drop n (by_bytes kvs) = by_bytes (drop n kvs)"
  by (simp_all add: by_bytes_def take_map drop_map)

lemma by_bytes_nth: "i < length kvs \<Longrightarrow> by_bytes kvs ! i = (dbytes (fst (kvs ! i)), snd (kvs ! i))"
  by (simp add: by_bytes_def case_prod_beta)

lemma map_of_insert: "k \<notin> fst ` set xs \<Longrightarrow> map_of (xs @ (k, v) # ys) = (map_of (xs @ ys))(k \<mapsto> v)"
  by (induction xs) auto

lemma map_of_delete:
  "k \<notin> fst ` set (xs @ ys) \<Longrightarrow> map_of (xs @ ys) = (map_of (xs @ (k, v) # ys))(k := None)"
proof -
  assume k: "k \<notin> fst ` set (xs @ ys)"
  then have "map_of (xs @ ys) k = None" by (rule iffD2 [OF map_of_eq_None_iff])
  then have "(map_of (xs @ ys))(k := None) = map_of (xs @ ys)" by (rule fun_upd_idem)
  moreover have "k \<notin> fst ` set xs" using k by auto
  ultimately show ?thesis by (simp add: map_of_insert del: map_of_append)
qed

lemma sorted_wrt_middle:
  "sorted_wrt (<) (xs @ (y :: 'a::linorder) # ys) \<Longrightarrow> y \<notin> set xs \<and> y \<notin> set ys"
  by (auto simp: sorted_wrt_append)

lemma dict_probe:
  assumes "dict_ok dict" "small_data key" "i < length (keysAndValues dict)"
  shows "compare dict key (fst (keysAndValues dict ! i)) = 0
           \<longleftrightarrow> dbytes key = fst (by_bytes (keysAndValues dict) ! i)"
    and "compare dict key (fst (keysAndValues dict ! i)) < 0
           \<longleftrightarrow> dbytes key < fst (by_bytes (keysAndValues dict) ! i)"
    and "compare dict key (fst (keysAndValues dict ! i)) > 0
           \<longleftrightarrow> fst (by_bytes (keysAndValues dict) ! i) < dbytes key"
proof -
  have "keysAndValues dict ! i \<in> set (keysAndValues dict)" using assms(3) by simp
  then have sm: "small_data (fst (keysAndValues dict ! i))"
    using assms(1) unfolding dict_ok_def by (metis (mono_tags, lifting) case_prodE fst_conv)
  have c: "compare dict = DataCompare" using assms(1) by (simp add: dict_ok_def)
  show "compare dict key (fst (keysAndValues dict ! i)) = 0
           \<longleftrightarrow> dbytes key = fst (by_bytes (keysAndValues dict) ! i)"
    and "compare dict key (fst (keysAndValues dict ! i)) < 0
           \<longleftrightarrow> dbytes key < fst (by_bytes (keysAndValues dict) ! i)"
    and "compare dict key (fst (keysAndValues dict ! i)) > 0
           \<longleftrightarrow> fst (by_bytes (keysAndValues dict) ! i) < dbytes key"
    using DataCompare_iffs [OF assms(2) sm] assms(3) by (simp_all add: c by_bytes_nth)
qed

lemma dict_probe_ordered:
  assumes "dict_ok dict" "small_data key"
  shows "probe_ordered (\<lambda>(k, v). compare dict key k) (keysAndValues dict)"
  unfolding probe_ordered_def case_prod_beta
proof (intro allI impI)
  fix i j assume ij: "i < j" "j < length (keysAndValues dict)"
  have "fst (by_bytes (keysAndValues dict) ! i) < fst (by_bytes (keysAndValues dict) ! j)"
    using assms(1) ij by (simp add: dict_ok_def sorted_wrt_iff_nth_less)
  then show "(compare dict key (fst (keysAndValues dict ! i)) \<le> 0
        \<longrightarrow> compare dict key (fst (keysAndValues dict ! j)) < 0) \<and>
      (0 \<le> compare dict key (fst (keysAndValues dict ! j))
        \<longrightarrow> 0 < compare dict key (fst (keysAndValues dict ! i)))"
    using dict_probe [OF assms] ij by (auto simp: le_less)
qed

text \<open>The two outcomes of a search, as a decomposition of the element array.\<close>

lemma search_key_found:
  assumes "dict_ok dict" "small_data key" "search_key dict key = (Some i, t)"
  obtains k v where "keysAndValues dict = take i (keysAndValues dict) @ (k, v) # drop (i + 1) (keysAndValues dict)"
    and "keysAndValues dict ! i = (k, v)"
    and "dbytes k = dbytes key" "insertion_index t = i" "i < length (keysAndValues dict)"
    and "dbytes key \<notin> fst ` set (by_bytes (take i (keysAndValues dict)))"
    and "dbytes key \<notin> fst ` set (by_bytes (drop (i + 1) (keysAndValues dict)))"
    and "dict_map dict = map_of (by_bytes (take i (keysAndValues dict)) @ (dbytes key, v)
           # by_bytes (drop (i + 1) (keysAndValues dict)))"
proof -
  let ?kvs = "keysAndValues dict"
  note f = bsearch_found [OF dict_probe_ordered [OF assms(1,2)] assms(3) [unfolded search_key_def]]
  obtain k v where kv: "?kvs ! i = (k, v)" by (cases "?kvs ! i") auto
  have k: "dbytes k = dbytes key"
    using f dict_probe(1) [OF assms(1,2), of i] kv by (simp add: by_bytes_nth)
  have split: "?kvs = take i ?kvs @ (k, v) # drop (i + 1) ?kvs"
    using id_take_nth_drop [of i ?kvs] f kv by simp
  have dm: "dict_map dict = map_of (by_bytes (take i ?kvs) @ (dbytes key, v) # by_bytes (drop (i + 1) ?kvs))"
    unfolding dict_map_def by (subst split) (simp only: by_bytes_simps k)
  have "sorted_wrt (<) (map fst (by_bytes (take i ?kvs)) @ dbytes key # map fst (by_bytes (drop (i + 1) ?kvs)))"
    using assms(1) split k unfolding dict_ok_def
    by (metis (no_types, lifting) by_bytes_simps(2,3) fst_conv list.simps(9) map_append)
  from sorted_wrt_middle [OF this] show ?thesis
    using that [OF split kv k] f dm by (auto simp: insertion_index_def)
qed

lemma search_key_missing:
  assumes "dict_ok dict" "small_data key" "search_key dict key = (None, t)"
  shows "\<forall>(k, v) \<in> set (by_bytes (take (insertion_index t) (keysAndValues dict))). k < dbytes key"
    and "\<forall>(k, v) \<in> set (by_bytes (drop (insertion_index t) (keysAndValues dict))). dbytes key < k"
    and "dict_map dict (dbytes key) = None"
proof -
  let ?kvs = "keysAndValues dict" and ?p = "insertion_index t"
  note m = bsearch_missing [OF dict_probe_ordered [OF assms(1,2)] assms(3) [unfolded search_key_def],
      unfolded split_at_def case_prod_beta]
  show low: "\<forall>(k, v) \<in> set (by_bytes (take ?p ?kvs)). k < dbytes key"
    using m dict_probe(3) [OF assms(1,2)] by (fastforce simp: in_set_conv_nth by_bytes_nth)
  show high: "\<forall>(k, v) \<in> set (by_bytes (drop ?p ?kvs)). dbytes key < k"
    using m dict_probe(2) [OF assms(1,2)] by (fastforce simp: in_set_conv_nth by_bytes_nth)
  have "dbytes key \<notin> fst ` set (by_bytes (take ?p ?kvs) @ by_bytes (drop ?p ?kvs))"
    using low high by fastforce
  then have "dbytes key \<notin> fst ` set (by_bytes ?kvs)"
    by (simp flip: by_bytes_simps(3))
  then show "dict_map dict (dbytes key) = None"
    by (simp add: dict_map_def map_of_eq_None_iff)
qed

subsection \<open>Lookup, insertion and removal\<close>

lemma lookup_map:
  assumes "dict_ok dict" "small_data key"
  shows "DictionaryGetValueFlexible dict key = dict_map dict (dbytes key)"
proof (cases "search_key dict key")
  case (Pair found t)
  show ?thesis
  proof (cases found)
    case None
    then show ?thesis
      using search_key_missing(3) [OF assms, of t] Pair by (simp add: DictionaryGetValueFlexible_def)
  next
    case (Some i)
    from search_key_found [OF assms, of i t] obtain k v where
      kv: "keysAndValues dict = take i (keysAndValues dict) @ (k, v) # drop (i + 1) (keysAndValues dict)"
        "keysAndValues dict ! i = (k, v)"
        "dbytes key \<notin> fst ` set (by_bytes (take i (keysAndValues dict)))"
        "dict_map dict = map_of (by_bytes (take i (keysAndValues dict)) @ (dbytes key, v)
           # by_bytes (drop (i + 1) (keysAndValues dict)))"
      using Pair Some by metis
    have "dict_map dict (dbytes key) = Some v"
      using kv(3) by (simp add: kv(4) map_of_insert del: map_of_append)
    then show ?thesis using Pair Some kv(2) by (simp add: DictionaryGetValueFlexible_def)
  qed
qed

lemma insert_ok_map:
  assumes "dict_ok dict" "small_data key"
  shows "dict_ok (DictionaryAddRef dict key val)
    \<and> dict_map (DictionaryAddRef dict key val) = (dict_map dict)(dbytes key \<mapsto> val)"
proof (cases "search_key dict key")
  case (Pair found t)
  let ?kvs = "keysAndValues dict"
  show ?thesis
  proof (cases found)
    case None
    let ?p = "insertion_index t"
    note m = search_key_missing [OF assms, of t]
    have eq: "DictionaryAddRef dict key val
        = dict\<lparr>keysAndValues := take ?p ?kvs @ (key, val) # drop ?p ?kvs\<rparr>"
      using Pair None by (simp add: DictionaryAddRef_def Let_def)
    have old: "sorted_wrt (<) (map fst (by_bytes (take ?p ?kvs)) @ map fst (by_bytes (drop ?p ?kvs)))"
      using assms(1) by (simp add: dict_ok_def flip: map_append by_bytes_simps(3))
    have sm: "\<forall>(k, v) \<in> set (take ?p ?kvs @ drop ?p ?kvs). small_data k"
      using assms(1) by (simp add: dict_ok_def)
    have "sorted_wrt (<) (map fst (by_bytes (take ?p ?kvs @ (key, val) # drop ?p ?kvs)))"
      using m(1,2) Pair None old by (auto simp: sorted_wrt_append)
    then have "dict_ok (DictionaryAddRef dict key val)"
      using sm assms by (auto simp: dict_ok_def eq simp del: append_take_drop_id)
    moreover have "dict_map (DictionaryAddRef dict key val) = (dict_map dict)(dbytes key \<mapsto> val)"
    proof -
      have "dbytes key \<notin> fst ` set (by_bytes (take ?p ?kvs))"
        using m(1) Pair None by fastforce
      then have "map_of (by_bytes (take ?p ?kvs) @ (dbytes key, val) # by_bytes (drop ?p ?kvs))
          = (map_of (by_bytes (take ?p ?kvs) @ by_bytes (drop ?p ?kvs)))(dbytes key \<mapsto> val)"
        by (rule map_of_insert)
      also have "by_bytes (take ?p ?kvs) @ by_bytes (drop ?p ?kvs) = by_bytes ?kvs"
        by (simp flip: by_bytes_simps(3))
      finally have upd: "map_of (by_bytes (take ?p ?kvs) @ (dbytes key, val) # by_bytes (drop ?p ?kvs))
          = (map_of (by_bytes ?kvs))(dbytes key \<mapsto> val)" .
      have "keysAndValues (DictionaryAddRef dict key val) = take ?p ?kvs @ (key, val) # drop ?p ?kvs"
        by (simp add: eq)
      then show ?thesis unfolding dict_map_def by (simp only: by_bytes_simps upd)
    qed
    ultimately show ?thesis by simp
  next
    case (Some i)
    from search_key_found [OF assms, of i t] obtain k v where
      kv: "?kvs = take i ?kvs @ (k, v) # drop (i + 1) ?kvs"
        "dbytes k = dbytes key" "insertion_index t = i" "i < length ?kvs"
        "dbytes key \<notin> fst ` set (by_bytes (take i ?kvs))"
        "dict_map dict = map_of (by_bytes (take i ?kvs) @ (dbytes key, v) # by_bytes (drop (i + 1) ?kvs))"
      using Pair Some by metis
    have eq: "DictionaryAddRef dict key val
        = dict\<lparr>keysAndValues := take i ?kvs @ (key, val) # drop (i + 1) ?kvs\<rparr>"
      using Pair Some kv(3,4) by (simp add: DictionaryAddRef_def Let_def)
    have keys: "map fst (by_bytes ?kvs)
        = map fst (by_bytes (take i ?kvs @ (key, val) # drop (i + 1) ?kvs))"
      by (subst kv(1)) (simp add: kv(2))
    have sm: "\<forall>(k, v) \<in> set (take i ?kvs @ (k, v) # drop (i + 1) ?kvs). small_data k"
      using assms(1) kv(1) by (simp add: dict_ok_def)
    have "dict_ok (DictionaryAddRef dict key val)"
      using assms keys sm by (auto simp: dict_ok_def eq)
    moreover have "dict_map (DictionaryAddRef dict key val) = (dict_map dict)(dbytes key \<mapsto> val)"
      unfolding kv(6) using kv(5) by (simp add: dict_map_def eq map_of_insert del: map_of_append)
    ultimately show ?thesis by simp
  qed
qed

lemma remove_ok_map:
  assumes "dict_ok dict" "small_data key"
  shows "dict_ok (DictionaryRemove dict key)
    \<and> dict_map (DictionaryRemove dict key) = (dict_map dict)(dbytes key := None)"
proof (cases "search_key dict key")
  case (Pair found t)
  let ?kvs = "keysAndValues dict"
  show ?thesis
  proof (cases found)
    case None
    then show ?thesis
      using search_key_missing(3) [OF assms, of t] Pair assms(1) by (auto simp: DictionaryRemove_def)
  next
    case (Some i)
    from search_key_found [OF assms, of i t] obtain k v where
      kv: "?kvs = take i ?kvs @ (k, v) # drop (i + 1) ?kvs" "dbytes k = dbytes key"
        "dbytes key \<notin> fst ` set (by_bytes (take i ?kvs))"
        "dbytes key \<notin> fst ` set (by_bytes (drop (i + 1) ?kvs))"
        "dict_map dict = map_of (by_bytes (take i ?kvs) @ (dbytes key, v) # by_bytes (drop (i + 1) ?kvs))"
      using Pair Some by metis
    have eq: "DictionaryRemove dict key = dict\<lparr>keysAndValues := take i ?kvs @ drop (i + 1) ?kvs\<rparr>"
      using Pair Some by (simp add: DictionaryRemove_def)
    have ok: "sorted_wrt (<) (map fst (by_bytes (take i ?kvs @ (k, v) # drop (i + 1) ?kvs)))"
        "\<forall>(k, v) \<in> set (take i ?kvs @ (k, v) # drop (i + 1) ?kvs). small_data k"
      using assms(1) kv(1) by (simp_all add: dict_ok_def)
    have "dict_ok (DictionaryRemove dict key)"
      using ok assms(1) unfolding dict_ok_def eq by (auto simp: sorted_wrt_append)
    moreover have "dict_map (DictionaryRemove dict key) = (dict_map dict)(dbytes key := None)"
      unfolding kv(5) using kv(3,4)
      by (subst map_of_delete [of _ _ _ v, symmetric])
        (auto simp: dict_map_def eq simp del: map_of_append)
    ultimately show ?thesis by simp
  qed
qed

section \<open>The contract of a keyed store\<close>

text \<open>
  What the callers of a dictionary rely on. \<open>ident\<close> is the identity of a key.
\<close>

locale keyed_store =
  fixes lookup :: "'d \<Rightarrow> 'k \<Rightarrow> 'v option"
    and put :: "'d \<Rightarrow> 'k \<Rightarrow> 'v \<Rightarrow> 'd"
    and drop_key :: "'d \<Rightarrow> 'k \<Rightarrow> 'd"
    and ident :: "'k \<Rightarrow> 'i"
    and ok :: "'d \<Rightarrow> bool"
    and ok_key :: "'k \<Rightarrow> bool"
  assumes put_ok: "ok d \<Longrightarrow> ok_key k \<Longrightarrow> ok (put d k v)"
    and drop_ok: "ok d \<Longrightarrow> ok_key k \<Longrightarrow> ok (drop_key d k)"
    and lookup_put: "ok d \<Longrightarrow> ok_key k \<Longrightarrow> ok_key k' \<Longrightarrow>
      lookup (put d k v) k' = (if ident k' = ident k then Some v else lookup d k')"
    and lookup_drop: "ok d \<Longrightarrow> ok_key k \<Longrightarrow> ok_key k' \<Longrightarrow>
      lookup (drop_key d k) k' = (if ident k' = ident k then None else lookup d k')"
begin

lemma put_all_ok:
  "ok d \<Longrightarrow> \<forall>(k, v) \<in> set kvs. ok_key k \<Longrightarrow> ok (foldl (\<lambda>d (k, v). put d k v) d kvs)"
  by (induction kvs arbitrary: d) (auto simp: put_ok)

lemma lookup_put_all:
  "ok d \<Longrightarrow> \<forall>(k, v) \<in> set kvs. ok_key k \<Longrightarrow> ok_key k' \<Longrightarrow>
   lookup (foldl (\<lambda>d (k, v). put d k v) d kvs) k'
     = (case map_of (rev (map (\<lambda>(k, v). (ident k, v)) kvs)) (ident k') of
          Some v \<Rightarrow> Some v | None \<Rightarrow> lookup d k')"
proof (induction kvs arbitrary: d)
  case Nil
  then show ?case by simp
next
  case (Cons kv kvs)
  obtain k v where kv: "kv = (k, v)" by (cases kv)
  have "lookup (foldl (\<lambda>d (k, v). put d k v) (put d k v) kvs) k'
      = (case map_of (rev (map (\<lambda>(k, v). (ident k, v)) kvs)) (ident k') of
          Some v \<Rightarrow> Some v | None \<Rightarrow> lookup (put d k v) k')"
    using Cons kv by (auto simp: put_ok)
  then show ?case
    using Cons.prems kv by (auto simp: lookup_put map_add_def split: option.splits)
qed

lemma put_put_same:
  "ok d \<Longrightarrow> ok_key k \<Longrightarrow> ok_key k' \<Longrightarrow>
   lookup (put (put d k v) k w) k' = lookup (put d k w) k'"
  by (simp add: lookup_put put_ok)

lemma put_drop:
  "ok d \<Longrightarrow> ok_key k \<Longrightarrow> ok_key k' \<Longrightarrow> lookup d k = None \<Longrightarrow> (ident k' = ident k \<Longrightarrow> lookup d k' = None) \<Longrightarrow>
   lookup (drop_key (put d k v) k) k' = lookup d k'"
  by (simp add: lookup_put lookup_drop put_ok)

end

interpretation dict: keyed_store DictionaryGetValueFlexible DictionaryAddCopy DictionaryRemove
  dbytes dict_ok small_data
proof
  fix d k k' v assume d: "dict_ok d" "small_data k"
  show "dict_ok (DictionaryAddCopy d k v)"
    using insert_ok_map [OF d] by (simp add: DictionaryAddCopy_def)
  show "dict_ok (DictionaryRemove d k)"
    using remove_ok_map [OF d] by simp
  assume k': "small_data k'"
  show "DictionaryGetValueFlexible (DictionaryAddCopy d k v) k'
      = (if dbytes k' = dbytes k then Some v else DictionaryGetValueFlexible d k')"
    using insert_ok_map [OF d, of v] lookup_map [OF _ k'] d(1)
    by (simp add: DictionaryAddCopy_def)
  show "DictionaryGetValueFlexible (DictionaryRemove d k) k'
      = (if dbytes k' = dbytes k then None else DictionaryGetValueFlexible d k')"
    using remove_ok_map [OF d] lookup_map [OF _ k'] d(1) by simp
qed

section \<open>Derived operations\<close>

lemma DictNew_ok [simp]: "dict_ok DictNew" "dict_map DictNew = Map.empty"
  by (simp_all add: DictNew_def DictionaryNew_def dict_ok_def dict_map_def)

lemma add_all_foldl: "add_all d kvs = foldl (\<lambda>d (k, v). DictionaryAddCopy d k v) d kvs"
  by (induction d kvs rule: add_all.induct) auto

lemma add_all_ok:
  "dict_ok d \<Longrightarrow> \<forall>(k, v) \<in> set kvs. small_data k \<Longrightarrow> dict_ok (add_all d kvs)"
  unfolding add_all_foldl by (rule dict.put_all_ok)

lemma add_all_lookup:
  "dict_ok d \<Longrightarrow> \<forall>(k, v) \<in> set kvs. small_data k \<Longrightarrow> small_data k' \<Longrightarrow>
   DictionaryGetValueFlexible (add_all d kvs) k'
     = (case map_of (rev (by_bytes kvs)) (dbytes k') of
          Some v \<Rightarrow> Some v | None \<Rightarrow> DictionaryGetValueFlexible d k')"
  unfolding add_all_foldl by_bytes_def by (rule dict.lookup_put_all)

lemma add_all_map:
  assumes "dict_ok d" "\<forall>(k, v) \<in> set kvs. small_data k"
  shows "dict_map (add_all d kvs) = dict_map d ++ map_of (rev (by_bytes kvs))"
  using assms
proof (induction d kvs rule: add_all.induct)
  case (2 d k v kvs)
  have ins: "dict_ok (DictionaryAddCopy d k v)
      \<and> dict_map (DictionaryAddCopy d k v) = (dict_map d)(dbytes k \<mapsto> v)"
    using insert_ok_map [of d k v] "2.prems" by (simp add: DictionaryAddCopy_def)
  then show ?case using 2 by (auto simp: map_add_def fun_eq_iff split: option.splits)
qed simp

lemma sorted_keys_distinct:
  "dict_ok d \<Longrightarrow> distinct (map fst (by_bytes (keysAndValues d)))"
  by (simp add: dict_ok_def strict_sorted_iff)

lemma dict_map_rev:
  "dict_ok d \<Longrightarrow> map_of (rev (by_bytes (keysAndValues d))) = dict_map d"
  using sorted_keys_distinct [of d]
  by (simp add: dict_map_def map_of_inject_set rev_map [symmetric])

lemma small_keys: "dict_ok d \<Longrightarrow> \<forall>(k, v) \<in> set (keysAndValues d). small_data k"
  by (simp add: dict_ok_def)

lemma has_key_map:
  "dict_ok d \<Longrightarrow> small_data k \<Longrightarrow> DictionaryHasKey d k \<longleftrightarrow> dbytes k \<in> dom (dict_map d)"
  by (auto simp: DictionaryHasKey_def lookup_map)

lemma by_bytes_filter:
  "by_bytes (filter (\<lambda>(k, v). P (dbytes k)) kvs) = filter (\<lambda>(k, v). P k) (by_bytes kvs)"
  by (induction kvs) auto

lemma map_of_filter_key: "map_of (filter (\<lambda>(k, v). P k) xs) k = (if P k then map_of xs k else None)"
  by (induction xs) auto

lemma intersect_loop_map:
  assumes "dict_ok small" "dict_ok large"
  shows "dict_ok (add_all DictNew (filter (\<lambda>(k, v). DictionaryHasKey large k) (keysAndValues small)))"
    and "dict_map (add_all DictNew (filter (\<lambda>(k, v). DictionaryHasKey large k) (keysAndValues small)))
      = dict_map small |` dom (dict_map large)"
proof -
  let ?f = "filter (\<lambda>(k, v). DictionaryHasKey large k) (keysAndValues small)"
  have f: "?f = filter (\<lambda>(k, v). dbytes k \<in> dom (dict_map large)) (keysAndValues small)"
    using small_keys [OF assms(1)] has_key_map [OF assms(2)] by (intro filter_cong) blast+
  have sm: "\<forall>(k, v) \<in> set ?f. small_data k" using small_keys [OF assms(1)] by auto
  show "dict_ok (add_all DictNew ?f)" using sm by (intro add_all_ok) auto
  have "map_of (rev (by_bytes ?f)) = map_of (filter (\<lambda>(k, v). k \<in> dom (dict_map large)) (rev (by_bytes (keysAndValues small))))"
    unfolding f by (simp only: by_bytes_filter [of "\<lambda>k. k \<in> dom (dict_map large)"] rev_filter)
  also have "\<dots> = dict_map small |` dom (dict_map large)"
    by (auto simp: fun_eq_iff map_of_filter_key dict_map_rev [OF assms(1)] restrict_map_def)
  finally show "dict_map (add_all DictNew ?f) = dict_map small |` dom (dict_map large)"
    using sm by (simp add: add_all_map)
qed

lemma pair_up_concat: "pair_up (concat (map (\<lambda>(k, v). [f k, f v]) kvs)) = map (\<lambda>(k, v). (f k, f v)) kvs"
  by (induction kvs) auto

lemma length_concat_pairs: "length (concat (map (\<lambda>(k, v). [f k, f v]) kvs)) = 2 * length kvs"
  by (induction kvs) auto

section \<open>Properties\<close>

text \<open>
  C25. Adding a key to a dictionary: at the position derived from the last comparison of the
  binary search, the array stays strictly sorted, and the dictionary as a map is updated at the
  key, whether the key was present (its element is replaced) or not.
\<close>

theorem dict_add_refines_map_update:
  assumes "dict_ok dict" "small_data key"
  shows "dict_ok (DictionaryAddCopy dict key val)
    \<and> dict_map (DictionaryAddCopy dict key val) = (dict_map dict)(dbytes key \<mapsto> val)"
  using insert_ok_map [OF assms, of val] by (simp add: DictionaryAddCopy_def)

theorem dict_add_refines_map_update_witness:
  "dict_map (DictionaryAddCopy DictNew (Bytes [7]) (Bytes [1, 2])) [7] = Some (Bytes [1, 2])
   \<and> dict_ok (DictionaryAddCopy DictNew (Bytes [7]) (Bytes [1, 2]))"
  using dict_add_refines_map_update [of DictNew "Bytes [7]" "Bytes [1, 2]"]
  by (simp add: small_data_def)

text \<open>
  Removing a key deletes exactly that key of the map and keeps the array sorted; removing an
  absent key changes nothing.
\<close>

lemma dict_remove_refines_map_delete:
  assumes "dict_ok dict" "small_data key"
  shows "dict_ok (DictionaryRemove dict key)
    \<and> dict_map (DictionaryRemove dict key) = (dict_map dict)(dbytes key := None)
    \<and> (dbytes key \<notin> dom (dict_map dict) \<longrightarrow> DictionaryRemove dict key = dict)"
proof -
  have "DictionaryRemove dict key = dict" if "dbytes key \<notin> dom (dict_map dict)"
  proof -
    have "fst (search_key dict key) = None"
      using that lookup_map [OF assms]
      by (cases "fst (search_key dict key)") (auto simp: DictionaryGetValueFlexible_def dom_def)
    then show ?thesis by (simp add: DictionaryRemove_def)
  qed
  then show ?thesis using remove_ok_map [OF assms] by blast
qed

text \<open>
  Looking a key up after any sequence of additions to a fresh dictionary gives the value
  added last for that key, and the null object when there is none.
\<close>

lemma dict_get_after_adds:
  assumes "\<forall>(k, v) \<in> set kvs. small_data k" "small_data key"
  shows "DictionaryGetValue (add_all DictNew kvs) key
    = (case map_of (rev (by_bytes kvs)) (dbytes key) of Some v \<Rightarrow> v | None \<Rightarrow> DataNull)"
proof -
  have "DictionaryGetValueFlexible DictNew key = None"
    using lookup_map [of DictNew key] assms(2) by simp
  then show ?thesis
    using add_all_lookup [of DictNew kvs key] assms
    by (auto simp: DictionaryGetValue_def split: option.splits)
qed

text \<open>
  The intersection of two dictionaries has the keys of both; the values are those of the
  dictionary with fewer elements (the first one when they have equally many).
\<close>

lemma dict_intersection_map:
  assumes "dict_ok dictA" "dict_ok dictB"
  shows "dict_ok (DictionaryIntersection dictA dictB)
    \<and> dict_map (DictionaryIntersection dictA dictB)
      = (if DictionaryCount dictA > DictionaryCount dictB
         then dict_map dictB |` dom (dict_map dictA) else dict_map dictA |` dom (dict_map dictB))"
  using intersect_loop_map [OF assms] intersect_loop_map [OF assms(2,1)]
  by (auto simp: DictionaryIntersection_def)

text \<open>
  \<open>DictionaryDoesIntersect\<close> decides whether the two key sets have a common element, however
  it chooses the side it iterates over.
\<close>

lemma dict_does_intersect_iff:
  assumes "dict_ok dictA" "dict_ok dictB"
  shows "DictionaryDoesIntersect dictA dictB \<longleftrightarrow> dom (dict_map dictA) \<inter> dom (dict_map dictB) \<noteq> {}"
proof -
  have *: "list_ex (\<lambda>(k, v). DictionaryHasKey large k) (keysAndValues small)
      \<longleftrightarrow> dom (dict_map small) \<inter> dom (dict_map large) \<noteq> {}"
    if "dict_ok small" "dict_ok large" for small large
    using small_keys [OF that(1)] has_key_map [OF that(2)]
    by (force simp: list_ex_iff dict_map_def [of small] dom_map_of_conv_image_fst by_bytes_def)
  show ?thesis using * [OF assms] * [OF assms(2,1)] by (auto simp: DictionaryDoesIntersect_def)
qed

text \<open>
  A serialised dictionary deserialises, without aborting, to the same elements in the same
  order, except that a null key or value comes back as an empty buffer.
\<close>

lemma dict_serialize_roundtrip:
  assumes "\<forall>(k, v) \<in> set (keysAndValues dict). dlength k < 2 ^ 32 \<and> dlength v < 2 ^ 32"
  shows "DictionaryDeserialize (DictionarySerialize dict)
    = Inr (DictNew\<lparr>keysAndValues := map (\<lambda>(k, v). (renull k, renull v)) (keysAndValues dict)\<rparr>)"
proof -
  let ?flat = "concat (map (\<lambda>(k, v). [k, v]) (keysAndValues dict))"
  have "DatasDeserialize (DatasSerialize ?flat) = map renull ?flat"
    unfolding DatasDeserialize_def DatasSerialize_bytes
    using assms by (intro deserialize_concat) auto
  also have "map renull ?flat = concat (map (\<lambda>(k, v). [renull k, renull v]) (keysAndValues dict))"
    by (induction "keysAndValues dict" arbitrary: dict) (auto simp: map_concat intro!: arg_cong [of _ _ concat])
  finally show ?thesis
    by (simp add: DictionaryDeserialize_def DictionarySerialize_def pair_up_concat
        length_concat_pairs Let_def)
qed

end
