(* ===== verification/Transactions.thy ===== *)
theory Transactions
  imports Script_Props Sha256 Dictionaries
begin

text \<open>
  The data model, wire format, digests, ordering and input analysis of \<open>src/code/Transaction.c\<close>.
  The arrays of structures are lists of records; a structure that the C code reaches through a
  pointer and updates in place is the list element at that index, and a function that updates it
  returns the new transaction.
\<close>

section \<open>Data\<close>

record tx_output =
  out_script :: data
  out_value :: u64
  out_pushDataSet :: dictionary

record tx_input =
  fundingOutput :: tx_output
  previousTransactionHash :: data
  outputIndex :: u32
  scriptData :: data
  sequence :: u32
  witnessStack :: datas
  witnessFlag :: u8
  in_pushDataSet :: dictionary

text \<open>\<open>version\<close> is an \<open>int32_t\<close> that only its bit pattern is used of.\<close>

record transaction =
  tx_height :: int
  version :: u32
  inputs :: "tx_input list"
  outputs :: "tx_output list"
  locktime :: u32

definition output_zero :: tx_output where
  "output_zero = \<lparr>out_script = DataNull, out_value = 0, out_pushDataSet = DictNew\<rparr>"

definition input_zero :: tx_input where
  "input_zero = \<lparr>fundingOutput = output_zero, previousTransactionHash = DataNull, outputIndex = 0,
     scriptData = DataNull, sequence = 0, witnessStack = [], witnessFlag = 0, in_pushDataSet = DictNew\<rparr>"

definition TransactionEmpty :: transaction where
  "TransactionEmpty = \<lparr>tx_height = 0, version = 2, inputs = [], outputs = [], locktime = 0\<rparr>"

definition OP_P2WPKH :: u8 where "OP_P2WPKH = 0xe2"
definition OP_P2WSH :: u8 where "OP_P2WSH = 0xe3"
definition OP_ERROR :: u8 where "OP_ERROR = 0xf0"

section \<open>Reading\<close>

definition read_input :: "bytes \<Rightarrow> tx_input \<times> bytes" where
  "read_input bs =
     (let (h, bs) = readBytes 32 bs;
          (i, bs) = uint32readP bs;
          (len, bs) = readVarInt bs;
          (s, bs) = readBytes len bs;
          (q, bs) = uint32readP bs
      in (input_zero\<lparr>previousTransactionHash := h, outputIndex := i, scriptData := s, sequence := q\<rparr>, bs))"

definition read_output :: "bytes \<Rightarrow> tx_output \<times> bytes" where
  "read_output bs =
     (let (v, bs) = uint64readP bs;
          (len, bs) = readVarInt bs;
          (s, bs) = readBytes len bs
      in (output_zero\<lparr>out_value := v, out_script := s\<rparr>, bs))"

definition read_item :: "bytes \<Rightarrow> data \<times> bytes" where
  "read_item bs = (let (len, bs) = readVarInt bs in readBytes len bs)"

text \<open>The counting loops: \<open>n\<close> elements, one after the other.\<close>

fun read_many :: "(bytes \<Rightarrow> 'a \<times> bytes) \<Rightarrow> nat \<Rightarrow> bytes \<Rightarrow> 'a list \<times> bytes" where
  "read_many rd 0 bs = ([], bs)"
| "read_many rd (Suc n) bs = (let (x, bs) = rd bs; (xs, bs) = read_many rd n bs in (x # xs, bs))"

definition read_counted :: "(bytes \<Rightarrow> 'a \<times> bytes) \<Rightarrow> bytes \<Rightarrow> 'a list \<times> bytes" where
  "read_counted rd bs = (let (n, bs) = readVarInt bs in read_many rd (unat n) bs)"

definition set_witness_flag :: "tx_input \<Rightarrow> tx_input" where
  "set_witness_flag input =
     (let s = dbytes (scriptData input);
          input = (if length s > 3 then
                     let len = s ! 0; witnessVersion = s ! 1; pushSize = s ! 2 in
                     if len > 2 \<and> len < 40 \<and> witnessVersion = 0 then
                       input\<lparr>witnessFlag := (if pushSize = 0x20 then OP_P2WSH
                                             else if pushSize = 0x14 then OP_P2WPKH else OP_ERROR)\<rparr>
                     else input
                   else input)
      in if length s = 0
         then input\<lparr>witnessFlag := (if length (witnessStack input) = 2 then OP_P2WPKH else OP_P2WSH)\<rparr>
         else input)"

fun read_witnesses :: "tx_input list \<Rightarrow> bytes \<Rightarrow> tx_input list \<times> bytes" where
  "read_witnesses [] bs = ([], bs)"
| "read_witnesses (input # ins) bs =
     (let (stack, bs) = read_counted read_item bs;
          (ins, bs) = read_witnesses ins bs
      in (set_witness_flag (input\<lparr>witnessStack := stack\<rparr>) # ins, bs))"

definition has_witness_marker :: "bytes \<Rightarrow> bool" where
  "has_witness_marker bs \<longleftrightarrow> length bs > 1 \<and> bs ! 0 = 0 \<and> bs ! 1 \<noteq> 0"

definition TransactionNew :: "data \<Rightarrow> fault + transaction" where
  "TransactionNew d =
     (let (v, bs) = uint32readP (dbytes d);
          hasWitness = has_witness_marker bs;
          bs = (if hasWitness then drop 2 bs else bs);
          (ins, bs) = read_counted read_input bs;
          (outs, bs) = read_counted read_output bs;
          (ins, bs) = (if hasWitness then read_witnesses ins bs else (ins, bs));
          (lt, bs) = uint32readP bs
      in if bs \<noteq> [] then Inl Abort
         else Inr (TransactionEmpty\<lparr>version := v, inputs := ins, outputs := outs, locktime := lt\<rparr>))"

section \<open>Writing\<close>

definition TransactionInputData :: "tx_input \<Rightarrow> data" where
  "TransactionInputData input =
     (let d = DataAddCopy (DataNew 0) (previousTransactionHash input);
          d = DataAddCopy d (uint32D (outputIndex input));
          d = DataAddCopy d (varIntD (of_nat (dlength (scriptData input))));
          d = DataAddCopy d (scriptData input)
      in DataAddCopy d (uint32D (sequence input)))"

definition TransactionInputWitnessData :: "tx_input \<Rightarrow> data" where
  "TransactionInputWitnessData input =
     fold (\<lambda>item d. DataAddCopy (DataAddCopy d (varIntD (of_nat (dlength item)))) item)
       (witnessStack input) (DataAddCopy (DataNew 0) (varIntD (of_nat (length (witnessStack input)))))"

definition TransactionOutputData :: "tx_output \<Rightarrow> data" where
  "TransactionOutputData output =
     DataAddCopy (DataAddCopy (uint64D (out_value output)) (varIntD (of_nat (dlength (out_script output)))))
       (out_script output)"

definition TransactionHasWitnessData :: "transaction \<Rightarrow> bool" where
  "TransactionHasWitnessData t = list_ex (\<lambda>input. length (witnessStack input) > 0) (inputs t)"

definition TransactionData :: "transaction \<Rightarrow> data" where
  "TransactionData t =
     (let d = DataAddCopy (DataNew 0) (uint32D (version t));
          d = (if TransactionHasWitnessData t then DataAddCopy d (uint16D 0x0100) else d);
          d = DataAddCopy d (varIntD (of_nat (length (inputs t))));
          d = fold (\<lambda>input d. DataAddCopy d (TransactionInputData input)) (inputs t) d;
          d = DataAddCopy d (varIntD (of_nat (length (outputs t))));
          d = fold (\<lambda>output d. DataAddCopy d (TransactionOutputData output)) (outputs t) d;
          d = (if TransactionHasWitnessData t
               then fold (\<lambda>input d. DataAddCopy d (TransactionInputWitnessData input)) (inputs t) d else d)
      in DataAddCopy d (uint32D (locktime t)))"

definition TransactionTx :: "transaction \<Rightarrow> data" where
  "TransactionTx t =
     (let d = DataAddCopy (DataNew 0) (uint32D (version t));
          d = DataAddCopy d (varIntD (of_nat (length (inputs t))));
          d = fold (\<lambda>input d. DataAddCopy d (TransactionInputData input)) (inputs t) d;
          d = DataAddCopy d (varIntD (of_nat (length (outputs t))));
          d = fold (\<lambda>output d. DataAddCopy d (TransactionOutputData output)) (outputs t) d
      in DataAddCopy d (uint32D (locktime t)))"

definition TransactionWtx :: "transaction \<Rightarrow> data" where
  "TransactionWtx t =
     (let d = DataAddCopy (DataNew 0) (uint32D (version t));
          d = (if TransactionHasWitnessData t then DataAddCopy (DataAddCopy d (uint8D 0)) (uint8D 1) else d);
          d = DataAddCopy d (varIntD (of_nat (length (inputs t))));
          d = fold (\<lambda>input d. DataAddCopy d (TransactionInputData input)) (inputs t) d;
          d = DataAddCopy d (varIntD (of_nat (length (outputs t))));
          d = fold (\<lambda>output d. DataAddCopy d (TransactionOutputData output)) (outputs t) d;
          d = (if TransactionHasWitnessData t
               then fold (\<lambda>input d. DataAddCopy d (TransactionInputWitnessData input)) (inputs t) d else d)
      in DataAddCopy d (uint32D (locktime t)))"

definition TransactionTxid :: "transaction \<Rightarrow> data" where
  "TransactionTxid t = hash256 (TransactionTx t)"

definition TransactionWtxid :: "transaction \<Rightarrow> data" where
  "TransactionWtxid t = hash256 (TransactionWtx t)"

definition TransactionEqual :: "transaction \<Rightarrow> transaction \<Rightarrow> bool" where
  "TransactionEqual t1 t2 = DataEqual (TransactionData t1) (TransactionData t2)"

text \<open>
  \<open>TransactionCopy\<close> walks both input arrays by the index of the original; a reparse with fewer
  inputs would be an access out of range.
\<close>

definition TransactionCopy :: "transaction \<Rightarrow> fault + transaction" where
  "TransactionCopy t =
     (case TransactionNew (TransactionData t) of Inl e \<Rightarrow> Inl e
      | Inr result \<Rightarrow>
          if length (inputs result) < length (inputs t) then Inl Fault
          else Inr (result\<lparr>inputs := map (\<lambda>(new, old). new\<lparr>
                 fundingOutput := (fundingOutput old)\<lparr>out_script := DataCopyData (out_script (fundingOutput old))\<rparr>,
                 in_pushDataSet := DictNew\<rparr>) (zip (inputs result) (inputs t))
               @ drop (length (inputs t)) (inputs result)\<rparr>))"

section \<open>Amounts, construction and ordering\<close>

definition TransactionUsedValue :: "transaction \<Rightarrow> u64" where
  "TransactionUsedValue t = fold (\<lambda>output v. v + out_value output) (outputs t) 0"

definition TransactionUsableValue :: "transaction \<Rightarrow> u64" where
  "TransactionUsableValue t = fold (\<lambda>input v. v + out_value (fundingOutput input)) (inputs t) 0"

definition TransactionAddInput :: "transaction \<Rightarrow> data \<Rightarrow> u32 \<Rightarrow> data \<Rightarrow> u64 \<Rightarrow> transaction" where
  "TransactionAddInput t txHash index pubScript val =
     t\<lparr>inputs := inputs t @ [input_zero\<lparr>previousTransactionHash := DataCopyData txHash,
         outputIndex := index, sequence := 0xffffffff,
         fundingOutput := output_zero\<lparr>out_script := DataCopyData pubScript, out_value := val\<rparr>\<rparr>]\<rparr>"

definition TransactionAddOutput :: "transaction \<Rightarrow> data \<Rightarrow> u64 \<Rightarrow> transaction" where
  "TransactionAddOutput t pubScript val =
     t\<lparr>outputs := outputs t @ [output_zero\<lparr>out_script := DataCopyData pubScript, out_value := val\<rparr>]\<rparr>"

definition inputSorter :: "tx_input \<Rightarrow> tx_input \<Rightarrow> int" where
  "inputSorter in1 in2 =
     (let result = DataCompare (DataFlipEndianCopy (previousTransactionHash in1))
                     (DataFlipEndianCopy (previousTransactionHash in2))
      in if result = 0 then sint (outputIndex in1 - outputIndex in2) else result)"

definition outputSorter :: "tx_output \<Rightarrow> tx_output \<Rightarrow> int" where
  "outputSorter out1 out2 =
     (let result = (if out_value out1 > out_value out2 then 1 else 0);
          result = (if out_value out1 < out_value out2 then - 1 else result)
      in if result = 0 then DataCompare (out_script out1) (out_script out2) else result)"

definition TransactionSort :: "transaction \<Rightarrow> transaction" where
  "TransactionSort t = t\<lparr>inputs := qsort inputSorter (inputs t), outputs := qsort outputSorter (outputs t)\<rparr>"

text \<open>\<open>index\<close> is not negative; the arrays grow with zeroed elements up to it.\<close>

definition TransactionInputAt :: "transaction \<Rightarrow> nat \<Rightarrow> tx_input \<times> transaction" where
  "TransactionInputAt t index =
     (let t = t\<lparr>inputs := inputs t @ replicate (index + 1 - length (inputs t)) input_zero\<rparr>
      in (inputs t ! index, t))"

definition TransactionOutputAt :: "transaction \<Rightarrow> nat \<Rightarrow> tx_output \<times> transaction" where
  "TransactionOutputAt t index =
     (let t = t\<lparr>outputs := outputs t @ replicate (index + 1 - length (outputs t)) output_zero\<rparr>
      in (outputs t ! index, t))"

definition TransactionInputOrNilAt :: "transaction option \<Rightarrow> int \<Rightarrow> tx_input option" where
  "TransactionInputOrNilAt t index =
     (case t of None \<Rightarrow> None | Some t \<Rightarrow>
        if index < 0 \<or> index \<ge> int (length (inputs t)) then None else Some (inputs t ! nat index))"

definition TransactionOutputOrNilAt :: "transaction option \<Rightarrow> int \<Rightarrow> tx_output option" where
  "TransactionOutputOrNilAt t index =
     (case t of None \<Rightarrow> None | Some t \<Rightarrow>
        if index < 0 \<or> index \<ge> int (length (outputs t)) then None else Some (outputs t ! nat index))"

definition TransactionInputSetFundingOutput :: "tx_input \<Rightarrow> u64 \<Rightarrow> data \<Rightarrow> tx_input" where
  "TransactionInputSetFundingOutput input val script =
     input\<lparr>fundingOutput := output_zero\<lparr>out_value := val, out_script := script\<rparr>\<rparr>"

section \<open>Digests\<close>

definition TransactionDigest :: "transaction \<Rightarrow> data" where
  "TransactionDigest t = DataAddCopy (TransactionTx t) (uint32D 1)"

definition TransactionWitnessDigestFlexible :: "transaction \<Rightarrow> nat \<Rightarrow> u64 \<Rightarrow> data" where
  "TransactionWitnessDigestFlexible t index val =
     (if index \<ge> length (inputs t) then DataNull
      else let activeInput = inputs t ! index;
          prevOuts = fold (\<lambda>input d. DataAddCopy (DataAddCopy d (previousTransactionHash input))
                        (uint32D (outputIndex input))) (inputs t) (DataNew 0);
          sequences = fold (\<lambda>input d. DataAddCopy d (uint32D (sequence input))) (inputs t) (DataNew 0);
          outs = fold (\<lambda>output d. DataAddCopy d (TransactionOutputData output)) (outputs t) (DataNew 0);
          d = DataAddCopy (DataNew 0) (uint32D (version t));
          d = DataAddCopy d (hash256 prevOuts);
          d = DataAddCopy d (hash256 sequences);
          d = DataAddCopy d (previousTransactionHash activeInput);
          d = DataAddCopy d (uint32D (outputIndex activeInput))
        in if dlength (scriptData activeInput) = 0 then DataNull
        else let d = DataAddCopy d (varIntD (of_nat (dlength (scriptData activeInput))));
          d = DataAddCopy d (scriptData activeInput);
          d = DataAddCopy d (uint64D val);
          d = DataAddCopy d (uint32D (sequence activeInput));
          d = DataAddCopy d (hash256 outs);
          d = DataAddCopy d (uint32D (locktime t))
        in DataAddCopy d (uint32D 1))"

definition TransactionWitnessDigest :: "transaction \<Rightarrow> nat \<Rightarrow> data" where
  "TransactionWitnessDigest t index =
     (if index \<ge> length (inputs t) then DataNull
      else let fo = fundingOutput (inputs t ! index) in
        if out_script fo = DataNull then DataNull
        else TransactionWitnessDigestFlexible t index (out_value fo))"

section \<open>What an input is and carries\<close>

datatype tx_input_type = TypeUnknown | PayToPubkey | PayToPubkeyHash | PayToScriptHash
  | PayToPubkeyWitness | PayToScriptWitness

definition is_legacy :: "tx_input_type \<Rightarrow> bool" where
  "is_legacy ty \<longleftrightarrow> ty = PayToPubkey \<or> ty = PayToPubkeyHash \<or> ty = PayToScriptHash"

definition TransactionInputType :: "tx_input \<Rightarrow> tx_input_type" where
  "TransactionInputType input =
     (let s = dbytes (out_script (fundingOutput input)); len = length s in
      if len = 0 then TypeUnknown
      else if len = 23 \<and> s ! 0 = OP_HASH160 \<and> s ! 1 = 20 \<and> s ! 22 = OP_EQUAL then PayToScriptHash
      else if s ! 0 = 0 \<and> len = 22 \<and> s ! 1 = 20 then PayToPubkeyWitness
      else if s ! 0 = 0 \<and> len = 34 \<and> s ! 1 = 32 then PayToScriptWitness
      else if s ! 0 = OP_DUP \<and> len = 25 \<and> s ! 1 = OP_HASH160 \<and> s ! 2 = 20 \<and> s ! 23 = OP_EQUALVERIFY
        \<and> s ! 24 = OP_CHECKSIG then PayToPubkeyHash
      else PayToPubkey)"

function script_stack_loop :: "datas \<Rightarrow> bytes \<Rightarrow> datas" where
  "script_stack_loop array bs =
     (if bs = [] then array
      else let (len, bs1) = readPushData bs; (d, bs2) = readBytes len bs1
           in script_stack_loop (DatasAddRef array d) bs2)"
  by pat_completeness auto
termination
proof (relation "measure (\<lambda>(_, bs). length bs)", goal_cases)
  case 1
  then show ?case by simp
next
  case (2 array bs x len bs1 y d bs2)
  then show ?case
    by (auto dest!: sym [of "(_, _)" "readPushData _"] sym [of "(_, _)" "readBytes _ _"]
        readPushData_rest readBytes_rest)
qed

declare script_stack_loop.simps [simp del]

definition TransactionInputScriptStack :: "tx_input \<Rightarrow> datas" where
  "TransactionInputScriptStack input = script_stack_loop [] (dbytes (scriptData input))"

definition TransactionInputValidationScript :: "tx_input \<Rightarrow> data" where
  "TransactionInputValidationScript input =
     (let result = DataNull;
          result = (if witnessFlag input = OP_P2WSH then DatasLast (witnessStack input) else result);
          result = (if witnessFlag input = 0 then DatasLast (TransactionInputScriptStack input) else result)
      in if firstError result \<noteq> DataNull then DataNull else result)"

definition TransactionInputPublicKeys :: "tx_input \<Rightarrow> datas" where
  "TransactionInputPublicKeys input =
     (if TransactionInputValidationScript input \<noteq> DataNull then []
      else if witnessFlag input = OP_P2WPKH \<and> length (witnessStack input) = 2
        then DatasAddCopy [] (witnessStack input ! 1)
      else let stack = TransactionInputScriptStack input in
        if length stack = 2 then DatasAddCopy [] (stack ! 1) else [])"

definition TransactionInputPublicKey :: "tx_input \<Rightarrow> data" where
  "TransactionInputPublicKey input = DatasFirst (TransactionInputPublicKeys input)"

definition TransactionInputSignatures :: "tx_input \<Rightarrow> fault + datas" where
  "TransactionInputSignatures input =
     (if TransactionInputValidationScript input \<noteq> DataNull \<or> TransactionInputPublicKey input \<noteq> DataNull then
        if witnessFlag input \<noteq> 0 \<and> length (witnessStack input) > 0
        then DatasRemoveLast (DatasCopy (witnessStack input))
        else let stack = TransactionInputScriptStack input in
          if length stack > 0 then DatasRemoveLast (DatasCopy stack) else Inr []
      else if length (witnessStack input) > 0 then Inr (witnessStack input)
      else Inr (TransactionInputScriptStack input))"

definition TransactionInputGetScriptTokensPushDataSet :: "tx_input \<Rightarrow> dictionary \<times> tx_input" where
  "TransactionInputGetScriptTokensPushDataSet input =
     (if DictionaryCount (in_pushDataSet input) = 0 then
        let set = DictNew;
            set = fold (\<lambda>t s. DictionaryAddCopy s (tdata t) DataNull) (scriptToTokens (scriptData input)) set;
            set = fold (\<lambda>d s. DictionaryAddCopy s d DataNull) (witnessStack input) set;
            set = fold (\<lambda>t s. DictionaryAddCopy s (tdata t) DataNull)
                    (scriptToTokens (out_script (fundingOutput input))) set
        in (set, input\<lparr>in_pushDataSet := set\<rparr>)
      else (in_pushDataSet input, input))"

definition TransactionOutputGetScriptTokensPushDataSet :: "tx_output \<Rightarrow> dictionary \<times> tx_output" where
  "TransactionOutputGetScriptTokensPushDataSet output =
     (if DictionaryCount (out_pushDataSet output) = 0 then
        let set = fold (\<lambda>t s. if dlength (tdata t) \<noteq> 0 then DictionaryAddCopy s (tdata t) DataNull else s)
                    (scriptToTokens (out_script output)) DictNew
        in (set, output\<lparr>out_pushDataSet := set\<rparr>)
      else (out_pushDataSet output, output))"

end
