(* ===== verification/Signing.thy ===== *)
theory Signing
  imports Keys Transactions
begin

text \<open>
  Signing in \<open>src/code/Transaction.c\<close>: attaching scripts, public keys and signatures to the inputs
  of a transaction, the digests a key has to sign, sorting signatures into key order, the extra
  stack element of CHECKMULTISIG and the validation of witness signatures. The C code collects
  pointers to the inputs it changed; here an input is named by its index. \<open>Inl Fault\<close> is an access
  outside an array, \<open>Inl Abort\<close> a call of \<open>abort()\<close>.
\<close>

section \<open>Shared steps\<close>

definition set_input :: "nat \<Rightarrow> (tx_input \<Rightarrow> tx_input) \<Rightarrow> transaction \<Rightarrow> transaction" where
  "set_input i f t = t\<lparr>inputs := (inputs t)[i := f (inputs t ! i)]\<rparr>"

definition set_script :: "nat \<Rightarrow> data \<Rightarrow> transaction \<Rightarrow> transaction" where
  "set_script i s t = set_input i (\<lambda>inp. inp\<lparr>scriptData := s\<rparr>) t"

definition set_stack :: "nat \<Rightarrow> datas \<Rightarrow> transaction \<Rightarrow> transaction" where
  "set_stack i ws t = set_input i (\<lambda>inp. inp\<lparr>witnessStack := ws\<rparr>) t"

definition input_index :: "nat \<Rightarrow> data" where
  "input_index i = DataInt (of_nat i)"

fun trimDuplicateInstances :: "nat list \<Rightarrow> nat list \<Rightarrow> nat list" where
  "trimDuplicateInstances trimmed [] = trimmed"
| "trimDuplicateInstances trimmed (i # is) =
     trimDuplicateInstances (if i \<in> set trimmed then trimmed else trimmed @ [i]) is"

text \<open>The scripts of legacy inputs are moved into a dictionary and blanked, and later put back.\<close>

definition stash_step :: "nat \<Rightarrow> transaction \<times> dictionary \<Rightarrow> transaction \<times> dictionary" where
  "stash_step i = (\<lambda>(t, scriptSigs).
     let input = inputs t ! i in
     if is_legacy (TransactionInputType input) then
       let scriptSigs = (if scriptData input \<noteq> DataNull
             then DictionaryAddCopy scriptSigs (input_index i) (scriptData input) else scriptSigs)
       in (set_script i DataNull t, scriptSigs)
     else (t, scriptSigs))"

definition stash_scripts :: "transaction \<Rightarrow> transaction \<times> dictionary" where
  "stash_scripts t = fold stash_step [0..<length (inputs t)] (t, DictNew)"

fun restore_scripts :: "(data \<times> data) list \<Rightarrow> transaction \<Rightarrow> fault + transaction" where
  "restore_scripts [] t = Inr t"
| "restore_scripts ((k, v) # kvs) t =
     (case DataGetInt k of Inl e \<Rightarrow> Inl e
      | Inr i \<Rightarrow> if unat i < length (inputs t)
          then restore_scripts kvs (set_script (unat i) (DataCopyData v) t) else Inl Fault)"

section \<open>Sorting signatures\<close>

text \<open>After a match the element is removed and \<open>k\<close> still advances.\<close>

function match_signatures :: "(data \<Rightarrow> bool) \<Rightarrow> nat \<Rightarrow> datas \<Rightarrow> datas \<Rightarrow> datas \<times> datas" where
  "match_signatures ok k signatures newStack =
     (if k < length signatures then
        if ok (signatures ! k)
        then match_signatures ok (k + 1) (take k signatures @ drop (k + 1) signatures)
               (DatasAddCopy newStack (signatures ! k))
        else match_signatures ok (k + 1) signatures newStack
      else (signatures, newStack))"
  by pat_completeness auto
termination
  by (relation "measure (\<lambda>(_, k, s, _). length s - k)") auto

declare match_signatures.simps [simp del]

definition sorted_stack :: "ecc \<Rightarrow> data \<Rightarrow> datas \<Rightarrow> data \<Rightarrow> datas" where
  "sorted_stack E digest signatures script =
     DatasAddCopy (snd (fold (\<lambda>pub (signatures, newStack).
         match_signatures (\<lambda>s. verify E s digest pub) 0 signatures newStack) (allPubKeys script) (signatures, []))) script"

definition sort_input :: "ecc \<Rightarrow> nat \<Rightarrow> fault + bool \<times> transaction \<Rightarrow> fault + bool \<times> transaction" where
  "sort_input E i st = (case st of Inl e \<Rightarrow> Inl e
     | Inr (result, t) \<Rightarrow>
         let input = inputs t ! i; stack = witnessStack input in
         if length stack > 2 then
           let script = stack ! (length stack - 1);
               signatures = take (length stack - 1) stack;
               digest = TransactionWitnessDigest (set_script i script t) i;
               newStack = sorted_stack E digest signatures script
           in if length newStack = length stack then Inr (result, set_stack i newStack t)
              else Inr (False, t)
         else if length (TransactionInputScriptStack input) > 2 then Inl Abort
         else Inr (result, t))"

definition sortSignatures :: "ecc \<Rightarrow> transaction \<Rightarrow> fault + bool \<times> transaction" where
  "sortSignatures E t =
     (let (t, scriptSigs) = stash_scripts t in
      case fold (sort_input E) [0..<length (inputs t)] (Inr (True, t)) of Inl e \<Rightarrow> Inl e
      | Inr (result, t) \<Rightarrow> (case restore_scripts (keysAndValues scriptSigs) t of Inl e \<Rightarrow> Inl e
          | Inr t \<Rightarrow> Inr (result, t)))"

section \<open>The extra element of CHECKMULTISIG\<close>

fun correct_tokens :: "script_token list \<Rightarrow> datas \<Rightarrow> nat \<Rightarrow> datas \<Rightarrow> fault + datas" where
  "correct_tokens [] stack index newStack = Inr newStack"
| "correct_tokens (token # tokens) stack index newStack =
     (let multi = is_checkmultisig (op token);
          n = (if multi then nat (neededSigs token) else 1);
          newStack = (if multi then DatasAddCopy newStack (DataNew 0) else newStack)
      in if index + n \<le> length stack
         then correct_tokens tokens stack (index + n) (newStack @ take n (drop index stack))
         else Inl Fault)"

definition TransactionCorrectMultisigSignaturesInStack :: "datas \<Rightarrow> fault + datas" where
  "TransactionCorrectMultisigSignaturesInStack stack =
     (let tokens = allCheckSigs (DatasLast stack);
          needed = sum_list (map neededSigs tokens)
      in if int (length stack) - 1 \<noteq> needed then Inr stack
         else case correct_tokens tokens stack 0 [] of Inl e \<Rightarrow> Inl e
           | Inr newStack \<Rightarrow> Inr (DatasAddCopy newStack (DatasLast stack)))"

definition correct_input :: "nat \<Rightarrow> fault + transaction \<Rightarrow> fault + transaction" where
  "correct_input i st = (case st of Inl e \<Rightarrow> Inl e
     | Inr t \<Rightarrow>
         let input = inputs t ! i;
             r = (if length (witnessStack input) > 1
                  then case TransactionCorrectMultisigSignaturesInStack (witnessStack input) of Inl e \<Rightarrow> Inl e
                    | Inr stack \<Rightarrow> Inr (set_stack i stack t)
                  else Inr t)
         in case r of Inl e \<Rightarrow> Inl e
           | Inr t \<Rightarrow>
               let input = inputs t ! i in
               if length (TransactionInputScriptStack input) > 1
               then case TransactionCorrectMultisigSignaturesInStack (TransactionInputScriptStack input) of Inl e \<Rightarrow> Inl e
                 | Inr stack \<Rightarrow> Inr (set_script i (writePushes stack) t)
               else Inr t)"

definition TransactionCorrectMultisigSignatures :: "transaction \<Rightarrow> fault + transaction" where
  "TransactionCorrectMultisigSignatures t =
     (let (t, scriptSigs) = stash_scripts t in
      case fold correct_input [0..<length (inputs t)] (Inr t) of Inl e \<Rightarrow> Inl e
      | Inr t \<Rightarrow> restore_scripts (keysAndValues scriptSigs) t)"

definition TransactionFinalize :: "ecc \<Rightarrow> transaction \<Rightarrow> fault + bool \<times> transaction" where
  "TransactionFinalize E t =
     (case sortSignatures E t of Inl e \<Rightarrow> Inl e
      | Inr (result, t) \<Rightarrow> (case TransactionCorrectMultisigSignatures t of Inl e \<Rightarrow> Inl e
          | Inr t \<Rightarrow> Inr (result, t)))"

section \<open>Adding scripts and public keys\<close>

definition add_script_step :: "data \<Rightarrow> nat \<Rightarrow> transaction \<times> nat list \<Rightarrow> transaction \<times> nat list" where
  "add_script_step script i = (\<lambda>(t, result).
     case TransactionInputType (inputs t ! i) of
       PayToScriptHash \<Rightarrow>
         let (t, result) = (if DataEqual (out_script (fundingOutput (inputs t ! i))) (p2shPubScriptWithScript script)
               then (set_script i (scriptPush script) t, result @ [i]) else (t, result))
         in if DataEqual (DatasLast (TransactionInputScriptStack (inputs t ! i))) (nestedP2wshScript script)
            then (set_stack i (DatasAddCopy [] script) t, result @ [i]) else (t, result)
     | PayToScriptWitness \<Rightarrow>
         if DataEqual (out_script (fundingOutput (inputs t ! i))) (p2wshPubScriptWithScript script)
         then (set_stack i (DatasAddCopy [] script) t, result @ [i]) else (t, result)
     | _ \<Rightarrow> (t, result))"

definition TransactionAddScript :: "transaction \<Rightarrow> data \<Rightarrow> transaction \<times> nat list" where
  "TransactionAddScript t script =
     (let (t, result) = fold (add_script_step script) [0..<length (inputs t)] (t, [])
      in (t, trimDuplicateInstances [] result))"

text \<open>One pass over the scripts; those that found an input are removed.\<close>

fun add_scripts_pass :: "transaction \<Rightarrow> datas \<Rightarrow> nat list \<Rightarrow> transaction \<times> datas \<times> nat list" where
  "add_scripts_pass t [] result = (t, [], result)"
| "add_scripts_pass t (s # ss) result =
     (let (t, ins) = TransactionAddScript t s in
      if ins \<noteq> [] then add_scripts_pass t ss (result @ ins)
      else let (t, kept, result) = add_scripts_pass t ss result in (t, s # kept, result))"

lemma add_scripts_pass_length: "add_scripts_pass t ss r = (t', kept, r') \<Longrightarrow> length kept \<le> length ss"
  by (induction t ss r arbitrary: t' kept r' rule: add_scripts_pass.induct)
    (fastforce split: prod.splits if_splits)+

function add_scripts_loop :: "transaction \<Rightarrow> datas \<Rightarrow> nat list \<Rightarrow> transaction \<times> nat list" where
  "add_scripts_loop t array result =
     (let (t, kept, result) = add_scripts_pass t array result in
      if length kept < length array then add_scripts_loop t kept result else (t, result))"
  by pat_completeness auto
termination
  by (relation "measure (\<lambda>(_, a, _). length a)") (auto split: prod.splits)

declare add_scripts_loop.simps [simp del]

definition TransactionAddScripts :: "transaction \<Rightarrow> datas \<Rightarrow> transaction \<times> nat list" where
  "TransactionAddScripts t scripts =
     (let (t, result) = add_scripts_loop t (DatasCopy scripts) [] in (t, trimDuplicateInstances [] result))"

definition add_pub_key_step :: "ecc \<Rightarrow> data \<Rightarrow> nat \<Rightarrow> transaction \<times> nat list \<Rightarrow> transaction \<times> nat list" where
  "add_pub_key_step E key i = (\<lambda>(t, result).
     case TransactionInputType (inputs t ! i) of
       PayToScriptHash \<Rightarrow>
         if DataEqual (DatasLast (TransactionInputScriptStack (inputs t ! i))) (nestedP2wpkhScript E key)
         then (set_stack i (DatasAddCopy [] key) t, result @ [i]) else (t, result)
     | PayToPubkeyHash \<Rightarrow>
         if DataEqual (out_script (fundingOutput (inputs t ! i))) (p2pkhPubScriptFromPubKey E key)
         then (set_script i (scriptPush key) t, result @ [i]) else (t, result)
     | PayToPubkeyWitness \<Rightarrow>
         if DataEqual (out_script (fundingOutput (inputs t ! i))) (p2wpkhPubScriptFromPubKey E key)
         then (set_stack i (DatasAddCopy [] key) t, result @ [i]) else (t, result)
     | _ \<Rightarrow> (t, result))"

definition TransactionAddPubKey :: "ecc \<Rightarrow> transaction \<Rightarrow> data \<Rightarrow> transaction \<times> nat list" where
  "TransactionAddPubKey E t key =
     (let (t, result) = fold (add_pub_key_step E key) [0..<length (inputs t)] (t, [])
      in (t, trimDuplicateInstances [] result))"

definition TransactionAddPubKeys :: "ecc \<Rightarrow> transaction \<Rightarrow> datas \<Rightarrow> transaction \<times> nat list" where
  "TransactionAddPubKeys E t keys =
     (let (t, result) = fold (\<lambda>key (t, result).
            let (t, ins) = TransactionAddPubKey E t key in (t, result @ ins)) keys (t, [])
      in (t, trimDuplicateInstances [] result))"

section \<open>Digests for a key\<close>

text \<open>\<open>j < witnessStack.count - 1\<close> is an unsigned comparison: an empty stack is read out of range.\<close>

definition signed_already :: "ecc \<Rightarrow> bool \<Rightarrow> datas \<Rightarrow> data \<Rightarrow> data \<Rightarrow> fault + datas" where
  "signed_already E exceptSigned stack digest key =
     (if \<not> exceptSigned then Inr []
      else if stack = [] then Inl Fault
      else Inr (map (\<lambda>_. key) (filter (\<lambda>s. verify E s digest key) (take (length stack - 1) stack))))"

definition digest_input :: "ecc \<Rightarrow> data \<Rightarrow> bool \<Rightarrow> dictionary \<Rightarrow> nat \<Rightarrow> fault + transaction \<times> datas
    \<Rightarrow> fault + transaction \<times> datas" where
  "digest_input E key exceptSigned scriptSigs i st = (case st of Inl e \<Rightarrow> Inl e
     | Inr (t, result) \<Rightarrow>
         let input = inputs t ! i;
             curScriptSig = DictionaryGetValue scriptSigs (input_index i);
             mainPubKeys = allPubKeys (DatasLast (readPushes curScriptSig))
               @ allPubKeys (out_script (fundingOutput input)) @ [DatasLast (readPushes curScriptSig)];
             (t, result) = (if list_ex (\<lambda>k. DataEqual k key) mainPubKeys
               then (set_script i DataNull t,
                     result @ [TransactionDigest (set_script i (out_script (fundingOutput input)) t)])
               else (t, result));
             result = (if DataEqual (DatasLast (witnessStack input)) key
               then result @ [TransactionWitnessDigest (set_script i (p2wpkhImpliedScript E key) t) i] else result);
             digest = TransactionWitnessDigest (set_script i (DatasLast (witnessStack input)) t) i
         in case signed_already E exceptSigned (witnessStack input) digest key of Inl e \<Rightarrow> Inl e
           | Inr signedPubKeys \<Rightarrow>
               Inr (t, result @ map (\<lambda>_. digest)
                 (filter (\<lambda>k. DataEqual k key \<and> DatasHasMatchingData signedPubKeys k = 0)
                    (allPubKeys (DatasLast (witnessStack input))))))"

fun trim_datas :: "datas \<Rightarrow> datas \<Rightarrow> datas" where
  "trim_datas array [] = array"
| "trim_datas array (d # ds) = trim_datas (if DatasHasMatchingData array d = 0 then DatasAddCopy array d else array) ds"

definition TransactionDigestsForFlexible :: "ecc \<Rightarrow> transaction \<Rightarrow> data \<Rightarrow> bool \<Rightarrow> fault + datas \<times> transaction" where
  "TransactionDigestsForFlexible E t key exceptSigned =
     (let (t, scriptSigs) = stash_scripts t in
      case fold (digest_input E key exceptSigned scriptSigs) [0..<length (inputs t)] (Inr (t, [])) of Inl e \<Rightarrow> Inl e
      | Inr (t, result) \<Rightarrow> (case restore_scripts (keysAndValues scriptSigs) t of Inl e \<Rightarrow> Inl e
          | Inr t \<Rightarrow> Inr (trim_datas [] result, t)))"

definition TransactionDigestsFor :: "ecc \<Rightarrow> transaction \<Rightarrow> data \<Rightarrow> fault + datas \<times> transaction" where
  "TransactionDigestsFor E t key = TransactionDigestsForFlexible E t key False"

definition TransactionWitnessPubKeys :: "transaction \<Rightarrow> datas" where
  "TransactionWitnessPubKeys t = fold (\<lambda>input result.
     let last = DatasLast (witnessStack input);
         result = (if dlength last = 33 then DatasAddCopy result last else result)
     in DatasAddDatasCopy result (allPubKeys last)) (inputs t) []"

section \<open>Validation\<close>

text \<open>The checks of one token; the reads of \<open>tokens\<close> are in range by the guards.\<close>

definition valid_checksig :: "ecc \<Rightarrow> script_token list \<Rightarrow> datas \<Rightarrow> data \<Rightarrow> nat \<Rightarrow> bool" where
  "valid_checksig E tokens stack digest j \<longleftrightarrow>
     (let key = (if j > 0 then tdata (tokens ! (j - 1)) else DataNull)
      in list_ex (\<lambda>s. verify E s digest key) (take (length stack - 1) stack))"

definition valid_checkmultisig :: "ecc \<Rightarrow> script_token list \<Rightarrow> datas \<Rightarrow> data \<Rightarrow> nat \<Rightarrow> bool" where
  "valid_checkmultisig E tokens stack digest j \<longleftrightarrow>
     (if j = 0 then False
      else let numPubKeys = op_number (op (tokens ! (j - 1))); tokenIndex = int j - 2 in
        if numPubKeys < 1 \<or> numPubKeys > 16 \<or> tokenIndex - numPubKeys - 1 < 0 then False
        else let keys = map (\<lambda>m. tdata (tokens ! (j - 2 - m))) [0..<nat numPubKeys];
            numSigs = op_number (op (tokens ! (j - 2 - nat numPubKeys))) in
          if numSigs < 1 \<or> numSigs > 16 then False
          else int (sum_list (map (\<lambda>key. length (filter (\<lambda>s. verify E s digest key) (take (length stack - 1) stack))) keys))
             = numSigs)"

definition valid_token :: "ecc \<Rightarrow> script_token list \<Rightarrow> datas \<Rightarrow> data \<Rightarrow> nat \<Rightarrow> bool" where
  "valid_token E tokens stack digest j \<longleftrightarrow>
     (is_checksig (op (tokens ! j)) \<longrightarrow> valid_checksig E tokens stack digest j)
     \<and> (is_checkmultisig (op (tokens ! j)) \<longrightarrow> valid_checkmultisig E tokens stack digest j)"

definition TransactionValidateSignature :: "ecc \<Rightarrow> transaction \<Rightarrow> nat \<Rightarrow> fault + bool" where
  "TransactionValidateSignature E t i =
     (if i \<ge> length (inputs t) then Inl Fault
      else let stack = witnessStack (inputs t ! i) in
        if length stack = 2
          \<and> verify E (DatasFirst stack) (TransactionWitnessDigest (set_script i (p2wpkhImpliedScript E (DatasLast stack)) t) i)
              (DatasLast stack)
        then Inr True
        else let digest = TransactionWitnessDigest (set_script i (DatasLast stack) t) i;
            tokens = scriptToTokens (DatasLast stack)
          in Inr (list_all (valid_token E tokens stack digest) [0..<length tokens]))"

fun validate_all :: "ecc \<Rightarrow> transaction \<Rightarrow> nat list \<Rightarrow> fault + bool" where
  "validate_all E t [] = Inr True"
| "validate_all E t (i # is) = (case TransactionValidateSignature E t i of Inl e \<Rightarrow> Inl e
     | Inr False \<Rightarrow> Inr False | Inr True \<Rightarrow> validate_all E t is)"

definition TransactionValidateSignatures :: "ecc \<Rightarrow> transaction \<Rightarrow> fault + bool" where
  "TransactionValidateSignatures E t = validate_all E t [0..<length (inputs t)]"

section \<open>Adding a signature\<close>

type_synonym sign_state = "transaction \<times> dictionary \<times> nat list"

text \<open>
  The loop variable over the candidate keys hides the one over the inputs, so the signature is
  filed in the dictionary under the number of the key.
\<close>

definition add_signature_key :: "ecc \<Rightarrow> data \<Rightarrow> nat \<Rightarrow> datas \<Rightarrow> nat \<Rightarrow> sign_state \<Rightarrow> sign_state" where
  "add_signature_key E signature i mainPubKeys m = (\<lambda>(t, scriptSigs, result).
     let array = readPushes (DictionaryGetValue scriptSigs (input_index m));
         t' = set_script i (out_script (fundingOutput (inputs t ! i))) t
     in if verify E signature (TransactionDigest t') (mainPubKeys ! m)
        then (set_script i DataNull t,
              DictionaryAddCopy scriptSigs (input_index m) (writePushes (DatasAddCopy array signature)), result @ [i])
        else (set_script i DataNull t, scriptSigs, result))"

definition add_signature_front :: "ecc \<Rightarrow> data \<Rightarrow> nat \<Rightarrow> data \<Rightarrow> data \<Rightarrow> sign_state \<Rightarrow> sign_state" where
  "add_signature_front E signature i script key = (\<lambda>(t, scriptSigs, result).
     if verify E signature (TransactionWitnessDigest (set_script i script t) i) key
     then (set_stack i (DatasAddCopyFront (witnessStack (inputs t ! i)) signature) t, scriptSigs, result @ [i])
     else (t, scriptSigs, result))"

definition add_signature_step :: "ecc \<Rightarrow> data \<Rightarrow> nat \<Rightarrow> sign_state \<Rightarrow> sign_state" where
  "add_signature_step E signature i = (\<lambda>(t, scriptSigs, result).
     let scriptSig = DictionaryGetValue scriptSigs (input_index i);
         mainPubKeys = allPubKeys (DatasLast (readPushes scriptSig))
           @ allPubKeys (out_script (fundingOutput (inputs t ! i))) @ [DatasLast (readPushes scriptSig)];
         st = fold (add_signature_key E signature i mainPubKeys) (rev [0..<length mainPubKeys]) (t, scriptSigs, result);
         last = DatasLast (witnessStack (inputs t ! i));
         st = add_signature_front E signature i (p2wpkhImpliedScript E last) last st
     in fold (add_signature_front E signature i last) (allPubKeys last) st)"

definition TransactionAddSignature :: "ecc \<Rightarrow> transaction \<Rightarrow> data \<Rightarrow> fault + transaction \<times> nat list" where
  "TransactionAddSignature E t signature =
     (let (t, scriptSigs) = stash_scripts t;
          (t, scriptSigs, result) = fold (add_signature_step E signature) [0..<length (inputs t)] (t, scriptSigs, [])
      in case restore_scripts (keysAndValues scriptSigs) t of Inl e \<Rightarrow> Inl e
         | Inr t \<Rightarrow> Inr (t, trimDuplicateInstances [] result))"

section \<open>Signing with private keys\<close>

text \<open>
  First pass, one item (a private key or a script) and one input. An item that is not 32 bytes
  long leaves the funding script in the script field of a pay-to-pubkey or pay-to-pubkey-hash
  input, as the source does with its \<open>continue\<close>.
\<close>

definition sign_pubkey :: "ecc \<Rightarrow> data \<Rightarrow> nat \<Rightarrow> data \<Rightarrow> sign_state \<Rightarrow> sign_state" where
  "sign_pubkey E item i scriptPubKey = (\<lambda>(t, scriptSigs, result).
     if DataEqual scriptPubKey (pubKey E item) \<or> DataEqual scriptPubKey (pubKeyFull E item) then
       let array = DatasAddCopy (readPushes (DictionaryGetValue scriptSigs (input_index i)))
                     (signAll E (TransactionDigest t) item)
       in (t, DictionaryAddCopy scriptSigs (input_index i) (writePushes array), result @ [i])
     else (t, scriptSigs, result))"

definition sign_first :: "ecc \<Rightarrow> data \<Rightarrow> nat \<Rightarrow> sign_state \<Rightarrow> sign_state" where
  "sign_first E item i = (\<lambda>(t, scriptSigs, result).
     let input = inputs t ! i; funding = out_script (fundingOutput input) in
     case TransactionInputType input of
       PayToPubkey \<Rightarrow>
         let t = set_script i funding t in
         if dlength item \<noteq> 32 then (t, scriptSigs, result)
         else let (t, scriptSigs, result) = fold (sign_pubkey E item i) (allPubKeys funding) (t, scriptSigs, result)
           in (set_script i DataNull t, scriptSigs, result)
     | PayToPubkeyHash \<Rightarrow>
         let t = set_script i funding t in
         if dlength item \<noteq> 32 then (t, scriptSigs, result)
         else let pubFull = pubKeyFull E item; pub = pubKey E item;
             sig = scriptPush (signAll E (TransactionDigest t) item) in
           if pub \<noteq> DataNull \<and> DataEqual (p2pkhPubScript (hash160 pubFull)) funding
           then (set_script i DataNull t, DictionaryAddCopy scriptSigs (input_index i) (DataAddCopy sig (scriptPush pubFull)),
                 result @ [i])
           else if pub \<noteq> DataNull \<and> DataEqual (p2pkhPubScript (hash160 pub)) funding
           then (set_script i DataNull t, DictionaryAddCopy scriptSigs (input_index i) (DataAddCopy sig (scriptPush pub)),
                 result @ [i])
           else (set_script i DataNull t, scriptSigs, result)
     | PayToPubkeyWitness \<Rightarrow>
         if dlength item \<noteq> 32 then (t, scriptSigs, result)
         else let pub = pubKey E item in
           if pub \<noteq> DataNull \<and> DataEqual (p2wpkhPubScriptFromPubKey E pub) funding then
             let signature = signAll E (TransactionWitnessDigest (set_script i (p2wpkhImpliedScript E pub) t) i) item
             in (set_stack i (DatasAddCopy (DatasAddCopy [] signature) pub) t, scriptSigs, result @ [i])
           else (t, scriptSigs, result)
     | PayToScriptHash \<Rightarrow>
         if DataEqual (p2shPubScriptWithScript item) funding
         then (t, DictionaryAddCopy scriptSigs (input_index i) (scriptPush item), result @ [i])
         else (t, scriptSigs, result)
     | PayToScriptWitness \<Rightarrow>
         if DataEqual (p2wshPubScriptWithScript item) funding
         then (set_stack i (DatasAddCopy [] item) t, scriptSigs, result @ [i])
         else (t, scriptSigs, result)
     | TypeUnknown \<Rightarrow> (t, scriptSigs, result))"

text \<open>Second pass: the witness script behind a pay-to-script-hash input.\<close>

definition sign_second :: "data \<Rightarrow> nat \<Rightarrow> sign_state \<Rightarrow> sign_state" where
  "sign_second item i = (\<lambda>(t, scriptSigs, result).
     let sig = DictionaryGetValue scriptSigs (input_index i) in
     if TransactionInputType (inputs t ! i) = PayToScriptHash \<and> dlength sig \<noteq> 0
        \<and> DataEqual (DatasLast (readPushes sig)) (nestedP2wshScript item)
     then (set_stack i (DatasAddCopy [] item) t, scriptSigs, result @ [i])
     else (t, scriptSigs, result))"

text \<open>Third pass: signatures for keys named in scripts.\<close>

definition sign_script_hash :: "ecc \<Rightarrow> data \<Rightarrow> nat \<Rightarrow> sign_state \<Rightarrow> sign_state" where
  "sign_script_hash E item i = (\<lambda>(t, scriptSigs, result).
     let pub = pubKey E item;
         array = readPushes (DictionaryGetValue scriptSigs (input_index i))
     in if list_ex (\<lambda>k. DataEqual k pub) (allPubKeys (DatasLast array)) then
          let sig = signAll E (TransactionDigest t) item;
              array = DatasAddRefIndex array (DataCopyData sig) (length array - 1)
          in (t, DictionaryAddCopy scriptSigs (input_index i) (writePushes array), result @ [i])
        else (t, scriptSigs, result))"

definition sign_witness_script :: "ecc \<Rightarrow> data \<Rightarrow> nat \<Rightarrow> sign_state \<Rightarrow> sign_state" where
  "sign_witness_script E item i = (\<lambda>(t, scriptSigs, result).
     let array = witnessStack (inputs t ! i); script = DatasLast array in
     if list_ex (\<lambda>k. DataEqual k (pubKey E item)) (allPubKeys script) then
       let sig = signAll E (TransactionWitnessDigest (set_script i script t) i) item;
           array = (if DatasHasMatchingData array sig = 0
                    then DatasAddRefIndex array (DataCopyData sig) (length array - 1) else array)
       in (set_stack i array t, scriptSigs, result @ [i])
     else (t, scriptSigs, result))"

definition sign_third :: "ecc \<Rightarrow> data \<Rightarrow> nat \<Rightarrow> sign_state \<Rightarrow> sign_state" where
  "sign_third E item i = (\<lambda>(t, scriptSigs, result).
     let type = TransactionInputType (inputs t ! i); pub = pubKey E item;
         usable = (dlength item = 32 \<and> pub \<noteq> DataNull);
         nested = DataEqual (DatasLast (readPushes (DictionaryGetValue scriptSigs (input_index i)))) (nestedP2wpkhScript E pub)
     in if type = PayToScriptHash \<and> \<not> usable then (t, scriptSigs, result)
        else if type = PayToScriptHash \<and> nested then
          let sig = signAll E (TransactionWitnessDigest (set_script i (p2wpkhImpliedScript E pub) t) i) item
          in (set_stack i (DatasAddCopy (DatasAddCopy [] sig) pub) t, scriptSigs, result @ [i])
        else let st = (if type = PayToScriptHash then sign_script_hash E item i (t, scriptSigs, result)
                       else (t, scriptSigs, result)) in
          if (type = PayToScriptWitness \<or> length (witnessStack (inputs t ! i)) > 0) \<and> usable
          then sign_witness_script E item i st else st)"

definition sign_pass :: "(data \<Rightarrow> nat \<Rightarrow> sign_state \<Rightarrow> sign_state) \<Rightarrow> datas \<Rightarrow> sign_state \<Rightarrow> sign_state" where
  "sign_pass body items st =
     fold (\<lambda>item st. fold (body item) [0..<length (inputs (fst st))] st) items st"

definition TransactionSign :: "ecc \<Rightarrow> transaction \<Rightarrow> datas \<Rightarrow> fault + transaction \<times> nat list" where
  "TransactionSign E t privKeysAndScripts =
     (let (t, scriptSigs) = stash_scripts t;
          st = sign_pass (sign_first E) privKeysAndScripts (t, scriptSigs, []);
          st = sign_pass sign_second privKeysAndScripts st;
          (t, scriptSigs, result) = sign_pass (sign_third E) privKeysAndScripts st
      in case restore_scripts (keysAndValues scriptSigs) t of Inl e \<Rightarrow> Inl e
         | Inr t \<Rightarrow> (case TransactionFinalize E t of Inl e \<Rightarrow> Inl e
             | Inr (ok, t) \<Rightarrow> if \<not> ok then Inl Abort else Inr (t, trimDuplicateInstances [] result)))"

end
