(* ===== verification/Transaction_Props.thy ===== *)
theory Transaction_Props
  imports Transactions
begin

text \<open>
  The wire format of transactions: what \<open>TransactionData\<close> writes \<open>TransactionNew\<close> reads back, what
  the identifiers commit to, and how the parser treats surplus and missing bytes.
\<close>

section \<open>Counted sequences of elements\<close>

text \<open>
  The contract between a writer and a reader of one element: after the element's bytes the
  reader stands at the rest, with the element up to what the wire does not carry.
\<close>

locale element_codec =
  fixes wr :: "'a \<Rightarrow> bytes"
    and rd :: "bytes \<Rightarrow> 'b \<times> bytes"
    and norm :: "'a \<Rightarrow> 'b"
    and ok :: "'a \<Rightarrow> bool"
  assumes rd_wr: "ok x \<Longrightarrow> rd (wr x @ bs) = (norm x, bs)"
begin

lemma read_many_concat:
  "list_all ok xs \<Longrightarrow> read_many rd (length xs) (concat (map wr xs) @ bs) = (map norm xs, bs)"
  by (induction xs) (simp_all add: rd_wr)

lemma read_counted_concat:
  assumes "list_all ok xs" "length xs < 2 ^ 32" "varint_safe (of_nat (length xs))"
  shows "read_counted rd (dbytes (varIntD (of_nat (length xs))) @ concat (map wr xs) @ bs) = (map norm xs, bs)"
  using assms by (simp add: read_counted_def readVarInt_varIntD unat_of_nat_small read_many_concat)

end

section \<open>Lengths the format can carry\<close>

definition wire_len :: "nat \<Rightarrow> bool" where
  "wire_len n \<longleftrightarrow> n < 253 \<or> 256 \<le> n \<and> n < 2 ^ 32"

lemma wire_len_bounds: "wire_len n \<Longrightarrow> n < 4294967296"
  by (auto simp: wire_len_def)

lemma wire_len_safe: "wire_len n \<Longrightarrow> varint_safe (of_nat n)"
  by (auto simp: wire_len_def varint_safe_def unat_of_nat_small)

lemma read_sized:
  assumes "wire_len (dlength d)"
  shows "readVarInt (dbytes (varIntD (of_nat (dlength d))) @ bs) = (of_nat (dlength d), bs)"
    and "readBytes (of_nat (dlength d)) (dbytes d @ bs) = (renull d, bs)"
  using assms by (simp_all add: readVarInt_varIntD wire_len_safe readBytes_append wire_len_bounds renull_def)

lemma readP_write:
  "uint32readP (le_bytes 4 (w32 :: u32) @ bs) = (w32, bs)"
  "uint64readP (le_bytes 8 (w64 :: u64) @ bs) = (w64, bs)"
  by (simp_all add: uintreadP_defs read_le_def le_word_le_bytes del: le_bytes_numeral)

section \<open>Elements\<close>

definition wire_input :: "tx_input \<Rightarrow> tx_input" where
  "wire_input input = input_zero\<lparr>previousTransactionHash := renull (previousTransactionHash input),
     outputIndex := outputIndex input, scriptData := renull (scriptData input), sequence := sequence input\<rparr>"

definition wire_output :: "tx_output \<Rightarrow> tx_output" where
  "wire_output output = output_zero\<lparr>out_value := out_value output, out_script := renull (out_script output)\<rparr>"

definition input_ok :: "tx_input \<Rightarrow> bool" where
  "input_ok input \<longleftrightarrow> dlength (previousTransactionHash input) = 32 \<and> wire_len (dlength (scriptData input))
     \<and> wire_len (length (witnessStack input)) \<and> list_all (\<lambda>d. wire_len (dlength d)) (witnessStack input)"

definition output_ok :: "tx_output \<Rightarrow> bool" where
  "output_ok output \<longleftrightarrow> wire_len (dlength (out_script output))"

definition stack_item_bytes :: "data \<Rightarrow> bytes" where
  "stack_item_bytes d = dbytes (varIntD (of_nat (dlength d))) @ dbytes d"

lemma TransactionInputData_bytes:
  "dbytes (TransactionInputData input) = dbytes (previousTransactionHash input) @ le_bytes 4 (outputIndex input)
     @ dbytes (varIntD (of_nat (dlength (scriptData input)))) @ dbytes (scriptData input) @ le_bytes 4 (sequence input)"
  by (simp add: TransactionInputData_def Let_def DataNew_def uint32D_def del: le_bytes_numeral)

lemma TransactionOutputData_bytes:
  "dbytes (TransactionOutputData output) = le_bytes 8 (out_value output)
     @ dbytes (varIntD (of_nat (dlength (out_script output)))) @ dbytes (out_script output)"
  by (simp add: TransactionOutputData_def uint64D_def del: le_bytes_numeral)

lemma fold_DataAddCopy:
  "dbytes (fold (\<lambda>x d. DataAddCopy d (f x)) xs d) = dbytes d @ concat (map (\<lambda>x. dbytes (f x)) xs)"
  by (induction xs arbitrary: d) simp_all

lemma witness_bytes:
  "dbytes (TransactionInputWitnessData input)
     = dbytes (varIntD (of_nat (length (witnessStack input)))) @ concat (map stack_item_bytes (witnessStack input))"
proof -
  have "dbytes (fold (\<lambda>item d. DataAddCopy (DataAddCopy d (varIntD (of_nat (dlength item)))) item) xs d)
      = dbytes d @ concat (map stack_item_bytes xs)" for xs d
    by (induction xs arbitrary: d) (simp_all add: stack_item_bytes_def)
  then show ?thesis by (simp add: TransactionInputWitnessData_def DataNew_def)
qed

interpretation inputs_codec: element_codec "\<lambda>i. dbytes (TransactionInputData i)" read_input wire_input input_ok
proof
  fix x :: tx_input and bs
  assume ok: "input_ok x"
  have "readBytes 32 (dbytes (previousTransactionHash x) @ rest) = (renull (previousTransactionHash x), rest)" for rest
    using readBytes_append [of "dbytes (previousTransactionHash x)" rest] ok by (simp add: input_ok_def renull_def)
  then show "read_input (dbytes (TransactionInputData x) @ bs) = (wire_input x, bs)"
    using ok read_sized [of "scriptData x"] readP_write(1)
    by (simp add: read_input_def TransactionInputData_bytes wire_input_def input_ok_def del: le_bytes_numeral)
qed

interpretation outputs_codec: element_codec "\<lambda>x. dbytes (TransactionOutputData x)" read_output wire_output output_ok
  by unfold_locales
    (simp add: read_output_def TransactionOutputData_bytes wire_output_def output_ok_def readP_write read_sized
      del: le_bytes_numeral)

interpretation items_codec: element_codec stack_item_bytes read_item renull "\<lambda>d. wire_len (dlength d)"
  by unfold_locales (simp add: read_item_def stack_item_bytes_def read_sized)

section \<open>Whole transactions\<close>

definition wire_witness :: "tx_input \<Rightarrow> tx_input" where
  "wire_witness input = set_witness_flag ((wire_input input)\<lparr>witnessStack := map renull (witnessStack input)\<rparr>)"

definition wire_tx :: "transaction \<Rightarrow> transaction" where
  "wire_tx t = TransactionEmpty\<lparr>version := version t,
     inputs := map (if TransactionHasWitnessData t then wire_witness else wire_input) (inputs t),
     outputs := map wire_output (outputs t), locktime := locktime t\<rparr>"

definition tx_ok :: "transaction \<Rightarrow> bool" where
  "tx_ok t \<longleftrightarrow> inputs t \<noteq> [] \<and> wire_len (length (inputs t)) \<and> wire_len (length (outputs t))
     \<and> list_all input_ok (inputs t) \<and> list_all output_ok (outputs t)"

definition tx_body :: "transaction \<Rightarrow> bytes" where
  "tx_body t = dbytes (varIntD (of_nat (length (inputs t)))) @ concat (map (\<lambda>i. dbytes (TransactionInputData i)) (inputs t))
     @ dbytes (varIntD (of_nat (length (outputs t)))) @ concat (map (\<lambda>x. dbytes (TransactionOutputData x)) (outputs t))"

definition tx_witnesses :: "transaction \<Rightarrow> bytes" where
  "tx_witnesses t = concat (map (\<lambda>i. dbytes (TransactionInputWitnessData i)) (inputs t))"

lemma TransactionData_bytes:
  "dbytes (TransactionData t) = le_bytes 4 (version t)
     @ (if TransactionHasWitnessData t then [0, 1] else []) @ tx_body t
     @ (if TransactionHasWitnessData t then tx_witnesses t else []) @ le_bytes 4 (locktime t)"
  by (simp add: TransactionData_def Let_def DataNew_def fold_DataAddCopy tx_body_def tx_witnesses_def uintD_defs)

lemma TransactionTx_bytes:
  "dbytes (TransactionTx t) = le_bytes 4 (version t) @ tx_body t @ le_bytes 4 (locktime t)"
  by (simp add: TransactionTx_def Let_def DataNew_def fold_DataAddCopy tx_body_def uintD_defs)

lemma TransactionWtx_bytes: "dbytes (TransactionWtx t) = dbytes (TransactionData t)"
  unfolding TransactionData_bytes
  by (simp add: TransactionWtx_def Let_def DataNew_def fold_DataAddCopy tx_body_def tx_witnesses_def uintD_defs)

lemma tx_not_null: "TransactionData t \<noteq> DataNull" "TransactionTx t \<noteq> DataNull" "TransactionWtx t \<noteq> DataNull"
  by (simp_all add: TransactionData_def TransactionTx_def TransactionWtx_def Let_def DataAddCopy_def)

lemma read_witnesses_bytes:
  assumes "list_all input_ok xs"
  shows "read_witnesses (map wire_input xs) (concat (map (\<lambda>i. dbytes (TransactionInputWitnessData i)) xs) @ bs)
    = (map wire_witness xs, bs)"
  using assms
proof (induction xs)
  case Nil
  then show ?case by simp
next
  case (Cons x xs)
  have "read_counted read_item (dbytes (TransactionInputWitnessData x) @ rest) = (map renull (witnessStack x), rest)" for rest
    unfolding witness_bytes append_assoc
    by (rule items_codec.read_counted_concat)
      (use Cons.prems in \<open>simp_all add: input_ok_def wire_len_safe wire_len_bounds\<close>)
  then show ?case using Cons by (simp add: wire_witness_def)
qed

lemma marker_of_body:
  assumes "tx_ok t"
  shows "\<not> has_witness_marker (tx_body t @ bs)"
proof -
  let ?n = "of_nat (length (inputs t)) :: u64"
  have n: "unat ?n = length (inputs t)" "0 < length (inputs t)" "wire_len (length (inputs t))"
    using assms wire_len_bounds [of "length (inputs t)"] by (auto simp: tx_ok_def unat_of_nat_small)
  have "dbytes (varIntD ?n) ! 0 \<noteq> 0"
  proof (cases "unat ?n < 2 ^ 8")
    case True
    then have "unat (ucast ?n :: u8) = length (inputs t)"
      using n by (simp add: unsigned_ucast_eq take_bit_nat_eq_self)
    then have "(ucast ?n :: u8) \<noteq> 0" using n(2) by (metis less_numeral_extra(3) unsigned_0)
    then show ?thesis using True by (simp add: varIntD_bytes)
  next
    case False
    then show ?thesis by (simp add: varIntD_bytes)
  qed
  moreover have "dbytes (varIntD ?n) \<noteq> []" by (simp add: varIntD_bytes)
  ultimately show ?thesis by (simp add: has_witness_marker_def tx_body_def nth_append)
qed

lemma TransactionNew_body:
  assumes "tx_ok t"
  shows "TransactionNew (Bytes (le_bytes 4 (version t) @ (if TransactionHasWitnessData t then [0, 1] else [])
      @ tx_body t @ (if TransactionHasWitnessData t then tx_witnesses t else []) @ end_bytes))
    = (let (lt, rest) = uint32readP end_bytes
       in if rest \<noteq> [] then Inl Abort else Inr ((wire_tx t)\<lparr>locktime := lt\<rparr>))"
proof -
  have ok: "list_all input_ok (inputs t)" "list_all output_ok (outputs t)"
      "wire_len (length (inputs t))" "wire_len (length (outputs t))"
    using assms by (auto simp: tx_ok_def)
  have ins: "read_counted read_input (tx_body t @ rest) = (map wire_input (inputs t),
      dbytes (varIntD (of_nat (length (outputs t)))) @ concat (map (\<lambda>x. dbytes (TransactionOutputData x)) (outputs t)) @ rest)" for rest
    unfolding tx_body_def append_assoc
    by (rule inputs_codec.read_counted_concat) (use ok in \<open>simp_all add: wire_len_safe wire_len_bounds\<close>)
  have outs: "read_counted read_output (dbytes (varIntD (of_nat (length (outputs t))))
      @ concat (map (\<lambda>x. dbytes (TransactionOutputData x)) (outputs t)) @ rest) = (map wire_output (outputs t), rest)" for rest
    by (rule outputs_codec.read_counted_concat) (use ok in \<open>simp_all add: wire_len_safe wire_len_bounds\<close>)
  show ?thesis
  proof (cases "TransactionHasWitnessData t")
    case True
    have "has_witness_marker (0 # 1 # rest)" for rest by (simp add: has_witness_marker_def)
    then show ?thesis
      using True ins outs read_witnesses_bytes [OF ok(1)]
      by (simp add: TransactionNew_def readP_write wire_tx_def tx_witnesses_def Let_def split: prod.split del: le_bytes_numeral)
  next
    case False
    then show ?thesis
      using ins outs marker_of_body [OF assms]
      by (simp add: TransactionNew_def readP_write wire_tx_def Let_def split: prod.split del: le_bytes_numeral)
  qed
qed

lemma take_cut: "length ys = n \<Longrightarrow> k \<le> n \<Longrightarrow> take (length (xs @ ys) - k) (xs @ ys) = xs @ take (n - k) ys"
  by auto

lemma data_eqI: "a \<noteq> DataNull \<Longrightarrow> b \<noteq> DataNull \<Longrightarrow> dbytes a = dbytes b \<Longrightarrow> a = b"
  by (cases a; cases b) auto

lemma wire_fields [simp]:
  "dbytes (TransactionInputData (wire_input i)) = dbytes (TransactionInputData i)"
  "dbytes (TransactionInputData (wire_witness i)) = dbytes (TransactionInputData i)"
  "dbytes (TransactionOutputData (wire_output x)) = dbytes (TransactionOutputData x)"
  "dbytes (TransactionInputWitnessData (wire_witness i)) = dbytes (TransactionInputWitnessData i)"
  "witnessStack (wire_witness i) = map renull (witnessStack i)"
  "witnessStack (wire_input i) = []"
proof -
  have flag: "witnessStack (set_witness_flag j) = witnessStack j" for j
    by (simp add: set_witness_flag_def Let_def)
  have item: "map stack_item_bytes (map renull ds) = map stack_item_bytes ds" for ds
    by (simp add: stack_item_bytes_def renull_def)
  show "witnessStack (wire_witness i) = map renull (witnessStack i)" by (simp add: wire_witness_def flag)
  then show "dbytes (TransactionInputWitnessData (wire_witness i)) = dbytes (TransactionInputWitnessData i)"
    unfolding witness_bytes by (simp only: item length_map)
qed (simp_all add: TransactionInputData_bytes TransactionOutputData_bytes wire_input_def wire_witness_def
    set_witness_flag_def Let_def wire_output_def renull_def input_zero_def output_zero_def del: le_bytes_numeral)

lemma wire_tx_same:
  "version (wire_tx t) = version t" "locktime (wire_tx t) = locktime t"
  "TransactionHasWitnessData (wire_tx t) = TransactionHasWitnessData t"
  "tx_body (wire_tx t) = tx_body t"
  "(if TransactionHasWitnessData t then tx_witnesses (wire_tx t) else [])
     = (if TransactionHasWitnessData t then tx_witnesses t else [])"
  by (simp_all add: wire_tx_def TransactionHasWitnessData_def tx_body_def tx_witnesses_def comp_def list_ex_iff)

lemma wire_tx_locktime: "(wire_tx t)\<lparr>locktime := locktime t\<rparr> = wire_tx t"
  by (simp add: wire_tx_def)

lemma wire_tx_parse: "tx_ok t \<Longrightarrow> TransactionNew (TransactionData t) = Inr (wire_tx t)"
proof -
  assume ok: "tx_ok t"
  obtain bs where bs: "TransactionData t = Bytes bs" using tx_not_null(1) by (cases "TransactionData t") auto
  then have "TransactionNew (TransactionData t) = Inr ((wire_tx t)\<lparr>locktime := locktime t\<rparr>)"
    using TransactionNew_body [OF ok, of "le_bytes 4 (locktime t)"] TransactionData_bytes [of t]
      readP_write(1) [of "locktime t" "[]"]
    by (simp del: le_bytes_numeral)
  then show ?thesis by (simp add: wire_tx_locktime)
qed

lemma TransactionData_cong:
  assumes "version t = version t'" "locktime t = locktime t'"
    "map (\<lambda>i. dbytes (TransactionInputData i)) (inputs t) = map (\<lambda>i. dbytes (TransactionInputData i)) (inputs t')"
    "map (\<lambda>i. dbytes (TransactionInputWitnessData i)) (inputs t) = map (\<lambda>i. dbytes (TransactionInputWitnessData i)) (inputs t')"
    "map witnessStack (inputs t) = map witnessStack (inputs t')"
    "map (\<lambda>x. dbytes (TransactionOutputData x)) (outputs t) = map (\<lambda>x. dbytes (TransactionOutputData x)) (outputs t')"
  shows "dbytes (TransactionData t) = dbytes (TransactionData t')"
proof -
  have "list_ex (\<lambda>w. 0 < length w) (map witnessStack xs) = list_ex (\<lambda>i. 0 < length (witnessStack i)) xs" for xs
    by (simp add: list_ex_iff)
  then have "TransactionHasWitnessData t = TransactionHasWitnessData t'"
    unfolding TransactionHasWitnessData_def using assms(5) by metis
  moreover have "tx_body t = tx_body t'" "tx_witnesses t = tx_witnesses t'"
    unfolding tx_body_def tx_witnesses_def using assms(3,4,6) map_eq_imp_length_eq by metis+
  ultimately show ?thesis using assms(1,2) by (simp only: TransactionData_bytes)
qed

lemma wire_tx_data: "TransactionData (wire_tx t) = TransactionData t"
  by (rule data_eqI) (simp_all only: TransactionData_bytes wire_tx_same tx_not_null not_False_eq_True)

text \<open>
  C1. Writing a transaction and parsing the bytes gives the transaction back, up to what the
  wire does not carry (heights, funding outputs and caches are reset, witness flags are derived
  anew); encoding the result again gives the same bytes, and so the same transaction id and
  witness id. The condition excludes the counts and lengths 253 to 255, which the variable-length
  encoder gets wrong, and transactions without inputs, which collide with the segwit marker.
\<close>

theorem transaction_roundtrip:
  assumes "tx_ok t"
  shows "TransactionNew (TransactionData t) = Inr (wire_tx t)
    \<and> TransactionData (wire_tx t) = TransactionData t
    \<and> TransactionTxid (wire_tx t) = TransactionTxid t \<and> TransactionWtxid (wire_tx t) = TransactionWtxid t"
proof -
  have "dbytes (TransactionTx (wire_tx t)) = dbytes (TransactionTx t)"
    by (simp only: TransactionTx_bytes wire_tx_same)
  then have "TransactionTx (wire_tx t) = TransactionTx t" "TransactionWtx (wire_tx t) = TransactionWtx t"
    by (auto intro!: data_eqI simp: TransactionWtx_bytes tx_not_null wire_tx_data)
  then show ?thesis
    using wire_tx_parse [OF assms] wire_tx_data by (simp add: TransactionTxid_def TransactionWtxid_def)
qed

theorem transaction_roundtrip_witness:
  "TransactionNew (TransactionData (TransactionAddOutput (TransactionAddInput TransactionEmpty
      (Bytes (replicate 32 7)) 1 DataNull 0) (Bytes [0x51]) 5000))
    = Inr (wire_tx (TransactionAddOutput (TransactionAddInput TransactionEmpty
      (Bytes (replicate 32 7)) 1 DataNull 0) (Bytes [0x51]) 5000))"
proof -
  let ?t = "TransactionAddOutput (TransactionAddInput TransactionEmpty
      (Bytes (replicate 32 7)) 1 DataNull 0) (Bytes [0x51]) 5000"
  have "tx_ok ?t"
    by (simp add: tx_ok_def input_ok_def output_ok_def wire_len_def TransactionAddInput_def
        TransactionAddOutput_def TransactionEmpty_def input_zero_def output_zero_def)
  then show ?thesis using transaction_roundtrip [of ?t] by simp
qed

text \<open>
  The parser refuses bytes after the end of a transaction (it aborts the process), but it
  accepts a transaction whose last bytes are missing: cut inside the lock time it reads as the
  same transaction with lock time 0.
\<close>

lemma transaction_parse_ends:
  assumes "tx_ok t" "extra \<noteq> []" "1 \<le> k" "k \<le> 4"
  shows "TransactionNew (Bytes (dbytes (TransactionData t) @ extra)) = Inl Abort
    \<and> TransactionNew (Bytes (take (dlength (TransactionData t) - k) (dbytes (TransactionData t))))
       = Inr ((wire_tx t)\<lparr>locktime := 0\<rparr>)"
proof -
  let ?pre = "le_bytes 4 (version t) @ (if TransactionHasWitnessData t then [0, 1] else []) @ tx_body t
      @ (if TransactionHasWitnessData t then tx_witnesses t else [])"
  have enc: "dbytes (TransactionData t) = ?pre @ le_bytes 4 (locktime t)" by (simp only: TransactionData_bytes append_assoc)
  have "TransactionNew (Bytes (?pre @ le_bytes 4 (locktime t) @ extra)) = Inl Abort"
    using TransactionNew_body [OF assms(1), of "le_bytes 4 (locktime t) @ extra"] assms(2)
    by (simp add: readP_write del: le_bytes_numeral)
  moreover have "take (length (?pre @ le_bytes 4 (locktime t)) - k) (?pre @ le_bytes 4 (locktime t))
      = ?pre @ take (4 - k) (le_bytes 4 (locktime t))"
    by (rule take_cut) (use assms(4) in simp_all)
  moreover have "uint32readP (take (4 - k) (le_bytes 4 (locktime t))) = (0, [])"
    using assms(3,4) by (simp add: uint32readP_def read_le_def del: le_bytes_numeral)
  ultimately show ?thesis
    unfolding enc using TransactionNew_body [OF assms(1), of "take (4 - k) (le_bytes 4 (locktime t))"]
    by (simp only: append_assoc) simp
qed

end
