(* ===== verification/Transaction_Order.thy ===== *)
theory Transaction_Order
  imports Transaction_Props "HOL-Library.Product_Lexorder"
begin

text \<open>
  Facts on whole transactions that do not concern parsing: copies, the canonical ordering of
  inputs and outputs, the classification of inputs by their funding script, and the message a
  segwit signature commits to.
\<close>

section \<open>Copies\<close>

lemma set_witness_flag_fields [simp]:
  "fundingOutput (set_witness_flag i) = fundingOutput i"
  "previousTransactionHash (set_witness_flag i) = previousTransactionHash i"
  "outputIndex (set_witness_flag i) = outputIndex i"
  "scriptData (set_witness_flag i) = scriptData i"
  "sequence (set_witness_flag i) = sequence i"
  "witnessStack (set_witness_flag i) = witnessStack i"
  by (simp_all add: set_witness_flag_def Let_def)

lemma map_zip_fst:
  "length xs = length ys \<Longrightarrow> (\<And>a b. g (f (a, b)) = g a) \<Longrightarrow> map g (map f (zip xs ys)) = map g xs"
  by (induction xs ys rule: list_induct2) simp_all

text \<open>
  Copying a transaction succeeds and gives one with the same bytes, the same funding outputs
  and empty caches; the cached height is not copied but reset to 0.
\<close>

lemma transaction_copy:
  assumes "tx_ok t"
  shows "\<exists>r. TransactionCopy t = Inr r \<and> TransactionData r = TransactionData t
    \<and> map fundingOutput (inputs r) = map fundingOutput (inputs t)
    \<and> (\<forall>i \<in> set (inputs r). in_pushDataSet i = DictNew) \<and> tx_height r = 0"
proof -
  let ?f = "\<lambda>(new :: tx_input, old :: tx_input). new\<lparr>fundingOutput := (fundingOutput old)\<lparr>out_script := DataCopyData (out_script (fundingOutput old))\<rparr>,
      in_pushDataSet := DictNew\<rparr>"
  let ?r = "(wire_tx t)\<lparr>inputs := map ?f (zip (inputs (wire_tx t)) (inputs t))\<rparr>"
  have len: "length (inputs (wire_tx t)) = length (inputs t)" by (simp add: wire_tx_def)
  have copy: "TransactionCopy t = Inr ?r"
    using wire_tx_parse [OF assms] len by (simp add: TransactionCopy_def)
  have fo: "map fundingOutput (map ?f (zip xs ys)) = map fundingOutput ys" if "length xs = length ys" for xs ys
    using that by (induction xs ys rule: list_induct2) simp_all
  have same: "dbytes (TransactionInputData (?f (a, b))) = dbytes (TransactionInputData a)"
      "dbytes (TransactionInputWitnessData (?f (a, b))) = dbytes (TransactionInputWitnessData a)"
      "witnessStack (?f (a, b)) = witnessStack a" for a b
    by (simp_all add: TransactionInputData_bytes witness_bytes del: le_bytes_numeral)
  have "dbytes (TransactionData ?r) = dbytes (TransactionData (wire_tx t))"
    using map_zip_fst [OF len, of "\<lambda>i. dbytes (TransactionInputData i)" ?f]
      map_zip_fst [OF len, of "\<lambda>i. dbytes (TransactionInputWitnessData i)" ?f] map_zip_fst [OF len, of witnessStack ?f] same
    by (intro TransactionData_cong) simp_all
  then have "TransactionData ?r = TransactionData (wire_tx t)" by (intro data_eqI) (simp_all add: tx_not_null)
  moreover have "TransactionData (wire_tx t) = TransactionData t" by (rule wire_tx_data)
  moreover have "tx_height ?r = 0" by (simp add: wire_tx_def TransactionEmpty_def)
  moreover have "\<forall>i \<in> set (inputs ?r). in_pushDataSet i = DictNew" by auto
  moreover have "map fundingOutput (inputs ?r) = map fundingOutput (inputs t)" using fo len by simp
  ultimately show ?thesis using copy by simp
qed

section \<open>Canonical order\<close>

definition input_key :: "tx_input \<Rightarrow> bytes \<times> u32" where
  "input_key i = (rev (dbytes (previousTransactionHash i)), outputIndex i)"

definition output_key :: "tx_output \<Rightarrow> u64 \<times> bytes" where
  "output_key x = (out_value x, dbytes (out_script x))"

definition sortable_input :: "tx_input \<Rightarrow> bool" where
  "sortable_input i \<longleftrightarrow> small_data (previousTransactionHash i) \<and> unat (outputIndex i) < 2 ^ 31"

definition sortable_output :: "tx_output \<Rightarrow> bool" where
  "sortable_output x \<longleftrightarrow> small_data (out_script x)"

lemma small_data_rev: "small_data (Bytes (rev bs)) \<longleftrightarrow> small_data (Bytes bs)"
  by (simp add: small_data_def)

lemma lex_cmp:
  fixes c d :: int and a b :: "'a::linorder" and p q :: "'b::linorder"
  assumes "c < 0 \<longleftrightarrow> a < b" "c = 0 \<longleftrightarrow> a = b" "d \<le> 0 \<longleftrightarrow> p \<le> q"
  shows "(if c = 0 then d else c) \<le> 0 \<longleftrightarrow> (a, p) \<le> (b, q)"
proof (cases "c = 0")
  case True
  then show ?thesis using assms by simp
next
  case False
  then have "c \<le> 0 \<longleftrightarrow> a < b" "a \<noteq> b" using assms by auto
  then show ?thesis using False by auto
qed

interpretation input_order: comparison inputSorter input_key sortable_input
proof
  fix x y :: tx_input
  assume ok: "sortable_input x" "sortable_input y"
  let ?a = "Bytes (rev (dbytes (previousTransactionHash x)))" and ?b = "Bytes (rev (dbytes (previousTransactionHash y)))"
  have small: "small_data ?a" "small_data ?b" using ok by (simp_all add: sortable_input_def small_data_def)
  have "sint (outputIndex x - outputIndex y) = int (unat (outputIndex x)) - int (unat (outputIndex y))"
    using sint_diff_small [of "unat (outputIndex x)" "unat (outputIndex y)"] ok by (simp add: sortable_input_def)
  then have idx: "sint (outputIndex x - outputIndex y) \<le> 0 \<longleftrightarrow> outputIndex x \<le> outputIndex y"
    by (simp add: word_le_def)
  show "inputSorter x y \<le> 0 \<longleftrightarrow> input_key x \<le> input_key y"
    unfolding inputSorter_def input_key_def Let_def DataFlipEndianCopy_rev
    by (rule lex_cmp) (use idx in \<open>simp_all add: DataCompare_iffs [OF small]\<close>)
qed

interpretation output_order: comparison outputSorter output_key sortable_output
proof
  fix x y :: tx_output
  assume "sortable_output x" "sortable_output y"
  then have "DataCompare (out_script x) (out_script y) \<le> 0 \<longleftrightarrow> dbytes (out_script x) \<le> dbytes (out_script y)"
    by (intro data_order.cmp_le) (simp_all add: sortable_output_def)
  then show "outputSorter x y \<le> 0 \<longleftrightarrow> output_key x \<le> output_key y"
    by (auto simp: outputSorter_def output_key_def Let_def less_eq_prod_def)
qed

text \<open>
  \<open>TransactionSort\<close> rearranges inputs and outputs into the order of BIP 69: inputs by the
  reversed previous transaction hash and the output index, outputs by amount and script. It is
  stated for output indices below \<open>2 ^ 31\<close>, since the comparison reads their 32-bit difference as
  a signed number.
\<close>

lemma bip69_sorted:
  assumes "\<forall>i \<in> set (inputs t). sortable_input i" "\<forall>x \<in> set (outputs t). sortable_output x"
  shows "mset (inputs (TransactionSort t)) = mset (inputs t) \<and> mset (outputs (TransactionSort t)) = mset (outputs t)
    \<and> sorted (map input_key (inputs (TransactionSort t))) \<and> sorted (map output_key (outputs (TransactionSort t)))"
  using assms
  by (simp add: TransactionSort_def input_order.mset_qsort output_order.mset_qsort
      input_order.sorted_qsort output_order.sorted_qsort)

lemma output_bytes_of_key: "output_key x = output_key y \<Longrightarrow> dbytes (TransactionOutputData x) = dbytes (TransactionOutputData y)"
  by (simp add: output_key_def TransactionOutputData_bytes del: le_bytes_numeral)

lemma sort_keys_cong: "mset xs = mset ys \<Longrightarrow> sort (map key xs) = sort (map key ys)"
  by (rule properties_for_sort) simp_all

lemma map_eq_of_key:
  assumes "\<And>x y. key x = key y \<Longrightarrow> f x = f y" and eq: "map key xs = map key ys"
  shows "map f xs = map f ys"
proof (rule nth_equalityI)
  show len: "length (map f xs) = length (map f ys)" using map_eq_imp_length_eq [OF eq] by simp
  fix i
  assume i: "i < length (map f xs)"
  then have "key (xs ! i) = key (ys ! i)" using arg_cong [OF eq, of "\<lambda>l. l ! i"] len by simp
  then show "map f xs ! i = map f ys ! i" using i len assms(1) [of "xs ! i" "ys ! i"] by simp
qed

text \<open>
  After sorting, the bytes of a transaction, and with them its id, no longer depend on the
  order in which inputs and outputs were added, provided no two inputs spend the same output.
\<close>

lemma bip69_canonical:
  assumes "\<forall>i \<in> set (inputs t). sortable_input i" "\<forall>x \<in> set (outputs t). sortable_output x"
    and "inj_on input_key (set (inputs t))"
    and "mset (inputs t) = mset (inputs t')" "mset (outputs t) = mset (outputs t')"
    and "version t = version t'" "locktime t = locktime t'"
  shows "TransactionData (TransactionSort t) = TransactionData (TransactionSort t')
    \<and> TransactionTxid (TransactionSort t) = TransactionTxid (TransactionSort t')"
proof -
  have sets: "set (inputs t') = set (inputs t)" "set (outputs t') = set (outputs t)"
    using assms(4,5) by (metis set_mset_mset)+
  have "map input_key (qsort inputSorter (inputs t)) = map input_key (qsort inputSorter (inputs t'))"
    using assms(1,4) sets by (simp add: input_order.keys_qsort sort_keys_cong [of "inputs t"])
  then have ins: "qsort inputSorter (inputs t) = qsort inputSorter (inputs t')"
    using assms(3) sets by (auto simp: input_order.set_qsort intro: map_inj_on)
  have "map output_key (qsort outputSorter (outputs t)) = map output_key (qsort outputSorter (outputs t'))"
    using assms(2,5) sets by (simp add: output_order.keys_qsort sort_keys_cong [of "outputs t"])
  then have outs: "map (\<lambda>x. dbytes (TransactionOutputData x)) (qsort outputSorter (outputs t))
      = map (\<lambda>x. dbytes (TransactionOutputData x)) (qsort outputSorter (outputs t'))"
    by (rule map_eq_of_key [rotated]) (rule output_bytes_of_key)
  have "dbytes (TransactionData (TransactionSort t)) = dbytes (TransactionData (TransactionSort t'))"
    by (rule TransactionData_cong) (use ins outs assms(6,7) in \<open>simp_all add: TransactionSort_def\<close>)
  moreover have "length (qsort outputSorter (outputs t)) = length (qsort outputSorter (outputs t'))"
    using outs map_eq_imp_length_eq by blast
  ultimately have "dbytes (TransactionTx (TransactionSort t)) = dbytes (TransactionTx (TransactionSort t'))"
    using ins outs assms(6,7) by (simp add: TransactionTx_bytes tx_body_def TransactionSort_def)
  then show ?thesis
    using \<open>dbytes (TransactionData (TransactionSort t)) = _\<close> data_eqI tx_not_null
    by (metis TransactionTxid_def)
qed

section \<open>Kinds of inputs\<close>

lemma small_push: "n < 76 \<Longrightarrow> dlength h = n \<Longrightarrow> dbytes (scriptPush h) = of_nat n # dbytes h"
  by (simp add: scriptPush_bytes pushData_bytes unat_of_nat_small ucast_of_nat_small)

lemma template_bytes:
  "dlength h = 20 \<Longrightarrow> dbytes (p2shPubScript h) = [OP_HASH160, 20] @ dbytes h @ [OP_EQUAL]"
  "dlength h = 20 \<Longrightarrow> dbytes (p2pkhPubScript h) = [OP_DUP, OP_HASH160, 20] @ dbytes h @ [OP_EQUALVERIFY, OP_CHECKSIG]"
  "dlength h = 20 \<Longrightarrow> dbytes (p2wpkhPubScript h) = [0, 20] @ dbytes h"
  "dlength h = 32 \<Longrightarrow> dbytes (p2wshPubScript h) = [0, 32] @ dbytes h"
  using small_push [of 20 h] small_push [of 32 h]
  by (auto simp: p2shPubScript_def p2pkhPubScript_def p2wpkhPubScript_def p2wshPubScript_def uint8D_def DataNew_def)

lemma list_parts:
  "length s = p + n + q \<Longrightarrow> s = take p s @ take n (drop p s) @ drop (p + n) s"
  by (simp add: add.commute flip: drop_drop)

lemma list_take2: "2 \<le> length s \<Longrightarrow> take 2 s = [s ! 0, s ! 1]"
  by (rule nth_equalityI) (auto simp: less_Suc_eq numeral_2_eq_2)

lemma list_take3: "3 \<le> length s \<Longrightarrow> take 3 s = [s ! 0, s ! 1, s ! 2]"
  by (rule nth_equalityI) (auto simp: less_Suc_eq numeral_3_eq_3 numeral_2_eq_2)

lemma list_drop1: "length s = Suc n \<Longrightarrow> drop n s = [s ! n]"
  by (rule nth_equalityI) auto

lemma list_drop2: "length s = n + 2 \<Longrightarrow> drop n s = [s ! n, s ! (n + 1)]"
  by (rule nth_equalityI) (auto simp: less_Suc_eq numeral_2_eq_2)

lemma p2sh_exact: "(\<exists>h. dlength h = 20 \<and> s = dbytes (p2shPubScript h))
    \<longleftrightarrow> length s = 23 \<and> s ! 0 = OP_HASH160 \<and> s ! 1 = 20 \<and> s ! 22 = OP_EQUAL" (is "_ \<longleftrightarrow> ?r")
proof
  assume r: ?r
  then have "s = dbytes (p2shPubScript (Bytes (take 20 (drop 2 s))))"
    using list_parts [of s 2 20 1] list_take2 [of s] list_drop1 [of s 22] by (simp add: template_bytes)
  then show "\<exists>h. dlength h = 20 \<and> s = dbytes (p2shPubScript h)"
    using r by (intro exI [of _ "Bytes (take 20 (drop 2 s))"]) simp
qed (auto simp: template_bytes nth_append)

lemma p2pkh_exact: "(\<exists>h. dlength h = 20 \<and> s = dbytes (p2pkhPubScript h))
    \<longleftrightarrow> s ! 0 = OP_DUP \<and> length s = 25 \<and> s ! 1 = OP_HASH160 \<and> s ! 2 = 20 \<and> s ! 23 = OP_EQUALVERIFY
      \<and> s ! 24 = OP_CHECKSIG" (is "_ \<longleftrightarrow> ?r")
proof
  assume r: ?r
  then have "s = dbytes (p2pkhPubScript (Bytes (take 20 (drop 3 s))))"
    using list_parts [of s 3 20 2] list_take3 [of s] list_drop2 [of s 23] by (simp add: template_bytes)
  then show "\<exists>h. dlength h = 20 \<and> s = dbytes (p2pkhPubScript h)"
    using r by (intro exI [of _ "Bytes (take 20 (drop 3 s))"]) simp
qed (auto simp: template_bytes nth_append)

lemma p2wpkh_exact: "(\<exists>h. dlength h = 20 \<and> s = dbytes (p2wpkhPubScript h)) \<longleftrightarrow> s ! 0 = 0 \<and> length s = 22 \<and> s ! 1 = 20"
  (is "_ \<longleftrightarrow> ?r")
proof
  assume r: ?r
  then have "s = dbytes (p2wpkhPubScript (Bytes (drop 2 s)))"
    using append_take_drop_id [of 2 s] list_take2 [of s] by (simp add: template_bytes)
  then show "\<exists>h. dlength h = 20 \<and> s = dbytes (p2wpkhPubScript h)"
    using r by (intro exI [of _ "Bytes (drop 2 s)"]) simp
qed (auto simp: template_bytes)

lemma p2wsh_exact: "(\<exists>h. dlength h = 32 \<and> s = dbytes (p2wshPubScript h)) \<longleftrightarrow> s ! 0 = 0 \<and> length s = 34 \<and> s ! 1 = 32"
  (is "_ \<longleftrightarrow> ?r")
proof
  assume r: ?r
  then have "s = dbytes (p2wshPubScript (Bytes (drop 2 s)))"
    using append_take_drop_id [of 2 s] list_take2 [of s] by (simp add: template_bytes)
  then show "\<exists>h. dlength h = 32 \<and> s = dbytes (p2wshPubScript h)"
    using r by (intro exI [of _ "Bytes (drop 2 s)"]) simp
qed (auto simp: template_bytes)

text \<open>
  The classification of an input by its funding script is exact: it answers pay-to-script-hash,
  pay-to-pubkey-hash, pay-to-witness-pubkey-hash or pay-to-witness-script-hash precisely on the
  scripts that the corresponding template builds from a hash of the right size.
\<close>

lemma input_type_exact:
  "(TransactionInputType i = PayToScriptHash
      \<longleftrightarrow> (\<exists>h. dlength h = 20 \<and> dbytes (out_script (fundingOutput i)) = dbytes (p2shPubScript h)))
   \<and> (TransactionInputType i = PayToPubkeyHash
      \<longleftrightarrow> (\<exists>h. dlength h = 20 \<and> dbytes (out_script (fundingOutput i)) = dbytes (p2pkhPubScript h)))
   \<and> (TransactionInputType i = PayToPubkeyWitness
      \<longleftrightarrow> (\<exists>h. dlength h = 20 \<and> dbytes (out_script (fundingOutput i)) = dbytes (p2wpkhPubScript h)))
   \<and> (TransactionInputType i = PayToScriptWitness
      \<longleftrightarrow> (\<exists>h. dlength h = 32 \<and> dbytes (out_script (fundingOutput i)) = dbytes (p2wshPubScript h)))"
  unfolding p2sh_exact p2pkh_exact p2wpkh_exact p2wsh_exact TransactionInputType_def Let_def
  by (auto simp: op_defs)

section \<open>What a segwit signature commits to\<close>

definition bip143_preimage :: "transaction \<Rightarrow> nat \<Rightarrow> bytes \<Rightarrow> u64 \<Rightarrow> bytes" where
  "bip143_preimage t i script val =
     (let H = (\<lambda>bs. sha256_spec (sha256_spec bs)); inp = inputs t ! i in
      le_bytes 4 (version t)
      @ H (concat (map (\<lambda>i. dbytes (previousTransactionHash i) @ le_bytes 4 (outputIndex i)) (inputs t)))
      @ H (concat (map (\<lambda>i. le_bytes 4 (sequence i)) (inputs t)))
      @ dbytes (previousTransactionHash inp) @ le_bytes 4 (outputIndex inp)
      @ dbytes (varIntD (of_nat (length script))) @ script @ le_bytes 8 val @ le_bytes 4 (sequence inp)
      @ H (concat (map (\<lambda>x. dbytes (TransactionOutputData x)) (outputs t)))
      @ le_bytes 4 (locktime t) @ le_bytes 4 (1::u32))"

lemma fold_outpoints:
  "fold (\<lambda>input d. DataAddCopy (DataAddCopy d (previousTransactionHash input)) (uint32D (outputIndex input))) xs (Bytes bs)
     = Bytes (bs @ concat (map (\<lambda>i. dbytes (previousTransactionHash i) @ le_bytes 4 (outputIndex i)) xs))"
  by (induction xs arbitrary: bs) (simp_all add: DataAddCopy_def uint32D_def del: le_bytes_numeral)

lemma fold_Bytes:
  "fold (\<lambda>x d. DataAddCopy d (f x)) xs (Bytes bs) = Bytes (bs @ concat (map (\<lambda>x. dbytes (f x)) xs))"
  by (induction xs arbitrary: bs) (simp_all add: DataAddCopy_def)

lemma witness_digest_eq:
  assumes "i < length (inputs t)" "out_script (fundingOutput (inputs t ! i)) \<noteq> DataNull"
    "dbytes (scriptData (inputs t ! i)) \<noteq> []"
  shows "TransactionWitnessDigest t i = Bytes (bip143_preimage t i (dbytes (scriptData (inputs t ! i)))
    (out_value (fundingOutput (inputs t ! i))))"
  using assms
  by (simp add: TransactionWitnessDigest_def TransactionWitnessDigestFlexible_def Let_def DataNew_def fold_outpoints
      fold_Bytes del: le_bytes_numeral) (simp add: hash256_Bytes bip143_preimage_def Let_def DataAddCopy_def uintD_defs del: le_bytes_numeral)

lemma witness_digest_null:
  "dbytes (scriptData (inputs t ! i)) = [] \<Longrightarrow> TransactionWitnessDigest t i = DataNull"
  by (simp add: TransactionWitnessDigest_def TransactionWitnessDigestFlexible_def Let_def)

lemma witness_digest_cases:
  "TransactionWitnessDigest t i =
     (if i < length (inputs t) \<and> out_script (fundingOutput (inputs t ! i)) \<noteq> DataNull
        \<and> dbytes (scriptData (inputs t ! i)) \<noteq> []
      then Bytes (bip143_preimage t i (dbytes (scriptData (inputs t ! i))) (out_value (fundingOutput (inputs t ! i))))
      else DataNull)"
  using witness_digest_eq [of i t] witness_digest_null [of t i] by (auto simp: TransactionWitnessDigest_def)


text \<open>What all inputs contribute to the message of one of them.\<close>

definition outpoint_view :: "tx_input \<Rightarrow> bytes \<times> u32 \<times> u32" where
  "outpoint_view i = (dbytes (previousTransactionHash i), outputIndex i, sequence i)"

definition same_signing_view :: "nat \<Rightarrow> transaction \<Rightarrow> transaction \<Rightarrow> bool" where
  "same_signing_view i t t' \<longleftrightarrow> version t = version t' \<and> locktime t = locktime t'
     \<and> map outpoint_view (inputs t) = map outpoint_view (inputs t')
     \<and> map output_key (outputs t) = map output_key (outputs t')
     \<and> (i < length (inputs t) \<longrightarrow> scriptData (inputs t ! i) = scriptData (inputs t' ! i)
          \<and> fundingOutput (inputs t ! i) = fundingOutput (inputs t' ! i))"

lemma witness_digest_cong:
  assumes "same_signing_view i t t'"
  shows "TransactionWitnessDigest t i = TransactionWitnessDigest t' i"
proof (cases "i < length (inputs t)")
  case False
  then show ?thesis
    using assms map_eq_imp_length_eq [of outpoint_view "inputs t" outpoint_view "inputs t'"]
    by (simp add: TransactionWitnessDigest_def same_signing_view_def)
next
  case True
  have v: "map outpoint_view (inputs t) = map outpoint_view (inputs t')"
      "map output_key (outputs t) = map output_key (outputs t')" "version t = version t'" "locktime t = locktime t'"
    using assms by (simp_all add: same_signing_view_def)
  then have len: "length (inputs t') = length (inputs t)" using map_eq_imp_length_eq by metis
  have "map (\<lambda>i. dbytes (previousTransactionHash i) @ le_bytes 4 (outputIndex i)) (inputs t)
      = map (\<lambda>i. dbytes (previousTransactionHash i) @ le_bytes 4 (outputIndex i)) (inputs t')"
    by (rule map_eq_of_key [OF _ v(1)]) (simp add: outpoint_view_def)
  moreover have "map (\<lambda>i. le_bytes 4 (sequence i)) (inputs t) = map (\<lambda>i. le_bytes 4 (sequence i)) (inputs t')"
    by (rule map_eq_of_key [OF _ v(1)]) (simp add: outpoint_view_def)
  moreover have "map (\<lambda>x. dbytes (TransactionOutputData x)) (outputs t) = map (\<lambda>x. dbytes (TransactionOutputData x)) (outputs t')"
    by (rule map_eq_of_key [OF output_bytes_of_key v(2)])
  moreover have "outpoint_view (inputs t ! i) = outpoint_view (inputs t' ! i)"
    using True len arg_cong [OF v(1), of "\<lambda>l. l ! i"] by simp
  ultimately have "bip143_preimage t i s x = bip143_preimage t' i s x" for s x
    using v(3,4) by (simp only: bip143_preimage_def Let_def outpoint_view_def prod.inject)
  then show ?thesis
    using assms True len unfolding same_signing_view_def witness_digest_cases by simp
qed

text \<open>
  The message for a segwit input does not depend on any witness stack, on the scripts of the
  other inputs, on caches or on the cached height, so that signatures can be added to the inputs
  in any order.
\<close>

lemma witness_digest_independent:
  assumes "i < length (inputs t)"
  shows "TransactionWitnessDigest (t\<lparr>inputs := map (\<lambda>inp. inp\<lparr>witnessStack := W inp, witnessFlag := F inp, in_pushDataSet := P inp\<rparr>)
        (map2 (\<lambda>j inp. if j = i then inp else inp\<lparr>scriptData := S j\<rparr>) [0..<length (inputs t)] (inputs t)), tx_height := h\<rparr>) i
    = TransactionWitnessDigest t i"
proof (rule witness_digest_cong)
  have "map outpoint_view (map2 (\<lambda>j inp. if j = i then inp else inp\<lparr>scriptData := S j\<rparr>) [0..<length (inputs t)] (inputs t))
      = map outpoint_view (inputs t)"
    by (intro nth_equalityI) (auto simp: outpoint_view_def)
  then show "same_signing_view i (t\<lparr>inputs := map (\<lambda>inp. inp\<lparr>witnessStack := W inp, witnessFlag := F inp, in_pushDataSet := P inp\<rparr>)
        (map2 (\<lambda>j inp. if j = i then inp else inp\<lparr>scriptData := S j\<rparr>) [0..<length (inputs t)] (inputs t)), tx_height := h\<rparr>) t"
    using assms by (simp add: same_signing_view_def outpoint_view_def comp_def)
qed

end
