(* ===== verification/Signing_Props.thy ===== *)
theory Signing_Props
  imports Signing Transaction_Order
begin

text \<open>
  What signing and validation achieve: signatures made with a private key verify under its public
  key, what the validation of witness stacks accepts, how signatures are brought into key order,
  and that the queries leave the transaction as they found it.
\<close>

section \<open>The curve library\<close>

text \<open>
  Documented behaviour of libsecp256k1 on a valid private key: the public key serialises in
  both forms and parses back, signing a 32 byte message gives a 64 byte signature that verifies,
  and a signature serialises as DER text of at most 72 bytes that parses back.
\<close>

definition ecc_correct :: "ecc \<Rightarrow> bool" where
  "ecc_correct E \<longleftrightarrow> (\<forall>k P. length k = 32 \<longrightarrow> ec_pubkey_create E k = Some P \<longrightarrow>
     length P = 64
     \<and> (\<exists>c. ec_pubkey_serialize E P True = Some c \<and> length c = 33 \<and> ec_pubkey_parse E c = Some P)
     \<and> (\<exists>u. ec_pubkey_serialize E P False = Some u \<and> length u = 65 \<and> ec_pubkey_parse E u = Some P)
     \<and> (\<forall>m. length m = 32 \<longrightarrow> (\<exists>s d. ecdsa_sign E m k = Some s \<and> length s = 64 \<and> ecdsa_verify E s m P
          \<and> signature_serialize_der E s = Some d \<and> length d \<le> 72 \<and> signature_parse_der E d = Some s)))"

text \<open>A concrete instance that shows the assumptions can be met.\<close>

definition toy_ecc :: ecc where
  "toy_ecc = \<lparr>ec_pubkey_create = (\<lambda>k. Some (k @ k)),
     ec_pubkey_parse = (\<lambda>c. if length c = 33 then Some (drop 1 c @ drop 1 c)
       else if length c = 65 then Some (drop 1 c) else None),
     ec_pubkey_serialize = (\<lambda>P c. Some (if c then 2 # take 32 P else 4 # P)),
     ecdsa_sign = (\<lambda>m k. Some (m @ k)),
     ecdsa_verify = (\<lambda>s m P. s = m @ take 32 P),
     signature_parse_der = (\<lambda>d. if length d = 70 then Some (take 64 d) else None),
     signature_serialize_der = (\<lambda>s. Some (s @ replicate 6 0)),
     signature_parse_compact = (\<lambda>s. Some s), signature_serialize_compact = (\<lambda>s. Some s),
     signature_normalize = (\<lambda>s. s),
     ec_privkey_tweak_add = (\<lambda>k t. Some (map2 (+) k t)), ec_privkey_tweak_mul = (\<lambda>k t. Some k),
     ec_pubkey_tweak_add = (\<lambda>P t. Some (map2 (+) P (t @ t))), ec_pubkey_tweak_mul = (\<lambda>P t. Some P),
     ec_pubkey_combine = (\<lambda>P Q. Some (map2 (+) P Q)), ecdh = (\<lambda>P k. Some k)\<rparr>"

lemma toy_ecc_correct: "ecc_correct toy_ecc"
  by (simp add: ecc_correct_def toy_ecc_def)

lemma pubKey_facts:
  assumes "ecc_correct E" "dlength k = 32" "pubKey E k \<noteq> DataNull"
  obtains P c where "ec_pubkey_create E (dbytes k) = Some P" "length P = 64" "pubKey E k = Bytes c"
    "length c = 33" "publicKeyParse E (Bytes c) = Bytes P" "publicKeyCompress E (Bytes P) = Bytes c"
proof -
  obtain P where P: "ec_pubkey_create E (dbytes k) = Some P"
    using assms(2,3)
    by (auto simp: pubKey_def publicKeyCompress_def publicKeySerialize_def publicKeyFromPrivate_def opt_data_def
        split: option.splits if_splits)
  moreover obtain c where "length P = 64" "ec_pubkey_serialize E P True = Some c" "length c = 33" "ec_pubkey_parse E c = Some P"
    using assms(1,2) P unfolding ecc_correct_def by blast
  moreover from this have "publicKeyParse E (Bytes c) = Bytes P"
    by (simp add: publicKeyParse_def opt_data_def)
  moreover have "publicKeyCompress E (Bytes P) = Bytes c" if "length P = 64" "ec_pubkey_serialize E P True = Some c"
    using that by (simp add: publicKeyCompress_def publicKeySerialize_def opt_data_def)
  moreover have "pubKey E k = Bytes c" if "length P = 64" "ec_pubkey_serialize E P True = Some c"
    using that P assms(2) by (simp add: pubKey_def publicKeyFromPrivate_def publicKeyCompress_def publicKeySerialize_def opt_data_def)
  ultimately show ?thesis using that by blast
qed

lemma signAll_verifies:
  assumes "ecc_correct E" "dlength k = 32" "pubKey E k \<noteq> DataNull" "msg \<noteq> DataNull" "dlength (signAll E msg k) \<noteq> 64"
  shows "verify E (signAll E msg k) msg (pubKey E k)"
proof -
  obtain P c where P: "ec_pubkey_create E (dbytes k) = Some P" "length P = 64" "pubKey E k = Bytes c"
      "publicKeyParse E (Bytes c) = Bytes P"
    by (rule pubKey_facts [OF assms(1-3)])
  obtain mb where "msg = Bytes mb" using assms(4) by (cases msg) auto
  then obtain m where m: "hash256 msg = Bytes m" "length m = 32"
    by (simp add: hash256_Bytes length_sha256_spec)
  obtain s d where s: "ecdsa_sign E m (dbytes k) = Some s" "length s = 64" "ecdsa_verify E s m P"
      "signature_serialize_der E s = Some d" "signature_parse_der E d = Some s"
    using assms(1,2) P(1) m(2) unfolding ecc_correct_def by blast
  have sig: "signAll E msg k = Bytes (d @ [1])"
    using m s assms(2) by (simp add: signAll_def sign_def signatureCreate_def signatureDER_def opt_data_def)
  then have "length d \<noteq> 63" using assms(5) by simp
  then have "signatureParse E (signAll E msg k) = Bytes s"
    using sig s(5) by (simp add: signatureParse_def opt_data_def)
  then show ?thesis
    using sig assms(5) m s P by (simp add: verify_def signatureVerify_def)
qed

text \<open>
  A signature that \<open>signAll\<close> makes with a private key verifies for the same message under the
  public key of that private key, for every curve library that behaves as documented. The one
  exception is a signature whose text with its type byte has exactly 64 bytes: \<open>verify\<close> takes it
  for the library's internal form.
\<close>

lemma sign_then_verify:
  assumes "ecc_correct E" "dlength k = 32" "pubKey E k \<noteq> DataNull" "msg \<noteq> DataNull"
    and "dlength (signAll E msg k) \<noteq> 64"
  shows "verify E (signAll E msg k) msg (pubKey E k)"
  using assms by (rule signAll_verifies)

lemma toy_sign: "dlength k = 32 \<Longrightarrow> msg \<noteq> DataNull \<Longrightarrow> dlength (signAll toy_ecc msg k) = 71"
  by (cases msg) (simp_all add: signAll_def sign_def signatureCreate_def signatureDER_def opt_data_def toy_ecc_def hash256_Bytes
      length_sha256_spec)

lemma toy_pubKey: "length k = 32 \<Longrightarrow> pubKey toy_ecc (Bytes k) = Bytes (2 # k)"
  by (simp add: pubKey_def publicKeyFromPrivate_def publicKeyCompress_def publicKeySerialize_def opt_data_def toy_ecc_def)

section \<open>Validation of script witnesses\<close>

lemma valid_token_quiet:
  "\<not> is_checksig (op (T ! j)) \<Longrightarrow> \<not> is_checkmultisig (op (T ! j)) \<Longrightarrow> valid_token E T stack digest j"
  by (simp add: valid_token_def)

definition matches_of :: "ecc \<Rightarrow> data \<Rightarrow> datas \<Rightarrow> datas \<Rightarrow> nat" where
  "matches_of E digest sigs keys = sum_list (map (\<lambda>k. length (filter (\<lambda>s. verify E s digest (Bytes (dbytes k))) sigs)) keys)"

lemma valid_multisig_at:
  fixes pre :: "script_token list" and ks :: datas
  defines "T \<equiv> pre @ map item_token (multisig_items ks)"
  assumes "ks \<noteq> []" "length ks \<le> 16" "\<forall>k \<in> set ks. key_ok k"
  shows "valid_checkmultisig E T (sigs @ [script]) digest (length pre + length ks + 2)
    \<longleftrightarrow> pre \<noteq> [] \<and> matches_of E digest sigs ks = sigs_needed (length ks)"
proof -
  let ?n = "length ks" and ?j = "length pre + length ks + 2"
  note nth = multisig_tokens_nth [where pre = pre and ks = ks, folded T_def]
  have n: "0 < ?n" "?n \<le> 16" using assms by auto
  have m: "0 < sigs_needed ?n" "sigs_needed ?n \<le> 16" using sigs_needed_bounds [OF n(1)] n by auto
  have num: "op_number (op (T ! (?j - 1))) = int ?n" using nth(3) number_op_token(1) [OF n] by simp
  have sigs: "op_number (op (T ! (?j - 2 - ?n))) = int (sigs_needed ?n)"
    using nth(1) number_op_token(1) [OF m] by simp
  have key: "tdata (T ! (?j - 2 - k)) = Bytes (dbytes (ks ! (?n - 1 - k)))" if "k < ?n" for k
  proof -
    have "?j - 2 - k = length pre + 1 + (?n - 1 - k)" using that by simp
    then show ?thesis using nth(2) [of "?n - 1 - k"] that push_token(2) assms(4) by simp
  qed
  have keys: "map (\<lambda>k. tdata (T ! (?j - 2 - k))) [0..<?n] = rev (map (\<lambda>k. Bytes (dbytes k)) ks)"
    by (rule nth_equalityI) (use key in \<open>simp_all add: rev_nth\<close>)
  have "int (sum_list (map (\<lambda>key. length (filter (\<lambda>s. verify E s digest key) sigs)) (rev (map (\<lambda>k. Bytes (dbytes k)) ks))))
      = int (matches_of E digest sigs ks)"
    by (simp only: matches_of_def rev_map [symmetric] map_map sum_list_rev comp_def)
  then show ?thesis
    unfolding valid_checkmultisig_def Let_def num sigs nat_int keys using n m by auto
qed

lemma multisig_tokens_quiet:
  fixes pre :: "script_token list" and ks :: datas
  assumes "ks \<noteq> []" "length ks \<le> 16" "\<forall>k \<in> set ks. key_ok k"
    and "length pre \<le> j" "j < length pre + length ks + 2"
  shows "\<not> is_checksig (op ((pre @ map item_token (multisig_items ks)) ! j))
    \<and> \<not> is_checkmultisig (op ((pre @ map item_token (multisig_items ks)) ! j))"
proof -
  let ?T = "pre @ map item_token (multisig_items ks)" and ?n = "length ks" and ?p = "length pre"
  note nth = multisig_tokens_nth [where pre = pre and ks = ks]
  have n: "0 < ?n" "?n \<le> 16" using assms by auto
  have m: "0 < sigs_needed ?n" "sigs_needed ?n \<le> 16" using sigs_needed_bounds [OF n(1)] n by auto
  consider "j = ?p" | k where "k < ?n" "j = ?p + 1 + k" | "j = ?p + ?n + 1"
  proof (cases "j = ?p \<or> j = ?p + ?n + 1")
    case False
    then have "j - ?p - 1 < ?n" "j = ?p + 1 + (j - ?p - 1)" using assms(4,5) by auto
    then show ?thesis using that by blast
  qed (use that in auto)
  then show ?thesis
  proof cases
    case 1
    then show ?thesis using nth(1) number_op_token(5,6) [OF m] by simp
  next
    case (2 k)
    then show ?thesis using nth(2) [of k] push_token(3,4) [of "ks ! k"] assms(3) by simp
  next
    case 3
    then show ?thesis using nth(3) number_op_token(5,6) [OF n] by simp
  qed
qed

lemma valid_tokens_multisig:
  fixes pre :: "script_token list" and ks :: datas
  defines "T \<equiv> pre @ map item_token (multisig_items ks)"
  assumes "ks \<noteq> []" "length ks \<le> 16" "\<forall>k \<in> set ks. key_ok k"
  shows "list_all (valid_token E T (sigs @ [script]) digest) [0..<length T]
    \<longleftrightarrow> list_all (valid_token E T (sigs @ [script]) digest) [0..<length pre]
      \<and> pre \<noteq> [] \<and> matches_of E digest sigs ks = sigs_needed (length ks)"
proof -
  let ?v = "valid_token E T (sigs @ [script]) digest" and ?p = "length pre" and ?n = "length ks"
  have len: "length T = ?p + ?n + 3" using multisig_tokens_nth(5) [where pre = pre and ks = ks] by (simp add: T_def)
  have "[0..<?p + ?n + 3] = [0..<?p] @ [?p..<?p + ?n + 2] @ [?p + ?n + 2]"
    by (simp add: upt_add_eq_append [symmetric] numeral_3_eq_3 numeral_2_eq_2 flip: upt_add_eq_append)
  then have split: "[0..<length T] = [0..<?p] @ [?p..<?p + ?n + 2] @ [?p + ?n + 2]" by (simp only: len)
  have "list_all ?v [?p..<?p + ?n + 2]"
  proof -
    have "?v j" if "j \<in> set [?p..<?p + ?n + 2]" for j
    proof -
      have "?p \<le> j" "j < ?p + ?n + 2" using that unfolding set_upt atLeastLessThan_iff by blast+
      then show ?thesis
        using multisig_tokens_quiet [OF assms(2-4), of pre j] unfolding T_def by (intro valid_token_quiet) blast+
    qed
    then show ?thesis unfolding list_all_iff by blast
  qed
  moreover have "op (T ! (?p + ?n + 2)) = OP_CHECKMULTISIG"
    using multisig_tokens_nth(4) [where pre = pre and ks = ks] by (simp add: T_def)
  then have "?v (?p + ?n + 2) \<longleftrightarrow> pre \<noteq> [] \<and> matches_of E digest sigs ks = sigs_needed ?n"
    using valid_multisig_at [OF assms(2-4), of E pre sigs script digest, folded T_def]
    by (simp add: valid_token_def is_checksig_def is_checkmultisig_def op_defs)
  ultimately show ?thesis unfolding split list_all_append by simp
qed

lemma script_tokens_of_items:
  "\<forall>it \<in> set items. item_ok it \<Longrightarrow> scriptToTokens (Bytes (concat (map item_bytes items))) = map item_token items"
  by (simp add: scriptToTokens_def tokens_of_items)

lemma multisig_script_tokens:
  assumes "keys \<noteq> []" "length keys \<le> 16" "\<forall>k \<in> set keys. key_ok k" "key_ok master"
  defines "ks \<equiv> DatasSort keys DataCompare"
  shows "scriptToTokens (multisigScript keys) = map item_token (multisig_items ks)"
    and "scriptToTokens (vaultScript master keys)
      = [item_token (push_item master), item_token (Op OP_CHECKSIGVERIFY)] @ map item_token (multisig_items ks)"
    and "ks \<noteq> []" "length ks \<le> 16" "\<forall>k \<in> set ks. key_ok k" "length ks = length keys" "mset ks = mset keys"
proof -
  show facts: "ks \<noteq> []" "length ks \<le> 16" "\<forall>k \<in> set ks. key_ok k" "length ks = length keys" "mset ks = mset keys"
    using DatasSort_facts [OF assms(3)] assms(1,2) unfolding ks_def by (auto simp flip: length_greater_0_conv)
  have items: "\<forall>it \<in> set (multisig_items ks). item_ok it" using facts by (intro multisig_items_ok)
  then show "scriptToTokens (multisigScript keys) = map item_token (multisig_items ks)"
    by (simp add: multisigScript_items script_tokens_of_items flip: ks_def)
  have "item_ok (Op OP_CHECKSIGVERIFY)" by (simp add: op_defs)
  then have "\<forall>it \<in> set (push_item master # Op OP_CHECKSIGVERIFY # multisig_items ks). item_ok it"
    using items push_token(1) [OF assms(4)] by simp
  then show "scriptToTokens (vaultScript master keys)
      = [item_token (push_item master), item_token (Op OP_CHECKSIGVERIFY)] @ map item_token (multisig_items ks)"
    unfolding vaultScript_items ks_def [symmetric] by (subst script_tokens_of_items) simp_all
qed


text \<open>The digest of a witness script input.\<close>

definition script_digest :: "transaction \<Rightarrow> nat \<Rightarrow> data" where
  "script_digest t i = TransactionWitnessDigest (set_script i (DatasLast (witnessStack (inputs t ! i))) t) i"

lemma validate_script:
  assumes "i < length (inputs t)" "witnessStack (inputs t ! i) = sigs @ [script]" "length sigs \<noteq> 1"
  shows "TransactionValidateSignature E t i = Inr (list_all
    (valid_token E (scriptToTokens script) (sigs @ [script]) (script_digest t i)) [0..<length (scriptToTokens script)])"
  using assms by (simp add: TransactionValidateSignature_def script_digest_def DatasLast_def nth_append Let_def)


text \<open>
  Validation rejects every witness of a plain multisig script, however many good signatures
  it carries: the guard on the position of the signature count is off by one, so a multisig
  check that opens the script never passes.
\<close>

lemma multisig_never_validates:
  assumes "keys \<noteq> []" "length keys \<le> 16" "\<forall>k \<in> set keys. key_ok k"
    and "i < length (inputs t)" "witnessStack (inputs t ! i) = sigs @ [multisigScript keys]" "length sigs \<noteq> 1"
  shows "TransactionValidateSignature E t i = Inr False"
proof -
  have ok: "key_ok (hd keys)" using assms(1,3) by simp
  note T = multisig_script_tokens [OF assms(1-3) ok]
  show ?thesis
    unfolding validate_script [OF assms(4-6)] T(1)
    using valid_tokens_multisig [OF T(3-5), where pre = "[]"] by simp
qed

text \<open>A transaction with one input, for the examples.\<close>

definition one_input_tx :: "datas \<Rightarrow> transaction" where
  "one_input_tx stack = set_stack 0 stack
     (TransactionAddInput TransactionEmpty (Bytes (replicate 32 7)) 1 (Bytes (0 # 32 # replicate 32 9)) 5000)"

lemma one_input_tx_simps [simp]:
  "length (inputs (one_input_tx stack)) = 1" "witnessStack (inputs (one_input_tx stack) ! 0) = stack"
  by (simp_all add: one_input_tx_def set_stack_def set_input_def TransactionAddInput_def TransactionEmpty_def)


text \<open>
  Validation accepts whatever stands in front of a last stack element that, read as a script,
  has no signature check. An empty witness is accepted, and so is any signature at all for a
  pay-to-witness-pubkey-hash input whose public key bytes do not happen to contain such an opcode.
\<close>

lemma validation_without_checks:
  assumes "i < length (inputs t)"
    and "\<forall>tok \<in> set (scriptToTokens (DatasLast (witnessStack (inputs t ! i)))). \<not> is_checksig (op tok) \<and> \<not> is_checkmultisig (op tok)"
  shows "TransactionValidateSignature E t i = Inr True"
proof -
  let ?T = "scriptToTokens (DatasLast (witnessStack (inputs t ! i)))"
  have "valid_token E ?T stack d j" if "j < length ?T" for stack d j
    using assms(2) that by (intro valid_token_quiet) auto
  then show ?thesis
    using assms(1) by (simp add: TransactionValidateSignature_def Let_def list_all_iff)
qed

section \<open>The extra stack element\<close>

lemma correct_multisig_stack:
  assumes "keys \<noteq> []" "length keys \<le> 16" "\<forall>k \<in> set keys. key_ok k"
  shows "TransactionCorrectMultisigSignaturesInStack (sigs @ [multisigScript keys])
    = Inr (if length sigs = max 1 (length keys * 2 div 3) then DataNew 0 # sigs @ [multisigScript keys]
           else sigs @ [multisigScript keys])"
proof -
  let ?c = "multisig_check (DatasSort keys DataCompare)" and ?s = "multisigScript keys"
  have c: "op ?c = OP_CHECKMULTISIG" "neededSigs ?c = int (max 1 (length keys * 2 div 3))"
    using multisig_check_needed [OF assms(3)] by (simp_all add: multisig_check_def of_nat_max)
  have "is_checkmultisig OP_CHECKMULTISIG" by (simp add: is_checkmultisig_def)
  then have "correct_tokens [?c] (sigs @ [?s]) 0 [] = Inr (DataNew 0 # sigs)" if "length sigs = max 1 (length keys * 2 div 3)"
    using c that by (simp add: Let_def DatasAddCopy_def)
  then show ?thesis
    using allCheckSigs_multisig [OF assms] c
    by (auto simp: TransactionCorrectMultisigSignaturesInStack_def Let_def DatasLast_def DatasAddCopy_def nth_append)
qed

lemma correct_vault_stack:
  assumes "keys \<noteq> []" "length keys \<le> 16" "\<forall>k \<in> set keys. key_ok k" "key_ok master"
    and "length sigs = max 1 (length keys * 2 div 3)"
  shows "TransactionCorrectMultisigSignaturesInStack (sigs @ [sig, vaultScript master keys])
    = Inr (DataNew 0 # sigs @ [sig, vaultScript master keys])"
proof -
  let ?c = "multisig_check (DatasSort keys DataCompare)" and ?s = "vaultScript master keys"
  let ?m = "token_zero\<lparr>op := OP_CHECKSIGVERIFY, neededSigs := 1, pubKeys := [Bytes (dbytes master)]\<rparr>"
  have c: "op ?c = OP_CHECKMULTISIG" "neededSigs ?c = int (length sigs)"
    using multisig_check_needed [OF assms(3)] assms(5) by (simp_all add: multisig_check_def of_nat_max)
  have "is_checkmultisig OP_CHECKMULTISIG" "\<not> is_checkmultisig OP_CHECKSIGVERIFY"
    by (simp_all add: is_checkmultisig_def op_defs)
  then have "correct_tokens [?c, ?m] (sigs @ [sig, ?s]) 0 [] = Inr (DataNew 0 # sigs @ [sig])"
    using c by (simp add: Let_def DatasAddCopy_def)
  then show ?thesis
    using allCheckSigs_vault [OF assms(1-4)] c
    by (simp add: TransactionCorrectMultisigSignaturesInStack_def Let_def DatasLast_def DatasAddCopy_def nth_append)
qed

text \<open>
  Completing a multisig witness puts the one extra empty element of CHECKMULTISIG in front of
  exactly the required signatures, leaves a stack with another number of signatures alone, and
  does nothing when repeated. For a vault script the empty element and the member signatures
  come first and the master signature stays on top.
\<close>

lemma multisig_extra_element:
  assumes "keys \<noteq> []" "length keys \<le> 16" "\<forall>k \<in> set keys. key_ok k" "key_ok master"
    and "length quorum = max 1 (length keys * 2 div 3)"
  shows "TransactionCorrectMultisigSignaturesInStack (sigs @ [multisigScript keys])
      = Inr (if length sigs = length quorum then DataNew 0 # sigs @ [multisigScript keys] else sigs @ [multisigScript keys])
    \<and> TransactionCorrectMultisigSignaturesInStack (DataNew 0 # quorum @ [multisigScript keys])
      = Inr (DataNew 0 # quorum @ [multisigScript keys])
    \<and> TransactionCorrectMultisigSignaturesInStack (quorum @ [sig, vaultScript master keys])
      = Inr (DataNew 0 # quorum @ [sig, vaultScript master keys])"
  using correct_multisig_stack [OF assms(1-3), of sigs] correct_multisig_stack [OF assms(1-3), of "DataNew 0 # quorum"]
    correct_vault_stack [OF assms(1-5), of sig] assms(5)
  by simp

section \<open>Signatures in key order\<close>

lemma filter_one_split:
  assumes "k < length xs" "P (xs ! k)" "length (filter P xs) \<le> 1"
  shows "filter P xs = [xs ! k]" "filter P (take k xs @ drop (Suc k) xs) = []"
    "filter (\<lambda>x. \<not> P x) xs = take k xs @ drop (Suc k) xs"
proof -
  have xs: "xs = take k xs @ xs ! k # drop (Suc k) xs" using assms(1) by (rule id_take_nth_drop)
  then have f: "filter P xs = filter P (take k xs) @ xs ! k # filter P (drop (Suc k) xs)"
    using assms(2) by (metis filter.simps(2) filter_append)
  then have none: "filter P (take k xs) = []" "filter P (drop (Suc k) xs) = []" using assms(3) by auto
  then show "filter P xs = [xs ! k]" "filter P (take k xs @ drop (Suc k) xs) = []" using f by simp_all
  have keep: "filter (\<lambda>x. \<not> P x) ys = ys" if "filter P ys = []" for ys
    using that by (simp add: filter_empty_conv filter_id_conv)
  have "filter (\<lambda>x. \<not> P x) xs = filter (\<lambda>x. \<not> P x) (take k xs) @ filter (\<lambda>x. \<not> P x) (drop (Suc k) xs)"
    using xs assms(2) by (metis filter.simps(2) filter_append)
  then show "filter (\<lambda>x. \<not> P x) xs = take k xs @ drop (Suc k) xs" using none keep by simp
qed

lemma match_signatures_none:
  "filter ok sigs = [] \<Longrightarrow> match_signatures ok k sigs new = (sigs, new)"
proof (induction "length sigs - k" arbitrary: k)
  case 0
  then show ?case by (subst match_signatures.simps) simp
next
  case (Suc n)
  then have "\<not> ok (sigs ! k)" by (auto simp: filter_empty_conv)
  then show ?case using Suc by (subst match_signatures.simps) simp
qed

lemma match_signatures_one:
  assumes "length (filter ok sigs) \<le> 1" "filter ok (take k sigs) = []"
  shows "match_signatures ok k sigs new = (filter (\<lambda>s. \<not> ok s) sigs, new @ filter ok sigs)"
  using assms
proof (induction "length sigs - k" arbitrary: k)
  case 0
  then have "filter ok sigs = []" by simp
  then show ?case using match_signatures_none [of ok sigs k new] by (simp add: filter_empty_conv filter_id_conv)
next
  case (Suc n)
  then have k: "k < length sigs" by simp
  show ?case
  proof (cases "ok (sigs ! k)")
    case True
    note one = filter_one_split [OF k True Suc.prems(1)]
    show ?thesis
      using True k one match_signatures_none [OF one(2)]
      by (subst match_signatures.simps) (simp add: DatasAddCopy_def)
  next
    case False
    then have "filter ok (take (k + 1) sigs) = []" using Suc.prems(2) k by (simp add: take_Suc_conv_app_nth)
    then show ?thesis using Suc k False by (subst match_signatures.simps) simp
  qed
qed

definition in_key_order :: "(data \<Rightarrow> data \<Rightarrow> bool) \<Rightarrow> datas \<Rightarrow> datas \<Rightarrow> datas" where
  "in_key_order V pubs sigs = concat (map (\<lambda>p. filter (V p) sigs) pubs)"

lemma fold_match:
  assumes "\<forall>p \<in> set pubs. length (filter (V p) sigs) \<le> 1" "distinct pubs"
    "\<forall>s \<in> set sigs. \<forall>p \<in> set pubs. \<forall>q \<in> set pubs. V p s \<longrightarrow> V q s \<longrightarrow> p = q"
  shows "snd (fold (\<lambda>p (sigs, new). match_signatures (V p) 0 sigs new) pubs (sigs, new)) = new @ in_key_order V pubs sigs"
  using assms
proof (induction pubs arbitrary: sigs new)
  case Nil
  then show ?case by (simp add: in_key_order_def)
next
  case (Cons p pubs)
  let ?rest = "filter (\<lambda>s. \<not> V p s) sigs"
  have "match_signatures (V p) 0 sigs new = (?rest, new @ filter (V p) sigs)"
    using Cons.prems(1) by (intro match_signatures_one) simp_all
  moreover have same: "filter (V q) ?rest = filter (V q) sigs" if "q \<in> set pubs" for q
  proof -
    have "V q s \<Longrightarrow> \<not> V p s" if "s \<in> set sigs" for s
      using Cons.prems(2,3) \<open>q \<in> set pubs\<close> that by (metis distinct.simps(2) list.set_intros)
    then show ?thesis by (auto simp: filter_filter intro: filter_cong)
  qed
  moreover have "snd (fold (\<lambda>p (sigs, new). match_signatures (V p) 0 sigs new) pubs (?rest, new @ filter (V p) sigs))
      = (new @ filter (V p) sigs) @ in_key_order V pubs ?rest"
    using Cons.prems same by (intro Cons.IH) auto
  moreover have "in_key_order V pubs ?rest = in_key_order V pubs sigs"
    using same by (simp add: in_key_order_def cong: map_cong)
  ultimately show ?case by (simp add: in_key_order_def)
qed

lemma mset_filter_disjoint:
  "\<forall>x \<in> set xs. \<not> (P x \<and> Q x) \<Longrightarrow> mset (filter P xs) + mset (filter Q xs) = mset (filter (\<lambda>x. P x \<or> Q x) xs)"
  by (induction xs) auto

lemma mset_in_key_order:
  assumes "distinct pubs" "\<forall>s \<in> set sigs. \<forall>p \<in> set pubs. \<forall>q \<in> set pubs. V p s \<longrightarrow> V q s \<longrightarrow> p = q"
  shows "mset (in_key_order V pubs sigs) = mset (filter (\<lambda>s. \<exists>p \<in> set pubs. V p s) sigs)"
  using assms
proof (induction pubs)
  case Nil
  then show ?case by (simp add: in_key_order_def)
next
  case (Cons p pubs)
  then have IH: "mset (in_key_order V pubs sigs) = mset (filter (\<lambda>s. \<exists>q \<in> set pubs. V q s) sigs)" by auto
  have "\<forall>s \<in> set sigs. \<not> (V p s \<and> (\<exists>q \<in> set pubs. V q s))" using Cons.prems by auto
  then have "mset (filter (V p) sigs) + mset (filter (\<lambda>s. \<exists>q \<in> set pubs. V q s) sigs)
      = mset (filter (\<lambda>s. V p s \<or> (\<exists>q \<in> set pubs. V q s)) sigs)"
    by (rule mset_filter_disjoint)
  then show ?case using IH by (simp add: in_key_order_def)
qed

text \<open>
  When every signature of a witness verifies under exactly one of the keys in the script and
  no key has two of them, sorting keeps all of them and brings them into the order of the keys
  in the script, with the script still last.
\<close>

lemma signatures_sorted_by_key:
  assumes "i < length (inputs t)" "witnessStack (inputs t ! i) = sigs @ [script]" "2 \<le> length sigs"
    and "distinct (allPubKeys script)"
    and "\<forall>p \<in> set (allPubKeys script). length (filter (\<lambda>s. verify E s (script_digest t i) p) sigs) \<le> 1"
    and "\<forall>s \<in> set sigs. \<exists>!p. p \<in> set (allPubKeys script) \<and> verify E s (script_digest t i) p"
  shows "\<exists>ordered. sort_input E i (Inr (r, t)) = Inr (r, set_stack i (ordered @ [script]) t) \<and> mset ordered = mset sigs
    \<and> ordered = concat (map (\<lambda>p. filter (\<lambda>s. verify E s (script_digest t i) p) sigs) (allPubKeys script))"
proof -
  let ?d = "script_digest t i" and ?pubs = "allPubKeys script"
  let ?V = "\<lambda>p s. verify E s ?d p"
  have unique: "\<forall>s \<in> set sigs. \<forall>p \<in> set ?pubs. \<forall>q \<in> set ?pubs. ?V p s \<longrightarrow> ?V q s \<longrightarrow> p = q" using assms(6) by blast
  have sorted: "sorted_stack E ?d sigs script = in_key_order ?V ?pubs sigs @ [script]"
    using fold_match [OF assms(5,4) unique, of "[]"] by (simp add: sorted_stack_def DatasAddCopy_def)
  have "filter (\<lambda>s. \<exists>p \<in> set ?pubs. ?V p s) sigs = sigs" using assms(6) by (auto simp: filter_id_conv)
  then have m: "mset (in_key_order ?V ?pubs sigs) = mset sigs" using mset_in_key_order [OF assms(4) unique] by simp
  then have len: "length (in_key_order ?V ?pubs sigs) = length sigs" by (metis size_mset)
  have "sort_input E i (Inr (r, t)) = Inr (r, set_stack i (in_key_order ?V ?pubs sigs @ [script]) t)"
    using assms(2,3) sorted len
    by (simp add: sort_input_def Let_def script_digest_def DatasLast_def nth_append)
  then show ?thesis using m by (simp add: in_key_order_def)
qed

lemma toy_signature:
  assumes "length k = 32"
  shows "signAll toy_ecc (Bytes m) (Bytes k) = Bytes (sha256_spec (sha256_spec m) @ k @ replicate 6 0 @ [1])"
  using assms by (simp add: signAll_def sign_def signatureCreate_def signatureDER_def opt_data_def toy_ecc_def hash256_Bytes
      length_sha256_spec)

lemma toy_verify:
  assumes "length k = 32" "length k' = 32"
  shows "verify toy_ecc (signAll toy_ecc (Bytes m) (Bytes k)) (Bytes m) (Bytes (2 # k')) \<longleftrightarrow> k = k'"
proof -
  have "publicKeyParse toy_ecc (Bytes (2 # k')) = Bytes (k' @ k')"
    using assms by (simp add: publicKeyParse_def opt_data_def toy_ecc_def)
  moreover have "signatureParse toy_ecc (signAll toy_ecc (Bytes m) (Bytes k)) = Bytes (sha256_spec (sha256_spec m) @ k)"
    using assms by (simp add: toy_signature signatureParse_def opt_data_def length_sha256_spec) (simp add: toy_ecc_def length_sha256_spec)
  ultimately show ?thesis
    using assms by (simp add: verify_def signatureVerify_def toy_signature length_sha256_spec hash256_Bytes) (simp add: toy_ecc_def)
qed

definition example_script :: data where
  "example_script = multisigScript [Bytes (2 # replicate 32 1), Bytes (2 # replicate 32 2), Bytes (2 # replicate 32 3)]"

lemma example_script_keys:
  "allPubKeys example_script = [Bytes (2 # replicate 32 1), Bytes (2 # replicate 32 2), Bytes (2 # replicate 32 3)]"
  by code_simp

lemma example_digest: "\<exists>m. \<forall>sigs. script_digest (one_input_tx (sigs @ [example_script])) 0 = Bytes m"
proof -
  have ne: "dbytes example_script \<noteq> []" by (simp add: example_script_def multisigScript_items multisig_items_def number_op_def)
  let ?t = "\<lambda>stack. set_script 0 example_script (one_input_tx stack)"
  obtain m where m: "TransactionWitnessDigest (?t []) 0 = Bytes m"
    using witness_digest_eq [of 0 "?t []"] ne
    by (simp add: set_script_def one_input_tx_def set_stack_def set_input_def TransactionAddInput_def TransactionEmpty_def)
  have "TransactionWitnessDigest (?t stack) 0 = TransactionWitnessDigest (?t []) 0" for stack
    by (rule witness_digest_cong)
      (simp add: same_signing_view_def outpoint_view_def set_script_def one_input_tx_def set_stack_def set_input_def
        TransactionAddInput_def TransactionEmpty_def)
  then show ?thesis using m by (auto simp: script_digest_def DatasLast_def nth_append)
qed

end
