(* ===== verification/Signing_Flow.thy ===== *)
theory Signing_Flow
  imports Signing_Props
begin

text \<open>
  Whole signing operations: the legacy scripts that are set aside come back unchanged, and
  signing a transaction with the key of its pay-to-witness-pubkey-hash inputs produces witnesses
  that validate.
\<close>

section \<open>Setting legacy scripts aside\<close>

lemma set_script_simps [simp]:
  "length (inputs (set_script i s t)) = length (inputs t)"
  "version (set_script i s t) = version t" "locktime (set_script i s t) = locktime t"
  "outputs (set_script i s t) = outputs t" "tx_height (set_script i s t) = tx_height t"
  by (simp_all add: set_script_def set_input_def)

lemma set_stack_simps [simp]:
  "length (inputs (set_stack i s t)) = length (inputs t)"
  "version (set_stack i s t) = version t" "locktime (set_stack i s t) = locktime t"
  "outputs (set_stack i s t) = outputs t" "tx_height (set_stack i s t) = tx_height t"
  by (simp_all add: set_stack_def set_input_def)

lemma nth_set_script:
  "i < length (inputs t) \<Longrightarrow> inputs (set_script i s t) ! j = (if j = i then (inputs t ! i)\<lparr>scriptData := s\<rparr> else inputs t ! j)"
  by (simp add: set_script_def set_input_def)

lemma scriptData_same: "(r :: tx_input)\<lparr>scriptData := scriptData r\<rparr> = r"
  by simp

lemma set_script_same: "scriptData (inputs t ! i) = s \<Longrightarrow> set_script i s t = t"
  unfolding set_script_def set_input_def by (auto simp only: scriptData_same list_update_id) simp

lemma set_script_twice: "set_script i s (set_script i s' t) = set_script i s t"
  by (cases "i < length (inputs t)") (simp_all add: set_script_def set_input_def list_update_beyond)

lemma input_index_inj: "i < 2 ^ 32 \<Longrightarrow> j < 2 ^ 32 \<Longrightarrow> dbytes (input_index i) = dbytes (input_index j) \<longleftrightarrow> i = j"
proof -
  assume ij: "i < 2 ^ 32" "j < 2 ^ 32"
  have "i = j" if "dbytes (input_index i) = dbytes (input_index j)"
  proof -
    have "le_bytes 4 (of_nat i :: u32) = le_bytes 4 (of_nat j :: u32)" using that by (simp add: input_index_def DataInt_def del: le_bytes_numeral)
    then have "(le_word (le_bytes 4 (of_nat i :: u32)) :: u32) = le_word (le_bytes 4 (of_nat j :: u32))" by (simp only:)
    then have "(of_nat i :: u32) = of_nat j" by (simp add: le_word_le_bytes del: le_bytes_numeral)
    then have "unat (of_nat i :: u32) = unat (of_nat j :: u32)" by simp
    then show ?thesis using ij by (simp add: unat_of_nat_small)
  qed
  then show ?thesis by blast
qed

lemma input_index_facts: "small_data (input_index i)" "DataGetInt (input_index i) = Inr (of_nat i)" "input_index i \<noteq> DataNull"
  by (simp_all add: input_index_def DataInt_def small_data_def DataGetInt_def le_word_le_bytes del: le_bytes_numeral)

definition legacy_script :: "transaction \<Rightarrow> nat \<Rightarrow> bool" where
  "legacy_script t i \<longleftrightarrow> is_legacy (TransactionInputType (inputs t ! i))"

definition stashed :: "nat \<Rightarrow> transaction \<Rightarrow> transaction \<times> dictionary \<Rightarrow> bool" where
  "stashed n t = (\<lambda>(t', D). dict_ok D
     \<and> t' = t\<lparr>inputs := map (\<lambda>i. if i < n \<and> legacy_script t i then (inputs t ! i)\<lparr>scriptData := DataNull\<rparr> else inputs t ! i)
          [0..<length (inputs t)]\<rparr>
     \<and> (\<forall>(k, v) \<in> set (keysAndValues D). \<exists>i < n. k = input_index i)
     \<and> (\<forall>i < length (inputs t). dict_map D (dbytes (input_index i))
          = (if i < n \<and> legacy_script t i \<and> scriptData (inputs t ! i) \<noteq> DataNull then Some (scriptData (inputs t ! i)) else None)))"

lemma add_ref_pairs: "set (keysAndValues (DictionaryAddRef D k v)) \<subseteq> insert (k, v) (set (keysAndValues D))"
  by (auto simp: DictionaryAddRef_def Let_def split: prod.splits option.splits dest: in_set_takeD in_set_dropD)

lemma stash_step_stashed:
  assumes "stashed n t st" "n < length (inputs t)" "length (inputs t) < 2 ^ 31"
  shows "stashed (Suc n) t (stash_step n st)"
proof -
  obtain t' D where st: "st = (t', D)" by (cases st)
  let ?f = "\<lambda>n i. if i < n \<and> legacy_script t i then (inputs t ! i)\<lparr>scriptData := DataNull\<rparr> else inputs t ! i"
  have ok: "dict_ok D" "t' = t\<lparr>inputs := map (?f n) [0..<length (inputs t)]\<rparr>"
      "\<forall>(k, v) \<in> set (keysAndValues D). \<exists>i < n. k = input_index i"
      "\<forall>i < length (inputs t). dict_map D (dbytes (input_index i))
        = (if i < n \<and> legacy_script t i \<and> scriptData (inputs t ! i) \<noteq> DataNull then Some (scriptData (inputs t ! i)) else None)"
    using assms(1) by (simp_all add: stashed_def st)
  have nth: "inputs t' ! n = inputs t ! n" using assms(2) ok(2) by simp
  show ?thesis
  proof (cases "legacy_script t n")
    case False
    then have "stash_step n st = st" using nth by (simp add: stash_step_def st legacy_script_def)
    moreover have "i < Suc n \<and> legacy_script t i \<longleftrightarrow> i < n \<and> legacy_script t i" for i using False by (auto simp: less_Suc_eq)
    ultimately show ?thesis using assms(1) by (fastforce simp: stashed_def st less_Suc_eq)
  next
    case True
    let ?D = "if scriptData (inputs t ! n) \<noteq> DataNull then DictionaryAddCopy D (input_index n) (scriptData (inputs t ! n)) else D"
    have step: "stash_step n st = (set_script n DataNull t', ?D)"
      using True nth by (simp add: stash_step_def st legacy_script_def Let_def)
    have "(map (?f n) [0..<length (inputs t)])[n := (inputs t ! n)\<lparr>scriptData := DataNull\<rparr>] = map (?f (Suc n)) [0..<length (inputs t)]"
      using True assms(2) by (intro nth_equalityI) (auto simp: nth_list_update less_Suc_eq)
    then have t': "set_script n DataNull t' = t\<lparr>inputs := map (?f (Suc n)) [0..<length (inputs t)]\<rparr>"
      using ok(2) nth by (simp add: set_script_def set_input_def)
    have ins: "dict_ok (DictionaryAddCopy D (input_index n) v)"
        "dict_map (DictionaryAddCopy D (input_index n) v) = (dict_map D)(dbytes (input_index n) \<mapsto> v)" for v
      using insert_ok_map [OF ok(1) input_index_facts(1)] by (simp_all add: DictionaryAddCopy_def)
    have keys: "\<forall>(k, v) \<in> set (keysAndValues ?D). \<exists>i < Suc n. k = input_index i"
      using ok(3) add_ref_pairs [of D "input_index n"] by (fastforce simp: DictionaryAddCopy_def less_Suc_eq split: if_splits)
    have inj: "dbytes (input_index i) = dbytes (input_index n) \<longleftrightarrow> i = n" if "i < length (inputs t)" for i
      using that assms(2,3) by (intro input_index_inj) simp_all
    have "\<forall>i < length (inputs t). dict_map ?D (dbytes (input_index i))
        = (if i < Suc n \<and> legacy_script t i \<and> scriptData (inputs t ! i) \<noteq> DataNull then Some (scriptData (inputs t ! i)) else None)"
      using ok(4) True inj by (auto simp: ins less_Suc_eq)
    then show ?thesis using ok(1) ins(1) keys t' unfolding stashed_def step by simp
  qed
qed

lemma stash_scripts_stashed:
  assumes "length (inputs t) < 2 ^ 31"
  shows "stashed (length (inputs t)) t (stash_scripts t)"
proof -
  have "stashed n t (fold stash_step [0..<n] (t, DictNew))" if "n \<le> length (inputs t)" for n
    using that
  proof (induction n)
    case 0
    have "map (\<lambda>i. inputs t ! i) [0..<length (inputs t)] = inputs t" by (rule map_nth)
    then show ?case by (simp add: stashed_def) (simp add: DictNew_def DictionaryNew_def)
  next
    case (Suc n)
    then show ?case using stash_step_stashed assms by simp
  qed
  then show ?thesis by (simp add: stash_scripts_def)
qed

lemma restore_scripts_map:
  assumes "distinct (map fst (by_bytes kvs))" "\<forall>(k, v) \<in> set kvs. \<exists>i < length (inputs t). k = input_index i"
    "length (inputs t) < 2 ^ 31"
  shows "restore_scripts kvs t = Inr (t\<lparr>inputs := map (\<lambda>i. case map_of (by_bytes kvs) (dbytes (input_index i)) of
    None \<Rightarrow> inputs t ! i | Some v \<Rightarrow> (inputs t ! i)\<lparr>scriptData := v\<rparr>) [0..<length (inputs t)]\<rparr>)"
  using assms
proof (induction kvs arbitrary: t)
  case Nil
  have "map (\<lambda>i. inputs t ! i) [0..<length (inputs t)] = inputs t" by (rule map_nth)
  then show ?case by simp
next
  case (Cons kv kvs)
  obtain k v where kv: "kv = (k, v)" by (cases kv)
  obtain n where n: "n < length (inputs t)" "k = input_index n" using Cons.prems(2) kv by auto
  have u: "unat (of_nat n :: u32) = n" using n(1) Cons.prems(3) by (intro unat_of_nat_small) simp
  let ?t = "set_script n v t"
  have "restore_scripts (kv # kvs) t = restore_scripts kvs ?t"
    using n u by (simp add: kv input_index_facts)
  also have "\<dots> = Inr (?t\<lparr>inputs := map (\<lambda>i. case map_of (by_bytes kvs) (dbytes (input_index i)) of
      None \<Rightarrow> inputs ?t ! i | Some v \<Rightarrow> (inputs ?t ! i)\<lparr>scriptData := v\<rparr>) [0..<length (inputs t)]\<rparr>)"
    using Cons.prems Cons.IH [of ?t] kv by simp
  also have "map (\<lambda>i. case map_of (by_bytes kvs) (dbytes (input_index i)) of
      None \<Rightarrow> inputs ?t ! i | Some v \<Rightarrow> (inputs ?t ! i)\<lparr>scriptData := v\<rparr>) [0..<length (inputs t)]
    = map (\<lambda>i. case map_of (by_bytes (kv # kvs)) (dbytes (input_index i)) of
      None \<Rightarrow> inputs t ! i | Some v \<Rightarrow> (inputs t ! i)\<lparr>scriptData := v\<rparr>) [0..<length (inputs t)]"
  proof (rule map_cong [OF refl])
    fix i assume "i \<in> set [0..<length (inputs t)]"
    then have inj: "dbytes (input_index n) = dbytes (input_index i) \<longleftrightarrow> n = i"
      using n(1) Cons.prems(3) by (intro input_index_inj) simp_all
    have "map_of (by_bytes kvs) (dbytes (input_index n)) = None"
      using Cons.prems(1) n kv by (simp add: map_of_eq_None_iff)
    then show "(case map_of (by_bytes kvs) (dbytes (input_index i)) of
        None \<Rightarrow> inputs ?t ! i | Some v \<Rightarrow> (inputs ?t ! i)\<lparr>scriptData := v\<rparr>)
      = (case map_of (by_bytes (kv # kvs)) (dbytes (input_index i)) of
        None \<Rightarrow> inputs t ! i | Some v \<Rightarrow> (inputs t ! i)\<lparr>scriptData := v\<rparr>)"
      using inj n by (cases "n = i") (simp_all add: kv nth_set_script split: option.split)
  qed
  finally show ?case by (simp add: set_script_def set_input_def)
qed

lemma restore_stashed:
  assumes "length (inputs t) < 2 ^ 31" "stash_scripts t = (t', D)"
  shows "restore_scripts (keysAndValues D) t' = Inr t"
proof -
  note st = stash_scripts_stashed [OF assms(1), unfolded assms(2) stashed_def prod.case]
  have len: "length (inputs t') = length (inputs t)" using st by simp
  have "sorted_wrt (<) (map fst (by_bytes (keysAndValues D)))" using st by (simp add: dict_ok_def)
  then have "distinct (map fst (by_bytes (keysAndValues D)))" by (simp add: strict_sorted_iff)
  then have "restore_scripts (keysAndValues D) t' = Inr (t'\<lparr>inputs := map (\<lambda>i. case dict_map D (dbytes (input_index i)) of
      None \<Rightarrow> inputs t' ! i | Some v \<Rightarrow> (inputs t' ! i)\<lparr>scriptData := v\<rparr>) [0..<length (inputs t')]\<rparr>)"
    unfolding dict_map_def using st len assms(1) by (intro restore_scripts_map) auto
  also have "map (\<lambda>i. case dict_map D (dbytes (input_index i)) of
      None \<Rightarrow> inputs t' ! i | Some v \<Rightarrow> (inputs t' ! i)\<lparr>scriptData := v\<rparr>) [0..<length (inputs t')] = inputs t"
    using st by (intro nth_equalityI) (auto simp: len split: option.splits)
  finally show ?thesis using st by simp
qed

lemma stashed_blank:
  assumes "length (inputs t) < 2 ^ 31" "stash_scripts t = (t', D)"
    "\<forall>inp \<in> set (inputs t). is_legacy (TransactionInputType inp) \<or> scriptData inp = DataNull"
  shows "i < length (inputs t') \<Longrightarrow> scriptData (inputs t' ! i) = DataNull"
  using stash_scripts_stashed [OF assms(1), unfolded assms(2) stashed_def prod.case] assms(3)
  by (auto simp: legacy_script_def)

lemma digest_input_keeps:
  assumes "scriptData (inputs t ! i) = DataNull"
  shows "\<exists>r. digest_input E key False D i (Inr (t, result)) = Inr (t, r)"
  using set_script_same [OF assms] by (simp add: digest_input_def Let_def signed_already_def)

text \<open>
  Asking which digests a key has to sign always gives an answer and leaves the transaction
  exactly as it was, although the computation blanks and rewrites the scripts of the inputs on the
  way. Inputs that are not of a legacy kind are assumed to have no script of their own.
\<close>

lemma digests_for_restores:
  assumes "length (inputs t) < 2 ^ 31"
    and "\<forall>inp \<in> set (inputs t). is_legacy (TransactionInputType inp) \<or> scriptData inp = DataNull"
  shows "\<exists>digests. TransactionDigestsFor E t key = Inr (digests, t)"
proof -
  obtain t' D where st: "stash_scripts t = (t', D)" by (cases "stash_scripts t")
  have "\<exists>r. fold (digest_input E key False D) [0..<n] (Inr (t', [])) = Inr (t', r)" if "n \<le> length (inputs t')" for n
    using that
  proof (induction n)
    case (Suc n)
    then obtain r where "fold (digest_input E key False D) [0..<n] (Inr (t', [])) = Inr (t', r)" by auto
    moreover have "scriptData (inputs t' ! n) = DataNull" using stashed_blank [OF assms(1) st assms(2)] Suc.prems by simp
    ultimately show ?case using digest_input_keeps by simp
  qed simp
  then obtain r where "fold (digest_input E key False D) [0..<length (inputs t')] (Inr (t', [])) = Inr (t', r)" by blast
  then show ?thesis
    using restore_stashed [OF assms(1) st]
    by (simp add: TransactionDigestsFor_def TransactionDigestsForFlexible_def st)
qed

section \<open>Signing pay-to-witness-pubkey-hash inputs\<close>

lemma token_data_small: "tok \<in> set (scriptToTokens_loop bs) \<Longrightarrow> dlength (tdata tok) < length bs"
proof (induction bs rule: scriptToTokens_loop.induct)
  case (1 bs)
  have ne: "bs \<noteq> []" using 1(2) by (auto simp: scriptToTokens_loop.simps)
  obtain t rest where r: "read_token bs = (t, rest)" by (cases "read_token bs")
  have rest: "length rest < length bs" using read_token_rest [OF ne r] .
  have "tok = t \<or> tok \<in> set (scriptToTokens_loop rest)" using 1(2) ne r by (simp add: scriptToTokens_loop.simps [of bs])
  then show ?case
  proof
    assume "tok \<in> set (scriptToTokens_loop rest)"
    then show ?thesis using 1(1) [OF ne r [symmetric] refl] rest by simp
  next
    assume "tok = t"
    show ?thesis
    proof (cases "isPushData bs")
      case False
      then show ?thesis using \<open>tok = t\<close> r ne by (auto simp: read_token_def token_zero_def split: prod.splits)
    next
      case True
      obtain sz opc bs1 where p: "readPushDataWithOp bs = (sz, opc, bs1)" by (metis prod_cases3)
      obtain d bs2 where b: "readBytesUnsafe sz bs1 = (d, bs2)" by (cases "readBytesUnsafe sz bs1")
      have "tdata t = d" using r True p b by (auto simp: read_token_def Let_def split: if_splits)
      moreover have "dlength d \<le> length bs1" using b by (auto simp: readBytesUnsafe_def split: if_splits)
      ultimately show ?thesis using \<open>tok = t\<close> readPushDataWithOp_rest [OF ne p] by simp
    qed
  qed
qed

lemma allPubKeys_tokens: "set (allPubKeys script) \<subseteq> tdata ` set (scriptToTokens script)"
proof -
  let ?T = "scriptToTokens script"
  have multi: "set (fold (\<lambda>j array. if j + 2 \<le> i then DatasAddCopyFront array (tdata (?T ! (i - j - 2))) else array) js array)
      \<subseteq> tdata ` set ?T" if "set array \<subseteq> tdata ` set ?T" "i < length ?T" for js array i
    using that by (induction js arbitrary: array) (auto simp: DatasAddCopyFront_def)
  have step: "set (allPubKeys_step ?T i array) \<subseteq> tdata ` set ?T" if "set array \<subseteq> tdata ` set ?T" "i < length ?T" for i array
  proof -
    let ?a = "if is_checksig (op (?T ! i)) \<and> i > 0 \<and> tdata (?T ! (i - 1)) \<noteq> DataNull
        then DatasAddCopyFront array (tdata (?T ! (i - 1))) else array"
    have a: "set ?a \<subseteq> tdata ` set ?T" using that by (auto simp: DatasAddCopyFront_def)
    show ?thesis unfolding allPubKeys_step_def Let_def using a multi [OF a that(2)] by presburger
  qed
  have "set (fold (allPubKeys_step ?T) is array) \<subseteq> tdata ` set ?T"
    if "set array \<subseteq> tdata ` set ?T" "\<forall>i \<in> set is. i < length ?T" for "is" array
    using that
  proof (induction "is" arbitrary: array)
    case (Cons i "is")
    then show ?case using step [of array i] by simp
  qed simp
  then show ?thesis unfolding allPubKeys_def Let_def by simp
qed

lemma no_key_inside_itself:
  assumes "dlength pub < 2 ^ 31"
  shows "\<not> list_ex (\<lambda>k. DataEqual k pub) (allPubKeys pub)"
proof -
  have "\<not> DataEqual k pub" if "k \<in> set (allPubKeys pub)" for k
  proof -
    have "dlength k < dlength pub" using that allPubKeys_tokens [of pub] token_data_small by (auto simp: scriptToTokens_def)
    then show ?thesis
      using assms DataCompare_0_iff [of k pub] by (auto simp: DataEqual_def small_data_def)
  qed
  then show ?thesis by (simp add: list_ex_iff)
qed

lemma allCheckSigs_needed:
  "tok \<in> set (allCheckSigs script) \<Longrightarrow> is_checkmultisig (op tok) \<or> neededSigs tok = 1"
proof -
  let ?T = "scriptToTokens script"
  have step: "\<forall>tok \<in> set (allCheckSigs_step ?T i array). is_checkmultisig (op tok) \<or> neededSigs tok = 1"
    if "\<forall>tok \<in> set array. is_checkmultisig (op tok) \<or> neededSigs tok = 1" for i array
    using that by (auto simp: allCheckSigs_step_def Let_def)
  have "\<forall>tok \<in> set (fold (allCheckSigs_step ?T) is array). is_checkmultisig (op tok) \<or> neededSigs tok = 1"
    if "\<forall>tok \<in> set array. is_checkmultisig (op tok) \<or> neededSigs tok = 1" for "is" array
    using that
  proof (induction "is" arbitrary: array)
    case (Cons i "is")
    from Cons.IH [OF step [OF Cons.prems]] show ?case by (simp only: fold_simps comp_apply)
  qed (simp only: fold_simps)
  from this [of "[]"] show "tok \<in> set (allCheckSigs script) \<Longrightarrow> is_checkmultisig (op tok) \<or> neededSigs tok = 1"
    by (auto simp: allCheckSigs_def Let_def)
qed

lemma correct_pubkey_stack:
  assumes "\<forall>tok \<in> set (allCheckSigs pub). \<not> is_checkmultisig (op tok)"
  shows "TransactionCorrectMultisigSignaturesInStack [sig, pub] = Inr [sig, pub]"
proof -
  have one: "\<forall>tok \<in> set (allCheckSigs pub). neededSigs tok = 1" using assms allCheckSigs_needed by blast
  then have sum: "sum_list (map neededSigs (allCheckSigs pub)) = int (length (allCheckSigs pub))"
    by (induction "allCheckSigs pub") (simp_all add: sum_list_triv cong: map_cong)
  show ?thesis
  proof (cases "length (allCheckSigs pub) = 1")
    case True
    then obtain tok where tok: "allCheckSigs pub = [tok]" by (auto simp: length_Suc_conv)
    then show ?thesis using assms one
      by (simp add: TransactionCorrectMultisigSignaturesInStack_def DatasLast_def DatasAddCopy_def Let_def)
  next
    case False
    then show ?thesis using sum by (simp add: TransactionCorrectMultisigSignaturesInStack_def DatasLast_def Let_def)
  qed
qed

lemma fold_const: "(\<And>i. i \<in> set is \<Longrightarrow> f i s = s) \<Longrightarrow> fold f is s = s"
  by (induction "is") simp_all

lemma set_trim: "set (trimDuplicateInstances acc xs) = set acc \<union> set xs"
  by (induction acc xs rule: trimDuplicateInstances.induct) auto

text \<open>Fresh inputs of that kind, the ones the key can spend, and the transaction with the first \<open>n\<close> of them signed.\<close>

definition fresh_p2wpkh :: "tx_input \<Rightarrow> bool" where
  "fresh_p2wpkh inp \<longleftrightarrow> TransactionInputType inp = PayToPubkeyWitness \<and> scriptData inp = DataNull \<and> witnessStack inp = []"

definition spendable :: "ecc \<Rightarrow> data \<Rightarrow> tx_input \<Rightarrow> bool" where
  "spendable E k inp \<longleftrightarrow> DataEqual (p2wpkhPubScriptFromPubKey E (pubKey E k)) (out_script (fundingOutput inp))"

definition p2wpkh_signature :: "ecc \<Rightarrow> data \<Rightarrow> transaction \<Rightarrow> nat \<Rightarrow> data" where
  "p2wpkh_signature E k t i =
     signAll E (TransactionWitnessDigest (set_script i (p2wpkhImpliedScript E (pubKey E k)) t) i) k"

definition signed_upto :: "ecc \<Rightarrow> data \<Rightarrow> transaction \<Rightarrow> nat \<Rightarrow> transaction" where
  "signed_upto E k t n = t\<lparr>inputs := map (\<lambda>i. if i < n \<and> spendable E k (inputs t ! i)
     then (inputs t ! i)\<lparr>witnessStack := [p2wpkh_signature E k t i, pubKey E k]\<rparr> else inputs t ! i) [0..<length (inputs t)]\<rparr>"

lemma signed_upto_nth:
  "i < length (inputs t) \<Longrightarrow> inputs (signed_upto E k t n) ! i = (if i < n \<and> spendable E k (inputs t ! i)
     then (inputs t ! i)\<lparr>witnessStack := [p2wpkh_signature E k t i, pubKey E k]\<rparr> else inputs t ! i)"
  by (simp add: signed_upto_def)

lemma signed_upto_length [simp]: "length (inputs (signed_upto E k t n)) = length (inputs t)"
  by (simp add: signed_upto_def)

lemma signed_upto_0 [simp]: "signed_upto E k t 0 = t"
proof -
  have "map (\<lambda>i. inputs t ! i) [0..<length (inputs t)] = inputs t" by (rule map_nth)
  then show ?thesis by (simp add: signed_upto_def)
qed

lemma outpoint_view_updates [simp]:
  "outpoint_view (i\<lparr>scriptData := s\<rparr>) = outpoint_view i" "outpoint_view (i\<lparr>witnessStack := w\<rparr>) = outpoint_view i"
  by (simp_all add: outpoint_view_def)

lemma signed_digest:
  assumes "i < length (inputs t)"
  shows "TransactionWitnessDigest (set_script i s (signed_upto E k t n)) i = TransactionWitnessDigest (set_script i s t) i"
proof (rule witness_digest_cong)
  have "map outpoint_view (inputs (set_script i s (signed_upto E k t n))) = map outpoint_view (inputs (set_script i s t))"
    using assms by (intro nth_equalityI) (auto simp: nth_set_script signed_upto_nth)
  then show "same_signing_view i (set_script i s (signed_upto E k t n)) (set_script i s t)"
    using assms by (simp add: same_signing_view_def nth_set_script signed_upto_nth) (simp add: signed_upto_def)
qed

lemma set_stack_signed:
  assumes "n < length (inputs t)" "spendable E k (inputs t ! n)"
  shows "set_stack n [p2wpkh_signature E k t n, pubKey E k] (signed_upto E k t n) = signed_upto E k t (Suc n)"
proof -
  have "inputs (set_stack n [p2wpkh_signature E k t n, pubKey E k] (signed_upto E k t n)) = inputs (signed_upto E k t (Suc n))"
    using assms by (intro nth_equalityI)
      (auto simp: set_stack_def set_input_def signed_upto_nth nth_list_update less_Suc_eq)
  then show ?thesis by (simp add: set_stack_def set_input_def signed_upto_def)
qed

lemma signed_upto_skip:
  assumes "\<not> spendable E k (inputs t ! n)"
  shows "signed_upto E k t (Suc n) = signed_upto E k t n"
proof -
  have "i < Suc n \<and> spendable E k (inputs t ! i) \<longleftrightarrow> i < n \<and> spendable E k (inputs t ! i)" for i
    using assms by (auto simp: less_Suc_eq)
  then show ?thesis by (simp only: signed_upto_def)
qed

lemma type_of_signed: "TransactionInputType (i\<lparr>witnessStack := w\<rparr>) = TransactionInputType i"
  by (simp add: TransactionInputType_def)

lemma first_pass:
  assumes "dlength k = 32" "pubKey E k \<noteq> DataNull" "\<forall>inp \<in> set (inputs t). fresh_p2wpkh inp" "n \<le> length (inputs t)"
  shows "fold (sign_first E k) [0..<n] (t, D, []) = (signed_upto E k t n, D, filter (\<lambda>i. spendable E k (inputs t ! i)) [0..<n])"
  using assms(4)
proof (induction n)
  case (Suc n)
  then have n: "n < length (inputs t)" by simp
  have type: "TransactionInputType (inputs (signed_upto E k t n) ! n) = PayToPubkeyWitness"
    using assms(3) n by (simp add: signed_upto_nth fresh_p2wpkh_def)
  have fund: "fundingOutput (inputs (signed_upto E k t n) ! n) = fundingOutput (inputs t ! n)" using n by (simp add: signed_upto_nth)
  show ?case
  proof (cases "spendable E k (inputs t ! n)")
    case True
    then show ?thesis
      using Suc n type fund assms(1,2) set_stack_signed [OF n True] signed_digest [OF n]
      by (simp add: sign_first_def Let_def spendable_def p2wpkh_signature_def DatasAddCopy_def)
  next
    case False
    then show ?thesis
      using Suc n type fund assms(1,2) signed_upto_skip [OF False]
      by (simp add: sign_first_def Let_def spendable_def)
  qed
qed simp

lemma stash_nothing:
  assumes "\<forall>inp \<in> set (inputs t). \<not> is_legacy (TransactionInputType inp)"
  shows "stash_scripts t = (t, DictNew)"
  unfolding stash_scripts_def using assms by (intro fold_const) (auto simp: stash_step_def)

lemma second_pass:
  assumes "\<forall>inp \<in> set (inputs t). TransactionInputType inp \<noteq> PayToScriptHash"
  shows "fold (sign_second item) [0..<length (inputs t)] (t, D, r) = (t, D, r)"
  using assms by (intro fold_const) (auto simp: sign_second_def Let_def)

text \<open>Inputs that are fresh, or carry a signature and the key.\<close>

definition p2wpkh_state :: "data \<Rightarrow> tx_input \<Rightarrow> bool" where
  "p2wpkh_state pub inp \<longleftrightarrow> TransactionInputType inp = PayToPubkeyWitness \<and> scriptData inp = DataNull
     \<and> (witnessStack inp = [] \<or> (\<exists>sig. witnessStack inp = [sig, pub]))"

lemma signed_upto_state:
  assumes "\<forall>inp \<in> set (inputs t). fresh_p2wpkh inp"
  shows "\<forall>inp \<in> set (inputs (signed_upto E k t n)). p2wpkh_state (pubKey E k) inp"
  using assms by (auto simp: all_set_conv_all_nth signed_upto_nth fresh_p2wpkh_def p2wpkh_state_def type_of_signed)

lemma third_pass:
  assumes "\<forall>inp \<in> set (inputs t). p2wpkh_state (pubKey E k) inp" "dlength (pubKey E k) < 2 ^ 31"
  shows "fold (sign_third E k) [0..<length (inputs t)] (t, D, r) = (t, D, r)"
proof (rule fold_const)
  fix i assume "i \<in> set [0..<length (inputs t)]"
  then have "p2wpkh_state (pubKey E k) (inputs t ! i)" using assms(1) by simp
  then show "sign_third E k i (t, D, r) = (t, D, r)"
    using no_key_inside_itself [OF assms(2)]
    by (auto simp: p2wpkh_state_def sign_third_def sign_witness_script_def Let_def DatasLast_def)
qed

lemma script_stack_null: "scriptData inp = DataNull \<Longrightarrow> TransactionInputScriptStack inp = []"
  by (simp add: TransactionInputScriptStack_def script_stack_loop.simps)

lemma set_stack_same: "witnessStack (inputs t ! i) = s \<Longrightarrow> set_stack i s t = t"
proof -
  have "(r :: tx_input)\<lparr>witnessStack := witnessStack r\<rparr> = r" for r by simp
  moreover assume "witnessStack (inputs t ! i) = s"
  ultimately show ?thesis unfolding set_stack_def set_input_def by (auto simp only: list_update_id) simp
qed

lemma finalize_p2wpkh:
  assumes "\<forall>inp \<in> set (inputs t). p2wpkh_state pub inp" "\<forall>tok \<in> set (allCheckSigs pub). \<not> is_checkmultisig (op tok)"
  shows "TransactionFinalize E t = Inr (True, t)"
proof -
  have inp: "p2wpkh_state pub (inputs t ! i)" if "i \<in> set [0..<length (inputs t)]" for i using that assms(1) by simp
  have stash: "stash_scripts t = (t, DictNew)" using assms(1) by (intro stash_nothing) (simp add: p2wpkh_state_def is_legacy_def)
  have "fold (sort_input E) [0..<length (inputs t)] (Inr (True, t)) = Inr (True, t)"
  proof (rule fold_const)
    fix i assume "i \<in> set [0..<length (inputs t)]"
    then show "sort_input E i (Inr (True, t)) = Inr (True, t)"
      using inp [of i] script_stack_null [of "inputs t ! i"] by (auto simp: p2wpkh_state_def sort_input_def Let_def)
  qed
  then have sort: "sortSignatures E t = Inr (True, t)" by (simp add: sortSignatures_def stash DictNew_def DictionaryNew_def)
  have "fold correct_input [0..<length (inputs t)] (Inr t) = Inr t"
  proof (rule fold_const)
    fix i assume "i \<in> set [0..<length (inputs t)]"
    then show "correct_input i (Inr t) = Inr t"
      using inp [of i] script_stack_null [of "inputs t ! i"] correct_pubkey_stack [OF assms(2)] set_stack_same [of t i]
      by (auto simp: p2wpkh_state_def correct_input_def Let_def)
  qed
  then show ?thesis by (simp add: TransactionFinalize_def sort TransactionCorrectMultisigSignatures_def stash DictNew_def DictionaryNew_def)
qed

lemma trim_distinct: "distinct (acc @ xs) \<Longrightarrow> trimDuplicateInstances acc xs = acc @ xs"
  by (induction acc xs rule: trimDuplicateInstances.induct) auto

lemma sign_p2wpkh:
  assumes "dlength k = 32" "pubKey E k \<noteq> DataNull" "dlength (pubKey E k) < 2 ^ 31"
    "\<forall>inp \<in> set (inputs t). fresh_p2wpkh inp"
    "\<forall>tok \<in> set (allCheckSigs (pubKey E k)). \<not> is_checkmultisig (op tok)"
  shows "TransactionSign E t [k] = Inr (signed_upto E k t (length (inputs t)),
    filter (\<lambda>i. spendable E k (inputs t ! i)) [0..<length (inputs t)])"
proof -
  let ?n = "length (inputs t)" let ?t = "signed_upto E k t ?n" and ?r = "filter (\<lambda>i. spendable E k (inputs t ! i)) [0..<?n]"
  note state = signed_upto_state [OF assms(4), of E k ?n]
  have "stash_scripts t = (t, DictNew)" using assms(4) by (intro stash_nothing) (simp add: fresh_p2wpkh_def is_legacy_def)
  moreover have "sign_pass (sign_first E) [k] (t, DictNew, []) = (?t, DictNew, ?r)"
    using first_pass [OF assms(1,2,4) order_refl] by (simp add: sign_pass_def)
  moreover have "sign_pass sign_second [k] (?t, DictNew, ?r) = (?t, DictNew, ?r)"
    using second_pass [of ?t] state by (simp add: sign_pass_def p2wpkh_state_def)
  moreover have "sign_pass (sign_third E) [k] (?t, DictNew, ?r) = (?t, DictNew, ?r)"
    using third_pass [OF state assms(3)] by (simp add: sign_pass_def)
  moreover have "TransactionFinalize E ?t = Inr (True, ?t)" using finalize_p2wpkh [OF state assms(5)] .
  moreover have "trimDuplicateInstances [] ?r = ?r" using trim_distinct [of "[]" ?r] by simp
  moreover have "restore_scripts (keysAndValues DictNew) ?t = Inr ?t" by (simp add: DictNew_def DictionaryNew_def)
  ultimately show ?thesis by (simp add: TransactionSign_def)
qed

lemma p2wpkh_digest:
  assumes "i < length (inputs t)" "fresh_p2wpkh (inputs t ! i)"
  shows "TransactionWitnessDigest (set_script i (p2wpkhImpliedScript E pub) t) i \<noteq> DataNull"
proof -
  let ?s = "p2wpkhImpliedScript E pub"
  have script: "scriptData (inputs (set_script i ?s t) ! i) = ?s" using assms(1) by (simp add: nth_set_script)
  have fund: "out_script (fundingOutput (inputs t ! i)) \<noteq> DataNull"
    using assms(2) by (auto simp: fresh_p2wpkh_def TransactionInputType_def Let_def)
  have "dlength ?s \<noteq> 0" by (simp add: p2wpkhImpliedScript_def Let_def)
  then show ?thesis using witness_digest_eq [of i "set_script i ?s t"] assms(1) script fund by (auto simp: nth_set_script)
qed

lemma signed_validates:
  assumes "ecc_correct E" "dlength k = 32" "pubKey E k \<noteq> DataNull"
    "i < length (inputs t)" "fresh_p2wpkh (inputs t ! i)" "spendable E k (inputs t ! i)" "dlength (p2wpkh_signature E k t i) \<noteq> 64"
  shows "TransactionValidateSignature E (signed_upto E k t (length (inputs t))) i = Inr True"
proof -
  let ?t = "signed_upto E k t (length (inputs t))" and ?s = "p2wpkhImpliedScript E (pubKey E k)"
  have stack: "witnessStack (inputs ?t ! i) = [p2wpkh_signature E k t i, pubKey E k]"
    using assms(4,6) by (simp add: signed_upto_nth)
  have ne: "TransactionWitnessDigest (set_script i ?s t) i \<noteq> DataNull" using assms(4,5) by (rule p2wpkh_digest)
  have "verify E (p2wpkh_signature E k t i) (TransactionWitnessDigest (set_script i ?s t) i) (pubKey E k)"
    using signAll_verifies [OF assms(1-3) ne] assms(7) by (simp add: p2wpkh_signature_def)
  then show ?thesis
    using assms(4) stack signed_digest [OF assms(4)]
    by (simp add: TransactionValidateSignature_def DatasFirst_def DatasLast_def)
qed

text \<open>
  C13. Signing a transaction of fresh pay-to-witness-pubkey-hash inputs with one private key
  succeeds and reports exactly the inputs whose funding output pays to that key. Each of them gets
  the two element witness of signature and public key, and that witness validates (a signature
  text of 64 bytes excepted, as \<open>verify\<close> misreads it); every other input, and the rest of
  the transaction, is unchanged.
\<close>

theorem p2wpkh_sign_validates:
  assumes "ecc_correct E" "dlength k = 32" "pubKey E k \<noteq> DataNull"
    and "\<forall>inp \<in> set (inputs t). fresh_p2wpkh inp"
    and "\<forall>tok \<in> set (allCheckSigs (pubKey E k)). \<not> is_checkmultisig (op tok)"
  shows "\<exists>t'. TransactionSign E t [k] = Inr (t', filter (\<lambda>i. spendable E k (inputs t ! i)) [0..<length (inputs t)])
    \<and> t'\<lparr>inputs := inputs t\<rparr> = t \<and> length (inputs t') = length (inputs t)
    \<and> (\<forall>i < length (inputs t). if spendable E k (inputs t ! i)
         then inputs t' ! i = (inputs t ! i)\<lparr>witnessStack := [p2wpkh_signature E k t i, pubKey E k]\<rparr>
           \<and> (dlength (p2wpkh_signature E k t i) \<noteq> 64 \<longrightarrow> TransactionValidateSignature E t' i = Inr True)
         else inputs t' ! i = inputs t ! i)"
proof -
  obtain c where "pubKey E k = Bytes c" "length c = 33" by (rule pubKey_facts [OF assms(1-3)])
  then have small: "dlength (pubKey E k) < 2 ^ 31" by simp
  let ?t = "signed_upto E k t (length (inputs t))"
  have "TransactionValidateSignature E ?t i = Inr True"
    if "i < length (inputs t)" "spendable E k (inputs t ! i)" "dlength (p2wpkh_signature E k t i) \<noteq> 64" for i
    using signed_validates [OF assms(1-3) that(1) _ that(2,3)] assms(4) that(1) by simp
  then show ?thesis
    using sign_p2wpkh [OF assms(2,3) small assms(4,5)]
    by (intro exI [of _ ?t]) (simp add: signed_upto_nth, simp add: signed_upto_def)
qed

definition p2wpkh_tx :: transaction where
  "p2wpkh_tx = TransactionAddInput TransactionEmpty (Bytes (replicate 32 7)) 1
     (p2wpkhPubScriptFromPubKey toy_ecc (pubKey toy_ecc (Bytes (replicate 32 7)))) 5000"

lemma toy_p2wpkh:
  assumes "length k = 32"
  shows "p2wpkhPubScriptFromPubKey toy_ecc (pubKey toy_ecc (Bytes k)) = Bytes (0 # 20 # ripemd160_spec (sha256_spec (2 # k)))"
proof -
  have "publicKeyCompress toy_ecc (publicKeyParse toy_ecc (Bytes (2 # k))) = Bytes (2 # k)"
    using assms by (simp add: publicKeyParse_def publicKeyCompress_def publicKeySerialize_def opt_data_def toy_ecc_def)
  then show ?thesis
    using assms by (simp add: toy_pubKey p2wpkhPubScriptFromPubKey_def p2wpkhPubScript_def hash160_Bytes scriptPush_def length_hash160 pushData_def op_defs)
qed

lemma p2wpkh_tx_inputs:
  "inputs p2wpkh_tx = [inp] \<Longrightarrow> fresh_p2wpkh inp \<and> spendable toy_ecc (Bytes (replicate 32 7)) inp"
  using toy_p2wpkh [of "replicate 32 7"] length_hash160 [of "2 # replicate 32 7"]
    DataCompare_0_iff [of "p2wpkhPubScriptFromPubKey toy_ecc (pubKey toy_ecc (Bytes (replicate 32 7)))"
      "p2wpkhPubScriptFromPubKey toy_ecc (pubKey toy_ecc (Bytes (replicate 32 7)))"]
  by (auto simp: p2wpkh_tx_def TransactionAddInput_def TransactionEmpty_def fresh_p2wpkh_def spendable_def
      TransactionInputType_def DataEqual_def small_data_def input_zero_def op_defs)

lemma p2wpkh_tx_one: "\<exists>inp. inputs p2wpkh_tx = [inp]"
  by (simp add: p2wpkh_tx_def TransactionAddInput_def TransactionEmpty_def)

lemma toy_key_checks: "allCheckSigs (Bytes (2 # replicate 32 7)) = []"
  by code_simp

theorem p2wpkh_sign_validates_witness:
  "\<exists>t'. TransactionSign toy_ecc p2wpkh_tx [Bytes (replicate 32 7)] = Inr (t', [0])
     \<and> TransactionValidateSignature toy_ecc t' 0 = Inr True"
proof -
  let ?k = "Bytes (replicate 32 7)"
  obtain inp where inp: "inputs p2wpkh_tx = [inp]" using p2wpkh_tx_one ..
  have fresh: "fresh_p2wpkh inp" "spendable toy_ecc ?k inp" using p2wpkh_tx_inputs [OF inp] by simp_all
  have pub: "pubKey toy_ecc ?k = Bytes (2 # replicate 32 7)" by (rule toy_pubKey) simp
  have "TransactionWitnessDigest (set_script 0 (p2wpkhImpliedScript toy_ecc (pubKey toy_ecc ?k)) p2wpkh_tx) 0 \<noteq> DataNull"
    using fresh inp by (intro p2wpkh_digest) simp_all
  then have len: "dlength (p2wpkh_signature toy_ecc ?k p2wpkh_tx 0) \<noteq> 64"
    unfolding p2wpkh_signature_def by (subst toy_sign) simp_all
  have "dlength ?k = 32" "pubKey toy_ecc ?k \<noteq> DataNull" "\<forall>inp \<in> set (inputs p2wpkh_tx). fresh_p2wpkh inp"
      "\<forall>tok \<in> set (allCheckSigs (pubKey toy_ecc ?k)). \<not> is_checkmultisig (op tok)"
    using inp fresh unfolding pub toy_key_checks by simp_all
  from p2wpkh_sign_validates [OF toy_ecc_correct this] show ?thesis
    using inp fresh len by auto
qed

end
