(* ===== verification/Sha512.thy ===== *)
theory Sha512
  imports Sha256
begin

text \<open>
  \<open>src/libraries/sha512/sha512.c\<close> and its caller \<open>sha512\<close> of \<open>src/code/BTCUtil.c\<close>: a context with a
  128-byte buffer that is filled and flushed by whole chunks, two 64-bit counters of bytes, and a
  padding that goes through the update function itself. The reference definition hashes the padded
  message block by block.
\<close>

section \<open>The compression function\<close>

definition ROTR :: "u64 \<Rightarrow> nat \<Rightarrow> u64" where
  "ROTR x n = drop_bit n x OR push_bit (64 - n) x"

definition sha512_S0 :: "u64 \<Rightarrow> u64" where
  "sha512_S0 x = ROTR x 1 XOR ROTR x 8 XOR drop_bit 7 x"

definition sha512_S1 :: "u64 \<Rightarrow> u64" where
  "sha512_S1 x = ROTR x 19 XOR ROTR x 61 XOR drop_bit 6 x"

definition sha512_S2 :: "u64 \<Rightarrow> u64" where
  "sha512_S2 x = ROTR x 28 XOR ROTR x 34 XOR ROTR x 39"

definition sha512_S3 :: "u64 \<Rightarrow> u64" where
  "sha512_S3 x = ROTR x 14 XOR ROTR x 18 XOR ROTR x 41"

definition sha512_F0 :: "u64 \<Rightarrow> u64 \<Rightarrow> u64 \<Rightarrow> u64" where
  "sha512_F0 x y z = (x AND y) OR (z AND (x OR y))"

definition sha512_F1 :: "u64 \<Rightarrow> u64 \<Rightarrow> u64 \<Rightarrow> u64" where
  "sha512_F1 x y z = z XOR (x AND (y XOR z))"

definition sha512_K :: "u64 list" where
  "sha512_K = concat [
    [0x428A2F98D728AE22, 0x7137449123EF65CD, 0xB5C0FBCFEC4D3B2F, 0xE9B5DBA58189DBBC],
    [0x3956C25BF348B538, 0x59F111F1B605D019, 0x923F82A4AF194F9B, 0xAB1C5ED5DA6D8118],
    [0xD807AA98A3030242, 0x12835B0145706FBE, 0x243185BE4EE4B28C, 0x550C7DC3D5FFB4E2],
    [0x72BE5D74F27B896F, 0x80DEB1FE3B1696B1, 0x9BDC06A725C71235, 0xC19BF174CF692694],
    [0xE49B69C19EF14AD2, 0xEFBE4786384F25E3, 0x0FC19DC68B8CD5B5, 0x240CA1CC77AC9C65],
    [0x2DE92C6F592B0275, 0x4A7484AA6EA6E483, 0x5CB0A9DCBD41FBD4, 0x76F988DA831153B5],
    [0x983E5152EE66DFAB, 0xA831C66D2DB43210, 0xB00327C898FB213F, 0xBF597FC7BEEF0EE4],
    [0xC6E00BF33DA88FC2, 0xD5A79147930AA725, 0x06CA6351E003826F, 0x142929670A0E6E70],
    [0x27B70A8546D22FFC, 0x2E1B21385C26C926, 0x4D2C6DFC5AC42AED, 0x53380D139D95B3DF],
    [0x650A73548BAF63DE, 0x766A0ABB3C77B2A8, 0x81C2C92E47EDAEE6, 0x92722C851482353B],
    [0xA2BFE8A14CF10364, 0xA81A664BBC423001, 0xC24B8B70D0F89791, 0xC76C51A30654BE30],
    [0xD192E819D6EF5218, 0xD69906245565A910, 0xF40E35855771202A, 0x106AA07032BBD1B8],
    [0x19A4C116B8D2D0C8, 0x1E376C085141AB53, 0x2748774CDF8EEB99, 0x34B0BCB5E19B48A8],
    [0x391C0CB3C5C95A63, 0x4ED8AA4AE3418ACB, 0x5B9CCA4F7763E373, 0x682E6FF3D6B2B8A3],
    [0x748F82EE5DEFB2FC, 0x78A5636F43172F60, 0x84C87814A1F0AB72, 0x8CC702081A6439EC],
    [0x90BEFFFA23631E28, 0xA4506CEBDE82BDE9, 0xBEF9A3F7B2C67915, 0xC67178F2E372532B],
    [0xCA273ECEEA26619C, 0xD186B8C721C0C207, 0xEADA7DD6CDE0EB1E, 0xF57D4F7FEE6ED178],
    [0x06F067AA72176FBA, 0x0A637DC5A2C898A6, 0x113F9804BEF90DAE, 0x1B710B35131C471B],
    [0x28DB77F523047D84, 0x32CAAB7B40C72493, 0x3C9EBE0A15C9BEBC, 0x431D67C49C100D4C],
    [0x4CC5D4BECB3E42B6, 0x597F299CFC657E2A, 0x5FCB6FAB3AD6FAEC, 0x6C44198C4A475817]]"

definition GET_UINT64_BE :: "bytes \<Rightarrow> nat \<Rightarrow> u64" where
  "GET_UINT64_BE b i = push_bit 56 (ucast (b ! i)) OR push_bit 48 (ucast (b ! (i + 1)))
     OR push_bit 40 (ucast (b ! (i + 2))) OR push_bit 32 (ucast (b ! (i + 3)))
     OR push_bit 24 (ucast (b ! (i + 4))) OR push_bit 16 (ucast (b ! (i + 5)))
     OR push_bit 8 (ucast (b ! (i + 6))) OR ucast (b ! (i + 7))"

definition sha512_schedule :: "bytes \<Rightarrow> u64 list" where
  "sha512_schedule d =
     fold (\<lambda>i W. W @ [sha512_S1 (W ! (i - 2)) + W ! (i - 7) + sha512_S0 (W ! (i - 15)) + W ! (i - 16)])
       [16..<80] (map (\<lambda>i. GET_UINT64_BE d (8 * i)) [0..<16])"

type_synonym working64 = "u64 \<times> u64 \<times> u64 \<times> u64 \<times> u64 \<times> u64 \<times> u64 \<times> u64"

text \<open>
  One call of the macro \<open>P\<close>. The source rotates the names of the eight registers from call to
  call, which is a rotation of the tuple; after 80 calls every register has its own name again.
\<close>

definition sha512_P :: "u64 list \<Rightarrow> nat \<Rightarrow> working64 \<Rightarrow> working64" where
  "sha512_P W i = (\<lambda>(a, b, c, d, e, f, g, h).
     let temp1 = h + sha512_S3 e + sha512_F1 e f g + sha512_K ! i + W ! i;
         temp2 = sha512_S2 a + sha512_F0 a b c
     in (temp1 + temp2, a, b, c, d + temp1, e, f, g))"

definition sha512_compress :: "u64 list \<Rightarrow> bytes \<Rightarrow> u64 list" where
  "sha512_compress st d =
     (let (a, b, c, d', e, f, g, h) = fold (sha512_P (sha512_schedule d)) [0..<80]
            (st ! 0, st ! 1, st ! 2, st ! 3, st ! 4, st ! 5, st ! 6, st ! 7)
      in [st ! 0 + a, st ! 1 + b, st ! 2 + c, st ! 3 + d', st ! 4 + e, st ! 5 + f, st ! 6 + g, st ! 7 + h])"

section \<open>The streaming context\<close>

record sha512_context =
  total0 :: u64
  total1 :: u64
  state512 :: "u64 list"
  buffer :: bytes

definition mbedtls_sha512_init :: sha512_context where
  "mbedtls_sha512_init = \<lparr>total0 = 0, total1 = 0, state512 = replicate 8 0, buffer = replicate 128 0\<rparr>"

definition sha512_init_state :: "u64 list" where
  "sha512_init_state = [0x6A09E667F3BCC908, 0xBB67AE8584CAA73B, 0x3C6EF372FE94F82B, 0xA54FF53A5F1D36F1,
     0x510E527FADE682D1, 0x9B05688C2B3E6C1F, 0x1F83D9ABFB41BD6B, 0x5BE0CD19137E2179]"

definition mbedtls_sha512_starts :: "sha512_context \<Rightarrow> sha512_context" where
  "mbedtls_sha512_starts ctx = ctx\<lparr>total0 := 0, total1 := 0, state512 := sha512_init_state\<rparr>"

definition mbedtls_sha512_init_and_start :: sha512_context where
  "mbedtls_sha512_init_and_start = mbedtls_sha512_starts mbedtls_sha512_init"

definition mbedtls_sha512_process :: "sha512_context \<Rightarrow> bytes \<Rightarrow> sha512_context" where
  "mbedtls_sha512_process ctx d = ctx\<lparr>state512 := sha512_compress (state512 ctx) d\<rparr>"

text \<open>\<open>memcpy\<close> into the middle of an array.\<close>

definition memcpy_at :: "nat \<Rightarrow> bytes \<Rightarrow> bytes \<Rightarrow> bytes" where
  "memcpy_at i src dst = take i dst @ src @ drop (i + length src) dst"

function process_blocks :: "sha512_context \<Rightarrow> bytes \<Rightarrow> sha512_context \<times> bytes" where
  "process_blocks ctx input =
     (if 128 \<le> length input then process_blocks (mbedtls_sha512_process ctx (take 128 input)) (drop 128 input)
      else (ctx, input))"
  by pat_completeness auto
termination
  by (relation "measure (\<lambda>(_, input). length input)") auto

declare process_blocks.simps [simp del]

definition mbedtls_sha512_update :: "sha512_context \<Rightarrow> bytes \<Rightarrow> sha512_context" where
  "mbedtls_sha512_update ctx input =
     (if input = [] then ctx
      else let left = unat (total0 ctx AND 0x7F);
               fill = 128 - left;
               ctx = ctx\<lparr>total0 := total0 ctx + of_nat (length input)\<rparr>;
               ctx = (if total0 ctx < of_nat (length input) then ctx\<lparr>total1 := total1 ctx + 1\<rparr> else ctx);
               (ctx, input, left) =
                 (if left \<noteq> 0 \<and> fill \<le> length input
                  then let ctx = ctx\<lparr>buffer := memcpy_at left (take fill input) (buffer ctx)\<rparr>
                       in (mbedtls_sha512_process ctx (buffer ctx), drop fill input, 0)
                  else (ctx, input, left));
               (ctx, input) = process_blocks ctx input
           in if input \<noteq> [] then ctx\<lparr>buffer := memcpy_at left input (buffer ctx)\<rparr> else ctx)"

definition sha512_padding :: bytes where
  "sha512_padding = 0x80 # replicate 127 0"

definition PUT_UINT64_BE :: "u64 \<Rightarrow> bytes" where
  "PUT_UINT64_BE n = [ucast (drop_bit 56 n), ucast (drop_bit 48 n), ucast (drop_bit 40 n), ucast (drop_bit 32 n),
     ucast (drop_bit 24 n), ucast (drop_bit 16 n), ucast (drop_bit 8 n), ucast n]"

definition state512_bytes :: "u64 list \<Rightarrow> bytes" where
  "state512_bytes st = concat (map PUT_UINT64_BE (take 8 st))"

definition sha512_finished :: "sha512_context \<Rightarrow> sha512_context" where
  "sha512_finished ctx =
     (let high = drop_bit 61 (total0 ctx) OR push_bit 3 (total1 ctx);
          low = push_bit 3 (total0 ctx);
          msglen = PUT_UINT64_BE high @ PUT_UINT64_BE low;
          last = unat (total0 ctx AND 0x7F);
          padn = (if last < 112 then 112 - last else 240 - last)
      in mbedtls_sha512_update (mbedtls_sha512_update ctx (take padn sha512_padding)) msglen)"

definition mbedtls_sha512_finish :: "sha512_context \<Rightarrow> bytes" where
  "mbedtls_sha512_finish ctx = state512_bytes (state512 (sha512_finished ctx))"

definition sha512 :: "data \<Rightarrow> data" where
  "sha512 d = (case d of DataNull \<Rightarrow> DataNull
     | Bytes bs \<Rightarrow> Bytes (mbedtls_sha512_finish
         (mbedtls_sha512_update (mbedtls_sha512_starts mbedtls_sha512_init) bs)))"

section \<open>The reference: padding, then block by block\<close>

function sha512_blocks :: "u64 list \<Rightarrow> bytes \<Rightarrow> u64 list" where
  "sha512_blocks st bs =
     (if length bs < 128 then st else sha512_blocks (sha512_compress st (take 128 bs)) (drop 128 bs))"
  by pat_completeness auto
termination
  by (relation "measure (\<lambda>(st, bs). length bs)") auto

declare sha512_blocks.simps [simp del]

definition sha512_pad :: "nat \<Rightarrow> bytes" where
  "sha512_pad len = 0x80 # replicate ((239 - len mod 128) mod 128) 0
     @ be64 (of_nat (8 * len div 2 ^ 64)) @ be64 (of_nat (8 * len))"

definition sha512_spec :: "bytes \<Rightarrow> bytes" where
  "sha512_spec bs = concat (map be64 (sha512_blocks sha512_init_state (bs @ sha512_pad (length bs))))"

section \<open>The streaming code computes the reference\<close>

interpretation sha5: block_chain 128 sha512_compress sha512_blocks
  by unfold_locales (simp, subst sha512_blocks.simps, rule refl)

definition ctx_after512 :: "bytes \<Rightarrow> sha512_context \<Rightarrow> bool" where
  "ctx_after512 bs ctx \<longleftrightarrow> length (buffer ctx) = 128 \<and> total0 ctx = of_nat (length bs)
     \<and> (length bs < 2 ^ 64 \<longrightarrow> total1 ctx = 0)
     \<and> take (length bs mod 128) (buffer ctx) = tail_n 128 bs
     \<and> state512 ctx = sha512_blocks sha512_init_state bs"

lemma PUT_be64: "PUT_UINT64_BE n = be64 n"
  by (simp add: PUT_UINT64_BE_def be64_def upt_rec)

lemma unat_and_7F: "unat (of_nat n AND 0x7F :: u64) = n mod 128"
proof -
  have "(0x7F :: u64) = mask 7" by (simp add: mask_eq_exp_minus_1)
  then have "of_nat n AND 0x7F = take_bit 7 (of_nat n :: u64)" by (simp add: take_bit_eq_mask)
  then show ?thesis by (simp add: unsigned_take_bit_eq unsigned_of_nat take_bit_take_bit) (simp add: take_bit_eq_mod)
qed

lemma length_memcpy_at: "i + length src \<le> length dst \<Longrightarrow> length (memcpy_at i src dst) = length dst"
  by (simp add: memcpy_at_def)

lemma process_blocks_eq:
  "process_blocks ctx input = (ctx\<lparr>state512 := sha512_blocks (state512 ctx) input\<rparr>, tail_n 128 input)"
proof (induction ctx input rule: process_blocks.induct)
  case (1 ctx input)
  show ?case
  proof (cases "128 \<le> length input")
    case True
    then show ?thesis
      using 1 sha5.step_append [of input "state512 ctx" "[]"]
      by (subst process_blocks.simps) (simp add: mbedtls_sha512_process_def tail_n_drop)
  next
    case False
    then show ?thesis by (subst process_blocks.simps) (simp add: sha5.small tail_n_small)
  qed
qed

lemma tail_n_block: "length d = n \<Longrightarrow> tail_n n (d @ cs) = tail_n n cs"
  by (subst tail_n_append) (simp add: tail_n_def)

lemma no_carry:
  assumes "a + b < 2 ^ 64"
  shows "\<not> (of_nat a + of_nat b :: u64) < of_nat b"
proof -
  have "unat (of_nat (a + b) :: u64) = a + b" "unat (of_nat b :: u64) = b"
    using assms by (intro unat_of_nat_small, simp)+
  then show ?thesis unfolding of_nat_add [symmetric] word_less_nat_alt by simp
qed

lemma update512_step:
  assumes "ctx_after512 bs ctx" "cs \<noteq> []"
    and "state512 ctx' = sha512_blocks sha512_init_state (bs @ cs)" "total0 ctx' = total0 ctx + of_nat (length cs)"
    and "total1 ctx' = (if total0 ctx' < of_nat (length cs) then total1 ctx + 1 else total1 ctx)"
    and "length (buffer ctx') = 128" "take (length (tail_n 128 (bs @ cs))) (buffer ctx') = tail_n 128 (bs @ cs)"
  shows "ctx_after512 (bs @ cs) ctx'"
proof -
  have "total1 ctx' = 0" if "length (bs @ cs) < 2 ^ 64"
    using assms(1,4,5) that no_carry [of "length bs" "length cs"] by (simp add: ctx_after512_def)
  then show ?thesis using assms by (simp add: ctx_after512_def length_tail_n)
qed

lemma buffer_tail:
  assumes "length buf = 128" "i + length t \<le> 128" "take i buf = s" "length s = i"
  shows "take (length (s @ t)) (memcpy_at i t buf) = s @ t" "length (memcpy_at i t buf) = 128"
  using assms by (simp_all add: memcpy_at_def)

lemma ctx_after512_update:
  assumes "ctx_after512 bs ctx"
  shows "ctx_after512 (bs @ cs) (mbedtls_sha512_update ctx cs)"
proof (cases "cs = []")
  case True
  then show ?thesis using assms by (simp add: mbedtls_sha512_update_def)
next
  case ne: False
  let ?n = "length bs mod 128" and ?st = "sha512_blocks sha512_init_state bs"
  let ?c1 = "if total0 ctx + of_nat (length cs) < of_nat (length cs) then total1 ctx + 1 else total1 ctx"
  have c: "length (buffer ctx) = 128" "take ?n (buffer ctx) = tail_n 128 bs" "state512 ctx = ?st"
    "unat (total0 ctx AND 0x7F) = ?n" using assms unat_and_7F by (simp_all add: ctx_after512_def)
  have st: "sha512_blocks sha512_init_state (bs @ cs) = sha512_blocks ?st (tail_n 128 bs @ cs)" by (rule sha5.append)
  have tl: "length (tail_n 128 bs) = ?n" "?n < 128" by (simp_all add: length_tail_n)
  have tr: "length (tail_n 128 xs) \<le> 128" for xs by (simp add: length_tail_n order.strict_implies_order)
  show ?thesis
  proof (cases "?n \<noteq> 0 \<and> 128 - ?n \<le> length cs")
    case True
    let ?d = "tail_n 128 bs @ take (128 - ?n) cs" and ?r = "drop (128 - ?n) cs"
    have d: "length ?d = 128" using True tl by simp
    have mem: "memcpy_at ?n (take (128 - ?n) cs) (buffer ctx) = ?d" using True tl c by (simp add: memcpy_at_def)
    have split: "tail_n 128 bs @ cs = ?d @ ?r" by simp
    have tail: "tail_n 128 (bs @ cs) = tail_n 128 ?r"
      by (subst tail_n_append) (simp only: split tail_n_block [OF d])
    have "mbedtls_sha512_update ctx cs = ctx\<lparr>total0 := total0 ctx + of_nat (length cs), total1 := ?c1,
        state512 := sha512_blocks (sha512_compress ?st ?d) ?r,
        buffer := if tail_n 128 ?r \<noteq> [] then memcpy_at 0 (tail_n 128 ?r) ?d else ?d\<rparr>"
      using True ne mem c by (simp add: mbedtls_sha512_update_def process_blocks_eq mbedtls_sha512_process_def Let_def)
    moreover have "sha512_blocks sha512_init_state (bs @ cs) = sha512_blocks (sha512_compress ?st ?d) ?r"
      unfolding st split by (rule sha5.block [OF d])
    moreover have "length (memcpy_at 0 (tail_n 128 ?r) ?d) = 128"
        "take (length (tail_n 128 ?r)) (memcpy_at 0 (tail_n 128 ?r) ?d) = tail_n 128 ?r"
      using buffer_tail [OF d, of 0 "tail_n 128 ?r" "[]"] tr by simp_all
    ultimately show ?thesis
      using d by (intro update512_step [OF assms ne]) (simp_all only: tail, simp_all)
  next
    case False
    have "mbedtls_sha512_update ctx cs = ctx\<lparr>total0 := total0 ctx + of_nat (length cs), total1 := ?c1,
        state512 := sha512_blocks ?st cs,
        buffer := if tail_n 128 cs \<noteq> [] then memcpy_at ?n (tail_n 128 cs) (buffer ctx) else buffer ctx\<rparr>"
      using False ne c by (auto simp: mbedtls_sha512_update_def process_blocks_eq mbedtls_sha512_process_def Let_def)
    moreover have "sha512_blocks ?st (tail_n 128 bs @ cs) = sha512_blocks ?st cs"
    proof (cases "?n = 0")
      case n: False
      then have "length (tail_n 128 bs @ cs) < 128" "length cs < 128" using False tl by simp_all
      then show ?thesis by (simp only: sha5.small)
    qed (use tl in simp)
    moreover have "tail_n 128 (bs @ cs) = tail_n 128 bs @ tail_n 128 cs \<and> ?n + length (tail_n 128 cs) \<le> 128"
    proof (cases "?n = 0")
      case n: False
      then have "length (tail_n 128 bs @ cs) < 128" "length cs < 128" using False tl by simp_all
      then show ?thesis by (subst tail_n_append) (simp add: tail_n_small tl)
    next
      case True
      then show ?thesis using tl tr tail_n_append [of 128 bs cs] by simp
    qed
    ultimately show ?thesis
      using buffer_tail [OF c(1) _ c(2) tl(1), of "tail_n 128 cs"] c tl
      by (intro update512_step [OF assms ne]) (auto simp: st)
  qed
qed

lemma sha512_pad_length: "(length bs + length (sha512_pad (length bs))) mod 128 = 0"
proof -
  let ?r = "length bs mod 128"
  have "?r < 128" by simp
  then have "(?r + Suc ((239 - ?r) mod 128 + 16)) mod 128 = 0"
    by (cases "?r < 112") (simp_all add: le_mod_geq)
  then show ?thesis by (simp add: sha512_pad_def be64_def mod_add_left_eq)
qed

lemma high_word:
  assumes "n < 2 ^ 64"
  shows "(drop_bit 61 (of_nat n) :: u64) = of_nat (8 * n div 2 ^ 64)"
proof -
  have "8 * n div 2 ^ 64 = n div 2 ^ 61" by simp
  moreover have "unat (of_nat n :: u64) = n" using assms by (intro unat_of_nat_small) simp
  then have "unat (drop_bit 61 (of_nat n) :: u64) = n div 2 ^ 61" by (simp only: unat_drop_bit_eq) (simp only: drop_bit_eq_div)
  then have "(drop_bit 61 (of_nat n) :: u64) = of_nat (n div 2 ^ 61)" by (metis of_nat_unat ucast_id)
  ultimately show ?thesis by simp
qed

lemma finished512:
  assumes "ctx_after512 bs ctx" "length bs < 2 ^ 64"
  shows "ctx_after512 (bs @ sha512_pad (length bs)) (sha512_finished ctx)"
proof -
  let ?n = "length bs mod 128"
  let ?padn = "if ?n < 112 then 112 - ?n else 240 - ?n"
  have c: "total0 ctx = of_nat (length bs)" "total1 ctx = 0" "unat (total0 ctx AND 0x7F) = ?n"
    using assms unat_and_7F by (simp_all add: ctx_after512_def)
  have "?n < 128" by simp
  then have "take ?padn sha512_padding = 0x80 # replicate ((239 - ?n) mod 128) 0"
    by (cases "?n < 112") (auto simp: sha512_padding_def take_Cons' le_mod_geq min_def)
  moreover have "PUT_UINT64_BE (drop_bit 61 (total0 ctx) OR push_bit 3 (total1 ctx)) @ PUT_UINT64_BE (push_bit 3 (total0 ctx))
      = be64 (of_nat (8 * length bs div 2 ^ 64)) @ be64 (of_nat (8 * length bs))"
    using high_word [OF assms(2)] by (simp add: c PUT_be64 push_bit_eq_mult mult.commute)
  ultimately have "sha512_finished ctx = mbedtls_sha512_update (mbedtls_sha512_update ctx (0x80 # replicate ((239 - ?n) mod 128) 0))
      (be64 (of_nat (8 * length bs div 2 ^ 64)) @ be64 (of_nat (8 * length bs)))"
    by (simp only: sha512_finished_def Let_def c(3))
  then show ?thesis
    using ctx_after512_update [OF ctx_after512_update [OF assms(1)], of "0x80 # replicate ((239 - ?n) mod 128) 0"]
    unfolding sha512_pad_def by simp
qed

lemma length_sha512_compress: "length (sha512_compress st d) = 8"
  by (simp add: sha512_compress_def Let_def split: prod.split)

lemma length_sha512_blocks: "length st = 8 \<Longrightarrow> length (sha512_blocks st bs) = 8"
  by (induction st bs rule: sha512_blocks.induct) (subst sha512_blocks.simps, simp add: length_sha512_compress)

lemma length_be64: "length (concat (map be64 ws)) = 8 * length ws"
  by (induction ws) (simp_all add: be64_def)

lemma length_sha512_spec: "length (sha512_spec bs) = 64"
  by (simp add: sha512_spec_def length_be64 length_sha512_blocks sha512_init_state_def)

lemma state512_spec:
  assumes "ctx_after512 bs ctx" "length bs < 2 ^ 64"
  shows "state512 (sha512_finished ctx) = sha512_blocks sha512_init_state (bs @ sha512_pad (length bs))"
  using finished512 [OF assms] by (simp add: ctx_after512_def)

lemma state512_bytes_eq: "length st = 8 \<Longrightarrow> state512_bytes st = concat (map be64 st)"
  by (simp add: state512_bytes_def PUT_be64 [abs_def])

lemma finish512_spec:
  assumes "ctx_after512 bs ctx" "length bs < 2 ^ 64"
  shows "mbedtls_sha512_finish ctx = sha512_spec bs"
proof -
  have "length (sha512_blocks sha512_init_state (bs @ sha512_pad (length bs))) = 8"
    by (rule length_sha512_blocks) (simp add: sha512_init_state_def)
  then show ?thesis
    using state512_spec [OF assms] by (simp add: mbedtls_sha512_finish_def sha512_spec_def state512_bytes_eq)
qed

lemma ctx_after512_start:
  "ctx_after512 [] (mbedtls_sha512_starts mbedtls_sha512_init)"
  by (simp add: ctx_after512_def mbedtls_sha512_starts_def mbedtls_sha512_init_def tail_n_def sha512_blocks.simps)

lemma sha512_eq_spec: "length bs < 2 ^ 64 \<Longrightarrow> sha512 (Bytes bs) = Bytes (sha512_spec bs)"
  using ctx_after512_update [OF ctx_after512_start, of bs] by (simp add: sha512_def finish512_spec)

lemma ctx_after512_parts:
  "ctx_after512 bs ctx \<Longrightarrow> ctx_after512 (bs @ concat parts) (fold (\<lambda>part ctx. mbedtls_sha512_update ctx part) parts ctx)"
proof (induction parts arbitrary: bs ctx)
  case (Cons p parts)
  from Cons.IH [OF ctx_after512_update [OF Cons.prems]] show ?case by simp
qed simp

text \<open>
  The streaming SHA-512, for every way of splitting the message into calls of the update
  function, computes the digest of FIPS 180-4 for messages of less than 2 to the 64 bytes: the
  message padded with 0x80, zeros and its bit length as a 128 bit big endian number, compressed
  block by block.
\<close>

lemma sha512_stream_spec:
  assumes "length (concat parts) < 2 ^ 64"
  shows "mbedtls_sha512_finish (fold (\<lambda>part ctx. mbedtls_sha512_update ctx part) parts mbedtls_sha512_init_and_start)
    = sha512_spec (concat parts)"
  using ctx_after512_parts [OF ctx_after512_start, of parts] assms
  by (simp add: finish512_spec mbedtls_sha512_init_and_start_def)

end
