(* ===== verification/Hmac.thy ===== *)
theory Hmac
  imports Sha512
begin

text \<open>
  \<open>src/libraries/hmac_and_pbkdf/hmac_and_pbkdf.h\<close> with its callers \<open>CCHmac\<close> and
  \<open>CCKeyDerivationPBKDF\<close>. The header is a macro over a hash implementation; the model is a set of
  definitions over a record of the operations the macro is given, with one instance for each of
  the two expansions. The locale \<open>stream_hash\<close> states what the macro relies on, and is interpreted
  on both instances.
\<close>

section \<open>The macro\<close>

record 'c hash_ops =
  h_blocksz :: nat
  h_hashsz :: nat
  h_init :: 'c
  h_update :: "'c \<Rightarrow> bytes \<Rightarrow> 'c"
  h_xform :: "'c \<Rightarrow> bytes \<Rightarrow> 'c"
  h_final :: "'c \<Rightarrow> bytes \<times> 'c"
  h_xcpy :: "'c \<Rightarrow> 'c \<Rightarrow> 'c"
  h_xtract :: "'c \<Rightarrow> bytes"
  h_xxor :: "'c \<Rightarrow> 'c \<Rightarrow> 'c"

record 'c hmac_ctx =
  inner :: 'c
  outer :: 'c

definition write32_be :: "u32 \<Rightarrow> bytes" where
  "write32_be n = [ucast (drop_bit 24 n AND 0xff), ucast (drop_bit 16 n AND 0xff),
     ucast (drop_bit 8 n AND 0xff), ucast (n AND 0xff)]"

definition write64_be :: "u64 \<Rightarrow> bytes" where
  "write64_be n = write32_be (ucast (drop_bit 32 n AND 0xffffffff)) @ write32_be (ucast (n AND 0xffffffff))"

definition md_pad :: "bytes \<Rightarrow> nat \<Rightarrow> nat \<Rightarrow> nat \<Rightarrow> bytes" where
  "md_pad block blocksz used msg =
     (let block = memcpy_at used (replicate (blocksz - used - 4) 0) block;
          block = block[used := 0x80]
      in memcpy_at (blocksz - 4) (write32_be (of_nat (msg * 8))) block)"

definition HMAC_INIT :: "'c hash_ops \<Rightarrow> bytes \<Rightarrow> 'c hmac_ctx" where
  "HMAC_INIT H key =
     (let key = (if length key > h_blocksz H then take (h_hashsz H) (fst (h_final H (h_update H (h_init H) key))) else key);
          k = key @ replicate (h_blocksz H - length key) 0;
          blk_inner = map (\<lambda>b. 0x36 XOR b) k;
          blk_outer = map (\<lambda>b. 0x5c XOR b) k
      in \<lparr>inner = h_update H (h_init H) blk_inner, outer = h_update H (h_init H) blk_outer\<rparr>)"

definition HMAC_UPDATE :: "'c hash_ops \<Rightarrow> 'c hmac_ctx \<Rightarrow> bytes \<Rightarrow> 'c hmac_ctx" where
  "HMAC_UPDATE H ctx d = ctx\<lparr>inner := h_update H (inner ctx) d\<rparr>"

definition HMAC_FINAL :: "'c hash_ops \<Rightarrow> 'c hmac_ctx \<Rightarrow> bytes \<times> 'c hmac_ctx" where
  "HMAC_FINAL H ctx =
     (let (out, inn) = h_final H (inner ctx);
          outr = h_update H (outer ctx) (take (h_hashsz H) out);
          (out, outr) = h_final H outr
      in (out, ctx\<lparr>inner := inn, outer := outr\<rparr>))"

definition pbkdf2_round :: "'c hash_ops \<Rightarrow> 'c hmac_ctx \<Rightarrow> 'c hmac_ctx \<times> bytes \<times> 'c \<Rightarrow> 'c hmac_ctx \<times> bytes \<times> 'c" where
  "pbkdf2_round H startctx = (\<lambda>(ctx, Ublock, result).
     let ctx = ctx\<lparr>inner := h_xform H (h_xcpy H (inner ctx) (inner startctx)) Ublock\<rparr>;
         Ublock = memcpy_at 0 (h_xtract H (inner ctx)) Ublock;
         ctx = ctx\<lparr>outer := h_xform H (h_xcpy H (outer ctx) (outer startctx)) Ublock\<rparr>;
         Ublock = memcpy_at 0 (h_xtract H (outer ctx)) Ublock
     in (ctx, Ublock, h_xxor H result (outer ctx)))"

text \<open>\<open>stack\<close> is what the uninitialised block holds.\<close>

definition PBKDF2_F :: "'c hash_ops \<Rightarrow> bytes \<Rightarrow> 'c hmac_ctx \<Rightarrow> u32 \<Rightarrow> bytes \<Rightarrow> u32 \<Rightarrow> bytes" where
  "PBKDF2_F H stack startctx counter salt iterations =
     (let countbuf = write32_be counter;
          Ublock = md_pad stack (h_blocksz H) (h_hashsz H) (h_blocksz H + h_hashsz H);
          ctx = HMAC_UPDATE H (HMAC_UPDATE H startctx salt) countbuf;
          (out, ctx) = HMAC_FINAL H ctx;
          Ublock = memcpy_at 0 out Ublock;
          (ctx, Ublock, result) = fold (\<lambda>_. pbkdf2_round H startctx) [1..<unat iterations] (ctx, Ublock, outer ctx)
      in h_xtract H result)"

definition PBKDF2_block :: "'c hash_ops \<Rightarrow> bytes \<Rightarrow> 'c hmac_ctx \<Rightarrow> bytes \<Rightarrow> u32 \<Rightarrow> nat \<Rightarrow> nat \<Rightarrow> bytes \<Rightarrow> bytes" where
  "PBKDF2_block H stack ctx salt iterations nout counter out =
     (let block = PBKDF2_F H stack ctx (of_nat counter) salt iterations;
          offset = unat (of_nat ((counter - 1) * h_hashsz H) :: u32);
          taken = (if nout - offset > h_hashsz H then h_hashsz H else nout - offset)
      in memcpy_at offset (take taken block) out)"

definition PBKDF2_loop :: "'c hash_ops \<Rightarrow> bytes \<Rightarrow> bytes \<Rightarrow> bytes \<Rightarrow> u32 \<Rightarrow> bytes \<Rightarrow> bytes" where
  "PBKDF2_loop H stack pw salt iterations out =
     (let ctx = HMAC_INIT H pw;
          blocks_needed = unat (of_nat (length out + h_hashsz H - 1) :: u32) div h_hashsz H
      in fold (PBKDF2_block H stack ctx salt iterations (length out)) [1..<blocks_needed + 1] out)"

section \<open>The two expansions\<close>

definition sha256_extract :: "sha256_ctx \<Rightarrow> bytes" where
  "sha256_extract ctx = concat (map (\<lambda>i. write32_be (cstate ctx ! i)) [0..<8])"

definition sha256_cpy :: "sha256_ctx \<Rightarrow> sha256_ctx \<Rightarrow> sha256_ctx" where
  "sha256_cpy out inp = out\<lparr>cstate := map (\<lambda>i. cstate inp ! i) [0..<8]\<rparr>"

definition sha256_xor :: "sha256_ctx \<Rightarrow> sha256_ctx \<Rightarrow> sha256_ctx" where
  "sha256_xor out inp = out\<lparr>cstate := map (\<lambda>i. cstate out ! i XOR cstate inp ! i) [0..<8]\<rparr>"

definition local_sha256 :: "sha256_ctx hash_ops" where
  "local_sha256 = \<lparr>h_blocksz = 64, h_hashsz = 32, h_init = sha256_init (replicate 64 0), h_update = sha256_update,
     h_xform = sha256_transform, h_final = (\<lambda>ctx. (sha256_final ctx, sha256_finish ctx)),
     h_xcpy = sha256_cpy, h_xtract = sha256_extract, h_xxor = sha256_xor\<rparr>"

definition sha512_extract :: "sha512_context \<Rightarrow> bytes" where
  "sha512_extract ctx = concat (map (\<lambda>i. write64_be (state512 ctx ! i)) [0..<8])"

definition sha512_cpy :: "sha512_context \<Rightarrow> sha512_context \<Rightarrow> sha512_context" where
  "sha512_cpy out inp = out\<lparr>state512 := map (\<lambda>i. state512 inp ! i) [0..<8]\<rparr>"

definition sha512_xor :: "sha512_context \<Rightarrow> sha512_context \<Rightarrow> sha512_context" where
  "sha512_xor out inp = out\<lparr>state512 := map (\<lambda>i. state512 out ! i XOR state512 inp ! i) [0..<8]\<rparr>"

definition local_sha512 :: "sha512_context hash_ops" where
  "local_sha512 = \<lparr>h_blocksz = 128, h_hashsz = 64, h_init = mbedtls_sha512_init_and_start,
     h_update = mbedtls_sha512_update, h_xform = mbedtls_sha512_process,
     h_final = (\<lambda>ctx. (mbedtls_sha512_finish ctx, sha512_finished ctx)),
     h_xcpy = sha512_cpy, h_xtract = sha512_extract, h_xxor = sha512_xor\<rparr>"

definition CCHmac :: "'c hash_ops \<Rightarrow> bytes \<Rightarrow> bytes \<Rightarrow> bytes" where
  "CCHmac H key d = fst (HMAC_FINAL H (HMAC_UPDATE H (HMAC_INIT H key) d))"

definition hmacSha256 :: "data \<Rightarrow> data \<Rightarrow> data" where
  "hmacSha256 key d = Bytes (CCHmac local_sha256 (dbytes key) (dbytes d))"

definition hmacSha512 :: "data \<Rightarrow> data \<Rightarrow> data" where
  "hmacSha512 key d = Bytes (CCHmac local_sha512 (dbytes key) (dbytes d))"

text \<open>The strings are C strings, given by their bytes; the key derivation is called with 2048 rounds and 64 bytes of result.\<close>

definition PBKDF2 :: "bytes \<Rightarrow> bytes option \<Rightarrow> data" where
  "PBKDF2 sentence passphrase =
     (let str = (case passphrase of None \<Rightarrow> [] | Some p \<Rightarrow> p);
          str = map of_char ''mnemonic'' @ str
      in Bytes (PBKDF2_loop local_sha512 (replicate 128 0) sentence str 2048 (replicate 64 0)))"

section \<open>The reference: RFC 2104 and RFC 2898\<close>

definition xor_bytes :: "bytes \<Rightarrow> bytes \<Rightarrow> bytes" where
  "xor_bytes xs ys = map2 (XOR) xs ys"

definition hmac_key :: "(bytes \<Rightarrow> bytes) \<Rightarrow> nat \<Rightarrow> bytes \<Rightarrow> bytes" where
  "hmac_key hash B key = (let k = (if length key > B then hash key else key) in k @ replicate (B - length k) 0)"

definition hmac_spec :: "(bytes \<Rightarrow> bytes) \<Rightarrow> nat \<Rightarrow> bytes \<Rightarrow> bytes \<Rightarrow> bytes" where
  "hmac_spec hash B key text = (let k = hmac_key hash B key
     in hash (xor_bytes (replicate B 0x5c) k @ hash (xor_bytes (replicate B 0x36) k @ text)))"

fun pbkdf2_U :: "(bytes \<Rightarrow> bytes) \<Rightarrow> bytes \<Rightarrow> nat \<Rightarrow> bytes" where
  "pbkdf2_U prf s 0 = prf s"
| "pbkdf2_U prf s (Suc j) = prf (pbkdf2_U prf s j)"

definition pbkdf2_T :: "(bytes \<Rightarrow> bytes) \<Rightarrow> bytes \<Rightarrow> nat \<Rightarrow> nat \<Rightarrow> bytes" where
  "pbkdf2_T prf salt c i = (let s = salt @ write32_be (of_nat i)
     in fold (\<lambda>j acc. xor_bytes acc (pbkdf2_U prf s j)) [1..<c] (pbkdf2_U prf s 0))"

definition pbkdf2_spec :: "(bytes \<Rightarrow> bytes) \<Rightarrow> nat \<Rightarrow> bytes \<Rightarrow> nat \<Rightarrow> nat \<Rightarrow> bytes" where
  "pbkdf2_spec prf hLen salt c dkLen =
     take dkLen (concat (map (pbkdf2_T prf salt c) [1..<(dkLen + hLen - 1) div hLen + 1]))"

section \<open>What the macro relies on\<close>

locale stream_hash =
  fixes H :: "'c hash_ops" and after :: "bytes \<Rightarrow> 'c \<Rightarrow> bool" and hash :: "bytes \<Rightarrow> bytes"
  assumes sizes: "0 < h_hashsz H" "h_hashsz H + 5 \<le> h_blocksz H" "h_blocksz H < 1024"
    and length_hash: "length (hash bs) = h_hashsz H"
    and start: "after [] (h_init H)"
    and update: "after bs c \<Longrightarrow> after (bs @ d) (h_update H c d)"
    and final: "after bs c \<Longrightarrow> length bs < 2 ^ 64 \<Longrightarrow> fst (h_final H c) = hash bs"
    and final_state: "after bs c \<Longrightarrow> length bs < 2 ^ 64 \<Longrightarrow> h_xtract H (snd (h_final H c)) = hash bs"
    and resume: "after bs c \<Longrightarrow> length bs = h_blocksz H \<Longrightarrow> length d = h_hashsz H \<Longrightarrow> length block = h_blocksz H
      \<Longrightarrow> h_xtract H (h_xform H (h_xcpy H c' c) (memcpy_at 0 d (md_pad block (h_blocksz H) (h_hashsz H) (h_blocksz H + h_hashsz H))))
        = hash (bs @ d)"
    and xxor: "h_xtract H (h_xxor H a b) = xor_bytes (h_xtract H a) (h_xtract H b)"
begin

lemma xor_const: "length k = n \<Longrightarrow> xor_bytes (replicate n c) k = map (\<lambda>b. c XOR b) k"
  by (induction k arbitrary: n) (auto simp: xor_bytes_def length_Suc_conv)

lemma length_hmac_key: "length (hmac_key hash (h_blocksz H) key) = h_blocksz H"
  using sizes by (simp add: hmac_key_def Let_def length_hash)

lemma length_pads: "length (xor_bytes (replicate (h_blocksz H) c) (hmac_key hash (h_blocksz H) key)) = h_blocksz H"
  by (simp add: xor_bytes_def length_hmac_key)

lemma hmac_init:
  assumes "length key < 2 ^ 64"
  defines "k \<equiv> hmac_key hash (h_blocksz H) key"
  shows "after (xor_bytes (replicate (h_blocksz H) 0x36) k) (inner (HMAC_INIT H key))"
    "after (xor_bytes (replicate (h_blocksz H) 0x5c) k) (outer (HMAC_INIT H key))"
proof -
  have "fst (h_final H (h_update H (h_init H) key)) = hash key"
    using final [OF update [OF start, of key]] assms(1) by simp
  then have k: "(let key = (if length key > h_blocksz H then take (h_hashsz H) (fst (h_final H (h_update H (h_init H) key))) else key)
      in key @ replicate (h_blocksz H - length key) 0) = k"
    by (simp add: k_def hmac_key_def Let_def length_hash)
  have expand: "HMAC_INIT H key = \<lparr>inner = h_update H (h_init H) (map (\<lambda>b. 0x36 XOR b) k),
      outer = h_update H (h_init H) (map (\<lambda>b. 0x5c XOR b) k)\<rparr>"
    unfolding HMAC_INIT_def k [symmetric] Let_def by (rule refl)
  have "length k = h_blocksz H" unfolding k_def by (rule length_hmac_key)
  then show "after (xor_bytes (replicate (h_blocksz H) 0x36) k) (inner (HMAC_INIT H key))"
      "after (xor_bytes (replicate (h_blocksz H) 0x5c) k) (outer (HMAC_INIT H key))"
    using update [OF start] by (simp_all add: expand xor_const)
qed

lemma hmac_final:
  assumes "after i (inner ctx)" "after o' (outer ctx)" "length i < 2 ^ 64" "length o' + h_hashsz H < 2 ^ 64"
  shows "fst (HMAC_FINAL H ctx) = hash (o' @ hash i)"
    "h_xtract H (outer (snd (HMAC_FINAL H ctx))) = hash (o' @ hash i)"
proof -
  have "after (o' @ hash i) (h_update H (outer ctx) (hash i))" "length (o' @ hash i) < 2 ^ 64"
    using update [OF assms(2)] assms(4) by (simp_all add: length_hash)
  from final [OF this] final_state [OF this] final [OF assms(1,3)]
  show "fst (HMAC_FINAL H ctx) = hash (o' @ hash i)" "h_xtract H (outer (snd (HMAC_FINAL H ctx))) = hash (o' @ hash i)"
    by (auto simp: HMAC_FINAL_def Let_def length_hash split: prod.splits)
qed

lemma hmac_is_spec:
  assumes "length key < 2 ^ 64" "length d < 2 ^ 63"
  shows "CCHmac H key d = hmac_spec hash (h_blocksz H) key d"
proof -
  note init = hmac_init [OF assms(1)]
  have "fst (HMAC_FINAL H (HMAC_UPDATE H (HMAC_INIT H key) d)) = hmac_spec hash (h_blocksz H) key d"
    unfolding hmac_spec_def Let_def
    using assms(2) sizes update [OF init(1), of d] init(2)
    by (intro hmac_final(1)) (simp_all add: HMAC_UPDATE_def length_pads)
  then show ?thesis by (simp add: CCHmac_def)
qed


text \<open>One round of the loop: the inner and outer hash are resumed from the saved states.\<close>

lemma pbkdf2_rounds:
  assumes "after i (inner start')" "after o' (outer start')" "length i = h_blocksz H" "length o' = h_blocksz H"
    and "length stack = h_blocksz H"
  defines "pad \<equiv> md_pad stack (h_blocksz H) (h_hashsz H) (h_blocksz H + h_hashsz H)"
    and "prf \<equiv> \<lambda>u. hash (o' @ hash (i @ u))"
  assumes "h_xtract H result = prf s"
  shows "\<exists>ctx' result'. fold (\<lambda>_. pbkdf2_round H start') [1..<Suc n] (ctx, memcpy_at 0 (prf s) pad, result)
      = (ctx', memcpy_at 0 (pbkdf2_U prf s n) pad, result')
    \<and> h_xtract H result' = fold (\<lambda>j acc. xor_bytes acc (pbkdf2_U prf s j)) [1..<Suc n] (prf s)"
proof (induction n)
  case 0
  then show ?case using assms(8) by simp
next
  case (Suc n)
  then obtain c r where IH: "fold (\<lambda>_. pbkdf2_round H start') [1..<Suc n] (ctx, memcpy_at 0 (prf s) pad, result)
      = (c, memcpy_at 0 (pbkdf2_U prf s n) pad, r)"
    "h_xtract H r = fold (\<lambda>j acc. xor_bytes acc (pbkdf2_U prf s j)) [1..<Suc n] (prf s)" by blast
  let ?u = "pbkdf2_U prf s n"
  have lp: "length (prf x) = h_hashsz H" for x by (simp add: prf_def length_hash)
  then have len: "length ?u = h_hashsz H" by (cases n) simp_all
  have again: "memcpy_at 0 x (memcpy_at 0 y pad) = memcpy_at 0 x pad" if "length x = length y" for x y
    using that by (simp add: memcpy_at_def)
  have 1: "h_xtract H (h_xform H (h_xcpy H c' (inner start')) (memcpy_at 0 ?u pad)) = hash (i @ ?u)" for c'
    unfolding pad_def by (rule resume [OF assms(1,3) len assms(5)])
  have 2: "h_xtract H (h_xform H (h_xcpy H c' (outer start')) (memcpy_at 0 (hash (i @ ?u)) pad)) = prf ?u" for c'
    unfolding pad_def prf_def by (rule resume [OF assms(2,4) length_hash assms(5)])
  obtain c' r' where "pbkdf2_round H start' (c, memcpy_at 0 ?u pad, r) = (c', memcpy_at 0 (prf ?u) pad, r')"
      "h_xtract H r' = xor_bytes (h_xtract H r) (prf ?u)"
    using again [of "hash (i @ ?u)" ?u] again [of "prf ?u" "hash (i @ ?u)"] len lp [of ?u] length_hash [of "i @ ?u"]
    by (simp add: pbkdf2_round_def Let_def 1 2 xxor)
  then show ?case using IH by simp
qed

lemma pbkdf2_F_is_T:
  assumes "length pw < 2 ^ 64" "length salt < 2 ^ 63" "length stack = h_blocksz H"
  shows "PBKDF2_F H stack (HMAC_INIT H pw) counter salt iterations
    = (let s = salt @ write32_be counter; h = hmac_spec hash (h_blocksz H) pw
       in fold (\<lambda>j acc. xor_bytes acc (pbkdf2_U h s j)) [1..<unat iterations] (h s))"
proof -
  let ?k = "hmac_key hash (h_blocksz H) pw" and ?c = "HMAC_INIT H pw" and ?s = "salt @ write32_be counter"
  let ?i = "xor_bytes (replicate (h_blocksz H) 0x36) ?k" and ?o = "xor_bytes (replicate (h_blocksz H) 0x5c) ?k"
  let ?PRF = "\<lambda>u. hash (?o @ hash (?i @ u))"
  let ?pad = "md_pad stack (h_blocksz H) (h_hashsz H) (h_blocksz H + h_hashsz H)"
  note init = hmac_init [OF assms(1)]
  let ?ctx = "HMAC_UPDATE H (HMAC_UPDATE H ?c salt) (write32_be counter)"
  have ctx: "after (?i @ ?s) (inner ?ctx)" "outer ?ctx = outer ?c"
    using update [OF update [OF init(1), of salt], of "write32_be counter"] by (simp_all add: HMAC_UPDATE_def)
  have "length (?i @ ?s) < 2 ^ 64" "length ?o + h_hashsz H < 2 ^ 64"
    using assms(2) sizes by (simp_all add: length_pads write32_be_def)
  note fin = hmac_final [OF ctx(1) init(2) [folded ctx(2)] this]
  obtain out ctx' where f: "HMAC_FINAL H ?ctx = (out, ctx')" by (cases "HMAC_FINAL H ?ctx")
  then have out: "out = ?PRF ?s" "h_xtract H (outer ctx') = ?PRF ?s" using fin by simp_all
  note rounds = pbkdf2_rounds [OF init length_pads length_pads assms(3) out(2)]
  have spec: "hmac_spec hash (h_blocksz H) pw = ?PRF" by (rule ext) (simp add: hmac_spec_def Let_def)
  show ?thesis
  proof (cases "unat iterations")
    case 0
    then show ?thesis using f out by (simp add: PBKDF2_F_def Let_def spec)
  next
    case (Suc n)
    obtain c r where "fold (\<lambda>_. pbkdf2_round H ?c) [1..<Suc n] (ctx', memcpy_at 0 (?PRF ?s) ?pad, outer ctx')
        = (c, memcpy_at 0 (pbkdf2_U ?PRF ?s n) ?pad, r)"
      "h_xtract H r = fold (\<lambda>j acc. xor_bytes acc (pbkdf2_U ?PRF ?s j)) [1..<Suc n] (?PRF ?s)"
      using rounds by blast
    then show ?thesis using f out Suc by (simp add: PBKDF2_F_def Let_def spec del: upt_Suc)
  qed
qed


lemma length_T: "length (pbkdf2_T (hmac_spec hash (h_blocksz H) pw) salt c i) = h_hashsz H"
proof -
  have U: "length (pbkdf2_U (hmac_spec hash (h_blocksz H) pw) s j) = h_hashsz H" for s j
    by (cases j) (simp_all add: hmac_spec_def Let_def length_hash)
  have "length (fold (\<lambda>j acc. xor_bytes acc (pbkdf2_U (hmac_spec hash (h_blocksz H) pw) s j)) js acc) = h_hashsz H"
    if "length acc = h_hashsz H" for js acc s
    using that by (induction js arbitrary: acc) (simp_all add: xor_bytes_def U)
  then show ?thesis using U [of _ 0] by (simp add: pbkdf2_T_def Let_def)
qed

lemma pbkdf2_blocks:
  fixes iterations :: u32
  assumes "length pw < 2 ^ 64" "length salt < 2 ^ 63" "length stack = h_blocksz H" "length out + h_hashsz H \<le> 2 ^ 31"
    and "m \<le> (length out + h_hashsz H - 1) div h_hashsz H"
  defines "T \<equiv> pbkdf2_T (hmac_spec hash (h_blocksz H) pw) salt (unat iterations)"
  shows "fold (PBKDF2_block H stack (HMAC_INIT H pw) salt iterations (length out)) [1..<m + 1] out
    = take (length out) (concat (map T [1..<m + 1])) @ drop (m * h_hashsz H) out"
  using assms(5)
proof (induction m)
  case (Suc m)
  let ?hs = "h_hashsz H" let ?C = "concat (map T [1..<m + 1])"
  have len: "length ?C = m * ?hs" by (induction m) (simp_all add: T_def length_T)
  have "Suc m * ?hs \<le> length out + ?hs - 1"
    using Suc.prems sizes(1) by (metis div_times_less_eq_dividend le_trans mult_le_mono1)
  then have m: "m * ?hs < length out" using sizes(1) by simp
  have small: "m * ?hs < 2 ^ 32" using m assms(4) by simp
  then have offset: "unat (of_nat (m * ?hs) :: u32) = m * ?hs" by (intro unat_of_nat_small) simp
  have block: "PBKDF2_F H stack (HMAC_INIT H pw) (of_nat (Suc m)) salt iterations = T (Suc m)"
    using pbkdf2_F_is_T [OF assms(1-3)] by (simp add: T_def pbkdf2_T_def Let_def)
  have T: "length (T (Suc m)) = ?hs" by (simp add: T_def length_T)
  have "fold (PBKDF2_block H stack (HMAC_INIT H pw) salt iterations (length out)) [1..<Suc m + 1] out
      = PBKDF2_block H stack (HMAC_INIT H pw) salt iterations (length out) (Suc m) (?C @ drop (m * ?hs) out)"
    using Suc m len by simp
  also have "\<dots> = ?C @ take (length out - m * ?hs) (T (Suc m)) @ drop (m * ?hs + min ?hs (length out - m * ?hs)) out"
    using m len T unfolding PBKDF2_block_def Let_def block diff_Suc_1 offset
    by (simp add: memcpy_at_def min_def add.commute)
  also have "\<dots> = take (length out) (concat (map T [1..<Suc m + 1])) @ drop (Suc m * ?hs) out"
    using m len by (simp add: min_def add.commute)
  finally show ?case .
qed simp

lemma pbkdf2_is_spec:
  assumes "length pw < 2 ^ 64" "length salt < 2 ^ 63" "length stack = h_blocksz H" "length out + h_hashsz H \<le> 2 ^ 31"
  shows "PBKDF2_loop H stack pw salt iterations out
    = pbkdf2_spec (hmac_spec hash (h_blocksz H) pw) (h_hashsz H) salt (unat iterations) (length out)"
proof -
  let ?b = "(length out + h_hashsz H - 1) div h_hashsz H"
  have "unat (of_nat (length out + h_hashsz H - 1) :: u32) = length out + h_hashsz H - 1"
    using assms(4) by (intro unat_of_nat_small) simp
  moreover have "length out \<le> ?b * h_hashsz H"
  proof -
    have "length out + h_hashsz H - 1 < ?b * h_hashsz H + h_hashsz H"
      using sizes(1) by (metis add.commute dividend_less_div_times)
    then show ?thesis by simp
  qed
  ultimately show ?thesis
    using pbkdf2_blocks [OF assms order_refl, of iterations] by (simp only: PBKDF2_loop_def Let_def pbkdf2_spec_def) simp
qed

end

section \<open>Both expansions meet the interface\<close>

lemma xor_concat:
  "(\<And>i. i \<in> set is \<Longrightarrow> length (f i) = length (g i)) \<Longrightarrow>
     xor_bytes (concat (map f is)) (concat (map g is)) = concat (map (\<lambda>i. xor_bytes (f i) (g i)) is)"
  by (induction "is") (simp_all add: xor_bytes_def)

lemma write32_be_xor: "write32_be (a XOR b) = xor_bytes (write32_be a) (write32_be b)"
  by (auto simp: write32_be_def xor_bytes_def bit_simps intro!: bit_word_eqI)

lemma write64_be64: "write64_be n = be64 n"
proof -
  have m: "(0xff :: u32) = mask 8" "(0xffffffff :: u64) = mask 32" by (simp_all add: mask_eq_exp_minus_1)
  have hi: "(ucast (drop_bit k (ucast (drop_bit 32 n AND mask 32) :: u32) AND mask 8) :: u8) = ucast (drop_bit (32 + k) n)" if "k \<le> 24" for k
    using that by (intro bit_word_eqI) (auto simp: bit_simps ac_simps)
  have lo: "(ucast (drop_bit k (ucast (n AND mask 32) :: u32) AND mask 8) :: u8) = ucast (drop_bit k n)" if "k \<le> 24" for k
    using that by (intro bit_word_eqI) (auto simp: bit_simps)
  show ?thesis
    unfolding write64_be_def write32_be_def be64_def m
    using hi [of 24] hi [of 16] hi [of 8] hi [of 0] lo [of 24] lo [of 16] lo [of 8] lo [of 0]
    by (simp add: upt_rec)
qed

lemma length_write: "length (write32_be n) = 4" "length (write64_be m) = 8"
  by (simp_all add: write32_be_def write64_be_def)

lemma write64_be_xor: "write64_be (a XOR b) = xor_bytes (write64_be a) (write64_be b)"
proof -
  have "ucast (drop_bit 32 (a XOR b) AND 0xffffffff) = (ucast (drop_bit 32 a AND 0xffffffff) XOR ucast (drop_bit 32 b AND 0xffffffff) :: u32)"
      "ucast ((a XOR b) AND 0xffffffff) = (ucast (a AND 0xffffffff) XOR ucast (b AND 0xffffffff) :: u32)"
    by (auto simp: bit_simps intro!: bit_word_eqI)
  then show ?thesis by (simp add: write64_be_def write32_be_xor) (simp add: xor_bytes_def length_write)
qed

text \<open>The padding that the loop prepares is the padding of a message one block and one digest long.\<close>

lemma md_pad_eq:
  assumes "used + 5 \<le> B" "length block = B" "length d = used"
  shows "memcpy_at 0 d (md_pad block B used msg) = d @ 0x80 # replicate (B - used - 5) 0 @ write32_be (of_nat (msg * 8))"
proof -
  have "B - used - 4 = Suc (B - used - 5)" using assms(1) by simp
  then show ?thesis
    using assms by (simp add: md_pad_def memcpy_at_def Let_def list_update_append length_write nth_append add.commute)
qed

lemma length_fields:
  "be64 768 = replicate 4 0 @ write32_be 768" "be64 0 @ be64 1536 = replicate 12 0 @ write32_be 1536"
  by code_simp+

lemma nth_map_8: "length st = 8 \<Longrightarrow> map (\<lambda>i. f (st ! i)) [0..<8] = map f st"
  by (intro nth_equalityI) simp_all

lemma state_bytes_write: "length st = 8 \<Longrightarrow> state_bytes st = concat (map write32_be st)"
proof -
  have "map (\<lambda>i. ucast (drop_bit (24 - i * 8) w AND 0xff)) [0..<4] = write32_be w" for w :: u32
    by (simp add: write32_be_def upt_rec)
  then show "length st = 8 \<Longrightarrow> state_bytes st = concat (map write32_be st)" by (simp add: state_bytes_def)
qed

lemma finish_state: "ctx_after bs ctx \<Longrightarrow> length (cstate (sha256_finish ctx)) = 8"
  by (simp add: sha256_finish_def Let_def sha256_transform_def length_sha256_compress)

lemma sha256_resume:
  assumes "ctx_after bs c" "length bs = 64" "length d = 32" "length block = 64"
  shows "sha256_extract (sha256_transform (sha256_cpy c' c) (memcpy_at 0 d (md_pad block 64 32 (64 + 32)))) = sha256_spec (bs @ d)"
proof -
  let ?st = "sha256_blocks sha256_init_state bs" and ?x = "memcpy_at 0 d (md_pad block 64 32 (64 + 32))"
  have st: "cstate c = ?st" "length ?st = 8"
    using assms(1) by (simp_all add: ctx_after_def length_sha256_blocks sha256_init_state_def)
  then have cpy: "map (\<lambda>i. cstate c ! i) [0..<8] = ?st" using nth_map_8 [of ?st "\<lambda>x. x"] by simp
  have "be64 (of_nat (8 * length (bs @ d))) = replicate 4 0 @ write32_be (of_nat ((64 + 32) * 8))"
    using assms length_fields(1) by simp
  then have x: "?x = d @ sha256_pad (length (bs @ d))"
    using assms by (simp add: md_pad_eq sha256_pad_def replicate_add [of 23 4, symmetric, simplified] flip: append_assoc replicate_add)
  have "tail_of bs = []" using assms(2) by (simp add: tail_n_def)
  then have "sha256_spec (bs @ d) = state_bytes (sha256_blocks ?st ?x)"
    unfolding sha256_spec_def x by (subst append_assoc, subst sha.append) simp
  also have "sha256_blocks ?st ?x = sha256_compress ?st ?x"
    by (rule sha.one) (use assms in \<open>simp add: md_pad_eq length_write\<close>)
  finally show ?thesis
    by (simp add: state_bytes_write length_sha256_compress sha256_extract_def sha256_transform_def sha256_cpy_def cpy
        nth_map_8 [OF length_sha256_compress])
qed

interpretation hmac256: stream_hash local_sha256 ctx_after sha256_spec
proof (unfold_locales, goal_cases)
  case (7 bs c)
  then show ?case by (simp add: local_sha256_def sha256_final_spec)
next
  case (8 bs c)
  then have "sha256_spec bs = state_bytes (cstate (sha256_finish c))" using sha256_final_spec [OF 8(1)] by (simp add: sha256_final_def)
  then show ?case
    using finish_state [OF 8(1)]
    by (simp add: local_sha256_def state_bytes_write sha256_extract_def nth_map_8 [of "cstate (sha256_finish c)"])
next
  case (9 bs c d block c')
  then show ?case using sha256_resume [of bs c d block c'] by (simp add: local_sha256_def)
next
  case (10 a b)
  have "sha256_extract (sha256_xor a b) = concat (map (\<lambda>i. write32_be (map (\<lambda>i. cstate a ! i XOR cstate b ! i) [0..<8] ! i)) [0..<8])"
    by (simp add: sha256_extract_def sha256_xor_def)
  also have "map (\<lambda>i. write32_be (map (\<lambda>i. cstate a ! i XOR cstate b ! i) [0..<8] ! i)) [0..<8]
      = map (\<lambda>i. xor_bytes (write32_be (cstate a ! i)) (write32_be (cstate b ! i))) [0..<8]"
    by (intro map_cong refl) (simp add: write32_be_xor)
  finally show ?case by (simp add: local_sha256_def sha256_extract_def xor_concat length_write)
qed (simp_all add: local_sha256_def length_sha256_spec ctx_after_init ctx_after_update)

lemma sha512_resume:
  assumes "ctx_after512 bs c" "length bs = 128" "length d = 64" "length block = 128"
  shows "sha512_extract (mbedtls_sha512_process (sha512_cpy c' c) (memcpy_at 0 d (md_pad block 128 64 (128 + 64)))) = sha512_spec (bs @ d)"
proof -
  let ?st = "sha512_blocks sha512_init_state bs" and ?x = "memcpy_at 0 d (md_pad block 128 64 (128 + 64))"
  have st: "state512 c = ?st" "length ?st = 8"
    using assms(1) by (simp_all add: ctx_after512_def length_sha512_blocks sha512_init_state_def)
  then have cpy: "map (\<lambda>i. state512 c ! i) [0..<8] = ?st" using nth_map_8 [of ?st "\<lambda>x. x"] by simp
  have "be64 (of_nat (8 * length (bs @ d) div 2 ^ 64)) @ be64 (of_nat (8 * length (bs @ d)))
      = replicate 12 0 @ write32_be (of_nat ((128 + 64) * 8))"
    using assms length_fields(2) by simp
  then have x: "?x = d @ sha512_pad (length (bs @ d))"
    using assms by (simp add: md_pad_eq sha512_pad_def flip: append_assoc replicate_add)
  have "tail_n 128 bs = []" using assms(2) by (simp add: tail_n_def)
  then have "sha512_spec (bs @ d) = concat (map be64 (sha512_blocks ?st ?x))"
    unfolding sha512_spec_def x by (subst append_assoc, subst sha5.append) simp
  also have "sha512_blocks ?st ?x = sha512_compress ?st ?x"
    by (rule sha5.one) (use assms in \<open>simp add: md_pad_eq length_write\<close>)
  finally show ?thesis
    by (simp add: length_sha512_compress sha512_extract_def mbedtls_sha512_process_def sha512_cpy_def cpy write64_be64
        nth_map_8 [OF length_sha512_compress])
qed

interpretation hmac512: stream_hash local_sha512 ctx_after512 sha512_spec
proof (unfold_locales, goal_cases)
  case (7 bs c)
  then show ?case by (simp add: local_sha512_def finish512_spec)
next
  case (8 bs c)
  have len: "length (sha512_blocks sha512_init_state (bs @ sha512_pad (length bs))) = 8"
    by (rule length_sha512_blocks) (simp add: sha512_init_state_def)
  show ?case
    using state512_spec [OF 8]
    by (simp add: local_sha512_def sha512_extract_def sha512_spec_def write64_be64 nth_map_8 [OF len])
next
  case (9 bs c d block c')
  then show ?case using sha512_resume [of bs c d block c'] by (simp add: local_sha512_def)
next
  case (10 a b)
  have "sha512_extract (sha512_xor a b) = concat (map (\<lambda>i. write64_be (map (\<lambda>i. state512 a ! i XOR state512 b ! i) [0..<8] ! i)) [0..<8])"
    by (simp add: sha512_extract_def sha512_xor_def)
  also have "map (\<lambda>i. write64_be (map (\<lambda>i. state512 a ! i XOR state512 b ! i) [0..<8] ! i)) [0..<8]
      = map (\<lambda>i. xor_bytes (write64_be (state512 a ! i)) (write64_be (state512 b ! i))) [0..<8]"
    by (intro map_cong refl) (simp add: write64_be_xor)
  finally show ?case by (simp add: local_sha512_def sha512_extract_def xor_concat length_write)
qed (simp_all add: local_sha512_def length_sha512_spec mbedtls_sha512_init_and_start_def ctx_after512_start ctx_after512_update)

lemma local_sizes [simp]:
  "h_blocksz local_sha256 = 64" "h_hashsz local_sha256 = 32" "h_blocksz local_sha512 = 128" "h_hashsz local_sha512 = 64"
  by (simp_all add: local_sha256_def local_sha512_def)

lemma hmacSha512_spec:
  assumes "dlength key < 2 ^ 64" "dlength d < 2 ^ 63"
  shows "hmacSha512 key d = Bytes (hmac_spec sha512_spec 128 (dbytes key) (dbytes d))"
  using hmac512.hmac_is_spec [OF assms] by (simp add: hmacSha512_def)

lemma length_hmacSha512: "dlength key < 2 ^ 64 \<Longrightarrow> dlength d < 2 ^ 63 \<Longrightarrow> dlength (hmacSha512 key d) = 64"
  by (simp add: hmacSha512_spec hmac_spec_def Let_def length_sha512_spec)

text \<open>
  C20. The key derivation computes PBKDF2 of RFC 2898 over HMAC of RFC 2104, for both hashes, although
  its loop never runs the HMAC code after the first round: it resumes both hashes from saved
  states with a padding block prepared once, whatever that block held before, and combines hash
  states instead of outputs. \<open>CCHmac\<close> is HMAC, long keys included.
\<close>

theorem pbkdf2_is_rfc2898:
  assumes "length pw < 2 ^ 64" "length salt < 2 ^ 63" "length out + 64 \<le> 2 ^ 31"
    and "length stack256 = 64" "length stack512 = 128"
  shows "PBKDF2_loop local_sha512 stack512 pw salt iterations out
      = pbkdf2_spec (hmac_spec sha512_spec 128 pw) 64 salt (unat iterations) (length out)
    \<and> PBKDF2_loop local_sha256 stack256 pw salt iterations out
      = pbkdf2_spec (hmac_spec sha256_spec 64 pw) 32 salt (unat iterations) (length out)
    \<and> CCHmac local_sha512 pw salt = hmac_spec sha512_spec 128 pw salt
    \<and> CCHmac local_sha256 pw salt = hmac_spec sha256_spec 64 pw salt"
  using hmac512.pbkdf2_is_spec [of pw salt stack512 out] hmac256.pbkdf2_is_spec [of pw salt stack256 out]
    hmac512.hmac_is_spec [of pw salt] hmac256.hmac_is_spec [of pw salt] assms
  by simp

theorem pbkdf2_is_rfc2898_witness:
  "PBKDF2_loop local_sha512 (replicate 128 0) [112, 119] [115] 3 (replicate 64 0)
    = pbkdf2_spec (hmac_spec sha512_spec 128 [112, 119]) 64 [115] 3 64"
  using pbkdf2_is_rfc2898 [of "[112, 119]" "[115]" "replicate 64 0" "replicate 64 0" "replicate 128 0" 3] by simp

end
