(* ===== verification/C_Strings.thy ===== *)
theory C_Strings
  imports Scripts
begin

text \<open>
  Strings of \<open>src/code/Data.c\<close>: a \<open>String\<close> is a buffer that ends with a zero byte. A \<open>const char *\<close>
  argument is given by its bytes before the terminating zero. The C library functions the source
  calls (\<open>strcmp\<close>, \<open>strstr\<close>, \<open>strtoll\<close>, \<open>tolower\<close>) are written out.
\<close>

section \<open>Operations\<close>

definition StringNewC :: "bytes \<Rightarrow> data" where
  "StringNewC cs = Bytes (cs @ [0])"

definition c_lit :: "string \<Rightarrow> bytes" where
  "c_lit s = map of_char s"

definition StringMutateEnsureNullByte :: "data \<Rightarrow> data" where
  "StringMutateEnsureNullByte s =
     (if dlength s \<noteq> 0 \<and> dbytes s ! (dlength s - 1) = 0 then s
      else let s = DataGrow s 1 in Bytes ((dbytes s)[dlength s - 1 := 0]))"

definition StringCopy :: "data \<Rightarrow> data" where
  "StringCopy s =
     (let result = DataCopyData s in
      if dlength result = 0 \<or> dbytes result ! (dlength result - 1) \<noteq> 0
      then DataAdd result (StringNewC []) else result)"

text \<open>The write position is \<open>oldLen - 1\<close>, which lies before an empty buffer.\<close>

definition StringAdd :: "data \<Rightarrow> bytes \<Rightarrow> fault + data" where
  "StringAdd s second =
     (if dlength s = 0 then Inl Fault
      else let bs = dbytes (DataGrow s (length second))
           in Inr (StringMutateEnsureNullByte (Bytes (take (dlength s - 1) bs @ second @ [0]))))"

definition StringPrefix :: "bytes \<Rightarrow> data \<Rightarrow> data" where
  "StringPrefix prefix s =
     (let oldLen = dlength s; bs = dbytes (DataGrow (DataCopyData s) (length prefix))
      in StringMutateEnsureNullByte (Bytes (prefix @ take oldLen bs)))"

definition tolower :: "u8 \<Rightarrow> u8" where
  "tolower c = (if 65 \<le> c \<and> c \<le> 90 then c + 32 else c)"

definition StringLowercase :: "data \<Rightarrow> data" where
  "StringLowercase s =
     StringMutateEnsureNullByte (case DataCopyData s of DataNull \<Rightarrow> DataNull | Bytes bs \<Rightarrow> Bytes (map tolower bs))"

definition StringEqual :: "data \<Rightarrow> bytes \<Rightarrow> bool" where
  "StringEqual s second \<longleftrightarrow> cstr s = second"

definition StringHasPrefix :: "data \<Rightarrow> bytes \<Rightarrow> bool" where
  "StringHasPrefix s second \<longleftrightarrow> \<not> dlength s < length second + 1 \<and> take (length second) (dbytes s) = second"

text \<open>
  \<open>StringComponents\<close>: after a split the loop index is reset to 0 and then incremented, so the
  first byte of the remaining part is not examined.
\<close>

function components_loop :: "u8 \<Rightarrow> nat \<Rightarrow> bytes \<Rightarrow> datas" where
  "components_loop sep i bs =
     (if i < length bs then
        if bs ! i = sep then Bytes ((take (i + 1) bs)[i := 0]) # components_loop sep 1 (drop (i + 1) bs)
        else components_loop sep (i + 1) bs
      else [Bytes bs])"
  by pat_completeness auto
termination
  by (relation "measure (\<lambda>(_, i, bs). length bs - i)") auto

declare components_loop.simps [simp del]

definition StringComponents :: "data \<Rightarrow> u8 \<Rightarrow> datas" where
  "StringComponents s sep = components_loop sep 0 (dbytes s)"

section \<open>Numbers in strings\<close>

definition isspace :: "u8 \<Rightarrow> bool" where
  "isspace c \<longleftrightarrow> c = 32 \<or> (9 \<le> c \<and> c \<le> 13)"

definition isdigit :: "u8 \<Rightarrow> bool" where
  "isdigit c \<longleftrightarrow> 48 \<le> c \<and> c \<le> 57"

definition digits_value :: "bytes \<Rightarrow> nat" where
  "digits_value cs = foldl (\<lambda>n c. 10 * n + (unat c - 48)) 0 cs"

definition strtoll :: "bytes \<Rightarrow> int" where
  "strtoll cs =
     (let cs = dropWhile isspace cs;
          (neg, cs) = (case cs of [] \<Rightarrow> (False, cs)
             | c # cs' \<Rightarrow> if c = 45 then (True, cs') else if c = 43 then (False, cs') else (False, cs));
          v = int (digits_value (takeWhile isdigit cs));
          v = (if neg then - v else v)
      in max (- (2 ^ 63)) (min (2 ^ 63 - 1) v))"

section \<open>Decimal text reads back\<close>

fun decimal :: "nat \<Rightarrow> bytes" where
  "decimal n = (if n < 10 then [of_nat (48 + n)] else decimal (n div 10) @ [of_nat (48 + n mod 10)])"

declare decimal.simps [simp del]

lemma digit_byte: "d < 10 \<Longrightarrow> isdigit (of_nat (48 + d)) \<and> unat (of_nat (48 + d) :: u8) - 48 = d"
proof -
  assume "d < 10"
  then have "unat (of_nat (48 + d) :: u8) = 48 + d" by (intro unat_of_nat_small) simp
  then show ?thesis using \<open>d < 10\<close> by (simp add: isdigit_def word_le_nat_alt)
qed

lemma decimal_digits: "list_all isdigit (decimal n)" and decimal_value: "digits_value (decimal n) = n"
proof (induction n rule: decimal.induct)
  case (1 n)
  have "n mod 10 < 10" "n < 10 \<Longrightarrow> n < 10" by simp_all
  note d = digit_byte [OF this(1)] digit_byte [of n]
  case 1
  show ?case using "1.IH"(1) d by (subst decimal.simps) simp
  case 2
  show ?case using "1.IH"(2) d by (subst decimal.simps) (simp add: digits_value_def)
qed

lemma decimal_ne: "decimal n \<noteq> []"
  by (subst decimal.simps) simp

lemma isdigit_not: "isdigit c \<Longrightarrow> \<not> isspace c \<and> c \<noteq> 45 \<and> c \<noteq> 43 \<and> c \<noteq> 47 \<and> c \<noteq> 0 \<and> c \<noteq> 39 \<and> tolower c = c"
  by (auto simp: isdigit_def isspace_def tolower_def word_le_nat_alt)

lemma strtoll_decimal:
  assumes "n < 2 ^ 63" "\<not> isdigit c"
  shows "strtoll (decimal n @ c # cs) = int n" "strtoll (decimal n) = int n"
proof -
  obtain d ds where d: "decimal n = d # ds" using decimal_ne by (cases "decimal n") auto
  have dig: "list_all isdigit (d # ds)" using decimal_digits [of n] by (simp add: d)
  then have "\<not> isspace d" "d \<noteq> 45" "d \<noteq> 43" using isdigit_not by simp_all
  moreover have "takeWhile isdigit (d # ds @ c # cs) = d # ds" "takeWhile isdigit (d # ds) = d # ds"
    using dig assms(2) by (simp_all add: takeWhile_append list_all_iff takeWhile_eq_all_conv)
  ultimately show "strtoll (decimal n @ c # cs) = int n" "strtoll (decimal n) = int n"
    using decimal_value [of n] assms(1) by (simp_all add: strtoll_def d Let_def)
qed

lemma cstr_StringNewC: "0 \<notin> set cs \<Longrightarrow> cstr (StringNewC cs) = cs"
proof -
  assume "0 \<notin> set cs"
  then have "takeWhile (\<lambda>b. b \<noteq> 0) (cs @ [0]) = cs @ takeWhile (\<lambda>b. b \<noteq> 0) [0]" by (intro takeWhile_append2) auto
  then show ?thesis by (simp add: cstr_def StringNewC_def)
qed

end
