(* ===== verification/HD_Wallets.thy ===== *)
theory HD_Wallets
  imports Keys Hmac C_Strings
begin

text \<open>
  Hierarchical wallets of \<open>src/code/BTCUtil.c\<close>: the 82 byte serialisation (version, depth, parent
  fingerprint, child number, chain code, key, checksum), conversion to the public wallet, child
  derivation with its retry at the next index, and derivation paths. \<open>None\<close> is a derivation that
  never returns, \<open>Inl Fault\<close> a copy from a null pointer.
\<close>

section \<open>Serialisation\<close>

definition HD_WALLET_PRIV :: u32 where "HD_WALLET_PRIV = 0x0488ADE4"
definition HD_WALLET_PUB :: u32 where "HD_WALLET_PUB = 0x0488B21E"
definition HD_WALLET_PRIV_TESTNET :: u32 where "HD_WALLET_PRIV_TESTNET = 0x04358394"
definition HD_WALLET_PUB_TESTNET :: u32 where "HD_WALLET_PUB_TESTNET = 0x043587CF"

definition hdWalletVerify :: "data \<Rightarrow> bool" where
  "hdWalletVerify w \<longleftrightarrow>
     (if dlength w \<noteq> 82 then False
      else take 4 (drop (4 + 1 + 4 + 4 + 32 + 33) (dbytes w)) = take 4 (dbytes (hash256 (DataCopyDataPart w 0 78))))"

definition hd_header :: "u32 \<Rightarrow> data" where
  "hd_header version = DataAdd (DataFlipEndianCopy (uint32D version)) (DataAdd (DataAdd (uint8D 0) (uint32D 0)) (uint32D 0))"

definition hd_checksum :: "data \<Rightarrow> data" where
  "hd_checksum d = DataAdd d (DataCopyDataPart (hash256 d) 0 4)"

definition hdWalletPriv :: "data \<Rightarrow> data \<Rightarrow> data" where
  "hdWalletPriv masterKey chainCode =
     (if dlength masterKey \<noteq> 32 \<and> dlength chainCode \<noteq> 32 then DataNull
      else hd_checksum (DataAddCopy (DataAdd (DataAddCopy (hd_header HD_WALLET_PRIV) chainCode) (uint8D 0)) masterKey))"

definition hdWalletPub :: "ecc \<Rightarrow> data \<Rightarrow> data \<Rightarrow> data" where
  "hdWalletPub E masterKey chainCode =
     (let masterKey = publicKeyCompress E (publicKeyParse E masterKey) in
      if masterKey = DataNull \<and> dlength chainCode \<noteq> 32 then DataNull
      else hd_checksum (DataAddCopy (DataAddCopy (hd_header HD_WALLET_PUB) chainCode) masterKey))"

definition hdWalletPrivTestNet :: "data \<Rightarrow> data \<Rightarrow> data" where
  "hdWalletPrivTestNet masterKey chainCode =
     (if dlength masterKey \<noteq> 32 \<and> dlength chainCode \<noteq> 32 then DataNull
      else hd_checksum (DataAddCopy (DataAddCopy (DataAddCopy (hd_header HD_WALLET_PRIV_TESTNET) chainCode) (uint8D 0)) masterKey))"

definition hdWalletPubTestNet :: "ecc \<Rightarrow> data \<Rightarrow> data \<Rightarrow> data" where
  "hdWalletPubTestNet E masterKey chainCode =
     (let masterKey = publicKeyCompress E (publicKeyParse E masterKey) in
      if masterKey = DataNull \<and> dlength chainCode \<noteq> 32 then DataNull
      else hd_checksum (DataAddCopy (DataAddCopy (hd_header HD_WALLET_PUB_TESTNET) chainCode) masterKey))"

definition put_checksum :: "bytes \<Rightarrow> bytes" where
  "put_checksum bs = memcpy_at (4 + 1 + 4 + 4 + 32 + 33) (take 4 (dbytes (hash256 (DataCopyDataPart (Bytes bs) 0 78)))) bs"

definition hdWalletSetDepth :: "data \<Rightarrow> u8 \<Rightarrow> data" where
  "hdWalletSetDepth w depth =
     (if dlength w \<noteq> 82 then DataNull else Bytes (put_checksum ((dbytes w)[4 := depth])))"

section \<open>Accessors\<close>

definition chainCodeFromHdWallet :: "data \<Rightarrow> data" where
  "chainCodeFromHdWallet w = (if dlength w \<noteq> 82 then DataNull else DataCopyDataPart w (4 + 1 + 4 + 4) 32)"

definition keyFromHdWallet :: "data \<Rightarrow> data" where
  "keyFromHdWallet w = (if dlength w \<noteq> 82 then DataNull else DataCopyDataPart w (4 + 1 + 4 + 4 + 32) 33)"

definition anyKeyFromHdWallet :: "data \<Rightarrow> data" where
  "anyKeyFromHdWallet w =
     (let result = keyFromHdWallet w in
      if uint8read result \<noteq> 0 then result
      else if dlength result \<noteq> 33 then DataNull
      else DataCopyDataPart result 1 32)"

definition anyKeysFromHdWallets :: "datas \<Rightarrow> datas" where
  "anyKeysFromHdWallets ws = fold (\<lambda>w result. DatasAddRef result (anyKeyFromHdWallet w)) ws []"

definition pubKeyFromHdWallet :: "ecc \<Rightarrow> data \<Rightarrow> data" where
  "pubKeyFromHdWallet E w =
     (let key = keyFromHdWallet w in
      if key = DataNull then DataNull
      else if dbytes key ! 0 \<noteq> 0 then key
      else pubKey E (DataCopyDataPart key 1 32))"

definition pubKeysFromHdWallets :: "ecc \<Rightarrow> datas \<Rightarrow> datas" where
  "pubKeysFromHdWallets E ws = fold (\<lambda>w result. DatasAddRef result (pubKeyFromHdWallet E w)) ws []"

definition isZero :: "data \<Rightarrow> bool" where
  "isZero d \<longleftrightarrow> list_all (\<lambda>b. b = 0) (dbytes d)"

section \<open>The public wallet\<close>

definition hd_version :: "data \<Rightarrow> u32" where
  "hd_version w = uint32read (DataFlipEndianCopy (DataCopyDataPart w 0 4))"

definition publicHdWallet :: "ecc \<Rightarrow> data \<Rightarrow> fault + data" where
  "publicHdWallet E privHdWallet =
     (if dlength privHdWallet \<noteq> 82 then Inr DataNull
      else let version = hd_version privHdWallet in
        if version = HD_WALLET_PUB \<or> version = HD_WALLET_PUB_TESTNET then Inr privHdWallet
        else if version \<noteq> HD_WALLET_PRIV \<and> version \<noteq> HD_WALLET_PRIV_TESTNET then Inr DataNull
        else let version = (if version = HD_WALLET_PRIV then HD_WALLET_PUB else HD_WALLET_PUB_TESTNET);
                 result = memcpy_at 0 (dbytes (DataFlipEndianCopy (uint32D version))) (dbytes privHdWallet);
                 privKey = keyFromHdWallet privHdWallet
          in if dlength privKey \<noteq> 33 then Inr DataNull
             else if dbytes privKey ! 0 \<noteq> 0 then Inr DataNull
             else let pubKeyResult = pubKey E (DataCopyDataPart privKey 1 32) in
               if pubKeyResult = DataNull then Inl Fault
               else Inr (Bytes (put_checksum (memcpy_at (4 + 1 + 4 + 4 + 32) (take 33 (dbytes pubKeyResult)) result))))"

section \<open>Child derivation\<close>

text \<open>One attempt at an index: \<open>Inr None\<close> sends the source to the next index.\<close>

definition ckd_private :: "ecc \<Rightarrow> data \<Rightarrow> u32 \<Rightarrow> bytes \<Rightarrow> bytes \<Rightarrow> bytes option" where
  "ckd_private E w index childIndex result =
     (let oldKey = keyFromHdWallet w; oldChainCode = chainCodeFromHdWallet w;
          oldKeyTrim = DataCopyDataPart oldKey 1 32;
          hash = (if index \<ge> 0x80000000 then hmacSha512 oldChainCode (DataAddCopy oldKey (Bytes childIndex))
                  else hmacSha512 oldChainCode (DataAddCopy (pubKey E oldKeyTrim) (Bytes childIndex)));
          I_L = DataCopyDataPart hash 0 32;
          newKey = addToPrivKey E I_L oldKeyTrim
      in if newKey = DataNull then None
         else Some (memcpy_at (4 + 1 + 4 + 4 + 32 + 1) (take 32 (dbytes newKey))
           (memcpy_at (4 + 1 + 4 + 4 + 32) [0]
             (memcpy_at (4 + 1 + 4 + 4) (take 32 (drop 32 (dbytes hash))) result))))"

definition ckd_public :: "ecc \<Rightarrow> data \<Rightarrow> bytes \<Rightarrow> bytes \<Rightarrow> bytes option" where
  "ckd_public E w childIndex result =
     (let oldKey = keyFromHdWallet w; oldChainCode = chainCodeFromHdWallet w;
          hash = hmacSha512 oldChainCode (DataAddCopy oldKey (Bytes childIndex));
          I_L = DataCopyDataPart hash 0 32;
          newKey = publicKeyCompress E (addPubKeys E oldKey (pubKey E I_L))
      in if newKey = DataNull then None
         else Some (memcpy_at (4 + 1 + 4 + 4 + 32) (take 33 (dbytes newKey))
           (memcpy_at (4 + 1 + 4 + 4) (take 32 (drop 32 (dbytes hash))) result)))"

definition ckd_attempt :: "ecc \<Rightarrow> data \<Rightarrow> u32 \<Rightarrow> fault + data option" where
  "ckd_attempt E w index =
     (if dlength w \<noteq> 82 then Inr (Some DataNull)
      else let result = (dbytes w)[4 := dbytes w ! 4 + 1];
               fingerprint = hash160 (pubKeyFromHdWallet E w)
        in if fingerprint = DataNull then Inl Fault
           else let childIndex = dbytes (DataFlipEndianCopy (Bytes (le_bytes 4 index)));
                    result = memcpy_at (4 + 1) (take 4 (dbytes fingerprint)) result;
                    result = memcpy_at (4 + 1 + 4) childIndex result
             in if uint8read (keyFromHdWallet w) = 0
                then Inr (map_option (\<lambda>r. Bytes (put_checksum r)) (ckd_private E w index childIndex result))
                else if index \<ge> 0x80000000 then Inr (Some DataNull)
                else Inr (map_option (\<lambda>r. Bytes (put_checksum r)) (ckd_public E w childIndex result)))"

partial_function (option) childKeyDerivation :: "ecc \<Rightarrow> data \<Rightarrow> u32 \<Rightarrow> (fault + data) option" where
  "childKeyDerivation E w index =
     (case ckd_attempt E w index of Inl e \<Rightarrow> Some (Inl e)
      | Inr (Some d) \<Rightarrow> Some (Inr d)
      | Inr None \<Rightarrow> childKeyDerivation E w (index + 1))"

definition ckd :: "ecc \<Rightarrow> data \<Rightarrow> u32 \<Rightarrow> (fault + data) option" where
  "ckd E w index = childKeyDerivation E w index"

section \<open>Paths\<close>

definition component_index :: "data \<Rightarrow> data" where
  "component_index component =
     (let component = StringCopy component;
          index = word_of_int (strtoll (cstr component)) :: u64;
          index = (if 39 \<in> set (cstr component) then index OR 0x80000000 else index)
      in Bytes (le_bytes 8 index))"

definition ckdIndicesFromPath :: "bytes \<Rightarrow> datas" where
  "ckdIndicesFromPath cStr =
     (let path = StringLowercase (StringNewC cStr) in
      if StringEqual path [] \<or> StringEqual path (c_lit ''m'') \<or> StringEqual path (c_lit ''/'') then []
      else let path = (if StringHasPrefix path (c_lit ''m'') then DataTrimFront path 1 else path);
               path = (if StringHasPrefix path (c_lit ''/'') then DataTrimFront path 1 else path)
           in fold (\<lambda>c result. DatasAddRef result (component_index c)) (StringComponents path 47) [])"

definition hd_step :: "ecc \<Rightarrow> data \<Rightarrow> (fault + data) option \<Rightarrow> (fault + data) option" where
  "hd_step E index w = (case w of None \<Rightarrow> None | Some (Inl e) \<Rightarrow> Some (Inl e)
     | Some (Inr w) \<Rightarrow> childKeyDerivation E w (le_word (take 4 (dbytes index))))"

definition hdWallet :: "ecc \<Rightarrow> data \<Rightarrow> bytes \<Rightarrow> (fault + data) option" where
  "hdWallet E w path = fold (hd_step E) (ckdIndicesFromPath path) (Some (Inr (DataCopyData w)))"

end
