(* ===== verification/HD_Props.thy ===== *)
theory HD_Props
  imports HD_Wallets Signing_Props
begin

text \<open>
  What wallet derivation achieves: derived wallets are well formed and verify, derivation returns
  as soon as an index is usable, derivation commutes with going to the public wallet, and
  printed paths read back.
\<close>

section \<open>The fields of a wallet\<close>

definition hd_fields :: "bytes \<Rightarrow> u8 \<Rightarrow> bytes \<Rightarrow> bytes \<Rightarrow> bytes \<Rightarrow> bytes \<Rightarrow> bytes" where
  "hd_fields ver depth parent number chain key = ver @ depth # parent @ number @ chain @ key"

definition hd_sized :: "bytes \<Rightarrow> bytes \<Rightarrow> bytes \<Rightarrow> bytes \<Rightarrow> bytes \<Rightarrow> bool" where
  "hd_sized ver parent number chain key \<longleftrightarrow>
     length ver = 4 \<and> length parent = 4 \<and> length number = 4 \<and> length chain = 32 \<and> length key = 33"

definition hd_wire :: "bytes \<Rightarrow> data" where
  "hd_wire body = Bytes (body @ take 4 (sha256_spec (sha256_spec body)))"

lemma drop_split: "drop i bs = take j (drop i bs) @ drop (i + j) bs"
  by (metis add.commute append_take_drop_id drop_drop)

lemma hd_split:
  assumes "length bs = 82"
  obtains v d f n c k s where "bs = hd_fields v d f n c k @ s" "hd_sized v f n c k" "length s = 4"
proof
  have "drop 4 bs = bs ! 4 # drop 5 bs" using Cons_nth_drop_Suc [of 4 bs] assms by simp
  then show "bs = hd_fields (take 4 bs) (bs ! 4) (take 4 (drop 5 bs)) (take 4 (drop 9 bs)) (take 32 (drop 13 bs))
      (take 33 (drop 45 bs)) @ drop 78 bs"
    using drop_split [of 5 bs 4] drop_split [of 9 bs 4] drop_split [of 13 bs 32] drop_split [of 45 bs 33]
      append_take_drop_id [of 4 bs] by (simp add: hd_fields_def)
  show "hd_sized (take 4 bs) (take 4 (drop 5 bs)) (take 4 (drop 9 bs)) (take 32 (drop 13 bs)) (take 33 (drop 45 bs))"
      "length (drop 78 bs) = 4"
    using assms by (simp_all add: hd_sized_def)
qed

lemma length_hd_fields: "hd_sized v f n c k \<Longrightarrow> length (hd_fields v d f n c k) = 78"
  by (simp add: hd_fields_def hd_sized_def)

text \<open>Reading and writing one field.\<close>

lemma hd_fields_get:
  fixes d :: u8 and s :: bytes
  assumes "hd_sized v f n c k"
  defines "bs \<equiv> hd_fields v d f n c k @ s"
  shows "take 4 bs = v" "bs ! 4 = d" "take 4 (drop 5 bs) = f" "take 4 (drop 9 bs) = n" "take 32 (drop 13 bs) = c"
    "take 33 (drop 45 bs) = k" "take 78 bs = hd_fields v d f n c k"
  using assms(1) by (simp_all add: bs_def hd_fields_def hd_sized_def drop_Cons' take_Cons' nth_append)

lemma hd_fields_put:
  fixes d :: u8 and s :: bytes
  assumes "hd_sized v f n c k"
  defines "bs \<equiv> hd_fields v d f n c k @ s"
  shows "bs[4 := d'] = hd_fields v d' f n c k @ s"
    "length v' = 4 \<Longrightarrow> memcpy_at 0 v' bs = hd_fields v' d f n c k @ s"
    "length f' = 4 \<Longrightarrow> memcpy_at 5 f' bs = hd_fields v d f' n c k @ s"
    "length n' = 4 \<Longrightarrow> memcpy_at 9 n' bs = hd_fields v d f n' c k @ s"
    "length c' = 32 \<Longrightarrow> memcpy_at 13 c' bs = hd_fields v d f n c' k @ s"
    "length k' = 33 \<Longrightarrow> memcpy_at 45 k' bs = hd_fields v d f n c k' @ s"
    "length k'' = 32 \<Longrightarrow> memcpy_at 46 k'' (memcpy_at 45 [0] bs) = hd_fields v d f n c (0 # k'') @ s"
  using assms(1)
  by (simp_all add: bs_def hd_fields_def hd_sized_def memcpy_at_def list_update_append drop_Cons' take_Cons')

lemma put_checksum_wire:
  assumes "hd_sized v f n c k" "length s = 4"
  shows "Bytes (put_checksum (hd_fields v d f n c k @ s)) = hd_wire (hd_fields v d f n c k)"
  using assms length_hd_fields [OF assms(1)]
  by (simp add: put_checksum_def hd_wire_def DataCopyDataPart_def hash256_Bytes memcpy_at_def length_sha256_spec)


lemma hd_wire_split:
  assumes "hd_sized v f n c k"
  obtains s where "hd_wire (hd_fields v d f n c k) = Bytes (hd_fields v d f n c k @ s)" "length s = 4"
proof
  show "hd_wire (hd_fields v d f n c k) = Bytes (hd_fields v d f n c k @ take 4 (sha256_spec (sha256_spec (hd_fields v d f n c k))))"
    by (simp add: hd_wire_def)
qed (simp add: length_sha256_spec)


section \<open>One derivation step\<close>

text \<open>Documented sizes of what the curve library returns.\<close>

definition ecc_sized :: "ecc \<Rightarrow> bool" where
  "ecc_sized E \<longleftrightarrow> (\<forall>k t k'. length k = 32 \<longrightarrow> length t = 32 \<longrightarrow> ec_privkey_tweak_add E k t = Some k' \<longrightarrow> length k' = 32)
     \<and> (\<forall>P c. length P = 64 \<longrightarrow> ec_pubkey_serialize E P True = Some c \<longrightarrow> length c = 33)"

definition be_index :: "u32 \<Rightarrow> bytes" where
  "be_index i = rev (le_bytes 4 i)"

lemma flip_index: "dbytes (DataFlipEndianCopy (Bytes (le_bytes 4 i))) = be_index i" "length (be_index i) = 4"
  by (simp_all add: DataFlipEndianCopy_def be_index_def upt_rec)

lemma key_accessors:
  fixes d :: u8
  assumes "hd_sized v f n c k" "length s = 4"
  defines "w \<equiv> Bytes (hd_fields v d f n c k @ s)"
  shows "keyFromHdWallet w = Bytes k" "chainCodeFromHdWallet w = Bytes c" "dlength w = 82"
    "pubKeyFromHdWallet E w = (if k ! 0 \<noteq> 0 then Bytes k else pubKey E (Bytes (drop 1 k)))" "uint8read (Bytes k) = k ! 0"
proof -
  have len: "length (hd_fields v d f n c k @ s) = 82" using length_hd_fields [OF assms(1)] assms(2) by simp
  note get = hd_fields_get [OF assms(1), of d s]
  show w: "keyFromHdWallet w = Bytes k" "chainCodeFromHdWallet w = Bytes c" "dlength w = 82"
    using len get by (simp_all add: w_def keyFromHdWallet_def chainCodeFromHdWallet_def DataCopyDataPart_def)
  have "length k = 33" using assms(1) by (simp add: hd_sized_def)
  then show "pubKeyFromHdWallet E w = (if k ! 0 \<noteq> 0 then Bytes k else pubKey E (Bytes (drop 1 k)))" "uint8read (Bytes k) = k ! 0"
    using w by (auto simp: pubKeyFromHdWallet_def Let_def DataCopyDataPart_def uint8read_def take_Suc_conv_app_nth [of 0 k])
qed

lemma tweak_32:
  assumes "ecc_sized E" "addToPrivKey E t k = Bytes k'"
  shows "ec_privkey_tweak_add E (dbytes k) (dbytes t) = Some k'" "length k' = 32"
proof -
  have *: "dlength t = 32" "dlength k = 32" and tw: "ec_privkey_tweak_add E (dbytes k) (dbytes t) = Some k'"
    using assms(2) by (auto simp: addToPrivKey_def opt_data_def split: if_splits option.splits)
  show "ec_privkey_tweak_add E (dbytes k) (dbytes t) = Some k'" by (rule tw)
  show "length k' = 32" using assms(1) * tw unfolding ecc_sized_def by blast
qed

lemma compress_33:
  assumes "ecc_sized E" "publicKeyCompress E P = Bytes k'"
  shows "length k' = 33"
proof -
  have "dlength P = 64" "ec_pubkey_serialize E (dbytes P) True = Some k'"
    using assms(2) by (auto simp: publicKeyCompress_def publicKeySerialize_def opt_data_def split: if_splits option.splits)
  then show ?thesis using assms(1) unfolding ecc_sized_def by blast
qed

lemma pubKey_33: "ecc_sized E \<Longrightarrow> pubKey E k = Bytes P \<Longrightarrow> length P = 33"
  using compress_33 by (simp add: pubKey_def)

lemma private_attempt:
  fixes i :: u32
  assumes "hd_sized v f n c (0 # key)" "length s = 4" "ecc_sized E" "pubKey E (Bytes key) = Bytes P"
  defines "hash \<equiv> hmac_spec sha512_spec 128 c ((if i \<ge> 0x80000000 then 0 # key else P) @ be_index i)"
  shows "ckd_attempt E (Bytes (hd_fields v d f n c (0 # key) @ s)) i
    = Inr (case addToPrivKey E (Bytes (take 32 hash)) (Bytes key) of DataNull \<Rightarrow> None
        | Bytes k' \<Rightarrow> Some (hd_wire (hd_fields v (d + 1) (take 4 (dbytes (hash160 (Bytes P)))) (be_index i) (drop 32 hash) (0 # k'))))"
proof -
  let ?fp = "take 4 (dbytes (hash160 (Bytes P)))"
  have fp: "length ?fp = 4" "hash160 (Bytes P) \<noteq> DataNull" by (simp_all add: hash160_Bytes length_hash160)
  note acc = key_accessors [OF assms(1,2)]
  have len: "length c < 2 ^ 64" "length P = 33" "length key = 32"
    using assms(1) pubKey_33 [OF assms(3,4)] by (simp_all add: hd_sized_def)
  have h: "(if i \<ge> 0x80000000 then hmacSha512 (Bytes c) (DataAddCopy (Bytes (0 # key)) (Bytes (be_index i)))
      else hmacSha512 (Bytes c) (DataAddCopy (pubKey E (Bytes key)) (Bytes (be_index i)))) = Bytes hash"
    using len assms(4) by (simp add: hmacSha512_spec DataAddCopy_def hash_def flip_index)
  have hl: "length hash = 64" by (simp add: hash_def hmac_spec_def Let_def length_sha512_spec)
  have "length k' = 32" if "addToPrivKey E (Bytes (take 32 hash)) (Bytes key) = Bytes k'" for k'
    using that by (rule tweak_32(2) [OF assms(3)])
  moreover have sized: "hd_sized v f n c (0 # key)" "hd_sized v ?fp n c (0 # key)" "hd_sized v ?fp (be_index i) c (0 # key)"
      "hd_sized v ?fp (be_index i) (drop 32 hash) (0 # key)"
    using assms(1) fp flip_index hl by (simp_all add: hd_sized_def)
  have body: "memcpy_at 9 (be_index i) (memcpy_at 5 ?fp ((hd_fields v d f n c (0 # key) @ s)
      [4 := (hd_fields v d f n c (0 # key) @ s) ! 4 + 1])) = hd_fields v (d + 1) ?fp (be_index i) c (0 # key) @ s"
    using hd_fields_get(2) [OF sized(1)] hd_fields_put(1) [OF sized(1)] hd_fields_put(3) [OF sized(1) fp(1)]
      hd_fields_put(4) [OF sized(2) flip_index(2)] by simp
  have "hd_sized v ?fp (be_index i) (drop 32 hash) (0 # k')" if "length k' = 32" for k'
    using that sized(4) by (simp add: hd_sized_def)
  note wire = put_checksum_wire [OF this assms(2)]
  have new: "memcpy_at 46 k' (memcpy_at 45 [0] (memcpy_at 13 (drop 32 hash) (hd_fields v (d + 1) ?fp (be_index i) c (0 # key) @ s)))
      = hd_fields v (d + 1) ?fp (be_index i) (drop 32 hash) (0 # k') @ s" if "length k' = 32" for k'
    using hd_fields_put(5) [OF sized(3), of "drop 32 hash"] hd_fields_put(7) [OF sized(4) that] hl by simp
  have priv: "ckd_private E (Bytes (hd_fields v d f n c (0 # key) @ s)) i (be_index i) (hd_fields v (d + 1) ?fp (be_index i) c (0 # key) @ s)
      = (case addToPrivKey E (Bytes (take 32 hash)) (Bytes key) of DataNull \<Rightarrow> None
        | Bytes k' \<Rightarrow> Some (hd_fields v (d + 1) ?fp (be_index i) (drop 32 hash) (0 # k') @ s))"
    unfolding ckd_private_def acc Let_def
    using h hl calculation new len by (auto simp: DataCopyDataPart_def split: data.splits)
  show ?thesis
    unfolding ckd_attempt_def acc flip_index Let_def
    using body priv fp calculation wire assms(4) by (auto simp: acc split: data.splits)
qed

lemma public_attempt:
  fixes i :: u32
  assumes "hd_sized v f n c k" "length s = 4" "ecc_sized E" "k ! 0 \<noteq> 0" "i < 0x80000000"
  defines "hash \<equiv> hmac_spec sha512_spec 128 c (k @ be_index i)"
  shows "ckd_attempt E (Bytes (hd_fields v d f n c k @ s)) i
    = Inr (case publicKeyCompress E (addPubKeys E (Bytes k) (pubKey E (Bytes (take 32 hash)))) of DataNull \<Rightarrow> None
        | Bytes k' \<Rightarrow> Some (hd_wire (hd_fields v (d + 1) (take 4 (dbytes (hash160 (Bytes k)))) (be_index i) (drop 32 hash) k')))"
proof -
  let ?fp = "take 4 (dbytes (hash160 (Bytes k)))"
  have fp: "length ?fp = 4" "hash160 (Bytes k) \<noteq> DataNull" by (simp_all add: hash160_Bytes length_hash160)
  note acc = key_accessors [OF assms(1,2)]
  have len: "length c < 2 ^ 64" "length k = 33" using assms(1) by (simp_all add: hd_sized_def)
  have h: "hmacSha512 (Bytes c) (DataAddCopy (Bytes k) (Bytes (be_index i))) = Bytes hash"
    using len by (simp add: hmacSha512_spec DataAddCopy_def hash_def flip_index)
  have hl: "length hash = 64" by (simp add: hash_def hmac_spec_def Let_def length_sha512_spec)
  have sized: "hd_sized v f n c k" "hd_sized v ?fp n c k" "hd_sized v ?fp (be_index i) c k"
      "hd_sized v ?fp (be_index i) (drop 32 hash) k"
    using assms(1) fp flip_index hl by (simp_all add: hd_sized_def)
  have body: "memcpy_at 9 (be_index i) (memcpy_at 5 ?fp ((hd_fields v d f n c k @ s)
      [4 := (hd_fields v d f n c k @ s) ! 4 + 1])) = hd_fields v (d + 1) ?fp (be_index i) c k @ s"
    using hd_fields_get(2) [OF sized(1)] hd_fields_put(1) [OF sized(1)] hd_fields_put(3) [OF sized(1) fp(1)]
      hd_fields_put(4) [OF sized(2) flip_index(2)] by simp
  have "hd_sized v ?fp (be_index i) (drop 32 hash) k'" if "length k' = 33" for k'
    using that sized(4) by (simp add: hd_sized_def)
  note wire = put_checksum_wire [OF this assms(2)]
  have new: "memcpy_at 45 k' (memcpy_at 13 (drop 32 hash) (hd_fields v (d + 1) ?fp (be_index i) c k @ s))
      = hd_fields v (d + 1) ?fp (be_index i) (drop 32 hash) k' @ s" if "length k' = 33" for k'
    using hd_fields_put(5) [OF sized(3), of "drop 32 hash"] hd_fields_put(6) [OF sized(4) that] hl by simp
  have pub: "ckd_public E (Bytes (hd_fields v d f n c k @ s)) (be_index i) (hd_fields v (d + 1) ?fp (be_index i) c k @ s)
      = (case publicKeyCompress E (addPubKeys E (Bytes k) (pubKey E (Bytes (take 32 hash)))) of DataNull \<Rightarrow> None
        | Bytes k' \<Rightarrow> Some (hd_fields v (d + 1) ?fp (be_index i) (drop 32 hash) k' @ s))"
    unfolding ckd_public_def acc Let_def
    using h hl compress_33 [OF assms(3)] new len by (auto simp: DataCopyDataPart_def split: data.splits)
  have "\<not> 0x80000000 \<le> i" using assms(5) by simp
  then show ?thesis
    unfolding ckd_attempt_def acc flip_index Let_def
    using body pub fp compress_33 [OF assms(3)] wire assms(4) by (auto simp: acc split: data.splits)
qed

section \<open>Derivation returns at the first usable index\<close>

lemma derivation_skip:
  "(\<forall>m < n. ckd_attempt E w (i + of_nat m) = Inr None) \<Longrightarrow> childKeyDerivation E w i = childKeyDerivation E w (i + of_nat n)"
proof (induction n)
  case (Suc n)
  then have "childKeyDerivation E w i = childKeyDerivation E w (i + of_nat n)" "ckd_attempt E w (i + of_nat n) = Inr None" by simp_all
  then show ?case by (subst (asm) childKeyDerivation.simps [of E w "i + of_nat n"]) (simp add: ac_simps)
qed simp

lemma derivation_first:
  assumes "\<forall>m < n. ckd_attempt E w (i + of_nat m) = Inr None" "ckd_attempt E w (i + of_nat n) \<noteq> Inr None"
  shows "childKeyDerivation E w i = Some (case ckd_attempt E w (i + of_nat n) of Inl e \<Rightarrow> Inl e | Inr r \<Rightarrow> Inr (the r))"
  using assms(2) unfolding derivation_skip [OF assms(1)]
  by (subst childKeyDerivation.simps) (auto split: sum.splits option.splits)

lemma derivation_returned:
  assumes "childKeyDerivation E w i = Some r"
  shows "\<exists>n. ckd_attempt E w (i + of_nat n) \<noteq> Inr None"
proof -
  have "childKeyDerivation E w i = Some r \<longrightarrow> (\<exists>n. ckd_attempt E w (i + of_nat n) \<noteq> Inr None)" for i r
  proof (rule childKeyDerivation.raw_induct [of "\<lambda>E w i r. \<exists>n. ckd_attempt E w (i + of_nat n) \<noteq> Inr None", THEN impI])
    fix f :: "ecc \<Rightarrow> data \<Rightarrow> u32 \<Rightarrow> (fault + data) option" and E w i r
    assume IH: "\<And>E w i r. f E w i = Some r \<Longrightarrow> \<exists>n. ckd_attempt E w (i + of_nat n) \<noteq> Inr None"
      and f: "(case ckd_attempt E w i of Inl e \<Rightarrow> Some (Inl e) | Inr None \<Rightarrow> f E w (i + 1) | Inr (Some d) \<Rightarrow> Some (Inr d)) = Some r"
    show "\<exists>n. ckd_attempt E w (i + of_nat n) \<noteq> Inr None"
    proof (cases "ckd_attempt E w i = Inr None")
      case True
      then obtain n where "ckd_attempt E w (i + 1 + of_nat n) \<noteq> Inr None" using IH [of E w "i + 1" r] f by auto
      then show ?thesis by (intro exI [of _ "Suc n"]) (simp add: ac_simps)
    next
      case False
      then show ?thesis by (intro exI [of _ 0]) simp
    qed
  qed
  then show ?thesis using assms by blast
qed

text \<open>
  C39. Child derivation returns exactly when some index from the requested one on, counted with
  wrap-around, is usable (or faults), and then its result is the one of the first such index; it
  never returns when all indices are unusable.
\<close>

theorem derivation_returns_iff:
  "childKeyDerivation E w i = (if \<exists>n. ckd_attempt E w (i + of_nat n) \<noteq> Inr None
     then Some (case ckd_attempt E w (i + of_nat (LEAST n. ckd_attempt E w (i + of_nat n) \<noteq> Inr None)) of
       Inl e \<Rightarrow> Inl e | Inr r \<Rightarrow> Inr (the r))
     else None)"
proof (cases "\<exists>n. ckd_attempt E w (i + of_nat n) \<noteq> Inr None")
  case True
  let ?n = "LEAST n. ckd_attempt E w (i + of_nat n) \<noteq> Inr None"
  have "ckd_attempt E w (i + of_nat ?n) \<noteq> Inr None" using True by (rule LeastI_ex)
  moreover have "\<forall>m < ?n. ckd_attempt E w (i + of_nat m) = Inr None" using not_less_Least by blast
  ultimately show ?thesis using True derivation_first by simp
next
  case False
  then have "childKeyDerivation E w i = None" using derivation_returned [of E w i] by (cases "childKeyDerivation E w i") auto
  then show ?thesis using False by simp
qed

section \<open>Derived wallets are well formed\<close>






section \<open>Public derivation\<close>

text \<open>
  Documented behaviour of the curve library: a compressed key starts with 2 or 3, and adding a valid tweak to a private key
  corresponds to adding the points, failing in the same cases.
\<close>

definition ecc_homomorphic :: "ecc \<Rightarrow> bool" where
  "ecc_homomorphic E \<longleftrightarrow> (\<forall>P k. ec_pubkey_serialize E P True = Some k \<longrightarrow> k ! 0 \<noteq> 0)
     \<and> (\<forall>k t P T. length k = 32 \<longrightarrow> length t = 32 \<longrightarrow> ec_pubkey_create E k = Some P \<longrightarrow> ec_pubkey_create E t = Some T \<longrightarrow>
         (case ec_privkey_tweak_add E k t of None \<Rightarrow> ec_pubkey_combine E P T = None
          | Some k' \<Rightarrow> ec_pubkey_create E k' \<noteq> None \<and> ec_pubkey_combine E P T = ec_pubkey_create E k'))"

lemma version_of_fields: "hd_sized v f n c k \<Longrightarrow> hd_version (Bytes (hd_fields v d f n c k @ s)) = le_word (rev v)"
  using hd_fields_get(1) [of v f n c k d s] by (simp add: hd_version_def DataCopyDataPart_def uint32read_def hd_sized_def)

definition public_version :: "u32 \<Rightarrow> bytes" where
  "public_version ver = rev (le_bytes 4 (if ver = HD_WALLET_PRIV then HD_WALLET_PUB else HD_WALLET_PUB_TESTNET))"

lemma public_wallet:
  assumes "hd_sized v f n c (0 # key)" "length s = 4" "ecc_sized E" "pubKey E (Bytes key) = Bytes P"
    "le_word (rev v) = HD_WALLET_PRIV \<or> le_word (rev v) = HD_WALLET_PRIV_TESTNET"
  shows "publicHdWallet E (Bytes (hd_fields v d f n c (0 # key) @ s)) = Inr (hd_wire (hd_fields (public_version (le_word (rev v))) d f n c P))"
proof -
  let ?v = "public_version (le_word (rev v))"
  note acc = key_accessors [OF assms(1,2)]
  have v: "length ?v = 4" "dbytes (DataFlipEndianCopy (uint32D (if le_word (rev v) = HD_WALLET_PRIV then HD_WALLET_PUB else HD_WALLET_PUB_TESTNET))) = ?v"
    by (simp_all add: public_version_def uint32D_def del: le_bytes_numeral)
  have P: "length P = 33" using pubKey_33 [OF assms(3,4)] .
  have sized: "hd_sized ?v f n c (0 # key)" "hd_sized ?v f n c P" using assms(1) v P by (simp_all add: hd_sized_def)
  have "memcpy_at 45 P (memcpy_at 0 ?v (hd_fields v d f n c (0 # key) @ s)) = hd_fields ?v d f n c P @ s"
    using hd_fields_put(2) [OF assms(1) v(1)] hd_fields_put(6) [OF sized(1) P] by simp
  moreover have "le_word (rev v) \<noteq> HD_WALLET_PUB" "le_word (rev v) \<noteq> HD_WALLET_PUB_TESTNET"
    using assms(5) by (auto simp: HD_WALLET_PRIV_def HD_WALLET_PUB_def HD_WALLET_PRIV_TESTNET_def HD_WALLET_PUB_TESTNET_def)
  ultimately show ?thesis
    unfolding publicHdWallet_def version_of_fields [OF assms(1)] Let_def v(2) acc
    using assms(4,5) put_checksum_wire [OF sized(2) assms(2)] acc(3) P assms(1)
    by (auto simp: DataCopyDataPart_def hd_sized_def)
qed

lemma pubKey_point:
  assumes "ecc_correct E" "length key = 32" "pubKey E (Bytes key) \<noteq> DataNull"
  shows "\<exists>A. ec_pubkey_create E key = Some A \<and> length A = 64 \<and> publicKeyParse E (pubKey E (Bytes key)) = Bytes A"
  by (rule pubKey_facts [of E "Bytes key"]) (use assms in auto)

lemma ecc_point:
  "ecc_correct E \<Longrightarrow> length k = 32 \<Longrightarrow> ec_pubkey_create E k = Some P \<Longrightarrow> length P = 64 \<and> (\<exists>c. ec_pubkey_serialize E P True = Some c)"
  unfolding ecc_correct_def by blast

lemma sum_of_keys:
  assumes "ecc_correct E" "ecc_sized E" "ecc_homomorphic E" "length key = 32" "length t = 32"
    "pubKey E (Bytes key) = Bytes P" "ec_pubkey_create E t = Some T" "addToPrivKey E (Bytes t) (Bytes key) = Bytes k'"
  shows "publicKeyCompress E (addPubKeys E (Bytes P) (pubKey E (Bytes t))) = pubKey E (Bytes k') \<and> pubKey E (Bytes k') \<noteq> DataNull \<and> length k' = 32"
proof -
  have k': "ec_privkey_tweak_add E key t = Some k'" "length k' = 32"
    using tweak_32 [OF assms(2,8)] by simp_all
  obtain A where A: "ec_pubkey_create E key = Some A" "length A = 64" "publicKeyParse E (Bytes P) = Bytes A"
    using pubKey_point [OF assms(1,4)] assms(6) by auto
  have "pubKey E (Bytes t) \<noteq> DataNull"
    using ecc_point [OF assms(1,5,7)] assms(5,7)
    by (auto simp: pubKey_def publicKeyFromPrivate_def publicKeyCompress_def publicKeySerialize_def opt_data_def)
  then obtain B where B: "ec_pubkey_create E t = Some B" "length B = 64" "publicKeyParse E (pubKey E (Bytes t)) = Bytes B"
    using pubKey_point [OF assms(1,5)] by blast
  have "case ec_privkey_tweak_add E key t of None \<Rightarrow> ec_pubkey_combine E A B = None
      | Some k' \<Rightarrow> ec_pubkey_create E k' \<noteq> None \<and> ec_pubkey_combine E A B = ec_pubkey_create E k'"
    using assms(3-5) A(1) B(1) unfolding ecc_homomorphic_def by blast
  then obtain Q where Q: "ec_pubkey_create E k' = Some Q" "ec_pubkey_combine E A B = Some Q" using k'(1) by auto
  then have "length Q = 64" "ec_pubkey_serialize E Q True \<noteq> None" using ecc_point [OF assms(1) k'(2)] by auto
  then have "publicKeyCompress E (addPubKeys E (Bytes P) (pubKey E (Bytes t))) = pubKey E (Bytes k')" "pubKey E (Bytes k') \<noteq> DataNull"
    using A B Q k' by (auto simp: addPubKeys_def opt_data_def pubKey_def publicKeyFromPrivate_def publicKeyCompress_def publicKeySerialize_def)
  then show ?thesis using k' by simp
qed


lemma private_wallet_parts:
  assumes "ecc_sized E" "dlength w = 82" "uint8read (keyFromHdWallet w) = 0" "pubKeyFromHdWallet E w \<noteq> DataNull"
  obtains v d f n c key s P where "w = Bytes (hd_fields v d f n c (0 # key) @ s)" "hd_sized v f n c (0 # key)" "length s = 4"
    "length key = 32" "pubKey E (Bytes key) = Bytes P" "length P = 33"
    "anyKeyFromHdWallet w = Bytes key" "pubKeyFromHdWallet E w = Bytes P" "chainCodeFromHdWallet w = Bytes c"
proof -
  obtain bs where w: "w = Bytes bs" "length bs = 82" using assms(2) by (cases w) auto
  obtain v d f n c k s where bs: "bs = hd_fields v d f n c k @ s" "hd_sized v f n c k" "length s = 4"
    using hd_split [OF w(2)] by metis
  note acc = key_accessors [OF bs(2,3)]
  obtain key where k: "k = 0 # key" "length key = 32"
    using bs(2) assms(3) acc by (cases k) (auto simp: w bs hd_sized_def)
  obtain P where P: "pubKey E (Bytes key) = Bytes P" "length P = 33"
    using assms(4) acc k pubKey_33 [OF assms(1), of "Bytes key"] by (cases "pubKey E (Bytes key)") (auto simp: w bs)
  have "anyKeyFromHdWallet w = Bytes key"
    using acc k by (simp add: anyKeyFromHdWallet_def w bs DataCopyDataPart_def Let_def)
  then show thesis using that acc w(1) bs k P by simp
qed

text \<open>
  C14. Deriving a child and then going to the public wallet is the same as going to the public
  wallet and deriving the child there, byte for byte, for indices that are not hardened. This is
  what lets a watching wallet find the keys of the signing wallet. The tweak has to be a valid
  private key and its sum with the parent key as well.
\<close>

theorem public_derivation_commutes:
  assumes "ecc_correct E" "ecc_sized E" "ecc_homomorphic E"
    and "dlength w = 82" "hd_version w = HD_WALLET_PRIV \<or> hd_version w = HD_WALLET_PRIV_TESTNET" "uint8read (keyFromHdWallet w) = 0"
    and "i < 0x80000000" "pubKeyFromHdWallet E w \<noteq> DataNull"
    and "tweak = take 32 (dbytes (hmacSha512 (chainCodeFromHdWallet w) (DataAddCopy (pubKeyFromHdWallet E w) (Bytes (be_index i)))))"
    and "ec_pubkey_create E tweak \<noteq> None" "addToPrivKey E (Bytes tweak) (anyKeyFromHdWallet w) \<noteq> DataNull"
  shows "\<exists>child pub pubchild. childKeyDerivation E w i = Some (Inr child) \<and> publicHdWallet E w = Inr pub
    \<and> publicHdWallet E child = Inr pubchild \<and> childKeyDerivation E pub i = Some (Inr pubchild) \<and> pubchild \<noteq> DataNull"
proof -
  obtain v d f n c key s P where w: "w = Bytes (hd_fields v d f n c (0 # key) @ s)" "hd_sized v f n c (0 # key)" "length s = 4"
      and k: "length key = 32" and P: "pubKey E (Bytes key) = Bytes P" "length P = 33"
      and acc: "anyKeyFromHdWallet w = Bytes key" "pubKeyFromHdWallet E w = Bytes P" "chainCodeFromHdWallet w = Bytes c"
    by (rule private_wallet_parts [OF assms(2,4,6,8)])
  define hash where "hash = hmac_spec sha512_spec 128 c (P @ be_index i)"
  have hl: "length hash = 64" by (simp add: hash_def hmac_spec_def Let_def length_sha512_spec)
  have "length c = 32" using w(2) by (simp add: hd_sized_def)
  then have tweak: "tweak = take 32 hash"
    using assms(9) acc P by (simp add: hmacSha512_spec DataAddCopy_def hash_def flip_index)
  obtain k' where k': "addToPrivKey E (Bytes tweak) (Bytes key) = Bytes k'"
    using assms(11) acc by (cases "addToPrivKey E (Bytes tweak) (Bytes key)") auto
  obtain T where "ec_pubkey_create E tweak = Some T" using assms(10) by blast
  note sum = sum_of_keys [OF assms(1-3) k _ P(1) this k']
  have sum': "publicKeyCompress E (addPubKeys E (Bytes P) (pubKey E (Bytes tweak))) = pubKey E (Bytes k')"
      "pubKey E (Bytes k') \<noteq> DataNull" "length k' = 32" using sum tweak hl by simp_all
  obtain P' where P': "pubKey E (Bytes k') = Bytes P'" "length P' = 33"
    using sum'(2) pubKey_33 [OF assms(2), of "Bytes k'"] by (cases "pubKey E (Bytes k')") auto
  have ver: "le_word (rev v) = HD_WALLET_PRIV \<or> le_word (rev v) = HD_WALLET_PRIV_TESTNET"
    using assms(5) version_of_fields [OF w(2)] by (simp add: w(1))
  let ?v = "public_version (le_word (rev v))" and ?fp = "take 4 (dbytes (hash160 (Bytes P)))"
  let ?child = "hd_fields v (d + 1) ?fp (be_index i) (drop 32 hash) (0 # k')"
    and ?pub = "hd_fields ?v d f n c P" and ?pubchild = "hd_fields ?v (d + 1) ?fp (be_index i) (drop 32 hash) P'"
  have sized: "hd_sized v ?fp (be_index i) (drop 32 hash) (0 # k')" "hd_sized ?v f n c P"
    using w(2) k hl sum'(3) P flip_index by (simp_all add: hd_sized_def hash160_Bytes length_hash160 public_version_def)
  obtain s1 where s1: "hd_wire ?child = Bytes (?child @ s1)" "length s1 = 4" by (rule hd_wire_split [OF sized(1)])
  obtain s2 where s2: "hd_wire ?pub = Bytes (?pub @ s2)" "length s2 = 4" by (rule hd_wire_split [OF sized(2)])
  have soft: "(0x80000000 \<le> i) = False" using assms(7) by simp
  have "ckd_attempt E w i = Inr (Some (hd_wire ?child))"
    using private_attempt [OF w(2,3) assms(2) P(1), of d i] soft k'
    unfolding w(1) tweak by (simp only: if_False hash_def [symmetric] data.simps)
  then have 1: "childKeyDerivation E w i = Some (Inr (hd_wire ?child))" by (subst childKeyDerivation.simps) simp
  have 2: "publicHdWallet E w = Inr (hd_wire ?pub)"
    using public_wallet [OF w(2,3) assms(2) P(1) ver] by (simp add: w(1))
  have 3: "publicHdWallet E (hd_wire ?child) = Inr (hd_wire ?pubchild)"
    using public_wallet [OF sized(1) s1(2) assms(2) P'(1) ver] by (simp add: s1(1))
  have "P ! 0 \<noteq> 0"
    using P(1) assms(3) by (auto simp: ecc_homomorphic_def pubKey_def publicKeyCompress_def publicKeySerialize_def opt_data_def
        split: if_splits option.splits)
  from public_attempt [OF sized(2) s2(2) assms(2) this assms(7), of d] have "ckd_attempt E (hd_wire ?pub) i = Inr (Some (hd_wire ?pubchild))"
    using sum'(1) P'(1) unfolding s2(1) tweak by (simp only: hash_def [symmetric] data.simps)
  then have 4: "childKeyDerivation E (hd_wire ?pub) i = Some (Inr (hd_wire ?pubchild))" by (subst childKeyDerivation.simps) simp
  show ?thesis using 1 2 3 4 by (auto simp: hd_wire_def)
qed

lemma toy_homomorphic: "ecc_homomorphic toy_ecc"
  by (simp add: ecc_homomorphic_def toy_ecc_def zip_append)

lemma toy_sized: "ecc_sized toy_ecc"
  by (simp add: ecc_sized_def toy_ecc_def)


lemma hdWalletPriv_wire:
  assumes "dlength k = 32" "dlength c = 32"
  shows "hdWalletPriv k c = hd_wire (hd_fields (rev (le_bytes 4 HD_WALLET_PRIV)) 0 [0, 0, 0, 0] [0, 0, 0, 0] (dbytes c) (0 # dbytes k))"
  using assms
  by (simp add: hdWalletPriv_def hd_checksum_def hd_header_def hd_wire_def hd_fields_def uintD_defs DataAddCopy_def
      hash256_Bytes DataCopyDataPart_def)

abbreviation toy_wallet :: data where
  "toy_wallet \<equiv> hdWalletPriv (Bytes (replicate 32 7)) (Bytes (replicate 32 9))"

lemma toy_wallet_facts:
  "dlength toy_wallet = 82" "hd_version toy_wallet = HD_WALLET_PRIV" "keyFromHdWallet toy_wallet = Bytes (0 # replicate 32 7)"
  "anyKeyFromHdWallet toy_wallet = Bytes (replicate 32 7)" "pubKeyFromHdWallet toy_ecc toy_wallet = Bytes (2 # replicate 32 7)"
  "chainCodeFromHdWallet toy_wallet = Bytes (replicate 32 9)"
proof -
  let ?v = "rev (le_bytes 4 HD_WALLET_PRIV)" and ?z = "[0, 0, 0, 0]" and ?c = "replicate 32 9" and ?k = "0 # replicate 32 7"
  have sz: "hd_sized ?v ?z ?z ?c ?k" by (simp add: hd_sized_def del: le_bytes_numeral)
  have w: "toy_wallet = hd_wire (hd_fields ?v 0 ?z ?z ?c ?k)" by (subst hdWalletPriv_wire) simp_all
  obtain s where s: "toy_wallet = Bytes (hd_fields ?v 0 ?z ?z ?c ?k @ s)" "length s = 4" using hd_wire_split [OF sz] w by metis
  note acc = key_accessors(1-4) [OF sz s(2), where d = 0, folded s(1)]
  show len: "dlength toy_wallet = 82" by (rule acc(3))
  show "hd_version toy_wallet = HD_WALLET_PRIV"
    unfolding s(1) version_of_fields [OF sz] by (simp add: le_word_le_bytes del: le_bytes_numeral)
  show key: "keyFromHdWallet toy_wallet = Bytes (0 # replicate 32 7)" by (rule acc(1))
  show "anyKeyFromHdWallet toy_wallet = Bytes (replicate 32 7)"
    unfolding anyKeyFromHdWallet_def key Let_def by (simp add: uint8read_def DataCopyDataPart_def)
  show "pubKeyFromHdWallet toy_ecc toy_wallet = Bytes (2 # replicate 32 7)"
    unfolding acc(4) by (simp add: toy_pubKey)
  show "chainCodeFromHdWallet toy_wallet = Bytes (replicate 32 9)" by (rule acc(2))
qed

lemma toy_add: "length t = 32 \<Longrightarrow> addToPrivKey toy_ecc (Bytes t) (Bytes (replicate 32 7)) \<noteq> DataNull"
  by (simp add: addToPrivKey_def opt_data_def toy_ecc_def)

lemma toy_tweak_length:
  "length (take 32 (dbytes (hmacSha512 (Bytes (replicate 32 9)) (DataAddCopy (Bytes (2 # replicate 32 7)) (Bytes (be_index i)))))) = 32"
  using length_hmacSha512 [of "Bytes (replicate 32 9)" "DataAddCopy (Bytes (2 # replicate 32 7)) (Bytes (be_index i))"]
  by (simp add: DataAddCopy_def flip_index)

theorem public_derivation_commutes_witness:
  "\<exists>child pub pubchild. childKeyDerivation toy_ecc toy_wallet 3 = Some (Inr child) \<and> publicHdWallet toy_ecc toy_wallet = Inr pub
    \<and> publicHdWallet toy_ecc child = Inr pubchild \<and> childKeyDerivation toy_ecc pub 3 = Some (Inr pubchild) \<and> pubchild \<noteq> DataNull"
  by (rule public_derivation_commutes [OF toy_ecc_correct toy_sized toy_homomorphic _ _ _ _ _ refl])
    (use toy_wallet_facts toy_add [OF toy_tweak_length] in \<open>simp_all add: uint8read_def, simp add: toy_ecc_def\<close>)



section \<open>Paths\<close>

definition path_part :: "nat \<times> bool \<Rightarrow> bytes" where
  "path_part = (\<lambda>(n, hard). decimal n @ (if hard then [39] else []))"

definition hd_path :: "(nat \<times> bool) list \<Rightarrow> bytes" where
  "hd_path parts = 109 # concat (map (\<lambda>p. 47 # path_part p) parts)"

lemma tolower_consts [simp]: "tolower 109 = 109" "tolower 47 = 47" "tolower 39 = 39" "tolower 0 = 0"
  by (simp_all add: tolower_def)

lemma components_split:
  "sep \<notin> set c \<Longrightarrow> i \<le> length c \<Longrightarrow> components_loop sep i (c @ sep # rest) = Bytes (c @ [0]) # components_loop sep 1 rest"
proof (induction "length c - i" arbitrary: i)
  case 0
  then have "i = length c" by simp
  then show ?case by (subst components_loop.simps) simp
next
  case (Suc m)
  then have i: "i < length c" "c ! i \<noteq> sep" by auto
  then have "components_loop sep i (c @ sep # rest) = components_loop sep (i + 1) (c @ sep # rest)"
    by (subst components_loop.simps) (simp add: nth_append)
  then show ?case using Suc i by simp
qed

lemma components_last: "sep \<notin> set c \<Longrightarrow> components_loop sep i c = [Bytes c]"
proof (induction "length c - i" arbitrary: i)
  case 0
  then show ?case by (subst components_loop.simps) simp
next
  case (Suc m)
  then have "c ! i \<noteq> sep" by auto
  then show ?case using Suc by (subst components_loop.simps) simp
qed

lemma part_bytes: "b \<in> set (path_part p) \<Longrightarrow> b \<noteq> 47 \<and> b \<noteq> 0 \<and> tolower b = b"
  using decimal_digits [of "fst p"] isdigit_not
  by (cases p) (auto simp: path_part_def list_all_iff split: if_splits)

lemma part_ne: "path_part p \<noteq> []"
  using decimal_ne by (cases p) (simp add: path_part_def)

lemma components_path:
  "i \<le> 1 \<Longrightarrow> components_loop 47 i (path_part p @ concat (map (\<lambda>p. 47 # path_part p) ps) @ [0])
    = map (\<lambda>p. Bytes (path_part p @ [0])) (p # ps)"
proof (induction ps arbitrary: p i)
  case Nil
  have "47 \<notin> set (path_part p @ [0])" using part_bytes by fastforce
  then show ?case using components_last by simp
next
  case (Cons q ps)
  have "47 \<notin> set (path_part p)" "i \<le> length (path_part p)"
    using part_bytes part_ne [of p] Cons.prems by (fastforce, cases "path_part p") auto
  then show ?case using components_split [of 47 "path_part p" i] Cons.IH [of 1 q] by simp
qed

lemma component_index_part:
  assumes "n < 2 ^ 31"
  shows "component_index (Bytes (path_part (n, hard) @ [0])) = Bytes (le_bytes 8 (of_nat n OR (if hard then 0x80000000 else 0) :: u64))"
proof -
  let ?c = "path_part (n, hard)"
  have "cstr (Bytes (?c @ [0])) = ?c"
    using part_bytes [of _ "(n, hard)"] by (simp add: cstr_def takeWhile_append)
  moreover have "strtoll ?c = int n"
    using strtoll_decimal(1) [of n 39 "[]"] strtoll_decimal(2) [of n 39] assms by (simp add: path_part_def isdigit_def word_le_nat_alt)
  moreover have "39 \<in> set ?c \<longleftrightarrow> hard"
    using decimal_digits [of n] isdigit_not by (auto simp: path_part_def list_all_iff)
  moreover have "StringCopy (Bytes (?c @ [0])) = Bytes (?c @ [0])" by (simp add: StringCopy_def Let_def nth_append)
  ultimately show ?thesis by (simp add: component_index_def del: le_bytes_numeral)
qed

lemma lowercase_path: "(\<And>b. b \<in> set cs \<Longrightarrow> tolower b = b) \<Longrightarrow> StringLowercase (StringNewC cs) = Bytes (cs @ [0])"
proof -
  assume "\<And>b. b \<in> set cs \<Longrightarrow> tolower b = b"
  then have "map tolower cs = cs" by (simp add: map_idI)
  then show ?thesis by (simp add: StringLowercase_def StringNewC_def StringMutateEnsureNullByte_def nth_append tolower_def)
qed

lemma indices_of_path:
  assumes "\<forall>(n, hard) \<in> set parts. n < 2 ^ 31"
  shows "ckdIndicesFromPath (hd_path parts)
    = map (\<lambda>(n, hard). Bytes (le_bytes 8 (of_nat n OR (if hard then 0x80000000 else 0) :: u64))) parts"
proof (cases parts)
  case Nil
  have "StringLowercase (StringNewC (hd_path [])) = Bytes [109, 0]"
    by (simp add: hd_path_def StringLowercase_def StringNewC_def StringMutateEnsureNullByte_def tolower_def)
  then show ?thesis by (simp add: Nil ckdIndicesFromPath_def Let_def StringEqual_def cstr_def c_lit_def)
next
  case (Cons p ps)
  let ?b = "path_part p @ concat (map (\<lambda>p. 47 # path_part p) ps)"
  have path: "StringLowercase (StringNewC (hd_path parts)) = Bytes (109 # 47 # ?b @ [0])"
    unfolding Cons hd_path_def by (subst lowercase_path) (auto dest: part_bytes split: if_splits)
  obtain x xs where x: "path_part p = x # xs" using part_ne by (cases "path_part p") auto
  have trim: "DataTrimFront (Bytes (b # cs @ [0])) 1 = Bytes (cs @ [0])" for b cs
    by (simp add: DataTrimFront_def DataResize_def)
  have "\<not> StringEqual (Bytes (109 # 47 # ?b @ [0])) []" "\<not> StringEqual (Bytes (109 # 47 # ?b @ [0])) (c_lit ''m'')"
      "\<not> StringEqual (Bytes (109 # 47 # ?b @ [0])) (c_lit ''/'')"
      "StringHasPrefix (Bytes (109 # (47 # ?b) @ [0])) (c_lit ''m'')" "StringHasPrefix (Bytes (47 # ?b @ [0])) (c_lit ''/'')"
    by (simp_all add: StringEqual_def StringHasPrefix_def cstr_def c_lit_def)
  then have "ckdIndicesFromPath (hd_path parts) = fold (\<lambda>c result. DatasAddRef result (component_index c)) (StringComponents (Bytes (?b @ [0])) 47) []"
    unfolding ckdIndicesFromPath_def path Let_def using trim [of 109 "47 # ?b"] trim [of 47 ?b] by simp
  also have "StringComponents (Bytes (?b @ [0])) 47 = map (\<lambda>p. Bytes (path_part p @ [0])) parts"
    using components_path [of 0 p ps] by (simp add: StringComponents_def Cons)
  also have "fold (\<lambda>c result. DatasAddRef result (component_index c)) (map (\<lambda>p. Bytes (path_part p @ [0])) parts) []
      = map (\<lambda>p. component_index (Bytes (path_part p @ [0]))) parts"
  proof -
    have "fold (\<lambda>c result. DatasAddRef result (component_index c)) cs acc = acc @ map component_index cs" for cs acc
      by (induction cs arbitrary: acc) (simp_all add: DatasAddRef_def)
    then show ?thesis by simp
  qed
  also have "\<dots> = map (\<lambda>(n, hard). Bytes (le_bytes 8 (of_nat n OR (if hard then 0x80000000 else 0) :: u64))) parts"
    using assms by (intro map_cong refl) (auto simp: component_index_part simp del: le_bytes_numeral)
  finally show ?thesis .
qed

lemma indices_relative:
  assumes "\<forall>(n, hard) \<in> set parts. n < 2 ^ 31" "parts \<noteq> []"
  shows "ckdIndicesFromPath (drop 2 (hd_path parts)) = ckdIndicesFromPath (hd_path parts)"
proof -
  obtain p ps where Cons: "parts = p # ps" using assms(2) by (cases parts) auto
  let ?b = "path_part p @ concat (map (\<lambda>p. 47 # path_part p) ps)"
  have path: "StringLowercase (StringNewC (hd_path parts)) = Bytes (109 # 47 # ?b @ [0])"
    unfolding Cons hd_path_def by (subst lowercase_path) (auto dest: part_bytes split: if_splits)
  have rel: "StringLowercase (StringNewC (drop 2 (hd_path parts))) = Bytes (?b @ [0])"
    unfolding Cons hd_path_def by (simp, subst lowercase_path) (auto dest: part_bytes split: if_splits)
  obtain x xs where x: "path_part p = x # xs" using part_ne by (cases "path_part p") auto
  obtain y ys where "decimal (fst p) = y # ys" using decimal_ne by (cases "decimal (fst p)") auto
  then have "isdigit x" using decimal_digits [of "fst p"] x by (auto simp: path_part_def case_prod_unfold)
  then have "x \<noteq> 0" "x \<noteq> 109" "x \<noteq> 47" by (auto simp: isdigit_def)
  then have "\<not> StringEqual (Bytes (?b @ [0])) []" "\<not> StringEqual (Bytes (?b @ [0])) (c_lit ''m'')"
      "\<not> StringEqual (Bytes (?b @ [0])) (c_lit ''/'')"
      "\<not> StringHasPrefix (Bytes (?b @ [0])) (c_lit ''m'')" "\<not> StringHasPrefix (Bytes (?b @ [0])) (c_lit ''/'')"
    by (simp_all add: StringEqual_def StringHasPrefix_def cstr_def c_lit_def x)
  then have 1: "ckdIndicesFromPath (drop 2 (hd_path parts)) = fold (\<lambda>c result. DatasAddRef result (component_index c)) (StringComponents (Bytes (?b @ [0])) 47) []"
    unfolding ckdIndicesFromPath_def rel Let_def by simp
  have trim: "DataTrimFront (Bytes (b # cs @ [0])) 1 = Bytes (cs @ [0])" for b cs
    by (simp add: DataTrimFront_def DataResize_def)
  have "\<not> StringEqual (Bytes (109 # 47 # ?b @ [0])) []" "\<not> StringEqual (Bytes (109 # 47 # ?b @ [0])) (c_lit ''m'')"
      "\<not> StringEqual (Bytes (109 # 47 # ?b @ [0])) (c_lit ''/'')"
      "StringHasPrefix (Bytes (109 # (47 # ?b) @ [0])) (c_lit ''m'')" "StringHasPrefix (Bytes (47 # ?b @ [0])) (c_lit ''/'')"
    by (simp_all add: StringEqual_def StringHasPrefix_def cstr_def c_lit_def)
  then have "ckdIndicesFromPath (hd_path parts) = fold (\<lambda>c result. DatasAddRef result (component_index c)) (StringComponents (Bytes (?b @ [0])) 47) []"
    unfolding ckdIndicesFromPath_def path Let_def using trim [of 109 "47 # ?b"] trim [of 47 ?b] by simp
  then show ?thesis using 1 by simp
qed

lemma path_children:
  assumes "\<forall>(n, hard) \<in> set parts. n < 2 ^ 31"
  shows "hdWallet E w (hd_path parts) = fold (\<lambda>(n, hard) r. case r of Some (Inr w) \<Rightarrow>
      childKeyDerivation E w (of_nat n OR (if hard then 0x80000000 else 0)) | _ \<Rightarrow> r) parts (Some (Inr w))"
proof -
  have low: "le_word (take 4 (le_bytes 8 x)) = (ucast x :: u32)" for x :: u64
  proof -
    have "(ucast (drop_bit k x) :: u8) = ucast (drop_bit k (ucast x :: u32))" if "k \<le> 24" for k
      using that by (intro bit_word_eqI) (auto simp: bit_simps)
    from this [of 0] this [of 8] this [of 16] this [of 24]
    have "take 4 (le_bytes 8 x) = le_bytes 4 (ucast x :: u32)" by simp
    then show ?thesis by (simp only: le_word_le_bytes) (rule le_word_le_bytes, simp)
  qed
  have step: "hd_step E (Bytes (le_bytes 8 (of_nat n OR (if hard then 0x80000000 else 0) :: u64))) r
      = (case r of Some (Inr w) \<Rightarrow> childKeyDerivation E w (of_nat n OR (if hard then 0x80000000 else 0)) | _ \<Rightarrow> r)"
    if "n < 2 ^ 31" for n hard r
  proof -
    have "(ucast (of_nat n OR (if hard then 0x80000000 else 0) :: u64) :: u32) = of_nat n OR (if hard then 0x80000000 else 0)"
      by (intro bit_word_eqI) (auto simp: bit_simps)
    then show ?thesis by (auto simp: hd_step_def low simp del: le_bytes_numeral split: option.split sum.split)
  qed
  show ?thesis
    unfolding hdWallet_def indices_of_path [OF assms] fold_map
    using assms by (intro fold_cong) (auto simp: step comp_def fun_eq_iff simp del: le_bytes_numeral)
qed

text \<open>
  A derivation path printed in the usual notation (m, then a slash, a decimal index below
  2 to the 31 and an apostrophe for a hardened index, any number of times) derives exactly the
  children it names, from the root outwards.
\<close>

lemma path_derivation:
  assumes "\<forall>(n, hard) \<in> set parts. n < 2 ^ 31"
  shows "hdWallet E w (hd_path parts) = fold (\<lambda>(n, hard) r. case r of Some (Inr w) \<Rightarrow>
      childKeyDerivation E w (of_nat n OR (if hard then 0x80000000 else 0)) | _ \<Rightarrow> r) parts (Some (Inr w))"
  by (rule path_children [OF assms])

lemma path_example: "hd_path [(44, True), (1, False)] = c_lit ''m/44'' @ 39 # c_lit ''/1''"
  by code_simp

end
