(* ===== verification/Bloom.thy ===== *)
theory Bloom
  imports Byte_IO
begin

text \<open>
  Bloom filters of \<open>src/code/BTCUtil.c\<close> over the 32-bit MurmurHash3 of \<open>src/libraries/murmur3/murmur3.c\<close>.
  A filter is a message: the length of the bit field, the field, the number of hash functions,
  a tweak and a flag byte. The two floating-point formulas for the size and the number of hash
  functions are parameters. A buffer has fewer than 2 to the 32 bytes, so that \<open>filterSize * 8\<close>
  does not wrap. \<open>Inl Fault\<close> is a read behind the buffer or a division by zero.
\<close>

section \<open>MurmurHash3\<close>

definition rotl32 :: "u32 \<Rightarrow> nat \<Rightarrow> u32" where
  "rotl32 x r = push_bit r x OR drop_bit (32 - r) x"

definition fmix32 :: "u32 \<Rightarrow> u32" where
  "fmix32 h =
     (let h = h XOR drop_bit 16 h;
          h = h * 0x85ebca6b;
          h = h XOR drop_bit 13 h;
          h = h * 0xc2b2ae35
      in h XOR drop_bit 16 h)"

definition murmur_mix :: "u32 \<Rightarrow> u32" where
  "murmur_mix k1 = rotl32 (k1 * 0xcc9e2d51) 15 * 0x1b873593"

fun murmur_body :: "nat \<Rightarrow> bytes \<Rightarrow> u32 \<Rightarrow> u32" where
  "murmur_body 0 bs h1 = h1"
| "murmur_body (Suc nblocks) bs h1 =
     murmur_body nblocks (drop 4 bs) (rotl32 (h1 XOR murmur_mix (le_word (take 4 bs))) 13 * 5 + 0xe6546b64)"

definition MurmurHash3_x86_32 :: "bytes \<Rightarrow> u32 \<Rightarrow> u32" where
  "MurmurHash3_x86_32 key seed =
     (let len = length key; nblocks = len div 4;
          h1 = murmur_body nblocks key seed;
          tail = drop (nblocks * 4) key;
          k1 = (0 :: u32);
          k1 = (if len mod 4 = 3 then k1 XOR push_bit 16 (ucast (tail ! 2)) else k1);
          k1 = (if len mod 4 \<ge> 2 then k1 XOR push_bit 8 (ucast (tail ! 1)) else k1);
          k1 = (if len mod 4 \<ge> 1 then k1 XOR ucast (tail ! 0) else k1);
          h1 = (if len mod 4 \<ge> 1 then h1 XOR murmur_mix k1 else h1)
      in fmix32 (h1 XOR of_nat len))"

definition murmur3 :: "data \<Rightarrow> u32 \<Rightarrow> u32" where
  "murmur3 key seed = MurmurHash3_x86_32 (dbytes key) seed"

section \<open>The filter\<close>

definition BLOOM_SEED :: u32 where "BLOOM_SEED = 0xFBA4C795"

text \<open>
  What both operations do before their loop: \<open>Inr None\<close> is the return of 0. The parts are the
  bytes in front of the bit field, the field, the bytes behind it, and the two numbers.
\<close>

definition bloom_open :: "data \<Rightarrow> fault + (bytes \<times> bytes \<times> bytes \<times> u32 \<times> u32) option" where
  "bloom_open bloom =
     (if dlength bloom < 9 then Inr None
      else let (filterSize, ptr) = readVarInt (dbytes bloom) in
        if unat filterSize \<ge> length ptr then Inr None
        else let filt = take (unat filterSize) ptr; rest = drop (unat filterSize) ptr in
          if length rest < 8 then Inl Fault
          else let hashCount = le_word (take 4 rest); tweak = le_word (take 4 (drop 4 rest)) in
            if hashCount > 50 then Inr None
            else if filt = [] \<and> hashCount > 0 then Inl Fault
            else Inr (Some (take (dlength bloom - length ptr) (dbytes bloom), filt, rest, hashCount, tweak)))"

definition bloom_number :: "data \<Rightarrow> u32 \<Rightarrow> nat \<Rightarrow> nat \<Rightarrow> nat" where
  "bloom_number element tweak filterSize i = unat (murmur3 element (of_nat i * BLOOM_SEED + tweak)) mod (filterSize * 8)"

definition bloom_set :: "nat \<Rightarrow> bytes \<Rightarrow> bytes" where
  "bloom_set number filt = filt[number div 8 := filt ! (number div 8) OR push_bit (number mod 8) 1]"

definition bloom_test :: "nat \<Rightarrow> bytes \<Rightarrow> bool" where
  "bloom_test number filt \<longleftrightarrow> filt ! (number div 8) AND push_bit (number mod 8) 1 \<noteq> 0"

definition bloomFilterAddElement :: "data \<Rightarrow> data \<Rightarrow> fault + bool \<times> data" where
  "bloomFilterAddElement bloom element =
     (case bloom_open bloom of Inl e \<Rightarrow> Inl e
      | Inr None \<Rightarrow> Inr (False, bloom)
      | Inr (Some (front, filt, rest, hashCount, tweak)) \<Rightarrow>
          let filt = fold (\<lambda>i filt. bloom_set (bloom_number element tweak (length filt) i) filt) [0..<unat hashCount] filt
          in Inr (True, Bytes (front @ filt @ rest)))"

definition bloomFilterCheckElement :: "data \<Rightarrow> data \<Rightarrow> fault + bool" where
  "bloomFilterCheckElement bloom element =
     (case bloom_open bloom of Inl e \<Rightarrow> Inl e
      | Inr None \<Rightarrow> Inr False
      | Inr (Some (front, filt, rest, hashCount, tweak)) \<Rightarrow>
          Inr (list_all (\<lambda>i. bloom_test (bloom_number element tweak (length filt) i) filt) [0..<unat hashCount]))"

text \<open>
  \<open>sizeOf\<close> stands for \<open>calculateBloomSize\<close> at the given rate and \<open>timesLog2\<close> for the product with
  \<open>log(2)\<close> in \<open>bloomHashCount\<close>, both cut to 32 bits.
\<close>

definition bloomHashCount :: "(int \<Rightarrow> u32) \<Rightarrow> int \<Rightarrow> int \<Rightarrow> fault + u32" where
  "bloomHashCount timesLog2 elements bloomSize =
     (if elements = 0 then Inl Fault
      else Inr (timesLog2 (sgn (bloomSize * 8) * sgn elements * (\<bar>bloomSize * 8\<bar> div \<bar>elements\<bar>))))"

definition BLOOM_ALLOW_LOW_ESTIMATE :: u32 where "BLOOM_ALLOW_LOW_ESTIMATE = 1024"

definition bloomFilter :: "(int \<Rightarrow> u32) \<Rightarrow> (int \<Rightarrow> u32) \<Rightarrow> int \<Rightarrow> u32 \<Rightarrow> fault + data" where
  "bloomFilter sizeOf timesLog2 estimatedElements flag =
     (let estimatedElements = (if flag AND BLOOM_ALLOW_LOW_ESTIMATE = 0 \<and> estimatedElements < 3 then 3 else estimatedElements);
          bloomSize = min (sizeOf estimatedElements) 36000
      in case bloomHashCount timesLog2 estimatedElements (sint bloomSize) of Inl e \<Rightarrow> Inl e
         | Inr hashCount \<Rightarrow>
             let hashCount = min hashCount 50;
                 d = varIntD (ucast bloomSize);
                 d = DataAdd d (DataZero (unat bloomSize));
                 d = DataAdd d (uint32D hashCount);
                 d = DataAdd d (uint32D 0)
             in Inr (DataAdd d (uint8D 0)))"

fun bloom_add_all :: "data \<Rightarrow> datas \<Rightarrow> fault + data" where
  "bloom_add_all bloom [] = Inr bloom"
| "bloom_add_all bloom (e # es) = (case bloomFilterAddElement bloom e of Inl f \<Rightarrow> Inl f
     | Inr (ok, bloom) \<Rightarrow> if ok then bloom_add_all bloom es else Inr DataNull)"

definition bloomFilterArray :: "(int \<Rightarrow> u32) \<Rightarrow> (int \<Rightarrow> u32) \<Rightarrow> datas \<Rightarrow> u32 \<Rightarrow> fault + data" where
  "bloomFilterArray sizeOf timesLog2 searchElements flag =
     (case bloomFilter sizeOf timesLog2 (int (length searchElements)) flag of Inl e \<Rightarrow> Inl e
      | Inr bloom \<Rightarrow> bloom_add_all bloom searchElements)"

section \<open>Bits once set stay set\<close>

lemma bloom_set_simps [simp]: "length (bloom_set n filt) = length filt"
  by (simp add: bloom_set_def)

lemma set_then_test: "n div 8 < length filt \<Longrightarrow> bloom_test n (bloom_set n filt)"
proof -
  assume "n div 8 < length filt"
  moreover have "(x OR push_bit (n mod 8) 1) AND push_bit (n mod 8) 1 = (push_bit (n mod 8) 1 :: u8)" for x
    by (rule bit_word_eqI) (auto simp: bit_simps)
  moreover have "(push_bit (n mod 8) 1 :: u8) \<noteq> 0" by (simp add: push_bit_eq_mult)
  ultimately show ?thesis by (simp add: bloom_test_def bloom_set_def)
qed

lemma test_stays: "bloom_test m filt \<Longrightarrow> m div 8 < length filt \<Longrightarrow> bloom_test m (bloom_set n filt)"
proof -
  assume *: "bloom_test m filt" "m div 8 < length filt"
  have "(x OR y) AND z \<noteq> 0" if "x AND z \<noteq> 0" for x y z :: u8
    using that by (auto simp: bit_eq_iff bit_simps)
  then show ?thesis using * by (cases "m div 8 = n div 8") (simp_all add: bloom_test_def bloom_set_def)
qed

lemma bloom_number_range: "0 < n \<Longrightarrow> bloom_number e t n i div 8 < n"
  unfolding bloom_number_def by (simp add: less_mult_imp_div_less)

lemma fold_set_length: "length (fold (\<lambda>i filt. bloom_set (f (length filt) i) filt) is filt) = length filt"
  by (induction "is" arbitrary: filt) simp_all

lemma fold_keeps_test:
  "bloom_test m filt \<Longrightarrow> m div 8 < length filt \<Longrightarrow> bloom_test m (fold (\<lambda>i filt. bloom_set (f (length filt) i) filt) is filt)"
  by (induction "is" arbitrary: filt) (simp_all add: test_stays)

lemma fold_sets_tests:
  assumes "i \<in> set is" "f (length filt) i div 8 < length filt"
  shows "bloom_test (f (length filt) i) (fold (\<lambda>i filt. bloom_set (f (length filt) i) filt) is filt)"
  using assms
proof (induction "is" arbitrary: filt)
  case (Cons j js)
  show ?case
  proof (cases "i = j")
    case True
    then show ?thesis using Cons.prems set_then_test fold_keeps_test [of "f (length filt) j" "bloom_set (f (length filt) j) filt" f js] by simp
  next
    case False
    then show ?thesis using Cons.IH [of "bloom_set (f (length filt) j) filt"] Cons.prems by simp
  qed
qed simp

section \<open>Reopening a filter\<close>

lemma read_le_front:
  assumes "read_le n bs = (w, ptr)" "ptr \<noteq> []"
  shows "\<exists>p. bs = p @ ptr \<and> (\<forall>x. read_le n (p @ x) = (w, x))"
  using assms by (intro exI [of _ "take n bs"]) (auto simp: read_le_def split: if_splits)

lemma readVarInt_front:
  assumes "readVarInt bs = (w, ptr)" "ptr \<noteq> []"
  shows "\<exists>p. bs = p @ ptr \<and> (\<forall>x. readVarInt (p @ x) = (w, x))"
proof (cases bs)
  case Nil
  then show ?thesis using assms by (auto simp: readVarInt_def)
next
  case (Cons b cs)
  have u: "uint8readP bs = (b, cs)" by (simp add: Cons)
  consider "b < 253" | "\<not> b < 253" "b < 254" | "\<not> b < 253" "\<not> b < 254" "b < 255" | "\<not> b < 253" "\<not> b < 254" "\<not> b < 255" by blast
  then show ?thesis
  proof cases
    case 1
    then show ?thesis using assms u Cons by (intro exI [of _ "[b]"]) (simp add: readVarInt_def)
  next
    case 2
    obtain v where v: "uint16readP cs = (v, ptr)" "w = ucast v"
      using assms(1) u 2 by (auto simp: readVarInt_def split: prod.splits)
    obtain p where p: "cs = p @ ptr" "\<forall>x. uint16readP (p @ x) = (v, x)"
      using read_le_front [of 2 cs v ptr] v assms(2) unfolding uint16readP_def by blast
    show ?thesis using p 2 v Cons by (intro exI [of _ "b # p"]) (simp add: readVarInt_def)
  next
    case 3
    obtain v where v: "uint32readP cs = (v, ptr)" "w = ucast v"
      using assms(1) u 3 by (auto simp: readVarInt_def split: prod.splits)
    obtain p where p: "cs = p @ ptr" "\<forall>x. uint32readP (p @ x) = (v, x)"
      using read_le_front [of 4 cs v ptr] v assms(2) unfolding uint32readP_def by blast
    show ?thesis using p 3 v Cons by (intro exI [of _ "b # p"]) (simp add: readVarInt_def)
  next
    case 4
    then have v: "uint64readP cs = (w, ptr)" using assms(1) u by (simp add: readVarInt_def)
    obtain p where p: "cs = p @ ptr" "\<forall>x. uint64readP (p @ x) = (w, x)"
      using read_le_front [of 8 cs w ptr] v assms(2) unfolding uint64readP_def by blast
    show ?thesis using p 4 Cons by (intro exI [of _ "b # p"]) (simp add: readVarInt_def)
  qed
qed

lemma bloom_reopen:
  assumes "bloom_open b = Inr (Some (front, filt, rest, hc, tw))" "length filt' = length filt"
  shows "bloom_open (Bytes (front @ filt' @ rest)) = Inr (Some (front, filt', rest, hc, tw))" "unat hc > 0 \<Longrightarrow> filt \<noteq> []"
proof -
  obtain n ptr where r: "readVarInt (dbytes b) = (n, ptr)" by (cases "readVarInt (dbytes b)")
  have o: "\<not> dlength b < 9" "unat n < length ptr" "filt = take (unat n) ptr" "rest = drop (unat n) ptr" "\<not> length rest < 8"
      "hc = le_word (take 4 rest)" "tw = le_word (take 4 (drop 4 rest))" "\<not> hc > 50" "\<not> (filt = [] \<and> hc > 0)"
      "front = take (dlength b - length ptr) (dbytes b)"
    using assms(1) r by (auto simp: bloom_open_def Let_def split: if_splits)
  obtain p where p: "dbytes b = p @ ptr" "\<forall>x. readVarInt (p @ x) = (n, x)" using readVarInt_front [OF r] o(2) by fastforce
  have front: "front = p" using o(10) p(1) by simp
  have len: "length (filt' @ rest) = length ptr" "length filt' = unat n" using o(2-4) assms(2) by simp_all
  have "dlength b = length front + length ptr" using p(1) front by simp
  then show "bloom_open (Bytes (front @ filt' @ rest)) = Inr (Some (front, filt', rest, hc, tw))"
    unfolding bloom_open_def using o(1,2,5-9) len p(2) front assms(2) by (simp add: Let_def) auto
  show "unat hc > 0 \<Longrightarrow> filt \<noteq> []" using o(9) by (auto simp: word_less_nat_alt)
qed

section \<open>Membership filters\<close>

locale membership_filter =
  fixes add :: "'f \<Rightarrow> 'e \<Rightarrow> 'f option" and member :: "'f \<Rightarrow> 'e \<Rightarrow> bool" and usable :: "'f \<Rightarrow> bool"
  assumes add_works: "usable f \<Longrightarrow> \<exists>f'. add f e = Some f' \<and> usable f'"
    and add_member: "add f e = Some f' \<Longrightarrow> member f' e"
    and add_keeps: "add f e = Some f' \<Longrightarrow> member f x \<Longrightarrow> member f' x"
begin

fun add_each :: "'f \<Rightarrow> 'e list \<Rightarrow> 'f option" where
  "add_each f [] = Some f"
| "add_each f (e # es) = (case add f e of None \<Rightarrow> None | Some f' \<Rightarrow> add_each f' es)"

lemma add_each_keeps: "add_each f es = Some f' \<Longrightarrow> member f x \<Longrightarrow> member f' x"
  by (induction es arbitrary: f) (auto split: option.splits dest: add_keeps)

lemma no_false_negative: "add_each f es = Some f' \<Longrightarrow> e \<in> set es \<Longrightarrow> member f' e"
  by (induction es arbitrary: f) (auto split: option.splits dest: add_member add_each_keeps)

lemma add_each_works: "usable f \<Longrightarrow> \<exists>f'. add_each f es = Some f' \<and> usable f'"
proof (induction es arbitrary: f)
  case (Cons e es)
  obtain f' where "add f e = Some f'" "usable f'" using add_works [OF Cons.prems] by blast
  then show ?case using Cons.IH [of f'] by simp
qed simp

end

definition bloom_add :: "data \<Rightarrow> data \<Rightarrow> data option" where
  "bloom_add b e = (case bloomFilterAddElement b e of Inr (True, b') \<Rightarrow> Some b' | _ \<Rightarrow> None)"

definition bloom_usable :: "data \<Rightarrow> bool" where
  "bloom_usable b \<longleftrightarrow> (\<exists>parts. bloom_open b = Inr (Some parts))"

lemma bloom_add_parts:
  fixes e :: data
  assumes "bloom_open b = Inr (Some (front, filt, rest, hc, tw))"
  defines "filt' \<equiv> fold (\<lambda>i filt. bloom_set (bloom_number e tw (length filt) i) filt) [0..<unat hc] filt"
  shows "bloom_add b e = Some (Bytes (front @ filt' @ rest))"
    "bloom_open (Bytes (front @ filt' @ rest)) = Inr (Some (front, filt', rest, hc, tw))"
    "length filt' = length filt" "i < unat hc \<Longrightarrow> bloom_number x tw (length filt) i div 8 < length filt"
proof -
  show len: "length filt' = length filt" unfolding filt'_def by (rule fold_set_length)
  show "bloom_add b e = Some (Bytes (front @ filt' @ rest))"
    using assms(1) by (simp add: bloom_add_def bloomFilterAddElement_def filt'_def)
  show "bloom_open (Bytes (front @ filt' @ rest)) = Inr (Some (front, filt', rest, hc, tw))"
    by (rule bloom_reopen(1) [OF assms(1) len])
  show "i < unat hc \<Longrightarrow> bloom_number x tw (length filt) i div 8 < length filt"
    using bloom_reopen(2) [OF assms(1) refl] by (intro bloom_number_range) simp
qed

interpretation bloom: membership_filter bloom_add "\<lambda>b e. bloomFilterCheckElement b e = Inr True" bloom_usable
proof
  fix b e
  assume "bloom_usable b"
  then obtain front filt rest hc tw where o: "bloom_open b = Inr (Some (front, filt, rest, hc, tw))"
    by (auto simp: bloom_usable_def)
  show "\<exists>b'. bloom_add b e = Some b' \<and> bloom_usable b'"
    using bloom_add_parts [OF o] by (auto simp: bloom_usable_def)
next
  fix b e b' x
  assume "bloom_add b e = Some b'"
  then obtain front filt rest hc tw where o: "bloom_open b = Inr (Some (front, filt, rest, hc, tw))"
    by (auto simp: bloom_add_def bloomFilterAddElement_def split: sum.splits option.splits)
  let ?f = "fold (\<lambda>i filt. bloom_set (bloom_number e tw (length filt) i) filt) [0..<unat hc] filt"
  note parts = bloom_add_parts(1-3) [OF o, of e] and range = bloom_add_parts(4) [OF o]
  have b': "bloomFilterCheckElement b' y = Inr (list_all (\<lambda>i. bloom_test (bloom_number y tw (length filt) i) ?f) [0..<unat hc])" for y
    using parts \<open>bloom_add b e = Some b'\<close> by (simp add: bloomFilterCheckElement_def)
  show "bloomFilterCheckElement b' e = Inr True"
    unfolding b' using fold_sets_tests [of _ "[0..<unat hc]" "bloom_number e tw" filt] range by (simp add: list_all_iff)
  show "bloomFilterCheckElement b' x = Inr True" if "bloomFilterCheckElement b x = Inr True"
  proof -
    have "\<forall>i < unat hc. bloom_test (bloom_number x tw (length filt) i) filt"
      using that o by (simp add: bloomFilterCheckElement_def list_all_iff)
    then show ?thesis
      unfolding b' using fold_keeps_test [of _ filt "bloom_number e tw" "[0..<unat hc]"] range by (simp add: list_all_iff)
  qed
qed

lemma bloom_add_all_eq: "bloom.add_each b es = Some b' \<Longrightarrow> bloom_add_all b es = Inr b'"
  by (induction es arbitrary: b)
    (auto simp: bloom_add_def split: option.splits sum.splits prod.splits bool.splits)

lemma bloom_new_usable:
  assumes "bloomFilter sizeOf timesLog2 n flag = Inr b"
    and "s = min (sizeOf (if flag AND BLOOM_ALLOW_LOW_ESTIMATE = 0 \<and> n < 3 then 3 else n)) 36000"
    and "0 < s" "unat s < 253 \<or> 256 \<le> unat s"
  shows "bloom_usable b"
proof -
  obtain x where x: "bloomHashCount timesLog2 (if flag AND BLOOM_ALLOW_LOW_ESTIMATE = 0 \<and> n < 3 then 3 else n) (sint s) = Inr x"
    using assms(1) unfolding assms(2) bloomFilter_def by (auto simp: Let_def split: sum.splits)
  define hc where "hc = min x 50"
  have hc: "dbytes b = dbytes (varIntD (ucast s)) @ replicate (unat s) 0 @ le_bytes 4 hc @ le_bytes 4 (0 :: u32) @ [0]" "hc \<le> 50"
    using assms(1) x unfolding assms(2) bloomFilter_def
    by (auto simp: Let_def uintD_defs DataZero_def hc_def simp del: le_bytes_numeral)
  have u: "unat (ucast s :: u64) = unat s" using unsigned_less [of s, where ?'a = nat] by (simp add: unsigned_ucast_eq take_bit_nat_eq_self)
  have v: "readVarInt (dbytes b) = (ucast s, replicate (unat s) 0 @ le_bytes 4 hc @ le_bytes 4 (0 :: u32) @ [0])"
    unfolding hc(1) using assms(4) u by (intro readVarInt_varIntD) (simp add: varint_safe_def)
  have "dlength b \<ge> 9" by (simp add: hc(1) del: le_bytes_numeral)
  moreover have "\<not> hc > 50" "unat s \<noteq> 0" using hc(2) assms(3) leD by (blast, simp add: word_less_nat_alt)
  ultimately show ?thesis
    unfolding bloom_usable_def bloom_open_def v by (simp add: u le_word_le_bytes Let_def del: le_bytes_numeral)
qed

text \<open>
  C40. A filter built over a list of elements reports each of them as a member: whatever size and
  number of hash functions the two floating-point formulas give, as long as the size is not 0 and
  not one of 253, 254 and 255, whose variable-length integer cannot be read back, and the number of
  elements that is divided by is not 0.
\<close>

theorem bloom_no_false_negatives:
  assumes "n = (if flag AND BLOOM_ALLOW_LOW_ESTIMATE = 0 \<and> length es < 3 then 3 else int (length es))"
    and "n \<noteq> 0" "s = min (sizeOf n) 36000" "0 < s" "unat s < 253 \<or> 256 \<le> unat s"
  shows "\<exists>b. bloomFilterArray sizeOf timesLog2 es flag = Inr b \<and> (\<forall>e \<in> set es. bloomFilterCheckElement b e = Inr True)"
proof -
  have n: "n = (if flag AND BLOOM_ALLOW_LOW_ESTIMATE = 0 \<and> int (length es) < 3 then 3 else int (length es))"
    using assms(1) by simp
  obtain b0 where b0: "bloomFilter sizeOf timesLog2 (int (length es)) flag = Inr b0"
    using assms(2) n unfolding bloomFilter_def bloomHashCount_def by (simp add: Let_def)
  have "bloom_usable b0" by (rule bloom_new_usable [OF b0 _ assms(4,5)]) (simp only: n [symmetric] assms(3))
  then obtain b where b: "bloom.add_each b0 es = Some b" using bloom.add_each_works by blast
  then have "bloomFilterArray sizeOf timesLog2 es flag = Inr b"
    by (simp add: bloomFilterArray_def b0 bloom_add_all_eq)
  then show ?thesis using bloom.no_false_negative [OF b] by blast
qed

theorem bloom_no_false_negatives_witness:
  "\<exists>b. bloomFilterArray (\<lambda>_. 4) (\<lambda>_. 5) [Bytes [1, 2, 3, 4, 5], Bytes []] 0 = Inr b \<and>
     (\<forall>e \<in> {Bytes [1, 2, 3, 4, 5], Bytes []}. bloomFilterCheckElement b e = Inr True)"
  using bloom_no_false_negatives [of 3 0 "[Bytes [1, 2, 3, 4, 5], Bytes []]" 4 "\<lambda>_. 4" "\<lambda>_. 5"] by simp

text \<open>
  A size of 253, 254 or 255 is written as one byte that a reader takes for a length prefix: the
  reader then finds no bits at all.
\<close>

lemma bloom_size_253_unreadable: "readVarInt (dbytes (varIntD 253) @ 0 # 0 # bs) = (0, bs)"
  by (simp add: varIntD_bytes readVarInt_def uintreadP_defs read_le_def)

end
