(* ===== verification/Base58.thy ===== *)
theory Base58
  imports C_Strings
begin

text \<open>
  Base 58 text: \<open>src/libraries/base58/base58.cpp\<close> and the wrappers of \<open>src/code/base58C.cpp\<close>. The
  vectors of digits are kept in the order of the source and reversed where it walks them with a
  reverse iterator. Each vector is allocated with a size estimated from the length of the input,
  and \<open>assert(carry == 0)\<close> checks that a digit never falls off its end: \<open>Inl Abort\<close>. Lengths fit an
  \<open>int\<close>.
\<close>

section \<open>The code\<close>

definition pszBase58 :: bytes where
  "pszBase58 = c_lit ''123456789ABCDEFGHJKLMNPQRSTUVWXYZabcdefghijkmnopqrstuvwxyz''"

text \<open>The first three and the last eight rows of the table have no character of the alphabet.\<close>

definition mapBase58 :: "int list" where
  "mapBase58 = concat [replicate 48 (- 1),
    [- 1, 0, 1, 2, 3, 4, 5, 6, 7, 8, - 1, - 1, - 1, - 1, - 1, - 1],
    [- 1, 9, 10, 11, 12, 13, 14, 15, 16, - 1, 17, 18, 19, 20, 21, - 1],
    [22, 23, 24, 25, 26, 27, 28, 29, 30, 31, 32, - 1, - 1, - 1, - 1, - 1],
    [- 1, 33, 34, 35, 36, 37, 38, 39, 40, 41, 42, 43, - 1, 44, 45, 46],
    [47, 48, 49, 50, 51, 52, 53, 54, 55, 56, 57, - 1, - 1, - 1, - 1, - 1],
    replicate 128 (- 1)]"

text \<open>One pass over a vector from its end: the vector is given reversed.\<close>

fun carry_pass :: "nat \<Rightarrow> nat \<Rightarrow> nat \<Rightarrow> nat \<Rightarrow> nat \<Rightarrow> bytes \<Rightarrow> bytes \<times> nat \<times> nat" where
  "carry_pass factor base len carry i [] = ([], carry, i)"
| "carry_pass factor base len carry i (d # ds) =
     (if carry \<noteq> 0 \<or> i < len then
        let carry = carry + factor * unat d; (ds, rest, i) = carry_pass factor base len (carry div base) (i + 1) ds
        in (of_nat (carry mod base) # ds, rest, i)
      else (d # ds, carry, i))"

definition put_digit :: "nat \<Rightarrow> nat \<Rightarrow> bytes \<times> nat \<Rightarrow> nat \<Rightarrow> fault + bytes \<times> nat" where
  "put_digit factor base = (\<lambda>(vec, len) carry.
     let (ds, carry, i) = carry_pass factor base len carry 0 (rev vec)
     in if carry \<noteq> 0 then Inl Abort else Inr (rev ds, i))"

fun encode_digits :: "bytes \<times> nat \<Rightarrow> bytes \<Rightarrow> fault + bytes \<times> nat" where
  "encode_digits state [] = Inr state"
| "encode_digits state (b # bs) = (case put_digit 256 58 state (unat b) of Inl e \<Rightarrow> Inl e
     | Inr state \<Rightarrow> encode_digits state bs)"

definition EncodeBase58 :: "bytes \<Rightarrow> fault + bytes" where
  "EncodeBase58 bs =
     (let zeroes = length (takeWhile (\<lambda>b. b = 0) bs); rest = dropWhile (\<lambda>b. b = 0) bs;
          size = length rest * 138 div 100 + 1
      in case encode_digits (replicate size 0, 0) rest of Inl e \<Rightarrow> Inl e
         | Inr (b58, len) \<Rightarrow>
             let it = dropWhile (\<lambda>d. d = 0) (drop (size - len) b58)
             in Inr (replicate zeroes 49 @ map (\<lambda>d. pszBase58 ! unat d) it))"

text \<open>\<open>Inr None\<close> is the return of false at a character outside the alphabet.\<close>

fun decode_digits :: "bytes \<times> nat \<Rightarrow> bytes \<Rightarrow> fault + ((bytes \<times> nat) \<times> bytes) option" where
  "decode_digits state [] = Inr (Some (state, []))"
| "decode_digits state (c # cs) =
     (if isspace c then Inr (Some (state, c # cs))
      else let carry = mapBase58 ! unat c in
        if carry = - 1 then Inr None
        else case put_digit 58 256 state (nat carry) of Inl e \<Rightarrow> Inl e
          | Inr state \<Rightarrow> decode_digits state cs)"

definition DecodeBase58 :: "bytes \<Rightarrow> fault + bytes option" where
  "DecodeBase58 psz =
     (let psz = dropWhile isspace psz;
          zeroes = length (takeWhile (\<lambda>c. c = 49) psz); psz = dropWhile (\<lambda>c. c = 49) psz;
          size = length psz * 733 div 1000 + 1
      in case decode_digits (replicate size 0, 0) psz of Inl e \<Rightarrow> Inl e
         | Inr None \<Rightarrow> Inr None
         | Inr (Some ((b256, len), psz)) \<Rightarrow>
             if dropWhile isspace psz \<noteq> [] then Inr None
             else Inr (Some (replicate zeroes 0 @ dropWhile (\<lambda>d. d = 0) (drop (size - len) b256))))"

definition Base58Encode :: "data \<Rightarrow> fault + data" where
  "Base58Encode d = (case EncodeBase58 (dbytes d) of Inl e \<Rightarrow> Inl e | Inr result \<Rightarrow> Inr (StringNewC result))"

definition Base58Decode :: "bytes \<Rightarrow> fault + data" where
  "Base58Decode str = (case DecodeBase58 str of Inl e \<Rightarrow> Inl e | Inr None \<Rightarrow> Inr DataNull | Inr (Some result) \<Rightarrow> Inr (Bytes result))"

section \<open>Numbers in a positional system\<close>

abbreviation num :: "nat \<Rightarrow> bytes \<Rightarrow> nat" where
  "num base ds \<equiv> horner_sum unat base (rev ds)"

lemma num_less:
  assumes "\<forall>d \<in> set ds. unat d < b"
  shows "horner_sum unat b ds < b ^ length ds"
  using assms
proof (induction ds)
  case (Cons d ds)
  then have "horner_sum unat b ds + 1 \<le> b ^ length ds" "unat d < b" by simp_all
  then have "unat d + b * horner_sum unat b ds < b * (horner_sum unat b ds + 1)" by simp
  also have "\<dots> \<le> b * b ^ length ds" using \<open>_ \<le> b ^ length ds\<close> by (rule mult_le_mono2)
  finally show ?case by simp
qed simp

lemma num_unique:
  assumes "\<forall>d \<in> set xs. unat d < b" "\<forall>d \<in> set ys. unat d < b" "1 < b"
    and "xs = [] \<or> last xs \<noteq> 0" "ys = [] \<or> last ys \<noteq> 0" "horner_sum unat b xs = horner_sum unat b ys"
  shows "xs = ys"
  using assms
proof (induction xs arbitrary: ys)
  case Nil
  have "horner_sum unat b zs \<noteq> 0" if "zs \<noteq> []" "last zs \<noteq> 0" for zs
    using that \<open>1 < b\<close> by (induction zs) (auto simp: unat_eq_0 split: if_splits)
  from this [of ys] show ?case using Nil.prems(5,6) by auto
next
  case (Cons x xs)
  have ne: "horner_sum unat b zs \<noteq> 0" if "zs \<noteq> []" "last zs \<noteq> 0" for zs
    using that \<open>1 < b\<close> by (induction zs) (auto simp: unat_eq_0 split: if_splits)
  obtain y ys' where ys: "ys = y # ys'" using ne [of "x # xs"] Cons.prems by (cases ys) auto
  have eq: "unat x + b * horner_sum unat b xs = unat y + b * horner_sum unat b ys'" using Cons.prems(6) ys by simp
  have lt: "unat x < b" "unat y < b" using Cons.prems ys by simp_all
  have "(unat x + b * horner_sum unat b xs) mod b = unat x" "(unat y + b * horner_sum unat b ys') mod b = unat y"
    using lt by simp_all
  then have xy: "unat x = unat y" using eq by simp
  then have "horner_sum unat b xs = horner_sum unat b ys'" using eq \<open>1 < b\<close> by simp
  moreover have "xs = [] \<or> last xs \<noteq> 0" "ys' = [] \<or> last ys' \<noteq> 0" using Cons.prems(4,5) ys by auto
  ultimately have "xs = ys'" using Cons.IH [of ys'] Cons.prems(1-3) ys by simp
  then show ?case using xy ys by (simp add: word_unat_eq_iff)
qed

lemma trim_zeros:
  "num b (dropWhile (\<lambda>d. d = 0) ds) = num b ds" "dropWhile (\<lambda>d. d = 0) ds = [] \<or> last (rev (dropWhile (\<lambda>d. d = 0) ds)) \<noteq> 0"
proof -
  have "horner_sum unat b (xs @ replicate n 0) = horner_sum unat b xs" for n and xs :: bytes
    by (induction xs) (induction n, simp_all)
  moreover have "takeWhile (\<lambda>d. d = 0) ds = replicate (length (takeWhile (\<lambda>d. d = 0) ds)) 0"
    by (rule replicate_eqI) (auto dest: set_takeWhileD)
  then have "rev ds = rev (dropWhile (\<lambda>d. d = 0) ds) @ replicate (length (takeWhile (\<lambda>d. d = 0) ds)) 0"
    by (metis rev_append rev_replicate takeWhile_dropWhile_id)
  ultimately show "num b (dropWhile (\<lambda>d. d = 0) ds) = num b ds" by metis
  show "dropWhile (\<lambda>d. d = 0) ds = [] \<or> last (rev (dropWhile (\<lambda>d. d = 0) ds)) \<noteq> 0"
    using hd_dropWhile [of "\<lambda>d. d = 0" ds] by (auto simp: last_rev)
qed

lemma num_zeros: "horner_sum unat b (replicate n (0 :: u8)) = 0"
  by (induction n) simp_all

lemma rate_le:
  assumes "factor ^ q' \<le> (base :: nat) ^ p'" "p' * q \<le> p * q'" "0 < q'" "1 \<le> base"
  shows "factor ^ q \<le> base ^ p"
proof -
  have "(factor ^ q) ^ q' = (factor ^ q') ^ q" by (simp add: power_mult [symmetric] mult.commute)
  also have "\<dots> \<le> (base ^ p') ^ q" using assms(1) by (rule power_mono) simp
  also have "\<dots> \<le> (base ^ p) ^ q'" unfolding power_mult [symmetric] using assms(2,4) by (rule power_increasing)
  finally show ?thesis using assms(3) by (simp add: power_mono_iff)
qed

section \<open>One pass\<close>

lemma carry_pass_spec:
  assumes "carry_pass f b len c i ds = (ds', c', i')" "1 < b" "b \<le> 256" "\<forall>d \<in> set ds. unat d < b"
    and "\<forall>d \<in> set (drop (len - i) ds). d = 0"
  shows "length ds' = length ds \<and> (\<forall>d \<in> set ds'. unat d < b) \<and> i \<le> i' \<and> (\<forall>d \<in> set (drop (i' - i) ds'). d = 0)
    \<and> horner_sum unat b ds' + b ^ length ds * c' = f * horner_sum unat b ds + c"
  using assms
proof (induction f b len c i ds arbitrary: ds' c' i' rule: carry_pass.induct)
  case (2 f b len c i d ds)
  show ?case
  proof (cases "c \<noteq> 0 \<or> i < len")
    case True
    let ?c = "c + f * unat d"
    obtain es where es: "carry_pass f b len (?c div b) (i + 1) ds = (es, c', i')" "ds' = of_nat (?c mod b) # es"
      using "2.prems"(1) True by (auto simp: Let_def split: prod.splits)
    have "len - i = Suc (len - (i + 1)) \<or> len - i = 0 \<and> len - (i + 1) = 0" by arith
    then have "\<forall>d \<in> set (drop (len - (i + 1)) ds). d = 0" using "2.prems"(5) by auto
    moreover have "\<forall>d \<in> set ds. unat d < b" using "2.prems"(4) by simp
    ultimately have IH: "length es = length ds" "\<forall>d \<in> set es. unat d < b" "i + 1 \<le> i'" "\<forall>d \<in> set (drop (i' - (i + 1)) es). d = 0"
        "horner_sum unat b es + b ^ length ds * c' = f * horner_sum unat b ds + ?c div b"
      using "2.IH" [OF True refl es(1) "2.prems"(2,3)] by blast+
    have m: "unat (of_nat (?c mod b) :: u8) = ?c mod b"
      using "2.prems"(2,3) by (intro unat_of_nat_small) (simp add: order_less_le_trans [OF mod_less_divisor])
    have "b * (horner_sum unat b es + b ^ length ds * c') + ?c mod b = b * (f * horner_sum unat b ds) + ?c"
      unfolding IH(5) by (simp add: distrib_left)
    then have "horner_sum unat b ds' + b ^ length (d # ds) * c' = f * horner_sum unat b (d # ds) + c"
      by (simp add: es(2) m algebra_simps)
    moreover have "drop (i' - i) ds' = drop (i' - (i + 1)) es" using IH(3) es(2) by (simp add: drop_Cons')
    ultimately show ?thesis using IH es(2) m "2.prems"(2) by simp
  next
    case False
    then have "ds' = d # ds" "c' = 0" "i' = i" "c = 0" using "2.prems"(1) by simp_all
    moreover from False have z: "\<forall>x \<in> set (d # ds). x = 0" using "2.prems"(5) by simp
    moreover have "horner_sum unat b xs = 0" if "\<forall>x \<in> set xs. x = 0" for xs :: bytes
      using that by (induction xs) simp_all
    from this [OF z] have "horner_sum unat b (d # ds) = 0" .
    ultimately show ?thesis using "2.prems"(2,4) by simp
  qed
qed simp

section \<open>Conversion between two bases\<close>

text \<open>
  A vector holds a number below \<open>factor ^ n\<close>: its digits are digits of the base and those in front
  of the last \<open>len\<close> are zero.
\<close>

definition holds :: "nat \<Rightarrow> nat \<Rightarrow> nat \<Rightarrow> nat \<Rightarrow> bytes \<times> nat \<Rightarrow> bool" where
  "holds factor base sz n = (\<lambda>(vec, len). length vec = sz \<and> (\<forall>d \<in> set vec. unat d < base)
     \<and> (\<forall>d \<in> set (drop len (rev vec)). d = 0) \<and> num base vec < factor ^ n)"

locale radix =
  fixes factor base p q :: nat
  assumes factor: "1 < factor" and base: "1 < base" "base \<le> 256" and q: "0 < q"
    and rate: "factor ^ q \<le> base ^ p"
begin

lemma capacity: "factor ^ n < base ^ (n * p div q + 1)"
proof -
  have "n * p < q * (n * p div q + 1)"
    using dividend_less_times_div [OF q, of "n * p"] by simp
  then have "base ^ (n * p) < base ^ ((n * p div q + 1) * q)"
    using base(1) by (intro power_strict_increasing) (simp_all add: mult.commute)
  moreover have "(factor ^ n) ^ q \<le> base ^ (n * p)"
    using power_mono [OF rate, of n] by (simp add: power_mult [symmetric] mult.commute)
  ultimately have "(factor ^ n) ^ q < (base ^ (n * p div q + 1)) ^ q" by (simp add: power_mult [symmetric] del: power_Suc)
  then show ?thesis by (rule power_less_imp_less_base) simp
qed

lemma start_holds: "holds factor base sz 0 (replicate sz 0, 0)"
  using base by (simp add: holds_def num_zeros)

lemma put_digit_works:
  assumes "holds factor base sz n st" "d < factor" "factor ^ (n + 1) \<le> base ^ sz"
  shows "\<exists>st'. put_digit factor base st d = Inr st' \<and> holds factor base sz (n + 1) st'
    \<and> num base (fst st') = factor * num base (fst st) + d"
proof -
  obtain vec len where st: "st = (vec, len)" by (cases st)
  obtain ds c i where r: "carry_pass factor base len d 0 (rev vec) = (ds, c, i)" by (metis prod_cases3)
  have h: "length vec = sz" "\<forall>d \<in> set vec. unat d < base" "\<forall>d \<in> set (drop len (rev vec)). d = 0" "num base vec < factor ^ n"
    using assms(1) by (simp_all add: holds_def st)
  have s: "length ds = length vec" "\<forall>d \<in> set ds. unat d < base" "\<forall>d \<in> set (drop i ds). d = 0"
      "horner_sum unat base ds + base ^ sz * c = factor * num base vec + d"
    using carry_pass_spec [OF r base] h by simp_all
  have "factor * num base vec + d < factor * (num base vec + 1)" using assms(2) by simp
  also have "\<dots> \<le> factor * factor ^ n" using h(4) by (intro mult_le_mono2) simp
  finally have bound: "factor * num base vec + d < factor ^ (n + 1)" by simp
  have "base ^ sz * c < base ^ sz * 1" using s(4) bound assms(3) by linarith
  then have c: "c = 0" using base(1) by (subst (asm) mult_less_cancel1) simp
  show ?thesis using r c s h bound by (auto simp: put_digit_def st holds_def)
qed

end

interpretation to58: radix 256 58 138 100
proof
  show "(256 :: nat) ^ 100 \<le> 58 ^ 138" by (rule rate_le [of _ 41 _ 56]) simp_all
qed simp_all

interpretation to256: radix 58 256 733 1000
proof
  show "(58 :: nat) ^ 1000 \<le> 256 ^ 733" by (rule rate_le [of _ 71 _ 52]) simp_all
qed simp_all

section \<open>Round trip\<close>

lemma encode_digits_works:
  assumes "holds 256 58 sz n st" "256 ^ (n + length bs) \<le> (58 :: nat) ^ sz"
  shows "\<exists>st'. encode_digits st bs = Inr st' \<and> holds 256 58 sz (n + length bs) st'
    \<and> num 58 (fst st') = num 58 (fst st) * 256 ^ length bs + num 256 bs"
  using assms
proof (induction bs arbitrary: n st)
  case (Cons b bs)
  have "(256 :: nat) ^ (n + 1) \<le> 256 ^ (n + length (b # bs))" by (rule power_increasing) simp_all
  then have "256 ^ (n + 1) \<le> (58 :: nat) ^ sz" using Cons.prems(2) by linarith
  moreover have "unat b < 256" using unsigned_less [of b, where ?'a = nat] by simp
  ultimately obtain st1 where st1: "put_digit 256 58 st (unat b) = Inr st1" "holds 256 58 sz (n + 1) st1"
      "num 58 (fst st1) = 256 * num 58 (fst st) + unat b"
    using to58.put_digit_works [OF Cons.prems(1)] by blast
  obtain st2 where st2: "encode_digits st1 bs = Inr st2" "holds 256 58 sz (n + 1 + length bs) st2"
      "num 58 (fst st2) = num 58 (fst st1) * 256 ^ length bs + num 256 bs"
    using Cons.IH [OF st1(2)] Cons.prems(2) by auto
  then show ?case using st1 by (simp add: horner_sum_append algebra_simps)
qed simp

lemma psz_codes: "pszBase58 = [49, 50, 51, 52, 53, 54, 55, 56, 57, 65, 66, 67, 68, 69, 70, 71, 72, 74, 75, 76] @
    [77, 78, 80, 81, 82, 83, 84, 85, 86, 87, 88, 89, 90, 97, 98, 99, 100, 101, 102, 103] @
    [104, 105, 106, 107, 109, 110, 111, 112, 113, 114, 115, 116, 117, 118, 119, 120, 121, 122]"
  by (simp add: pszBase58_def c_lit_def of_char_def)

lemma psz_digits: "map (\<lambda>c. mapBase58 ! unat c) pszBase58 = map int [0..<58]"
  unfolding psz_codes by code_simp

lemma psz_text: "list_all (\<lambda>c. \<not> isspace c \<and> c \<noteq> 0) pszBase58" "list_all (\<lambda>c. c \<noteq> 49) (tl pszBase58)"
  unfolding psz_codes by code_simp+

lemma alphabet_digit:
  assumes "d < 58"
  shows "mapBase58 ! unat (pszBase58 ! d) = int d \<and> \<not> isspace (pszBase58 ! d) \<and> pszBase58 ! d \<noteq> 0 \<and> (pszBase58 ! d = 49 \<longrightarrow> d = 0)"
proof -
  have len: "length pszBase58 = 58" by (simp add: psz_codes)
  have "map (\<lambda>c. mapBase58 ! unat c) pszBase58 ! d = map int [0..<58] ! d" by (simp only: psz_digits)
  then have "mapBase58 ! unat (pszBase58 ! d) = int d" using assms len by simp
  moreover have "\<not> isspace (pszBase58 ! d) \<and> pszBase58 ! d \<noteq> 0" using psz_text(1) assms len by (simp add: list_all_length)
  moreover have "pszBase58 ! d \<noteq> 49" if "d \<noteq> 0"
    using psz_text(2) assms len that by (cases d) (simp_all add: list_all_length nth_tl)
  ultimately show ?thesis by blast
qed

lemma map_small: "c < 256 \<Longrightarrow> mapBase58 ! c < 58"
proof -
  have "list_all (\<lambda>c. mapBase58 ! c < 58) [0..<256]" by code_simp
  then show "c < 256 \<Longrightarrow> mapBase58 ! c < 58" by (simp add: list_all_iff)
qed

lemma decode_digits_total:
  assumes "holds 58 256 sz n st" "58 ^ (n + length cs) \<le> (256 :: nat) ^ sz"
  shows "\<exists>r. decode_digits st cs = Inr r"
  using assms
proof (induction cs arbitrary: n st)
  case (Cons c cs)
  have "(58 :: nat) ^ (n + 1) \<le> 58 ^ (n + length (c # cs))" by (rule power_increasing) simp_all
  then have "58 ^ (n + 1) \<le> (256 :: nat) ^ sz" using Cons.prems(2) by linarith
  moreover have "unat c < 256" using unsigned_less [of c, where ?'a = nat] by simp
  then have "nat (mapBase58 ! unat c) < 58" using map_small [of "unat c"] by simp
  ultimately obtain st1 where st1: "put_digit 58 256 st (nat (mapBase58 ! unat c)) = Inr st1" "holds 58 256 sz (n + 1) st1"
    using to256.put_digit_works [OF Cons.prems(1)] by blast
  show ?case using st1 Cons.IH [OF st1(2)] Cons.prems(2) by (simp add: Let_def)
qed simp

lemma decode_digits_works:
  assumes "holds 58 256 sz n st" "58 ^ (n + length ds) \<le> (256 :: nat) ^ sz" "\<forall>d \<in> set ds. unat d < 58"
  shows "\<exists>st'. decode_digits st (map (\<lambda>d. pszBase58 ! unat d) ds) = Inr (Some (st', [])) \<and> holds 58 256 sz (n + length ds) st'
    \<and> num 256 (fst st') = num 256 (fst st) * 58 ^ length ds + num 58 ds"
  using assms
proof (induction ds arbitrary: n st)
  case (Cons d ds)
  have "(58 :: nat) ^ (n + 1) \<le> 58 ^ (n + length (d # ds))" by (rule power_increasing) simp_all
  then have "58 ^ (n + 1) \<le> (256 :: nat) ^ sz" using Cons.prems(2) by linarith
  moreover have d: "unat d < 58" using Cons.prems(3) by simp
  ultimately obtain st1 where st1: "put_digit 58 256 st (unat d) = Inr st1" "holds 58 256 sz (n + 1) st1"
      "num 256 (fst st1) = 58 * num 256 (fst st) + unat d"
    using to256.put_digit_works [OF Cons.prems(1)] by blast
  obtain st2 where st2: "decode_digits st1 (map (\<lambda>d. pszBase58 ! unat d) ds) = Inr (Some (st2, []))" "holds 58 256 sz (n + 1 + length ds) st2"
      "num 256 (fst st2) = num 256 (fst st1) * 58 ^ length ds + num 58 ds"
    using Cons.IH [OF st1(2)] Cons.prems(2,3) by auto
  have ne: "uint d \<noteq> - 1" using unsigned_greater_eq [of d, where ?'a = int] by linarith
  have "decode_digits st (map (\<lambda>d. pszBase58 ! unat d) (d # ds)) = Inr (Some (st2, []))"
    using st1(1) st2(1) alphabet_digit [OF d] ne by (simp add: Let_def)
  moreover have "num 256 (fst st2) = num 256 (fst st) * 58 ^ length (d # ds) + num 58 (d # ds)"
    using st1(3) st2(3) by (simp add: horner_sum_append algebra_simps)
  ultimately show ?case using st2(2) by simp
qed simp

text \<open>Cutting the unused digits in front changes nothing, since they are zero.\<close>

lemma holds_trim:
  assumes "holds f b sz n (vec, len)"
  defines "it \<equiv> dropWhile (\<lambda>d. d = 0) (drop (sz - len) vec)"
  shows "num b it = num b vec" "\<forall>d \<in> set it. unat d < b" "it = [] \<or> last (rev it) \<noteq> 0"
proof -
  have h: "length vec = sz" "\<forall>d \<in> set vec. unat d < b" "\<forall>d \<in> set (drop len (rev vec)). d = 0"
    using assms(1) by (simp_all add: holds_def)
  have "\<forall>d \<in> set (take (sz - len) vec). d = 0" using h(1,3) by (simp add: drop_rev)
  then have "dropWhile (\<lambda>d. d = 0) (take (sz - len) vec @ drop (sz - len) vec) = it"
    unfolding it_def by (intro dropWhile_append2) blast
  then have it: "it = dropWhile (\<lambda>d. d = 0) vec" by simp
  show "num b it = num b vec" "it = [] \<or> last (rev it) \<noteq> 0" unfolding it by (rule trim_zeros)+
  show "\<forall>d \<in> set it. unat d < b" unfolding it using h(2) by (meson set_dropWhileD)
qed

lemma encode_text:
  assumes "rest = dropWhile (\<lambda>b. b = 0) bs"
  obtains it where "EncodeBase58 bs = Inr (replicate (length (takeWhile (\<lambda>b. b = 0) bs)) 49 @ map (\<lambda>d. pszBase58 ! unat d) it)"
    "num 58 it = num 256 rest" "\<forall>d \<in> set it. unat d < 58" "it = [] \<or> last (rev it) \<noteq> 0"
proof -
  define sz where "sz = length rest * 138 div 100 + 1"
  have "256 ^ (0 + length rest) \<le> (58 :: nat) ^ sz" 
    using less_imp_le [OF to58.capacity [of "length rest"]] by (simp only: sz_def add_0)
  from encode_digits_works [OF to58.start_holds this] obtain vec len where
    e: "encode_digits (replicate sz 0, 0) rest = Inr (vec, len)" "holds 256 58 sz (0 + length rest) (vec, len)" "num 58 vec = num 256 rest"
    by (auto simp: num_zeros)
  let ?it = "dropWhile (\<lambda>d. d = 0) (drop (sz - len) vec)"
  have "EncodeBase58 bs = Inr (replicate (length (takeWhile (\<lambda>b. b = 0) bs)) 49 @ map (\<lambda>d. pszBase58 ! unat d) ?it)"
    unfolding EncodeBase58_def Let_def assms [symmetric] sz_def [symmetric] e(1) by simp
  then show thesis using that [of ?it] holds_trim [OF e(2)] e(3) by simp
qed

lemma decode_text:
  assumes "\<forall>d \<in> set it. unat d < 58" "it = [] \<or> last (rev it) \<noteq> 0"
  obtains out where "DecodeBase58 (replicate z 49 @ map (\<lambda>d. pszBase58 ! unat d) it) = Inr (Some (replicate z 0 @ out))"
    "num 256 out = num 58 it" "out = [] \<or> last (rev out) \<noteq> 0"
proof -
  let ?t = "map (\<lambda>d. pszBase58 ! unat d) it"
  define sz where "sz = length ?t * 733 div 1000 + 1"
  have "58 ^ (0 + length it) \<le> (256 :: nat) ^ sz" 
    using less_imp_le [OF to256.capacity [of "length it"]] by (simp only: sz_def add_0 length_map)
  from decode_digits_works [OF to256.start_holds this assms(1)] obtain vec len where
    e: "decode_digits (replicate sz 0, 0) ?t = Inr (Some ((vec, len), []))" "holds 58 256 sz (0 + length it) (vec, len)" "num 256 vec = num 58 it"
    by (auto simp: num_zeros)
  have first: "?t = [] \<or> hd ?t \<noteq> 49 \<and> \<not> isspace (hd ?t)"
  proof (cases it)
    case (Cons d ds)
    then have "unat d < 58" "unat d \<noteq> 0" using assms by (simp_all add: unat_eq_0 last_rev)
    then show ?thesis using alphabet_digit [of "unat d"] Cons by auto
  qed simp
  then have 1: "dropWhile isspace (replicate z 49 @ ?t) = replicate z 49 @ ?t"
    by (cases z; cases ?t) (auto simp: isspace_def)
  have 2: "takeWhile (\<lambda>c. c = 49) (replicate z 49 @ ?t) = replicate z 49" "dropWhile (\<lambda>c. c = 49) (replicate z 49 @ ?t) = ?t"
    using first by (cases ?t; simp add: takeWhile_append dropWhile_append)+
  have "DecodeBase58 (replicate z 49 @ ?t) = Inr (Some (replicate z 0 @ dropWhile (\<lambda>d. d = 0) (drop (sz - len) vec)))"
    unfolding DecodeBase58_def Let_def 1 2 sz_def [symmetric] e(1) by simp
  then show thesis using that holds_trim [OF e(2)] e(3) by simp
qed

lemma encode_decode: "\<exists>text. EncodeBase58 bs = Inr text \<and> DecodeBase58 text = Inr (Some bs)"
proof -
  define rest where "rest = dropWhile (\<lambda>b. b = 0) bs"
  let ?z = "length (takeWhile (\<lambda>b. b = 0) bs)"
  obtain it where it: "EncodeBase58 bs = Inr (replicate ?z 49 @ map (\<lambda>d. pszBase58 ! unat d) it)" "num 58 it = num 256 rest"
      "\<forall>d \<in> set it. unat d < 58" "it = [] \<or> last (rev it) \<noteq> 0"
    using encode_text [OF rest_def] by blast
  obtain out where out: "DecodeBase58 (replicate ?z 49 @ map (\<lambda>d. pszBase58 ! unat d) it) = Inr (Some (replicate ?z 0 @ out))"
      "num 256 out = num 58 it" "out = [] \<or> last (rev out) \<noteq> 0"
    using decode_text [OF it(3,4)] by blast
  have small: "\<forall>d \<in> set (rev xs). unat d < 256" for xs :: bytes using unsigned_less [where ?'a = nat and ?'b = 8] by auto
  have "rev out = rev rest"
    using num_unique [OF small small] out(2,3) it(2) trim_zeros(2) [of bs] by (simp add: rest_def)
  moreover have "replicate ?z 0 @ rest = bs"
    unfolding rest_def by (metis (mono_tags, lifting) replicate_eqI set_takeWhileD takeWhile_dropWhile_id)
  ultimately show ?thesis using it(1) out(1) by simp
qed

lemma decode_returns: "\<exists>result. DecodeBase58 input = Inr result"
proof -
  let ?cs = "dropWhile (\<lambda>c. c = 49) (dropWhile isspace input)"
  have "58 ^ (0 + length ?cs) \<le> (256 :: nat) ^ (length ?cs * 733 div 1000 + 1)"
    using less_imp_le [OF to256.capacity [of "length ?cs"]] by (simp only: add_0)
  from decode_digits_total [OF to256.start_holds this] show ?thesis
    by (auto simp: DecodeBase58_def Let_def split: option.splits)
qed

text \<open>
  Base 58 text reads back: encoding any bytes succeeds, and decoding the text gives the bytes,
  leading zero bytes included. Neither direction ever runs out of the space it estimated: decoding
  returns for every text.
\<close>

lemma base58_roundtrip:
  "(\<exists>text. Base58Encode d = Inr (StringNewC text) \<and> Base58Decode text = Inr (Bytes (dbytes d)))
   \<and> (\<exists>result. Base58Decode input = Inr result)"
proof
  show "\<exists>text. Base58Encode d = Inr (StringNewC text) \<and> Base58Decode text = Inr (Bytes (dbytes d))"
    using encode_decode [of "dbytes d"] by (auto simp: Base58Encode_def Base58Decode_def)
  show "\<exists>result. Base58Decode input = Inr result"
    using decode_returns [of input] by (auto simp: Base58Decode_def split: option.splits)
qed

end
