(* ===== verification/Segwit.thy ===== *)
theory Segwit
  imports C_Strings
begin

unbundle bit_operations_syntax

text \<open>
  Bech32 text and segwit addresses: \<open>src/libraries/segwit_addr/segwit_addr.c\<close> and the functions of
  \<open>src/code/BTCUtil.c\<close> that call it. \<open>None\<close> is the return of 0. The sizes of the buffers that a caller
  hands over are arguments where the code writes through a pointer, and a write behind their end
  is \<open>Inl Fault\<close>.
\<close>

section \<open>Bech32\<close>

definition bech32_polymod_step :: "u32 \<Rightarrow> u32" where
  "bech32_polymod_step pre =
     (let b = drop_bit 25 pre in
      push_bit 5 (pre AND 0x1FFFFFF) XOR
      (- (b AND 1) AND 0x3b6a57b2) XOR
      (- (drop_bit 1 b AND 1) AND 0x26508e6d) XOR
      (- (drop_bit 2 b AND 1) AND 0x1ea119fa) XOR
      (- (drop_bit 3 b AND 1) AND 0x3d4233dd) XOR
      (- (drop_bit 4 b AND 1) AND 0x2a1462b3))"

definition charset :: bytes where
  "charset = c_lit ''qpzry9x8gf2tvdw0s3jn54khce6mua7l''"

text \<open>The first three rows of the table have no character of the alphabet.\<close>

definition charset_rev :: "int list" where
  "charset_rev = concat [replicate 48 (- 1),
    [15, - 1, 10, 17, 21, 20, 26, 30, 7, 5, - 1, - 1, - 1, - 1, - 1, - 1],
    [- 1, 29, - 1, 24, 13, 25, 9, 8, 23, - 1, 18, 22, 31, 27, 19, - 1],
    [1, 0, 3, 16, 11, 28, 12, 14, 6, 4, 2, - 1, - 1, - 1, - 1, - 1],
    [- 1, 29, - 1, 24, 13, 25, 9, 8, 23, - 1, 18, 22, 31, 27, 19, - 1],
    [1, 0, 3, 16, 11, 28, 12, 14, 6, 4, 2, - 1, - 1, - 1, - 1, - 1]]"

fun encode_hrp :: "u32 \<Rightarrow> bytes \<Rightarrow> u32 option" where
  "encode_hrp chk [] = Some chk"
| "encode_hrp chk (ch # hrp) =
     (if ch < 33 \<or> ch > 126 then None
      else if 65 \<le> ch \<and> ch \<le> 90 then None
      else encode_hrp (bech32_polymod_step chk XOR ucast (drop_bit 5 ch)) hrp)"

definition hrp_low :: "bytes \<Rightarrow> u32 \<Rightarrow> u32" where
  "hrp_low hrp chk = fold (\<lambda>ch chk. bech32_polymod_step chk XOR ucast (ch AND 0x1f)) hrp (bech32_polymod_step chk)"

fun encode_data :: "u32 \<Rightarrow> bytes \<Rightarrow> (u32 \<times> bytes) option" where
  "encode_data chk [] = Some (chk, [])"
| "encode_data chk (d # ds) =
     (if drop_bit 5 d \<noteq> 0 then None
      else case encode_data (bech32_polymod_step chk XOR ucast d) ds of None \<Rightarrow> None
        | Some (chk, out) \<Rightarrow> Some (chk, charset ! unat d # out))"

definition checksum_digits :: "u32 \<Rightarrow> bytes" where
  "checksum_digits chk =
     (let chk = (bech32_polymod_step ^^ 6) chk XOR 1
      in map (\<lambda>i. ucast (drop_bit ((5 - i) * 5) chk AND 0x1f)) [0..<6])"

definition bech32_encode :: "bytes \<Rightarrow> bytes \<Rightarrow> bytes option" where
  "bech32_encode hrp ds =
     (case encode_hrp 1 hrp of None \<Rightarrow> None
      | Some chk \<Rightarrow>
          if length hrp + 7 + length ds > 90 then None
          else case encode_data (hrp_low hrp chk) ds of None \<Rightarrow> None
            | Some (chk, out) \<Rightarrow> Some (hrp @ [49] @ out @ map (\<lambda>d. charset ! unat d) (checksum_digits chk)))"

text \<open>
  The loop over the prefix: \<open>room\<close> is the number of bytes left in the buffer for it. The result has
  the prefix in lower case, the checksum and whether lower and upper case letters were seen.
\<close>

fun decode_hrp :: "nat \<Rightarrow> u32 \<Rightarrow> bool \<Rightarrow> bool \<Rightarrow> bytes \<Rightarrow> fault + (bytes \<times> u32 \<times> bool \<times> bool) option" where
  "decode_hrp room chk have_lower have_upper [] = (if room = 0 then Inl Fault else Inr (Some ([], chk, have_lower, have_upper)))"
| "decode_hrp room chk have_lower have_upper (ch # cs) =
     (if ch < 33 \<or> ch > 126 then Inr None
      else let have_lower = (have_lower \<or> 97 \<le> ch \<and> ch \<le> 122);
               have_upper = (have_upper \<or> 65 \<le> ch \<and> ch \<le> 90);
               ch = (if 65 \<le> ch \<and> ch \<le> 90 then ch - 65 + 97 else ch)
        in if room = 0 then Inl Fault
           else case decode_hrp (room - 1) (bech32_polymod_step chk XOR ucast (drop_bit 5 ch)) have_lower have_upper cs of
               Inl e \<Rightarrow> Inl e | Inr None \<Rightarrow> Inr None
             | Inr (Some (hrp, rest)) \<Rightarrow> Inr (Some (ch # hrp, rest)))"

fun decode_data :: "nat \<Rightarrow> u32 \<Rightarrow> bool \<Rightarrow> bool \<Rightarrow> bytes \<Rightarrow> fault + (bytes \<times> u32 \<times> bool \<times> bool) option" where
  "decode_data room chk have_lower have_upper [] = Inr (Some ([], chk, have_lower, have_upper))"
| "decode_data room chk have_lower have_upper (c # cs) =
     (let v = (if c AND 0x80 \<noteq> 0 then - 1 else charset_rev ! unat c);
          have_lower = (have_lower \<or> 97 \<le> c \<and> c \<le> 122);
          have_upper = (have_upper \<or> 65 \<le> c \<and> c \<le> 90)
      in if v = - 1 then Inr None
         else if 6 \<le> length cs \<and> room = 0 then Inl Fault
         else case decode_data (room - 1) (bech32_polymod_step chk XOR word_of_int v) have_lower have_upper cs of
             Inl e \<Rightarrow> Inl e | Inr None \<Rightarrow> Inr None
           | Inr (Some (ds, rest)) \<Rightarrow> Inr (Some (if 6 \<le> length cs then word_of_int v # ds else ds, rest)))"

text \<open>
  Without the separator \<open>hrp_len\<close> wraps around to the largest \<open>size_t\<close>, so the loop over the prefix
  runs until it meets the terminating zero.
\<close>

definition bech32_decode :: "nat \<Rightarrow> nat \<Rightarrow> bytes \<Rightarrow> fault + (bytes \<times> bytes) option" where
  "bech32_decode hrp_size data_size input =
     (let input_len = length input in
      if input_len < 8 \<or> input_len > 90 then Inr None
      else let data_len = length (takeWhile (\<lambda>c. c \<noteq> 49) (rev input)) in
        if data_len = input_len then
          (case decode_hrp hrp_size 1 False False (input @ [0]) of Inl e \<Rightarrow> Inl e | Inr _ \<Rightarrow> Inr None)
        else let hrp_len = input_len - (1 + data_len) in
          if hrp_len < 1 \<or> data_len < 6 then Inr None
          else case decode_hrp hrp_size 1 False False (take hrp_len input) of
              Inl e \<Rightarrow> Inl e | Inr None \<Rightarrow> Inr None
            | Inr (Some (hrp, chk, have_lower, have_upper)) \<Rightarrow>
                (case decode_data data_size (hrp_low (take hrp_len input) chk) have_lower have_upper (drop (hrp_len + 1) input) of
                   Inl e \<Rightarrow> Inl e | Inr None \<Rightarrow> Inr None
                 | Inr (Some (ds, chk, have_lower, have_upper)) \<Rightarrow>
                     if have_lower \<and> have_upper then Inr None
                     else if chk = 1 then Inr (Some (hrp, ds)) else Inr None))"

section \<open>Groups of bits\<close>

text \<open>The inner loop, which the callers run with 5 and 8 for \<open>outbits\<close>.\<close>

function emit_bits :: "nat \<Rightarrow> u32 \<Rightarrow> nat \<Rightarrow> nat \<times> bytes" where
  "emit_bits outbits val bits =
     (if bits \<ge> outbits \<and> outbits > 0 then
        let bits = bits - outbits; (left, out) = emit_bits outbits val bits
        in (left, ucast (drop_bit bits val AND (push_bit outbits 1 - 1)) # out)
      else (bits, []))"
  by pat_completeness auto
termination
  by (relation "measure (\<lambda>(_, _, bits). bits)") auto

declare emit_bits.simps [simp del]

fun convert_loop :: "nat \<Rightarrow> nat \<Rightarrow> u32 \<Rightarrow> nat \<Rightarrow> bytes \<Rightarrow> u32 \<times> nat \<times> bytes" where
  "convert_loop outbits inbits val bits [] = (val, bits, [])"
| "convert_loop outbits inbits val bits (b # bs) =
     (let val = push_bit inbits val OR ucast b; bits = bits + inbits;
          (bits, out) = emit_bits outbits val bits;
          (val, bits, out') = convert_loop outbits inbits val bits bs
      in (val, bits, out @ out'))"

definition convert_bits :: "nat \<Rightarrow> nat \<Rightarrow> bytes \<Rightarrow> nat \<Rightarrow> bool \<Rightarrow> fault + bool \<times> bytes" where
  "convert_bits room outbits bs inbits pad =
     (let maxv = push_bit outbits 1 - 1 :: u32;
          (val, bits, out) = convert_loop outbits inbits 0 0 bs;
          (ok, out) =
            (if pad then (True, if bits \<noteq> 0 then out @ [ucast (push_bit (outbits - bits) val AND maxv)] else out)
             else (\<not> (push_bit (outbits - bits) val AND maxv \<noteq> 0 \<or> bits \<ge> inbits), out))
      in if length out > room then Inl Fault else Inr (ok, out))"

section \<open>Segwit addresses\<close>

definition segwit_addr_encode :: "bytes \<Rightarrow> int \<Rightarrow> bytes \<Rightarrow> fault + bytes option" where
  "segwit_addr_encode hrp witver witprog =
     (if witver > 16 then Inr None
      else if witver = 0 \<and> length witprog \<noteq> 20 \<and> length witprog \<noteq> 32 then Inr None
      else if length witprog < 2 \<or> length witprog > 40 then Inr None
      else case convert_bits 64 5 witprog 8 True of Inl e \<Rightarrow> Inl e
        | Inr (_, ds) \<Rightarrow> Inr (bech32_encode hrp (word_of_int witver # ds)))"

text \<open>The result has the prefix, the version and the program; \<open>witsize\<close> is the size of the caller's buffer.\<close>

definition segwit_addr_decode :: "nat \<Rightarrow> bytes \<Rightarrow> fault + (bytes \<times> u8 \<times> bytes) option" where
  "segwit_addr_decode witsize addr =
     (case bech32_decode 84 84 addr of Inl e \<Rightarrow> Inl e | Inr None \<Rightarrow> Inr None
      | Inr (Some (hrp, ds)) \<Rightarrow>
          if length ds = 0 \<or> length ds > 65 then Inr None
          else if ds ! 0 > 16 then Inr None
          else case convert_bits witsize 8 (drop 1 ds) 5 False of Inl e \<Rightarrow> Inl e
            | Inr (ok, wit) \<Rightarrow>
                if \<not> ok then Inr None
                else if length wit < 2 \<or> length wit > 40 then Inr None
                else if ds ! 0 = 0 \<and> length wit \<noteq> 20 \<and> length wit \<noteq> 32 then Inr None
                else Inr (Some (hrp, ds ! 0, wit)))"

definition toSegwit :: "data \<Rightarrow> bytes \<Rightarrow> fault + data" where
  "toSegwit program prefix =
     (case segwit_addr_encode prefix 0 (dbytes program) of Inl e \<Rightarrow> Inl e
      | Inr None \<Rightarrow> Inr DataNull
      | Inr (Some output) \<Rightarrow>
          if length output + 1 > 73 + length prefix + 1 then Inl Fault
          else if length output > 73 + length prefix + 1 then Inl Abort
          else Inr (StringNewC output))"

definition fromSegwitVersion :: "data \<Rightarrow> fault + (data \<times> int option)" where
  "fromSegwitVersion s =
     (if s = DataNull then Inl Fault
      else case segwit_addr_decode 40 (cstr s) of Inl e \<Rightarrow> Inl e
        | Inr None \<Rightarrow> Inr (DataNull, None)
        | Inr (Some (_, version, prog)) \<Rightarrow> Inr (Bytes prog, Some (uint version)))"

definition fromSegwit :: "data \<Rightarrow> fault + data" where
  "fromSegwit s = (case fromSegwitVersion s of Inl e \<Rightarrow> Inl e | Inr (d, _) \<Rightarrow> Inr d)"

text \<open>
  \<open>fromSegwitVersion\<close> ignores its prefix argument, so \<open>segwitPrefix\<close> returns what its uninitialised
  buffer \<open>stack\<close> of 84 bytes holds.
\<close>

definition segwitPrefix :: "bytes \<Rightarrow> data \<Rightarrow> fault + data" where
  "segwitPrefix stack s =
     (case fromSegwitVersion s of Inl e \<Rightarrow> Inl e
      | Inr (d, _) \<Rightarrow> if d = DataNull then Inr DataNull
          else if 0 \<in> set stack then Inr (StringNewC (takeWhile (\<lambda>b. b \<noteq> 0) stack)) else Inl Fault)"

definition segwitVersion :: "data \<Rightarrow> fault + int" where
  "segwitVersion s =
     (case fromSegwitVersion s of Inl e \<Rightarrow> Inl e
      | Inr (d, version) \<Rightarrow> Inr (case version of None \<Rightarrow> 0 | Some v \<Rightarrow> v))"

end
