(* ===== verification/Segwit_Props.thy ===== *)
theory Segwit_Props
  imports Segwit
begin

unbundle bit_operations_syntax

text \<open>
  Segwit addresses read back: the checksum is a linear code over exclusive or, and regrouping bits
  keeps the bit string.
\<close>

section \<open>The checksum\<close>

lemma neg_bit: "- (x AND 1) AND c = (if bit x 0 then c else 0)" for x c :: u32
proof -
  have "x AND 1 = (if bit x 0 then 1 else 0)" by (rule bit_word_eqI) (auto simp: bit_and_iff bit_1_iff intro: gr0I)
  then show ?thesis by simp
qed

lemma low_digit: "w AND 0x1f = take_bit 5 w" for w :: u32
  by (simp add: take_bit_eq_mask mask_eq_exp_minus_1)

lemma step_bits:
  "bech32_polymod_step x = push_bit 5 (x AND 0x1FFFFFF) XOR (if bit x 25 then 0x3b6a57b2 else 0)
     XOR (if bit x 26 then 0x26508e6d else 0) XOR (if bit x 27 then 0x1ea119fa else 0)
     XOR (if bit x 28 then 0x3d4233dd else 0) XOR (if bit x 29 then 0x2a1462b3 else 0)"
  unfolding bech32_polymod_step_def Let_def neg_bit by (simp only: bit_drop_bit_eq comp_def drop_bit_drop_bit) simp

lemma step_xor: "bech32_polymod_step (a XOR b) = bech32_polymod_step a XOR bech32_polymod_step b"
proof -
  have c: "(if bit (a XOR b) n then c else 0) = (if bit a n then c else 0) XOR (if bit b n then c else 0)" for n and c :: u32
    by (simp add: bit_xor_iff)
  have p: "push_bit 5 ((a XOR b) AND m) = push_bit 5 (a AND m) XOR push_bit 5 (b AND m)" for m :: u32
    by (rule bit_word_eqI) (auto simp: bit_simps)
  show ?thesis unfolding step_bits c p by (simp only: ac_simps)
qed

lemma step_small: "take_bit 25 x = x \<Longrightarrow> bech32_polymod_step x = push_bit 5 x"
proof -
  assume t: "take_bit 25 x = x"
  then have "\<not> bit x n" if "25 \<le> n" for n using that by (metis bit_take_bit_iff linorder_not_less)
  moreover have "x AND 0x1FFFFFF = take_bit 25 x" by (simp add: take_bit_eq_mask mask_eq_exp_minus_1)
  ultimately show ?thesis using t by (simp add: step_bits)
qed

lemma bit_if: "bit (if P then c else 0) n \<longleftrightarrow> P \<and> bit (c :: u32) n"
  by simp

lemma step_30: "take_bit 30 (bech32_polymod_step x) = bech32_polymod_step x"
proof (rule bit_word_eqI)
  fix n
  assume "n < LENGTH(32)"
  then consider "n < 30" | "n = 30" | "n = 31" by fastforce
  then show "bit (take_bit 30 (bech32_polymod_step x)) n = bit (bech32_polymod_step x) n"
  proof cases
    case 2
    then show ?thesis by (simp add: bit_take_bit_iff step_bits bit_xor_iff bit_if bit_push_bit_iff bit_and_iff)
  next
    case 3
    then show ?thesis by (simp add: bit_take_bit_iff step_bits bit_xor_iff bit_if bit_push_bit_iff bit_and_iff)
  qed (simp add: bit_take_bit_iff)
qed

definition feed :: "bytes \<Rightarrow> u32 \<Rightarrow> u32" where
  "feed ds chk = fold (\<lambda>d chk. bech32_polymod_step chk XOR ucast d) ds chk"

lemma feed_step:
  fixes p :: u32
  assumes "take_bit 30 p = p" "m = n + 5"
  shows "bech32_polymod_step (a XOR drop_bit m p) XOR (drop_bit n p AND 0x1f) = bech32_polymod_step a XOR drop_bit n p"
proof -
  have "drop_bit m p = take_bit (30 - m) (drop_bit m p)" using drop_bit_take_bit [of m 30 p] assms(1) by simp
  moreover have "30 - m \<le> 25" using assms(2) by simp
  ultimately have "take_bit 25 (drop_bit m p) = drop_bit m p" by (metis min.absorb2 take_bit_take_bit)
  from step_small [OF this] have "bech32_polymod_step (a XOR drop_bit m p)
      = bech32_polymod_step a XOR push_bit 5 (drop_bit m p)" by (simp only: step_xor)
  moreover have "push_bit 5 (drop_bit m p) XOR (drop_bit n p AND 0x1f) = drop_bit n p"
    unfolding low_digit assms(2) by (rule bit_word_eqI) (auto simp: bit_simps)
  ultimately show ?thesis by (simp only: xor.assoc)
qed

lemma feed_checksum: "feed (checksum_digits s) s = 1"
proof -
  define p where "p = (bech32_polymod_step ^^ 6) s XOR 1"
  have six: "(f ^^ 6) x = f (f (f (f (f (f x)))))" for f :: "u32 \<Rightarrow> u32" and x by (simp add: numeral_eq_Suc)
  have p30: "take_bit 30 p = p" unfolding p_def six by (simp only: take_bit_xor step_30) simp
  have d: "ucast (ucast (w AND 0x1f :: u32) :: u8) = w AND 0x1f" for w :: u32
    unfolding low_digit by (rule bit_word_eqI) (auto simp: bit_simps)
  have "drop_bit 30 p = 0" using p30 drop_bit_take_bit [of 30 30 p] by simp
  then have s: "s = s XOR drop_bit 30 p" by simp
  note next_digit = feed_step [OF p30]
  have digits: "checksum_digits s = map (\<lambda>n. ucast (drop_bit n p AND 0x1f)) [25, 20, 15, 10, 5, 0]"
    unfolding checksum_digits_def Let_def p_def [symmetric] by (simp add: upt_rec)
  have "feed (checksum_digits s) s = feed (checksum_digits s) (s XOR drop_bit 30 p)" using s by simp
  also have "\<dots> = (bech32_polymod_step ^^ 6) s XOR drop_bit 0 p"
    unfolding digits feed_def six list.map fold.simps comp_def id_apply d
    by (simp only: next_digit [of 30 25] next_digit [of 25 20] next_digit [of 20 15] next_digit [of 15 10] next_digit [of 10 5] next_digit [of 5 0] arith_simps)
  finally show ?thesis by (simp add: p_def)
qed

section \<open>Strings of bits\<close>

definition bits_of :: "nat \<Rightarrow> 'a::len word \<Rightarrow> bool list" where
  "bits_of n w = map (bit w) (rev [0..<n])"

lemma length_bits_of [simp]: "length (bits_of n w) = n"
  by (simp add: bits_of_def)

lemma bits_of_0 [simp]: "bits_of 0 w = []"
  by (simp add: bits_of_def)

lemma bits_of_eq_iff: "bits_of n v = bits_of n w \<longleftrightarrow> (\<forall>i < n. bit v i = bit w i)"
  by (auto simp: bits_of_def)

lemma bits_of_add: "bits_of (m + n) w = bits_of m (drop_bit n w) @ bits_of n w"
proof -
  have "[0..<n + m] = [0..<n] @ map (\<lambda>i. i + n) [0..<m]" by (simp add: map_add_upt upt_add_eq_append [of 0 n m] add.commute [of m])
  then have "rev [0..<m + n] = map (\<lambda>i. i + n) (rev [0..<m]) @ rev [0..<n]" by (simp add: add.commute rev_map)
  then show ?thesis by (simp add: bits_of_def bit_drop_bit_eq comp_def add.commute)
qed

lemma bits_of_eqI: "(\<And>i. i < n \<Longrightarrow> bit v i = bit w i) \<Longrightarrow> bits_of n v = bits_of n w"
  by (auto simp: bits_of_def)

lemma bits_of_push:
  fixes val :: u32 and b :: u8
  assumes "take_bit m b = b" "n + m \<le> 32" "m \<le> 8"
  shows "bits_of (n + m) (push_bit m val OR ucast b) = bits_of n val @ bits_of m b"
proof -
  have b: "\<not> bit b i" if "m \<le> i" for i using assms(1) that by (metis bit_take_bit_iff linorder_not_less)
  have "bits_of n (drop_bit m (push_bit m val OR ucast b)) = bits_of n val"
    by (rule bits_of_eqI) (use assms(2) b in \<open>auto simp: bit_simps\<close>)
  moreover have "bits_of m (push_bit m val OR ucast b) = bits_of m b"
    by (rule bits_of_eqI) (use assms in \<open>auto simp: bit_simps\<close>)
  ultimately show ?thesis by (simp add: bits_of_add)
qed

definition digit_ok :: "nat \<Rightarrow> u8 \<Rightarrow> bool" where
  "digit_ok n d \<longleftrightarrow> take_bit n d = d"

abbreviation stream :: "nat \<Rightarrow> bytes \<Rightarrow> bool list" where
  "stream n ds \<equiv> concat (map (bits_of n) ds)"

lemma low_bits: "n \<le> 8 \<Longrightarrow> w AND (push_bit n 1 - 1) = take_bit n w" for w :: u32
  by (simp add: take_bit_eq_mask mask_eq_exp_minus_1 push_bit_eq_mult)

lemma out_digit:
  fixes w :: u32
  assumes "n \<le> 8"
  shows "bits_of n (ucast (w AND (push_bit n 1 - 1)) :: u8) = bits_of n w" "digit_ok n (ucast (w AND (push_bit n 1 - 1)))"
  unfolding low_bits [OF assms] digit_ok_def
  by (rule bits_of_eqI, use assms in \<open>auto simp: bit_simps\<close>) (rule bit_word_eqI, use assms in \<open>auto simp: bit_simps\<close>)

lemma emit_bits_stream:
  assumes "emit_bits out val bits = (left, ds)" "0 < out" "out \<le> 8"
  shows "stream out ds @ bits_of left val = bits_of bits val \<and> left < out \<and> list_all (digit_ok out) ds"
  using assms
proof (induction out val bits arbitrary: left ds rule: emit_bits.induct)
  case (1 out val bits)
  show ?case
  proof (cases "out \<le> bits")
    case True
    obtain es where e: "emit_bits out val (bits - out) = (left, es)" "ds = ucast (drop_bit (bits - out) val AND (push_bit out 1 - 1)) # es"
      using "1.prems" True by (subst (asm) emit_bits.simps) (auto simp: Let_def split: prod.splits)
    have IH: "stream out es @ bits_of left val = bits_of (bits - out) val \<and> left < out \<and> list_all (digit_ok out) es"
      using "1.IH" [OF _ refl e(1)] True "1.prems"(2,3) by simp
    have "bits_of (out + (bits - out)) val = bits_of out (drop_bit (bits - out) val) @ bits_of (bits - out) val" by (rule bits_of_add)
    then have "bits_of bits val = bits_of out (drop_bit (bits - out) val) @ bits_of (bits - out) val" using True by simp
    then show ?thesis using IH out_digit [OF "1.prems"(3)] by (simp add: e(2))
  next
    case False
    then have "left = bits" "ds = []" using "1.prems"(1) by (subst (asm) emit_bits.simps, simp)+
    then show ?thesis using False by simp
  qed
qed

lemma convert_loop_stream:
  assumes "convert_loop out inb val bits bs = (val', bits', ds)" "0 < out" "out \<le> 8" "inb \<le> 8" "bits < out" "list_all (digit_ok inb) bs"
  shows "stream out ds @ bits_of bits' val' = bits_of bits val @ stream inb bs \<and> bits' < out \<and> list_all (digit_ok out) ds"
  using assms
proof (induction bs arbitrary: val bits ds)
  case (Cons b bs)
  let ?val = "push_bit inb val OR ucast b"
  obtain left es fs where e: "emit_bits out ?val (bits + inb) = (left, es)" "convert_loop out inb ?val left bs = (val', bits', fs)" "ds = es @ fs"
    using Cons.prems(1) by (auto simp: Let_def split: prod.splits)
  have E: "stream out es @ bits_of left ?val = bits_of (bits + inb) ?val" "left < out" "list_all (digit_ok out) es"
    using emit_bits_stream [OF e(1)] Cons.prems by simp_all
  have "bits_of (bits + inb) ?val = bits_of bits val @ bits_of inb b"
    using Cons.prems(3-6) by (intro bits_of_push) (simp_all add: digit_ok_def)
  moreover have IH: "stream out fs @ bits_of bits' val' = bits_of left ?val @ stream inb bs" "bits' < out" "list_all (digit_ok out) fs"
    using Cons.IH [OF e(2)] Cons.prems E(2) by simp_all
  moreover have "stream out ds @ bits_of bits' val' = stream out es @ (stream out fs @ bits_of bits' val')" by (simp add: e(3))
  ultimately have "stream out ds @ bits_of bits' val' = bits_of bits val @ stream inb (b # bs)" using E(1) by simp
  then show ?case using IH(2,3) E(3) e(3) by simp
qed simp

lemma stream_inj: "stream 8 xs = stream 8 ys \<Longrightarrow> length xs = length ys \<Longrightarrow> xs = ys"
proof (induction xs ys rule: list_induct2')
  case (4 x xs y ys)
  then have "bits_of 8 x = bits_of 8 y" "stream 8 xs = stream 8 ys" by simp_all
  then have "x = y" by (intro bit_word_eqI) (simp add: bits_of_eq_iff)
  then show ?case using 4 \<open>stream 8 xs = stream 8 ys\<close> by simp
qed simp_all

lemma length_stream [simp]: "length (stream n ds) = n * length ds"
  by (induction ds) simp_all

lemma digit_ok_8: "list_all (digit_ok 8) bs"
  by (simp add: list_all_iff digit_ok_def take_bit_word_eq_self)

text \<open>Regrouping bytes into groups of five bits, padded with zeros, and back.\<close>

lemma convert_pad:
  assumes "convert_bits room 5 bs 8 True = Inr (ok, ds)"
  shows "\<exists>r < 5. stream 5 ds = stream 8 bs @ replicate r False" "list_all (digit_ok 5) ds"
proof -
  obtain val bits out where c: "convert_loop 5 8 0 0 bs = (val, bits, out)" by (metis prod_cases3)
  have l: "stream 5 out @ bits_of bits val = stream 8 bs" "bits < 5" "list_all (digit_ok 5) out"
    using convert_loop_stream [OF c] digit_ok_8 by simp_all
  have ds: "ds = (if bits \<noteq> 0 then out @ [ucast (push_bit (5 - bits) val AND (push_bit 5 1 - 1))] else out)"
    using assms c by (auto simp: convert_bits_def Let_def split: if_splits)
  show "list_all (digit_ok 5) ds" using l(3) out_digit(2) [of 5] by (simp add: ds del: push_bit_of_1)
  show "\<exists>r < 5. stream 5 ds = stream 8 bs @ replicate r False"
  proof (cases "bits = 0")
    case True
    then show ?thesis using l(1) ds by (intro exI [of _ 0]) simp
  next
    case False
    have "bits_of (bits + (5 - bits)) (push_bit (5 - bits) val) = bits_of bits val @ replicate (5 - bits) False"
      unfolding bits_of_add
      by (intro arg_cong2 [where f = append] bits_of_eqI nth_equalityI)
        (use l(2) in \<open>auto simp: bit_simps bits_of_def rev_nth\<close>)
    then have "stream 5 ds = stream 8 bs @ replicate (5 - bits) False"
      using l False out_digit(1) [of 5] by (simp add: ds)
    then show ?thesis using False l(2) by (intro exI [of _ "5 - bits"]) simp
  qed
qed

lemma convert_back:
  assumes "stream 5 ds = stream 8 bs @ replicate r False" "r < 5" "list_all (digit_ok 5) ds" "length bs \<le> room"
  shows "convert_bits room 8 ds 5 False = Inr (True, bs)"
proof -
  obtain val bits out where c: "convert_loop 8 5 0 0 ds = (val, bits, out)" by (metis prod_cases3)
  have l: "stream 8 out @ bits_of bits val = stream 8 bs @ replicate r False" "bits < 8"
    using convert_loop_stream [OF c] assms(1,3) by simp_all
  from arg_cong [OF l(1), of length] have "8 * length out + bits = 8 * length bs + r" by simp
  then have len: "length out = length bs" "bits = r" using l(2) assms(2) by presburger+
  then have "stream 8 out = stream 8 bs" "bits_of bits val = replicate r False" using l(1) by simp_all
  then have out: "out = bs" using stream_inj len by blast
  have "bit val i \<in> set (replicate r False)" if "i < bits" for i
    using that unfolding \<open>bits_of bits val = _\<close> [symmetric] by (simp add: bits_of_def)
  then have zero: "\<forall>i < bits. \<not> bit val i" by auto
  have "push_bit (8 - bits) val AND (push_bit 8 1 - 1) = 0"
    unfolding low_bits [OF order_refl] by (rule bit_word_eqI) (use zero in \<open>auto simp: bit_simps\<close>)
  then show ?thesis using c assms(2,4) len out by (simp add: convert_bits_def)
qed

section \<open>Text\<close>

lemma charset_codes: "charset = [113, 112, 122, 114, 121, 57, 120, 56, 103, 102, 50, 116, 118, 100, 119, 48, 115, 51, 106, 110, 53, 52, 107, 104, 99, 101, 54, 109, 117, 97, 55, 108]"
  by (simp add: charset_def c_lit_def of_char_def)

lemma charset_digits: "map (\<lambda>c. charset_rev ! unat c) charset = map int [0..<32]"
  unfolding charset_codes by code_simp

lemma charset_text:
  "list_all (\<lambda>c. c AND 0x80 = 0 \<and> c \<noteq> 49 \<and> c \<noteq> 0 \<and> \<not> (65 \<le> c \<and> c \<le> 90)) charset"
  unfolding charset_codes by code_simp

lemma charset_nth:
  assumes "digit_ok 5 d"
  shows "charset_rev ! unat (charset ! unat d) = int (unat d)" "charset ! unat d AND 0x80 = 0" "charset ! unat d \<noteq> 49"
    "charset ! unat d \<noteq> 0" "\<not> (65 \<le> charset ! unat d \<and> charset ! unat d \<le> 90)"
proof -
  have "take_bit 5 (unat d) = unat d" using assms by (metis digit_ok_def unsigned_take_bit_eq)
  then have "unat d < 32" by (simp add: take_bit_nat_eq_self_iff)
  moreover have "length charset = 32" by (simp add: charset_codes)
  ultimately have d: "unat d < length charset" "unat d < 32" by simp_all
  have "map (\<lambda>c. charset_rev ! unat c) charset ! unat d = map int [0..<32] ! unat d" by (simp only: charset_digits)
  then show "charset_rev ! unat (charset ! unat d) = int (unat d)" using d by simp
  show "charset ! unat d AND 0x80 = 0" "charset ! unat d \<noteq> 49" "charset ! unat d \<noteq> 0"
      "\<not> (65 \<le> charset ! unat d \<and> charset ! unat d \<le> 90)"
    using charset_text d by (simp_all add: list_all_length)
qed

lemma checksum_digits_ok: "list_all (digit_ok 5) (checksum_digits s)" "length (checksum_digits s) = 6"
proof -
  have "digit_ok 5 (ucast (w AND 0x1f))" for w :: u32
    unfolding digit_ok_def low_digit by (rule bit_word_eqI) (auto simp: bit_simps)
  then show "list_all (digit_ok 5) (checksum_digits s)" by (simp add: checksum_digits_def Let_def list_all_iff)
qed (simp add: checksum_digits_def Let_def)

lemma encode_data_text:
  "list_all (digit_ok 5) ds \<Longrightarrow> encode_data chk ds = Some (feed ds chk, map (\<lambda>d. charset ! unat d) ds)"
proof (induction ds arbitrary: chk)
  case (Cons d ds)
  then have "drop_bit 5 d = 0" by (simp add: digit_ok_def) (metis drop_bit_take_bit diff_self_eq_0 take_bit_0)
  then show ?case using Cons by (simp add: feed_def)
qed (simp add: feed_def)

lemma decode_data_text:
  assumes "list_all (digit_ok 5) ds" "length ds - 6 \<le> room"
  shows "\<exists>lower'. decode_data room chk lower upper (map (\<lambda>d. charset ! unat d) ds)
    = Inr (Some (take (length ds - 6) ds, feed ds chk, lower', upper))"
  using assms
proof (induction ds arbitrary: room chk lower)
  case (Cons d ds)
  let ?c = "charset ! unat d"
  have d: "charset_rev ! unat ?c = int (unat d)" "?c AND 0x80 = 0" "\<not> (65 \<le> ?c \<and> ?c \<le> 90)"
    using charset_nth [of d] Cons.prems(1) by simp_all
  have v: "int (unat d) \<noteq> - 1" "word_of_int (int (unat d)) = d" "word_of_int (int (unat d)) = (ucast d :: u32)"
    using unsigned_greater_eq [of d, where ?'a = int] by (linarith | simp add: unsigned_ucast_eq)+
  obtain lower' where "decode_data (room - 1) (bech32_polymod_step chk XOR ucast d) (lower \<or> 97 \<le> ?c \<and> ?c \<le> 122) upper (map (\<lambda>d. charset ! unat d) ds)
      = Inr (Some (take (length ds - 6) ds, feed ds (bech32_polymod_step chk XOR ucast d), lower', upper))"
    using Cons.IH [of "room - 1"] Cons.prems by fastforce
  moreover have "\<not> (6 \<le> length ds \<and> room = 0)" using Cons.prems(2) by simp linarith
  moreover have "(upper \<or> 65 \<le> ?c \<and> ?c \<le> 90) = upper" using d(3) by auto
  ultimately have "decode_data room chk lower upper (?c # map (\<lambda>d. charset ! unat d) ds)
      = Inr (Some (if 6 \<le> length ds then d # take (length ds - 6) ds else take (length ds - 6) ds, feed (d # ds) chk, lower', upper))"
    unfolding decode_data.simps Let_def d(1,2) v(2,3) length_map using v(1) by (simp add: feed_def)
  moreover have "take (length (d # ds) - 6) (d # ds) = (if 6 \<le> length ds then d # take (length ds - 6) ds else take (length ds - 6) ds)"
    by (simp add: take_Cons')
  ultimately show ?case by simp
qed (simp add: feed_def)

lemma decode_hrp_text:
  assumes "encode_hrp chk hrp = Some chk'" "length hrp < room"
  shows "\<exists>lower'. decode_hrp room chk lower upper hrp = Inr (Some (hrp, chk', lower', upper))"
  using assms
proof (induction hrp arbitrary: chk room lower)
  case (Cons ch hrp)
  have c: "\<not> (ch < 33 \<or> ch > 126)" "\<not> (65 \<le> ch \<and> ch \<le> 90)" "encode_hrp (bech32_polymod_step chk XOR ucast (drop_bit 5 ch)) hrp = Some chk'"
    using Cons.prems(1) by (simp_all split: if_splits)
  have flags: "(upper \<or> 65 \<le> ch \<and> ch \<le> 90) = upper" "(if 65 \<le> ch \<and> ch \<le> 90 then ch - 65 + 97 else ch) = ch"
    using c(2) by auto
  obtain lower' where "decode_hrp (room - 1) (bech32_polymod_step chk XOR ucast (drop_bit 5 ch)) (lower \<or> 97 \<le> ch \<and> ch \<le> 122) upper hrp
      = Inr (Some (hrp, chk', lower', upper))"
    using Cons.IH [OF c(3), of "room - 1"] Cons.prems(2) by fastforce
  then have "decode_hrp room chk lower upper (ch # hrp) = Inr (Some (ch # hrp, chk', lower', upper))"
    unfolding decode_hrp.simps Let_def flags using c(1) Cons.prems(2) by simp
  then show ?case by blast
qed simp

lemma feed_append: "feed (xs @ ys) chk = feed ys (feed xs chk)"
  by (simp add: feed_def)

lemma bech32_shape:
  assumes "bech32_encode hrp ds = Some addr" "list_all (digit_ok 5) ds"
  obtains chk where "encode_hrp 1 hrp = Some chk" "length hrp + 7 + length ds \<le> 90"
    "addr = hrp @ [49] @ map (\<lambda>d. charset ! unat d) (ds @ checksum_digits (feed ds (hrp_low hrp chk)))"
proof -
  obtain chk where "encode_hrp 1 hrp = Some chk" using assms(1) by (auto simp: bech32_encode_def split: option.splits)
  then show thesis
    using that assms(1) encode_data_text [OF assms(2)] by (auto simp: bech32_encode_def split: if_splits)
qed

lemma bech32_reads_back:
  assumes "bech32_encode hrp ds = Some text" "hrp \<noteq> []" "list_all (digit_ok 5) ds" "length hrp < hrp_size" "length ds \<le> data_size"
  shows "bech32_decode hrp_size data_size text = Inr (Some (hrp, ds))"
proof -
  let ?t = "\<lambda>ds. map (\<lambda>d. charset ! unat d) ds"
  obtain chk where chk: "encode_hrp 1 hrp = Some chk" and len: "length hrp + 7 + length ds \<le> 90"
      and shape: "text = hrp @ [49] @ ?t (ds @ checksum_digits (feed ds (hrp_low hrp chk)))"
    by (rule bech32_shape [OF assms(1,3)])
  define s where "s = feed ds (hrp_low hrp chk)"
  let ?all = "ds @ checksum_digits s"
  have tx: "text = hrp @ [49] @ ?t ?all" using shape by (simp only: s_def)
  have ok: "list_all (digit_ok 5) ?all" using assms(3) checksum_digits_ok by simp
  have "\<forall>c \<in> set (rev (?t ?all)). c \<noteq> 49" using ok charset_nth(3) by (auto simp: list_all_iff)
  then have sep: "takeWhile (\<lambda>c. c \<noteq> 49) (rev text) = rev (?t ?all)"
    using takeWhile_append2 [of "rev (?t ?all)" "\<lambda>c. c \<noteq> 49" "49 # rev hrp"] unfolding tx by simp
  have n: "length (?t ?all) = length ds + 6" by (simp add: checksum_digits_ok)
  obtain lower1 where h: "decode_hrp hrp_size 1 False False hrp = Inr (Some (hrp, chk, lower1, False))"
    using decode_hrp_text [OF chk assms(4)] by blast
  obtain lower2 where d: "decode_data data_size (hrp_low hrp chk) lower1 False (?t ?all) = Inr (Some (ds, feed ?all (hrp_low hrp chk), lower2, False))"
    using decode_data_text [OF ok, of data_size "hrp_low hrp chk" lower1 False] assms(5) by (auto simp: checksum_digits_ok)
  have "feed ?all (hrp_low hrp chk) = 1" by (simp add: feed_append feed_checksum s_def [symmetric])
  moreover have "length text = length hrp + 7 + length ds" by (simp add: tx checksum_digits_ok)
  moreover have "take (length hrp) text = hrp" "drop (length hrp + 1) text = ?t ?all" by (simp_all add: tx)
  ultimately show ?thesis
    using len assms(2) h d n unfolding bech32_decode_def Let_def sep length_rev by (cases hrp) simp_all
qed

section \<open>Addresses\<close>

lemma convert_pad_room:
  assumes "length bs \<le> 40"
  obtains ds where "convert_bits 64 5 bs 8 True = Inr (True, ds)"
proof -
  obtain val bits out where c: "convert_loop 5 8 0 0 bs = (val, bits, out)" by (metis prod_cases3)
  have "stream 5 out @ bits_of bits val = stream 8 bs"
    using convert_loop_stream [OF c] digit_ok_8 by simp
  from arg_cong [OF this, of length] have "5 * length out + bits = 8 * length bs" by simp
  then have "length out + (if bits = 0 then 0 else 1) \<le> 64" using assms by (auto split: if_splits)
  then show thesis using that c by (auto simp: convert_bits_def Let_def split: if_splits)
qed

lemma segwit_program:
  assumes "segwit_addr_encode hrp witver prog = Inr (Some addr)"
  obtains ds where "convert_bits 64 5 prog 8 True = Inr (True, ds)" "bech32_encode hrp (word_of_int witver # ds) = Some addr"
    "witver \<le> 16" "2 \<le> length prog" "length prog \<le> 40" "witver = 0 \<longrightarrow> length prog = 20 \<or> length prog = 32"
proof -
  have l: "witver \<le> 16" "2 \<le> length prog" "length prog \<le> 40" "witver = 0 \<longrightarrow> length prog = 20 \<or> length prog = 32"
    using assms by (auto simp: segwit_addr_encode_def split: if_splits)
  obtain ds where "convert_bits 64 5 prog 8 True = Inr (True, ds)" by (rule convert_pad_room [OF l(3)])
  then show thesis using that l assms by (auto simp: segwit_addr_encode_def split: if_splits)
qed

lemma bech32_encode_sizes:
  "bech32_encode hrp ds = Some addr \<Longrightarrow> length hrp + 7 + length ds \<le> 90"
  by (auto simp: bech32_encode_def split: option.splits if_splits)

lemma segwit_reads_back:
  assumes "segwit_addr_encode hrp witver prog = Inr (Some addr)" "hrp \<noteq> []" "0 \<le> witver"
  shows "segwit_addr_decode 40 addr = Inr (Some (hrp, word_of_int witver, prog))"
proof -
  let ?v = "word_of_int witver :: u8"
  obtain ds where ds: "convert_bits 64 5 prog 8 True = Inr (True, ds)" "bech32_encode hrp (?v # ds) = Some addr"
      and l: "witver \<le> 16" "2 \<le> length prog" "length prog \<le> 40" "witver = 0 \<longrightarrow> length prog = 20 \<or> length prog = 32"
    by (rule segwit_program [OF assms(1)])
  obtain r where r: "r < 5" "stream 5 ds = stream 8 prog @ replicate r False" using convert_pad(1) [OF ds(1)] by blast
  note ok = convert_pad(2) [OF ds(1)]
  from arg_cong [OF r(2), of length] have len: "5 * length ds = 8 * length prog + r" by simp
  have size: "length hrp + 8 + length ds \<le> 90" using bech32_encode_sizes [OF ds(2)] by simp
  have v: "uint ?v = witver" using assms(3) l(1) by (simp add: uint_word_of_int take_bit_int_eq_self)
  then have v16: "\<not> ?v > 16" "?v = 0 \<longleftrightarrow> witver = 0" using l(1) by (auto simp: word_less_def)
  have "unat ?v < 2 ^ 5" using v l(1) assms(3) by (simp add: unat_eq_nat_uint)
  then have "digit_ok 5 ?v" by (simp only: digit_ok_def take_bit_self_iff)
  then have "bech32_decode 84 84 addr = Inr (Some (hrp, ?v # ds))"
    using ok size len l(2) by (intro bech32_reads_back [OF ds(2) assms(2)]) simp_all
  moreover have "convert_bits 40 8 ds 5 False = Inr (True, prog)" by (rule convert_back [OF r(2,1) ok l(3)])
  moreover have "length ds \<le> 64" using len l(3) r(1) by simp
  ultimately show ?thesis using l v16 by (simp add: segwit_addr_decode_def)
qed

section \<open>Where the decoder leaves its buffers\<close>

definition printable :: "u8 \<Rightarrow> bool" where
  "printable c \<longleftrightarrow> 33 \<le> c \<and> c \<le> 126"

lemma decode_hrp_faults:
  "decode_hrp room chk lower upper cs = Inl e \<longleftrightarrow> e = Fault \<and> room \<le> length cs \<and> list_all printable (take (Suc room) cs)"
proof (induction room chk lower upper cs rule: decode_hrp.induct)
  case (2 room chk lower upper ch cs)
  show ?case
  proof (cases "ch < 33 \<or> ch > 126")
    case True
    then show ?thesis by (auto simp: printable_def)
  next
    case False
    then have "printable ch" by (auto simp: printable_def)
    then show ?thesis using 2 [OF False refl refl refl] False
      by (cases room) (auto simp: Let_def split: sum.splits option.splits)
  qed
qed (auto split: if_splits)

lemma charset_rev_range: "c < 128 \<Longrightarrow> charset_rev ! c < 32 \<and> - 1 \<le> charset_rev ! c"
proof -
  have "list_all (\<lambda>c. charset_rev ! c < 32 \<and> - 1 \<le> charset_rev ! c) [0..<128]" by code_simp
  then show "c < 128 \<Longrightarrow> charset_rev ! c < 32 \<and> - 1 \<le> charset_rev ! c" by (simp add: list_all_iff)
qed

lemma charset_rev_digit:
  fixes c :: u8
  assumes "c AND 0x80 = 0" "charset_rev ! unat c \<noteq> - 1"
  shows "digit_ok 5 (word_of_int (charset_rev ! unat c))"
proof -
  have "(0x80 :: u8) = NOT (mask 7)" by (simp add: mask_eq_exp_minus_1 not_eq_complement)
  then have "unat c < 128" using assms(1) and_not_mask_eq_0 [of c 7] take_bit_self_iff [of 7 c] by simp
  then have "0 \<le> charset_rev ! unat c" "charset_rev ! unat c < 2 ^ 5" using charset_rev_range assms(2) by fastforce+
  moreover define n where "n = nat (charset_rev ! unat c)"
  ultimately have n: "charset_rev ! unat c = int n" "n < 32" by simp_all
  then have "unat (of_nat n :: u8) < 2 ^ 5" by (simp add: unat_of_nat_small)
  then show ?thesis by (simp add: n(1) digit_ok_def take_bit_self_iff del: of_nat_unat)
qed

lemma decode_data_result:
  assumes "length cs - 6 \<le> room"
  shows "decode_data room chk lower upper cs \<noteq> Inl e"
    and "decode_data room chk lower upper cs = Inr (Some (ds, rest)) \<Longrightarrow> length ds = length cs - 6 \<and> list_all (digit_ok 5) ds"
proof -
  have "case decode_data room chk lower upper cs of Inl _ \<Rightarrow> False | Inr None \<Rightarrow> True
      | Inr (Some (ds, _)) \<Rightarrow> length ds = length cs - 6 \<and> list_all (digit_ok 5) ds"
    using assms
  proof (induction cs arbitrary: room chk lower upper)
    case (Cons c cs)
    let ?v = "charset_rev ! unat c"
    let ?rest = "\<lambda>lower upper. decode_data (room - 1) (bech32_polymod_step chk XOR word_of_int ?v) lower upper cs"
    have IH: "case ?rest lower upper of Inl _ \<Rightarrow> False | Inr None \<Rightarrow> True
        | Inr (Some (ds, _)) \<Rightarrow> length ds = length cs - 6 \<and> list_all (digit_ok 5) ds" for lower upper
      using Cons.prems by (intro Cons.IH) simp
    have room: "\<not> (6 \<le> length cs \<and> room = 0)" using Cons.prems by simp linarith
    show ?case
    proof (cases "c AND 0x80 = 0 \<and> ?v \<noteq> - 1")
      case True
      then show ?thesis
        using IH [of "lower \<or> 97 \<le> c \<and> c \<le> 122" "upper \<or> 65 \<le> c \<and> c \<le> 90"] charset_rev_digit [of c] room
        by (auto simp: Let_def Suc_diff_le simp del: not_gr_zero split: sum.splits option.splits)
    qed (auto simp: Let_def)
  qed simp
  then show "decode_data room chk lower upper cs \<noteq> Inl e"
    and "decode_data room chk lower upper cs = Inr (Some (ds, rest)) \<Longrightarrow> length ds = length cs - 6 \<and> list_all (digit_ok 5) ds"
    by auto
qed

lemma bech32_decode_result:
  "bech32_decode 84 84 addr = Inr (Some (hrp, ds)) \<Longrightarrow> list_all (digit_ok 5) ds"
  by (auto simp: bech32_decode_def Let_def split: if_splits sum.splits option.splits dest!: decode_data_result(2) [rotated])

lemma bech32_decode_faults:
  "bech32_decode 84 84 addr = Inl e \<longleftrightarrow>
     e = Fault \<and> 49 \<notin> set addr \<and> 85 \<le> length addr \<and> length addr \<le> 90 \<and> list_all printable (take 85 addr)"
proof -
  let ?n = "length (takeWhile (\<lambda>c. c \<noteq> 49) (rev addr))"
  have sep: "?n = length addr \<longleftrightarrow> 49 \<notin> set addr"
    by (metis (mono_tags, lifting) length_rev set_rev takeWhile_eq_all_conv takeWhile_eq_take take_all_iff order_refl length_takeWhile_le)
  show ?thesis
  proof (cases "49 \<in> set addr")
    case True
    have "?n < length addr" using True sep length_takeWhile_le [of "\<lambda>c. c \<noteq> 49" "rev addr"] by (metis length_rev order_le_imp_less_or_eq)
    then have "\<not> 84 \<le> length (take (length addr - (1 + ?n)) addr)" if "length addr \<le> 90" "6 \<le> ?n" using that by simp
    moreover have "length (drop (length addr - (1 + ?n) + 1) addr) - 6 \<le> 84" if "length addr \<le> 90" using that by simp
    ultimately show ?thesis
      using True sep decode_data_result(1) by (auto simp: bech32_decode_def Let_def decode_hrp_faults split: sum.splits option.splits)
  next
    case False
    have "84 \<le> length (addr @ [0]) \<and> list_all printable (take (Suc 84) (addr @ [0])) \<longleftrightarrow> 85 \<le> length addr \<and> list_all printable (take 85 addr)"
      by (cases "85 \<le> length addr") (auto simp: printable_def)
    then have "decode_hrp 84 1 False False (addr @ [0]) = Inl e \<longleftrightarrow> e = Fault \<and> 85 \<le> length addr \<and> list_all printable (take 85 addr)"
      by (simp only: decode_hrp_faults)
    then show ?thesis
      using False sep by (cases "decode_hrp 84 1 False False (addr @ [0])") (auto simp: bech32_decode_def Let_def)
  qed
qed

lemma convert_unpad_room:
  assumes "list_all (digit_ok 5) ds" "length ds \<le> 64"
  shows "convert_bits 40 8 ds 5 False \<noteq> Inl e"
proof -
  obtain val bits out where c: "convert_loop 8 5 0 0 ds = (val, bits, out)" by (metis prod_cases3)
  have "stream 8 out @ bits_of bits val = stream 5 ds"
    using convert_loop_stream [OF c] assms(1) by simp
  from arg_cong [OF this, of length] have "8 * length out + bits = 5 * length ds" by simp
  then have "length out \<le> 40" using assms(2) by linarith
  then show ?thesis using c by (simp add: convert_bits_def)
qed

text \<open>
  C35. Decoding an address never leaves the buffers of the caller and of the decoder, except in one
  case: a text of 85 to 90 characters without the separator whose first 85 characters are
  printable overruns the buffer for the prefix, because the length of the prefix wraps around.
\<close>

theorem segwit_decode_faults_iff:
  "segwit_addr_decode 40 addr = Inl e \<longleftrightarrow>
     e = Fault \<and> 49 \<notin> set addr \<and> 85 \<le> length addr \<and> length addr \<le> 90 \<and> list_all printable (take 85 addr)"
proof -
  have "convert_bits 40 8 (drop 1 ds) 5 False \<noteq> Inl e" if "bech32_decode 84 84 addr = Inr (Some (hrp, ds))" "length ds \<le> 65" for hrp ds
  proof -
    have "list_all (digit_ok 5) (drop 1 ds)" using bech32_decode_result [OF that(1)] by (auto simp: list_all_iff dest: in_set_dropD)
    then show ?thesis using that(2) by (intro convert_unpad_room) simp_all
  qed
  then have "segwit_addr_decode 40 addr = Inl e \<longleftrightarrow> bech32_decode 84 84 addr = Inl e"
    by (auto simp: segwit_addr_decode_def split: sum.splits option.splits)
  then show ?thesis by (simp only: bech32_decode_faults)
qed

text \<open>
  C34. A segwit address reads back: decoding what was encoded for a witness version and program gives
  the prefix, the version and the program.
\<close>

theorem segwit_roundtrip:
  assumes "segwit_addr_encode hrp witver prog = Inr (Some addr)" "hrp \<noteq> []" "0 \<le> witver"
  shows "segwit_addr_decode 40 addr = Inr (Some (hrp, word_of_int witver, prog))"
  by (rule segwit_reads_back [OF assms])

lemma charset_word: "list_all (digit_ok 5) ds \<Longrightarrow> 0 \<notin> set (map (\<lambda>d. charset ! unat d) ds)"
  using charset_nth(4) by (fastforce simp: list_all_iff)

text \<open>Programs of 20 and 32 bytes have an address for both networks.\<close>

lemma segwit_address:
  assumes "length prog = 20 \<or> length prog = 32" "hrp = c_lit ''bc'' \<or> hrp = c_lit ''tb''"
  obtains rest where "segwit_addr_encode hrp 0 prog = Inr (Some (hrp @ rest))" "0 \<notin> set (hrp @ rest)" "length rest \<le> 73"
proof -
  have "length prog \<le> 40" using assms(1) by auto
  then obtain ds where ds: "convert_bits 64 5 prog 8 True = Inr (True, ds)" by (rule convert_pad_room)
  obtain r where r: "r < 5" "stream 5 ds = stream 8 prog @ replicate r False" using convert_pad(1) [OF ds] by blast
  from arg_cong [OF r(2), of length] have "5 * length ds = 8 * length prog + r" by simp
  then have len: "length ds \<le> 52" using assms(1) r(1) by auto
  have hrp: "hrp = [98, 99] \<or> hrp = [116, 98]" using assms(2) by (auto simp: c_lit_def of_char_def)
  have ok: "list_all (digit_ok 5) (0 # ds)" using convert_pad(2) [OF ds] by (simp add: digit_ok_def)
  have "encode_hrp 1 hrp \<noteq> None" using hrp by auto
  then obtain addr where addr: "bech32_encode hrp (0 # ds) = Some addr"
    using len hrp encode_data_text [OF ok] by (auto simp: bech32_encode_def)
  obtain chk where shape: "length hrp + 7 + length (0 # ds) \<le> 90"
      "addr = hrp @ [49] @ map (\<lambda>d. charset ! unat d) ((0 # ds) @ checksum_digits (feed (0 # ds) (hrp_low hrp chk)))"
    by (rule bech32_shape [OF addr ok])
  let ?rest = "[49] @ map (\<lambda>d. charset ! unat d) ((0 # ds) @ checksum_digits (feed (0 # ds) (hrp_low hrp chk)))"
  have "0 \<notin> set (map (\<lambda>d. charset ! unat d) ((0 # ds) @ checksum_digits (feed (0 # ds) (hrp_low hrp chk))))"
    using ok checksum_digits_ok(1) by (intro charset_word) simp
  then have "0 \<notin> set (hrp @ ?rest)" using hrp by auto
  moreover have "segwit_addr_encode hrp 0 prog = Inr (Some (hrp @ ?rest))"
    using assms(1) ds addr shape(2) by (auto simp: segwit_addr_encode_def)
  moreover have "length ?rest \<le> 73" using len by (simp add: checksum_digits_ok)
  ultimately show thesis using that by blast
qed

theorem segwit_roundtrip_witness:
  "\<exists>addr. segwit_addr_encode (c_lit ''bc'') 0 (replicate 20 0) = Inr (Some addr)
     \<and> segwit_addr_decode 40 addr = Inr (Some (c_lit ''bc'', 0, replicate 20 0))"
proof -
  obtain rest where "segwit_addr_encode (c_lit ''bc'') 0 (replicate 20 0) = Inr (Some (c_lit ''bc'' @ rest))"
    by (rule segwit_address [of "replicate 20 0" "c_lit ''bc''"]) simp_all
  then show ?thesis using segwit_roundtrip [of "c_lit ''bc''" 0 "replicate 20 0"] by (auto simp: c_lit_def)
qed

end
