(* ===== verification/Addresses.thy ===== *)
theory Addresses
  imports Transaction_Order Keys Base58 Segwit_Props
begin

text \<open>
  Addresses: the functions of \<open>src/code/BTCUtil.c\<close> between output scripts and their texts, in base 58
  with a checksum or as segwit addresses.
\<close>

section \<open>The code\<close>

definition base58AddressPayloadHash :: "data \<Rightarrow> u8 \<Rightarrow> fault + data" where
  "base58AddressPayloadHash hash prefix =
     (let d = DataAdd (DataNew 0) (uint8D prefix);
          d = DataAddCopy d hash;
          checksum = hash256 d;
          checksum = (if dlength checksum > 4 then DataCopyDataPart checksum 0 4 else checksum);
          d = DataAdd d checksum
      in Base58Encode d)"

definition base58Address :: "data \<Rightarrow> u8 \<Rightarrow> fault + data" where
  "base58Address payload prefix = base58AddressPayloadHash (hash160 payload) prefix"

definition base58Dencode :: "bytes \<Rightarrow> fault + data" where
  "base58Dencode string = Base58Decode string"

definition addressToPubScript :: "data \<Rightarrow> fault + data" where
  "addressToPubScript address =
     (if dlength address < 1 then Inr DataNull
      else case (if StringHasPrefix address (c_lit ''tb'') \<or> StringHasPrefix address (c_lit ''bc'')
                 then fromSegwit address else base58Dencode (cstr address)) of
          Inl e \<Rightarrow> Inl e
        | Inr d \<Rightarrow>
            if dlength d = 20 then Inr (p2wpkhPubScript d)
            else if dlength d = 32 then Inr (p2wshPubScript d)
            else if dlength d = 25 then
              let hash = DataCopyDataPart d 1 20;
                  checksum = DataCopyDataPart d 21 4;
                  actualChecksum = hash256 (DataCopyDataPart d 0 21)
              in if \<not> DataEqual checksum (DataCopyDataPart actualChecksum 0 4) then Inr DataNull
                 else let version = dbytes d ! 0 in
                   if version = 0x00 \<or> version = 0x6F then Inr (p2pkhPubScript hash)
                   else if version = 0x05 \<or> version = 0xc4 then Inr (p2shPubScript hash)
                   else Inr DataNull
            else Inr DataNull)"

definition pubScriptToAddress :: "data \<Rightarrow> fault + data" where
  "pubScriptToAddress pubScript =
     (if dlength pubScript < 1 then Inr DataNull
      else let tokens = scriptToTokens pubScript; n = length tokens in
        if n = 2 \<and> op (tokens ! 0) = 65 \<and> dlength (tdata (tokens ! 0)) = 65 \<and> op (tokens ! 1) = OP_CHECKSIG
        then Inr DataNull
        else if n = 5 \<and> op (tokens ! 0) = OP_DUP \<and> op (tokens ! 1) = OP_HASH160
          \<and> op (tokens ! 2) = 0x14 \<and> op (tokens ! 3) = OP_EQUALVERIFY \<and> op (tokens ! 4) = OP_CHECKSIG
        then base58AddressPayloadHash (tdata (tokens ! 2)) 0x00
        else if n = 3 \<and> op (tokens ! 0) = OP_HASH160 \<and> op (tokens ! 1) = 20 \<and> op (tokens ! 2) = OP_EQUAL
        then base58AddressPayloadHash (tdata (tokens ! 1)) 0x05
        else if n = 2 \<and> op (tokens ! 0) = 0 \<and> op (tokens ! 1) = 20
        then toSegwit (tdata (tokens ! 1)) (c_lit ''bc'')
        else if n = 2 \<and> op (tokens ! 0) = 0 \<and> op (tokens ! 1) = 32
        then toSegwit (tdata (tokens ! 1)) (c_lit ''bc'')
        else Inr DataNull)"

definition p2pkhAddress :: "ecc \<Rightarrow> data \<Rightarrow> fault + data" where
  "p2pkhAddress E publicKey = base58Address (publicKeyCompress E (publicKeyParse E publicKey)) 0x00"

definition p2pkhAddressTestNet :: "ecc \<Rightarrow> data \<Rightarrow> fault + data" where
  "p2pkhAddressTestNet E publicKey = base58Address (publicKeyCompress E (publicKeyParse E publicKey)) 0x6F"

definition p2shAddress :: "data \<Rightarrow> fault + data" where
  "p2shAddress scriptBytes = base58Address scriptBytes 0x05"

definition p2shAddressTestNet :: "data \<Rightarrow> fault + data" where
  "p2shAddressTestNet scriptBytes = base58Address scriptBytes 0xC4"

definition p2wpkhAddress :: "ecc \<Rightarrow> data \<Rightarrow> fault + data" where
  "p2wpkhAddress E publicKey = toSegwit (hash160 (publicKeyCompress E (publicKeyParse E publicKey))) (c_lit ''bc'')"

definition p2wpkhAddressTestNet :: "ecc \<Rightarrow> data \<Rightarrow> fault + data" where
  "p2wpkhAddressTestNet E publicKey = toSegwit (hash160 (publicKeyCompress E (publicKeyParse E publicKey))) (c_lit ''tb'')"

definition p2wshAddress :: "data \<Rightarrow> fault + data" where
  "p2wshAddress scriptBytes = toSegwit (sha256 scriptBytes) (c_lit ''bc'')"

definition p2wshAddressTestNet :: "data \<Rightarrow> fault + data" where
  "p2wshAddressTestNet scriptBytes = toSegwit (sha256 scriptBytes) (c_lit ''tb'')"

section \<open>Segwit addresses\<close>

lemma hrp_facts: "c_lit ''bc'' = [98, 99]" "c_lit ''tb'' = [116, 98]"
  by (simp_all add: c_lit_def of_char_def)

lemma segwit_text:
  assumes "length prog = 20 \<or> length prog = 32" "hrp = c_lit ''bc'' \<or> hrp = c_lit ''tb''"
  shows "\<exists>a. toSegwit (Bytes prog) hrp = Inr a
    \<and> addressToPubScript a = Inr (if length prog = 20 then p2wpkhPubScript (Bytes prog) else p2wshPubScript (Bytes prog))"
proof -
  obtain rest where r: "segwit_addr_encode hrp 0 prog = Inr (Some (hrp @ rest))" "0 \<notin> set (hrp @ rest)" and room: "length rest \<le> 73"
    by (rule segwit_address [OF assms])
  have hrp: "hrp = [98, 99] \<or> hrp = [116, 98]" using assms(2) by (auto simp: hrp_facts)
  have to: "toSegwit (Bytes prog) hrp = Inr (StringNewC (hrp @ rest))"
    using r(1) room by (simp add: toSegwit_def)
  have "segwit_addr_decode 40 (hrp @ rest) = Inr (Some (hrp, word_of_int 0, prog))"
    using hrp by (intro segwit_reads_back [OF r(1)]) auto
  then have "fromSegwit (StringNewC (hrp @ rest)) = Inr (Bytes prog)"
    using cstr_StringNewC [OF r(2)] by (simp add: fromSegwit_def fromSegwitVersion_def StringNewC_def)
  moreover have "StringHasPrefix (StringNewC (hrp @ rest)) (c_lit ''tb'') \<or> StringHasPrefix (StringNewC (hrp @ rest)) (c_lit ''bc'')"
    using hrp by (auto simp: StringHasPrefix_def StringNewC_def hrp_facts)
  ultimately have "addressToPubScript (StringNewC (hrp @ rest))
      = Inr (if length prog = 20 then p2wpkhPubScript (Bytes prog) else p2wshPubScript (Bytes prog))"
    using assms(1) by (auto simp: addressToPubScript_def StringNewC_def)
  then show ?thesis using to by blast
qed

section \<open>Base 58 addresses\<close>

lemma encode_word: "EncodeBase58 bs = Inr cs \<Longrightarrow> 0 \<notin> set cs"
proof -
  assume e: "EncodeBase58 bs = Inr cs"
  obtain it where it: "EncodeBase58 bs = Inr (replicate (length (takeWhile (\<lambda>b. b = 0) bs)) 49 @ map (\<lambda>d. pszBase58 ! unat d) it)"
      "num 58 it = num 256 (dropWhile (\<lambda>b. b = 0) bs)" "\<forall>d \<in> set it. unat d < 58" "it = [] \<or> last (rev it) \<noteq> 0"
    by (rule encode_text [OF refl])
  then have "cs = replicate (length (takeWhile (\<lambda>b. b = 0) bs)) 49 @ map (\<lambda>d. pszBase58 ! unat d) it" using e by simp
  then show ?thesis using it(3) alphabet_digit by auto
qed

text \<open>The first digit of a number of 25 bytes is that of its leading byte.\<close>

lemma num_bounds:
  assumes "\<forall>d \<in> set (d # ds). unat d < b"
  shows "unat d * b ^ length ds \<le> num b (d # ds)" "num b (d # ds) < (unat d + 1) * b ^ length ds"
  using num_less [of "rev ds" b] assms by (simp_all add: horner_sum_append)

lemma first_digit_5:
  assumes "EncodeBase58 (5 # bs) = Inr cs" "length bs = 24"
  obtains c cs' where "cs = c # cs'" "c = 50 \<or> c = 51"
proof -
  have "5 # bs = dropWhile (\<lambda>b. b = 0) (5 # bs)" by simp
  then obtain it where "EncodeBase58 (5 # bs) = Inr (replicate (length (takeWhile (\<lambda>b. b = 0) (5 # bs))) 49 @ map (\<lambda>d. pszBase58 ! unat d) it)"
      and it: "num 58 it = num 256 (5 # bs)" "\<forall>d \<in> set it. unat d < 58" "it = [] \<or> last (rev it) \<noteq> 0"
    by (rule encode_text)
  then have cs: "cs = map (\<lambda>d. pszBase58 ! unat d) it" using assms(1) by simp
  have "\<forall>d \<in> set (5 # bs). unat d < 256" using unsigned_less [where ?'a = nat and ?'b = 8] by simp
  from num_bounds [OF this] have n: "5 * 256 ^ 24 \<le> num 58 it" "num 58 it < 6 * 256 ^ 24" using assms(2) it(1) by simp_all
  then obtain d ds where d: "it = d # ds" by (cases it) auto
  have dig: "unat d < 58" "unat d \<noteq> 0" using it(2,3) d by (simp_all add: unat_eq_0)
  note b = num_bounds [OF it(2) [unfolded d], folded d]
  have "length ds = 33"
  proof (rule ccontr)
    assume "length ds \<noteq> 33"
    then consider "length ds \<le> 32" | "34 \<le> length ds" by linarith
    then show False
    proof cases
      case 1
      have "(unat d + 1) * 58 ^ length ds \<le> 58 * 58 ^ 32" using dig(1) power_increasing [OF 1, of "58 :: nat"] by (intro mult_le_mono) simp_all
      then show False using b(2) n(1) by simp
    next
      case 2
      have "1 * 58 ^ 34 \<le> unat d * 58 ^ length ds" using dig(2) power_increasing [OF 2, of "58 :: nat"] by (intro mult_le_mono) simp_all
      then show False using b(1) n(2) by simp
    qed
  qed
  then have "unat d * 58 ^ 33 < 6 * 256 ^ 24" using b(1) n(2) by simp
  then have "unat d = 1 \<or> unat d = 2" using dig(2) by simp linarith
  then have "pszBase58 ! unat d = 50 \<or> pszBase58 ! unat d = 51" by (auto simp: psz_codes)
  then show thesis using that cs d by simp
qed

lemma first_digit_0:
  assumes "EncodeBase58 (0 # bs) = Inr cs"
  obtains cs' where "cs = 49 # cs'"
proof -
  obtain it where "EncodeBase58 (0 # bs) = Inr (replicate (length (takeWhile (\<lambda>b. b = 0) (0 # bs))) 49 @ map (\<lambda>d. pszBase58 ! unat d) it)"
      "num 58 it = num 256 (dropWhile (\<lambda>b. b = 0) (0 # bs))" "\<forall>d \<in> set it. unat d < 58" "it = [] \<or> last (rev it) \<noteq> 0"
    by (rule encode_text [OF refl])
  then show thesis using that assms by simp
qed

lemma base58_text:
  assumes "length h = 20" "v = 0 \<or> v = 5"
  shows "\<exists>a. base58AddressPayloadHash (Bytes h) v = Inr a
    \<and> addressToPubScript a = Inr (if v = 0 then p2pkhPubScript (Bytes h) else p2shPubScript (Bytes h))"
proof -
  define chk where "chk = take 4 (dbytes (hash256 (Bytes (v # h))))"
  let ?bs = "v # h @ chk"
  obtain cs where cs: "EncodeBase58 ?bs = Inr cs" "DecodeBase58 cs = Inr (Some ?bs)" using encode_decode by blast
  have "dlength (hash256 (Bytes (v # h))) = 32" by (simp add: hash256_Bytes length_sha256_spec)
  then have chk: "length chk = 4" "DataCopyDataPart (hash256 (Bytes (v # h))) 0 4 = Bytes chk"
    by (simp_all add: chk_def DataCopyDataPart_def)
  have enc: "base58AddressPayloadHash (Bytes h) v = Inr (StringNewC cs)"
    using cs(1) chk \<open>dlength _ = 32\<close> by (simp add: base58AddressPayloadHash_def DataAddCopy_def Base58Encode_def)
  have "length (h @ chk) = 24" using assms(1) chk(1) by simp
  obtain c cs' where c: "cs = c # cs'" "c = 49 \<or> c = 50 \<or> c = 51"
    using assms(2) cs(1) first_digit_0 [of "h @ chk" cs] first_digit_5 [OF _ \<open>length (h @ chk) = 24\<close>] by metis
  then have "\<not> StringHasPrefix (StringNewC cs) (c_lit ''tb'')" "\<not> StringHasPrefix (StringNewC cs) (c_lit ''bc'')"
    by (auto simp: StringHasPrefix_def StringNewC_def hrp_facts)
  moreover have "base58Dencode (cstr (StringNewC cs)) = Inr (Bytes ?bs)"
    using cs by (simp add: base58Dencode_def Base58Decode_def cstr_StringNewC encode_word)
  moreover have "DataCopyDataPart (Bytes ?bs) 0 21 = Bytes (v # h)" "DataCopyDataPart (Bytes ?bs) 21 4 = Bytes chk"
      "DataCopyDataPart (Bytes ?bs) 1 20 = Bytes h"
    using assms(1) chk(1) by (simp_all add: DataCopyDataPart_def)
  moreover have "DataEqual (Bytes chk) (Bytes chk)" using chk(1) by (simp add: DataEqual_def DataCompare_0_iff small_data_def)
  ultimately have "addressToPubScript (StringNewC cs) = Inr (if v = 0 then p2pkhPubScript (Bytes h) else p2shPubScript (Bytes h))"
    using assms chk c by (auto simp: addressToPubScript_def StringNewC_def Let_def)
  then show ?thesis using enc by blast
qed

section \<open>Scripts\<close>

lemma template_tokens:
  "length h = 20 \<Longrightarrow> map op (scriptToTokens (p2pkhPubScript (Bytes h))) = [OP_DUP, OP_HASH160, 20, OP_EQUALVERIFY, OP_CHECKSIG]
     \<and> tdata (scriptToTokens (p2pkhPubScript (Bytes h)) ! 2) = Bytes h"
  "length h = 20 \<Longrightarrow> map op (scriptToTokens (p2shPubScript (Bytes h))) = [OP_HASH160, 20, OP_EQUAL]
     \<and> tdata (scriptToTokens (p2shPubScript (Bytes h)) ! 1) = Bytes h"
  "length h = 20 \<Longrightarrow> map op (scriptToTokens (p2wpkhPubScript (Bytes h))) = [0, 20] \<and> tdata (scriptToTokens (p2wpkhPubScript (Bytes h)) ! 1) = Bytes h"
  "length h = 32 \<Longrightarrow> map op (scriptToTokens (p2wshPubScript (Bytes h))) = [0, 32] \<and> tdata (scriptToTokens (p2wshPubScript (Bytes h)) ! 1) = Bytes h"
proof -
  have push: "push_op 20 = 20" "push_op 32 = 32" by (simp_all add: push_op_def)
  have sp: "dbytes (scriptPush (Bytes h)) = of_nat (length h) # h" if "length h = 20 \<or> length h = 32"
    using that small_push [of "length h" "Bytes h"] by auto
  have ne: "length h = 20 \<Longrightarrow> h \<noteq> []" "length h = 32 \<Longrightarrow> h \<noteq> []" by auto
  note tok = tokens_of_items [of "[Op OP_DUP, Op OP_HASH160, Push h, Op OP_EQUALVERIFY, Op OP_CHECKSIG]"]
    tokens_of_items [of "[Op OP_HASH160, Push h, Op OP_EQUAL]"] tokens_of_items [of "[Op 0, Push h]"]
  show "length h = 20 \<Longrightarrow> map op (scriptToTokens (p2pkhPubScript (Bytes h))) = [OP_DUP, OP_HASH160, 20, OP_EQUALVERIFY, OP_CHECKSIG]
     \<and> tdata (scriptToTokens (p2pkhPubScript (Bytes h)) ! 2) = Bytes h"
    using tok(1) push sp ne by (simp add: scriptToTokens_def template_bytes op_defs)
  show "length h = 20 \<Longrightarrow> map op (scriptToTokens (p2shPubScript (Bytes h))) = [OP_HASH160, 20, OP_EQUAL]
     \<and> tdata (scriptToTokens (p2shPubScript (Bytes h)) ! 1) = Bytes h"
    using tok(2) push sp ne by (simp add: scriptToTokens_def template_bytes op_defs)
  show "length h = 20 \<Longrightarrow> map op (scriptToTokens (p2wpkhPubScript (Bytes h))) = [0, 20] \<and> tdata (scriptToTokens (p2wpkhPubScript (Bytes h)) ! 1) = Bytes h"
    using tok(3) push sp ne by (simp add: scriptToTokens_def template_bytes op_defs)
  show "length h = 32 \<Longrightarrow> map op (scriptToTokens (p2wshPubScript (Bytes h))) = [0, 32] \<and> tdata (scriptToTokens (p2wshPubScript (Bytes h)) ! 1) = Bytes h"
    using tok(3) push sp ne by (simp add: scriptToTokens_def template_bytes op_defs)
qed

text \<open>
  C27. An output script of one of the four standard forms has an address, and the address gives the
  script back.
\<close>

theorem address_roundtrip:
  assumes "dlength h = 20 \<and> s \<in> {p2pkhPubScript h, p2shPubScript h, p2wpkhPubScript h} \<or> dlength h = 32 \<and> s = p2wshPubScript h"
  shows "\<exists>a. pubScriptToAddress s = Inr a \<and> addressToPubScript a = Inr s"
proof -
  obtain hs where h: "h = Bytes hs" using assms by (cases h) auto
  have ops: "map op ts = os \<Longrightarrow> length ts = length os \<and> (\<forall>i < length os. op (ts ! i) = os ! i)" for ts os by auto
  consider "length hs = 20" "s = p2pkhPubScript h" | "length hs = 20" "s = p2shPubScript h"
    | "length hs = 20" "s = p2wpkhPubScript h" | "length hs = 32" "s = p2wshPubScript h"
    using assms h by auto
  then show ?thesis
  proof cases
    case 1
    have "pubScriptToAddress s = base58AddressPayloadHash (Bytes hs) 0"
      using ops [OF conjunct1 [OF template_tokens(1) [OF 1(1)]]] template_tokens(1) [OF 1(1)] 1 h
      by (simp add: pubScriptToAddress_def Let_def template_bytes op_defs numeral_eq_Suc All_less_Suc)
    then show ?thesis using base58_text [of hs 0] 1 h by simp
  next
    case 2
    have "pubScriptToAddress s = base58AddressPayloadHash (Bytes hs) 5"
      using ops [OF conjunct1 [OF template_tokens(2) [OF 2(1)]]] template_tokens(2) [OF 2(1)] 2 h
      by (simp add: pubScriptToAddress_def Let_def template_bytes op_defs numeral_eq_Suc All_less_Suc)
    then show ?thesis using base58_text [of hs 5] 2 h by simp
  next
    case 3
    have "pubScriptToAddress s = toSegwit (Bytes hs) (c_lit ''bc'')"
      using ops [OF conjunct1 [OF template_tokens(3) [OF 3(1)]]] template_tokens(3) [OF 3(1)] 3 h
      by (simp add: pubScriptToAddress_def Let_def template_bytes op_defs All_less_Suc)
    then show ?thesis using segwit_text [of hs "c_lit ''bc''"] 3 h by simp
  next
    case 4
    have "pubScriptToAddress s = toSegwit (Bytes hs) (c_lit ''bc'')"
      using ops [OF conjunct1 [OF template_tokens(4) [OF 4(1)]]] template_tokens(4) [OF 4(1)] 4 h
      by (simp add: pubScriptToAddress_def Let_def template_bytes op_defs All_less_Suc)
    then show ?thesis using segwit_text [of hs "c_lit ''bc''"] 4 h by simp
  qed
qed

theorem address_roundtrip_witness:
  "\<exists>a. pubScriptToAddress (p2shPubScript (Bytes (replicate 20 7))) = Inr a
     \<and> addressToPubScript a = Inr (p2shPubScript (Bytes (replicate 20 7)))"
  using address_roundtrip [of "Bytes (replicate 20 7)" "p2shPubScript (Bytes (replicate 20 7))"] by simp

end
