(* ===== verification/Memory.thy ===== *)
theory Memory
  imports Data_Values
begin

text \<open>
  Allocation tracking of \<open>src/code/Data.c\<close>. A \<open>Data\<close> is a pointer with a length; the bytes lie on a
  heap. A stack of track stacks remembers the buffers that the current scope allocated: leaving the
  scope frees all of them but the result. The C allocator is a parameter that answers with an unused
  address and says when \<open>realloc\<close> stays in place. \<open>Inl Abort\<close> is a call of \<open>abort\<close>, \<open>Inl Fault\<close> an
  access to memory that is not allocated.

  The handles in a track stack are kept beside the address of its array, whose bytes are not looked
  at; the current stack comes first. The debug tracker, which is off unless it is started, and
  failing allocations are not modelled.
\<close>

section \<open>The heap\<close>

type_synonym addr = nat

record allocator =
  fresh :: "addr list \<Rightarrow> addr"
  stays :: "addr list \<Rightarrow> addr \<Rightarrow> nat \<Rightarrow> bool"

record handle =
  h_at :: addr
  h_len :: nat

record track_stack =
  t_at :: addr
  t_items :: "handle list"

record mem =
  heap :: "(addr \<times> bytes) list"
  allocated :: int
  stacks_at :: addr
  stacks :: "track_stack list"

type_synonym 'a step = "mem \<Rightarrow> fault + 'a \<times> mem"

definition bindM :: "'a step \<Rightarrow> ('a \<Rightarrow> 'b step) \<Rightarrow> 'b step" where
  "bindM f g m = (case f m of Inl e \<Rightarrow> Inl e | Inr (x, m) \<Rightarrow> g x m)"

definition block :: "mem \<Rightarrow> addr \<Rightarrow> bytes option" where
  "block m a = map_of (heap m) a"

definition put_block :: "addr \<Rightarrow> bytes \<Rightarrow> mem \<Rightarrow> mem" where
  "put_block a bs m = m\<lparr>heap := (a, bs) # filter (\<lambda>p. fst p \<noteq> a) (heap m)\<rparr>"

definition drop_block :: "addr \<Rightarrow> mem \<Rightarrow> mem" where
  "drop_block a m = m\<lparr>heap := filter (\<lambda>p. fst p \<noteq> a) (heap m)\<rparr>"

definition addrs :: "mem \<Rightarrow> addr list" where
  "addrs m = map fst (heap m)"

definition free_block :: "addr \<Rightarrow> mem \<Rightarrow> fault + mem" where
  "free_block a m = (if a = 0 then Inr m else case block m a of None \<Rightarrow> Inl Fault | Some _ \<Rightarrow> Inr (drop_block a m))"

text \<open>Bytes that \<open>realloc\<close> adds are undefined; here they are 0 until they are written.\<close>

definition realloc_block :: "allocator \<Rightarrow> addr \<Rightarrow> nat \<Rightarrow> mem \<Rightarrow> fault + addr \<times> mem" where
  "realloc_block A a n m =
     (if a = 0 then (let a = fresh A (addrs m) in Inr (a, put_block a (replicate n 0) m))
      else case block m a of None \<Rightarrow> Inl Fault
        | Some bs \<Rightarrow>
            let new = take n bs @ replicate (n - length bs) 0 in
            if stays A (addrs m) a n then Inr (a, put_block a new m)
            else let b = fresh A (addrs m) in Inr (b, put_block b new (drop_block a m)))"

definition set_bytes :: "addr \<Rightarrow> nat \<Rightarrow> bytes \<Rightarrow> mem \<Rightarrow> fault + mem" where
  "set_bytes a i bs m =
     (if bs = [] then Inr m
      else case block m a of None \<Rightarrow> Inl Fault
        | Some old \<Rightarrow> if i + length bs \<le> length old then Inr (put_block a (take i old @ bs @ drop (i + length bs) old) m) else Inl Fault)"

definition get_bytes :: "handle \<Rightarrow> mem \<Rightarrow> fault + bytes" where
  "get_bytes d m =
     (if h_len d = 0 then Inr []
      else case block m (h_at d) of None \<Rightarrow> Inl Fault
        | Some bs \<Rightarrow> if h_len d \<le> length bs then Inr (take (h_len d) bs) else Inl Fault)"

section \<open>Resizing\<close>

definition null :: handle where
  "null = \<lparr>h_at = 0, h_len = 0\<rparr>"

text \<open>The first half of \<open>DataResizeFlexible\<close>. Freeing by resizing to 0 does not count.\<close>

definition resize_block :: "allocator \<Rightarrow> handle \<Rightarrow> nat \<Rightarrow> handle step" where
  "resize_block A d n m =
     (if n = 0 then (case free_block (h_at d) m of Inl e \<Rightarrow> Inl e | Inr m \<Rightarrow> Inr (\<lparr>h_at = 0, h_len = 0\<rparr>, m))
      else case realloc_block A (h_at d) n m of Inl e \<Rightarrow> Inl e
        | Inr (a, m) \<Rightarrow>
            let m = (if h_at d = 0 then m\<lparr>allocated := allocated m + 1\<rparr> else m) in
            case set_bytes a (h_len d) (replicate (n - h_len d) 0x66) m of Inl e \<Rightarrow> Inl e
            | Inr m \<Rightarrow> Inr (\<lparr>h_at = a, h_len = n\<rparr>, m))"

definition DatasHasData :: "handle list \<Rightarrow> handle \<Rightarrow> nat" where
  "DatasHasData items d = length (filter (\<lambda>x. h_at x = h_at d) items)"

definition DatasMemory :: "track_stack \<Rightarrow> handle" where
  "DatasMemory t = \<lparr>h_at = t_at t, h_len = 16 * length (t_items t)\<rparr>"

text \<open>\<open>DatasAddRefFlexible\<close> on a track stack: the array of 16 byte elements grows by one.\<close>

definition add_entry :: "allocator \<Rightarrow> track_stack \<Rightarrow> handle \<Rightarrow> track_stack step" where
  "add_entry A t d m =
     (if DatasHasData (t_items t) d \<noteq> 0 then Inl Abort
      else case resize_block A (DatasMemory t) (16 * (length (t_items t) + 1)) m of Inl e \<Rightarrow> Inl e
        | Inr (memory, m) \<Rightarrow> Inr (\<lparr>t_at = h_at memory, t_items = t_items t @ [d]\<rparr>, m))"

definition DataTrack :: "allocator \<Rightarrow> handle \<Rightarrow> handle step" where
  "DataTrack A d m =
     (if h_at d = 0 then Inr (d, m)
      else case stacks m of [] \<Rightarrow> Inr (d, m)
        | t # ts \<Rightarrow>
            if DatasHasData (t_items t) d \<noteq> 0 then Inl Abort
            else (case add_entry A t d m of Inl e \<Rightarrow> Inl e | Inr (t, m) \<Rightarrow> Inr (d, m\<lparr>stacks := t # ts\<rparr>)))"

definition DataIsTracked :: "mem \<Rightarrow> handle \<Rightarrow> nat" where
  "DataIsTracked m d = (case stacks m of [] \<Rightarrow> 0 | t # ts \<Rightarrow> DatasHasData (t_items t) d)"

text \<open>For a null pointer \<open>DatasReplaceData\<close> appends instead.\<close>

definition DatasReplaceData :: "handle list \<Rightarrow> handle \<Rightarrow> handle \<Rightarrow> handle list" where
  "DatasReplaceData items old new = map (\<lambda>x. if h_at x = h_at old then new else x) items"

definition DataReplaceTrack :: "handle \<Rightarrow> handle \<Rightarrow> handle step" where
  "DataReplaceTrack old new m =
     (case stacks m of [] \<Rightarrow> Inl Abort
      | t # ts \<Rightarrow>
          if DatasHasData (t_items t) old = 0 then Inl Abort
          else let items = DatasReplaceData (t_items t) old new in
            if DatasHasData items new = 0 then Inl Abort
            else Inr (new, m\<lparr>stacks := t\<lparr>t_items := items\<rparr> # ts\<rparr>))"

text \<open>
  \<open>DataResizeFlexible\<close> as \<open>DataResize\<close> calls it. A buffer that was null is tracked like a new one, so
  \<open>DataReplaceTrack\<close> never gets a null buffer to replace.
\<close>

definition DataResize_h :: "allocator \<Rightarrow> handle \<Rightarrow> nat \<Rightarrow> handle step" where
  "DataResize_h A old n m =
     (if h_len old = n then Inr (old, m)
      else case resize_block A old n m of Inl e \<Rightarrow> Inl e
        | Inr (d, m) \<Rightarrow>
            if stacks m \<noteq> [] \<and> h_at old \<noteq> h_at d then
              if h_at old = 0 then DataTrack A d m
              else if DataIsTracked m old \<noteq> 0 then DataReplaceTrack old d m
              else Inr (d, m)
            else Inr (d, m))"

section \<open>New buffers\<close>

definition DataNewFlexible_h :: "allocator \<Rightarrow> nat \<Rightarrow> bool \<Rightarrow> handle step" where
  "DataNewFlexible_h A n tracked m =
     (let a = fresh A (addrs m);
          m = (put_block a (replicate n 0x33) m)\<lparr>allocated := allocated m + 1\<rparr>;
          d = \<lparr>h_at = a, h_len = n\<rparr>
      in if tracked then DataTrack A d m else Inr (d, m))"

definition DataNew_h :: "allocator \<Rightarrow> nat \<Rightarrow> handle step" where
  "DataNew_h A n = DataNewFlexible_h A n True"

definition DataNewUntracked_h :: "allocator \<Rightarrow> nat \<Rightarrow> handle step" where
  "DataNewUntracked_h A n = DataNewFlexible_h A n False"

text \<open>\<open>memcpy\<close> into a buffer.\<close>

definition write_at :: "handle \<Rightarrow> nat \<Rightarrow> bytes \<Rightarrow> handle step" where
  "write_at d i bs m = (case set_bytes (h_at d) i bs m of Inl e \<Rightarrow> Inl e | Inr m \<Rightarrow> Inr (d, m))"

definition read :: "handle \<Rightarrow> bytes step" where
  "read d m = (case get_bytes d m of Inl e \<Rightarrow> Inl e | Inr bs \<Rightarrow> Inr (bs, m))"

text \<open>\<open>DataCopy\<close> from memory that is not on this heap, such as a local variable.\<close>

definition DataCopy_h :: "allocator \<Rightarrow> bytes \<Rightarrow> handle step" where
  "DataCopy_h A bs = bindM (DataNew_h A (length bs)) (\<lambda>r. write_at r 0 bs)"

definition DataCopyData_h :: "allocator \<Rightarrow> handle \<Rightarrow> handle step" where
  "DataCopyData_h A d =
     (if h_at d = 0 then (\<lambda>m. Inr (null, m))
      else bindM (DataNew_h A (h_len d)) (\<lambda>r. bindM (read d) (\<lambda>bs. write_at r 0 bs)))"

definition DataCopyDataPart_h :: "allocator \<Rightarrow> handle \<Rightarrow> nat \<Rightarrow> nat \<Rightarrow> handle step" where
  "DataCopyDataPart_h A d start n =
     bindM (DataNew_h A n) (\<lambda>r. bindM (read \<lparr>h_at = h_at d, h_len = start + n\<rparr>) (\<lambda>bs. write_at r 0 (drop start bs)))"

definition DataAddCopy_h :: "allocator \<Rightarrow> handle \<Rightarrow> handle \<Rightarrow> handle step" where
  "DataAddCopy_h A first second =
     bindM (DataNew_h A (h_len first + h_len second)) (\<lambda>r.
     bindM (read first) (\<lambda>bs. bindM (write_at r 0 bs) (\<lambda>_.
     bindM (read second) (\<lambda>bs. write_at r (h_len first) bs))))"

definition DataAppend_h :: "allocator \<Rightarrow> handle \<Rightarrow> handle \<Rightarrow> handle step" where
  "DataAppend_h A first second =
     bindM (DataResize_h A first (h_len first + h_len second)) (\<lambda>r.
     bindM (read second) (\<lambda>bs. write_at r (h_len first) bs))"

section \<open>Untracking and freeing\<close>

text \<open>
  \<open>DatasRemoveTake\<close>: the loop moves the elements behind a match down without shortening the array,
  whose last element stays where it is, and goes on behind the match.
\<close>

function remove_take_loop :: "nat \<Rightarrow> handle list \<Rightarrow> handle \<Rightarrow> nat \<Rightarrow> handle list \<times> nat" where
  "remove_take_loop i items d removed =
     (if i < length items then
        if h_at (items ! i) = h_at d
        then remove_take_loop (i + 1) (take i items @ drop (i + 1) items @ [last items]) d (removed + 1)
        else remove_take_loop (i + 1) items d removed
      else (items, removed))"
  by pat_completeness auto
termination
  by (relation "measure (\<lambda>(i, items, _, _). length items - i)") auto

declare remove_take_loop.simps [simp del]

text \<open>The array keeps its size: the length that \<open>DataResize\<close> is asked for is the one it is told.\<close>

definition DatasRemoveTake :: "handle list \<Rightarrow> handle \<Rightarrow> fault + handle list" where
  "DatasRemoveTake items d =
     (let (result, removed) = remove_take_loop 0 items d 0
      in if removed > 1 then Inl Abort else Inr (take (length items - removed) result))"

definition DataUntrack :: "handle \<Rightarrow> handle step" where
  "DataUntrack d m =
     (case stacks m of [] \<Rightarrow> Inr (d, m)
      | t # ts \<Rightarrow> (case DatasRemoveTake (t_items t) d of Inl e \<Rightarrow> Inl e
          | Inr items \<Rightarrow> Inr (d, m\<lparr>stacks := t\<lparr>t_items := items\<rparr> # ts\<rparr>)))"

definition DataFreeFlexible :: "handle \<Rightarrow> bool \<Rightarrow> handle step" where
  "DataFreeFlexible d untrack m =
     (if DataIsTracked m d > 1 then Inl Abort
      else case (if untrack then DataUntrack d m else Inr (d, m)) of Inl e \<Rightarrow> Inl e
        | Inr (_, m) \<Rightarrow>
            if untrack \<and> DataIsTracked m d \<noteq> 0 then Inl Abort
            else let m = (if h_at d \<noteq> 0 then m\<lparr>allocated := allocated m - 1\<rparr> else m) in
              case set_bytes (h_at d) 0 (replicate (h_len d) 0x55) m of Inl e \<Rightarrow> Inl e
              | Inr m \<Rightarrow> (case free_block (h_at d) m of Inl e \<Rightarrow> Inl e | Inr m \<Rightarrow> Inr (null, m)))"

definition DataFree :: "handle \<Rightarrow> handle step" where
  "DataFree d = DataFreeFlexible d True"

definition DataAdd_h :: "allocator \<Rightarrow> handle \<Rightarrow> handle \<Rightarrow> handle step" where
  "DataAdd_h A first second =
     bindM (DataAppend_h A first second) (\<lambda>r. bindM (DataFree second) (\<lambda>_ m. Inr (r, m)))"

fun free_items :: "handle list \<Rightarrow> unit step" where
  "free_items [] m = Inr ((), m)"
| "free_items (d # ds) m = (case DataFreeFlexible d False m of Inl e \<Rightarrow> Inl e | Inr (_, m) \<Rightarrow> free_items ds m)"

text \<open>\<open>DatasFreeFlexible\<close> on the current track stack, with the tracked elements.\<close>

definition DatasFreeFlexible :: "track_stack \<Rightarrow> unit step" where
  "DatasFreeFlexible t m =
     (if t_at t = 0 then Inr ((), m)
      else case free_items (t_items t) m of Inl e \<Rightarrow> Inl e
        | Inr (_, m) \<Rightarrow> (case DataFree (DatasMemory t) m of Inl e \<Rightarrow> Inl e | Inr (_, m) \<Rightarrow> Inr ((), m)))"

section \<open>Scopes\<close>

definition DataTrackPush :: "allocator \<Rightarrow> unit step" where
  "DataTrackPush A m =
     (case realloc_block A (stacks_at m) (16 * (length (stacks m) + 1)) m of Inl e \<Rightarrow> Inl e
      | Inr (a, m') \<Rightarrow>
          let m' = (if stacks_at m = 0 then m'\<lparr>allocated := allocated m' + 1\<rparr> else m')
          in Inr ((), m'\<lparr>stacks_at := a, stacks := \<lparr>t_at = 0, t_items = []\<rparr> # stacks m\<rparr>))"

definition DataTrackPop :: "allocator \<Rightarrow> unit step" where
  "DataTrackPop A m =
     (case stacks m of [] \<Rightarrow> Inl Abort
      | t # ts \<Rightarrow>
          (case DatasFreeFlexible t m of Inl e \<Rightarrow> Inl e
           | Inr (_, m) \<Rightarrow>
               let m = m\<lparr>stacks := ts\<rparr> in
               if stacks_at m = 0 then Inl Abort
               else if ts = [] then
                 (case free_block (stacks_at m) (m\<lparr>allocated := allocated m - 1\<rparr>) of Inl e \<Rightarrow> Inl e
                  | Inr m \<Rightarrow> Inr ((), m\<lparr>stacks_at := 0\<rparr>))
               else (case realloc_block A (stacks_at m) (16 * length ts) m of Inl e \<Rightarrow> Inl e
                 | Inr (a, m) \<Rightarrow> Inr ((), m\<lparr>stacks_at := a\<rparr>))))"

definition DataTrackCount :: "mem \<Rightarrow> nat" where
  "DataTrackCount m = (case stacks m of [] \<Rightarrow> 0 | t # ts \<Rightarrow> length (t_items t))"

definition DTPush :: "allocator \<Rightarrow> handle \<Rightarrow> handle step" where
  "DTPush A d = bindM (DataTrackPush A) (\<lambda>_ m. Inr (d, m))"

definition DTPop :: "allocator \<Rightarrow> handle \<Rightarrow> handle step" where
  "DTPop A d = bindM (DataUntrack d) (\<lambda>_. bindM (DataTrackPop A) (\<lambda>_. bindM (DataTrack A d) (\<lambda>_ m. Inr (d, m))))"

definition DTPopi :: "allocator \<Rightarrow> int \<Rightarrow> int step" where
  "DTPopi A v = bindM (DataTrackPop A) (\<lambda>_ m. Inr (v, m))"

definition DTPopNull :: "allocator \<Rightarrow> handle step" where
  "DTPopNull A = bindM (DataTrackPop A) (\<lambda>_ m. Inr (null, m))"

definition DataUntrackCopy :: "allocator \<Rightarrow> handle \<Rightarrow> handle step" where
  "DataUntrackCopy A d = bindM (DataCopyData_h A d) DataUntrack"

text \<open>A function body between push and pop.\<close>

definition scoped :: "allocator \<Rightarrow> handle step \<Rightarrow> handle step" where
  "scoped A f = bindM (DataTrackPush A) (\<lambda>_. bindM f (DTPop A))"

end
