(* ===== verification/Memory_Props.thy ===== *)
theory Memory_Props
  imports Memory
begin

text \<open>
  What a scope keeps: tracked buffers are live and distinct, the count of allocations is right, and
  a function between push and pop leaves nothing behind but its result.
\<close>

section \<open>Well-formed memory\<close>

definition good_allocator :: "allocator \<Rightarrow> bool" where
  "good_allocator A \<longleftrightarrow> (\<forall>used. fresh A used \<notin> set used \<and> fresh A used \<noteq> 0)"

definition opt_addr :: "addr \<Rightarrow> addr list" where
  "opt_addr a = (if a = 0 then [] else [a])"

definition owned_by :: "track_stack \<Rightarrow> addr list" where
  "owned_by t = opt_addr (t_at t) @ map h_at (t_items t)"

definition owned :: "mem \<Rightarrow> addr list" where
  "owned m = opt_addr (stacks_at m) @ concat (map owned_by (stacks m))"

definition arrays :: "mem \<Rightarrow> addr set" where
  "arrays m = set (opt_addr (stacks_at m)) \<union> (\<Union>t \<in> set (stacks m). set (opt_addr (t_at t)))"

definition stack_ok :: "mem \<Rightarrow> track_stack \<Rightarrow> bool" where
  "stack_ok m t \<longleftrightarrow> (t_at t = 0 \<longrightarrow> t_items t = [])
     \<and> (t_at t \<noteq> 0 \<longrightarrow> (\<exists>bs. block m (t_at t) = Some bs \<and> 16 * length (t_items t) \<le> length bs))
     \<and> (\<forall>d \<in> set (t_items t). \<exists>bs. block m (h_at d) = Some bs \<and> h_len d \<le> length bs)"

definition mem_ok :: "mem \<Rightarrow> bool" where
  "mem_ok m \<longleftrightarrow> distinct (addrs m) \<and> 0 \<notin> set (addrs m)
     \<and> distinct (owned m) \<and> set (owned m) \<subseteq> set (addrs m)
     \<and> (\<forall>t \<in> set (stacks m). stack_ok m t)
     \<and> (stacks_at m = 0 \<longleftrightarrow> stacks m = [])
     \<and> (\<exists>bs. stacks_at m \<noteq> 0 \<longrightarrow> block m (stacks_at m) = Some bs)
     \<and> allocated m = int (length (heap m))"

text \<open>The blocks that hold data, and those that the current scope does not own.\<close>

definition data_blocks :: "mem \<Rightarrow> addr \<rightharpoonup> bytes" where
  "data_blocks m = block m |` (- arrays m)"

definition current :: "mem \<Rightarrow> addr set" where
  "current m = (case stacks m of [] \<Rightarrow> {} | t # ts \<Rightarrow> h_at ` set (t_items t))"

definition kept :: "mem \<Rightarrow> addr \<rightharpoonup> bytes" where
  "kept m = data_blocks m |` (- current m)"

section \<open>Blocks\<close>

lemma addrs_put [simp]: "addrs (put_block a bs m) = a # filter (\<lambda>b. b \<noteq> a) (addrs m)"
  by (simp add: addrs_def put_block_def filter_map comp_def)

lemma addrs_drop [simp]: "addrs (drop_block a m) = filter (\<lambda>b. b \<noteq> a) (addrs m)"
  by (simp add: addrs_def drop_block_def filter_map comp_def)

lemma map_of_filter_ne: "map_of (filter (\<lambda>p. fst p \<noteq> a) h) = (map_of h)(a := None)"
  by (induction h) auto

lemma block_put [simp]: "block (put_block a bs m) = (block m)(a \<mapsto> bs)"
  by (simp add: block_def put_block_def map_of_filter_ne fun_eq_iff)

lemma block_drop [simp]: "block (drop_block a m) = (block m)(a := None)"
  by (simp add: block_def drop_block_def map_of_filter_ne fun_eq_iff)

lemma put_drop_other [simp]:
  "stacks (put_block a bs m) = stacks m" "stacks_at (put_block a bs m) = stacks_at m" "allocated (put_block a bs m) = allocated m"
  "stacks (drop_block a m) = stacks m" "stacks_at (drop_block a m) = stacks_at m" "allocated (drop_block a m) = allocated m"
  by (simp_all add: put_block_def drop_block_def)

lemma block_dom: "block m a \<noteq> None \<longleftrightarrow> a \<in> set (addrs m)"
  by (simp add: block_def addrs_def map_of_eq_None_iff)

lemma block_update [simp]:
  "block (m\<lparr>allocated := n\<rparr>) = block m" "block (m\<lparr>stacks := ss\<rparr>) = block m" "block (m\<lparr>stacks_at := a\<rparr>) = block m"
  "addrs (m\<lparr>allocated := n\<rparr>) = addrs m" "addrs (m\<lparr>stacks := ss\<rparr>) = addrs m" "addrs (m\<lparr>stacks_at := a\<rparr>) = addrs m"
  by (simp_all add: block_def addrs_def fun_eq_iff)

lemma length_heap: "length (heap m) = length (addrs m)"
  by (simp add: addrs_def)

lemma distinct_remove1_length: "distinct xs \<Longrightarrow> a \<in> set xs \<Longrightarrow> length (filter (\<lambda>b. b \<noteq> a) xs) + 1 = length xs"
proof (induction xs)
  case (Cons x xs)
  then have "a = x \<Longrightarrow> filter (\<lambda>b. b \<noteq> a) xs = xs" by (auto simp: filter_id_conv)
  then show ?case using Cons by auto
qed simp

text \<open>Resizing an array of the tracker or making it.\<close>

lemma realloc_array:
  assumes "good_allocator A" "a = 0 \<or> block m a \<noteq> None" "distinct (addrs m)" "0 \<notin> set (addrs m)"
  obtains b new m' where "realloc_block A a n m = Inr (b, m')" "block m' = (block m)(a := None, b \<mapsto> new)" "length new = n"
    "b \<noteq> 0" "b = a \<or> b \<notin> set (addrs m)" "distinct (addrs m')" "set (addrs m') = insert b (set (addrs m) - {a})"
    "stacks m' = stacks m" "stacks_at m' = stacks_at m" "allocated m' = allocated m"
    "length (addrs m') = length (addrs m) + (if a = 0 then 1 else 0)"
proof -
  let ?f = "fresh A (addrs m)"
  have f: "?f \<notin> set (addrs m)" "?f \<noteq> 0" using assms(1) by (simp_all add: good_allocator_def)
  have ff: "filter (\<lambda>b. b \<noteq> ?f) (addrs m) = addrs m" using f(1) by (auto simp: filter_id_conv)
  show thesis
  proof (cases "a = 0")
    case True
    have "block m 0 = None" using assms(4) block_dom by blast
    then show thesis
      using True f ff assms(3,4) by (intro that [of ?f "put_block ?f (replicate n 0) m" "replicate n 0"])
        (auto simp: realloc_block_def Let_def fun_upd_idem_iff)
  next
    case False
    then obtain bs where bs: "block m a = Some bs" using assms(2) by blast
    have a: "a \<in> set (addrs m)" using bs block_dom by fastforce
    let ?new = "take n bs @ replicate (n - length bs) 0"
    have l: "length (filter (\<lambda>b. b \<noteq> a) (addrs m)) + 1 = length (addrs m)" by (rule distinct_remove1_length [OF assms(3) a])
    show thesis
    proof (cases "stays A (addrs m) a n")
      case True
      then show thesis using False bs a l assms(3)
        by (intro that [of a "put_block a ?new m" ?new]) (auto simp: realloc_block_def Let_def)
    next
      case Stay: False
      have ff': "filter (\<lambda>b. b \<noteq> ?f) (filter (\<lambda>b. b \<noteq> a) (addrs m)) = filter (\<lambda>b. b \<noteq> a) (addrs m)"
        using f(1) unfolding filter_filter by (intro filter_cong) auto
      show thesis using False Stay bs f a l ff' assms(3)
        by (intro that [of ?f "put_block ?f ?new (drop_block a m)" ?new]) (auto simp: realloc_block_def Let_def)
    qed
  qed
qed

section \<open>Tracking\<close>

lemma has_data_0: "DatasHasData items d = 0 \<longleftrightarrow> h_at d \<notin> h_at ` set items"
  by (simp add: DatasHasData_def filter_empty_conv image_iff) metis

lemma owned_Cons: "stacks m = t # ts \<Longrightarrow>
    owned m = opt_addr (stacks_at m) @ opt_addr (t_at t) @ map h_at (t_items t) @ concat (map owned_by ts)"
  by (simp add: owned_def owned_by_def)

lemma stack_ok_cong:
  "stack_ok m t \<Longrightarrow> (\<And>a. a \<in> set (owned_by t) \<Longrightarrow> block m' a = block m a) \<Longrightarrow> stack_ok m' t"
  by (auto simp: stack_ok_def owned_by_def opt_addr_def)

lemma mem_okD:
  assumes "mem_ok m"
  shows "distinct (addrs m)" "0 \<notin> set (addrs m)" "distinct (owned m)" "set (owned m) \<subseteq> set (addrs m)"
    "t \<in> set (stacks m) \<Longrightarrow> stack_ok m t" "stacks_at m = 0 \<longleftrightarrow> stacks m = []" "allocated m = int (length (addrs m))"
    "block m 0 = None"
  using assms block_dom [of m 0] by (simp_all add: mem_ok_def length_heap)

text \<open>
  Tracking a live buffer that nothing owns: the array of the current stack may move, the data blocks
  stay.
\<close>

lemma set_bytes_fresh:
  assumes "block m a = Some bs" "length bs = n" "k < n"
  shows "\<exists>new. set_bytes a k (replicate (n - k) w) m = Inr (put_block a new m) \<and> length new = n \<and> take k new = take k bs"
  using assms by (intro exI [of _ "take k bs @ replicate (n - k) w"]) (simp add: set_bytes_def)

lemma add_entry_works:
  assumes A: "good_allocator A" and ok: "distinct (addrs m)" "0 \<notin> set (addrs m)" "stack_ok m t" "t_at t \<noteq> 0 \<longrightarrow> block m (t_at t) \<noteq> None"
    and new: "h_at d \<notin> h_at ` set (t_items t)"
  obtains b arr m' where "add_entry A t d m = Inr (\<lparr>t_at = b, t_items = t_items t @ [d]\<rparr>, m')"
    "block m' = (block m)(t_at t := None, b \<mapsto> arr)" "length arr = 16 * (length (t_items t) + 1)" "b \<noteq> 0"
    "b = t_at t \<or> b \<notin> set (addrs m)" "distinct (addrs m')" "set (addrs m') = insert b (set (addrs m) - {t_at t})"
    "stacks m' = stacks m" "stacks_at m' = stacks_at m"
    "allocated m' - int (length (addrs m')) = allocated m - int (length (addrs m))"
proof -
  let ?n = "16 * (length (t_items t) + 1)" and ?k = "16 * length (t_items t)"
  have z: "t_at t = 0 \<or> block m (t_at t) \<noteq> None" using ok(4) by blast
  obtain b bs m1 where r: "realloc_block A (t_at t) ?n m = Inr (b, m1)" "block m1 = (block m)(t_at t := None, b \<mapsto> bs)" "length bs = ?n"
      "b \<noteq> 0" "b = t_at t \<or> b \<notin> set (addrs m)" "distinct (addrs m1)" "set (addrs m1) = insert b (set (addrs m) - {t_at t})"
      "stacks m1 = stacks m" "stacks_at m1 = stacks_at m" "allocated m1 = allocated m"
      "length (addrs m1) = length (addrs m) + (if t_at t = 0 then 1 else 0)"
    by (rule realloc_array [OF A z ok(1,2)])
  let ?m1 = "if t_at t = 0 then m1\<lparr>allocated := allocated m1 + 1\<rparr> else m1"
  have bs: "block ?m1 b = Some bs" using r(2) by simp
  have kn: "?k < ?n" by simp
  obtain arr where arr: "set_bytes b ?k (replicate (?n - ?k) 0x66) ?m1 = Inr (put_block b arr ?m1)" "length arr = ?n"
    using set_bytes_fresh [OF bs r(3) kn] by blast
  have e: "add_entry A t d m = Inr (\<lparr>t_at = b, t_items = t_items t @ [d]\<rparr>, put_block b arr ?m1)"
    using new r(1) arr(1) by (simp add: add_entry_def has_data_0 resize_block_def DatasMemory_def Let_def)
  have len: "length (filter (\<lambda>x. x \<noteq> b) (addrs m1)) + 1 = length (addrs m1)"
    using r(6,7) by (intro distinct_remove1_length) simp_all
  show thesis
    by (rule that [OF e, of arr]) (use r arr(2) len in \<open>auto split: if_splits\<close>)
qed

text \<open>What replacing the array of the current stack leaves alone.\<close>

lemma arrays_Cons: "stacks m = t # ts \<Longrightarrow>
    arrays m = set (opt_addr (stacks_at m)) \<union> set (opt_addr (t_at t)) \<union> (\<Union>t \<in> set ts. set (opt_addr (t_at t)))"
  by (auto simp: arrays_def)

lemma arrays_owned: "arrays m \<subseteq> set (owned m)"
  by (auto simp: arrays_def owned_def owned_by_def)

lemma data_blocks_moved:
  assumes "block m' = (block m)(a := None, b := arr)" "arrays m = S \<union> set (opt_addr a)" "arrays m' = S \<union> set (opt_addr b)"
    and "b = a \<or> block m b = None" "block m 0 = None" "b \<noteq> 0" "a \<notin> S" "b \<notin> S"
  shows "data_blocks m' = data_blocks m"
  using assms by (intro ext) (auto simp: data_blocks_def restrict_map_def opt_addr_def)

lemma DataTrack_works:
  assumes A: "good_allocator A" and ok: "mem_ok m" and st: "stacks m = t # ts"
    and d: "block m (h_at d) = Some bs" "length bs = h_len d" "h_at d \<notin> set (owned m)"
  obtains m' b where "DataTrack A d m = Inr (d, m')" "mem_ok m'" "stacks m' = \<lparr>t_at = b, t_items = t_items t @ [d]\<rparr> # ts"
    "data_blocks m' = data_blocks m" "stacks_at m' = stacks_at m" "block m' (h_at d) = Some bs" "b \<noteq> 0"
proof -
  note m = mem_okD [OF ok]
  have t: "stack_ok m t" using m(5) st by simp
  have d0: "h_at d \<noteq> 0" using d(1) m(8) by (metis option.distinct(1))
  have new: "h_at d \<notin> h_at ` set (t_items t)" using d(3) by (auto simp: owned_Cons [OF st])
  have z: "t_at t \<noteq> 0 \<longrightarrow> block m (t_at t) \<noteq> None" using t by (auto simp: stack_ok_def)
  obtain b arr m1 where e: "add_entry A t d m = Inr (\<lparr>t_at = b, t_items = t_items t @ [d]\<rparr>, m1)"
    "block m1 = (block m)(t_at t := None, b \<mapsto> arr)" "length arr = 16 * (length (t_items t) + 1)" "b \<noteq> 0"
    "b = t_at t \<or> b \<notin> set (addrs m)" "distinct (addrs m1)" "set (addrs m1) = insert b (set (addrs m) - {t_at t})"
    "stacks m1 = stacks m" "stacks_at m1 = stacks_at m"
    "allocated m1 - int (length (addrs m1)) = allocated m - int (length (addrs m))"
    by (rule add_entry_works [OF A m(1,2) t z new])
  let ?t = "\<lparr>t_at = b, t_items = t_items t @ [d]\<rparr>" and ?m = "m1\<lparr>stacks := \<lparr>t_at = b, t_items = t_items t @ [d]\<rparr> # ts\<rparr>"
  have tr: "DataTrack A d m = Inr (d, ?m)" using d0 st new e(1) by (simp add: DataTrack_def has_data_0)
  have bo: "b = t_at t \<or> b \<notin> set (owned m)" using e(5) m(4) by blast
  note oc = owned_Cons [OF st]
  have dist: "distinct (owned m)" "set (owned m) \<subseteq> set (addrs m)" by (rule m)+
  have db: "b \<noteq> h_at d" using e(5) d(1,3) block_dom [of m "h_at d"] z oc e(4) by (auto simp: opt_addr_def)
  have own: "owned ?m = opt_addr (stacks_at m) @ [b] @ map h_at (t_items t) @ [h_at d] @ concat (map owned_by ts)"
    using e(4,9) by (simp add: owned_def owned_by_def opt_addr_def)
  have tat: "t_at t \<noteq> 0 \<Longrightarrow> t_at t \<notin> set (opt_addr (stacks_at m)) \<union> h_at ` set (t_items t) \<union> set (concat (map owned_by ts))"
    using dist(1) unfolding oc by (auto simp: opt_addr_def)
  have bn: "b \<notin> set (opt_addr (stacks_at m)) \<union> h_at ` set (t_items t) \<union> set (concat (map owned_by ts))"
    using bo tat e(4) unfolding oc by auto
  have same: "block m1 a = block m a" if "a \<in> set (opt_addr (stacks_at m)) \<union> h_at ` set (t_items t) \<union> set (concat (map owned_by ts))" for a
  proof -
    have "a \<noteq> b" "t_at t = 0 \<or> a \<noteq> t_at t" using that bn tat by blast+
    then show ?thesis using e(2) m(8) by (cases "a = t_at t") simp_all
  qed
  have R: "a \<in> set (addrs m) \<and> a \<noteq> t_at t \<and> a \<noteq> b"
    if "a \<in> set (opt_addr (stacks_at m)) \<union> h_at ` set (t_items t) \<union> set (concat (map owned_by ts))" for a
  proof (intro conjI)
    show i: "a \<in> set (addrs m)" using that dist(2) unfolding oc by auto
    show "a \<noteq> t_at t"
    proof
      assume eq: "a = t_at t"
      then have "t_at t \<noteq> 0" using i m(2) by metis
      from tat [OF this] that eq show False by simp
    qed
    show "a \<noteq> b" using that bn by blast
  qed
  have "t_at t \<noteq> 0 \<Longrightarrow> t_at t \<in> set (owned m)" by (simp add: oc opt_addr_def)
  then have dt: "h_at d \<noteq> t_at t" using d0 d(3) by metis
  then have bd: "block m1 (h_at d) = Some bs" using e(2) db d(1) by simp
  have da: "h_at d \<in> set (addrs m)" using d(1) block_dom [of m "h_at d"] by simp
  have "stack_ok ?m ?t"
    using t same bd e(2,3,4) d(2) by (auto simp: stack_ok_def)
  moreover have "stack_ok ?m t'" if "t' \<in> set ts" for t'
    using m(5) [of t'] st that same by (intro stack_ok_cong [of m t' ?m]) auto
  moreover have "distinct (owned ?m)" using dist(1) bn d(3) db unfolding own oc by auto
  moreover have sub: "set (owned ?m) \<subseteq> set (addrs ?m)"
  proof
    fix a assume "a \<in> set (owned ?m)"
    then consider "a = b" | "a = h_at d" | "a \<in> set (opt_addr (stacks_at m)) \<union> h_at ` set (t_items t) \<union> set (concat (map owned_by ts))"
      unfolding own by auto
    then show "a \<in> set (addrs ?m)" using R [of a] da dt e(7) by cases simp_all
  qed
  moreover have "0 \<notin> set (addrs ?m)" using e(4,7) m(2) by auto
  moreover have "stacks_at m \<noteq> 0" using m(6) st by simp
  moreover have "\<exists>bs. block ?m (stacks_at m) = Some bs"
    using sub \<open>stacks_at m \<noteq> 0\<close> block_dom [of ?m "stacks_at m"] by (simp add: own opt_addr_def del: block_update)
  ultimately have ok': "mem_ok ?m"
    using e(6,9,10) m(7) by (auto simp: mem_ok_def length_heap)
  let ?S = "set (opt_addr (stacks_at m)) \<union> (\<Union>t \<in> set ts. set (opt_addr (t_at t)))"
  have S: "?S \<subseteq> set (opt_addr (stacks_at m)) \<union> h_at ` set (t_items t) \<union> set (concat (map owned_by ts))"
    by (auto simp: owned_by_def)
  have ma: "arrays ?m = ?S \<union> set (opt_addr b)" using e(9) by (auto simp: arrays_def)
  have ta: "t_at t \<notin> ?S" and tb: "b \<notin> ?S" using S R by blast+
  have eb: "b = t_at t \<or> block m b = None" using e(5) block_dom [of m b] by blast
  have arr: "data_blocks ?m = data_blocks m"
    by (rule data_blocks_moved [of ?m m "t_at t" b "Some arr" ?S, OF _ _ ma eb m(8) e(4) ta tb])
      (use e(2) arrays_Cons [OF st] in auto)
  show thesis by (rule that [OF tr ok' _ arr]) (use e(4,9) bd in simp_all)
qed

section \<open>Blocks that nothing owns\<close>

text \<open>Changes of the heap that keep every block of the tracker and its length.\<close>

lemma stack_ok_lengths:
  assumes t: "stack_ok m t"
    and bl: "\<And>a bs. a \<in> set (owned_by t) \<Longrightarrow> block m a = Some bs \<Longrightarrow> \<exists>new. block m' a = Some new \<and> length bs \<le> length new"
  shows "stack_ok m' t"
  unfolding stack_ok_def
proof (intro conjI impI ballI)
  show "t_items t = []" if "t_at t = 0" using t that by (simp add: stack_ok_def)
next
  assume nz: "t_at t \<noteq> 0"
  then obtain bs where bs: "block m (t_at t) = Some bs" "16 * length (t_items t) \<le> length bs" using t by (auto simp: stack_ok_def)
  have "t_at t \<in> set (owned_by t)" using nz by (simp add: owned_by_def opt_addr_def)
  from bl [OF this bs(1)] bs(2) show "\<exists>bs. block m' (t_at t) = Some bs \<and> 16 * length (t_items t) \<le> length bs" by auto
next
  fix d assume d: "d \<in> set (t_items t)"
  then obtain bs where bs: "block m (h_at d) = Some bs" "h_len d \<le> length bs" using t by (auto simp: stack_ok_def)
  have "h_at d \<in> set (owned_by t)" using d by (simp add: owned_by_def)
  from bl [OF this bs(1)] bs(2) show "\<exists>bs. block m' (h_at d) = Some bs \<and> h_len d \<le> length bs" by auto
qed

lemma mem_ok_heap:
  assumes ok: "mem_ok m" and st: "stacks m' = stacks m" "stacks_at m' = stacks_at m"
    and ad: "distinct (addrs m')" "0 \<notin> set (addrs m')" "allocated m' = int (length (addrs m'))"
    and bl: "\<And>a bs. a \<in> set (owned m) \<Longrightarrow> block m a = Some bs \<Longrightarrow> \<exists>new. block m' a = Some new \<and> length bs \<le> length new"
  shows "mem_ok m'"
proof -
  note m = mem_okD [OF ok]
  have own: "owned m' = owned m" using st by (simp add: owned_def)
  have sub: "set (owned m) \<subseteq> set (addrs m')"
  proof
    fix a assume a: "a \<in> set (owned m)"
    then obtain bs where "block m a = Some bs" using m(4) block_dom [of m a] by blast
    from bl [OF a this] show "a \<in> set (addrs m')" using block_dom [of m' a] by auto
  qed
  have "stack_ok m' t" if t: "t \<in> set (stacks m)" for t
  proof (rule stack_ok_lengths [OF m(5) [OF t]])
    fix a bs assume "a \<in> set (owned_by t)" "block m a = Some bs"
    moreover from this(1) have "a \<in> set (owned m)" using t by (auto simp: owned_def)
    ultimately show "\<exists>new. block m' a = Some new \<and> length bs \<le> length new" using bl by blast
  qed
  moreover have "\<exists>bs. stacks_at m \<noteq> 0 \<longrightarrow> block m' (stacks_at m) = Some bs"
    using sub block_dom [of m' "stacks_at m"] by (auto simp: owned_def opt_addr_def)
  ultimately show ?thesis using m ad st own sub by (simp add: mem_ok_def length_heap)
qed

lemma arrays_same: "stacks m' = stacks m \<Longrightarrow> stacks_at m' = stacks_at m \<Longrightarrow> arrays m' = arrays m"
  by (simp add: arrays_def)

lemma data_blocks_Some: "data_blocks m a = Some bs \<longleftrightarrow> block m a = Some bs \<and> a \<notin> arrays m"
  by (auto simp: data_blocks_def restrict_map_def)

lemma set_bytes_works:
  assumes ok: "mem_ok m" and d: "data_blocks m a = Some old" "i + length bs \<le> length old"
  shows "\<exists>m'. set_bytes a i bs m = Inr m' \<and> mem_ok m' \<and> stacks m' = stacks m
     \<and> data_blocks m' = (data_blocks m)(a \<mapsto> take i old @ bs @ drop (i + length bs) old)"
proof (cases "bs = []")
  case True
  then show ?thesis using ok d by (auto simp: set_bytes_def fun_upd_idem_iff)
next
  case False
  let ?new = "take i old @ bs @ drop (i + length bs) old" and ?m = "put_block a (take i old @ bs @ drop (i + length bs) old) m"
  note m = mem_okD [OF ok]
  have b: "block m a = Some old" "a \<notin> arrays m" using d(1) by (simp_all add: data_blocks_Some)
  have a: "a \<in> set (addrs m)" using b block_dom [of m a] by simp
  have len: "length (filter (\<lambda>b. b \<noteq> a) (addrs m)) + 1 = length (addrs m)" by (rule distinct_remove1_length [OF m(1) a])
  have a0: "a \<noteq> 0" using a m(2) by metis
  have len': "1 + int (length (filter (\<lambda>b. b \<noteq> a) (addrs m))) = int (length (addrs m))" using len by linarith
  have "set_bytes a i bs m = Inr ?m" using False b d(2) by (simp add: set_bytes_def)
  moreover have "mem_ok ?m"
    by (rule mem_ok_heap [OF ok]) (use m a a0 b d(2) len' in auto)
  moreover have "data_blocks ?m = (data_blocks m)(a \<mapsto> ?new)"
    using b arrays_same [of ?m m] by (auto simp: data_blocks_def restrict_map_def)
  ultimately show ?thesis by simp
qed

lemma get_bytes_works: "data_blocks m (h_at d) = Some bs \<Longrightarrow> length bs = h_len d \<Longrightarrow> get_bytes d m = Inr bs"
  by (auto simp: get_bytes_def data_blocks_Some)

lemma fresh_block_works:
  fixes bs :: bytes
  assumes A: "good_allocator A" and ok: "mem_ok m"
  defines "a \<equiv> fresh A (addrs m)"
  defines "m' \<equiv> (put_block a bs m)\<lparr>allocated := allocated m + 1\<rparr>"
  shows "mem_ok m'" "stacks m' = stacks m" "data_blocks m' = (data_blocks m)(a \<mapsto> bs)" "a \<notin> set (owned m)" "data_blocks m a = None"
    "a \<noteq> 0"
proof -
  note m = mem_okD [OF ok]
  have a: "a \<notin> set (addrs m)" "a \<noteq> 0" using A by (simp_all add: good_allocator_def a_def)
  show o: "a \<notin> set (owned m)" using a(1) m(4) by blast
  show "stacks m' = stacks m" by (simp add: m'_def)
  have f: "filter (\<lambda>b. b \<noteq> a) (addrs m) = addrs m" using a(1) by (auto simp: filter_id_conv)
  show "mem_ok m'"
    by (rule mem_ok_heap [OF ok]) (use m a o f in \<open>auto simp: m'_def\<close>)
  show "data_blocks m' = (data_blocks m)(a \<mapsto> bs)"
    using o arrays_owned [of m] arrays_same [of m' m] by (auto simp: data_blocks_def restrict_map_def m'_def fun_eq_iff)
  show "data_blocks m a = None" using a(1) block_dom [of m a] by (auto simp: data_blocks_def restrict_map_def)
  show "a \<noteq> 0" by (rule a(2))
qed

lemma free_block_works:
  assumes ok: "mem_ok m" and d: "block m a \<noteq> None" "a \<notin> set (owned m)"
  defines "m' \<equiv> (drop_block a m)\<lparr>allocated := allocated m - 1\<rparr>"
  shows "mem_ok m'" "data_blocks m' = (data_blocks m)(a := None)"
proof -
  note m = mem_okD [OF ok]
  have a: "a \<in> set (addrs m)" using d(1) block_dom by blast
  have len: "length (filter (\<lambda>b. b \<noteq> a) (addrs m)) + 1 = length (addrs m)" by (rule distinct_remove1_length [OF m(1) a])
  have len': "int (length (filter (\<lambda>b. b \<noteq> a) (addrs m))) = allocated m - 1" using len m(7) by simp
  show "mem_ok m'"
    by (rule mem_ok_heap [OF ok]) (use m a d len' in \<open>auto simp: m'_def\<close>)
  show "data_blocks m' = (data_blocks m)(a := None)"
    using arrays_same [of m' m] by (auto simp: data_blocks_def restrict_map_def m'_def)
qed

text \<open>\<open>DatasRemoveTake\<close> removes the only entry of a buffer, and nothing when there is none.\<close>

lemma remove_take_none:
  assumes "\<forall>j. i \<le> j \<and> j < length items \<longrightarrow> h_at (items ! j) \<noteq> h_at d"
  shows "remove_take_loop i items d removed = (items, removed)"
  using assms
proof (induction i items d removed rule: remove_take_loop.induct)
  case (1 i items d removed)
  then show ?case by (subst remove_take_loop.simps) auto
qed

lemma remove_take_one:
  assumes "items = xs @ e # ys" "h_at e = h_at d" "h_at d \<notin> h_at ` set xs" "h_at d \<notin> h_at ` set ys" "i \<le> length xs"
  shows "remove_take_loop i items d 0 = (xs @ ys @ [last items], 1)"
  using assms
proof (induction "length xs - i" arbitrary: i)
  case 0
  then have i: "i = length xs" by simp
  let ?n = "xs @ ys @ [last items]"
  have n: "take i items @ drop (i + 1) items @ [last items] = ?n" using 0 i by simp
  have "remove_take_loop i items d 0 = remove_take_loop (i + 1) ?n d 1"
    using 0 i n by (subst remove_take_loop.simps) (auto simp: nth_append)
  also have "\<dots> = (?n, 1)"
  proof (rule remove_take_none, intro allI impI)
    fix j assume j: "i + 1 \<le> j \<and> j < length ?n"
    have l: "last items \<in> set (e # ys)" using 0 by simp
    show "h_at (?n ! j) \<noteq> h_at d"
    proof (cases "ys = []")
      case True
      then show ?thesis using j i by auto
    next
      case False
      then have ll: "last items = last ys" using 0 by simp
      have "?n ! j \<in> set ys"
        using j i False by (auto simp: nth_append ll)
      then show ?thesis using 0 by (metis imageI)
    qed
  qed
  finally show ?case .
next
  case (Suc k)
  then have "i < length xs" by linarith
  then have "items ! i \<in> set xs" using Suc.prems by (simp add: nth_append)
  then have "h_at (items ! i) \<noteq> h_at d" using Suc by (metis image_eqI)
  then have "remove_take_loop i items d 0 = remove_take_loop (i + 1) items d 0"
    using Suc by (subst remove_take_loop.simps) (auto simp: nth_append)
  then show ?case using Suc by simp
qed

lemma without_ne: "h_at d \<notin> h_at ` set xs \<Longrightarrow> filter (\<lambda>x. h_at x \<noteq> h_at d) xs = xs"
  unfolding filter_id_conv by (metis image_eqI)

lemma DatasRemoveTake_works:
  assumes "distinct (map h_at items)"
  shows "DatasRemoveTake items d = Inr (filter (\<lambda>x. h_at x \<noteq> h_at d) items)"
proof (cases "h_at d \<in> h_at ` set items")
  case False
  have "remove_take_loop 0 items d 0 = (items, 0)"
    using False by (intro remove_take_none) (metis image_eqI nth_mem)
  moreover have "filter (\<lambda>x. h_at x \<noteq> h_at d) items = items" by (rule without_ne [OF False])
  ultimately show ?thesis by (simp add: DatasRemoveTake_def)
next
  case True
  then obtain e where e: "e \<in> set items" "h_at e = h_at d" by auto
  obtain xs ys where s: "items = xs @ e # ys" using split_list [OF e(1)] by blast
  have n: "h_at d \<notin> h_at ` set xs" "h_at d \<notin> h_at ` set ys" using assms e(2) by (auto simp: s)
  have "remove_take_loop 0 items d 0 = (xs @ ys @ [last items], 1)" by (rule remove_take_one [OF s e(2) n]) simp
  moreover have "filter (\<lambda>x. h_at x \<noteq> h_at d) xs = xs" "filter (\<lambda>x. h_at x \<noteq> h_at d) ys = ys"
    by (rule without_ne [OF n(1)], rule without_ne [OF n(2)])
  ultimately show ?thesis using e(2) by (simp add: DatasRemoveTake_def s)
qed

section \<open>A concrete memory\<close>

text \<open>An allocator that takes the address after the highest one in use and grows and shrinks in place.\<close>

definition bump :: allocator where
  "bump = \<lparr>fresh = (\<lambda>used. foldr max used 0 + 1), stays = (\<lambda>_ _ _. True)\<rparr>"

lemma foldr_max: "a \<in> set used \<Longrightarrow> a \<le> foldr max used (0 :: nat)"
  by (induction used) (auto simp: max_def)

lemma good_bump: "good_allocator bump"
proof -
  have "foldr max used 0 + 1 \<notin> set used" for used :: "nat list"
    using foldr_max [of "foldr max used 0 + 1" used] by auto
  then show ?thesis by (simp add: good_allocator_def bump_def)
qed

definition empty_mem :: mem where
  "empty_mem = \<lparr>heap = [], allocated = 0, stacks_at = 0, stacks = []\<rparr>"

lemma empty_mem_ok: "mem_ok empty_mem"
  by (simp add: mem_ok_def empty_mem_def addrs_def owned_def opt_addr_def)

end
