(* ===== verification/Memory_Scopes.thy ===== *)
theory Memory_Scopes
  imports Memory_Props
begin

text \<open>
  Pushing and popping the track stacks: what leaving a scope frees, and what a function between push
  and pop leaves behind.
\<close>

section \<open>Opening a scope\<close>

lemma DataTrackPush_works:
  assumes A: "good_allocator A" and ok: "mem_ok m"
  obtains m' where "DataTrackPush A m = Inr ((), m')" "mem_ok m'" "stacks m' = \<lparr>t_at = 0, t_items = []\<rparr> # stacks m"
    "data_blocks m' = data_blocks m"
proof -
  note m = mem_okD [OF ok]
  have z: "stacks_at m = 0 \<or> block m (stacks_at m) \<noteq> None" using ok by (auto simp: mem_ok_def)
  obtain b bs m1 where r: "realloc_block A (stacks_at m) (16 * (length (stacks m) + 1)) m = Inr (b, m1)"
    "block m1 = (block m)(stacks_at m := None, b \<mapsto> bs)" "length bs = 16 * (length (stacks m) + 1)"
    "b \<noteq> 0" "b = stacks_at m \<or> b \<notin> set (addrs m)" "distinct (addrs m1)" "set (addrs m1) = insert b (set (addrs m) - {stacks_at m})"
    "stacks m1 = stacks m" "stacks_at m1 = stacks_at m" "allocated m1 = allocated m"
    "length (addrs m1) = length (addrs m) + (if stacks_at m = 0 then 1 else 0)"
    by (rule realloc_array [OF A z m(1,2)])
  let ?t = "\<lparr>t_at = 0, t_items = []\<rparr>"
  define m2 where "m2 = (if stacks_at m = 0 then m1\<lparr>allocated := allocated m1 + 1\<rparr> else m1)\<lparr>stacks_at := b, stacks := ?t # stacks m\<rparr>"
  have e: "DataTrackPush A m = Inr ((), m2)" using r(1) by (simp add: DataTrackPush_def m2_def Let_def)
  have f: "stacks m2 = ?t # stacks m" "stacks_at m2 = b" "block m2 = block m1" "addrs m2 = addrs m1"
    "allocated m2 = int (length (addrs m2))"
    using r(10,11) m(7) by (simp_all add: m2_def)
  let ?R = "set (concat (map owned_by (stacks m)))"
  have o: "owned m = opt_addr (stacks_at m) @ concat (map owned_by (stacks m))" by (simp add: owned_def)
  have o2: "owned m2 = b # concat (map owned_by (stacks m))" using r(4) f by (simp add: owned_def owned_by_def opt_addr_def)
  have R: "a \<in> set (addrs m) \<and> a \<noteq> stacks_at m \<and> a \<noteq> b" if "a \<in> ?R" for a
  proof -
    have a: "a \<in> set (addrs m)" using that m(4) by (auto simp: o)
    moreover have ne: "a \<noteq> stacks_at m"
    proof
      assume eq: "a = stacks_at m"
      then have "stacks_at m \<noteq> 0" using a m(2) by metis
      then show False using m(3) that eq by (simp add: o opt_addr_def)
    qed
    ultimately show ?thesis using r(5) by metis
  qed
  have "mem_ok m2"
    unfolding mem_ok_def
  proof (intro conjI)
    show "distinct (owned m2)" using m(3) R by (auto simp: o o2)
    show "set (owned m2) \<subseteq> set (addrs m2)" using R r(7) by (auto simp: o2 f(4))
    show "\<forall>t\<in>set (stacks m2). stack_ok m2 t"
    proof
      fix t assume "t \<in> set (stacks m2)"
      then consider "t = ?t" | "t \<in> set (stacks m)" using f(1) by auto
      then show "stack_ok m2 t"
      proof cases
        case 1
        then show ?thesis by (simp add: stack_ok_def)
      next
        case 2
        have "block m2 a = block m a" if "a \<in> set (owned_by t)" for a
        proof -
          have "a \<in> ?R" using 2 that by auto
          from R [OF this] show ?thesis using r(2) f(3) by simp
        qed
        with m(5) [OF 2] show ?thesis by (rule stack_ok_cong)
      qed
    qed
  qed (use r f m in \<open>auto simp: length_heap\<close>)
  moreover have "data_blocks m2 = data_blocks m"
  proof (rule data_blocks_moved [of m2 m "stacks_at m" b "Some bs" "\<Union>t \<in> set (stacks m). set (opt_addr (t_at t))"])
    show "arrays m = (\<Union>t \<in> set (stacks m). set (opt_addr (t_at t))) \<union> set (opt_addr (stacks_at m))" by (auto simp: arrays_def)
    show "arrays m2 = (\<Union>t \<in> set (stacks m). set (opt_addr (t_at t))) \<union> set (opt_addr b)" using f by (auto simp: arrays_def opt_addr_def)
    show "b = stacks_at m \<or> block m b = None" using r(5) block_dom [of m b] by blast
    have "(\<Union>t \<in> set (stacks m). set (opt_addr (t_at t))) \<subseteq> ?R" by (auto simp: owned_by_def)
    then show "stacks_at m \<notin> (\<Union>t \<in> set (stacks m). set (opt_addr (t_at t)))" "b \<notin> (\<Union>t \<in> set (stacks m). set (opt_addr (t_at t)))"
      using R by blast+
  qed (use r f m in simp_all)
  ultimately show thesis using e f by (intro that [of m2])
qed

section \<open>Taking a buffer out\<close>

lemma DataUntrack_works:
  fixes d :: handle
  assumes ok: "mem_ok m" and st: "stacks m = t # ts"
  defines "t' \<equiv> t\<lparr>t_items := filter (\<lambda>x. h_at x \<noteq> h_at d) (t_items t)\<rparr>"
  defines "m' \<equiv> m\<lparr>stacks := t\<lparr>t_items := filter (\<lambda>x. h_at x \<noteq> h_at d) (t_items t)\<rparr> # ts\<rparr>"
  shows "DataUntrack d m = Inr (d, m')" "mem_ok m'" "data_blocks m' = data_blocks m"
    "h_at d \<in> h_at ` set (t_items t) \<Longrightarrow> h_at d \<notin> set (owned m')"
proof -
  note m = mem_okD [OF ok]
  have di: "distinct (map h_at (t_items t))" using m(3) by (simp add: owned_Cons [OF st])
  show "DataUntrack d m = Inr (d, m')"
    using DatasRemoveTake_works [OF di] st by (simp add: DataUntrack_def m'_def)
  have oc: "owned m' = opt_addr (stacks_at m) @ opt_addr (t_at t) @ filter (\<lambda>a. a \<noteq> h_at d) (map h_at (t_items t)) @ concat (map owned_by ts)"
    by (simp add: m'_def owned_def owned_by_def filter_map comp_def)
  show "mem_ok m'"
    unfolding mem_ok_def
  proof (intro conjI)
    show "distinct (owned m')" using m(3) by (auto simp: oc owned_Cons [OF st])
    have "addrs m' = addrs m" by (simp add: m'_def)
    with m(4) show "set (owned m') \<subseteq> set (addrs m')" unfolding oc owned_Cons [OF st] by auto
    show "\<forall>t\<in>set (stacks m'). stack_ok m' t"
    proof
      fix u assume "u \<in> set (stacks m')"
      then consider "u = t'" | "u \<in> set ts" by (auto simp: m'_def t'_def)
      then show "stack_ok m' u"
      proof cases
        case 1
        have l: "length (filter (\<lambda>x. h_at x \<noteq> h_at d) (t_items t)) \<le> length (t_items t)" by (rule length_filter_le)
        from m(5) [of t] st have "stack_ok m t" by simp
        then have "(t_at t = 0 \<longrightarrow> t_items t = [])"
          "t_at t \<noteq> 0 \<longrightarrow> (\<exists>bs. block m (t_at t) = Some bs \<and> 16 * length (filter (\<lambda>x. h_at x \<noteq> h_at d) (t_items t)) \<le> length bs)"
          "\<forall>d \<in> set (t_items t). \<exists>bs. block m (h_at d) = Some bs \<and> h_len d \<le> length bs"
          using l unfolding stack_ok_def by (blast, meson le_trans mult_le_mono2, blast)
        then show ?thesis unfolding 1 stack_ok_def by (simp add: m'_def t'_def)
      next
        case 2
        with m(5) [of u] st show ?thesis by (simp add: stack_ok_def m'_def)
      qed
    qed
  qed (use ok st in \<open>auto simp: mem_ok_def m'_def\<close>)
  have "arrays m' = arrays m" by (auto simp: arrays_def m'_def st)
  then show "data_blocks m' = data_blocks m" by (simp add: data_blocks_def m'_def)
  show "h_at d \<notin> set (owned m')" if "h_at d \<in> h_at ` set (t_items t)"
    using m(3) that by (auto simp: oc owned_Cons [OF st])
qed

section \<open>Freeing\<close>

text \<open>Freeing the tracked buffers leaves them in the track stack.\<close>

lemma set_bytes_all:
  assumes "block m a = Some bs" "n \<le> length bs"
  shows "\<exists>m'. set_bytes a 0 (replicate n w) m = Inr m' \<and> addrs m' = (if n = 0 then addrs m else a # filter (\<lambda>b. b \<noteq> a) (addrs m))
    \<and> stacks m' = stacks m \<and> stacks_at m' = stacks_at m \<and> allocated m' = allocated m
    \<and> (\<exists>new. length new = length bs \<and> block m' = (block m)(a \<mapsto> new))"
proof (cases "n = 0")
  case True
  moreover have "block m = (block m)(a \<mapsto> bs)" using assms(1) by (simp add: fun_upd_idem)
  ultimately show ?thesis by (intro exI [of _ m]) (auto simp: set_bytes_def)
next
  case False
  let ?new = "replicate n w @ drop n bs"
  have "set_bytes a 0 (replicate n w) m = Inr (put_block a ?new m)" using assms False by (simp add: set_bytes_def)
  moreover have "length ?new = length bs" using assms(2) by simp
  ultimately show ?thesis using False by (intro exI [of _ "put_block a ?new m"]) (auto intro!: exI [of _ ?new])
qed

lemma free_untracked:
  assumes d: "block m (h_at d) = Some bs" "h_len d \<le> length bs" "h_at d \<noteq> 0" and tr: "DataIsTracked m d \<le> 1"
  obtains m' where "DataFreeFlexible d False m = Inr (null, m')" "block m' = (block m)(h_at d := None)"
    "addrs m' = filter (\<lambda>b. b \<noteq> h_at d) (addrs m)" "stacks m' = stacks m" "stacks_at m' = stacks_at m" "allocated m' = allocated m - 1"
proof -
  let ?m = "m\<lparr>allocated := allocated m - 1\<rparr>"
  have "block ?m (h_at d) = Some bs" using d(1) by simp
  from set_bytes_all [OF this d(2), of "0x55"] obtain m1 new where s: "set_bytes (h_at d) 0 (replicate (h_len d) 0x55) ?m = Inr m1"
    "addrs m1 = (if h_len d = 0 then addrs m else h_at d # filter (\<lambda>b. b \<noteq> h_at d) (addrs m))" "stacks m1 = stacks m" "stacks_at m1 = stacks_at m"
    "allocated m1 = allocated m - 1" "block m1 = (block m)(h_at d \<mapsto> new)" by auto
  have "DataFreeFlexible d False m = Inr (null, drop_block (h_at d) m1)"
    using tr d(3) s(1,6) by (simp add: DataFreeFlexible_def free_block_def Let_def)
  then show thesis by (rule that) (use s in auto)
qed

lemma free_items_works:
  assumes "\<forall>d \<in> set ds. h_at d \<noteq> 0 \<and> (\<exists>bs. block m (h_at d) = Some bs \<and> h_len d \<le> length bs)" "distinct (map h_at ds)"
    and "\<forall>d \<in> set ds. DataIsTracked m d \<le> 1"
  shows "\<exists>m'. free_items ds m = Inr ((), m') \<and> block m' = block m |` (- (h_at ` set ds))
    \<and> addrs m' = filter (\<lambda>b. b \<notin> h_at ` set ds) (addrs m) \<and> stacks m' = stacks m \<and> stacks_at m' = stacks_at m
    \<and> allocated m' = allocated m - int (length ds)"
  using assms
proof (induction ds arbitrary: m)
  case Nil
  then show ?case by simp
next
  case (Cons d ds)
  from Cons.prems obtain bs where d: "block m (h_at d) = Some bs" "h_len d \<le> length bs" "h_at d \<noteq> 0" by auto
  from Cons.prems have tr: "DataIsTracked m d \<le> 1" by simp
  obtain m1 where m1: "DataFreeFlexible d False m = Inr (null, m1)" "block m1 = (block m)(h_at d := None)"
    "addrs m1 = filter (\<lambda>b. b \<noteq> h_at d) (addrs m)" "stacks m1 = stacks m" "stacks_at m1 = stacks_at m" "allocated m1 = allocated m - 1"
    by (rule free_untracked [OF d tr])
  have ne: "h_at x \<noteq> h_at d" if "x \<in> set ds" for x using imageI [OF that, of h_at] Cons.prems(2) by auto
  have "DataIsTracked m1 x = DataIsTracked m x" for x by (simp add: DataIsTracked_def m1(4))
  then have ih: "\<exists>m'. free_items ds m1 = Inr ((), m') \<and> block m' = block m1 |` (- (h_at ` set ds))
    \<and> addrs m' = filter (\<lambda>b. b \<notin> h_at ` set ds) (addrs m1) \<and> stacks m' = stacks m1 \<and> stacks_at m' = stacks_at m1
    \<and> allocated m' = allocated m1 - int (length ds)"
    using Cons.prems ne m1(2) by (intro Cons.IH) auto
  then obtain m' where m': "free_items ds m1 = Inr ((), m')" "block m' = block m1 |` (- (h_at ` set ds))"
    "addrs m' = filter (\<lambda>b. b \<notin> h_at ` set ds) (addrs m1)" "stacks m' = stacks m1" "stacks_at m' = stacks_at m1"
    "allocated m' = allocated m1 - int (length ds)" by blast
  have "block m' = block m |` (- (h_at ` set (d # ds)))"
    using m'(2) m1(2) by (auto simp: restrict_map_def fun_eq_iff)
  moreover have "addrs m' = filter (\<lambda>b. b \<notin> h_at ` set (d # ds)) (addrs m)"
    unfolding m'(3) m1(3) filter_filter by (rule filter_cong) auto
  ultimately show ?case using m1 m' by simp
qed

lemma owned_by_split: "set (owned_by t) = set (opt_addr (t_at t)) \<union> h_at ` set (t_items t)"
  by (simp add: owned_by_def)

lemma tracked_once:
  assumes "stacks m = t # ts" "distinct (map h_at (t_items t))"
  shows "DataIsTracked m d \<le> 1"
proof -
  have "length (filter (\<lambda>x. h_at x = h_at d) xs) \<le> 1" if "distinct (map h_at xs)" for xs :: "handle list"
    using that
  proof (induction xs)
    case (Cons x xs)
    then have "h_at x = h_at d \<Longrightarrow> filter (\<lambda>x. h_at x = h_at d) xs = []" by (auto simp: filter_empty_conv rev_image_eqI)
    with Cons show ?case by auto
  qed simp
  then show ?thesis using assms by (simp add: DataIsTracked_def DatasHasData_def)
qed

lemma DatasFreeFlexible_works:
  assumes ok: "mem_ok m" and st: "stacks m = t # ts"
  obtains m' where "DatasFreeFlexible t m = Inr ((), m')" "block m' = block m |` (- set (owned_by t))"
    "addrs m' = filter (\<lambda>b. b \<notin> set (owned_by t)) (addrs m)" "stacks m' = t # ts" "stacks_at m' = stacks_at m"
    "allocated m' = allocated m - int (length (owned_by t))"
proof (cases "t_at t = 0")
  case True
  have "stack_ok m t" using mem_okD(5) [OF ok] st by simp
  with True have "t_items t = []" by (simp add: stack_ok_def)
  with True show thesis
    using st by (intro that [of m]) (auto simp: DatasFreeFlexible_def owned_by_def opt_addr_def)
next
  case False
  note m = mem_okD [OF ok]
  have t: "stack_ok m t" using m(5) st by simp
  have own: "distinct (t_at t # map h_at (t_items t))"
    using m(3) False by (simp add: owned_Cons [OF st] opt_addr_def)
  then have di: "distinct (map h_at (t_items t))" and ne: "t_at t \<notin> h_at ` set (t_items t)" by simp_all
  have live: "\<forall>d \<in> set (t_items t). h_at d \<noteq> 0 \<and> (\<exists>bs. block m (h_at d) = Some bs \<and> h_len d \<le> length bs)"
    using t m(8) unfolding stack_ok_def by (metis option.distinct(1))
  have tr: "\<forall>d \<in> set (t_items t). DataIsTracked m d \<le> 1" using tracked_once [OF st di] by blast
  from free_items_works [OF live di tr] obtain m1 where m1: "free_items (t_items t) m = Inr ((), m1)"
    "block m1 = block m |` (- (h_at ` set (t_items t)))" "addrs m1 = filter (\<lambda>b. b \<notin> h_at ` set (t_items t)) (addrs m)"
    "stacks m1 = t # ts" "stacks_at m1 = stacks_at m" "allocated m1 = allocated m - int (length (t_items t))"
    using st by auto
  let ?d = "DatasMemory t"
  obtain arr where arr: "block m (t_at t) = Some arr" "16 * length (t_items t) \<le> length arr" using t False by (auto simp: stack_ok_def)
  have d: "block m1 (h_at ?d) = Some arr" "h_len ?d \<le> length arr" "h_at ?d \<noteq> 0"
    using arr ne False m1(2) by (simp_all add: DatasMemory_def)
  have hd: "h_at ?d = t_at t" by (simp add: DatasMemory_def)
  have z: "DataIsTracked m1 ?d = 0" using ne by (simp add: DataIsTracked_def m1(4) has_data_0 hd)
  have flt: "filter (\<lambda>x. h_at x \<noteq> h_at ?d) (t_items t) = t_items t" using without_ne [of ?d "t_items t"] ne hd by simp
  have "DataUntrack ?d m1 = Inr (?d, m1\<lparr>stacks := t # ts\<rparr>)"
    using DatasRemoveTake_works [OF di, of ?d] by (simp add: DataUntrack_def m1(4) flt)
  then have u: "DataUntrack ?d m1 = Inr (?d, m1)" using m1(4) by simp
  obtain m2 where m2: "DataFreeFlexible ?d False m1 = Inr (null, m2)" "block m2 = (block m1)(h_at ?d := None)"
    "addrs m2 = filter (\<lambda>b. b \<noteq> h_at ?d) (addrs m1)" "stacks m2 = stacks m1" "stacks_at m2 = stacks_at m1" "allocated m2 = allocated m1 - 1"
    by (rule free_untracked [OF d]) (simp add: z)
  have f: "DataFree ?d m1 = Inr (null, m2)"
    using m2(1) u z by (simp add: DataFree_def DataFreeFlexible_def)
  have o: "owned_by t = t_at t # map h_at (t_items t)" using False by (simp add: owned_by_def opt_addr_def)
  show thesis
  proof (rule that [of m2])
    show "DatasFreeFlexible t m = Inr ((), m2)" using False m1(1) f by (simp add: DatasFreeFlexible_def)
    show "block m2 = block m |` (- set (owned_by t))" using m2(2) m1(2) by (auto simp: o hd restrict_map_def fun_eq_iff)
    show "addrs m2 = filter (\<lambda>b. b \<notin> set (owned_by t)) (addrs m)"
      unfolding m2(3) m1(3) hd o filter_filter by (rule filter_cong) auto
  qed (use m1 m2 in \<open>simp_all add: o\<close>)
qed

section \<open>Leaving a scope\<close>

lemma kept_eq: "stacks m = t # ts \<Longrightarrow> kept m = block m |` (- (arrays m \<union> h_at ` set (t_items t)))"
  by (auto simp: kept_def data_blocks_def current_def restrict_map_def)

lemma length_filter_out:
  assumes "distinct xs" "distinct ys" "set ys \<subseteq> set xs"
  shows "length (filter (\<lambda>b. b \<notin> set ys) xs) + length ys = length xs"
proof -
  have "length (filter (\<lambda>b. b \<notin> set ys) xs) = card (set xs - set ys)"
    using assms(1) by (metis Diff_eq distinct_card distinct_filter set_diff_eq set_filter)
  also have "\<dots> = length xs - length ys" using assms by (simp add: card_Diff_subset distinct_card)
  finally show ?thesis using assms by (metis card_mono distinct_card finite_set le_add_diff_inverse2)
qed

lemma DataTrackPop_works:
  assumes A: "good_allocator A" and ok: "mem_ok m" and st: "stacks m = t # ts"
  obtains m' where "DataTrackPop A m = Inr ((), m')" "mem_ok m'" "stacks m' = ts" "data_blocks m' = kept m"
proof -
  note m = mem_okD [OF ok]
  let ?B = "set (owned_by t)" and ?R = "set (concat (map owned_by ts))" and ?s = "stacks_at m"
  have s0: "?s \<noteq> 0" using m(6) st by simp
  have own: "owned m = ?s # owned_by t @ concat (map owned_by ts)" using s0 st by (simp add: owned_def opt_addr_def)
  have dj: "?s \<notin> ?B" "?s \<notin> ?R" "?B \<inter> ?R = {}" "distinct (owned_by t)" "?B \<subseteq> set (addrs m)" "?R \<subseteq> set (addrs m)" "?s \<in> set (addrs m)"
    using m(3,4) by (auto simp: own)
  obtain m1 where m1: "DatasFreeFlexible t m = Inr ((), m1)" "block m1 = block m |` (- ?B)"
    "addrs m1 = filter (\<lambda>b. b \<notin> ?B) (addrs m)" "stacks m1 = t # ts" "stacks_at m1 = ?s"
    "allocated m1 = allocated m - int (length (owned_by t))"
    by (rule DatasFreeFlexible_works [OF ok st])
  have len: "length (addrs m1) + length (owned_by t) = length (addrs m)"
    unfolding m1(3) by (rule length_filter_out [OF m(1) dj(4,5)])
  obtain arr where arr: "block m1 ?s = Some arr" using dj(1,7) m1(2) block_dom [of m ?s] by auto
  have ad: "distinct (addrs m1)" "0 \<notin> set (addrs m1)" using m(1,2) m1(3) by simp_all
  define m2 where "m2 = m1\<lparr>stacks := ts\<rparr>"
  have m2: "block m2 = block m1" "addrs m2 = addrs m1" "stacks m2 = ts" "stacks_at m2 = ?s" "allocated m2 = int (length (addrs m2))"
    using m1 len m(7) by (simp_all add: m2_def)
  \<comment> \<open>the outer array of stacks is resized or freed\<close>
  have outer: "mem_ok m3 \<and> data_blocks m3 = kept m"
    if b: "block m3 = (block m2)(?s := None, b := nb)" "b = 0 \<longleftrightarrow> nb = None" "b = 0 \<longleftrightarrow> ts = []" "b = ?s \<or> b \<notin> set (addrs m2)"
      and a: "distinct (addrs m3)" "set (addrs m3) = set (opt_addr b) \<union> (set (addrs m2) - {?s})" "allocated m3 = int (length (addrs m3))"
      and s: "stacks m3 = ts" "stacks_at m3 = b" for m3 b nb
  proof
    have R: "x \<in> set (addrs m3) \<and> x \<noteq> b \<and> block m3 x = block m x" if "x \<in> ?R" for x
    proof -
      have x: "x \<in> set (addrs m)" "x \<noteq> ?s" "x \<notin> ?B" using that dj by auto
      then have x2: "x \<in> set (addrs m2)" using m1(3) m2(2) by simp
      have "x \<noteq> b" using b(4) x2 x(2) by metis
      then show ?thesis using x x2 a(2) b(1) m1(2) m2(1) by simp
    qed
    have o3: "owned m3 = opt_addr b @ concat (map owned_by ts)" using s by (simp add: owned_def)
    have z: "0 \<notin> set (addrs m3)" using a(2) ad(2) m2(2) by (auto simp: opt_addr_def)
    show "mem_ok m3"
      unfolding mem_ok_def
    proof (intro conjI)
      show "distinct (owned m3)" using m(3) R by (auto simp: o3 own opt_addr_def)
      show "set (owned m3) \<subseteq> set (addrs m3)"
      proof
        fix x assume "x \<in> set (owned m3)"
        then consider "x \<in> set (opt_addr b)" | "x \<in> ?R" unfolding o3 by auto
        then show "x \<in> set (addrs m3)" using R [of x] a(2) by cases blast+
      qed
      show "\<forall>u \<in> set (stacks m3). stack_ok m3 u"
      proof
        fix u assume u: "u \<in> set (stacks m3)"
        then have "stack_ok m u" using m(5) st s by simp
        moreover have "block m3 x = block m x" if "x \<in> set (owned_by u)" for x using R [of x] u s that by auto
        ultimately show "stack_ok m3 u" by (rule stack_ok_cong)
      qed
      show "\<exists>bs. stacks_at m3 \<noteq> 0 \<longrightarrow> block m3 (stacks_at m3) = Some bs" using b s by auto
    qed (use a z s b m(6) length_heap [of m3] in simp_all)
    have R2: "(\<Union>u \<in> set ts. set (opt_addr (t_at u))) \<subseteq> ?R" by (auto simp: owned_by_def)
    have ar3: "arrays m3 = set (opt_addr b) \<union> (\<Union>u \<in> set ts. set (opt_addr (t_at u)))" using s by (simp add: arrays_def)
    have ar: "arrays m \<union> h_at ` set (t_items t) = {?s} \<union> ?B \<union> (\<Union>u \<in> set ts. set (opt_addr (t_at u)))"
      using s0 by (auto simp: arrays_Cons [OF st] owned_by_split opt_addr_def)
    have b0: "block m b = None \<or> b = ?s \<or> b \<in> ?B" using b(4) m2(2) m1(3) block_dom [of m b] by auto
    show "data_blocks m3 = kept m"
    proof
      fix x
      consider "x = b" | "x = ?s" "x \<noteq> b" | "x \<noteq> ?s" "x \<noteq> b" by blast
      then show "data_blocks m3 x = kept m x"
      proof cases
        case 1
        then have "data_blocks m3 x = None" using b(1,2) by (auto simp: data_blocks_def ar3 opt_addr_def restrict_map_def)
        then show ?thesis using 1 b0 by (auto simp: kept_eq [OF st] ar restrict_map_def)
      next
        case 2
        then show ?thesis using b(1) by (simp add: data_blocks_def kept_eq [OF st] ar restrict_map_def)
      next
        case 3
        then show ?thesis using b(1) m2(1) m1(2) dj(3) R2
          by (auto simp: data_blocks_def kept_eq [OF st] ar ar3 restrict_map_def opt_addr_def)
      qed
    qed
  qed
  show thesis
  proof (cases "ts = []")
    case True
    let ?m3 = "(drop_block ?s (m2\<lparr>allocated := allocated m2 - 1\<rparr>))\<lparr>stacks_at := 0\<rparr>"
    have e: "DataTrackPop A m = Inr ((), ?m3)"
      using st m1(1,5) s0 True arr by (simp add: DataTrackPop_def Let_def free_block_def m2_def)
    have l: "length (filter (\<lambda>b. b \<noteq> ?s) (addrs m1)) + 1 = length (addrs m1)"
      using ad(1) arr block_dom [of m1 ?s] by (intro distinct_remove1_length) auto
    have n0: "block m2 0 = None" using ad(2) block_dom [of m1 0] m2(1) by auto
    have "mem_ok ?m3 \<and> data_blocks ?m3 = kept m"
      by (rule outer [of ?m3 0 None]) (use True l n0 ad m2 s0 in \<open>auto simp: opt_addr_def fun_upd_idem_iff\<close>)
    then show thesis using e True m2(3) by (intro that [of ?m3]) simp_all
  next
    case False
    have z: "?s = 0 \<or> block m2 ?s \<noteq> None" using arr m2(1) by simp
    obtain b bs m3 where r: "realloc_block A ?s (16 * length ts) m2 = Inr (b, m3)"
      "block m3 = (block m2)(?s := None, b \<mapsto> bs)" "length bs = 16 * length ts" "b \<noteq> 0" "b = ?s \<or> b \<notin> set (addrs m2)"
      "distinct (addrs m3)" "set (addrs m3) = insert b (set (addrs m2) - {?s})" "stacks m3 = stacks m2" "stacks_at m3 = stacks_at m2"
      "allocated m3 = allocated m2" "length (addrs m3) = length (addrs m2) + (if ?s = 0 then 1 else 0)"
      by (rule realloc_array [OF A z, of "16 * length ts"]) (use ad m2 in simp_all)
    let ?m4 = "m3\<lparr>stacks_at := b\<rparr>"
    have e: "DataTrackPop A m = Inr ((), ?m4)"
      using st m1(1,5) s0 False r(1) m2(4) by (simp add: DataTrackPop_def Let_def m2_def)
    have "mem_ok ?m4 \<and> data_blocks ?m4 = kept m"
      by (rule outer [of ?m4 b "Some bs"]) (use False r m2 s0 in \<open>auto simp: opt_addr_def\<close>)
    then show thesis using e r(8) m2(3) by (intro that [of ?m4]) simp_all
  qed
qed

end
