(* ===== verification/Memory_Refine.thy ===== *)
theory Memory_Refine
  imports Memory_Scopes
begin

text \<open>
  The heap functions compute what the contents level says and leave nothing else behind. A handle
  holds a value; a function's result is one new buffer of the current scope beside the blocks that
  were there before.
\<close>

section \<open>Handles and their contents\<close>

fun holds :: "mem \<Rightarrow> handle \<Rightarrow> data \<Rightarrow> bool" where
  "holds m d DataNull \<longleftrightarrow> d = null"
| "holds m d (Bytes bs) \<longleftrightarrow> data_blocks m (h_at d) = Some bs \<and> length bs = h_len d"

fun new_block :: "mem \<Rightarrow> handle \<Rightarrow> data \<Rightarrow> mem \<Rightarrow> bool" where
  "new_block m r DataNull m' \<longleftrightarrow> r = null \<and> data_blocks m' = data_blocks m \<and> current m' = current m"
| "new_block m r (Bytes bs) m' \<longleftrightarrow> length bs = h_len r \<and> data_blocks m (h_at r) = None
     \<and> data_blocks m' = (data_blocks m)(h_at r \<mapsto> bs) \<and> (stacks m \<noteq> [] \<longrightarrow> current m' = insert (h_at r) (current m))"

text \<open>The memory after a function that returns one new buffer, tracked in the scope of the call.\<close>

definition result :: "mem \<Rightarrow> handle \<Rightarrow> data \<Rightarrow> mem \<Rightarrow> bool" where
  "result m r v m' \<longleftrightarrow> mem_ok m' \<and> tl (stacks m') = tl (stacks m) \<and> (stacks m' = [] \<longleftrightarrow> stacks m = []) \<and> new_block m r v m'"

text \<open>Within a scope opened at \<open>m0\<close>: everything new belongs to the scope, everything old is as it was.\<close>

definition inside :: "mem \<Rightarrow> mem \<Rightarrow> bool" where
  "inside m0 m \<longleftrightarrow> mem_ok m \<and> stacks m \<noteq> [] \<and> tl (stacks m) = tl (stacks m0)
     \<and> (\<forall>x \<in> dom (data_blocks m0). data_blocks m x = data_blocks m0 x)
     \<and> current m = current m0 \<union> (dom (data_blocks m) - dom (data_blocks m0))"

lemma inside_refl: "mem_ok m \<Longrightarrow> stacks m \<noteq> [] \<Longrightarrow> inside m m"
  by (simp add: inside_def)

lemma insideD: "inside m0 m \<Longrightarrow> mem_ok m" "inside m0 m \<Longrightarrow> stacks m \<noteq> []"
  by (simp_all add: inside_def)

lemma data_blocks_0: "mem_ok m \<Longrightarrow> data_blocks m 0 = None"
  using mem_okD(8) [of m] by (auto simp: data_blocks_def restrict_map_def)

lemma holds_null: "mem_ok m \<Longrightarrow> holds m d v \<Longrightarrow> h_at d = 0 \<longleftrightarrow> v = DataNull"
proof (cases v)
  case (Bytes bs)
  then show "mem_ok m \<Longrightarrow> holds m d v \<Longrightarrow> ?thesis" using data_blocks_0 [of m] by (cases "h_at d = 0") auto
qed (simp add: null_def)

lemma holds_len: "holds m d v \<Longrightarrow> h_len d = dlength v"
  by (cases v) (simp_all add: null_def)

lemma read_works: "mem_ok m \<Longrightarrow> holds m d v \<Longrightarrow> read d m = Inr (dbytes v, m)"
proof (cases v)
  case DataNull
  then show "holds m d v \<Longrightarrow> ?thesis" by (simp add: read_def null_def get_bytes_def)
next
  case (Bytes bs)
  then show "holds m d v \<Longrightarrow> ?thesis" using get_bytes_works [of m d bs] by (simp add: read_def)
qed

lemma inside_old: "inside m0 m \<Longrightarrow> data_blocks m x = None \<Longrightarrow> data_blocks m0 x = None"
  unfolding inside_def by (metis domIff)

lemma result_inside:
  assumes i: "inside m0 m" and r: "result m r v m'"
  shows "inside m0 m'"
proof (cases v)
  case DataNull
  with assms show ?thesis by (simp add: inside_def result_def)
next
  case (Bytes bs)
  then have e: "data_blocks m (h_at r) = None" "data_blocks m' = (data_blocks m)(h_at r \<mapsto> bs)" "current m' = insert (h_at r) (current m)"
    using assms by (auto simp: inside_def result_def)
  have n: "h_at r \<notin> dom (data_blocks m0)" using inside_old [OF i e(1)] by auto
  show ?thesis using i r n unfolding inside_def e(2,3) result_def by auto
qed

lemma result_ok: "result m r v m' \<Longrightarrow> mem_ok m'"
  by (simp add: result_def)

lemma result_holds: "result m r v m' \<Longrightarrow> holds m' r v"
  by (cases v) (auto simp: result_def)

lemma result_keeps: "result m r v m' \<Longrightarrow> holds m d w \<Longrightarrow> holds m' d w"
  by (cases v; cases w) (auto simp: result_def)

lemma result_new: "inside m0 m \<Longrightarrow> result m r v m' \<Longrightarrow> v \<noteq> DataNull \<longrightarrow> h_at r \<notin> dom (data_blocks m0)"
  by (cases v) (auto simp: result_def dest: inside_old)

text \<open>What a scope has to do, and what it leaves.\<close>

definition scope_body :: "mem \<Rightarrow> handle step \<Rightarrow> data \<Rightarrow> bool" where
  "scope_body m f v \<longleftrightarrow> (\<forall>m1. mem_ok m1 \<and> stacks m1 = \<lparr>t_at = 0, t_items = []\<rparr> # stacks m \<and> data_blocks m1 = data_blocks m \<longrightarrow>
     (\<exists>r m2. f m1 = Inr (r, m2) \<and> inside m1 m2 \<and> holds m2 r v \<and> (v \<noteq> DataNull \<longrightarrow> h_at r \<notin> dom (data_blocks m))))"

lemma DTPop_works:
  assumes A: "good_allocator A" and i: "inside m1 m2" and st: "stacks m1 = \<lparr>t_at = 0, t_items = []\<rparr> # stacks m"
    and db: "data_blocks m1 = data_blocks m" and r: "holds m2 r v" "v \<noteq> DataNull \<longrightarrow> h_at r \<notin> dom (data_blocks m)"
  shows "\<exists>m'. DTPop A r m2 = Inr (r, m') \<and> result m r v m'"
proof -
  have ok: "mem_ok m2" using i by (rule insideD)
  obtain t where t: "stacks m2 = t # stacks m" using i st by (cases "stacks m2") (auto simp: inside_def)
  have c1: "current m1 = {}" using st by (simp add: current_def)
  have c2: "current m2 = dom (data_blocks m2) - dom (data_blocks m)" using i c1 db by (simp add: inside_def)
  have same: "data_blocks m2 x = data_blocks m x" if "x \<in> dom (data_blocks m)" for x using i db that by (simp add: inside_def)
  have ct: "current m2 = h_at ` set (t_items t)" using t by (simp add: current_def)
  let ?t = "t\<lparr>t_items := filter (\<lambda>x. h_at x \<noteq> h_at r) (t_items t)\<rparr>" and ?m3 = "m2\<lparr>stacks := t\<lparr>t_items := filter (\<lambda>x. h_at x \<noteq> h_at r) (t_items t)\<rparr> # stacks m\<rparr>"
  note u = DataUntrack_works [OF ok t, of r]
  have st3: "stacks ?m3 = ?t # stacks m" by simp
  obtain m4 where m4: "DataTrackPop A ?m3 = Inr ((), m4)" "mem_ok m4" "stacks m4 = stacks m" "data_blocks m4 = kept ?m3"
    by (rule DataTrackPop_works [OF A u(2) st3])
  have "current ?m3 = current m2 - {h_at r}" by (auto simp: current_def t)
  then have k: "data_blocks m4 x = (if x \<in> current m2 - {h_at r} then None else data_blocks m2 x)" for x
    using m4(4) u(3) by (simp add: kept_def restrict_map_def)
  have pop: "DTPop A r m2 = (case DataTrack A r m4 of Inl e \<Rightarrow> Inl e | Inr (_, m) \<Rightarrow> Inr (r, m))"
    using u(1) m4(1) by (simp add: DTPop_def bindM_def split: sum.splits prod.splits)
  show ?thesis
  proof (cases v)
    case DataNull
    then have r0: "r = null" using r(1) by simp
    have "data_blocks m4 x = data_blocks m x" for x
      using k [of x] same [of x] c2 data_blocks_0 [OF ok] by (cases "x \<in> dom (data_blocks m)") (auto simp: r0 null_def)
    then have "data_blocks m4 = data_blocks m" by blast
    moreover have "DTPop A r m2 = Inr (r, m4)" unfolding pop by (simp add: DataTrack_def r0 null_def)
    ultimately show ?thesis using DataNull r0 m4 by (intro exI [of _ m4]) (simp add: result_def current_def)
  next
    case (Bytes bs)
    then have rb: "data_blocks m2 (h_at r) = Some bs" "length bs = h_len r" "data_blocks m (h_at r) = None"
      using r by (auto simp: domIff)
    then have rc: "h_at r \<in> current m2" using c2 by auto
    have "data_blocks m4 x = ((data_blocks m)(h_at r \<mapsto> bs)) x" for x
      using k [of x] same [of x] c2 rb by (cases "x \<in> dom (data_blocks m)") auto
    then have db4: "data_blocks m4 = (data_blocks m)(h_at r \<mapsto> bs)" by blast
    have b4: "block m4 (h_at r) = Some bs" "h_at r \<notin> arrays m4" using data_blocks_Some [of m4 "h_at r" bs] db4 by simp_all
    have dj: "h_at r \<notin> set (concat (map owned_by (stacks m)))"
      using mem_okD(3) [OF ok] rc ct unfolding owned_Cons [OF t] by auto
    have no: "h_at r \<notin> set (owned m4)"
      using b4(2) dj m4(3) by (auto simp: owned_def arrays_def)
    show ?thesis
    proof (cases "stacks m")
      case Nil
      then have "DTPop A r m2 = Inr (r, m4)" using m4(3) by (simp add: pop DataTrack_def)
      then show ?thesis using Bytes rb db4 m4 Nil by (intro exI [of _ m4]) (simp add: result_def)
    next
      case (Cons s ss)
      then have s4: "stacks m4 = s # ss" using m4(3) by simp
      obtain m5 b where m5: "DataTrack A r m4 = Inr (r, m5)" "mem_ok m5" "stacks m5 = \<lparr>t_at = b, t_items = t_items s @ [r]\<rparr> # ss"
        "data_blocks m5 = data_blocks m4" "stacks_at m5 = stacks_at m4" "block m5 (h_at r) = Some bs" "b \<noteq> 0"
        by (rule DataTrack_works [OF A m4(2) s4 b4(1) rb(2) no])
      have "DTPop A r m2 = Inr (r, m5)" by (simp add: pop m5(1))
      moreover have "current m5 = insert (h_at r) (current m)" by (simp add: current_def m5(3) Cons)
      ultimately show ?thesis using Bytes rb db4 m5 Cons by (intro exI [of _ m5]) (simp add: result_def)
    qed
  qed
qed

lemma scoped_works:
  assumes A: "good_allocator A" and ok: "mem_ok m" and f: "scope_body m f v"
  shows "\<exists>r m'. scoped A f m = Inr (r, m') \<and> result m r v m'"
proof -
  obtain m1 where m1: "DataTrackPush A m = Inr ((), m1)" "mem_ok m1" "stacks m1 = \<lparr>t_at = 0, t_items = []\<rparr> # stacks m"
    "data_blocks m1 = data_blocks m" by (rule DataTrackPush_works [OF A ok])
  then obtain r m2 where r: "f m1 = Inr (r, m2)" "inside m1 m2" "holds m2 r v" "v \<noteq> DataNull \<longrightarrow> h_at r \<notin> dom (data_blocks m)"
    using f unfolding scope_body_def by blast
  from DTPop_works [OF A r(2) m1(3,4) r(3,4)] obtain m' where "DTPop A r m2 = Inr (r, m')" "result m r v m'" by blast
  then show ?thesis using m1(1) r(1) by (simp add: scoped_def bindM_def)
qed

section \<open>New buffers\<close>

lemma DataNew_works:
  assumes A: "good_allocator A" and ok: "mem_ok m"
  shows "\<exists>r m'. DataNew_h A n m = Inr (r, m') \<and> result m r (Bytes (replicate n 0x33)) m'"
proof -
  let ?a = "fresh A (addrs m)" and ?v = "replicate n (0x33 :: u8)"
  let ?m = "(put_block ?a ?v m)\<lparr>allocated := allocated m + 1\<rparr>" and ?d = "\<lparr>h_at = fresh A (addrs m), h_len = n\<rparr>"
  note f = fresh_block_works(1-3) [OF A ok, of ?v] fresh_block_works(4-6) [OF A ok]
  have e: "DataNew_h A n m = DataTrack A ?d ?m" by (simp add: DataNew_h_def DataNewFlexible_h_def Let_def)
  show ?thesis
  proof (cases "stacks m")
    case Nil
    then have "DataNew_h A n m = Inr (?d, ?m)" unfolding e by (simp add: DataTrack_def)
    moreover have "result m ?d (Bytes ?v) ?m" using f Nil by (simp add: result_def)
    ultimately show ?thesis by blast
  next
    case (Cons t ts)
    then have st: "stacks ?m = t # ts" by simp
    have b: "block ?m (h_at ?d) = Some ?v" by simp
    have l: "length ?v = h_len ?d" by simp
    have o: "h_at ?d \<notin> set (owned ?m)" using f(4) by (simp add: owned_def)
    obtain m' b where m': "DataTrack A ?d ?m = Inr (?d, m')" "mem_ok m'" "stacks m' = \<lparr>t_at = b, t_items = t_items t @ [?d]\<rparr> # ts"
      "data_blocks m' = data_blocks ?m" "stacks_at m' = stacks_at ?m" "block m' (h_at ?d) = Some ?v" "b \<noteq> 0"
      by (rule DataTrack_works [OF A f(1) st b l o])
    have "current m' = insert (h_at ?d) (current m)" by (simp add: current_def m'(3) Cons)
    then have "result m ?d (Bytes ?v) m'" using m'(2-4) f(3,5) Cons by (simp add: result_def)
    with m'(1) show ?thesis unfolding e by blast
  qed
qed

text \<open>Writing into a buffer of the scope.\<close>

lemma write_works:
  assumes ok: "mem_ok m" and d: "holds m d (Bytes old)" "i + length bs \<le> length old"
  obtains m' where "write_at d i bs m = Inr (d, m')" "mem_ok m'" "stacks m' = stacks m"
    "data_blocks m' = (data_blocks m)(h_at d \<mapsto> take i old @ bs @ drop (i + length bs) old)" "current m' = current m"
proof -
  from d(1) have "data_blocks m (h_at d) = Some old" by simp
  from set_bytes_works [OF ok this d(2)] obtain m' where "set_bytes (h_at d) i bs m = Inr m'" "mem_ok m'" "stacks m' = stacks m"
    "data_blocks m' = (data_blocks m)(h_at d \<mapsto> take i old @ bs @ drop (i + length bs) old)" by blast
  then show thesis by (intro that [of m']) (simp_all add: write_at_def current_def)
qed

text \<open>A result that is overwritten before anything else happens is a result with the new contents.\<close>

lemma result_write:
  assumes r: "result m r (Bytes old) m'" and l: "i + length bs \<le> length old"
  shows "\<exists>m''. write_at r i bs m' = Inr (r, m'') \<and> result m r (Bytes (take i old @ bs @ drop (i + length bs) old)) m''"
proof -
  from r have ok: "mem_ok m'" and h: "holds m' r (Bytes old)" by (auto simp: result_def)
  obtain m'' where "write_at r i bs m' = Inr (r, m'')" "mem_ok m''" "stacks m'' = stacks m'"
    "data_blocks m'' = (data_blocks m')(h_at r \<mapsto> take i old @ bs @ drop (i + length bs) old)" "current m'' = current m'"
    by (rule write_works [OF ok h l])
  with r l show ?thesis by (auto simp: result_def)
qed

lemma DataCopy_works:
  assumes A: "good_allocator A" and ok: "mem_ok m"
  shows "\<exists>r m'. DataCopy_h A bs m = Inr (r, m') \<and> result m r (Bytes bs) m'"
proof -
  obtain r m1 where r: "DataNew_h A (length bs) m = Inr (r, m1)" "result m r (Bytes (replicate (length bs) 0x33)) m1"
    using DataNew_works [OF A ok] by blast
  from result_write [OF r(2), of 0 bs] obtain m2 where "write_at r 0 bs m1 = Inr (r, m2)" "result m r (Bytes bs) m2" by auto
  with r(1) show ?thesis by (auto simp: DataCopy_h_def bindM_def)
qed

lemma DataCopyData_works:
  assumes A: "good_allocator A" and ok: "mem_ok m" and d: "holds m d v"
  shows "\<exists>r m'. DataCopyData_h A d m = Inr (r, m') \<and> result m r (DataCopyData v) m'"
proof (cases v)
  case DataNull
  with d ok show ?thesis by (auto simp: DataCopyData_h_def DataCopyData_def null_def result_def)
next
  case (Bytes bs)
  with holds_null [OF ok d] have nz: "h_at d \<noteq> 0" by simp
  have l: "h_len d = length bs" using d Bytes by simp
  obtain r m1 where r: "DataNew_h A (length bs) m = Inr (r, m1)" "result m r (Bytes (replicate (length bs) 0x33)) m1"
    using DataNew_works [OF A ok] by blast
  have rd: "read d m1 = Inr (bs, m1)" using read_works [OF result_ok [OF r(2)] result_keeps [OF r(2) d]] Bytes by simp
  from result_write [OF r(2), of 0 bs] obtain m2 where "write_at r 0 bs m1 = Inr (r, m2)" "result m r (Bytes bs) m2" by auto
  with r(1) nz l rd Bytes show ?thesis by (auto simp: DataCopyData_h_def bindM_def DataCopyData_def)
qed

lemma DataAddCopy_works:
  assumes A: "good_allocator A" and ok: "mem_ok m" and d: "holds m d v" and e: "holds m e w"
  shows "\<exists>r m'. DataAddCopy_h A d e m = Inr (r, m') \<and> result m r (DataAddCopy v w) m'"
proof -
  let ?v = "dbytes v" and ?w = "dbytes w"
  have l: "h_len d = length ?v" "h_len e = length ?w" using d e by (simp_all add: holds_len)
  obtain r m1 where r: "DataNew_h A (length ?v + length ?w) m = Inr (r, m1)" "result m r (Bytes (replicate (length ?v + length ?w) 0x33)) m1"
    using DataNew_works [OF A ok] by blast
  note rd1 = read_works [OF result_ok [OF r(2)] result_keeps [OF r(2) d]]
  from result_write [OF r(2), of 0 ?v] obtain m2 where m2: "write_at r 0 ?v m1 = Inr (r, m2)" "result m r (Bytes (?v @ replicate (length ?w) 0x33)) m2"
    by (auto simp: drop_replicate)
  note rd2 = read_works [OF result_ok [OF m2(2)] result_keeps [OF m2(2) e]]
  from result_write [OF m2(2), of "length ?v" ?w] obtain m3 where m3: "write_at r (length ?v) ?w m2 = Inr (r, m3)" "result m r (Bytes (?v @ ?w)) m3"
    by auto
  have "DataAddCopy_h A d e m = Inr (r, m3)"
    using r(1) m2(1) m3(1) rd1 rd2 l by (simp add: DataAddCopy_h_def bindM_def)
  with m3(2) show ?thesis by (auto simp: DataAddCopy_def)
qed

text \<open>\<open>DataNew\<close> and the entry it makes.\<close>

lemma DataNew_entry:
  assumes A: "good_allocator A" and ok: "mem_ok m" and st: "stacks m = t # ts"
  obtains r m' b where "DataNew_h A n m = Inr (r, m')" "mem_ok m'" "stacks m' = \<lparr>t_at = b, t_items = t_items t @ [r]\<rparr> # ts" "b \<noteq> 0"
    "data_blocks m' = (data_blocks m)(h_at r \<mapsto> replicate n 0x33)" "h_len r = n" "data_blocks m (h_at r) = None"
proof -
  let ?a = "fresh A (addrs m)" and ?v = "replicate n (0x33 :: u8)"
  let ?m = "(put_block ?a ?v m)\<lparr>allocated := allocated m + 1\<rparr>" and ?d = "\<lparr>h_at = fresh A (addrs m), h_len = n\<rparr>"
  note f = fresh_block_works(1-3) [OF A ok, of ?v] fresh_block_works(4-6) [OF A ok]
  have e: "DataNew_h A n m = DataTrack A ?d ?m" by (simp add: DataNew_h_def DataNewFlexible_h_def Let_def)
  have s: "stacks ?m = t # ts" using st by simp
  have b: "block ?m (h_at ?d) = Some ?v" by simp
  have l: "length ?v = h_len ?d" by simp
  have o: "h_at ?d \<notin> set (owned ?m)" using f(4) by (simp add: owned_def)
  obtain m' b where m': "DataTrack A ?d ?m = Inr (?d, m')" "mem_ok m'" "stacks m' = \<lparr>t_at = b, t_items = t_items t @ [?d]\<rparr> # ts"
    "data_blocks m' = data_blocks ?m" "stacks_at m' = stacks_at ?m" "block m' (h_at ?d) = Some ?v" "b \<noteq> 0"
    by (rule DataTrack_works [OF A f(1) s b l o])
  show thesis by (rule that [OF _ m'(2,3,7)]) (use e m' f in auto)
qed

end
