(* ===== verification/Memory_Flow.thy ===== *)
theory Memory_Flow
  imports Memory_Refine Scripts Ripemd160
begin

text \<open>
  Functions of the code between push and pop, down to the heap: resizing and freeing inside a scope,
  and functions that compute what the contents level says and leave only their result.
\<close>

section \<open>Moving a buffer of the scope\<close>

lemma realloc_content:
  "realloc_block A a n m = Inr (b, m') \<Longrightarrow> a \<noteq> 0 \<Longrightarrow> block m a = Some bs \<Longrightarrow> block m' b = Some (take n bs @ replicate (n - length bs) 0)"
  by (auto simp: realloc_block_def Let_def split: if_splits)

definition moved :: "mem \<Rightarrow> addr \<Rightarrow> handle \<Rightarrow> bytes \<Rightarrow> mem \<Rightarrow> bool" where
  "moved m a r bs m' \<longleftrightarrow> mem_ok m' \<and> stacks m' \<noteq> [] \<and> tl (stacks m') = tl (stacks m)
     \<and> data_blocks m' = (data_blocks m)(a := None, h_at r \<mapsto> bs) \<and> length bs = h_len r
     \<and> current m' = insert (h_at r) (current m - {a}) \<and> (h_at r = a \<or> data_blocks m (h_at r) = None)"

lemma mem_ok_moved:
  assumes ok: "mem_ok m" and st: "stacks m = t # ts" and a: "a \<in> h_at ` set (t_items t)"
    and b: "b \<notin> set (addrs m)" "b \<noteq> 0" and d: "h_at d = b" "h_len d = length new"
    and m': "block m' = (block m)(a := None, b \<mapsto> new)" "distinct (addrs m')" "set (addrs m') = insert b (set (addrs m) - {a})"
      "allocated m' = int (length (addrs m'))" "stacks_at m' = stacks_at m"
      "stacks m' = t\<lparr>t_items := map (\<lambda>x. if h_at x = a then d else x) (t_items t)\<rparr> # ts"
  shows "moved m a d new m'"
proof -
  note m = mem_okD [OF ok]
  let ?f = "\<lambda>x. if h_at x = a then d else x" and ?g = "\<lambda>x. if x = a then b else x"
  have hf: "map h_at (map ?f xs) = map ?g (map h_at xs)" for xs using d(1) by (induction xs) auto
  have o: "owned m = opt_addr (stacks_at m) @ opt_addr (t_at t) @ map h_at (t_items t) @ concat (map owned_by ts)" by (rule owned_Cons [OF st])
  have o': "owned m' = opt_addr (stacks_at m) @ opt_addr (t_at t) @ map ?g (map h_at (t_items t)) @ concat (map owned_by ts)"
    using m'(5,6) hf by (simp add: owned_def owned_by_def)
  have an: "a \<notin> set (opt_addr (stacks_at m)) \<union> set (opt_addr (t_at t)) \<union> set (concat (map owned_by ts))" and aa: "a \<in> set (addrs m)"
    using m(3,4) a unfolding o by auto
  have bn: "b \<notin> set (owned m)" using b(1) m(4) by blast
  have gi: "distinct (map ?g xs)" if "distinct xs" "b \<notin> set xs" for xs
    using that by (induction xs) auto
  have dist: "distinct (map h_at (t_items t))" using m(3) by (simp add: o)
  have gs: "set (map ?g (map h_at (t_items t))) = insert b (h_at ` set (t_items t) - {a})" using a by (auto split: if_splits)
  have "mem_ok m'"
    unfolding mem_ok_def
  proof (intro conjI)
    show "0 \<notin> set (addrs m')" using m'(3) b(2) m(2) by auto
    have "distinct (map ?g (map h_at (t_items t)))" by (rule gi [OF dist]) (use bn in \<open>auto simp: o\<close>)
    then show "distinct (owned m')" using m(3) bn unfolding o' o distinct_append gs by auto
    show "set (owned m') \<subseteq> set (addrs m')" using m(4) an unfolding o' o set_append gs m'(3) by auto
    show "\<forall>u \<in> set (stacks m'). stack_ok m' u"
    proof
      fix u assume "u \<in> set (stacks m')"
      then consider "u = t\<lparr>t_items := map ?f (t_items t)\<rparr>" | "u \<in> set ts" using m'(6) by auto
      then show "stack_ok m' u"
      proof cases
        case 1
        have t: "stack_ok m t" using m(5) st by simp
        have ta: "t_at t \<noteq> 0 \<longrightarrow> t_at t \<noteq> a \<and> t_at t \<noteq> b" using an bn by (auto simp: opt_addr_def o)
        have it: "\<exists>bs. block m' (h_at (?f x)) = Some bs \<and> h_len (?f x) \<le> length bs" if x: "x \<in> set (t_items t)" for x
        proof (cases "h_at x = a")
          case True
          then show ?thesis using d m'(1) by simp
        next
          case False
          have "h_at x \<noteq> b" using bn x by (auto simp: o)
          then show ?thesis using False t x m'(1) by (simp add: stack_ok_def)
        qed
        have t0: "t_at t = 0 \<longrightarrow> t_items t = []" using t by (simp add: stack_ok_def)
        have t1: "t_at t \<noteq> 0 \<longrightarrow> (\<exists>bs. block m' (t_at t) = Some bs \<and> 16 * length (t_items t) \<le> length bs)"
          using t ta by (auto simp: stack_ok_def m'(1))
        have "\<forall>y \<in> ?f ` set (t_items t). \<exists>bs. block m' (h_at y) = Some bs \<and> h_len y \<le> length bs" using it by blast
        with t0 t1 show ?thesis unfolding 1 stack_ok_def by (simp del: if_image_distrib)
      next
        case 2
        have "block m' x = block m x" if "x \<in> set (owned_by u)" for x
        proof -
          have "x \<in> set (concat (map owned_by ts))" using 2 that by auto
          then have "x \<noteq> a" "x \<noteq> b" using an bn by (auto simp: o)
          then show ?thesis by (simp add: m'(1))
        qed
        with m(5) [of u] 2 st show ?thesis by (intro stack_ok_cong [of m u m']) simp_all
      qed
    qed
    show "\<exists>bs. stacks_at m' \<noteq> 0 \<longrightarrow> block m' (stacks_at m') = Some bs"
      using ok an m'(1,5) by (auto simp: mem_ok_def opt_addr_def)
  qed (use m' m(6) st length_heap [of m'] in simp_all)
  moreover have "arrays m' = arrays m" using m'(5,6) by (auto simp: arrays_def st)
  moreover have "a \<notin> arrays m" using an by (auto simp: arrays_Cons [OF st] owned_by_def)
  moreover have "b \<notin> arrays m" using bn arrays_owned by blast
  moreover have "block m b = None" using b(1) block_dom [of m b] by blast
  moreover have "current m' = insert b (current m - {a})"
    using a d(1) by (auto simp: current_def st m'(6) split: if_splits)
  ultimately show ?thesis using d m'(1,6) st by (auto simp: moved_def data_blocks_def restrict_map_def)
qed

lemma DataResize_grows:
  assumes A: "good_allocator A" and ok: "mem_ok m" and d: "holds m d (Bytes bs)" "h_at d \<in> current m" and n: "length bs \<le> n"
  shows "\<exists>r m'. DataResize_h A d n m = Inr (r, m') \<and> moved m (h_at d) r (bs @ replicate (n - length bs) 0x66) m'"
proof (cases "length bs = n")
  case True
  have "data_blocks m (h_at d) = Some bs" using d(1) by simp
  then have "moved m (h_at d) d bs m" using ok d by (auto simp: moved_def current_def split: list.splits)
  then show ?thesis using True d(1) by (auto simp: DataResize_h_def)
next
  case False
  note m = mem_okD [OF ok]
  from d(2) obtain t ts where st: "stacks m = t # ts" and at: "h_at d \<in> h_at ` set (t_items t)" by (auto simp: current_def split: list.splits)
  have b: "block m (h_at d) = Some bs" "h_len d = length bs" "h_at d \<notin> arrays m" using d(1) by (auto simp: data_blocks_Some)
  have nz: "h_at d \<noteq> 0" using b(1) m(8) by (metis option.distinct(1))
  have z: "h_at d = 0 \<or> block m (h_at d) \<noteq> None" using b by simp
  obtain a new m1 where r: "realloc_block A (h_at d) n m = Inr (a, m1)" "block m1 = (block m)(h_at d := None, a \<mapsto> new)" "length new = n"
    "a \<noteq> 0" "a = h_at d \<or> a \<notin> set (addrs m)" "distinct (addrs m1)" "set (addrs m1) = insert a (set (addrs m) - {h_at d})"
    "stacks m1 = stacks m" "stacks_at m1 = stacks_at m" "allocated m1 = allocated m"
    "length (addrs m1) = length (addrs m) + (if h_at d = 0 then 1 else 0)"
    by (rule realloc_array [OF A z m(1,2)])
  have new: "new = bs @ replicate (n - length bs) 0"
    using realloc_content [OF r(1) nz b(1)] r(2) n by simp
  let ?new = "bs @ replicate (n - length bs) 0x66" and ?d = "\<lparr>h_at = a, h_len = n\<rparr>"
  have m1b: "block m1 a = Some new" using r(2) by simp
  have s: "set_bytes a (h_len d) (replicate (n - length bs) 0x66) m1 = Inr (put_block a ?new m1)"
    using m1b new b(2) n False by (simp add: set_bytes_def)
  have rs: "resize_block A d n m = Inr (?d, put_block a ?new m1)"
    using n False nz r(1) s b(2) by (cases "n = 0") (simp_all add: resize_block_def Let_def)
  let ?m = "put_block a ?new m1"
  have len: "length (filter (\<lambda>x. x \<noteq> a) (addrs m1)) + 1 = length (addrs m1)"
    using r(6,7) by (intro distinct_remove1_length) simp_all
  then have al: "allocated ?m = int (length (addrs ?m))" using r(10,11) nz m(7) by simp
  have ad: "distinct (addrs ?m)" "set (addrs ?m) = insert a (set (addrs m) - {h_at d})" using r(6,7) by auto
  have blk: "block ?m = (block m)(h_at d := None, a \<mapsto> ?new)" by (simp add: r(2))
  show ?thesis
  proof (cases "a = h_at d")
    case True
    have mok: "mem_ok ?m"
      by (rule mem_ok_heap [OF ok]) (use r ad al m(2) True b n blk in auto)
    have "data_blocks ?m = (data_blocks m)(h_at d \<mapsto> ?new)"
      using arrays_same [of ?m m] r(8,9) b(3) True blk by (auto simp: data_blocks_def restrict_map_def)
    then have "moved m (h_at d) ?d ?new ?m" using mok True d(2) r(8) st n by (auto simp: moved_def current_def)
    moreover have "DataResize_h A d n m = Inr (?d, ?m)" using rs False True b(2) by (simp add: DataResize_h_def)
    ultimately show ?thesis by blast
  next
    case Moved: False
    then have an: "a \<notin> set (addrs m)" using r(5) by blast
    let ?items = "map (\<lambda>x. if h_at x = h_at d then ?d else x) (t_items t)"
    let ?m' = "?m\<lparr>stacks := t\<lparr>t_items := map (\<lambda>x. if h_at x = h_at d then ?d else x) (t_items t)\<rparr> # ts\<rparr>"
    have sm: "stacks ?m = t # ts" using r(8) st by simp
    have tr: "DatasHasData (t_items t) d \<noteq> 0" using at by (simp add: has_data_0)
    from at obtain x where x: "x \<in> set (t_items t)" "h_at x = h_at d" by auto
    have "?d \<in> set ?items" using x by (auto simp del: if_image_distrib intro: rev_image_eqI)
    then have "h_at ?d \<in> h_at ` set ?items" by (rule imageI)
    then have tr2: "DatasHasData ?items ?d \<noteq> 0" by (simp add: has_data_0)
    have "DataReplaceTrack d ?d ?m = Inr (?d, ?m')"
      using tr tr2 sm by (simp add: DataReplaceTrack_def DatasReplaceData_def Let_def)
    then have "DataResize_h A d n m = Inr (?d, ?m')"
      using rs False Moved b(2) nz tr sm by (simp add: DataResize_h_def DataIsTracked_def)
    moreover have "moved m (h_at d) ?d ?new ?m'"
      by (rule mem_ok_moved [OF ok st at an r(4)]) (use blk ad al r(9) n in auto)
    ultimately show ?thesis by blast
  qed
qed

section \<open>Appending and freeing\<close>

lemma moved_holds: "moved m a r bs m' \<Longrightarrow> holds m' r (Bytes bs)"
  by (simp add: moved_def)

lemma moved_keeps: "moved m a r bs m' \<Longrightarrow> holds m d w \<Longrightarrow> w = DataNull \<or> h_at d \<noteq> a \<Longrightarrow> holds m' d w"
  by (cases w) (auto simp: moved_def)

lemma DataAppend_works:
  assumes A: "good_allocator A" and ok: "mem_ok m" and d: "holds m d (Bytes bs)" "h_at d \<in> current m"
    and e: "holds m e w" "h_at e \<noteq> h_at d"
  shows "\<exists>r m'. DataAppend_h A d e m = Inr (r, m') \<and> moved m (h_at d) r (bs @ dbytes w) m'"
proof -
  let ?n = "length bs + length (dbytes w)"
  have l: "h_len d = length bs" "h_len e = length (dbytes w)" using d(1) e(1) by (simp_all add: holds_len)
  obtain r m1 where r: "DataResize_h A d ?n m = Inr (r, m1)" "moved m (h_at d) r (bs @ replicate (length (dbytes w)) 0x66) m1"
    using DataResize_grows [OF A ok d, of ?n] by auto
  have ok1: "mem_ok m1" using r(2) by (simp add: moved_def)
  have rd: "read e m1 = Inr (dbytes w, m1)" using read_works [OF ok1 moved_keeps [OF r(2) e(1)]] e(2) by simp
  have fits: "length bs + length (dbytes w) \<le> length (bs @ replicate (length (dbytes w)) (0x66 :: u8))" by simp
  obtain m2 where m2: "write_at r (length bs) (dbytes w) m1 = Inr (r, m2)" "mem_ok m2" "stacks m2 = stacks m1"
    "data_blocks m2 = (data_blocks m1)(h_at r \<mapsto> take (length bs) (bs @ replicate (length (dbytes w)) 0x66) @ dbytes w
       @ drop (length bs + length (dbytes w)) (bs @ replicate (length (dbytes w)) 0x66))" "current m2 = current m1"
    by (rule write_works [OF ok1 moved_holds [OF r(2)] fits])
  have "moved m (h_at d) r (bs @ dbytes w) m2"
    using r(2) m2(2-5) by (auto simp: moved_def)
  with r(1) rd m2(1) l show ?thesis by (auto simp: DataAppend_h_def bindM_def)
qed

definition freed :: "mem \<Rightarrow> addr \<Rightarrow> mem \<Rightarrow> bool" where
  "freed m a m' \<longleftrightarrow> mem_ok m' \<and> stacks m' \<noteq> [] \<and> tl (stacks m') = tl (stacks m)
     \<and> data_blocks m' = (data_blocks m)(a := None) \<and> current m' = current m - {a}"

lemma data_blocks_drop:
  "stacks m' = stacks m \<Longrightarrow> stacks_at m' = stacks_at m \<Longrightarrow> block m' = (block m)(a := None) \<Longrightarrow> data_blocks m' = (data_blocks m)(a := None)"
  using arrays_same [of m' m] by (auto simp: data_blocks_def restrict_map_def fun_eq_iff)

lemma DataFree_works:
  assumes ok: "mem_ok m" and d: "holds m d (Bytes bs)" "h_at d \<in> current m"
  shows "\<exists>m'. DataFree d m = Inr (null, m') \<and> freed m (h_at d) m'"
proof -
  note mm = mem_okD [OF ok]
  from d(2) obtain t ts where st: "stacks m = t # ts" and at: "h_at d \<in> h_at ` set (t_items t)" by (auto simp: current_def split: list.splits)
  have b: "block m (h_at d) = Some bs" "h_len d \<le> length bs" using d(1) by (simp_all add: data_blocks_Some)
  have nz: "h_at d \<noteq> 0" using b(1) mm(8) by (metis option.distinct(1))
  let ?m1 = "m\<lparr>stacks := t\<lparr>t_items := filter (\<lambda>x. h_at x \<noteq> h_at d) (t_items t)\<rparr> # ts\<rparr>"
  note u = DataUntrack_works [OF ok st, of d]
  have z: "DataIsTracked ?m1 d = 0" by (auto simp: DataIsTracked_def has_data_0)
  have one: "DataIsTracked m d \<le> 1" by (rule tracked_once [OF st]) (use mm(3) in \<open>simp add: owned_Cons [OF st]\<close>)
  have b1: "block ?m1 (h_at d) = Some bs" using b(1) by simp
  obtain m2 where m2: "DataFreeFlexible d False ?m1 = Inr (null, m2)" "block m2 = (block ?m1)(h_at d := None)"
    "addrs m2 = filter (\<lambda>b. b \<noteq> h_at d) (addrs ?m1)" "stacks m2 = stacks ?m1" "stacks_at m2 = stacks_at ?m1" "allocated m2 = allocated ?m1 - 1"
    by (rule free_untracked [OF b1 b(2) nz]) (simp only: z, simp)
  have f: "DataFree d m = Inr (null, m2)"
    using u(1) one z m2(1) by (simp add: DataFree_def DataFreeFlexible_def)
  have no: "h_at d \<notin> set (owned ?m1)" by (rule u(4) [OF at])
  have a: "h_at d \<in> set (addrs m)" using b(1) block_dom [of m "h_at d"] by simp
  have len: "length (filter (\<lambda>b. b \<noteq> h_at d) (addrs m)) + 1 = length (addrs m)" by (rule distinct_remove1_length [OF mm(1) a])
  have "mem_ok m2"
    by (rule mem_ok_heap [OF u(2)]) (use m2 mm(1,2,7) len no in auto)
  moreover have "data_blocks m2 = (data_blocks m)(h_at d := None)"
    using data_blocks_drop [OF m2(4,5,2)] u(3) by simp
  ultimately have "freed m (h_at d) m2" using m2(4) st by (auto simp: freed_def current_def)
  with f show ?thesis by blast
qed

text \<open>Concatenating two new buffers and freeing the second leaves one new buffer.\<close>

lemma current_dom:
  assumes ok: "mem_ok m"
  shows "current m \<subseteq> dom (data_blocks m)"
proof
  fix a assume "a \<in> current m"
  then obtain t ts d where st: "stacks m = t # ts" and d: "d \<in> set (t_items t)" "a = h_at d" by (auto simp: current_def split: list.splits)
  have "stack_ok m t" using mem_okD(5) [OF ok] st by simp
  then obtain bs where "block m a = Some bs" using d by (auto simp: stack_ok_def)
  moreover have "a \<notin> arrays m"
  proof -
    have ts: "(\<Union>u \<in> set ts. set (opt_addr (t_at u))) \<subseteq> set (concat (map owned_by ts))" by (auto simp: owned_by_def)
    have "a \<in> h_at ` set (t_items t)" using d by simp
    then show ?thesis using mem_okD(3) [OF ok] ts unfolding arrays_Cons [OF st] owned_Cons [OF st] by auto
  qed
  ultimately show "a \<in> dom (data_blocks m)" by (auto simp: data_blocks_Some)
qed

lemma DataAdd_new:
  assumes A: "good_allocator A" and ok: "mem_ok m" and st: "stacks m \<noteq> []" and a: "result m a (Bytes v) m1" and b: "result m1 b (Bytes w) m2"
  shows "\<exists>r m'. DataAdd_h A a b m2 = Inr (r, m') \<and> result m r (Bytes (v @ w)) m'"
proof -
  have s1: "stacks m1 \<noteq> []" using a st by (simp add: result_def)
  have na: "data_blocks m (h_at a) = None" and nb: "data_blocks m1 (h_at b) = None"
    and d1: "data_blocks m1 = (data_blocks m)(h_at a \<mapsto> v)" and d2: "data_blocks m2 = (data_blocks m1)(h_at b \<mapsto> w)"
    and c1: "current m1 = insert (h_at a) (current m)" and c2: "current m2 = insert (h_at b) (current m1)"
    using a b st s1 by (auto simp: result_def)
  have ne: "h_at b \<noteq> h_at a" using nb d1 by auto
  have ha: "holds m2 a (Bytes v)" by (rule result_keeps [OF b result_holds [OF a]])
  have hb: "holds m2 b (Bytes w)" by (rule result_holds [OF b])
  have ca: "h_at a \<in> current m2" using c1 c2 by simp
  obtain r m3 where r: "DataAppend_h A a b m2 = Inr (r, m3)" "moved m2 (h_at a) r (v @ w) m3"
    using DataAppend_works [OF A result_ok [OF b] ha ca hb ne] by auto
  have rb: "h_at r \<noteq> h_at b" using r(2) ne d2 by (auto simp: moved_def)
  have hb3: "holds m3 b (Bytes w)" by (rule moved_keeps [OF r(2) hb]) (use ne in simp)
  have cb: "h_at b \<in> current m3" using r(2) c2 ne by (simp add: moved_def)
  have ok3: "mem_ok m3" using r(2) by (simp add: moved_def)
  obtain m4 where m4: "DataFree b m3 = Inr (null, m4)" "freed m3 (h_at b) m4" using DataFree_works [OF ok3 hb3 cb] by blast
  have e: "DataAdd_h A a b m2 = Inr (r, m4)" using r(1) m4(1) by (simp add: DataAdd_h_def bindM_def)
  have rn: "data_blocks m (h_at r) = None" using r(2) na nb rb d1 d2 by (auto simp: moved_def split: if_splits)
  have d4: "data_blocks m4 = (data_blocks m)(h_at r \<mapsto> v @ w)"
    using m4(2) r(2) d1 d2 na nb ne rb by (auto simp: freed_def moved_def fun_eq_iff)
  have "h_at a \<notin> current m" "h_at b \<notin> current m1"
    using current_dom [OF ok] current_dom [OF result_ok [OF a]] na nb by blast+
  then have "h_at a \<notin> current m" "h_at b \<notin> current m" using c1 by simp_all
  then have c4: "current m4 = insert (h_at r) (current m)"
    using m4(2) r(2) c1 c2 ne rb by (auto simp: freed_def moved_def)
  have t4: "tl (stacks m4) = tl (stacks m)" "stacks m4 \<noteq> []" "mem_ok m4" "length (v @ w) = h_len r"
    using m4(2) r(2) a b by (auto simp: freed_def moved_def result_def)
  have "result m r (Bytes (v @ w)) m4"
    unfolding result_def using t4 st rn d4 c4 by simp
  with e show ?thesis by blast
qed

end
