(* ===== verification/Memory_Functions.thy ===== *)
theory Memory_Functions
  imports Memory_Flow
begin

text \<open>
  Functions of \<open>src/code/BTCUtil.c\<close> down to the heap, with their scopes: each computes what its
  function of the contents level says and leaves nothing behind but its result.
\<close>

section \<open>Functions between push and pop\<close>

definition uint8D_h :: "allocator \<Rightarrow> u8 \<Rightarrow> handle step" where
  "uint8D_h A number = DataCopy_h A (le_bytes 1 number)"

definition uint16D_h :: "allocator \<Rightarrow> u16 \<Rightarrow> handle step" where
  "uint16D_h A number = DataCopy_h A (le_bytes 2 number)"

definition uint32D_h :: "allocator \<Rightarrow> u32 \<Rightarrow> handle step" where
  "uint32D_h A number = DataCopy_h A (le_bytes 4 number)"

definition pushData_h :: "allocator \<Rightarrow> u32 \<Rightarrow> handle step" where
  "pushData_h A amount =
     (if amount AND 0xFFFF0000 \<noteq> 0 then
        bindM (uint8D_h A OP_PUSHDATA4) (\<lambda>a. bindM (uint32D_h A amount) (\<lambda>b. DataAdd_h A a b))
      else if amount AND 0xFF00 \<noteq> 0 then
        bindM (uint8D_h A OP_PUSHDATA2) (\<lambda>a. bindM (uint16D_h A (ucast amount)) (\<lambda>b. DataAdd_h A a b))
      else if amount \<ge> ucast OP_PUSHDATA1 then
        bindM (uint8D_h A OP_PUSHDATA1) (\<lambda>a. bindM (uint8D_h A (ucast amount)) (\<lambda>b. DataAdd_h A a b))
      else uint8D_h A (ucast amount))"

definition scriptPush_h :: "allocator \<Rightarrow> handle \<Rightarrow> handle step" where
  "scriptPush_h A d = scoped A (bindM (pushData_h A (of_nat (h_len d))) (\<lambda>p. DataAddCopy_h A p d))"

definition sha256_h :: "allocator \<Rightarrow> handle \<Rightarrow> handle step" where
  "sha256_h A d =
     (if h_at d = 0 then (\<lambda>m. Inr (null, m))
      else bindM (DataNew_h A 32) (\<lambda>r. bindM (read d) (\<lambda>bs.
        write_at r 0 (sha256_final (sha256_update (sha256_init (replicate 64 0)) bs)))))"

text \<open>The digest is computed in local variables and copied.\<close>

definition ripemd160_h :: "allocator \<Rightarrow> handle \<Rightarrow> handle step" where
  "ripemd160_h A d = bindM (DataTrackPush A) (\<lambda>_.
     if h_at d = 0 then DTPopNull A
     else bindM (read d) (\<lambda>bs. bindM (DataCopy_h A (dbytes (ripemd160 (Bytes bs)))) (DTPop A)))"

definition hash160_h :: "allocator \<Rightarrow> handle \<Rightarrow> handle step" where
  "hash160_h A d = scoped A (bindM (sha256_h A d) (ripemd160_h A))"

definition hash256_h :: "allocator \<Rightarrow> handle \<Rightarrow> handle step" where
  "hash256_h A d = scoped A (bindM (sha256_h A d) (sha256_h A))"

text \<open>A function from a value to a value, on the heap.\<close>

definition computes :: "(handle \<Rightarrow> handle step) \<Rightarrow> (data \<Rightarrow> data) \<Rightarrow> bool" where
  "computes f g \<longleftrightarrow> (\<forall>m d v. mem_ok m \<and> holds m d v \<longrightarrow> (\<exists>r m'. f d m = Inr (r, m') \<and> result m r (g v) m'))"

lemma computesD: "computes f g \<Longrightarrow> mem_ok m \<Longrightarrow> holds m d v \<Longrightarrow> \<exists>r m'. f d m = Inr (r, m') \<and> result m r (g v) m'"
  by (simp add: computes_def)

text \<open>Composition inside a scope: the result of the first function is garbage of the scope.\<close>

lemma computes_scoped:
  assumes A: "good_allocator A" and f: "computes f g" and f': "computes f' g'"
  shows "computes (\<lambda>d. scoped A (bindM (f d) f')) (g' \<circ> g)"
  unfolding computes_def
proof (intro allI impI)
  fix m d v
  assume m: "mem_ok m \<and> holds m d v"
  have "scope_body m (bindM (f d) f') (g' (g v))"
    unfolding scope_body_def
  proof (intro allI impI)
    fix m1 assume m1: "mem_ok m1 \<and> stacks m1 = \<lparr>t_at = 0, t_items = []\<rparr> # stacks m \<and> data_blocks m1 = data_blocks m"
    have h: "holds m1 d v" using m m1 by (cases v) simp_all
    have i: "inside m1 m1" using m1 by (intro inside_refl) auto
    obtain r1 m2 where r1: "f d m1 = Inr (r1, m2)" "result m1 r1 (g v) m2" using computesD [OF f] m1 h by blast
    obtain r2 m3 where r2: "f' r1 m2 = Inr (r2, m3)" "result m2 r2 (g' (g v)) m3"
      using computesD [OF f' result_ok [OF r1(2)] result_holds [OF r1(2)]] by blast
    note i2 = result_inside [OF i r1(2)]
    have "bindM (f d) f' m1 = Inr (r2, m3)" using r1(1) r2(1) by (simp add: bindM_def)
    then show "\<exists>r m2. bindM (f d) f' m1 = Inr (r, m2) \<and> inside m1 m2 \<and> holds m2 r (g' (g v))
        \<and> (g' (g v) \<noteq> DataNull \<longrightarrow> h_at r \<notin> dom (data_blocks m))"
      using result_inside [OF i2 r2(2)] result_holds [OF r2(2)] result_new [OF i2 r2(2)] m1 by auto
  qed
  from scoped_works [OF A _ this] m show "\<exists>r m'. scoped A (bindM (f d) f') m = Inr (r, m') \<and> result m r ((g' \<circ> g) v) m'" by simp
qed

lemma sha256_h_computes:
  assumes A: "good_allocator A"
  shows "computes (sha256_h A) sha256"
  unfolding computes_def
proof (intro allI impI)
  fix m d v
  assume m: "mem_ok m \<and> holds m d v"
  show "\<exists>r m'. sha256_h A d m = Inr (r, m') \<and> result m r (sha256 v) m'"
  proof (cases v)
    case DataNull
    then show ?thesis using m by (auto simp: sha256_h_def sha256_def null_def result_def)
  next
    case (Bytes bs)
    let ?h = "sha256_final (sha256_update (sha256_init (replicate 64 0)) bs)"
    have nz: "h_at d \<noteq> 0" using holds_null [of m d v] m Bytes by simp
    obtain r m1 where r: "DataNew_h A 32 m = Inr (r, m1)" "result m r (Bytes (replicate 32 0x33)) m1"
      using DataNew_works [OF A] m by blast
    have "holds m1 d v" using result_keeps [OF r(2)] m by blast
    then have rd: "read d m1 = Inr (bs, m1)" using read_works [OF result_ok [OF r(2)]] Bytes by fastforce
    have l: "length ?h = 32" using sha256_eq_spec [of bs] length_sha256_spec [of bs] by (simp add: sha256_def)
    from result_write [OF r(2), of 0 ?h] l obtain m2 where "write_at r 0 ?h m1 = Inr (r, m2)" "result m r (Bytes ?h) m2" by auto
    then show ?thesis using r(1) nz rd Bytes by (auto simp: sha256_h_def bindM_def sha256_def)
  qed
qed

text \<open>The state right after a push.\<close>

definition pushed :: "mem \<Rightarrow> mem \<Rightarrow> bool" where
  "pushed m m1 \<longleftrightarrow> mem_ok m1 \<and> stacks m1 = \<lparr>t_at = 0, t_items = []\<rparr> # stacks m \<and> data_blocks m1 = data_blocks m"

lemma push_pushed:
  assumes "good_allocator A" "mem_ok m"
  shows "\<exists>m1. DataTrackPush A m = Inr ((), m1) \<and> pushed m m1"
  using DataTrackPush_works [OF assms] by (metis pushed_def)

lemma pushedD:
  assumes "pushed m m1"
  shows "mem_ok m1" "inside m1 m1" "holds m d v \<Longrightarrow> holds m1 d v" "stacks m1 \<noteq> []"
  using assms by (auto simp: pushed_def intro: inside_refl) (cases v; simp add: pushed_def)

lemma scope_bodyI:
  "(\<And>m1. pushed m m1 \<Longrightarrow> \<exists>r m2. f m1 = Inr (r, m2) \<and> inside m1 m2 \<and> holds m2 r v \<and> (v \<noteq> DataNull \<longrightarrow> h_at r \<notin> dom (data_blocks m1)))
     \<Longrightarrow> scope_body m f v"
  by (fastforce simp: scope_body_def pushed_def)

lemma pop_null_works:
  assumes A: "good_allocator A" and p: "pushed m m1"
  shows "\<exists>m'. DTPopNull A m1 = Inr (null, m') \<and> result m null DataNull m'"
proof -
  have m1: "mem_ok m1" "stacks m1 = \<lparr>t_at = 0, t_items = []\<rparr> # stacks m" "data_blocks m1 = data_blocks m" using p by (simp_all add: pushed_def)
  obtain m2 where m2: "DataTrackPop A m1 = Inr ((), m2)" "mem_ok m2" "stacks m2 = stacks m" "data_blocks m2 = kept m1"
    by (rule DataTrackPop_works [OF A m1(1,2)])
  have "kept m1 = data_blocks m" using m1 by (simp add: kept_def current_def restrict_map_def)
  then have "result m null DataNull m2" using m2 by (simp add: result_def current_def)
  then show ?thesis using m2(1) by (simp add: DTPopNull_def bindM_def)
qed

lemma ripemd160_h_computes:
  assumes A: "good_allocator A"
  shows "computes (ripemd160_h A) ripemd160"
  unfolding computes_def
proof (intro allI impI)
  fix m d v
  assume m: "mem_ok m \<and> holds m d v"
  obtain m1 where m1: "DataTrackPush A m = Inr ((), m1)" "pushed m m1" using push_pushed [OF A] m by blast
  show "\<exists>r m'. ripemd160_h A d m = Inr (r, m') \<and> result m r (ripemd160 v) m'"
  proof (cases v)
    case DataNull
    then have "h_at d = 0" using m by (simp add: null_def)
    then show ?thesis using pop_null_works [OF A m1(2)] m1(1) DataNull by (auto simp: ripemd160_h_def bindM_def ripemd160_def)
  next
    case (Bytes bs)
    let ?h = "dbytes (ripemd160 v)"
    have v: "ripemd160 v = Bytes ?h" by (simp add: Bytes ripemd160_def Let_def split_beta)
    have nz: "h_at d \<noteq> 0" using holds_null [of m d v] m Bytes by simp
    have h1: "holds m1 d v" using pushedD(3) [OF m1(2)] m by blast
    then have rd: "read d m1 = Inr (bs, m1)" using read_works [OF pushedD(1) [OF m1(2)]] Bytes by fastforce
    obtain r m2 where r: "DataCopy_h A ?h m1 = Inr (r, m2)" "result m1 r (Bytes ?h) m2" using DataCopy_works [OF A pushedD(1) [OF m1(2)]] by blast
    have "inside m1 m2" by (rule result_inside [OF pushedD(2) [OF m1(2)] r(2)])
    moreover have "h_at r \<notin> dom (data_blocks m)" using result_new [OF pushedD(2) [OF m1(2)] r(2)] m1(2) by (simp add: pushed_def)
    ultimately obtain m' where "DTPop A r m2 = Inr (r, m')" "result m r (ripemd160 v) m'"
      using DTPop_works [OF A, of m1 m2 m r "ripemd160 v"] m1(2) result_holds [OF r(2)] v by (auto simp: pushed_def)
    then show ?thesis using m1(1) nz rd r(1) Bytes by (auto simp: ripemd160_h_def bindM_def)
  qed
qed

lemma hash160_h_computes: "good_allocator A \<Longrightarrow> computes (hash160_h A) hash160"
  using computes_scoped [OF _ sha256_h_computes ripemd160_h_computes, of A A A]
  by (simp add: hash160_h_def [abs_def] hash160_def [abs_def] comp_def)

lemma hash256_h_computes: "good_allocator A \<Longrightarrow> computes (hash256_h A) hash256"
  using computes_scoped [OF _ sha256_h_computes sha256_h_computes, of A A A]
  by (simp add: hash256_h_def [abs_def] hash256_def [abs_def] comp_def)

lemma add_new_buffers:
  assumes A: "good_allocator A" and ok: "mem_ok m" and st: "stacks m \<noteq> []"
  shows "\<exists>r m'. bindM (DataCopy_h A v) (\<lambda>a. bindM (DataCopy_h A w) (\<lambda>b. DataAdd_h A a b)) m = Inr (r, m') \<and> result m r (Bytes (v @ w)) m'"
proof -
  obtain a m1 where a: "DataCopy_h A v m = Inr (a, m1)" "result m a (Bytes v) m1" using DataCopy_works [OF A ok] by blast
  obtain b m2 where b: "DataCopy_h A w m1 = Inr (b, m2)" "result m1 b (Bytes w) m2" using DataCopy_works [OF A result_ok [OF a(2)]] by blast
  from DataAdd_new [OF A ok st a(2) b(2)] a(1) b(1) show ?thesis by (auto simp: bindM_def)
qed

lemma DataAdd_two_Bytes: "v \<noteq> [] \<Longrightarrow> DataAdd (Bytes v) (Bytes w) = Bytes (v @ w)"
  by (cases "w = []") (simp_all add: DataAdd_def DataAppend_def DataResize_def Let_def)

lemma pushData_h_works:
  assumes A: "good_allocator A" and ok: "mem_ok m" and st: "stacks m \<noteq> []"
  shows "\<exists>r m'. pushData_h A n m = Inr (r, m') \<and> result m r (pushData n) m'"
proof -
  have ne: "le_bytes 1 (w :: u8) \<noteq> []" for w using length_le_bytes [of 1 w] by (metis length_0_conv zero_neq_one)
  note new = add_new_buffers [OF A ok st]
  show ?thesis
    unfolding pushData_h_def pushData_def uint8D_h_def uint16D_h_def uint32D_h_def uint8D_def uint16D_def uint32D_def
    unfolding DataAdd_two_Bytes [OF ne] if_distribR
    by (intro conjI impI new DataCopy_works [OF A ok] | simp only: if_True if_False simp_thms split: if_split)+
qed

lemma scriptPush_h_scoped:
  assumes A: "good_allocator A"
  shows "computes (scriptPush_h A) scriptPush"
  unfolding computes_def
proof (intro allI impI)
  fix m d v
  assume m: "mem_ok m \<and> holds m d v"
  have "scope_body m (bindM (pushData_h A (of_nat (h_len d))) (\<lambda>p. DataAddCopy_h A p d)) (scriptPush v)"
  proof (rule scope_bodyI)
    fix m1 assume p: "pushed m m1"
    have h: "holds m1 d v" using pushedD(3) [OF p] m by blast
    obtain a m2 where a: "pushData_h A (of_nat (h_len d)) m1 = Inr (a, m2)" "result m1 a (pushData (of_nat (h_len d))) m2"
      using pushData_h_works [OF A pushedD(1,4) [OF p]] by blast
    obtain r m3 where r: "DataAddCopy_h A a d m2 = Inr (r, m3)" "result m2 r (scriptPush v) m3"
      using DataAddCopy_works [OF A result_ok [OF a(2)] result_holds [OF a(2)] result_keeps [OF a(2) h]] holds_len [OF h]
      by (auto simp: scriptPush_def)
    note i2 = result_inside [OF pushedD(2) [OF p] a(2)]
    show "\<exists>r m2. bindM (pushData_h A (of_nat (h_len d))) (\<lambda>p. DataAddCopy_h A p d) m1 = Inr (r, m2) \<and> inside m1 m2
        \<and> holds m2 r (scriptPush v) \<and> (scriptPush v \<noteq> DataNull \<longrightarrow> h_at r \<notin> dom (data_blocks m1))"
      using a(1) r(1) result_inside [OF i2 r(2)] result_holds [OF r(2)] result_new [OF i2 r(2)] by (simp add: bindM_def)
  qed
  from scoped_works [OF A _ this] m show "\<exists>r m'. scriptPush_h A d m = Inr (r, m') \<and> result m r (scriptPush v) m'"
    by (simp add: scriptPush_h_def)
qed

text \<open>
  C26. A function body between push and pop leaves nothing behind but its result: if the body, started
  in a new scope, returns a buffer and has only added blocks of its scope, the whole function
  returns that buffer, every other block is as before and the caller's scope owns exactly one more
  buffer. The memory stays well formed, so its count of allocations is right.
\<close>

theorem scope_leaves_only_its_result:
  assumes "good_allocator A" "mem_ok m" "scope_body m f v"
  shows "\<exists>r m'. scoped A f m = Inr (r, m') \<and> mem_ok m' \<and> holds m' r v \<and> tl (stacks m') = tl (stacks m)
    \<and> data_blocks m' = (if v = DataNull then data_blocks m else (data_blocks m)(h_at r \<mapsto> dbytes v))
    \<and> (v \<noteq> DataNull \<longrightarrow> data_blocks m (h_at r) = None)
    \<and> (stacks m \<noteq> [] \<longrightarrow> current m' = current m \<union> (if v = DataNull then {} else {h_at r}))"
proof -
  obtain r m' where "scoped A f m = Inr (r, m')" "result m r v m'" using scoped_works [OF assms] by blast
  then show ?thesis by (cases v) (auto simp: result_def)
qed

lemma copy_body:
  assumes A: "good_allocator A"
  shows "scope_body m (DataCopy_h A bs) (Bytes bs)"
proof (rule scope_bodyI)
  fix m1 assume p: "pushed m m1"
  obtain r m2 where "DataCopy_h A bs m1 = Inr (r, m2)" "result m1 r (Bytes bs) m2" using DataCopy_works [OF A pushedD(1) [OF p]] by blast
  then show "\<exists>r m2. DataCopy_h A bs m1 = Inr (r, m2) \<and> inside m1 m2 \<and> holds m2 r (Bytes bs) \<and> (Bytes bs \<noteq> DataNull \<longrightarrow> h_at r \<notin> dom (data_blocks m1))"
    using result_inside [OF pushedD(2) [OF p]] result_holds result_new [OF pushedD(2) [OF p]] by blast
qed

theorem scope_leaves_only_its_result_witness:
  "\<exists>r m'. scoped bump (DataCopy_h bump [1, 2]) empty_mem = Inr (r, m') \<and> mem_ok m' \<and> holds m' r (Bytes [1, 2])
    \<and> data_blocks m' = [h_at r \<mapsto> [1, 2]]"
proof -
  have "data_blocks empty_mem = Map.empty" by (simp add: data_blocks_def empty_mem_def block_def restrict_map_def fun_eq_iff)
  then show ?thesis
    using scope_leaves_only_its_result [OF good_bump empty_mem_ok copy_body [OF good_bump], of "[1, 2]"] by auto
qed

text \<open>
  On the heap, with its temporary buffers, the resizing that may move them and the freeing of the
  second summand, \<open>scriptPush\<close> returns the bytes the contents level says, in one new buffer of the
  caller's scope, and no other block is left or changed.
\<close>

lemma scriptPush_on_heap:
  assumes "good_allocator A" "mem_ok m" "holds m d v"
  shows "\<exists>r m'. scriptPush_h A d m = Inr (r, m') \<and> result m r (scriptPush v) m'"
  using scriptPush_h_scoped [OF assms(1)] assms(2,3) by (rule computesD)

end
