(* ===== verification/Memory_Breaks.thy ===== *)
theory Memory_Breaks
  imports Memory_Functions
begin

text \<open>
  Two ways of resizing a tracked buffer that break its scope, for every memory the scope starts in.
\<close>

section \<open>Resizing that breaks the scope\<close>

text \<open>
  A tracked buffer that shrinks in place keeps the old length in the track stack; freeing fills that
  many bytes.
\<close>

definition shrink_and_leave :: "allocator \<Rightarrow> nat \<Rightarrow> nat \<Rightarrow> unit step" where
  "shrink_and_leave A n k =
     bindM (DataTrackPush A) (\<lambda>_. bindM (DataNew_h A n) (\<lambda>d. bindM (DataResize_h A d k) (\<lambda>_. DataTrackPop A)))"

text \<open>
  Leaving a scope after a buffer of it was shrunk in place writes beyond the buffer: whatever the
  memory was, making a buffer of \<open>n\<close> bytes, resizing it to fewer and leaving the scope is an access
  outside the allocation, when \<open>realloc\<close> shrinks in place.
\<close>

lemma shrunk_buffer_overrun:
  assumes A: "good_allocator A" and ok: "mem_ok m" and k: "0 < k" "k < n" and stay: "\<And>used a. stays A used a k"
  shows "shrink_and_leave A n k m = Inl Fault"
proof -
  obtain m1 where m1: "DataTrackPush A m = Inr ((), m1)" "pushed m m1" using push_pushed [OF A ok] by blast
  then have ok1: "mem_ok m1" and st1: "stacks m1 = \<lparr>t_at = 0, t_items = []\<rparr> # stacks m" by (simp_all add: pushed_def)
  obtain r m2 b where r: "DataNew_h A n m1 = Inr (r, m2)" "mem_ok m2" "stacks m2 = \<lparr>t_at = b, t_items = [] @ [r]\<rparr> # stacks m" "b \<noteq> 0"
    "data_blocks m2 = (data_blocks m1)(h_at r \<mapsto> replicate n 0x33)" "h_len r = n" "data_blocks m1 (h_at r) = None"
    by (rule DataNew_entry [OF A ok1 st1, of n]) simp
  have bl: "block m2 (h_at r) = Some (replicate n 0x33)" using r(5) data_blocks_Some [of m2 "h_at r" "replicate n 0x33"] by simp
  have nz: "h_at r \<noteq> 0" using bl mem_okD(8) [OF r(2)] by (metis option.distinct(1))
  let ?new = "replicate k (0x33 :: u8)" and ?d = "\<lparr>h_at = h_at r, h_len = k\<rparr>"
  let ?m3 = "put_block (h_at r) (replicate k (0x33 :: u8)) m2"
  have rs: "resize_block A r k m2 = Inr (?d, ?m3)"
    using k nz bl stay r(6) by (simp add: resize_block_def realloc_block_def Let_def set_bytes_def)
  have rz: "DataResize_h A r k m2 = Inr (?d, ?m3)" using rs k r(6) by (simp add: DataResize_h_def)
  have tr: "DataIsTracked ?m3 r = 1" using r(3) by (simp add: DataIsTracked_def DatasHasData_def)
  have fr: "DataFreeFlexible r False ?m3 = Inl Fault"
    using tr k r(6) nz by (simp add: DataFreeFlexible_def set_bytes_def Let_def)
  have "DataTrackPop A ?m3 = Inl Fault"
    using r(3,4) fr by (simp add: DataTrackPop_def DatasFreeFlexible_def)
  then show ?thesis using m1(1) r(1) rz by (simp add: shrink_and_leave_def bindM_def)
qed

text \<open>
  Two tracked buffers that are resized to nothing leave two null entries in the track stack, which
  the scope takes for one buffer tracked twice.
\<close>

definition empty_two_and_leave :: "allocator \<Rightarrow> nat \<Rightarrow> nat \<Rightarrow> unit step" where
  "empty_two_and_leave A n k =
     bindM (DataTrackPush A) (\<lambda>_. bindM (DataNew_h A n) (\<lambda>d. bindM (DataNew_h A k) (\<lambda>e.
     bindM (DataResize_h A d 0) (\<lambda>_. bindM (DataResize_h A e 0) (\<lambda>_. DataTrackPop A)))))"

lemma resize_to_0:
  assumes d: "block m (h_at d) \<noteq> None" "h_at d \<noteq> 0" "h_len d \<noteq> 0" and st: "stacks m = t # ts" and t: "h_at d \<in> h_at ` set (t_items t)"
  shows "DataResize_h A d 0 m = Inr (null, (drop_block (h_at d) m)\<lparr>stacks :=
    t\<lparr>t_items := map (\<lambda>x. if h_at x = h_at d then null else x) (t_items t)\<rparr> # ts\<rparr>)"
proof -
  let ?items = "map (\<lambda>x. if h_at x = h_at d then null else x) (t_items t)"
  have rs: "resize_block A d 0 m = Inr (null, drop_block (h_at d) m)"
    using d by (auto simp: resize_block_def free_block_def null_def)
  from t obtain x where x: "x \<in> set (t_items t)" "h_at x = h_at d" by auto
  have "null \<in> set ?items" using x by (auto simp del: if_image_distrib intro: rev_image_eqI)
  then have "DatasHasData ?items null \<noteq> 0" by (simp add: has_data_0 del: set_map)
  moreover have "DatasHasData (t_items t) d \<noteq> 0" using t by (simp add: has_data_0)
  ultimately have "DataReplaceTrack d null (drop_block (h_at d) m) = Inr (null, (drop_block (h_at d) m)\<lparr>stacks := t\<lparr>t_items := ?items\<rparr> # ts\<rparr>)"
    using st by (simp add: DataReplaceTrack_def DatasReplaceData_def Let_def)
  then show ?thesis
    using rs d st t by (simp add: DataResize_h_def DataIsTracked_def has_data_0 null_def)
qed

lemma emptied_buffers_abort:
  assumes A: "good_allocator A" and ok: "mem_ok m" and n: "0 < n" "0 < k"
  shows "empty_two_and_leave A n k m = Inl Abort"
proof -
  obtain m1 where m1: "DataTrackPush A m = Inr ((), m1)" "pushed m m1" using push_pushed [OF A ok] by blast
  then have ok1: "mem_ok m1" and st1: "stacks m1 = \<lparr>t_at = 0, t_items = []\<rparr> # stacks m" by (simp_all add: pushed_def)
  obtain d m2 b where d: "DataNew_h A n m1 = Inr (d, m2)" "mem_ok m2" "stacks m2 = \<lparr>t_at = b, t_items = [] @ [d]\<rparr> # stacks m" "b \<noteq> 0"
    "data_blocks m2 = (data_blocks m1)(h_at d \<mapsto> replicate n 0x33)" "h_len d = n" "data_blocks m1 (h_at d) = None"
    by (rule DataNew_entry [OF A ok1 st1, of n]) simp
  then have st2: "stacks m2 = \<lparr>t_at = b, t_items = [d]\<rparr> # stacks m" by simp
  obtain e m3 c where e: "DataNew_h A k m2 = Inr (e, m3)" "mem_ok m3" "stacks m3 = \<lparr>t_at = c, t_items = [d] @ [e]\<rparr> # stacks m" "c \<noteq> 0"
    "data_blocks m3 = (data_blocks m2)(h_at e \<mapsto> replicate k 0x33)" "h_len e = k" "data_blocks m2 (h_at e) = None"
    by (rule DataNew_entry [OF A d(2) st2, of k]) simp
  then have st3: "stacks m3 = \<lparr>t_at = c, t_items = [d, e]\<rparr> # stacks m" by simp
  have ne: "h_at d \<noteq> h_at e" using e(7) d(5) by auto
  have be: "block m3 (h_at d) \<noteq> None" "block m3 (h_at e) \<noteq> None"
    using e(5) d(5) ne data_blocks_Some [of m3 "h_at d"] data_blocks_Some [of m3 "h_at e"] by auto
  have nz: "h_at d \<noteq> 0" "h_at e \<noteq> 0" using be mem_okD(8) [OF e(2)] by metis+
  let ?m4 = "(drop_block (h_at d) m3)\<lparr>stacks := \<lparr>t_at = c, t_items = [null, e]\<rparr> # stacks m\<rparr>"
  have r1: "DataResize_h A d 0 m3 = Inr (null, ?m4)"
    using resize_to_0 [OF be(1) nz(1) _ st3] ne n d(6) by simp
  let ?m5 = "(drop_block (h_at e) ?m4)\<lparr>stacks := \<lparr>t_at = c, t_items = [null, null]\<rparr> # stacks m\<rparr>"
  have r2: "DataResize_h A e 0 ?m4 = Inr (null, ?m5)"
    using resize_to_0 [of ?m4 e "\<lparr>t_at = c, t_items = [null, e]\<rparr>" "stacks m" A] be(2) nz ne n e(6) by (simp add: null_def)
  have "DataTrackPop A ?m5 = Inl Abort"
    using e(4) by (simp add: DataTrackPop_def DatasFreeFlexible_def DataFreeFlexible_def DataIsTracked_def DatasHasData_def)
  then show ?thesis using m1(1) d(1) e(1) r1 r2 by (simp add: empty_two_and_leave_def bindM_def)
qed

end
