(* ===== verification/Work_Queue.thy ===== *)
theory Work_Queue
  imports Dictionaries
begin

text \<open>
  The work queues of \<open>src/code/WorkQueue.c\<close>. A queue is the list of its items in the order they were
  added; a function pointer is its address, and what calling it does is the argument \<open>run\<close>, which may
  change the queue itself. The clock is the function \<open>clock\<close> from the number of the reading to the
  reading. The second half is the interplay of a thread that adds work with the thread that executes
  it, as a step relation whose steps are the parts of the code between lock operations.
\<close>

section \<open>Queues and their operations\<close>

record work_item =
  item_func :: u64
  item_dict :: dictionary
  executeTimeMilliseconds :: u64

record work_queue =
  queue :: "work_item list"
  waitingToDestroy :: bool

record timeval =
  tv_sec :: u64
  tv_usec :: u64

definition milliseconds :: "timeval \<Rightarrow> u64" where
  "milliseconds tv = tv_sec tv * 1000 + tv_usec tv div 1000"

definition WorkQueueNew :: work_queue where
  "WorkQueueNew = \<lparr>queue = [], waitingToDestroy = False\<rparr>"

definition WorkQueueAddDelayed :: "work_queue \<Rightarrow> u64 \<Rightarrow> dictionary \<Rightarrow> u64 \<Rightarrow> timeval \<Rightarrow> work_queue" where
  "WorkQueueAddDelayed self func d delay tv =
     (let item = \<lparr>item_func = func, item_dict = DictionaryCopy d, executeTimeMilliseconds = delay\<rparr>;
          item = if delay \<noteq> 0
            then item\<lparr>executeTimeMilliseconds := executeTimeMilliseconds item + tv_sec tv * 1000 + tv_usec tv div 1000\<rparr>
            else item
      in self\<lparr>queue := queue self @ [item]\<rparr>)"

text \<open>Without a delay the clock is not read.\<close>

definition WorkQueueAdd :: "work_queue \<Rightarrow> u64 \<Rightarrow> dictionary \<Rightarrow> work_queue" where
  "WorkQueueAdd self func d = WorkQueueAddDelayed self func d 0 \<lparr>tv_sec = 0, tv_usec = 0\<rparr>"

text \<open>
  Removal walks over the queue by index; after a removal the same index is looked at again.
\<close>

function WorkQueueRemove_loop :: "(u64 \<Rightarrow> dictionary \<Rightarrow> bool) \<Rightarrow> nat \<Rightarrow> work_item list \<Rightarrow> work_item list" where
  "WorkQueueRemove_loop removalTest i items =
     (if i < length items
      then let item = items ! i in
        if removalTest (item_func item) (item_dict item)
        then WorkQueueRemove_loop removalTest i (take i items @ drop (i + 1) items)
        else WorkQueueRemove_loop removalTest (i + 1) items
      else items)"
  by pat_completeness auto
termination by (relation "measure (\<lambda>(_, i, items). length items - i)") auto

declare WorkQueueRemove_loop.simps [simp del]

definition WorkQueueRemove :: "work_queue \<Rightarrow> (u64 \<Rightarrow> dictionary \<Rightarrow> bool) \<Rightarrow> work_queue" where
  "WorkQueueRemove self removalTest = self\<lparr>queue := WorkQueueRemove_loop removalTest 0 (queue self)\<rparr>"

definition functionRemovalTest :: "u64 \<Rightarrow> u64 \<Rightarrow> dictionary \<Rightarrow> bool" where
  "functionRemovalTest p func d \<longleftrightarrow> p = func"

definition WorkQueueRemoveByFunction :: "work_queue \<Rightarrow> u64 \<Rightarrow> work_queue" where
  "WorkQueueRemoveByFunction self func = WorkQueueRemove self (functionRemovalTest func)"

text \<open>The first item whose time has come is taken out of the queue.\<close>

fun WorkQueueGetOne_loop :: "u64 \<Rightarrow> work_item list \<Rightarrow> work_item list \<Rightarrow> (work_item \<times> work_item list) option" where
  "WorkQueueGetOne_loop ms before [] = None"
| "WorkQueueGetOne_loop ms before (item # items) =
     (if executeTimeMilliseconds item \<le> ms then Some (item, before @ items)
      else WorkQueueGetOne_loop ms (before @ [item]) items)"

definition WorkQueueGetOne :: "work_queue \<Rightarrow> timeval \<Rightarrow> (work_item \<times> work_queue) option" where
  "WorkQueueGetOne self tv =
     map_option (\<lambda>(item, items). (item, self\<lparr>queue := items\<rparr>)) (WorkQueueGetOne_loop (milliseconds tv) [] (queue self))"

text \<open>
  \<open>None\<close> stands for not returning. The number of clock readings is passed along.
\<close>

type_synonym 's handler = "u64 \<Rightarrow> dictionary \<Rightarrow> work_queue \<times> 's \<Rightarrow> work_queue \<times> 's"

partial_function (option) WorkQueueExecuteAll :: "(nat \<Rightarrow> timeval) \<Rightarrow> 's handler \<Rightarrow> nat \<Rightarrow> work_queue \<times> 's \<Rightarrow> (nat \<times> work_queue \<times> 's) option" where
  "WorkQueueExecuteAll clock run k st =
     (case WorkQueueGetOne (fst st) (clock k) of None \<Rightarrow> Some (k + 1, st)
      | Some (item, self) \<Rightarrow> WorkQueueExecuteAll clock run (k + 1) (run (item_func item) (item_dict item) (self, snd st)))"

text \<open>One round of the waiting loop: the queue is examined, then the thread goes on or sleeps.\<close>

definition UINT64_MAX :: u64 where
  "UINT64_MAX = 0xffffffffffffffff"

record timespec =
  ts_sec :: u64
  ts_nsec :: u64

datatype wait_outcome = Ready | WaitForever | WaitUntil timespec

definition lowestExecuteTime :: "work_item list \<Rightarrow> u64" where
  "lowestExecuteTime items = fold (\<lambda>item lowest. min lowest (executeTimeMilliseconds item)) items UINT64_MAX"

definition wait_round :: "work_queue \<Rightarrow> timeval \<Rightarrow> wait_outcome" where
  "wait_round self tv =
     (let lowest = lowestExecuteTime (queue self) in
      if waitingToDestroy self \<or> lowest \<le> milliseconds tv then Ready
      else if lowest = UINT64_MAX then WaitForever
      else WaitUntil \<lparr>ts_sec = tv_sec tv + lowest div 1000, ts_nsec = (tv_usec tv + lowest mod 1000) * 1000\<rparr>)"

section \<open>Adding and removing\<close>

lemma remove_loop_filter:
  "WorkQueueRemove_loop removalTest i items
    = take i items @ filter (\<lambda>item. \<not> removalTest (item_func item) (item_dict item)) (drop i items)"
proof (induction removalTest i items rule: WorkQueueRemove_loop.induct)
  case (1 removalTest i items)
  show ?case
  proof (cases "i < length items")
    case True
    then have "drop i items = items ! i # drop (i + 1) items" "take (i + 1) items = take i items @ [items ! i]"
      by (simp_all add: Cons_nth_drop_Suc take_Suc_conv_app_nth)
    with 1 True show ?thesis by (subst WorkQueueRemove_loop.simps) (simp add: Let_def)
  qed (simp add: WorkQueueRemove_loop.simps)
qed

lemma WorkQueueRemove_filter:
  "queue (WorkQueueRemove self removalTest) = filter (\<lambda>item. \<not> removalTest (item_func item) (item_dict item)) (queue self)"
  by (simp add: WorkQueueRemove_def remove_loop_filter)

lemma WorkQueueAdd_queue:
  "queue (WorkQueueAdd self func d) = queue self @ [\<lparr>item_func = func, item_dict = DictionaryCopy d, executeTimeMilliseconds = 0\<rparr>]"
  by (simp add: WorkQueueAdd_def WorkQueueAddDelayed_def)

section \<open>Executing\<close>

abbreviation due :: "u64 \<Rightarrow> work_item \<Rightarrow> bool" where
  "due ms item \<equiv> executeTimeMilliseconds item \<le> ms"

lemma get_one_loop:
  "WorkQueueGetOne_loop ms before items = None \<longleftrightarrow> (\<forall>item \<in> set items. \<not> due ms item)"
  "WorkQueueGetOne_loop ms before items = Some (item, left) \<Longrightarrow>
    \<exists>xs ys. items = xs @ item # ys \<and> left = before @ xs @ ys \<and> due ms item \<and> (\<forall>x \<in> set xs. \<not> due ms x)"
proof (induction items arbitrary: before)
  case (Cons i items)
  case 2
  show ?case
  proof (cases "due ms i")
    case True
    with 2 show ?thesis by (intro exI [of _ "[]"] exI [of _ items]) simp
  next
    case False
    with 2 Cons.IH(2) [of "before @ [i]"] obtain xs ys where
      "items = xs @ item # ys" "left = (before @ [i]) @ xs @ ys" "due ms item" "\<forall>x \<in> set xs. \<not> due ms x" by auto
    with False show ?thesis by (intro exI [of _ "i # xs"] exI [of _ ys]) simp
  qed
qed auto

lemma get_one_None: "WorkQueueGetOne self tv = None \<longleftrightarrow> (\<forall>item \<in> set (queue self). \<not> due (milliseconds tv) item)"
  by (simp add: WorkQueueGetOne_def get_one_loop(1))

lemma get_one_Some:
  assumes "WorkQueueGetOne self tv = Some (item, self')"
  obtains xs ys where "queue self = xs @ item # ys" "self' = self\<lparr>queue := xs @ ys\<rparr>" "due (milliseconds tv) item"
    "\<forall>x \<in> set xs. \<not> due (milliseconds tv) x"
proof -
  obtain left where l: "WorkQueueGetOne_loop (milliseconds tv) [] (queue self) = Some (item, left)" "self' = self\<lparr>queue := left\<rparr>"
    using assms by (auto simp: WorkQueueGetOne_def)
  from get_one_loop(2) [OF l(1)] l(2) that show thesis by auto
qed

text \<open>
  What the handlers do: they change the state and append work that is not due before the horizon.
\<close>

definition appends_later :: "u64 \<Rightarrow> 's handler \<Rightarrow> (u64 \<Rightarrow> dictionary \<Rightarrow> 's \<Rightarrow> work_item list) \<Rightarrow> (u64 \<Rightarrow> dictionary \<Rightarrow> 's \<Rightarrow> 's) \<Rightarrow> bool" where
  "appends_later horizon run news effect \<longleftrightarrow>
     (\<forall>f d self s. run f d (self, s) = (self\<lparr>queue := queue self @ news f d s\<rparr>, effect f d s)
       \<and> (\<forall>item \<in> set (news f d s). horizon < executeTimeMilliseconds item))"

definition executed :: "(u64 \<Rightarrow> dictionary \<Rightarrow> 's \<Rightarrow> 's) \<Rightarrow> work_item list \<Rightarrow> 's \<Rightarrow> 's" where
  "executed effect items s = fold (\<lambda>item. effect (item_func item) (item_dict item)) items s"

text \<open>
  What a call that starts with the given reading does to the queue \<open>items\<close>: the items it ws, in
  their order, and the items it leaves.
\<close>

primrec added :: "(u64 \<Rightarrow> dictionary \<Rightarrow> 's \<Rightarrow> work_item list) \<Rightarrow> (u64 \<Rightarrow> dictionary \<Rightarrow> 's \<Rightarrow> 's) \<Rightarrow> work_item list \<Rightarrow> 's \<Rightarrow> work_item list" where
  "added news effect [] s = []"
| "added news effect (item # items) s =
     news (item_func item) (item_dict item) s @ added news effect items (effect (item_func item) (item_dict item) s)"

definition execution :: "(nat \<Rightarrow> timeval) \<Rightarrow> u64 \<Rightarrow> nat \<Rightarrow> nat \<Rightarrow> work_item list \<Rightarrow> work_item list \<Rightarrow> work_item list \<Rightarrow> work_item list \<Rightarrow> bool" where
  "execution clock horizon k k' items ws new left \<longleftrightarrow> k < k'
     \<and> mset ws + mset (filter (due horizon) left) = mset (filter (due horizon) items)
     \<and> filter (due (milliseconds (clock k))) ws = filter (due (milliseconds (clock k))) items
     \<and> filter (\<lambda>item. \<not> due horizon item) left = filter (\<lambda>item. \<not> due horizon item) items @ new
     \<and> (\<forall>item \<in> set left. \<not> due (milliseconds (clock (k' - 1))) item)"

lemma filter_due_mono:
  assumes "(a :: u64) \<le> b" "filter (due b) xs = filter (due b) ys"
  shows "filter (due a) xs = filter (due a) ys"
proof -
  have "filter (due a) (filter (due b) zs) = filter (due a) zs" for zs
    using assms(1) by (auto simp: intro!: filter_cong)
  then show ?thesis using assms(2) by metis
qed

lemma execution_step:
  assumes e: "execution clock horizon (k + 1) k' (xs @ ys @ news) ws new left" and i: "due (milliseconds (clock k)) item"
    and xs: "\<forall>x \<in> set xs. \<not> due (milliseconds (clock k)) x"
    and mono: "milliseconds (clock k) \<le> milliseconds (clock (k + 1))"
    and hor: "\<forall>j. milliseconds (clock j) \<le> horizon"
    and news: "\<forall>n \<in> set news. horizon < executeTimeMilliseconds n"
  shows "execution clock horizon k k' (xs @ item # ys) (item # ws) (news @ new) left"
proof -
  have n: "\<not> due horizon x" "\<not> due (milliseconds (clock k)) x" if "x \<in> set news" for x
    using news hor that by (auto simp: not_le intro: le_less_trans)
  have ih: "due horizon item" using i hor order_trans by blast
  have "filter (due (milliseconds (clock k))) ws = filter (due (milliseconds (clock k))) (xs @ ys @ news)"
    using e by (intro filter_due_mono [OF mono]) (simp add: execution_def)
  then have "filter (due (milliseconds (clock k))) (item # ws) = filter (due (milliseconds (clock k))) (xs @ item # ys)"
    using i xs n by (simp add: filter_empty_conv)
  moreover have "filter (due horizon) news = []" "filter (\<lambda>x. \<not> due horizon x) news = news" using n by (auto simp: filter_empty_conv filter_id_conv)
  ultimately show ?thesis using e ih by (auto simp: execution_def)
qed

lemma ExecuteAll_returns:
  assumes run: "appends_later horizon run news effect" and hor: "\<forall>j. milliseconds (clock j) \<le> horizon"
    and mono: "\<forall>j. milliseconds (clock j) \<le> milliseconds (clock (j + 1))"
  shows "\<exists>k' self' ws. WorkQueueExecuteAll clock run k (self, s) = Some (k', self', executed effect ws s)
    \<and> execution clock horizon k k' (queue self) ws (added news effect ws s) (queue self') \<and> waitingToDestroy self' = waitingToDestroy self"
proof (induction "length (filter (due horizon) (queue self))" arbitrary: k self s rule: less_induct)
  case less
  show ?case
  proof (cases "WorkQueueGetOne self (clock k)")
    case None
    then have "\<forall>item \<in> set (queue self). \<not> due (milliseconds (clock k)) item" by (simp add: get_one_None)
    with None show ?thesis
      by (subst WorkQueueExecuteAll.simps) (auto simp: executed_def execution_def filter_empty_conv intro!: exI [of _ "[]"])
  next
    case (Some r)
    obtain item self1 where r: "r = (item, self1)" by (cases r)
    obtain xs ys where q: "queue self = xs @ item # ys" "self1 = self\<lparr>queue := xs @ ys\<rparr>" "due (milliseconds (clock k)) item"
      "\<forall>x \<in> set xs. \<not> due (milliseconds (clock k)) x" by (rule get_one_Some [OF Some [unfolded r]])
    let ?news = "news (item_func item) (item_dict item) s"
    let ?self = "self\<lparr>queue := xs @ ys @ ?news\<rparr>"
    have st: "run (item_func item) (item_dict item) (self1, s) = (?self, effect (item_func item) (item_dict item) s)"
      using run by (simp add: appends_later_def q(2))
    have nw: "\<forall>n \<in> set ?news. horizon < executeTimeMilliseconds n" using run by (simp add: appends_later_def)
    have "due horizon item" using q(3) hor order_trans by blast
    moreover have "filter (due horizon) ?news = []" using nw by (auto simp: filter_empty_conv not_le)
    ultimately have "length (filter (due horizon) (queue ?self)) < length (filter (due horizon) (queue self))" by (simp add: q(1))
    from less [OF this, of "k + 1" "effect (item_func item) (item_dict item) s"]
    obtain k' self' ws where ih: "WorkQueueExecuteAll clock run (k + 1) (?self, effect (item_func item) (item_dict item) s)
        = Some (k', self', executed effect ws (effect (item_func item) (item_dict item) s))"
      "execution clock horizon (k + 1) k' (queue ?self) ws (added news effect ws (effect (item_func item) (item_dict item) s)) (queue self')" "waitingToDestroy self' = waitingToDestroy self" by auto
    have "WorkQueueExecuteAll clock run k (self, s) = Some (k', self', executed effect (item # ws) s)"
      using Some ih(1) by (subst WorkQueueExecuteAll.simps) (simp add: r st executed_def)
    moreover have "execution clock horizon k k' (queue self) (item # ws) (added news effect (item # ws) s) (queue self')"
      unfolding q(1) using execution_step [of clock horizon k k' xs ys ?news ws _ "queue self'" item] ih(2) q(3,4) mono hor nw by simp
    ultimately show ?thesis using ih(3) by blast
  qed
qed

text \<open>
  C30. If the clock does not run backwards and stays below a horizon, and the handlers only add work
  for after the horizon, \<open>WorkQueueExecuteAll\<close> returns. It has then run every item that was due when it
  was called, those in the order of the queue, and each item it ws once; it leaves no item that was
  due at its last look at the clock; the items for after the horizon stay in order, followed by what
  the handlers added.
\<close>

theorem execute_all_runs_due_work:
  assumes "appends_later horizon run news effect" and "\<forall>j. milliseconds (clock j) \<le> horizon"
    and "\<forall>j. milliseconds (clock j) \<le> milliseconds (clock (j + 1))"
  shows "\<exists>k' self' ws. WorkQueueExecuteAll clock run k (self, s) = Some (k', self', executed effect ws s)
    \<and> mset ws + mset (filter (due horizon) (queue self')) = mset (filter (due horizon) (queue self))
    \<and> filter (due (milliseconds (clock k))) ws = filter (due (milliseconds (clock k))) (queue self)
    \<and> filter (\<lambda>item. \<not> due horizon item) (queue self')
      = filter (\<lambda>item. \<not> due horizon item) (queue self) @ added news effect ws s
    \<and> (\<forall>item \<in> set (queue self'). \<not> due (milliseconds (clock (k' - 1))) item)"
  using ExecuteAll_returns [OF assms] unfolding execution_def by metis

text \<open>A queue with one item due, one item for later, and a handler that counts its calls.\<close>

theorem execute_all_runs_due_work_witness:
  "\<exists>k' self' n. WorkQueueExecuteAll (\<lambda>_. \<lparr>tv_sec = 5, tv_usec = 0\<rparr>) (\<lambda>f d (self, n). (self\<lparr>queue := queue self @ []\<rparr>, n + 1)) 0
    (WorkQueueAddDelayed (WorkQueueAdd WorkQueueNew 7 DictNew) 8 DictNew 100 \<lparr>tv_sec = 5, tv_usec = 0\<rparr>, 0 :: nat) = Some (k', self', n)
    \<and> n = 1"
proof -
  let ?q = "WorkQueueAddDelayed (WorkQueueAdd WorkQueueNew 7 DictNew) 8 DictNew 100 \<lparr>tv_sec = 5, tv_usec = 0\<rparr>"
  have q: "queue ?q = [\<lparr>item_func = 7, item_dict = DictionaryCopy DictNew, executeTimeMilliseconds = 0\<rparr>, \<lparr>item_func = 8, item_dict = DictionaryCopy DictNew, executeTimeMilliseconds = 5100\<rparr>]"
    by (simp add: WorkQueueAddDelayed_def WorkQueueAdd_def WorkQueueNew_def)
  have ap: "appends_later 5000 (\<lambda>f d (self, n). (self\<lparr>queue := queue self @ []\<rparr>, n + 1)) (\<lambda>f d s. []) (\<lambda>f d n. n + 1)"
    by (simp add: appends_later_def)
  have ms: "milliseconds \<lparr>tv_sec = 5, tv_usec = 0\<rparr> = 5000" by (simp add: milliseconds_def)
  obtain k' self' ws where r: "WorkQueueExecuteAll (\<lambda>_. \<lparr>tv_sec = 5, tv_usec = 0\<rparr>) (\<lambda>f d (self, n). (self\<lparr>queue := queue self @ []\<rparr>, n + 1)) 0 (?q, 0 :: nat)
      = Some (k', self', executed (\<lambda>f d n. n + 1) ws 0)"
    "mset ws + mset (filter (due 5000) (queue self')) = mset (filter (due 5000) (queue ?q))"
    "\<forall>item \<in> set (queue self'). \<not> due 5000 item"
    using execute_all_runs_due_work [OF ap, of "\<lambda>_. \<lparr>tv_sec = 5, tv_usec = 0\<rparr>" 0 ?q "0 :: nat"] unfolding ms by blast
  have "filter (due 5000) (queue self') = []" using r(3) by (simp add: filter_empty_conv)
  then have ws: "ws = [\<lparr>item_func = 7, item_dict = DictionaryCopy DictNew, executeTimeMilliseconds = 0\<rparr>]"
    using r(2) by (simp add: q)
  have "executed (\<lambda>f d n. n + 1) ws 0 = (1 :: nat)" by (simp add: ws executed_def)
  then show ?thesis using r(1) by simp
qed

text \<open>A handler that puts itself back into the queue without a delay keeps the call going forever.\<close>

lemma ExecuteAll_may_not_return:
  assumes run: "\<forall>d self s. \<exists>s'. run f d (self, s) = (WorkQueueAdd self f d, s')"
  shows "WorkQueueExecuteAll clock run k (WorkQueueAdd WorkQueueNew f d, s) = None"
proof -
  let ?P = "\<lambda>clock h k st r. h = run \<and> queue (fst st) \<noteq> []
    \<and> (\<forall>item \<in> set (queue (fst st)). item_func item = f \<and> executeTimeMilliseconds item = 0) \<longrightarrow> False"
  have F: "?P clock h k st r" if "WorkQueueExecuteAll clock h k st = Some r" for clock h k st r
    using that
  proof (rule WorkQueueExecuteAll.raw_induct [of ?P, rotated], intro impI, elim conjE)
    fix ExecuteAll clock h k st r
    assume ih: "\<And>clock h k st r. ExecuteAll clock h k st = Some r \<Longrightarrow> ?P clock h k st r"
      and r: "(case WorkQueueGetOne (fst st) (clock k) of None \<Rightarrow> Some (k + 1, st)
        | Some (item, self) \<Rightarrow> ExecuteAll clock h (k + 1) (h (item_func item) (item_dict item) (self, snd st))) = Some r"
      and h: "h = run" and inv: "queue (fst st) \<noteq> []"
        "\<forall>item \<in> set (queue (fst st)). item_func item = f \<and> executeTimeMilliseconds item = 0"
    obtain self s where st: "st = (self, s)" by (cases st)
    from inv have "WorkQueueGetOne self (clock k) \<noteq> None" unfolding get_one_None by (cases "queue self") (auto simp: st)
    then obtain item self' where g: "WorkQueueGetOne self (clock k) = Some (item, self')" by auto
    obtain xs ys where q: "queue self = xs @ item # ys" "self' = self\<lparr>queue := xs @ ys\<rparr>" by (rule get_one_Some [OF g])
    have f: "item_func item = f" using inv(2) q by (simp add: st)
    obtain s' where s': "run f (item_dict item) (self', s) = (WorkQueueAdd self' f (item_dict item), s')" using run by blast
    have "ExecuteAll clock h (k + 1) (WorkQueueAdd self' f (item_dict item), s') = Some r"
      using r s' f by (simp add: st g h)
    from ih [OF this] inv(2) show False by (auto simp: st h q WorkQueueAdd_queue)
  qed
  have "WorkQueueExecuteAll clock run k (WorkQueueAdd WorkQueueNew f d, s) \<noteq> Some r" for r
    using F [of clock run k "(WorkQueueAdd WorkQueueNew f d, s)" r] by (auto simp: WorkQueueAdd_queue WorkQueueNew_def)
  then show ?thesis by (metis option.exhaust)
qed

section \<open>Waiting\<close>

lemma UINT64_MAX_le: "UINT64_MAX \<le> w \<longleftrightarrow> w = UINT64_MAX"
proof -
  have "UINT64_MAX = - 1" by (simp add: UINT64_MAX_def)
  then show ?thesis using word_order.extremum_unique by metis
qed

lemma lowest_le:
  "fold (\<lambda>item lowest. min lowest (executeTimeMilliseconds item)) items m \<le> ms \<longleftrightarrow> m \<le> ms \<or> (\<exists>item \<in> set items. due ms item)"
  by (induction items arbitrary: m) (auto simp: min_le_iff_disj)

lemma wait_round_Ready:
  assumes "milliseconds tv \<noteq> UINT64_MAX"
  shows "wait_round self tv = Ready \<longleftrightarrow> waitingToDestroy self \<or> (\<exists>item \<in> set (queue self). due (milliseconds tv) item)"
  using assms by (simp add: wait_round_def Let_def lowestExecuteTime_def lowest_le UINT64_MAX_le)

text \<open>
  The timed wait adds the time of the first item, which is absolute, to the present: with the clock
  at 1000 seconds and an item for one second later it ends at 2001 seconds.
\<close>

lemma timed_wait_too_long:
  "wait_round \<lparr>queue = [\<lparr>item_func = f, item_dict = d, executeTimeMilliseconds = 1001000\<rparr>], waitingToDestroy = False\<rparr> \<lparr>tv_sec = 1000, tv_usec = 0\<rparr>
    = WaitUntil \<lparr>ts_sec = 2001, ts_nsec = 0\<rparr>"
  by (simp add: wait_round_def lowestExecuteTime_def milliseconds_def UINT64_MAX_def min_def)

section \<open>The thread of a queue\<close>

text \<open>
  Where the executing thread is: at the test of its loop, about to look at the queue, between looking
  and sleeping, asleep, executing, behind the loop, or finished. It holds the execution lock from
  looking until it sleeps and while it executes. Another thread may be between putting an item into
  the queue and waking the sleepers.
\<close>

datatype worker = AtTest | Looking | BeforeWait wait_outcome | Asleep wait_outcome | Executing | Leaving | Finished

record system =
  work :: work_queue
  thread :: worker
  adding :: bool
  time :: timeval

definition holds_execution_lock :: "worker \<Rightarrow> bool" where
  "holds_execution_lock w \<longleftrightarrow> (case w of BeforeWait _ \<Rightarrow> True | Executing \<Rightarrow> True | _ \<Rightarrow> False)"

text \<open>\<open>pthread_cond_broadcast\<close>: who sleeps goes on, for anyone else it is lost.\<close>

definition broadcast :: "worker \<Rightarrow> worker" where
  "broadcast w = (case w of Asleep _ \<Rightarrow> Looking | _ \<Rightarrow> w)"

inductive wq_step :: "system \<Rightarrow> system \<Rightarrow> bool" where
  test: "thread s = AtTest \<Longrightarrow> wq_step s (s\<lparr>thread := if waitingToDestroy (work s) then Leaving else Looking\<rparr>)"
| look: "thread s = Looking \<Longrightarrow>
    wq_step s (s\<lparr>thread := (case wait_round (work s) (time s) of Ready \<Rightarrow> Executing | w \<Rightarrow> BeforeWait w)\<rparr>)"
| sleep: "thread s = BeforeWait w \<Longrightarrow> wq_step s (s\<lparr>thread := Asleep w\<rparr>)"
| timeout: "thread s = Asleep (WaitUntil ts) \<Longrightarrow> ts_sec ts * 1000 + ts_nsec ts div 1000000 \<le> milliseconds (time s) \<Longrightarrow>
    wq_step s (s\<lparr>thread := Looking\<rparr>)"
| execute_one: "thread s = Executing \<Longrightarrow> WorkQueueGetOne (work s) (time s) = Some (item, self) \<Longrightarrow> wq_step s (s\<lparr>work := self\<rparr>)"
| execute_end: "thread s = Executing \<Longrightarrow> WorkQueueGetOne (work s) (time s) = None \<Longrightarrow> wq_step s (s\<lparr>thread := AtTest\<rparr>)"
| add: "\<not> adding s \<Longrightarrow> wq_step s (s\<lparr>work := WorkQueueAddDelayed (work s) f d delay (time s), adding := True\<rparr>)"
| wake: "adding s \<Longrightarrow> wq_step s (s\<lparr>thread := broadcast (thread s), adding := False\<rparr>)"
| remove: "wq_step s (s\<lparr>work := WorkQueueRemove (work s) removalTest\<rparr>)"
| remove_wake: "\<not> holds_execution_lock (thread s) \<Longrightarrow> wq_step s (s\<lparr>thread := broadcast (thread s)\<rparr>)"
| destroy: "\<not> holds_execution_lock (thread s) \<Longrightarrow> thread s \<noteq> Finished \<Longrightarrow>
    wq_step s (s\<lparr>work := (work s)\<lparr>waitingToDestroy := True\<rparr>, thread := broadcast (thread s)\<rparr>)"
| leave: "thread s = Leaving \<Longrightarrow> wq_step s (s\<lparr>work := (work s)\<lparr>waitingToDestroy := False\<rparr>, thread := Finished\<rparr>)"
| tick: "milliseconds (time s) \<le> milliseconds t \<Longrightarrow> wq_step s (s\<lparr>time := t\<rparr>)"

definition wq_start :: "timeval \<Rightarrow> system" where
  "wq_start t = \<lparr>work = WorkQueueNew, thread = AtTest, adding = False, time = t\<rparr>"

abbreviation wq_reachable :: "timeval \<Rightarrow> system \<Rightarrow> bool" where
  "wq_reachable t s \<equiv> wq_step\<^sup>*\<^sup>* (wq_start t) s"

text \<open>A request to end the thread is never slept through.\<close>

lemma destroy_inv:
  assumes "wq_reachable t s"
  shows "waitingToDestroy (work s) \<longrightarrow> (case thread s of BeforeWait _ \<Rightarrow> False | Asleep _ \<Rightarrow> False | Finished \<Rightarrow> False | _ \<Rightarrow> True)"
  using assms
proof (induction rule: rtranclp_induct)
  case (step s s')
  from step(2,3) show ?case
    by (cases rule: wq_step.cases)
      (auto simp: broadcast_def wait_round_def Let_def WorkQueueGetOne_def WorkQueueAddDelayed_def WorkQueueRemove_def holds_execution_lock_def split: worker.splits wait_outcome.splits)
qed (simp add: wq_start_def WorkQueueNew_def)

text \<open>
  C31. Once another thread asks for the end of a queue's thread, that thread is never asleep nor on
  its way to sleep, whatever adding, removing and executing goes on at the same time: the request is
  made under the execution lock and cannot fall between its look at the queue and its sleep.
\<close>

theorem end_request_is_seen:
  assumes "wq_reachable t s" "waitingToDestroy (work s)"
  shows "thread s \<in> {AtTest, Looking, Executing, Leaving}"
  using destroy_inv [OF assms(1)] assms(2) by (auto split: worker.splits)

theorem end_request_is_seen_witness:
  "\<exists>s. wq_reachable \<lparr>tv_sec = 1, tv_usec = 0\<rparr> s \<and> waitingToDestroy (work s) \<and> thread s \<in> {AtTest, Looking, Executing, Leaving}"
proof -
  let ?t = "\<lparr>tv_sec = 1, tv_usec = 0\<rparr>"
  let ?s = "(wq_start ?t)\<lparr>work := (work (wq_start ?t))\<lparr>waitingToDestroy := True\<rparr>, thread := broadcast (thread (wq_start ?t))\<rparr>"
  have "wq_step (wq_start ?t) ?s" by (rule wq_step.destroy) (simp_all add: wq_start_def holds_execution_lock_def)
  then have r: "wq_reachable ?t ?s" by (rule r_into_rtranclp)
  moreover have d: "waitingToDestroy (work ?s)" by simp
  ultimately show ?thesis using end_request_is_seen [OF r d] by blast
qed

text \<open>
  C32. Work that is added does not have this guarantee. \<open>WorkQueueAdd\<close> wakes without the execution
  lock, so that the wake can fall between the look at the queue and the sleep: a state is reachable
  in which an item is due, nobody is about to wake the thread, and the thread sleeps until something
  else happens: letting time pass does not help.
\<close>

theorem wake_up_can_be_lost:
  assumes "milliseconds t \<noteq> UINT64_MAX"
  shows "\<exists>s item. wq_reachable t s \<and> item \<in> set (queue (work s)) \<and> due (milliseconds (time s)) item
    \<and> thread s = Asleep WaitForever \<and> \<not> adding s
    \<and> (\<forall>s'. wq_step s s' \<longrightarrow> thread s' = Asleep WaitForever \<or> waitingToDestroy (work s') \<or> s' = s\<lparr>thread := Looking\<rparr>)"
proof -
  let ?q = "WorkQueueAdd WorkQueueNew f d"
  let ?s0 = "wq_start t"
  let ?s1 = "?s0\<lparr>thread := Looking\<rparr>"
  let ?s2 = "?s0\<lparr>thread := BeforeWait WaitForever\<rparr>"
  let ?s3 = "?s2\<lparr>work := WorkQueueAddDelayed WorkQueueNew f d 0 t, adding := True\<rparr>"
  let ?s4 = "?s3\<lparr>adding := False\<rparr>"
  let ?s5 = "?s4\<lparr>thread := Asleep WaitForever\<rparr>"
  have w: "wait_round WorkQueueNew t = WaitForever"
    using assms by (simp add: wait_round_def WorkQueueNew_def lowestExecuteTime_def UINT64_MAX_le)
  have "wq_step ?s0 ?s1" using wq_step.test [of ?s0] by (simp add: wq_start_def WorkQueueNew_def)
  moreover have "wq_step ?s1 ?s2" using wq_step.look [of ?s1] w by (simp add: wq_start_def)
  moreover have "wq_step ?s2 ?s3" using wq_step.add [of ?s2 f d 0] by (simp add: wq_start_def)
  moreover have "wq_step ?s3 ?s4" using wq_step.wake [of ?s3] by (simp add: wq_start_def broadcast_def)
  moreover have "wq_step ?s4 ?s5" using wq_step.sleep [of ?s4] by (simp add: wq_start_def)
  ultimately have "wq_reachable t ?s5" by (meson converse_rtranclp_into_rtranclp rtranclp.rtrancl_refl)
  moreover have "thread s' = Asleep WaitForever \<or> waitingToDestroy (work s') \<or> s' = ?s5\<lparr>thread := Looking\<rparr>" if "wq_step ?s5 s'" for s'
    using that by (cases rule: wq_step.cases) (auto simp: wq_start_def broadcast_def)
  ultimately show ?thesis
    by (intro exI [of _ ?s5]) (simp add: wq_start_def WorkQueueAddDelayed_def WorkQueueNew_def)
qed

theorem wake_up_can_be_lost_witness:
  "\<exists>s. wq_reachable \<lparr>tv_sec = 1, tv_usec = 0\<rparr> s \<and> queue (work s) \<noteq> [] \<and> thread s = Asleep WaitForever"
proof -
  have "milliseconds \<lparr>tv_sec = 1, tv_usec = 0\<rparr> \<noteq> UINT64_MAX" by (simp add: milliseconds_def UINT64_MAX_def)
  from wake_up_can_be_lost [OF this] show ?thesis by force
qed

end
