(* ===== verification/Notifications.thy ===== *)
theory Notifications
  imports Work_Queue
begin

text \<open>
  The notifications of \<open>src/code/Notifications.c\<close>: listeners by name, and firing as putting one item
  per listener into a work queue. The dictionary of listener arrays, whose values are raw
  structures with a pointer, is a map from names to lists of addresses. The mutex is recursive and
  held by every function, so the functions are atomic; a handler may fire again while it is called.
\<close>

record notifications =
  funcs :: "bytes \<rightharpoonup> u64 list"
  workQueue :: work_queue
  queuedNotificationNames :: "bytes list"

definition note_init :: notifications where
  "note_init = \<lparr>funcs = Map.empty, workQueue = WorkQueueNew, queuedNotificationNames = []\<rparr>"

definition NotificationsFire :: "notifications \<Rightarrow> bytes \<Rightarrow> dictionary \<Rightarrow> notifications" where
  "NotificationsFire nt name d =
     (let nt = nt\<lparr>queuedNotificationNames := queuedNotificationNames nt @ [name]\<rparr>
      in case funcs nt name of None \<Rightarrow> nt
         | Some datas \<Rightarrow> nt\<lparr>workQueue := fold (\<lambda>func q. WorkQueueAdd q func d) datas (workQueue nt)\<rparr>)"

definition NotificationsAddListener :: "notifications \<Rightarrow> bytes \<Rightarrow> u64 \<Rightarrow> notifications" where
  "NotificationsAddListener nt name func =
     (let datas = (case funcs nt name of None \<Rightarrow> [] | Some datas \<Rightarrow> datas)
      in nt\<lparr>funcs := (funcs nt)(name \<mapsto> datas @ [func])\<rparr>)"

text \<open>
  The queue is passed to \<open>WorkQueueExecuteAll\<close>, whose handlers may change it and the other fields;
  meanwhile the field of the record is not used.
\<close>

type_synonym 's note_handler = "u64 \<Rightarrow> dictionary \<Rightarrow> notifications \<times> 's \<Rightarrow> notifications \<times> 's"

definition on_queue :: "'s note_handler \<Rightarrow> (notifications \<times> 's) handler" where
  "on_queue run f d = (\<lambda>(self, nt, s). let (nt, s) = run f d (nt\<lparr>workQueue := self\<rparr>, s) in (workQueue nt, nt\<lparr>workQueue := WorkQueueNew\<rparr>, s))"

definition NotificationsProcessReturningEventNames :: "(nat \<Rightarrow> timeval) \<Rightarrow> 's note_handler \<Rightarrow> notifications \<times> 's \<Rightarrow> (bytes list \<times> notifications \<times> 's) option" where
  "NotificationsProcessReturningEventNames clock run = (\<lambda>(nt, s).
     case WorkQueueExecuteAll clock (on_queue run) 0 (workQueue nt, nt, s) of None \<Rightarrow> None
     | Some (_, self, nt, s) \<Rightarrow>
         (let nt = nt\<lparr>workQueue := self\<rparr>; result = queuedNotificationNames nt
          in Some (result, nt\<lparr>queuedNotificationNames := []\<rparr>, s)))"

definition NotificationsProcess :: "(nat \<Rightarrow> timeval) \<Rightarrow> 's note_handler \<Rightarrow> notifications \<times> 's \<Rightarrow> (notifications \<times> 's) option" where
  "NotificationsProcess clock run st = map_option snd (NotificationsProcessReturningEventNames clock run st)"

section \<open>Delivery\<close>

definition listeners :: "notifications \<Rightarrow> bytes \<Rightarrow> u64 list" where
  "listeners nt name = (case funcs nt name of None \<Rightarrow> [] | Some datas \<Rightarrow> datas)"

lemma add_listener:
  "listeners (NotificationsAddListener nt name func) n = (if n = name then listeners nt name @ [func] else listeners nt n)"
  by (simp add: listeners_def NotificationsAddListener_def Let_def split: option.splits)

definition item_of :: "dictionary \<Rightarrow> u64 \<Rightarrow> work_item" where
  "item_of d func = \<lparr>item_func = func, item_dict = DictionaryCopy d, executeTimeMilliseconds = 0\<rparr>"

lemma fold_add: "queue (fold (\<lambda>func q. WorkQueueAdd q func d) datas q) = queue q @ map (item_of d) datas"
  by (induction datas arbitrary: q) (simp_all add: WorkQueueAdd_queue item_of_def)

lemma fire_fields:
  "funcs (NotificationsFire nt name d) = funcs nt"
  "queuedNotificationNames (NotificationsFire nt name d) = queuedNotificationNames nt @ [name]"
  "queue (workQueue (NotificationsFire nt name d)) = queue (workQueue nt) @ map (item_of d) (listeners nt name)"
  by (simp_all add: NotificationsFire_def listeners_def fold_add Let_def split: option.splits)

definition fire_all :: "(bytes \<times> dictionary) list \<Rightarrow> notifications \<Rightarrow> notifications" where
  "fire_all events = fold (\<lambda>(name, d) nt. NotificationsFire nt name d) events"

lemma fire_all_fields:
  "funcs (fire_all events nt) = funcs nt \<and> queuedNotificationNames (fire_all events nt) = queuedNotificationNames nt @ map fst events
    \<and> queue (workQueue (fire_all events nt))
      = queue (workQueue nt) @ concat (map (\<lambda>(name, d). map (item_of d) (listeners nt name)) events)"
proof (induction events arbitrary: nt)
  case (Cons e events)
  obtain name d where e: "e = (name, d)" by (cases e)
  have "fire_all (e # events) nt = fire_all events (NotificationsFire nt name d)" by (simp add: fire_all_def e)
  then show ?case using Cons [of "NotificationsFire nt name d"] by (simp add: fire_fields listeners_def e)
qed (simp add: fire_all_def)

lemma executed_state:
  "\<exists>q. executed (\<lambda>f d (nt, s). (nt\<lparr>workQueue := WorkQueueNew\<rparr>, effect f d s)) items (nt, s) = (nt\<lparr>workQueue := q\<rparr>, executed effect items s)"
proof (induction items arbitrary: nt s)
  case Nil
  show ?case by (intro exI [of _ "workQueue nt"]) (simp add: executed_def)
next
  case (Cons i items)
  from Cons [of "nt\<lparr>workQueue := WorkQueueNew\<rparr>" "effect (item_func i) (item_dict i) s"] show ?case by (simp add: executed_def)
qed

lemma executed_events:
  "executed effect (concat (map (\<lambda>(name, d). map (item_of d) (listeners nt name)) events)) s
    = fold (\<lambda>(name, d) s. fold (\<lambda>f. effect f (DictionaryCopy d)) (listeners nt name) s) events s"
proof (induction events arbitrary: s)
  case (Cons e events)
  have "executed effect (map (item_of d) fs) s = fold (\<lambda>f. effect f (DictionaryCopy d)) fs s" for d fs s
    by (induction fs arbitrary: s) (simp_all add: executed_def item_of_def)
  moreover have "executed effect (xs @ ys) s = executed effect ys (executed effect xs s)" for xs ys s
    by (simp add: executed_def)
  ultimately show ?case using Cons by (simp add: case_prod_beta)
qed (simp add: executed_def)

text \<open>
  C33. Firing events and then processing calls every listener of every fired event exactly once, in
  the order of the events and of the listeners of each, with a copy of the dictionary it was fired
  with, and returns the names of the events in order. Nothing stays behind for the next time. Here
  the handlers change the program's state \<open>s\<close> and do not fire themselves.
\<close>

theorem notifications_delivered:
  assumes idle: "queue (workQueue nt) = []" "queuedNotificationNames nt = []"
    and run: "\<forall>f d nt s. run f d (nt, s) = (nt, effect f d s)"
    and mono: "\<forall>j. milliseconds (clock j) \<le> milliseconds (clock (j + 1))" "\<forall>j. milliseconds (clock j) \<le> horizon"
  shows "\<exists>nt'. NotificationsProcessReturningEventNames clock run (fire_all events nt, s)
      = Some (map fst events, nt', fold (\<lambda>(name, d) s. fold (\<lambda>f. effect f (DictionaryCopy d)) (listeners nt name) s) events s)
    \<and> queue (workQueue nt') = [] \<and> queuedNotificationNames nt' = [] \<and> funcs nt' = funcs nt"
proof -
  let ?nt = "fire_all events nt"
  let ?items = "concat (map (\<lambda>(name, d). map (item_of d) (listeners nt name)) events)"
  note fields = fire_all_fields [of events nt]
  have q: "queue (workQueue ?nt) = ?items" using fields idle by simp
  have ap: "appends_later horizon (on_queue run) (\<lambda>_ _ _. []) (\<lambda>f d (nt, s). (nt\<lparr>workQueue := WorkQueueNew\<rparr>, effect f d s))"
    using run by (simp add: appends_later_def on_queue_def)
  let ?eff = "\<lambda>f d (nt, s). (nt\<lparr>workQueue := WorkQueueNew\<rparr>, effect f d s)"
  obtain k' self' ws where e: "WorkQueueExecuteAll clock (on_queue run) 0 (workQueue ?nt, ?nt, s) = Some (k', self', executed ?eff ws (?nt, s))"
    "execution clock horizon 0 k' (queue (workQueue ?nt)) ws (added (\<lambda>_ _ _. []) ?eff ws (?nt, s)) (queue self')"
    using ExecuteAll_returns [OF ap mono(2,1), of 0 "workQueue ?nt" "(?nt, s)"] by blast
  have now: "due m x" if "x \<in> set ?items" for m x using that by (auto simp: item_of_def)
  have fi: "filter (due m) ?items = ?items" "filter (\<lambda>x. \<not> due m x) ?items = []" for m using now by (auto simp: filter_id_conv filter_empty_conv)
  have no: "added (\<lambda>_ _ _. []) ?eff ws st = []" for st and ws by (induction ws arbitrary: st) simp_all
  have x: "mset ws + mset (filter (due horizon) (queue self')) = mset ?items" "filter (due (milliseconds (clock 0))) ws = ?items"
      "filter (\<lambda>x. \<not> due horizon x) (queue self') = []"
    using e(2) fi no by (simp_all add: execution_def q)
  have "length ws + length (filter (due horizon) (queue self')) = length ?items" using arg_cong [OF x(1), of size] by (simp only: size_union size_mset)
  moreover have "length ?items \<le> length ws" using x(2) length_filter_le by metis
  ultimately have "filter (due horizon) (queue self') = []" by (metis add_le_same_cancel1 le_zero_eq length_0_conv)
  then have l: "queue self' = []" using x(3) by (auto simp: filter_empty_conv)
  have ws: "ws = ?items"
  proof -
    have "mset ws = mset ?items" using x(1) l by simp
    then have "\<forall>x \<in> set ws. due m x" for m using now by (metis set_mset_mset)
    then show ?thesis using x(2) by (simp add: filter_id_conv)
  qed
  obtain q' where ex: "executed ?eff ws (?nt, s) = (?nt\<lparr>workQueue := q'\<rparr>, executed effect ?items s)"
    unfolding ws using executed_state [of effect ?items ?nt s] by blast
  show ?thesis
    using e(1) l fields idle
    by (simp add: NotificationsProcessReturningEventNames_def ex executed_events)
qed

text \<open>Two events with two listeners of the first; a handler that notes whom it was called for.\<close>

theorem notifications_delivered_witness:
  "\<exists>nt'. NotificationsProcessReturningEventNames (\<lambda>_. \<lparr>tv_sec = 1, tv_usec = 0\<rparr>) (\<lambda>f d (nt, s). (nt, s @ [f]))
    (fire_all [([97], DictNew), ([98], DictNew), ([97], DictNew)] (NotificationsAddListener (NotificationsAddListener note_init [97] 1) [97] 2), [])
    = Some ([[97], [98], [97]], nt', [1, 2, 1, 2])"
proof -
  let ?nt = "NotificationsAddListener (NotificationsAddListener note_init [97] 1) [97] 2"
  have l: "listeners ?nt [97] = [1, 2]" "listeners ?nt [98] = []"
    by (simp_all add: listeners_def NotificationsAddListener_def note_init_def)
  have i: "queue (workQueue ?nt) = []" "queuedNotificationNames ?nt = []"
    by (simp_all add: NotificationsAddListener_def note_init_def WorkQueueNew_def)
  show ?thesis
    using notifications_delivered [OF i, of "\<lambda>f d (nt, s). (nt, s @ [f])" "\<lambda>f d s. s @ [f]" "\<lambda>_. \<lparr>tv_sec = 1, tv_usec = 0\<rparr>" 1000
      "[([97], DictNew), ([98], DictNew), ([97], DictNew)]" "[]"]
    by (auto simp: l milliseconds_def)
qed

end
