(* ===== verification/Basic_Storage.thy ===== *)
theory Basic_Storage
  imports Dictionaries C_Strings
begin

text \<open>
  The key-value file of \<open>src/code/BasicStorage.c\<close>: every operation reads the whole file into a
  dictionary or writes the whole dictionary into the file. The file system is a map from names to
  contents with the names that can be opened for writing; a file is written completely unless the
  code stops. The lock, which one thread holds at a time, is not modelled.
\<close>

section \<open>State\<close>

definition BS_MAX_KEYSIZE :: u32 where
  "BS_MAX_KEYSIZE = 1024"

definition BS_MAX_DATASIZE :: u32 where
  "BS_MAX_DATASIZE = 10 * 1024 * 1024"

record storage =
  filename :: data
  files :: "bytes \<rightharpoonup> bytes"
  writable :: "bytes \<Rightarrow> bool"

definition basicStorageSetup :: "storage \<Rightarrow> data \<Rightarrow> storage" where
  "basicStorageSetup s name = s\<lparr>filename := StringCopy name\<rparr>"

section \<open>Items\<close>

definition writeItem :: "data \<Rightarrow> bytes" where
  "writeItem item = le_bytes 4 (of_nat (dlength item) :: u32) @ dbytes item"

text \<open>What \<open>fread\<close> returns and what is left of the file.\<close>

definition fread :: "nat \<Rightarrow> bytes \<Rightarrow> bytes \<times> bytes" where
  "fread n file = (take n file, drop n file)"

definition readItem :: "bytes \<Rightarrow> u32 \<Rightarrow> data \<times> bytes" where
  "readItem file maxSize =
     (let (lenBytes, file) = fread 4 file in
      if length lenBytes \<noteq> 4 then (DataNull, file)
      else let len = le_word lenBytes :: u32 in
      if len > maxSize then (DataNull, file)
      else let (result, file) = fread (unat len) file in
      if length result \<noteq> unat len then (DataNull, file) else (Bytes result, file))"

lemma readItem_shorter:
  assumes "readItem file maxSize = (item, rest)"
  shows "length rest \<le> length file" "dlength item \<noteq> 0 \<Longrightarrow> length rest < length file"
  using assms by (auto simp: readItem_def fread_def Let_def split: if_splits)

section \<open>The whole file\<close>

function loadEverything_loop :: "dictionary \<Rightarrow> bytes \<Rightarrow> dictionary" where
  "loadEverything_loop dict file =
     (let (key, file') = readItem file BS_MAX_KEYSIZE in
      if dlength key = 0 then dict
      else let (val, file'') = readItem file' BS_MAX_DATASIZE
           in loadEverything_loop (DictionaryAddCopy dict key val) file'')"
  by pat_completeness auto
termination
proof (relation "measure (\<lambda>(_, file). length file)")
  fix dict inp p key f1 q val f2
  assume p: "p = readItem inp BS_MAX_KEYSIZE" "(key, f1) = p" "dlength key \<noteq> 0"
    and q: "q = readItem f1 BS_MAX_DATASIZE" "(val, f2) = q"
  have "length f1 < length inp" using p readItem_shorter(2) [of inp BS_MAX_KEYSIZE key f1] by metis
  moreover have "length f2 \<le> length f1" using q readItem_shorter(1) [of f1 BS_MAX_DATASIZE val f2] by metis
  ultimately show "((DictionaryAddCopy dict key val, f2), dict, inp) \<in> measure (\<lambda>(_, file). length file)" by simp
qed simp

declare loadEverything_loop.simps [simp del]

definition loadEverything :: "storage \<Rightarrow> fault + dictionary" where
  "loadEverything s =
     (if filename s = DataNull then Inl Abort
      else case files s (cstr (filename s)) of None \<Rightarrow> Inr DictNew
        | Some file \<Rightarrow> Inr (loadEverything_loop DictNew file))"

text \<open>The bytes written and whether the loop went through: an oversized element stops the program.\<close>

fun saveEverything_loop :: "(data \<times> data) list \<Rightarrow> bytes \<times> fault option" where
  "saveEverything_loop [] = (writeItem DataNull, None)"
| "saveEverything_loop ((key, val) # items) =
     (if dlength key > unat BS_MAX_KEYSIZE then ([], Some Abort)
      else if dlength val > unat BS_MAX_DATASIZE then ([], Some Abort)
      else let (written, outcome) = saveEverything_loop items
           in (writeItem key @ writeItem val @ written, outcome))"

text \<open>The file is emptied when it is opened, before anything is checked.\<close>

definition saveEverything :: "storage \<Rightarrow> dictionary \<Rightarrow> storage \<times> fault option" where
  "saveEverything s dict =
     (if filename s = DataNull then (s, Some Abort)
      else if \<not> writable s (cstr (filename s)) then (s, Some Abort)
      else let (written, outcome) = saveEverything_loop (keysAndValues dict)
           in (s\<lparr>files := (files s)(cstr (filename s) \<mapsto> written)\<rparr>, outcome))"

definition basicStorageSave :: "storage \<Rightarrow> data \<Rightarrow> data \<Rightarrow> storage \<times> fault option" where
  "basicStorageSave s key value =
     (case loadEverything s of Inl e \<Rightarrow> (s, Some e)
      | Inr dict \<Rightarrow> saveEverything s (DictionaryAddCopy dict (StringCopy key) value))"

definition basicStorageLoad :: "storage \<Rightarrow> data \<Rightarrow> fault + data" where
  "basicStorageLoad s key =
     (case loadEverything s of Inl e \<Rightarrow> Inl e
      | Inr dict \<Rightarrow> Inr (DataCopyData (DictionaryGetValue dict (StringCopy key))))"

definition basicStorageDeleteAll :: "storage \<Rightarrow> storage \<times> fault option" where
  "basicStorageDeleteAll s = saveEverything s DictNew"

definition bsSetup :: "storage \<Rightarrow> bytes \<Rightarrow> storage" where
  "bsSetup s name = basicStorageSetup s (StringNewC name)"

definition bsSave :: "storage \<Rightarrow> bytes \<Rightarrow> data \<Rightarrow> storage \<times> fault option" where
  "bsSave s key value = basicStorageSave s (Bytes (key @ [0])) value"

definition bsLoad :: "storage \<Rightarrow> bytes \<Rightarrow> fault + data" where
  "bsLoad s key = basicStorageLoad s (Bytes (key @ [0]))"

section \<open>What a file holds\<close>

definition fits :: "(data \<times> data) \<Rightarrow> bool" where
  "fits = (\<lambda>(k, v). dlength k \<noteq> 0 \<and> dlength k \<le> 1024 \<and> dlength v \<le> 10485760)"

definition file_image :: "(data \<times> data) list \<Rightarrow> bytes" where
  "file_image kvs = concat (map (\<lambda>(k, v). writeItem k @ writeItem v) kvs)"

lemma readItem_writeItem:
  assumes "dlength d \<le> unat maxSize"
  shows "readItem (writeItem d @ rest) maxSize = (renull d, rest)"
proof -
  have "unat maxSize < 2 ^ LENGTH(32)" by (rule unsigned_less)
  with assms have lt: "dlength d < 2 ^ 32" by simp
  let ?len = "of_nat (dlength d) :: u32"
  have w: "le_word (le_bytes 4 ?len) = ?len" by (rule le_word_le_bytes) simp
  have u: "unat ?len = dlength d" using lt by (simp add: unat_of_nat take_bit_nat_eq_self)
  have "\<not> ?len > maxSize" using assms u by (simp add: word_less_nat_alt)
  then show ?thesis
    using u w by (simp add: readItem_def writeItem_def fread_def Let_def renull_def del: le_bytes_numeral)
qed

lemma load_image:
  assumes "list_all fits kvs"
  shows "loadEverything_loop dict (file_image kvs @ rest)
    = loadEverything_loop (add_all dict (map (\<lambda>(k, v). (renull k, renull v)) kvs)) rest"
  using assms
proof (induction kvs arbitrary: dict)
  case Nil
  then show ?case by (simp add: file_image_def)
next
  case (Cons kv kvs)
  obtain k v where kv: "kv = (k, v)" by (cases kv)
  have f: "dlength k \<noteq> 0" "dlength k \<le> unat BS_MAX_KEYSIZE" "dlength v \<le> unat BS_MAX_DATASIZE"
    using Cons.prems by (auto simp: kv fits_def BS_MAX_KEYSIZE_def BS_MAX_DATASIZE_def)
  have im: "file_image (kv # kvs) @ rest = writeItem k @ writeItem v @ file_image kvs @ rest" by (simp add: file_image_def kv)
  have "loadEverything_loop dict (file_image (kv # kvs) @ rest)
      = loadEverything_loop (DictionaryAddCopy dict (renull k) (renull v)) (file_image kvs @ rest)"
    unfolding im using f
    by (subst loadEverything_loop.simps) (simp add: readItem_writeItem renull_def)
  also have "\<dots> = loadEverything_loop (add_all (DictionaryAddCopy dict (renull k) (renull v)) (map (\<lambda>(k, v). (renull k, renull v)) kvs)) rest"
    using Cons.prems by (intro Cons.IH) simp
  finally show ?case by (simp add: kv)
qed

lemma load_end: "loadEverything_loop dict [] = dict" "loadEverything_loop dict (writeItem DataNull @ rest) = dict"
  using readItem_writeItem [of DataNull BS_MAX_KEYSIZE rest]
  by (subst loadEverything_loop.simps; simp add: readItem_def fread_def renull_def)+

text \<open>Saving writes the elements up to the first that does not fit.\<close>

lemma save_writes:
  assumes "\<forall>(k, v) \<in> set kvs. dlength k \<noteq> 0"
  shows "saveEverything_loop kvs =
    (if list_all fits kvs then (file_image kvs @ writeItem DataNull, None) else (file_image (takeWhile fits kvs), Some Abort))"
  using assms
proof (induction kvs)
  case Nil
  then show ?case by (simp add: file_image_def)
next
  case (Cons kv kvs)
  obtain k v where kv: "kv = (k, v)" by (cases kv)
  then show ?case using Cons by (auto simp: fits_def file_image_def BS_MAX_KEYSIZE_def BS_MAX_DATASIZE_def)
qed

section \<open>The storage as a map\<close>

definition storage_ok :: "storage \<Rightarrow> bool" where
  "storage_ok s \<longleftrightarrow> filename s \<noteq> DataNull \<and> writable s (cstr (filename s))
     \<and> (\<forall>file. files s (cstr (filename s)) = Some file \<longrightarrow>
         (\<exists>kvs. file = file_image kvs @ writeItem DataNull \<and> list_all fits kvs \<and> sorted_wrt (<) (map fst (by_bytes kvs))))"

text \<open>The dictionary that is read from a well-formed file.\<close>

definition read_back :: "(data \<times> data) list \<Rightarrow> dictionary" where
  "read_back kvs = add_all DictNew (map (\<lambda>(k, v). (renull k, renull v)) kvs)"

lemma dbytes_renull [simp]: "dbytes (renull d) = dbytes d"
  by (simp add: renull_def)

lemma map_of_values: "map_of (map (\<lambda>(k, v). (k, g v)) xs) b = map_option g (map_of xs b)"
  by (induction xs) auto

lemma fits_small: "fits (k, v) \<Longrightarrow> small_data (renull k)"
  by (simp add: fits_def small_data_def)

lemma read_back_map:
  assumes f: "list_all fits kvs" and so: "sorted_wrt (<) (map fst (by_bytes kvs))"
  shows "dict_ok (read_back kvs)" "dict_map (read_back kvs) b = map_option renull (map_of (by_bytes kvs) b)"
proof -
  let ?r = "map (\<lambda>(k, v). (renull k, renull v)) kvs"
  have sm: "\<forall>(k, v) \<in> set ?r. small_data k" using f fits_small by (fastforce simp: list_all_iff)
  show "dict_ok (read_back kvs)" unfolding read_back_def using sm by (intro add_all_ok) simp_all
  have d: "distinct (map fst (by_bytes kvs))" using so by (simp add: strict_sorted_iff)
  have "dict_map (read_back kvs) = map_of (rev (by_bytes ?r))" unfolding read_back_def using sm by (simp add: add_all_map)
  also have "by_bytes ?r = map (\<lambda>(k, v). (k, renull v)) (by_bytes kvs)" by (simp add: by_bytes_def case_prod_beta)
  also have "map_of (rev (map (\<lambda>(k, v). (k, renull v)) (by_bytes kvs))) = map_of (map (\<lambda>(k, v). (k, renull v)) (by_bytes kvs))"
    using d by (intro map_of_inject_set [THEN iffD2]) (simp_all add: rev_map [symmetric] comp_def case_prod_beta)
  finally show "dict_map (read_back kvs) b = map_option renull (map_of (by_bytes kvs) b)" by (simp add: map_of_values)
qed

lemma dict_entries:
  assumes "dict_ok d" "(k, v) \<in> set (keysAndValues d)"
  shows "dict_map d (dbytes k) = Some v"
  using assms sorted_keys_distinct [OF assms(1)] by (force simp: dict_map_def by_bytes_def intro: map_of_is_SomeI)

lemma map_entries:
  assumes "dict_map d b = Some v"
  obtains k where "(k, v) \<in> set (keysAndValues d)" "dbytes k = b"
  using map_of_SomeD [OF assms [unfolded dict_map_def]] by (auto simp: by_bytes_def)

lemma fits_dict:
  assumes "dict_ok d"
  shows "list_all fits (keysAndValues d) \<longleftrightarrow> (\<forall>b v. dict_map d b = Some v \<longrightarrow> b \<noteq> [] \<and> length b \<le> 1024 \<and> dlength v \<le> 10485760)"
proof
  assume f: "list_all fits (keysAndValues d)"
  show "\<forall>b v. dict_map d b = Some v \<longrightarrow> b \<noteq> [] \<and> length b \<le> 1024 \<and> dlength v \<le> 10485760"
  proof (intro allI impI)
    fix b v assume "dict_map d b = Some v"
    then obtain k where "(k, v) \<in> set (keysAndValues d)" "dbytes k = b" by (rule map_entries)
    with f show "b \<noteq> [] \<and> length b \<le> 1024 \<and> dlength v \<le> 10485760" by (auto simp: list_all_iff fits_def)
  qed
next
  assume m: "\<forall>b v. dict_map d b = Some v \<longrightarrow> b \<noteq> [] \<and> length b \<le> 1024 \<and> dlength v \<le> 10485760"
  show "list_all fits (keysAndValues d)"
    unfolding list_all_iff
  proof
    fix kv assume "kv \<in> set (keysAndValues d)"
    moreover obtain k v where kv: "kv = (k, v)" by (cases kv)
    ultimately have "dict_map d (dbytes k) = Some v" using dict_entries [OF assms] by blast
    with m show "fits kv" by (simp add: kv fits_def)
  qed
qed

text \<open>What a well-formed storage loads.\<close>

lemma load_ok:
  assumes "storage_ok s"
  obtains d where "loadEverything s = Inr d" "dict_ok d" "list_all fits (keysAndValues d)" "\<And>b v. dict_map d b = Some v \<Longrightarrow> renull v = v"
proof (cases "files s (cstr (filename s))")
  case None
  moreover have "keysAndValues DictNew = []" by (simp add: DictNew_def DictionaryNew_def)
  ultimately show thesis using assms by (intro that [of DictNew]) (simp_all add: loadEverything_def storage_ok_def)
next
  case (Some f)
  then obtain kvs where kvs: "f = file_image kvs @ writeItem DataNull" "list_all fits kvs" "sorted_wrt (<) (map fst (by_bytes kvs))"
    using assms by (auto simp: storage_ok_def)
  have l: "loadEverything s = Inr (read_back kvs)"
    using assms Some load_image [OF kvs(2), of DictNew "writeItem DataNull"] load_end(2) [of _ "[]"]
    by (simp add: loadEverything_def kvs(1) read_back_def storage_ok_def)
  note r = read_back_map [OF kvs(2,3)]
  have "list_all fits (keysAndValues (read_back kvs))"
    unfolding fits_dict [OF r(1)]
  proof (intro allI impI)
    fix b v assume "dict_map (read_back kvs) b = Some v"
    then obtain v0 where "map_of (by_bytes kvs) b = Some v0" "v = renull v0" by (auto simp: r(2))
    moreover from this(1) obtain k where "(k, v0) \<in> set kvs" "dbytes k = b" by (auto dest!: map_of_SomeD simp: by_bytes_def)
    moreover from this(1) have "fits (k, v0)" using kvs(2) by (simp add: list_all_iff)
    ultimately show "b \<noteq> [] \<and> length b \<le> 1024 \<and> dlength v \<le> 10485760" by (auto simp: fits_def)
  qed
  moreover have "renull v = v" if "dict_map (read_back kvs) b = Some v" for b v
    using that by (auto simp: r(2) renull_def)
  ultimately show thesis using l r(1) that by blast
qed

lemma load_value:
  assumes "loadEverything s = Inr d" "dict_ok d" "small_data (StringCopy q)"
  shows "basicStorageLoad s q = Inr (case dict_map d (dbytes (StringCopy q)) of None \<Rightarrow> DataNull | Some v \<Rightarrow> v)"
  using lookup_map [OF assms(2,3)] assms(1)
    by (simp add: basicStorageLoad_def DictionaryGetValue_def split: option.splits)

lemma StringCopy_nonempty: "dlength (StringCopy key) \<noteq> 0"
  by (cases key) (auto simp: StringCopy_def DataCopyData_def DataAdd_def DataAppend_def DataResize_def StringNewC_def Let_def)

text \<open>A dictionary written to the file is read back as it was.\<close>

lemma save_load:
  assumes "filename s \<noteq> DataNull" "writable s (cstr (filename s))" "dict_ok d" "list_all fits (keysAndValues d)"
  obtains s' d' where "saveEverything s d = (s', None)" "storage_ok s'" "loadEverything s' = Inr d'" "dict_ok d'"
    "\<And>b. dict_map d' b = map_option renull (dict_map d b)" "s' = s\<lparr>files := (files s)(cstr (filename s) \<mapsto> file_image (keysAndValues d) @ writeItem DataNull)\<rparr>"
proof -
  let ?kvs = "keysAndValues d"
  let ?s = "s\<lparr>files := (files s)(cstr (filename s) \<mapsto> file_image (keysAndValues d) @ writeItem DataNull)\<rparr>"
  have so: "sorted_wrt (<) (map fst (by_bytes ?kvs))" using assms(3) by (simp add: dict_ok_def)
  have ne: "\<forall>(k, v) \<in> set ?kvs. dlength k \<noteq> 0" using assms(4) by (auto simp: list_all_iff fits_def)
  have sv: "saveEverything s d = (?s, None)" using assms save_writes [OF ne] by (simp add: saveEverything_def)
  have ok: "storage_ok ?s" using assms so by (auto simp: storage_ok_def)
  have l: "loadEverything ?s = Inr (read_back ?kvs)"
    using assms(1) load_image [OF assms(4), of DictNew "writeItem DataNull"] load_end(2) [of _ "[]"]
    by (simp add: loadEverything_def read_back_def)
  show thesis
    by (rule that [OF sv ok l read_back_map(1) [OF assms(4) so]]) (simp_all add: read_back_map(2) [OF assms(4) so] dict_map_def [of d])
qed

lemma storage_save:
  assumes ok: "storage_ok s" and k: "dlength (StringCopy key) \<le> 1024" and v: "dlength value \<le> 10485760"
  shows "\<exists>s'. basicStorageSave s key value = (s', None) \<and> storage_ok s'
    \<and> (\<forall>q. dlength (StringCopy q) \<le> 1024 \<longrightarrow> basicStorageLoad s' q
        = (if dbytes (StringCopy q) = dbytes (StringCopy key) then Inr (renull value) else basicStorageLoad s q))
    \<and> (\<forall>n. n \<noteq> cstr (filename s) \<longrightarrow> files s' n = files s n) \<and> filename s' = filename s \<and> writable s' = writable s"
proof -
  obtain d where d: "loadEverything s = Inr d" "dict_ok d" "list_all fits (keysAndValues d)" "\<And>b v. dict_map d b = Some v \<Longrightarrow> renull v = v"
    using load_ok [OF ok] by metis
  let ?d = "DictionaryAddCopy d (StringCopy key) value"
  have sk: "small_data (StringCopy q)" if "dlength (StringCopy q) \<le> 1024" for q using that by (simp add: small_data_def)
  have ins: "dict_ok ?d" "dict_map ?d = (dict_map d)(dbytes (StringCopy key) \<mapsto> value)"
    using insert_ok_map [OF d(2) sk [OF k], of "value"] by (simp_all add: DictionaryAddCopy_def)
  have f: "list_all fits (keysAndValues ?d)"
    unfolding fits_dict [OF ins(1)] using d(3) fits_dict [OF d(2)] k v StringCopy_nonempty [of key] by (auto simp: ins(2))
  obtain s' d' where s': "saveEverything s ?d = (s', None)" "storage_ok s'" "loadEverything s' = Inr d'" "dict_ok d'"
    "\<And>b. dict_map d' b = map_option renull (dict_map ?d b)" "s' = s\<lparr>files := (files s)(cstr (filename s) \<mapsto> file_image (keysAndValues ?d) @ writeItem DataNull)\<rparr>"
    by (rule save_load [OF _ _ ins(1) f]) (use ok in \<open>auto simp: storage_ok_def\<close>)
  have "basicStorageLoad s' q = (if dbytes (StringCopy q) = dbytes (StringCopy key) then Inr (renull value) else basicStorageLoad s q)"
    if "dlength (StringCopy q) \<le> 1024" for q
    using load_value [OF s'(3,4) sk [OF that]] load_value [OF d(1,2) sk [OF that]] d(4)
    by (auto simp: s'(5) ins(2) split: option.splits)
  moreover have "basicStorageSave s key value = (s', None)" using d(1) s'(1) by (simp add: basicStorageSave_def)
  ultimately show ?thesis using s'(2,6) by auto
qed

text \<open>
  Saving a value under a key, in a storage whose file holds at most the sizes allowed, makes
  exactly that key load the saved value (a null pointer loads as an empty buffer) and leaves the other keys and the other files as they were.
\<close>

lemma storage_is_a_map:
  assumes ok: "storage_ok s" and k: "dlength (StringCopy key) \<le> 1024" and v: "dlength value \<le> 10485760"
  shows "\<exists>s'. basicStorageSave s key value = (s', None) \<and> storage_ok s'
    \<and> (\<forall>q. dlength (StringCopy q) \<le> 1024 \<longrightarrow> basicStorageLoad s' q
        = (if dbytes (StringCopy q) = dbytes (StringCopy key) then Inr (renull value) else basicStorageLoad s q))
    \<and> (\<forall>n. n \<noteq> cstr (filename s) \<longrightarrow> files s' n = files s n)"
  using storage_save [OF assms] by blast

text \<open>
  An oversized value: the file was emptied before the check, and the elements from the oversized one
  on are gone.
\<close>

lemma map_of_below:
  assumes "sorted_wrt (<) (map fst xs)"
  shows "map_of (takeWhile (\<lambda>(b, _). b < k) xs) (b :: bytes) = (if b < k then map_of xs b else None)"
  using assms
proof (induction xs)
  case (Cons x xs)
  obtain c v where x: "x = (c, v)" by (cases x)
  show ?case
  proof (cases "c < k")
    case True
    then show ?thesis using Cons by (simp add: x)
  next
    case False
    have "map_of xs b = None" if "b < k"
    proof -
      have "b \<notin> fst ` set xs"
      proof
        assume "b \<in> fst ` set xs"
        then have "c < b" using Cons.prems by (auto simp: x)
        with False that show False by simp
      qed
      then show ?thesis by (simp add: map_of_eq_None_iff)
    qed
    then show ?thesis using False by (auto simp: x)
  qed
qed simp

lemma takeWhile_fits:
  assumes so: "sorted_wrt (<) (map fst (by_bytes kvs))" and big: "(k, v) \<in> set kvs" "\<not> fits (k, v)"
    and rest: "\<And>x. x \<in> set kvs \<Longrightarrow> dbytes (fst x) \<noteq> dbytes k \<Longrightarrow> fits x"
  shows "takeWhile fits kvs = takeWhile (\<lambda>x. dbytes (fst x) < dbytes k) kvs"
proof -
  obtain xs ys where s: "kvs = xs @ (k, v) # ys" using split_list [OF big(1)] by blast
  have lt: "dbytes (fst x) < dbytes k" if "x \<in> set xs" for x
    using so that by (auto simp: s by_bytes_def sorted_wrt_append case_prod_beta)
  have "fits x" if "x \<in> set xs" for x using rest [of x] lt [OF that] that by (auto simp: s)
  then have "takeWhile fits kvs = xs" using big(2) by (simp add: s takeWhile_append2)
  moreover have "takeWhile (\<lambda>x. dbytes (fst x) < dbytes k) kvs = xs" using lt by (simp add: s takeWhile_append2)
  ultimately show ?thesis by simp
qed

lemma by_bytes_takeWhile: "by_bytes (takeWhile (\<lambda>x. P (dbytes (fst x))) kvs) = takeWhile (\<lambda>(b, _). P b) (by_bytes kvs)"
  by (induction kvs) (auto simp: by_bytes_def)

lemma sorted_takeWhile: "sorted_wrt (<) (map fst xs) \<Longrightarrow> sorted_wrt (<) (map fst (takeWhile P xs))"
  by (subst takeWhile_eq_take) (simp only: take_map [symmetric] sorted_wrt_take)

lemma oversized_save_loses:
  assumes ok: "storage_ok s" and k: "dlength (StringCopy key) \<le> 1024" and v: "dlength value > 10485760"
  shows "\<exists>s'. basicStorageSave s key value = (s', Some Abort)
    \<and> (\<forall>q. dlength (StringCopy q) \<le> 1024 \<longrightarrow> basicStorageLoad s' q
        = (if dbytes (StringCopy q) < dbytes (StringCopy key) then basicStorageLoad s q else Inr DataNull))"
proof -
  obtain d where d: "loadEverything s = Inr d" "dict_ok d" "list_all fits (keysAndValues d)" "\<And>b v. dict_map d b = Some v \<Longrightarrow> renull v = v"
    using load_ok [OF ok] by metis
  let ?k = "StringCopy key"
  let ?d = "DictionaryAddCopy d ?k value"
  let ?kvs = "keysAndValues ?d"
  have sk: "small_data (StringCopy q)" if "dlength (StringCopy q) \<le> 1024" for q using that by (simp add: small_data_def)
  have ins: "dict_ok ?d" "dict_map ?d = (dict_map d)(dbytes ?k \<mapsto> value)"
    using insert_ok_map [OF d(2) sk [OF k], of "value"] by (simp_all add: DictionaryAddCopy_def)
  have so: "sorted_wrt (<) (map fst (by_bytes ?kvs))" using ins(1) by (simp add: dict_ok_def)
  have m: "b \<noteq> [] \<and> length b \<le> 1024 \<and> dlength w \<le> 10485760" if "dict_map d b = Some w" for b w
    using d(3) that fits_dict [OF d(2)] by blast
  have ent: "dict_map ?d (dbytes k') = Some w" if "(k', w) \<in> set ?kvs" for k' w by (rule dict_entries [OF ins(1) that])
  obtain k0 where k0: "(k0, value) \<in> set ?kvs" "dbytes k0 = dbytes ?k" using map_entries [of ?d "dbytes ?k" "value"] ins(2) by auto
  have nf: "\<not> fits (k0, value)" using v by (simp add: fits_def)
  have rest: "fits x" if "x \<in> set ?kvs" "dbytes (fst x) \<noteq> dbytes k0" for x
  proof -
    obtain k' w where x: "x = (k', w)" by (cases x)
    then have "dict_map d (dbytes k') = Some w" using ent [of k' w] that k0(2) by (simp add: ins(2))
    from m [OF this] show ?thesis by (simp add: x fits_def)
  qed
  let ?p = "takeWhile fits ?kvs"
  have p: "?p = takeWhile (\<lambda>x. dbytes (fst x) < dbytes ?k) ?kvs"
    using takeWhile_fits [OF so k0(1) nf] rest k0(2) by simp
  have ne: "\<forall>(k, v) \<in> set ?kvs. dlength k \<noteq> 0"
  proof clarify
    fix k' w assume "(k', w) \<in> set ?kvs" "dbytes k' = []"
    with ent [of k' w] have "dict_map ?d [] = Some w" by simp
    then show False using m [of "[]" w] StringCopy_nonempty [of key] by (auto simp: ins(2) split: if_splits)
  qed
  have nall: "\<not> list_all fits ?kvs" using k0(1) nf by (auto simp: list_all_iff)
  let ?s = "s\<lparr>files := (files s)(cstr (filename s) \<mapsto> file_image ?p)\<rparr>"
  have sv: "basicStorageSave s key value = (?s, Some Abort)"
    using ok d(1) save_writes [OF ne] nall by (simp add: basicStorageSave_def saveEverything_def storage_ok_def)
  have fp: "list_all fits ?p" unfolding list_all_iff using set_takeWhileD by metis
  have sp: "sorted_wrt (<) (map fst (by_bytes ?p))"
    unfolding p by_bytes_takeWhile [of "\<lambda>b. b < dbytes ?k"] by (rule sorted_takeWhile [OF so])
  have l: "loadEverything ?s = Inr (read_back ?p)"
    using ok load_image [OF fp, of DictNew "[]"] load_end(1) by (simp add: loadEverything_def read_back_def storage_ok_def)
  have map_p: "map_of (by_bytes ?p) b = (if b < dbytes ?k then dict_map d b else None)" for b
    unfolding p by_bytes_takeWhile [of "\<lambda>b. b < dbytes ?k"] map_of_below [OF so] using ins(2) by (auto simp: dict_map_def)
  have "basicStorageLoad ?s q = (if dbytes (StringCopy q) < dbytes ?k then basicStorageLoad s q else Inr DataNull)"
    if "dlength (StringCopy q) \<le> 1024" for q
    using load_value [OF l read_back_map(1) [OF fp sp] sk [OF that]] load_value [OF d(1,2) sk [OF that]] d(4)
    by (auto simp: read_back_map(2) [OF fp sp] map_p split: option.splits)
  with sv show ?thesis by blast
qed

definition fresh_storage :: storage where
  "fresh_storage = bsSetup \<lparr>filename = DataNull, files = Map.empty, writable = (\<lambda>_. True)\<rparr> [102]"

lemma fresh_storage_ok: "storage_ok fresh_storage"
  by (simp add: fresh_storage_def bsSetup_def basicStorageSetup_def storage_ok_def StringNewC_def StringCopy_def Let_def)

lemma oversized_save_loses_example:
  "\<exists>s'. basicStorageSave fresh_storage (Bytes [107, 0]) (Bytes (replicate 10485761 0)) = (s', Some Abort)"
proof -
  have "StringCopy (Bytes [107, 0]) = Bytes [107, 0]" by (simp add: StringCopy_def Let_def)
  then show ?thesis
    using oversized_save_loses [OF fresh_storage_ok, of "Bytes [107, 0]" "Bytes (replicate 10485761 0)"] by auto
qed

end
