(* ===== verification/Mnemonic.thy ===== *)
theory Mnemonic
  imports Dictionaries C_Strings
begin

text \<open>
  Sentences of words for bytes: \<open>src/libraries/mnemonic/mnemonic.c\<close> and \<open>wordlist.c\<close>. A C string is
  given by its bytes before the terminating zero. \<open>good_words\<close> is what a list of 2048 words needs for
  its sentences to be read again. Allocation is assumed to succeed.
\<close>

section \<open>Word lists\<close>

fun strcmp :: "bytes \<Rightarrow> bytes \<Rightarrow> int" where
  "strcmp [] [] = 0"
| "strcmp [] (_ # _) = - 1"
| "strcmp (_ # _) [] = 1"
| "strcmp (x # xs) (y # ys) = (if x = y then strcmp xs ys else if x < y then - 1 else 1)"

record words =
  words_len :: nat
  words_bits :: nat
  words_sorted :: bool
  indices :: "bytes list"

fun get_bits :: "nat \<Rightarrow> nat" where
  "get_bits n = (if n div 2 = 0 then 0 else 1 + get_bits (n div 2))"

declare get_bits.simps [simp del]

definition wordlist_count :: "bytes \<Rightarrow> nat" where
  "wordlist_count str = fold (\<lambda>c len. if c = 32 then len + 1 else len) str 1"

fun wordlist_tokens :: "bytes \<Rightarrow> bytes \<Rightarrow> bytes list" where
  "wordlist_tokens p [] = [p]"
| "wordlist_tokens p (c # cs) = (if c = 32 then p # wordlist_tokens [] cs else wordlist_tokens (p @ [c]) cs)"

definition wordlist_init :: "bytes \<Rightarrow> words" where
  "wordlist_init str =
     (let ws = wordlist_tokens [] str; len = wordlist_count str
      in \<lparr>words_len = len, words_bits = get_bits len,
          words_sorted = list_all (\<lambda>i. \<not> strcmp (ws ! (i - 1)) (ws ! i) > 0) [1..<len], indices = ws\<rparr>)"

text \<open>The number of the word, counted from 1, or 0.\<close>

fun lookup_loop :: "bytes \<Rightarrow> nat \<Rightarrow> bytes list \<Rightarrow> nat" where
  "lookup_loop word i [] = 0"
| "lookup_loop word i (x # xs) = (if strcmp word x = 0 then i + 1 else lookup_loop word (i + 1) xs)"

definition wordlist_lookup_word :: "words \<Rightarrow> bytes \<Rightarrow> nat" where
  "wordlist_lookup_word w word =
     (if words_sorted w then case fst (bsearch (strcmp word) (indices w)) of None \<Rightarrow> 0 | Some i \<Rightarrow> i + 1
      else lookup_loop word 0 (indices w))"

section \<open>Bits and words\<close>

definition U8_bit :: "bytes \<Rightarrow> nat \<Rightarrow> bool" where
  "U8_bit bs pos = bit (bs ! (pos div 8)) (7 - pos mod 8)"

definition extract_index :: "nat \<Rightarrow> bytes \<Rightarrow> nat \<Rightarrow> nat" where
  "extract_index bits bs n = fold (\<lambda>pos val. 2 * val + of_bool (U8_bit bs pos)) [n * bits..<n * bits + bits] 0"

definition store_index :: "nat \<Rightarrow> bytes \<Rightarrow> nat \<Rightarrow> nat \<Rightarrow> bytes" where
  "store_index bits out n val =
     fold (\<lambda>i out. let pos = n * bits + i in
        if bit val (bits - i - 1) then out[pos div 8 := out ! (pos div 8) OR push_bit (7 - pos mod 8) 1] else out) [0..<bits] out"

text \<open>\<open>None\<close> is a null pointer: no word fits, and nothing is allocated.\<close>

definition mnemonic_from_bytes :: "words \<Rightarrow> bytes \<Rightarrow> bytes option" where
  "mnemonic_from_bytes w bs =
     (let total_mnemonics = length bs * 8 div words_bits w;
          str_len = fold (\<lambda>i n. n + length (indices w ! extract_index (words_bits w) bs i) + 1) [0..<total_mnemonics] 0
      in if str_len \<noteq> 0
         then Some (take (str_len - 1) (fold (\<lambda>i out. out @ indices w ! extract_index (words_bits w) bs i @ [32]) [0..<total_mnemonics] []))
         else None)"

text \<open>
  The result is the output buffer and the number of bytes written; \<open>None\<close> is a nonzero status. When
  the buffer is too small it stays as it is and the number needed is returned.
\<close>

fun mnemonic_words :: "words \<Rightarrow> nat \<Rightarrow> bytes list \<Rightarrow> bytes \<Rightarrow> bytes option" where
  "mnemonic_words w i [] out = Some out"
| "mnemonic_words w i (word # ws) out =
     (let idx = wordlist_lookup_word w word in
      if idx = 0 then None else mnemonic_words w (i + 1) ws (store_index (words_bits w) out i (idx - 1)))"

definition mnemonic_to_bytes :: "words \<Rightarrow> bytes \<Rightarrow> bytes \<Rightarrow> (bytes \<times> nat) option" where
  "mnemonic_to_bytes w mnemonic out =
     (let mnemonic_w = wordlist_init mnemonic; written = (words_len mnemonic_w * words_bits w + 7) div 8 in
      if length out = 0 then None
      else if written > length out then Some (out, written)
      else map_option (\<lambda>out. (out, written)) (mnemonic_words w 0 (indices mnemonic_w) (replicate (length out) 0)))"

section \<open>Words are found\<close>

lemma strcmp_0_iff: "strcmp xs ys = 0 \<longleftrightarrow> xs = ys"
  by (induction xs ys rule: strcmp.induct) auto

lemma strcmp_neg: "strcmp ys xs = - strcmp xs ys"
  by (induction xs ys rule: strcmp.induct) auto

lemma strcmp_trans: "strcmp xs ys < 0 \<Longrightarrow> strcmp ys zs < 0 \<Longrightarrow> strcmp xs zs < 0"
proof (induction xs zs arbitrary: ys rule: strcmp.induct)
  case (4 x xs z zs)
  then obtain y ys' where "ys = y # ys'" by (cases ys) auto
  with 4 show ?case by (auto split: if_splits)
next
  case (3 x xs)
  then show ?case by (cases ys) (auto split: if_splits)
next
  case (2 y zs)
  then show ?case by simp
next
  case 1
  then show ?case by (cases ys) auto
qed

definition good_words :: "words \<Rightarrow> bool" where
  "good_words w \<longleftrightarrow> words_bits w = 11 \<and> length (indices w) = 2048 \<and> distinct (indices w)
     \<and> (words_sorted w \<longrightarrow> sorted_wrt (\<lambda>a b. strcmp a b < 0) (indices w))
     \<and> list_all (\<lambda>x. x \<noteq> [] \<and> 0 \<notin> set x \<and> 32 \<notin> set x) (indices w)"

lemma lookup_loop_found:
  assumes "distinct xs" "j < length xs"
  shows "lookup_loop (xs ! j) i xs = i + j + 1"
  using assms
proof (induction xs arbitrary: i j)
  case (Cons x xs)
  then show ?case by (cases j) (auto simp: strcmp_0_iff)
qed simp

lemma lookup_found:
  assumes w: "good_words w" and j: "j < 2048"
  shows "wordlist_lookup_word w (indices w ! j) = j + 1"
proof (cases "words_sorted w")
  case True
  then have so: "sorted_wrt (\<lambda>a b. strcmp a b < 0) (indices w)" using w by (simp add: good_words_def)
  have lt: "strcmp (indices w ! a) (indices w ! b) < 0" if "a < b" "b < length (indices w)" for a b
    using so that by (simp add: sorted_wrt_iff_nth_less)
  have po: "probe_ordered (strcmp x) (indices w)" for x
    unfolding probe_ordered_def
  proof (intro allI impI conjI)
    fix a b assume ab: "a < b" "b < length (indices w)"
    {
      assume "strcmp x (indices w ! a) \<le> 0"
      then show "strcmp x (indices w ! b) < 0" using lt [OF ab] strcmp_trans strcmp_0_iff by (metis order_le_less)
    next
      assume "0 \<le> strcmp x (indices w ! b)"
      then have "strcmp (indices w ! b) x \<le> 0" by (simp add: strcmp_neg [of x "indices w ! b"])
      then have "strcmp (indices w ! a) x < 0" using lt [OF ab] strcmp_trans strcmp_0_iff by (metis order_le_less)
      then show "0 < strcmp x (indices w ! a)" by (simp add: strcmp_neg [of x "indices w ! a"])
    }
  qed
  have jl: "j < length (indices w)" using w j by (simp add: good_words_def)
  show ?thesis
  proof (cases "bsearch (strcmp (indices w ! j)) (indices w)")
    case (Pair r t)
    show ?thesis
    proof (cases r)
      case None
      from bsearch_missing [OF po Pair [unfolded None]] jl show ?thesis
        by (auto simp: split_at_def) (metis linorder_not_less order_less_irrefl strcmp_0_iff)
    next
      case (Some i)
      from bsearch_found [OF po Pair [unfolded Some]] have i: "i < length (indices w)" "indices w ! j = indices w ! i"
        by (simp_all add: strcmp_0_iff)
      then have "i = j" using w jl by (simp add: good_words_def nth_eq_iff_index_eq)
      then show ?thesis using True by (simp add: wordlist_lookup_word_def Pair Some)
    qed
  qed
next
  case False
  then show ?thesis using lookup_loop_found [of "indices w" j 0] w j by (simp add: wordlist_lookup_word_def good_words_def)
qed

section \<open>Bits survive\<close>

lemma U8_bit_set:
  assumes "p div 8 < length bs" "q div 8 < length bs"
  shows "U8_bit (bs[p div 8 := bs ! (p div 8) OR push_bit (7 - p mod 8) 1]) q \<longleftrightarrow> U8_bit bs q \<or> q = p"
proof (cases "q div 8 = p div 8")
  case True
  have "bit (push_bit (7 - p mod 8) (1 :: u8)) (7 - q mod 8) \<longleftrightarrow> p mod 8 = q mod 8"
    by (auto simp: bit_simps)
  moreover have "q = p \<longleftrightarrow> p mod 8 = q mod 8" using True by (metis div_mult_mod_eq)
  ultimately show ?thesis using True assms by (simp add: U8_bit_def bit_or_iff)
next
  case False
  then show ?thesis using assms by (auto simp: U8_bit_def nth_list_update)
qed

lemma store_index_length [simp]: "length (store_index bits out n val) = length out"
proof -
  have "length (fold (\<lambda>i out. let pos = n * bits + i in if bit val (bits - i - 1) then out[pos div 8 := out ! (pos div 8) OR push_bit (7 - pos mod 8) 1] else out) xs out) = length out"
    for xs and out :: bytes by (induction xs arbitrary: out) (simp_all add: Let_def)
  then show ?thesis by (simp add: store_index_def)
qed

lemma store_index_bit:
  assumes "(n + 1) * bits \<le> 8 * length out" "q < 8 * length out"
  shows "U8_bit (store_index bits out n val) q \<longleftrightarrow> U8_bit out q \<or> (n * bits \<le> q \<and> q < n * bits + bits \<and> bit val (bits - (q - n * bits) - 1))"
proof -
  let ?f = "\<lambda>i out. let pos = n * bits + i in if bit val (bits - i - 1) then out[pos div 8 := out ! (pos div 8) OR push_bit (7 - pos mod 8) 1] else out"
  have "length (fold ?f [0..<k] out) = length out \<and> (U8_bit (fold ?f [0..<k] out) q \<longleftrightarrow> U8_bit out q \<or> (\<exists>i < k. q = n * bits + i \<and> bit val (bits - i - 1)))"
    if "k \<le> bits" for k
    using that
  proof (induction k)
    case (Suc k)
    have "n * bits + k < 8 * length out" using Suc.prems assms(1) by simp
    then have "(n * bits + k) div 8 < length out" "q div 8 < length out" using assms(2) by auto
    with Suc U8_bit_set [of "n * bits + k" "fold ?f [0..<k] out" q] show ?case
      by (auto simp: Let_def less_Suc_eq)
  qed simp
  from this [of bits] show ?thesis
    unfolding store_index_def by (auto intro!: exI [of _ "q - n * bits"])
qed

lemma extract_index_bit:
  assumes "j < bits"
  shows "bit (extract_index bits bs n) j \<longleftrightarrow> U8_bit bs (n * bits + bits - 1 - j)"
proof -
  have "bit (fold (\<lambda>pos val. 2 * val + of_bool (U8_bit bs pos)) [a..<a + k] (0 :: nat)) j \<longleftrightarrow> U8_bit bs (a + k - 1 - j)" if "j < k" for a k
    using that
  proof (induction k arbitrary: j)
    case (Suc k)
    then show ?case by (cases j) (auto simp: bit_0 bit_Suc)
  qed simp
  from this [OF assms] show ?thesis by (simp add: extract_index_def)
qed

lemma extract_index_less: "extract_index bits bs n < 2 ^ bits"
proof -
  have "fold (\<lambda>pos val. 2 * val + of_bool (U8_bit bs pos)) [a..<a + k] (0 :: nat) < 2 ^ k" for a k
  proof (induction k)
    case (Suc k)
    then show ?case by (simp add: of_bool_def)
  qed simp
  then show ?thesis by (simp add: extract_index_def)
qed

lemma mnemonic_words_bits:
  assumes w: "good_words w" and i: "list_all (\<lambda>x. x < 2048) idxs" and len: "(i + length idxs) * 11 \<le> 8 * length out"
  shows "\<exists>res. mnemonic_words w i (map (\<lambda>x. indices w ! x) idxs) out = Some res \<and> length res = length out
    \<and> (\<forall>q < 8 * length out. U8_bit res q \<longleftrightarrow> U8_bit out q
        \<or> (i * 11 \<le> q \<and> q < (i + length idxs) * 11 \<and> bit (idxs ! ((q - i * 11) div 11)) (10 - (q - i * 11) mod 11)))"
  using i len
proof (induction idxs arbitrary: i out)
  case (Cons x idxs)
  have b: "words_bits w = 11" using w by (simp add: good_words_def)
  let ?out = "store_index 11 out i x"
  from Cons.IH [of "i + 1" ?out] Cons.prems obtain res where
    res: "mnemonic_words w (i + 1) (map (\<lambda>x. indices w ! x) idxs) ?out = Some res" "length res = length out"
      "\<forall>q < 8 * length out. U8_bit res q \<longleftrightarrow> U8_bit ?out q
        \<or> ((i + 1) * 11 \<le> q \<and> q < (i + 1 + length idxs) * 11 \<and> bit (idxs ! ((q - (i + 1) * 11) div 11)) (10 - (q - (i + 1) * 11) mod 11))"
    by auto
  have "U8_bit res q \<longleftrightarrow> U8_bit out q
        \<or> (i * 11 \<le> q \<and> q < (i + length (x # idxs)) * 11 \<and> bit ((x # idxs) ! ((q - i * 11) div 11)) (10 - (q - i * 11) mod 11))"
    if q: "q < 8 * length out" for q
  proof (cases "q < (i + 1) * 11")
    case True
    then have "(q - i * 11) div 11 = 0" "(q - i * 11) mod 11 = q - i * 11" by auto
    then show ?thesis using True res(3) q store_index_bit [of i 11 out q x] Cons.prems(2) by auto
  next
    case False
    then have e: "q - i * 11 = (q - (i + 1) * 11) + 11" by simp
    have "(q - i * 11) div 11 = Suc ((q - (i + 1) * 11) div 11)" "(q - i * 11) mod 11 = (q - (i + 1) * 11) mod 11"
      unfolding e by simp_all
    then show ?thesis using False res(3) q store_index_bit [of i 11 out q x] Cons.prems(2) by auto
  qed
  moreover have "mnemonic_words w i (map (\<lambda>x. indices w ! x) (x # idxs)) out = Some res"
    using res(1) lookup_found [OF w, of x] Cons.prems(1) b by (simp add: Let_def)
  ultimately show ?case using res(2) by auto
qed auto

section \<open>Sentences\<close>

definition sentence :: "bytes list \<Rightarrow> bytes" where
  "sentence ws = butlast (concat (map (\<lambda>x. x @ [32]) ws))"

lemma sentence_simps: "sentence [x] = x" "sentence (x # y # ys) = x @ 32 # sentence (y # ys)"
  by (simp_all add: sentence_def butlast_append)

lemma tokens_word:
  assumes "32 \<notin> set x"
  shows "wordlist_tokens p x = [p @ x]" "wordlist_tokens p (x @ 32 # cs) = (p @ x) # wordlist_tokens [] cs"
  using assms by (induction x arbitrary: p) auto

lemma count_fold: "fold (\<lambda>c len. if c = 32 then len + 1 else len) cs (n :: nat) = n + length (filter (\<lambda>c. c = 32) cs)"
  by (induction cs arbitrary: n) auto

lemma tokens_sentence:
  assumes "ws \<noteq> []" "list_all (\<lambda>x. 32 \<notin> set x) ws"
  shows "wordlist_tokens [] (sentence ws) = ws \<and> wordlist_count (sentence ws) = length ws"
  using assms
proof (induction ws)
  case (Cons x ws)
  have "filter (\<lambda>c. c = 32) x = []" using Cons.prems by (auto simp: filter_empty_conv)
  with Cons show ?case by (cases ws) (auto simp: sentence_simps tokens_word wordlist_count_def count_fold)
qed simp

lemma sentence_size:
  assumes "ws \<noteq> []" "list_all (\<lambda>x. x \<noteq> []) ws"
  shows "2 * length ws \<le> length (sentence ws) + 1"
  using assms
proof (induction ws)
  case (Cons x ws)
  have "1 \<le> length x" using Cons.prems by (cases x) auto
  with Cons show ?case by (cases ws) (auto simp: sentence_simps)
qed simp

lemma from_bytes_sentence:
  assumes w: "good_words w" and T: "length bs * 8 div 11 \<noteq> 0"
  shows "mnemonic_from_bytes w bs = Some (sentence (map (\<lambda>i. indices w ! extract_index 11 bs i) [0..<length bs * 8 div 11]))"
proof -
  have b: "words_bits w = 11" using w by (simp add: good_words_def)
  let ?g = "\<lambda>i. indices w ! extract_index 11 bs i"
  have len: "fold (\<lambda>i n. n + length (?g i) + 1) xs n = n + length (concat (map (\<lambda>x. x @ [32]) (map ?g xs)))" for xs n
    by (induction xs arbitrary: n) simp_all
  have out: "fold (\<lambda>i out. out @ ?g i @ [32]) xs out = out @ concat (map (\<lambda>x. x @ [32]) (map ?g xs))" for xs out
    by (induction xs arbitrary: out) simp_all
  obtain n where "length bs * 8 div 11 = Suc n" using T not0_implies_Suc by blast
  then have "concat (map (\<lambda>x. x @ [32 :: u8]) (map ?g [0..<length bs * 8 div 11])) \<noteq> []" by (simp only: upt_Suc_append [OF zero_le] map_append concat_append list.map concat.simps) simp
  then have "length (concat (map (\<lambda>x. x @ [32 :: u8]) (map ?g [0..<length bs * 8 div 11]))) \<noteq> 0" by (metis length_0_conv)
  then show ?thesis
    unfolding mnemonic_from_bytes_def Let_def b len out sentence_def by (simp add: butlast_conv_take)
qed

lemma to_bytes_sentence:
  assumes w: "good_words w" and i: "list_all (\<lambda>x. x < 2048) idxs" "idxs \<noteq> []"
    and out: "(length idxs * 11 + 7) div 8 \<le> length out"
  shows "\<exists>res. mnemonic_to_bytes w (sentence (map (\<lambda>x. indices w ! x) idxs)) out = Some (res, (length idxs * 11 + 7) div 8)
    \<and> length res = length out \<and> (\<forall>q < length idxs * 11. U8_bit res q \<longleftrightarrow> bit (idxs ! (q div 11)) (10 - q mod 11))"
proof -
  have b: "words_bits w = 11" "length (indices w) = 2048" using w by (simp_all add: good_words_def)
  let ?ws = "map (\<lambda>x. indices w ! x) idxs"
  have good: "x \<noteq> [] \<and> 32 \<notin> set x" if "x \<in> set (indices w)" for x using w that by (simp add: good_words_def list_all_iff)
  have "list_all (\<lambda>x. 32 \<notin> set x) ?ws" using i(1) good b(2) by (auto simp: list_all_iff)
  from tokens_sentence [OF _ this] i(2) have t: "wordlist_tokens [] (sentence ?ws) = ?ws" "wordlist_count (sentence ?ws) = length idxs" by auto
  have l: "length idxs * 11 \<le> 8 * length out" "length out \<noteq> 0"
  proof -
    show "length idxs * 11 \<le> 8 * length out" using out by linarith
    have "length idxs \<noteq> 0" using i(2) by simp
    then show "length out \<noteq> 0" using out by linarith
  qed
  have "\<exists>res. mnemonic_words w 0 ?ws (replicate (length out) 0) = Some res \<and> length res = length out
      \<and> (\<forall>q < 8 * length out. U8_bit res q \<longleftrightarrow> U8_bit (replicate (length out) 0) q \<or> (q < length idxs * 11 \<and> bit (idxs ! (q div 11)) (10 - q mod 11)))"
    using mnemonic_words_bits [OF w i(1), of 0 "replicate (length out) 0"] l(1) by simp
  then obtain res where
    r: "mnemonic_words w 0 ?ws (replicate (length out) 0) = Some res" "length res = length out"
      "\<forall>q < 8 * length out. U8_bit res q \<longleftrightarrow> U8_bit (replicate (length out) 0) q \<or> (q < length idxs * 11 \<and> bit (idxs ! (q div 11)) (10 - q mod 11))"
    by blast
  have "U8_bit res q \<longleftrightarrow> bit (idxs ! (q div 11)) (10 - q mod 11)" if "q < length idxs * 11" for q
    using r(3) that l(1) by (auto simp: U8_bit_def)
  then show ?thesis using r(1,2) out l(2) by (auto simp: mnemonic_to_bytes_def wordlist_init_def t b Let_def)
qed

lemma sentence_back:
  assumes w: "good_words w" and T: "length bs * 8 div 11 \<noteq> 0" and k: "8 * k \<le> length bs * 8 div 11 * 11" "k \<le> length bs"
    and str: "mnemonic_from_bytes w bs = Some sen" and out: "length out = length sen + 1"
  shows "\<exists>res. mnemonic_to_bytes w sen out = Some (res, (length bs * 8 div 11 * 11 + 7) div 8)
    \<and> take k res = take k bs \<and> length res = length sen + 1 \<and> (length bs * 8 div 11 * 11 + 7) div 8 \<le> length res \<and> 0 \<notin> set sen"
proof -
  let ?idxs = "map (extract_index 11 bs) [0..<length bs * 8 div 11]"
  have b: "length (indices w) = 2048" using w by (simp_all add: good_words_def)
  have good: "x \<noteq> [] \<and> 0 \<notin> set x" if "x \<in> set (indices w)" for x using w that by (simp add: good_words_def list_all_iff)
  have lt: "list_all (\<lambda>x. x < 2048) ?idxs" using extract_index_less [of 11 bs] by (simp add: list_all_iff)
  have ts: "sen = sentence (map (\<lambda>x. indices w ! x) ?idxs)" using from_bytes_sentence [OF w T] str by (simp add: comp_def)
  have ne: "?idxs \<noteq> []" using T by auto
  have "list_all (\<lambda>x. x \<noteq> []) (map (\<lambda>x. indices w ! x) ?idxs)" using good lt b by (auto simp: list_all_iff)
  from sentence_size [OF _ this] ne have "2 * (length bs * 8 div 11) \<le> length sen + 1" by (auto simp: ts)
  then have room: "(length ?idxs * 11 + 7) div 8 \<le> length out" using T out by simp
  obtain res where r: "mnemonic_to_bytes w sen out = Some (res, (length bs * 8 div 11 * 11 + 7) div 8)"
    "length res = length sen + 1" "\<forall>q < length ?idxs * 11. U8_bit res q \<longleftrightarrow> bit (?idxs ! (q div 11)) (10 - q mod 11)"
    using to_bytes_sentence [OF w lt ne room] out unfolding ts by auto
  have bits: "U8_bit res q \<longleftrightarrow> U8_bit bs q" if q: "q < length bs * 8 div 11 * 11" for q
  proof -
    have d: "q div 11 < length bs * 8 div 11" using q by (simp add: less_mult_imp_div_less)
    have "bit (extract_index 11 bs (q div 11)) (10 - q mod 11) \<longleftrightarrow> U8_bit bs (q div 11 * 11 + 11 - 1 - (10 - q mod 11))"
      by (rule extract_index_bit) simp
    moreover have "q div 11 * 11 + 11 - 1 - (10 - q mod 11) = q"
      using div_mult_mod_eq [of q 11] mod_less_divisor [of 11 q] by linarith
    ultimately show ?thesis using r(3) q d by simp
  qed
  have "k \<le> (length bs * 8 div 11 * 11 + 7) div 8" using k(1) by (simp add: less_eq_div_iff_mult_less_eq)
  then have kr: "k \<le> length res" using room r(2) out by simp
  have "take k res = take k bs"
  proof (rule nth_equalityI)
    show "length (take k res) = length (take k bs)" using kr k(2) by simp
    fix i assume "i < length (take k res)"
    then have i: "i < k" using kr by simp
    have "res ! i = bs ! i"
    proof (rule bit_word_eqI)
      fix j assume j: "j < LENGTH(8)"
      then have "8 * i + (7 - j) < length bs * 8 div 11 * 11" using i k(1) by simp
      from bits [OF this] show "bit (res ! i) j \<longleftrightarrow> bit (bs ! i) j" using j by (simp add: U8_bit_def)
    qed
    then show "take k res ! i = take k bs ! i" using i by simp
  qed
  moreover have "0 \<notin> set sen"
  proof -
    have "set sen \<subseteq> set (concat (map (\<lambda>x. x @ [32]) (map (\<lambda>x. indices w ! x) ?idxs)))"
      unfolding ts sentence_def by (meson in_set_butlastD subsetI)
    also have "\<dots> \<subseteq> insert 32 (\<Union>x \<in> set (indices w). set x)" using lt b by (auto simp: list_all_iff)
    finally show ?thesis using good by auto
  qed
  ultimately show ?thesis using r(1,2) room out by simp
qed

end
