(* ===== verification/English_Words.thy ===== *)
theory English_Words
  imports Mnemonic
begin

text \<open>
  The word list of \<open>nmemonicWordlist\<close> in \<open>src/code/BTCUtil.c\<close>, in rows of 64 words. The literal of the
  source is the words separated by single spaces.
\<close>

section \<open>The words\<close>

definition word_row_1 :: "string list" where
  "word_row_1 =
    [''abandon'', ''ability'', ''able'', ''about'', ''above'', ''absent'', ''absorb'',
     ''abstract'', ''absurd'', ''abuse'', ''access'', ''accident'', ''account'', ''accuse'',
     ''achieve'', ''acid'', ''acoustic'', ''acquire'', ''across'', ''act'', ''action'', ''actor'',
     ''actress'', ''actual'', ''adapt'', ''add'', ''addict'', ''address'', ''adjust'', ''admit'',
     ''adult'', ''advance'', ''advice'', ''aerobic'', ''affair'', ''afford'', ''afraid'',
     ''again'', ''age'', ''agent'', ''agree'', ''ahead'', ''aim'', ''air'', ''airport'', ''aisle'',
     ''alarm'', ''album'', ''alcohol'', ''alert'', ''alien'', ''all'', ''alley'', ''allow'',
     ''almost'', ''alone'', ''alpha'', ''already'', ''also'', ''alter'', ''always'', ''amateur'',
     ''amazing'', ''among'']"

definition word_row_2 :: "string list" where
  "word_row_2 =
    [''amount'', ''amused'', ''analyst'', ''anchor'', ''ancient'', ''anger'', ''angle'', ''angry'',
     ''animal'', ''ankle'', ''announce'', ''annual'', ''another'', ''answer'', ''antenna'',
     ''antique'', ''anxiety'', ''any'', ''apart'', ''apology'', ''appear'', ''apple'', ''approve'',
     ''april'', ''arch'', ''arctic'', ''area'', ''arena'', ''argue'', ''arm'', ''armed'',
     ''armor'', ''army'', ''around'', ''arrange'', ''arrest'', ''arrive'', ''arrow'', ''art'',
     ''artefact'', ''artist'', ''artwork'', ''ask'', ''aspect'', ''assault'', ''asset'',
     ''assist'', ''assume'', ''asthma'', ''athlete'', ''atom'', ''attack'', ''attend'',
     ''attitude'', ''attract'', ''auction'', ''audit'', ''august'', ''aunt'', ''author'', ''auto'',
     ''autumn'', ''average'', ''avocado'']"

definition word_row_3 :: "string list" where
  "word_row_3 =
    [''avoid'', ''awake'', ''aware'', ''away'', ''awesome'', ''awful'', ''awkward'', ''axis'',
     ''baby'', ''bachelor'', ''bacon'', ''badge'', ''bag'', ''balance'', ''balcony'', ''ball'',
     ''bamboo'', ''banana'', ''banner'', ''bar'', ''barely'', ''bargain'', ''barrel'', ''base'',
     ''basic'', ''basket'', ''battle'', ''beach'', ''bean'', ''beauty'', ''because'', ''become'',
     ''beef'', ''before'', ''begin'', ''behave'', ''behind'', ''believe'', ''below'', ''belt'',
     ''bench'', ''benefit'', ''best'', ''betray'', ''better'', ''between'', ''beyond'',
     ''bicycle'', ''bid'', ''bike'', ''bind'', ''biology'', ''bird'', ''birth'', ''bitter'',
     ''black'', ''blade'', ''blame'', ''blanket'', ''blast'', ''bleak'', ''bless'', ''blind'',
     ''blood'']"

definition word_row_4 :: "string list" where
  "word_row_4 =
    [''blossom'', ''blouse'', ''blue'', ''blur'', ''blush'', ''board'', ''boat'', ''body'',
     ''boil'', ''bomb'', ''bone'', ''bonus'', ''book'', ''boost'', ''border'', ''boring'',
     ''borrow'', ''boss'', ''bottom'', ''bounce'', ''box'', ''boy'', ''bracket'', ''brain'',
     ''brand'', ''brass'', ''brave'', ''bread'', ''breeze'', ''brick'', ''bridge'', ''brief'',
     ''bright'', ''bring'', ''brisk'', ''broccoli'', ''broken'', ''bronze'', ''broom'',
     ''brother'', ''brown'', ''brush'', ''bubble'', ''buddy'', ''budget'', ''buffalo'', ''build'',
     ''bulb'', ''bulk'', ''bullet'', ''bundle'', ''bunker'', ''burden'', ''burger'', ''burst'',
     ''bus'', ''business'', ''busy'', ''butter'', ''buyer'', ''buzz'', ''cabbage'', ''cabin'',
     ''cable'']"

definition word_row_5 :: "string list" where
  "word_row_5 =
    [''cactus'', ''cage'', ''cake'', ''call'', ''calm'', ''camera'', ''camp'', ''can'', ''canal'',
     ''cancel'', ''candy'', ''cannon'', ''canoe'', ''canvas'', ''canyon'', ''capable'',
     ''capital'', ''captain'', ''car'', ''carbon'', ''card'', ''cargo'', ''carpet'', ''carry'',
     ''cart'', ''case'', ''cash'', ''casino'', ''castle'', ''casual'', ''cat'', ''catalog'',
     ''catch'', ''category'', ''cattle'', ''caught'', ''cause'', ''caution'', ''cave'',
     ''ceiling'', ''celery'', ''cement'', ''census'', ''century'', ''cereal'', ''certain'',
     ''chair'', ''chalk'', ''champion'', ''change'', ''chaos'', ''chapter'', ''charge'', ''chase'',
     ''chat'', ''cheap'', ''check'', ''cheese'', ''chef'', ''cherry'', ''chest'', ''chicken'',
     ''chief'', ''child'']"

definition word_row_6 :: "string list" where
  "word_row_6 =
    [''chimney'', ''choice'', ''choose'', ''chronic'', ''chuckle'', ''chunk'', ''churn'',
     ''cigar'', ''cinnamon'', ''circle'', ''citizen'', ''city'', ''civil'', ''claim'', ''clap'',
     ''clarify'', ''claw'', ''clay'', ''clean'', ''clerk'', ''clever'', ''click'', ''client'',
     ''cliff'', ''climb'', ''clinic'', ''clip'', ''clock'', ''clog'', ''close'', ''cloth'',
     ''cloud'', ''clown'', ''club'', ''clump'', ''cluster'', ''clutch'', ''coach'', ''coast'',
     ''coconut'', ''code'', ''coffee'', ''coil'', ''coin'', ''collect'', ''color'', ''column'',
     ''combine'', ''come'', ''comfort'', ''comic'', ''common'', ''company'', ''concert'',
     ''conduct'', ''confirm'', ''congress'', ''connect'', ''consider'', ''control'', ''convince'',
     ''cook'', ''cool'', ''copper'']"

definition word_row_7 :: "string list" where
  "word_row_7 =
    [''copy'', ''coral'', ''core'', ''corn'', ''correct'', ''cost'', ''cotton'', ''couch'',
     ''country'', ''couple'', ''course'', ''cousin'', ''cover'', ''coyote'', ''crack'', ''cradle'',
     ''craft'', ''cram'', ''crane'', ''crash'', ''crater'', ''crawl'', ''crazy'', ''cream'',
     ''credit'', ''creek'', ''crew'', ''cricket'', ''crime'', ''crisp'', ''critic'', ''crop'',
     ''cross'', ''crouch'', ''crowd'', ''crucial'', ''cruel'', ''cruise'', ''crumble'', ''crunch'',
     ''crush'', ''cry'', ''crystal'', ''cube'', ''culture'', ''cup'', ''cupboard'', ''curious'',
     ''current'', ''curtain'', ''curve'', ''cushion'', ''custom'', ''cute'', ''cycle'', ''dad'',
     ''damage'', ''damp'', ''dance'', ''danger'', ''daring'', ''dash'', ''daughter'', ''dawn'']"

definition word_row_8 :: "string list" where
  "word_row_8 =
    [''day'', ''deal'', ''debate'', ''debris'', ''decade'', ''december'', ''decide'', ''decline'',
     ''decorate'', ''decrease'', ''deer'', ''defense'', ''define'', ''defy'', ''degree'',
     ''delay'', ''deliver'', ''demand'', ''demise'', ''denial'', ''dentist'', ''deny'', ''depart'',
     ''depend'', ''deposit'', ''depth'', ''deputy'', ''derive'', ''describe'', ''desert'',
     ''design'', ''desk'', ''despair'', ''destroy'', ''detail'', ''detect'', ''develop'',
     ''device'', ''devote'', ''diagram'', ''dial'', ''diamond'', ''diary'', ''dice'', ''diesel'',
     ''diet'', ''differ'', ''digital'', ''dignity'', ''dilemma'', ''dinner'', ''dinosaur'',
     ''direct'', ''dirt'', ''disagree'', ''discover'', ''disease'', ''dish'', ''dismiss'',
     ''disorder'', ''display'', ''distance'', ''divert'', ''divide'']"

definition word_row_9 :: "string list" where
  "word_row_9 =
    [''divorce'', ''dizzy'', ''doctor'', ''document'', ''dog'', ''doll'', ''dolphin'', ''domain'',
     ''donate'', ''donkey'', ''donor'', ''door'', ''dose'', ''double'', ''dove'', ''draft'',
     ''dragon'', ''drama'', ''drastic'', ''draw'', ''dream'', ''dress'', ''drift'', ''drill'',
     ''drink'', ''drip'', ''drive'', ''drop'', ''drum'', ''dry'', ''duck'', ''dumb'', ''dune'',
     ''during'', ''dust'', ''dutch'', ''duty'', ''dwarf'', ''dynamic'', ''eager'', ''eagle'',
     ''early'', ''earn'', ''earth'', ''easily'', ''east'', ''easy'', ''echo'', ''ecology'',
     ''economy'', ''edge'', ''edit'', ''educate'', ''effort'', ''egg'', ''eight'', ''either'',
     ''elbow'', ''elder'', ''electric'', ''elegant'', ''element'', ''elephant'', ''elevator'']"

definition word_row_10 :: "string list" where
  "word_row_10 =
    [''elite'', ''else'', ''embark'', ''embody'', ''embrace'', ''emerge'', ''emotion'', ''employ'',
     ''empower'', ''empty'', ''enable'', ''enact'', ''end'', ''endless'', ''endorse'', ''enemy'',
     ''energy'', ''enforce'', ''engage'', ''engine'', ''enhance'', ''enjoy'', ''enlist'',
     ''enough'', ''enrich'', ''enroll'', ''ensure'', ''enter'', ''entire'', ''entry'',
     ''envelope'', ''episode'', ''equal'', ''equip'', ''era'', ''erase'', ''erode'', ''erosion'',
     ''error'', ''erupt'', ''escape'', ''essay'', ''essence'', ''estate'', ''eternal'', ''ethics'',
     ''evidence'', ''evil'', ''evoke'', ''evolve'', ''exact'', ''example'', ''excess'',
     ''exchange'', ''excite'', ''exclude'', ''excuse'', ''execute'', ''exercise'', ''exhaust'',
     ''exhibit'', ''exile'', ''exist'', ''exit'']"

definition word_row_11 :: "string list" where
  "word_row_11 =
    [''exotic'', ''expand'', ''expect'', ''expire'', ''explain'', ''expose'', ''express'',
     ''extend'', ''extra'', ''eye'', ''eyebrow'', ''fabric'', ''face'', ''faculty'', ''fade'',
     ''faint'', ''faith'', ''fall'', ''false'', ''fame'', ''family'', ''famous'', ''fan'',
     ''fancy'', ''fantasy'', ''farm'', ''fashion'', ''fat'', ''fatal'', ''father'', ''fatigue'',
     ''fault'', ''favorite'', ''feature'', ''february'', ''federal'', ''fee'', ''feed'', ''feel'',
     ''female'', ''fence'', ''festival'', ''fetch'', ''fever'', ''few'', ''fiber'', ''fiction'',
     ''field'', ''figure'', ''file'', ''film'', ''filter'', ''final'', ''find'', ''fine'',
     ''finger'', ''finish'', ''fire'', ''firm'', ''first'', ''fiscal'', ''fish'', ''fit'',
     ''fitness'']"

definition word_row_12 :: "string list" where
  "word_row_12 =
    [''fix'', ''flag'', ''flame'', ''flash'', ''flat'', ''flavor'', ''flee'', ''flight'', ''flip'',
     ''float'', ''flock'', ''floor'', ''flower'', ''fluid'', ''flush'', ''fly'', ''foam'',
     ''focus'', ''fog'', ''foil'', ''fold'', ''follow'', ''food'', ''foot'', ''force'', ''forest'',
     ''forget'', ''fork'', ''fortune'', ''forum'', ''forward'', ''fossil'', ''foster'', ''found'',
     ''fox'', ''fragile'', ''frame'', ''frequent'', ''fresh'', ''friend'', ''fringe'', ''frog'',
     ''front'', ''frost'', ''frown'', ''frozen'', ''fruit'', ''fuel'', ''fun'', ''funny'',
     ''furnace'', ''fury'', ''future'', ''gadget'', ''gain'', ''galaxy'', ''gallery'', ''game'',
     ''gap'', ''garage'', ''garbage'', ''garden'', ''garlic'', ''garment'']"

definition word_row_13 :: "string list" where
  "word_row_13 =
    [''gas'', ''gasp'', ''gate'', ''gather'', ''gauge'', ''gaze'', ''general'', ''genius'',
     ''genre'', ''gentle'', ''genuine'', ''gesture'', ''ghost'', ''giant'', ''gift'', ''giggle'',
     ''ginger'', ''giraffe'', ''girl'', ''give'', ''glad'', ''glance'', ''glare'', ''glass'',
     ''glide'', ''glimpse'', ''globe'', ''gloom'', ''glory'', ''glove'', ''glow'', ''glue'',
     ''goat'', ''goddess'', ''gold'', ''good'', ''goose'', ''gorilla'', ''gospel'', ''gossip'',
     ''govern'', ''gown'', ''grab'', ''grace'', ''grain'', ''grant'', ''grape'', ''grass'',
     ''gravity'', ''great'', ''green'', ''grid'', ''grief'', ''grit'', ''grocery'', ''group'',
     ''grow'', ''grunt'', ''guard'', ''guess'', ''guide'', ''guilt'', ''guitar'', ''gun'']"

definition word_row_14 :: "string list" where
  "word_row_14 =
    [''gym'', ''habit'', ''hair'', ''half'', ''hammer'', ''hamster'', ''hand'', ''happy'',
     ''harbor'', ''hard'', ''harsh'', ''harvest'', ''hat'', ''have'', ''hawk'', ''hazard'',
     ''head'', ''health'', ''heart'', ''heavy'', ''hedgehog'', ''height'', ''hello'', ''helmet'',
     ''help'', ''hen'', ''hero'', ''hidden'', ''high'', ''hill'', ''hint'', ''hip'', ''hire'',
     ''history'', ''hobby'', ''hockey'', ''hold'', ''hole'', ''holiday'', ''hollow'', ''home'',
     ''honey'', ''hood'', ''hope'', ''horn'', ''horror'', ''horse'', ''hospital'', ''host'',
     ''hotel'', ''hour'', ''hover'', ''hub'', ''huge'', ''human'', ''humble'', ''humor'',
     ''hundred'', ''hungry'', ''hunt'', ''hurdle'', ''hurry'', ''hurt'', ''husband'']"

definition word_row_15 :: "string list" where
  "word_row_15 =
    [''hybrid'', ''ice'', ''icon'', ''idea'', ''identify'', ''idle'', ''ignore'', ''ill'',
     ''illegal'', ''illness'', ''image'', ''imitate'', ''immense'', ''immune'', ''impact'',
     ''impose'', ''improve'', ''impulse'', ''inch'', ''include'', ''income'', ''increase'',
     ''index'', ''indicate'', ''indoor'', ''industry'', ''infant'', ''inflict'', ''inform'',
     ''inhale'', ''inherit'', ''initial'', ''inject'', ''injury'', ''inmate'', ''inner'',
     ''innocent'', ''input'', ''inquiry'', ''insane'', ''insect'', ''inside'', ''inspire'',
     ''install'', ''intact'', ''interest'', ''into'', ''invest'', ''invite'', ''involve'',
     ''iron'', ''island'', ''isolate'', ''issue'', ''item'', ''ivory'', ''jacket'', ''jaguar'',
     ''jar'', ''jazz'', ''jealous'', ''jeans'', ''jelly'', ''jewel'']"

definition word_row_16 :: "string list" where
  "word_row_16 =
    [''job'', ''join'', ''joke'', ''journey'', ''joy'', ''judge'', ''juice'', ''jump'', ''jungle'',
     ''junior'', ''junk'', ''just'', ''kangaroo'', ''keen'', ''keep'', ''ketchup'', ''key'',
     ''kick'', ''kid'', ''kidney'', ''kind'', ''kingdom'', ''kiss'', ''kit'', ''kitchen'',
     ''kite'', ''kitten'', ''kiwi'', ''knee'', ''knife'', ''knock'', ''know'', ''lab'', ''label'',
     ''labor'', ''ladder'', ''lady'', ''lake'', ''lamp'', ''language'', ''laptop'', ''large'',
     ''later'', ''latin'', ''laugh'', ''laundry'', ''lava'', ''law'', ''lawn'', ''lawsuit'',
     ''layer'', ''lazy'', ''leader'', ''leaf'', ''learn'', ''leave'', ''lecture'', ''left'',
     ''leg'', ''legal'', ''legend'', ''leisure'', ''lemon'', ''lend'']"

definition word_row_17 :: "string list" where
  "word_row_17 =
    [''length'', ''lens'', ''leopard'', ''lesson'', ''letter'', ''level'', ''liar'', ''liberty'',
     ''library'', ''license'', ''life'', ''lift'', ''light'', ''like'', ''limb'', ''limit'',
     ''link'', ''lion'', ''liquid'', ''list'', ''little'', ''live'', ''lizard'', ''load'',
     ''loan'', ''lobster'', ''local'', ''lock'', ''logic'', ''lonely'', ''long'', ''loop'',
     ''lottery'', ''loud'', ''lounge'', ''love'', ''loyal'', ''lucky'', ''luggage'', ''lumber'',
     ''lunar'', ''lunch'', ''luxury'', ''lyrics'', ''machine'', ''mad'', ''magic'', ''magnet'',
     ''maid'', ''mail'', ''main'', ''major'', ''make'', ''mammal'', ''man'', ''manage'',
     ''mandate'', ''mango'', ''mansion'', ''manual'', ''maple'', ''marble'', ''march'', ''margin'']"

definition word_row_18 :: "string list" where
  "word_row_18 =
    [''marine'', ''market'', ''marriage'', ''mask'', ''mass'', ''master'', ''match'', ''material'',
     ''math'', ''matrix'', ''matter'', ''maximum'', ''maze'', ''meadow'', ''mean'', ''measure'',
     ''meat'', ''mechanic'', ''medal'', ''media'', ''melody'', ''melt'', ''member'', ''memory'',
     ''mention'', ''menu'', ''mercy'', ''merge'', ''merit'', ''merry'', ''mesh'', ''message'',
     ''metal'', ''method'', ''middle'', ''midnight'', ''milk'', ''million'', ''mimic'', ''mind'',
     ''minimum'', ''minor'', ''minute'', ''miracle'', ''mirror'', ''misery'', ''miss'',
     ''mistake'', ''mix'', ''mixed'', ''mixture'', ''mobile'', ''model'', ''modify'', ''mom'',
     ''moment'', ''monitor'', ''monkey'', ''monster'', ''month'', ''moon'', ''moral'', ''more'',
     ''morning'']"

definition word_row_19 :: "string list" where
  "word_row_19 =
    [''mosquito'', ''mother'', ''motion'', ''motor'', ''mountain'', ''mouse'', ''move'', ''movie'',
     ''much'', ''muffin'', ''mule'', ''multiply'', ''muscle'', ''museum'', ''mushroom'', ''music'',
     ''must'', ''mutual'', ''myself'', ''mystery'', ''myth'', ''naive'', ''name'', ''napkin'',
     ''narrow'', ''nasty'', ''nation'', ''nature'', ''near'', ''neck'', ''need'', ''negative'',
     ''neglect'', ''neither'', ''nephew'', ''nerve'', ''nest'', ''net'', ''network'', ''neutral'',
     ''never'', ''news'', ''next'', ''nice'', ''night'', ''noble'', ''noise'', ''nominee'',
     ''noodle'', ''normal'', ''north'', ''nose'', ''notable'', ''note'', ''nothing'', ''notice'',
     ''novel'', ''now'', ''nuclear'', ''number'', ''nurse'', ''nut'', ''oak'', ''obey'']"

definition word_row_20 :: "string list" where
  "word_row_20 =
    [''object'', ''oblige'', ''obscure'', ''observe'', ''obtain'', ''obvious'', ''occur'',
     ''ocean'', ''october'', ''odor'', ''off'', ''offer'', ''office'', ''often'', ''oil'',
     ''okay'', ''old'', ''olive'', ''olympic'', ''omit'', ''once'', ''one'', ''onion'', ''online'',
     ''only'', ''open'', ''opera'', ''opinion'', ''oppose'', ''option'', ''orange'', ''orbit'',
     ''orchard'', ''order'', ''ordinary'', ''organ'', ''orient'', ''original'', ''orphan'',
     ''ostrich'', ''other'', ''outdoor'', ''outer'', ''output'', ''outside'', ''oval'', ''oven'',
     ''over'', ''own'', ''owner'', ''oxygen'', ''oyster'', ''ozone'', ''pact'', ''paddle'',
     ''page'', ''pair'', ''palace'', ''palm'', ''panda'', ''panel'', ''panic'', ''panther'',
     ''paper'']"

definition word_row_21 :: "string list" where
  "word_row_21 =
    [''parade'', ''parent'', ''park'', ''parrot'', ''party'', ''pass'', ''patch'', ''path'',
     ''patient'', ''patrol'', ''pattern'', ''pause'', ''pave'', ''payment'', ''peace'', ''peanut'',
     ''pear'', ''peasant'', ''pelican'', ''pen'', ''penalty'', ''pencil'', ''people'', ''pepper'',
     ''perfect'', ''permit'', ''person'', ''pet'', ''phone'', ''photo'', ''phrase'', ''physical'',
     ''piano'', ''picnic'', ''picture'', ''piece'', ''pig'', ''pigeon'', ''pill'', ''pilot'',
     ''pink'', ''pioneer'', ''pipe'', ''pistol'', ''pitch'', ''pizza'', ''place'', ''planet'',
     ''plastic'', ''plate'', ''play'', ''please'', ''pledge'', ''pluck'', ''plug'', ''plunge'',
     ''poem'', ''poet'', ''point'', ''polar'', ''pole'', ''police'', ''pond'', ''pony'']"

definition word_row_22 :: "string list" where
  "word_row_22 =
    [''pool'', ''popular'', ''portion'', ''position'', ''possible'', ''post'', ''potato'',
     ''pottery'', ''poverty'', ''powder'', ''power'', ''practice'', ''praise'', ''predict'',
     ''prefer'', ''prepare'', ''present'', ''pretty'', ''prevent'', ''price'', ''pride'',
     ''primary'', ''print'', ''priority'', ''prison'', ''private'', ''prize'', ''problem'',
     ''process'', ''produce'', ''profit'', ''program'', ''project'', ''promote'', ''proof'',
     ''property'', ''prosper'', ''protect'', ''proud'', ''provide'', ''public'', ''pudding'',
     ''pull'', ''pulp'', ''pulse'', ''pumpkin'', ''punch'', ''pupil'', ''puppy'', ''purchase'',
     ''purity'', ''purpose'', ''purse'', ''push'', ''put'', ''puzzle'', ''pyramid'', ''quality'',
     ''quantum'', ''quarter'', ''question'', ''quick'', ''quit'', ''quiz'']"

definition word_row_23 :: "string list" where
  "word_row_23 =
    [''quote'', ''rabbit'', ''raccoon'', ''race'', ''rack'', ''radar'', ''radio'', ''rail'',
     ''rain'', ''raise'', ''rally'', ''ramp'', ''ranch'', ''random'', ''range'', ''rapid'',
     ''rare'', ''rate'', ''rather'', ''raven'', ''raw'', ''razor'', ''ready'', ''real'',
     ''reason'', ''rebel'', ''rebuild'', ''recall'', ''receive'', ''recipe'', ''record'',
     ''recycle'', ''reduce'', ''reflect'', ''reform'', ''refuse'', ''region'', ''regret'',
     ''regular'', ''reject'', ''relax'', ''release'', ''relief'', ''rely'', ''remain'',
     ''remember'', ''remind'', ''remove'', ''render'', ''renew'', ''rent'', ''reopen'', ''repair'',
     ''repeat'', ''replace'', ''report'', ''require'', ''rescue'', ''resemble'', ''resist'',
     ''resource'', ''response'', ''result'', ''retire'']"

definition word_row_24 :: "string list" where
  "word_row_24 =
    [''retreat'', ''return'', ''reunion'', ''reveal'', ''review'', ''reward'', ''rhythm'', ''rib'',
     ''ribbon'', ''rice'', ''rich'', ''ride'', ''ridge'', ''rifle'', ''right'', ''rigid'',
     ''ring'', ''riot'', ''ripple'', ''risk'', ''ritual'', ''rival'', ''river'', ''road'',
     ''roast'', ''robot'', ''robust'', ''rocket'', ''romance'', ''roof'', ''rookie'', ''room'',
     ''rose'', ''rotate'', ''rough'', ''round'', ''route'', ''royal'', ''rubber'', ''rude'',
     ''rug'', ''rule'', ''run'', ''runway'', ''rural'', ''sad'', ''saddle'', ''sadness'', ''safe'',
     ''sail'', ''salad'', ''salmon'', ''salon'', ''salt'', ''salute'', ''same'', ''sample'',
     ''sand'', ''satisfy'', ''satoshi'', ''sauce'', ''sausage'', ''save'', ''say'']"

definition word_row_25 :: "string list" where
  "word_row_25 =
    [''scale'', ''scan'', ''scare'', ''scatter'', ''scene'', ''scheme'', ''school'', ''science'',
     ''scissors'', ''scorpion'', ''scout'', ''scrap'', ''screen'', ''script'', ''scrub'', ''sea'',
     ''search'', ''season'', ''seat'', ''second'', ''secret'', ''section'', ''security'', ''seed'',
     ''seek'', ''segment'', ''select'', ''sell'', ''seminar'', ''senior'', ''sense'', ''sentence'',
     ''series'', ''service'', ''session'', ''settle'', ''setup'', ''seven'', ''shadow'', ''shaft'',
     ''shallow'', ''share'', ''shed'', ''shell'', ''sheriff'', ''shield'', ''shift'', ''shine'',
     ''ship'', ''shiver'', ''shock'', ''shoe'', ''shoot'', ''shop'', ''short'', ''shoulder'',
     ''shove'', ''shrimp'', ''shrug'', ''shuffle'', ''shy'', ''sibling'', ''sick'', ''side'']"

definition word_row_26 :: "string list" where
  "word_row_26 =
    [''siege'', ''sight'', ''sign'', ''silent'', ''silk'', ''silly'', ''silver'', ''similar'',
     ''simple'', ''since'', ''sing'', ''siren'', ''sister'', ''situate'', ''six'', ''size'',
     ''skate'', ''sketch'', ''ski'', ''skill'', ''skin'', ''skirt'', ''skull'', ''slab'', ''slam'',
     ''sleep'', ''slender'', ''slice'', ''slide'', ''slight'', ''slim'', ''slogan'', ''slot'',
     ''slow'', ''slush'', ''small'', ''smart'', ''smile'', ''smoke'', ''smooth'', ''snack'',
     ''snake'', ''snap'', ''sniff'', ''snow'', ''soap'', ''soccer'', ''social'', ''sock'',
     ''soda'', ''soft'', ''solar'', ''soldier'', ''solid'', ''solution'', ''solve'', ''someone'',
     ''song'', ''soon'', ''sorry'', ''sort'', ''soul'', ''sound'', ''soup'']"

definition word_row_27 :: "string list" where
  "word_row_27 =
    [''source'', ''south'', ''space'', ''spare'', ''spatial'', ''spawn'', ''speak'', ''special'',
     ''speed'', ''spell'', ''spend'', ''sphere'', ''spice'', ''spider'', ''spike'', ''spin'',
     ''spirit'', ''split'', ''spoil'', ''sponsor'', ''spoon'', ''sport'', ''spot'', ''spray'',
     ''spread'', ''spring'', ''spy'', ''square'', ''squeeze'', ''squirrel'', ''stable'',
     ''stadium'', ''staff'', ''stage'', ''stairs'', ''stamp'', ''stand'', ''start'', ''state'',
     ''stay'', ''steak'', ''steel'', ''stem'', ''step'', ''stereo'', ''stick'', ''still'',
     ''sting'', ''stock'', ''stomach'', ''stone'', ''stool'', ''story'', ''stove'', ''strategy'',
     ''street'', ''strike'', ''strong'', ''struggle'', ''student'', ''stuff'', ''stumble'',
     ''style'', ''subject'']"

definition word_row_28 :: "string list" where
  "word_row_28 =
    [''submit'', ''subway'', ''success'', ''such'', ''sudden'', ''suffer'', ''sugar'', ''suggest'',
     ''suit'', ''summer'', ''sun'', ''sunny'', ''sunset'', ''super'', ''supply'', ''supreme'',
     ''sure'', ''surface'', ''surge'', ''surprise'', ''surround'', ''survey'', ''suspect'',
     ''sustain'', ''swallow'', ''swamp'', ''swap'', ''swarm'', ''swear'', ''sweet'', ''swift'',
     ''swim'', ''swing'', ''switch'', ''sword'', ''symbol'', ''symptom'', ''syrup'', ''system'',
     ''table'', ''tackle'', ''tag'', ''tail'', ''talent'', ''talk'', ''tank'', ''tape'',
     ''target'', ''task'', ''taste'', ''tattoo'', ''taxi'', ''teach'', ''team'', ''tell'', ''ten'',
     ''tenant'', ''tennis'', ''tent'', ''term'', ''test'', ''text'', ''thank'', ''that'']"

definition word_row_29 :: "string list" where
  "word_row_29 =
    [''theme'', ''then'', ''theory'', ''there'', ''they'', ''thing'', ''this'', ''thought'',
     ''three'', ''thrive'', ''throw'', ''thumb'', ''thunder'', ''ticket'', ''tide'', ''tiger'',
     ''tilt'', ''timber'', ''time'', ''tiny'', ''tip'', ''tired'', ''tissue'', ''title'',
     ''toast'', ''tobacco'', ''today'', ''toddler'', ''toe'', ''together'', ''toilet'', ''token'',
     ''tomato'', ''tomorrow'', ''tone'', ''tongue'', ''tonight'', ''tool'', ''tooth'', ''top'',
     ''topic'', ''topple'', ''torch'', ''tornado'', ''tortoise'', ''toss'', ''total'', ''tourist'',
     ''toward'', ''tower'', ''town'', ''toy'', ''track'', ''trade'', ''traffic'', ''tragic'',
     ''train'', ''transfer'', ''trap'', ''trash'', ''travel'', ''tray'', ''treat'', ''tree'']"

definition word_row_30 :: "string list" where
  "word_row_30 =
    [''trend'', ''trial'', ''tribe'', ''trick'', ''trigger'', ''trim'', ''trip'', ''trophy'',
     ''trouble'', ''truck'', ''true'', ''truly'', ''trumpet'', ''trust'', ''truth'', ''try'',
     ''tube'', ''tuition'', ''tumble'', ''tuna'', ''tunnel'', ''turkey'', ''turn'', ''turtle'',
     ''twelve'', ''twenty'', ''twice'', ''twin'', ''twist'', ''two'', ''type'', ''typical'',
     ''ugly'', ''umbrella'', ''unable'', ''unaware'', ''uncle'', ''uncover'', ''under'', ''undo'',
     ''unfair'', ''unfold'', ''unhappy'', ''uniform'', ''unique'', ''unit'', ''universe'',
     ''unknown'', ''unlock'', ''until'', ''unusual'', ''unveil'', ''update'', ''upgrade'',
     ''uphold'', ''upon'', ''upper'', ''upset'', ''urban'', ''urge'', ''usage'', ''use'', ''used'',
     ''useful'']"

definition word_row_31 :: "string list" where
  "word_row_31 =
    [''useless'', ''usual'', ''utility'', ''vacant'', ''vacuum'', ''vague'', ''valid'', ''valley'',
     ''valve'', ''van'', ''vanish'', ''vapor'', ''various'', ''vast'', ''vault'', ''vehicle'',
     ''velvet'', ''vendor'', ''venture'', ''venue'', ''verb'', ''verify'', ''version'', ''very'',
     ''vessel'', ''veteran'', ''viable'', ''vibrant'', ''vicious'', ''victory'', ''video'',
     ''view'', ''village'', ''vintage'', ''violin'', ''virtual'', ''virus'', ''visa'', ''visit'',
     ''visual'', ''vital'', ''vivid'', ''vocal'', ''voice'', ''void'', ''volcano'', ''volume'',
     ''vote'', ''voyage'', ''wage'', ''wagon'', ''wait'', ''walk'', ''wall'', ''walnut'', ''want'',
     ''warfare'', ''warm'', ''warrior'', ''wash'', ''wasp'', ''waste'', ''water'', ''wave'']"

definition word_row_32 :: "string list" where
  "word_row_32 =
    [''way'', ''wealth'', ''weapon'', ''wear'', ''weasel'', ''weather'', ''web'', ''wedding'',
     ''weekend'', ''weird'', ''welcome'', ''west'', ''wet'', ''whale'', ''what'', ''wheat'',
     ''wheel'', ''when'', ''where'', ''whip'', ''whisper'', ''wide'', ''width'', ''wife'',
     ''wild'', ''will'', ''win'', ''window'', ''wine'', ''wing'', ''wink'', ''winner'', ''winter'',
     ''wire'', ''wisdom'', ''wise'', ''wish'', ''witness'', ''wolf'', ''woman'', ''wonder'',
     ''wood'', ''wool'', ''word'', ''work'', ''world'', ''worry'', ''worth'', ''wrap'', ''wreck'',
     ''wrestle'', ''wrist'', ''write'', ''wrong'', ''yard'', ''year'', ''yellow'', ''you'',
     ''young'', ''youth'', ''zebra'', ''zero'', ''zone'', ''zoo'']"

definition word_rows :: "bytes list list" where
  "word_rows = map (map c_lit)
    [word_row_1, word_row_2, word_row_3, word_row_4, word_row_5, word_row_6, word_row_7,
     word_row_8, word_row_9, word_row_10, word_row_11, word_row_12, word_row_13, word_row_14,
     word_row_15, word_row_16, word_row_17, word_row_18, word_row_19, word_row_20, word_row_21,
     word_row_22, word_row_23, word_row_24, word_row_25, word_row_26, word_row_27, word_row_28,
     word_row_29, word_row_30, word_row_31, word_row_32]"

definition wordString :: bytes where
  "wordString = sentence (concat word_rows)"

definition nmemonicWordlist :: words where
  "nmemonicWordlist = wordlist_init wordString"

section \<open>They are usable\<close>

fun chain :: "bytes list \<Rightarrow> bool" where
  "chain (x # y # zs) \<longleftrightarrow> strcmp x y < 0 \<and> chain (y # zs)"
| "chain _ \<longleftrightarrow> True"

definition word_ok :: "bytes \<Rightarrow> bool" where
  "word_ok x \<longleftrightarrow> x \<noteq> [] \<and> 0 \<notin> set x \<and> 32 \<notin> set x"

definition row_ok :: "bytes \<Rightarrow> bytes \<Rightarrow> bytes list \<Rightarrow> bool" where
  "row_ok first final row \<longleftrightarrow> list_all word_ok row \<and> chain row \<and> length row = 64 \<and> hd row = first \<and> last row = final"


lemma word_row_1_ok: "row_ok (c_lit ''abandon'') (c_lit ''among'') (map c_lit word_row_1)"
  by (simp add: row_ok_def word_ok_def word_row_1_def c_lit_def)

lemma word_row_2_ok: "row_ok (c_lit ''amount'') (c_lit ''avocado'') (map c_lit word_row_2)"
  by (simp add: row_ok_def word_ok_def word_row_2_def c_lit_def)

lemma word_row_3_ok: "row_ok (c_lit ''avoid'') (c_lit ''blood'') (map c_lit word_row_3)"
  by (simp add: row_ok_def word_ok_def word_row_3_def c_lit_def)

lemma word_row_4_ok: "row_ok (c_lit ''blossom'') (c_lit ''cable'') (map c_lit word_row_4)"
  by (simp add: row_ok_def word_ok_def word_row_4_def c_lit_def)

lemma word_row_5_ok: "row_ok (c_lit ''cactus'') (c_lit ''child'') (map c_lit word_row_5)"
  by (simp add: row_ok_def word_ok_def word_row_5_def c_lit_def)

lemma word_row_6_ok: "row_ok (c_lit ''chimney'') (c_lit ''copper'') (map c_lit word_row_6)"
  by (simp add: row_ok_def word_ok_def word_row_6_def c_lit_def)

lemma word_row_7_ok: "row_ok (c_lit ''copy'') (c_lit ''dawn'') (map c_lit word_row_7)"
  by (simp add: row_ok_def word_ok_def word_row_7_def c_lit_def)

lemma word_row_8_ok: "row_ok (c_lit ''day'') (c_lit ''divide'') (map c_lit word_row_8)"
  by (simp add: row_ok_def word_ok_def word_row_8_def c_lit_def)

lemma word_row_9_ok: "row_ok (c_lit ''divorce'') (c_lit ''elevator'') (map c_lit word_row_9)"
  by (simp add: row_ok_def word_ok_def word_row_9_def c_lit_def)

lemma word_row_10_ok: "row_ok (c_lit ''elite'') (c_lit ''exit'') (map c_lit word_row_10)"
  by (simp add: row_ok_def word_ok_def word_row_10_def c_lit_def)

lemma word_row_11_ok: "row_ok (c_lit ''exotic'') (c_lit ''fitness'') (map c_lit word_row_11)"
  by (simp add: row_ok_def word_ok_def word_row_11_def c_lit_def)

lemma word_row_12_ok: "row_ok (c_lit ''fix'') (c_lit ''garment'') (map c_lit word_row_12)"
  by (simp add: row_ok_def word_ok_def word_row_12_def c_lit_def)

lemma word_row_13_ok: "row_ok (c_lit ''gas'') (c_lit ''gun'') (map c_lit word_row_13)"
  by (simp add: row_ok_def word_ok_def word_row_13_def c_lit_def)

lemma word_row_14_ok: "row_ok (c_lit ''gym'') (c_lit ''husband'') (map c_lit word_row_14)"
  by (simp add: row_ok_def word_ok_def word_row_14_def c_lit_def)

lemma word_row_15_ok: "row_ok (c_lit ''hybrid'') (c_lit ''jewel'') (map c_lit word_row_15)"
  by (simp add: row_ok_def word_ok_def word_row_15_def c_lit_def)

lemma word_row_16_ok: "row_ok (c_lit ''job'') (c_lit ''lend'') (map c_lit word_row_16)"
  by (simp add: row_ok_def word_ok_def word_row_16_def c_lit_def)

lemma word_row_17_ok: "row_ok (c_lit ''length'') (c_lit ''margin'') (map c_lit word_row_17)"
  by (simp add: row_ok_def word_ok_def word_row_17_def c_lit_def)

lemma word_row_18_ok: "row_ok (c_lit ''marine'') (c_lit ''morning'') (map c_lit word_row_18)"
  by (simp add: row_ok_def word_ok_def word_row_18_def c_lit_def)

lemma word_row_19_ok: "row_ok (c_lit ''mosquito'') (c_lit ''obey'') (map c_lit word_row_19)"
  by (simp add: row_ok_def word_ok_def word_row_19_def c_lit_def)

lemma word_row_20_ok: "row_ok (c_lit ''object'') (c_lit ''paper'') (map c_lit word_row_20)"
  by (simp add: row_ok_def word_ok_def word_row_20_def c_lit_def)

lemma word_row_21_ok: "row_ok (c_lit ''parade'') (c_lit ''pony'') (map c_lit word_row_21)"
  by (simp add: row_ok_def word_ok_def word_row_21_def c_lit_def)

lemma word_row_22_ok: "row_ok (c_lit ''pool'') (c_lit ''quiz'') (map c_lit word_row_22)"
  by (simp add: row_ok_def word_ok_def word_row_22_def c_lit_def)

lemma word_row_23_ok: "row_ok (c_lit ''quote'') (c_lit ''retire'') (map c_lit word_row_23)"
  by (simp add: row_ok_def word_ok_def word_row_23_def c_lit_def)

lemma word_row_24_ok: "row_ok (c_lit ''retreat'') (c_lit ''say'') (map c_lit word_row_24)"
  by (simp add: row_ok_def word_ok_def word_row_24_def c_lit_def)

lemma word_row_25_ok: "row_ok (c_lit ''scale'') (c_lit ''side'') (map c_lit word_row_25)"
  by (simp add: row_ok_def word_ok_def word_row_25_def c_lit_def)

lemma word_row_26_ok: "row_ok (c_lit ''siege'') (c_lit ''soup'') (map c_lit word_row_26)"
  by (simp add: row_ok_def word_ok_def word_row_26_def c_lit_def)

lemma word_row_27_ok: "row_ok (c_lit ''source'') (c_lit ''subject'') (map c_lit word_row_27)"
  by (simp add: row_ok_def word_ok_def word_row_27_def c_lit_def)

lemma word_row_28_ok: "row_ok (c_lit ''submit'') (c_lit ''that'') (map c_lit word_row_28)"
  by (simp add: row_ok_def word_ok_def word_row_28_def c_lit_def)

lemma word_row_29_ok: "row_ok (c_lit ''theme'') (c_lit ''tree'') (map c_lit word_row_29)"
  by (simp add: row_ok_def word_ok_def word_row_29_def c_lit_def)

lemma word_row_30_ok: "row_ok (c_lit ''trend'') (c_lit ''useful'') (map c_lit word_row_30)"
  by (simp add: row_ok_def word_ok_def word_row_30_def c_lit_def)

lemma word_row_31_ok: "row_ok (c_lit ''useless'') (c_lit ''wave'') (map c_lit word_row_31)"
  by (simp add: row_ok_def word_ok_def word_row_31_def c_lit_def)

lemma word_row_32_ok: "row_ok (c_lit ''way'') (c_lit ''zoo'') (map c_lit word_row_32)"
  by (simp add: row_ok_def word_ok_def word_row_32_def c_lit_def)

lemmas word_rows_ok =
  word_row_1_ok word_row_2_ok word_row_3_ok word_row_4_ok word_row_5_ok word_row_6_ok
  word_row_7_ok word_row_8_ok word_row_9_ok word_row_10_ok word_row_11_ok word_row_12_ok
  word_row_13_ok word_row_14_ok word_row_15_ok word_row_16_ok word_row_17_ok word_row_18_ok
  word_row_19_ok word_row_20_ok word_row_21_ok word_row_22_ok word_row_23_ok word_row_24_ok
  word_row_25_ok word_row_26_ok word_row_27_ok word_row_28_ok word_row_29_ok word_row_30_ok
  word_row_31_ok word_row_32_ok

definition row_bounds :: "(string \<times> string) list" where
  "row_bounds =
    [(''abandon'', ''among''), (''amount'', ''avocado''), (''avoid'', ''blood''), (''blossom'',
     ''cable''), (''cactus'', ''child''), (''chimney'', ''copper''), (''copy'', ''dawn''),
     (''day'', ''divide''), (''divorce'', ''elevator''), (''elite'', ''exit''), (''exotic'',
     ''fitness''), (''fix'', ''garment''), (''gas'', ''gun''), (''gym'', ''husband''),
     (''hybrid'', ''jewel''), (''job'', ''lend''), (''length'', ''margin''), (''marine'',
     ''morning''), (''mosquito'', ''obey''), (''object'', ''paper''), (''parade'', ''pony''),
     (''pool'', ''quiz''), (''quote'', ''retire''), (''retreat'', ''say''), (''scale'',
     ''side''), (''siege'', ''soup''), (''source'', ''subject''), (''submit'', ''that''),
     (''theme'', ''tree''), (''trend'', ''useful''), (''useless'', ''wave''), (''way'',
     ''zoo'')]"

lemma rows_within: "list_all2 (\<lambda>(a, b). row_ok (c_lit a) (c_lit b)) row_bounds word_rows"
  by (simp add: row_bounds_def word_rows_def word_rows_ok)

fun bounds_ordered :: "(string \<times> string) list \<Rightarrow> bool" where
  "bounds_ordered ((a, b) # (c, d) # r) \<longleftrightarrow> strcmp (c_lit b) (c_lit c) < 0 \<and> bounds_ordered ((c, d) # r)"
| "bounds_ordered _ \<longleftrightarrow> True"

lemma row_bounds_ordered: "bounds_ordered row_bounds"
  by (simp add: row_bounds_def c_lit_def)

lemma chain_append:
  assumes "chain xs" "chain ys" "xs \<noteq> []" "ys \<noteq> []" "strcmp (last xs) (hd ys) < 0"
  shows "chain (xs @ ys)"
  using assms
proof (induction xs rule: chain.induct)
  case "2_2"
  then show ?case by (cases ys) auto
qed (auto split: if_splits)

lemma chain_rows:
  assumes "list_all2 (\<lambda>(a, b). row_ok (c_lit a) (c_lit b)) bounds rows" "bounds_ordered bounds"
  shows "chain (concat rows) \<and> length (concat rows) = 64 * length bounds \<and> list_all word_ok (concat rows)
    \<and> (bounds \<noteq> [] \<longrightarrow> concat rows \<noteq> [] \<and> hd (concat rows) = c_lit (fst (hd bounds)))"
  using assms
proof (induction bounds rows rule: list_all2_induct)
  case (Cons b bs r rs)
  obtain x y where b: "b = (x, y)" by (cases b)
  have r: "list_all word_ok r" "chain r" "length r = 64" "hd r = c_lit x" "last r = c_lit y" "r \<noteq> []"
    using Cons(1) by (auto simp: b row_ok_def)
  have "bounds_ordered bs" using Cons.prems by (cases bs) (auto simp: b)
  note IH = Cons.IH [OF this]
  have "chain (r @ concat rs)"
  proof (cases bs)
    case Nil
    then show ?thesis using IH r(2) Cons(2) by simp
  next
    case (Cons c bs')
    then have "strcmp (last r) (hd (concat rs)) < 0" using IH Cons.prems r(5) by (cases c) (simp add: b)
    then show ?thesis using IH r Cons by (intro chain_append) auto
  qed
  then show ?case using IH r by (simp add: b)
qed simp

lemma chain_sorted: "chain xs \<Longrightarrow> sorted_wrt (\<lambda>a b. strcmp a b < 0) xs"
proof (induction xs rule: chain.induct)
  case (1 x y zs)
  then have "sorted_wrt (\<lambda>a b. strcmp a b < 0) (y # zs)" "strcmp x y < 0" by auto
  then show ?case using strcmp_trans by auto
qed auto

lemma sorted_distinct: "sorted_wrt (\<lambda>a b. strcmp a b < 0) xs \<Longrightarrow> distinct xs"
  by (induction xs) (auto, metis order_less_irrefl strcmp_0_iff)

lemma get_bits_2048: "get_bits 2048 = 11"
  by (simp add: get_bits.simps)

lemma nmemonicWordlist_good: "good_words nmemonicWordlist"
proof -
  have c: "chain (concat word_rows)" "length (concat word_rows) = 2048" "list_all word_ok (concat word_rows)"
    using chain_rows [OF rows_within row_bounds_ordered] by (simp_all add: row_bounds_def)
  have "concat word_rows \<noteq> []" using c(2) by (metis list.size(3) zero_neq_numeral)
  moreover have "list_all (\<lambda>x. 32 \<notin> set x) (concat word_rows)" using c(3) by (simp add: list_all_iff word_ok_def)
  ultimately have t: "wordlist_tokens [] wordString = concat word_rows" "wordlist_count wordString = 2048"
    unfolding wordString_def using tokens_sentence c(2) by auto
  have i: "indices nmemonicWordlist = concat word_rows" "words_bits nmemonicWordlist = 11"
    unfolding nmemonicWordlist_def wordlist_init_def t by (simp_all add: get_bits_2048 Let_def)
  have "list_all (\<lambda>x. x \<noteq> [] \<and> 0 \<notin> set x \<and> 32 \<notin> set x) (concat word_rows)"
    using c(3) unfolding word_ok_def .
  then show ?thesis
    unfolding good_words_def i using c(2) chain_sorted [OF c(1)] sorted_distinct by blast
qed

end
