(* ===== verification/Sentences.thy ===== *)
theory Sentences
  imports English_Words HD_Wallets Hmac
begin

text \<open>
  Mnemonic sentences for entropy, and wallets from them: \<open>toMnemonic\<close>, \<open>fromMnemonic\<close> and
  \<open>privKeyToHdWallet\<close> of \<open>src/code/BTCUtil.c\<close>.
\<close>

section \<open>Sentences for entropy\<close>

definition len_to_mask :: "nat \<Rightarrow> u32" where
  "len_to_mask len =
     (if len = 16 then 0xf0 else if len = 20 then 0xf8 else if len = 24 then 0xfc else if len = 28 then 0xfe
      else if len = 32 then 0xff else if len = 36 then 0x80ff else if len = 40 then 0xC0ff else 0)"

text \<open>The first byte of the hash is read as a signed \<open>char\<close>; of a null pointer it cannot be read.\<close>

definition toMnemonic :: "data \<Rightarrow> fault + data" where
  "toMnemonic d =
     (let mask = len_to_mask (dlength d) in
      case sha256 d of DataNull \<Rightarrow> Inl Fault
      | Bytes hash \<Rightarrow>
          (let h = scast (hash ! 0) :: u32; checksum = (h OR push_bit 8 h) AND mask;
               d = DataAddCopy d (uint8D (ucast (checksum AND 0xff)));
               d = (if mask > 0xff then DataAddCopy d (uint8D (ucast (drop_bit 8 checksum AND 0xff))) else d)
           in Inr (case mnemonic_from_bytes nmemonicWordlist (dbytes d) of None \<Rightarrow> DataNull | Some str \<Rightarrow> StringNewC str)))"

definition BIP39_ENTROPY_LEN_256 :: nat where
  "BIP39_ENTROPY_LEN_256 = 32"

definition fromMnemonic :: "data \<Rightarrow> fault + data" where
  "fromMnemonic mnemonic =
     (if mnemonic = DataNull then Inl Fault
      else case mnemonic_to_bytes nmemonicWordlist (cstr mnemonic) (dbytes (DataNew (dlength mnemonic))) of None \<Rightarrow> Inr DataNull
      | Some (result, written) \<Rightarrow>
          (let written = written - 1; written = (if written > BIP39_ENTROPY_LEN_256 then written - 1 else written) in
           if written > length result then Inl Fault
           else let d = Bytes (take written result) in
             case toMnemonic d of Inl e \<Rightarrow> Inl e
             | Inr m \<Rightarrow> Inr (if DataCompare m mnemonic \<noteq> 0 then DataNull else d)))"

definition privKeyToHdWallet :: "data \<Rightarrow> bytes option \<Rightarrow> fault + data" where
  "privKeyToHdWallet privKey passphrase =
     (case toMnemonic privKey of Inl e \<Rightarrow> Inl e
      | Inr m \<Rightarrow>
          (if m = DataNull then Inr DataNull
           else let seedPhrase = Bytes (c_lit ''Bitcoin seed''); seed = PBKDF2 (cstr m) passphrase;
                    hash = hmacSha512 seedPhrase seed
                in if dlength hash \<noteq> 64 then Inr DataNull
                   else Inr (hdWalletPriv (DataCopyDataPart hash 0 32) (DataCopyDataPart hash 32 32))))"

lemma DataCompare_refl: "DataCompare d d = 0"
  by (cases d) (simp_all add: DataCompare_def memcmp_eq_0)

lemma fromMnemonic_reads:
  assumes m: "mnemonic_to_bytes nmemonicWordlist sen (replicate (length sen + 1) 0x33) = Some (res, n)"
    and n: "length bs = (let n = n - 1 in if n > 32 then n - 1 else n)"
    and res: "take (length bs) res = bs" "length bs \<le> length res"
    and again: "toMnemonic (Bytes bs) = Inr (StringNewC sen)" and z: "0 \<notin> set sen"
  shows "fromMnemonic (StringNewC sen) = Inr (Bytes bs)"
proof -
  have c: "cstr (StringNewC sen) = sen" using z by (simp add: cstr_def StringNewC_def takeWhile_append)
  have o: "dbytes (DataNew (dlength (StringNewC sen))) = replicate (length sen + 1) 0x33" by (simp add: DataNew_def StringNewC_def)
  have ne: "StringNewC sen \<noteq> DataNull" by (simp add: StringNewC_def)
  show ?thesis
  proof (cases "n - 1 > 32")
    case True
    then have "length bs = n - 1 - 1" using n by simp
    then show ?thesis using True res again ne
      unfolding fromMnemonic_def c o m by (simp add: BIP39_ENTROPY_LEN_256_def DataCompare_refl)
  next
    case False
    then have "length bs = n - 1" using n by simp
    then show ?thesis using False res again ne
      unfolding fromMnemonic_def c o m by (simp add: BIP39_ENTROPY_LEN_256_def DataCompare_refl)
  qed
qed

text \<open>
  C29. For entropy of any of the seven lengths of BIP 39, the sentence made from it is read again as
  that entropy, with the checksum accepted.
\<close>

theorem mnemonic_roundtrip:
  assumes len: "length bs \<in> {16, 20, 24, 28, 32, 36, 40}"
  shows "\<exists>sen. toMnemonic (Bytes bs) = Inr (StringNewC sen) \<and> fromMnemonic (StringNewC sen) = Inr (Bytes bs)"
proof -
  obtain hash where hash: "sha256 (Bytes bs) = Bytes hash" by (simp add: sha256_def)
  let ?h = "scast (hash ! 0) :: u32" and ?mask = "len_to_mask (length bs)"
  let ?c = "(?h OR push_bit 8 ?h) AND ?mask"
  let ?sum = "[ucast (?c AND 0xff)] @ (if ?mask > 0xff then [ucast (drop_bit 8 ?c AND 0xff)] else []) :: bytes"
  let ?bs = "bs @ ?sum"
  let ?T = "length ?bs * 8 div 11"
  have "toMnemonic (Bytes bs) = Inr (case mnemonic_from_bytes nmemonicWordlist ?bs of None \<Rightarrow> DataNull | Some str \<Rightarrow> StringNewC str)"
    by (simp add: toMnemonic_def hash Let_def uint8D_def)
  moreover have T: "?T \<noteq> 0" "8 * length bs \<le> ?T * 11" "length bs \<le> length ?bs"
    "length bs = (let n = (?T * 11 + 7) div 8 - 1 in if n > 32 then n - 1 else n)"
    using len by (auto simp: len_to_mask_def)
  ultimately obtain sen where tx: "mnemonic_from_bytes nmemonicWordlist ?bs = Some sen" "toMnemonic (Bytes bs) = Inr (StringNewC sen)"
    using from_bytes_sentence [OF nmemonicWordlist_good T(1)] by simp
  obtain res where r: "mnemonic_to_bytes nmemonicWordlist sen (replicate (length sen + 1) 0x33) = Some (res, (?T * 11 + 7) div 8)"
    "take (length bs) res = take (length bs) ?bs" "length bs \<le> length res" "0 \<notin> set sen"
    using sentence_back [OF nmemonicWordlist_good T(1,2,3) tx(1), of "replicate (length sen + 1) 0x33"] T(2) by auto
  have "fromMnemonic (StringNewC sen) = Inr (Bytes bs)"
    by (rule fromMnemonic_reads [OF r(1) T(4) _ r(3) tx(2) r(4)]) (use r(2) in simp)
  with tx(2) show ?thesis by blast
qed


text \<open>
  What \<open>fromMnemonic\<close> does with four spaces: five empty words need more room than the text has, the
  status is zero all the same, and bytes behind the buffer are copied.
\<close>

lemma fromMnemonic_overread: "fromMnemonic (Bytes [32, 32, 32, 32, 0]) = Inl Fault"
proof -
  have "words_bits nmemonicWordlist = 11" using nmemonicWordlist_good by (simp add: good_words_def)
  then show ?thesis
    by (simp add: fromMnemonic_def mnemonic_to_bytes_def wordlist_init_def wordlist_count_def cstr_def DataNew_def Let_def BIP39_ENTROPY_LEN_256_def)
qed

theorem mnemonic_roundtrip_witness:
  "\<exists>sen. toMnemonic (Bytes (replicate 16 0)) = Inr (StringNewC sen) \<and> fromMnemonic (StringNewC sen) = Inr (Bytes (replicate 16 0))"
  using mnemonic_roundtrip [of "replicate 16 0"] by simp

end
