(* ===== verification/Computations.thy ===== *)
theory Computations
  imports Dictionaries C_Strings
begin

text \<open>
  Computations over a state that may stop with a fault and may fail to return: the shape of the
  operations that work on a shared object (key manager, connection, database). Their laws, rules for
  what they maintain, and the access to dictionaries by the C strings that name their entries.
\<close>

section \<open>Computations\<close>

type_synonym ('s, 'a) computation = "'s \<Rightarrow> (fault + 'a \<times> 's) option"

definition kret :: "'a \<Rightarrow> ('s, 'a) computation" where
  "kret x = (\<lambda>km. Some (Inr (x, km)))"

definition kbind :: "('s, 'a) computation \<Rightarrow> ('a \<Rightarrow> ('s, 'b) computation) \<Rightarrow> ('s, 'b) computation" where
  "kbind m f = (\<lambda>km. case m km of None \<Rightarrow> None | Some (Inl e) \<Rightarrow> Some (Inl e) | Some (Inr (x, km)) \<Rightarrow> f x km)"

definition kpure :: "fault + 'a \<Rightarrow> ('s, 'a) computation" where
  "kpure r = (\<lambda>km. case r of Inl e \<Rightarrow> Some (Inl e) | Inr x \<Rightarrow> Some (Inr (x, km)))"

definition kopt :: "(fault + 'a) option \<Rightarrow> ('s, 'a) computation" where
  "kopt r = (\<lambda>km. case r of None \<Rightarrow> None | Some r \<Rightarrow> kpure r km)"

definition kget :: "('s \<Rightarrow> 'a) \<Rightarrow> ('s, 'a) computation" where
  "kget f = (\<lambda>km. Some (Inr (f km, km)))"

definition kput :: "('s \<Rightarrow> 's) \<Rightarrow> ('s, unit) computation" where
  "kput f = (\<lambda>km. Some (Inr ((), f km)))"

text \<open>Loops over an array that collect or update.\<close>

fun kfold :: "('a \<Rightarrow> 'b \<Rightarrow> ('s, 'b) computation) \<Rightarrow> 'a list \<Rightarrow> 'b \<Rightarrow> ('s, 'b) computation" where
  "kfold f [] acc = kret acc"
| "kfold f (x # xs) acc = kbind (f x acc) (kfold f xs)"

definition DatasAt :: "datas \<Rightarrow> nat \<Rightarrow> fault + data" where
  "DatasAt ds i = (if ds = [] then Inr DataNull else if i < length ds then Inr (ds ! i) else Inl Fault)"

definition DictGetS :: "dictionary \<Rightarrow> bytes \<Rightarrow> data" where
  "DictGetS dict key = DictionaryGetValue dict (StringNewC key)"

definition DictAddS :: "dictionary \<Rightarrow> bytes \<Rightarrow> data \<Rightarrow> dictionary" where
  "DictAddS dict key val = DictionaryAddCopy dict (StringNewC key) val"

section \<open>Laws\<close>

lemma kret_bind: "kbind (kret x) f = f x"
  by (rule ext) (simp add: kbind_def kret_def)

lemma bind_kret: "kbind m kret = m"
  by (rule ext) (simp add: kbind_def kret_def split: option.split sum.split prod.split)

lemma kbind_assoc: "kbind (kbind m f) g = kbind m (\<lambda>x. kbind (f x) g)"
  by (rule ext) (simp add: kbind_def split: option.split sum.split prod.split)

lemma kpure_bind: "kbind (kpure (Inl e)) f = kpure (Inl e)"
  by (rule ext) (simp add: kbind_def kpure_def)

lemma kbind_run: "m st = Some (Inr (x, st')) \<Longrightarrow> kbind m f st = f x st'"
  by (simp add: kbind_def)

lemma kbind_stops: "\<nexists>x st'. m st = Some (Inr (x, st')) \<Longrightarrow> kbind m f st = kbind m g st"
  by (auto simp: kbind_def split: option.split sum.split)

section \<open>Computations that maintain a condition\<close>

definition maintains :: "('s \<Rightarrow> bool) \<Rightarrow> ('s, 'a) computation \<Rightarrow> bool" where
  "maintains P m \<longleftrightarrow> (\<forall>self x self'. P self \<longrightarrow> m self = Some (Inr (x, self')) \<longrightarrow> P self')"

named_theorems maintained

lemma maintainsD: "m self = Some (Inr (x, self')) \<Longrightarrow> maintains P m \<Longrightarrow> P self \<Longrightarrow> P self'"
  by (auto simp: maintains_def)

lemma maintains_basic [maintained]: "maintains P (kret x)" "maintains P (kget g)" "maintains P (kpure r)" "maintains P (kopt None)"
  by (auto simp: maintains_def kret_def kget_def kpure_def kopt_def split: sum.splits)

lemma maintains_kput: "(\<And>self. P self \<Longrightarrow> P (f self)) \<Longrightarrow> maintains P (kput f)"
  by (auto simp: maintains_def kput_def)

lemma maintains_kbind [maintained]:
  assumes "maintains P m" "\<And>x. maintains P (g x)"
  shows "maintains P (kbind m g)"
  unfolding maintains_def
proof (intro allI impI)
  fix self z self' assume P: "P self" and run: "kbind m g self = Some (Inr (z, self'))"
  obtain x self1 where "m self = Some (Inr (x, self1))" "g x self1 = Some (Inr (z, self'))"
    using run by (auto simp: kbind_def split: option.splits sum.splits)
  with P assms show "P self'" unfolding maintains_def by blast
qed

lemma maintains_kfold [maintained]:
  assumes "\<And>x acc. maintains P (g x acc)"
  shows "maintains P (kfold g xs acc)"
proof (induction xs arbitrary: acc)
  case Nil
  show ?case by (simp add: maintains_basic)
next
  case (Cons x xs)
  then show ?case using assms by (simp add: maintains_kbind)
qed

lemma maintains_if [maintained]: "maintains P m \<Longrightarrow> maintains P n \<Longrightarrow> maintains P (if b then m else n)"
  by simp

lemma maintains_option [maintained]: "maintains P m \<Longrightarrow> (\<And>x. maintains P (g x)) \<Longrightarrow> maintains P (case r of None \<Rightarrow> m | Some x \<Rightarrow> g x)"
  by (cases r) auto

lemma maintains_list [maintained]: "maintains P m \<Longrightarrow> (\<And>x xs. maintains P (g x xs)) \<Longrightarrow> maintains P (case r of [] \<Rightarrow> m | x # xs \<Rightarrow> g x xs)"
  by (cases r) auto

lemma maintains_prod [maintained]: "(\<And>x y. maintains P (g x y)) \<Longrightarrow> maintains P (case r of (x, y) \<Rightarrow> g x y)"
  by (cases r) auto

lemma maintains_let [maintained]: "(\<And>x. maintains P (g x)) \<Longrightarrow> maintains P (let x = e in g x)"
  by simp

end
