(* ===== verification/Key_Manager.thy ===== *)
theory Key_Manager
  imports Basic_Storage Sentences Computations
begin

text \<open>
  The key manager of \<open>src/code/KeyManager.c\<close>: private keys in files of their own, everything else in
  the basic storage. Key files and the storage file live in the same file system. The state also
  holds the directory \<open>keyManagerKeyDirectory\<close>. Randomness and the device data are arguments. A
  computation may stop with a fault, and may not return because child key derivation may not.
\<close>

section \<open>State and computations\<close>

record key_manager =
  testnet :: bool
  noncePrefix :: u32
  privKeyHashCache :: datas
  vaultMasterHdWalletCache :: dictionary
  mainSeed :: data
  keyDirectory :: bytes
  store :: storage

type_synonym 'a km = "(key_manager, 'a) computation"

definition load_item :: "bytes \<Rightarrow> data km" where
  "load_item key = (\<lambda>km. kpure (bsLoad (store km) key) km)"

definition save_item :: "bytes \<Rightarrow> data \<Rightarrow> unit km" where
  "save_item key d = (\<lambda>km. case bsSave (store km) key d of
     (s, None) \<Rightarrow> Some (Inr ((), km\<lparr>store := s\<rparr>)) | (_, Some e) \<Rightarrow> Some (Inl e))"

section \<open>Private keys\<close>

definition KeyManagerAllKeysPrefix :: bytes where
  "KeyManagerAllKeysPrefix = c_lit ''KeyManager.allKeys.''"

definition KeyManagerAllKeysPrefixTestNet :: bytes where
  "KeyManagerAllKeysPrefixTestNet = c_lit ''KeyManager.testNet.allKeys.''"

definition KMPrivKeyKey :: "key_manager \<Rightarrow> nat \<Rightarrow> data" where
  "KMPrivKeyKey km index =
     StringNewC ((if testnet km then KeyManagerAllKeysPrefixTestNet else KeyManagerAllKeysPrefix) @ decimal index)"

definition KMDocumentsPath :: "key_manager \<Rightarrow> data" where
  "KMDocumentsPath km = StringNewC (keyDirectory km)"

definition KMFilenameForIndex :: "key_manager \<Rightarrow> nat \<Rightarrow> data" where
  "KMFilenameForIndex km index = StringNewC (cstr (KMDocumentsPath km) @ [47] @ cstr (KMPrivKeyKey km index))"

definition KMPrivKeyAtIndex :: "key_manager \<Rightarrow> nat \<Rightarrow> data" where
  "KMPrivKeyAtIndex km index =
     (case files (store km) (cstr (KMFilenameForIndex km index)) of None \<Rightarrow> DataNull
      | Some f \<Rightarrow> let (buf, _) = fread 32 f in if length buf = 32 then Bytes buf else DataNull)"

definition KMSetPrivKey :: "key_manager \<Rightarrow> data \<Rightarrow> nat \<Rightarrow> key_manager" where
  "KMSetPrivKey km d index =
     (let name = cstr (KMFilenameForIndex km index) in
      if writable (store km) name then km\<lparr>store := (store km)\<lparr>files := (files (store km))(name \<mapsto> dbytes d)\<rparr>\<rparr> else km)"

text \<open>The index is an \<open>int\<close>: a loop that reached the end of its range would overflow.\<close>

function KMAllPrivKeys_loop :: "key_manager \<Rightarrow> nat \<Rightarrow> datas \<Rightarrow> fault + datas" where
  "KMAllPrivKeys_loop km i result =
     (if i \<ge> 2 ^ 31 then Inl Fault
      else let d = KMPrivKeyAtIndex km i in
        if dlength d = 0 then Inr result else KMAllPrivKeys_loop km (i + 1) (DatasAddCopy result d))"
  by pat_completeness auto
termination by (relation "measure (\<lambda>(_, i, _). 2 ^ 31 - i)") auto

declare KMAllPrivKeys_loop.simps [simp del]

definition KMAllPrivKeys :: "key_manager \<Rightarrow> fault + datas" where
  "KMAllPrivKeys km = KMAllPrivKeys_loop km 0 []"

function KMAllPrivKeyHashes_loop :: "key_manager \<Rightarrow> nat \<Rightarrow> datas \<Rightarrow> fault + datas" where
  "KMAllPrivKeyHashes_loop km i result =
     (if i \<ge> 2 ^ 31 then Inl Fault
      else let d = KMPrivKeyAtIndex km i in
        if dlength d = 0 then Inr result else KMAllPrivKeyHashes_loop km (i + 1) (DatasAddCopy result (sha256 d)))"
  by pat_completeness auto
termination by (relation "measure (\<lambda>(_, i, _). 2 ^ 31 - i)") auto

declare KMAllPrivKeyHashes_loop.simps [simp del]

definition KMAllPrivKeyHashes :: "datas km" where
  "KMAllPrivKeyHashes = (\<lambda>km.
     let result = DatasCopy (privKeyHashCache km) in
     if privKeyHashCache km = []
     then case KMAllPrivKeyHashes_loop km 0 result of Inl e \<Rightarrow> Some (Inl e)
       | Inr result \<Rightarrow> Some (Inr (result, km\<lparr>privKeyHashCache := result\<rparr>))
     else Some (Inr (result, km)))"

definition KMPrivKeyForHash :: "key_manager \<Rightarrow> data \<Rightarrow> fault + data" where
  "KMPrivKeyForHash km hash =
     (case KMAllPrivKeys km of Inl e \<Rightarrow> Inl e
      | Inr keys \<Rightarrow> Inr (case find (\<lambda>k. DataEqual (sha256 k) hash) keys of None \<Rightarrow> DataNull | Some k \<Rightarrow> k))"

definition KMSwapPrivKey :: "nat \<Rightarrow> nat \<Rightarrow> key_manager \<Rightarrow> bool \<times> key_manager" where
  "KMSwapPrivKey indexA indexB km =
     (let keyA = KMPrivKeyAtIndex km indexA; keyB = KMPrivKeyAtIndex km indexB in
      if dlength keyA = 0 \<or> dlength keyB = 0 then (False, km)
      else if indexA = indexB then (True, km)
      else (True, KMSetPrivKey (KMSetPrivKey km keyA indexB) keyB indexA))"

definition KMAddPrivKey :: "data \<Rightarrow> nat km" where
  "KMAddPrivKey privKey =
     kbind KMAllPrivKeyHashes (\<lambda>hashes. let index = length hashes in
     kbind (kput (\<lambda>km. KMSetPrivKey (km\<lparr>privKeyHashCache := []\<rparr>) privKey index)) (\<lambda>_. kret index))"

definition KMHasMasterPrivKey :: "key_manager \<Rightarrow> bool" where
  "KMHasMasterPrivKey km \<longleftrightarrow> dlength (KMPrivKeyAtIndex km 0) \<noteq> 0"

definition KMMasterPrivKey :: "key_manager \<Rightarrow> data" where
  "KMMasterPrivKey km = KMPrivKeyAtIndex km 0"

definition KMImportMasterPrivKey :: "data \<Rightarrow> unit km" where
  "KMImportMasterPrivKey key = kbind (KMAddPrivKey key) (\<lambda>index. kput (\<lambda>km. snd (KMSwapPrivKey 0 index km)))"

definition KMGenerateMasterPrivKey :: "bytes \<Rightarrow> data \<Rightarrow> unit km" where
  "KMGenerateMasterPrivKey entropy uniqueData = KMImportMasterPrivKey (hash256 (DataAppend (Bytes entropy) uniqueData))"

text \<open>The 64 bytes behind the first of a key are copied, of a key that has 32.\<close>

definition KMMasterPubKey :: "ecc \<Rightarrow> key_manager \<Rightarrow> fault + data" where
  "KMMasterPubKey E km =
     (let key = KMMasterPrivKey km in
      if dlength key = 0 then Inr DataNull
      else if dlength key < 1 + 64 then Inl Fault
      else Inr (publicKeySerializeDefault E (publicKeyFromPrivate E (DataCopyDataPart key 1 64))))"

definition KMMasterPrivKeyHash :: "key_manager \<Rightarrow> data" where
  "KMMasterPrivKeyHash km = hash256 (KMMasterPrivKey km)"

definition KMEncKey :: "data \<Rightarrow> data" where
  "KMEncKey privKey = hmacSha256 privKey (uint8D 1)"

definition KMCommPrivKey :: "data \<Rightarrow> data" where
  "KMCommPrivKey privKey = hmacSha256 privKey (uint8D 2)"

section \<open>Start, nonces\<close>

definition noncePrefixKey :: bytes where
  "noncePrefixKey = c_lit ''noncePrefix''"

definition nonceCounterKey :: bytes where
  "nonceCounterKey = c_lit ''nonceCounter''"

definition KMInit :: "bytes \<Rightarrow> unit km" where
  "KMInit random =
     kbind (load_item noncePrefixKey) (\<lambda>entropy.
     kbind (if dlength entropy = 0 then kbind (save_item noncePrefixKey (Bytes random)) (\<lambda>_. kret (Bytes random)) else kret entropy) (\<lambda>entropy.
     if dlength entropy < 4 then kpure (Inl Fault)
     else kput (\<lambda>km. km\<lparr>noncePrefix := le_word (take 4 (dbytes entropy)), privKeyHashCache := [],
       vaultMasterHdWalletCache := DictNew, mainSeed := DataNew 0\<rparr>)))"

definition KMNextNonce :: "u64 km" where
  "KMNextNonce =
     kbind (load_item nonceCounterKey) (\<lambda>d.
     kbind (kget noncePrefix) (\<lambda>prefix.
     let nonce = (if dlength d = 4 then le_word (dbytes d) else 0) :: u32;
         result = le_word (le_bytes 4 prefix @ le_bytes 4 nonce) in
     kbind (save_item nonceCounterKey (Bytes (le_bytes 4 (nonce + 1)))) (\<lambda>_. kret result)))"

definition KMSetTestnet :: "bool \<Rightarrow> key_manager \<Rightarrow> key_manager" where
  "KMSetTestnet value km = km\<lparr>testnet := value, mainSeed := DataNew 0, privKeyHashCache := []\<rparr>"

section \<open>Wallets of the own seed\<close>

definition wallet_of_seed :: "key_manager \<Rightarrow> data \<Rightarrow> data" where
  "wallet_of_seed km hash =
     (if testnet km then hdWalletPrivTestNet (DataCopyDataPart hash 0 32) (DataCopyDataPart hash 32 32)
      else hdWalletPriv (DataCopyDataPart hash 0 32) (DataCopyDataPart hash 32 32))"

definition seed_phrase :: data where
  "seed_phrase = Bytes (c_lit ''Bitcoin seed'')"

text \<open>The sentence is read as a C string, which a null pointer is not.\<close>

definition seed_of_key :: "data \<Rightarrow> fault + data" where
  "seed_of_key key = (case toMnemonic key of Inl e \<Rightarrow> Inl e
     | Inr str \<Rightarrow> if str = DataNull then Inl Fault else Inr (PBKDF2 (cstr str) None))"

definition KMVaultMasterHdWalletAtIndex :: "ecc \<Rightarrow> nat \<Rightarrow> data km" where
  "KMVaultMasterHdWalletAtIndex E index = (\<lambda>km.
     let cacheKey = sha256 (KMPrivKeyAtIndex km index);
         result = DictionaryGetValue (vaultMasterHdWalletCache km) cacheKey
     in if dlength result \<noteq> 0 then kret result km
        else kbind (kpure (seed_of_key (KMPrivKeyAtIndex km index))) (\<lambda>seed.
          kbind (kopt (hdWallet E (wallet_of_seed km (hmacSha512 seed_phrase seed)) (c_lit [CHR ''m'', CHR ''/'', CHR ''4'', CHR ''4'', CHR 0x27, CHR ''/'', CHR ''0'', CHR 0x27, CHR ''/'', CHR ''1'', CHR 0x27]))) (\<lambda>result.
          kbind (kput (\<lambda>km. km\<lparr>vaultMasterHdWalletCache := DictionaryAddCopy (vaultMasterHdWalletCache km) cacheKey result\<rparr>)) (\<lambda>_.
          kret result))) km)"

definition KeyNameDictKey :: "key_manager \<Rightarrow> bytes" where
  "KeyNameDictKey km = (if testnet km then c_lit ''KeyNameDictTestNet'' else c_lit ''KeyNameDict'')"

definition load_dict :: "(key_manager \<Rightarrow> bytes) \<Rightarrow> dictionary km" where
  "load_dict key = kbind (kget key) (\<lambda>key. kbind (load_item key) (\<lambda>d. kpure (DictionaryDeserialize d)))"

definition save_dict :: "(key_manager \<Rightarrow> bytes) \<Rightarrow> dictionary \<Rightarrow> unit km" where
  "save_dict key dict = kbind (kget key) (\<lambda>key. save_item key (DictionarySerialize dict))"

definition index_key :: "u32 \<Rightarrow> data" where
  "index_key index = StringNewC (decimal (unat index))"

definition KMKeyName :: "u32 \<Rightarrow> data km" where
  "KMKeyName index = kbind (load_dict KeyNameDictKey) (\<lambda>dict. kret (DictionaryGetValue dict (index_key index)))"

definition KMSetKeyName :: "data \<Rightarrow> u32 \<Rightarrow> unit km" where
  "KMSetKeyName name index =
     kbind (load_dict KeyNameDictKey) (\<lambda>dict.
     save_dict KeyNameDictKey (if dlength name \<noteq> 0 then DictionaryAddCopy dict (index_key index) name
       else DictionaryRemove dict (index_key index)))"

partial_function (option) KMNamedKeyCount_loop :: "u32 \<Rightarrow> key_manager \<Rightarrow> (fault + u32 \<times> key_manager) option" where
  "KMNamedKeyCount_loop result km =
     (case KMKeyName result km of None \<Rightarrow> None | Some (Inl e) \<Rightarrow> Some (Inl e)
      | Some (Inr (name, km)) \<Rightarrow> if dlength name \<noteq> 0 then KMNamedKeyCount_loop (result + 1) km else Some (Inr (result, km)))"

definition KMNamedKeyCount :: "u32 km" where
  "KMNamedKeyCount = KMNamedKeyCount_loop 0"

partial_function (option) KMIndexForKeyNamed_loop :: "data \<Rightarrow> u32 \<Rightarrow> key_manager \<Rightarrow> (fault + int \<times> key_manager) option" where
  "KMIndexForKeyNamed_loop name i km =
     (case KMKeyName i km of None \<Rightarrow> None | Some (Inl e) \<Rightarrow> Some (Inl e)
      | Some (Inr (keyName, km)) \<Rightarrow>
          if dlength keyName = 0 then Some (Inr (- 1, km))
          else if DataEqual keyName name then Some (Inr (uint i, km))
          else KMIndexForKeyNamed_loop name (i + 1) km)"

definition KMIndexForKeyNamed :: "data \<Rightarrow> int km" where
  "KMIndexForKeyNamed name = KMIndexForKeyNamed_loop name 0"

definition phone_path :: "u32 \<Rightarrow> bytes" where
  "phone_path index = c_lit [CHR ''m'', CHR ''/'', CHR ''4'', CHR ''4'', CHR 0x27, CHR ''/''] @ decimal (unat index) @ [39]"

definition KMHdWalletIndex :: "ecc \<Rightarrow> u32 \<Rightarrow> data km" where
  "KMHdWalletIndex E index =
     kbind (KMKeyName index) (\<lambda>name.
     if dlength name = 0 then kret DataNull
     else kbind (kget (\<lambda>km. km)) (\<lambda>km.
       kbind (if dlength (mainSeed km) = 0
              then kbind (kpure (seed_of_key (KMPrivKeyAtIndex km 0))) (\<lambda>seed. kput (\<lambda>km. km\<lparr>mainSeed := seed\<rparr>))
              else kret ()) (\<lambda>_.
       kbind (kget mainSeed) (\<lambda>seed.
       kopt (hdWallet E (wallet_of_seed km (hmacSha512 seed_phrase seed)) (phone_path index))))))"

section \<open>Known wallets of other devices\<close>

definition knownHDWalletsKey :: "key_manager \<Rightarrow> bytes" where
  "knownHDWalletsKey km = (if testnet km then c_lit ''knownHDWalletsKey'' else c_lit ''knownHDWalletsKeyMainNet'')"

definition knownHDWalletDataKey :: bytes where
  "knownHDWalletDataKey = c_lit ''dataKey''"

definition knownHDWalletTypeKeepKey :: bytes where
  "knownHDWalletTypeKeepKey = c_lit ''type''"

definition KMKnownHDWallets :: "dictionary km" where
  "KMKnownHDWallets = load_dict knownHDWalletsKey"

definition KMSetHDWalletForUUID :: "data \<Rightarrow> data \<Rightarrow> u32 \<Rightarrow> unit km" where
  "KMSetHDWalletForUUID hdWalletData uuid wtype =
     kbind (load_dict knownHDWalletsKey) (\<lambda>dict.
     save_dict knownHDWalletsKey
       (if dlength hdWalletData \<noteq> 0
        then let item = DictTwo (StringNewC knownHDWalletDataKey) hdWalletData (StringNewC knownHDWalletTypeKeepKey) (DataInt wtype)
             in DictionaryAddCopy dict uuid (DictionarySerialize item)
        else DictionaryRemove dict uuid))"

definition known_details :: "data \<Rightarrow> dictionary km" where
  "known_details uuid = kbind (load_dict knownHDWalletsKey) (\<lambda>dict. kpure (DictionaryDeserialize (DictionaryGetValue dict uuid)))"

definition KMHdWalletFrom :: "data \<Rightarrow> data km" where
  "KMHdWalletFrom uuid = kbind (known_details uuid) (\<lambda>item. kret (DictGetS item knownHDWalletDataKey))"

definition KMHdWalletType :: "data \<Rightarrow> u32 km" where
  "KMHdWalletType uuid = kbind (known_details uuid) (\<lambda>item. kpure (DataGetInt (DictGetS item knownHDWalletTypeKeepKey)))"

definition KMUuidFromHDWallet :: "data \<Rightarrow> data km" where
  "KMUuidFromHDWallet hdWalletData =
     kbind KMKnownHDWallets (\<lambda>dict.
     kret (case find (\<lambda>(k, v). DataEqual v hdWalletData) (keysAndValues dict) of None \<Rightarrow> DataNull | Some (k, v) \<Rightarrow> k))"

definition KeyManagerHdWalletTypeManual :: u32 where
  "KeyManagerHdWalletTypeManual = 1"

fun manual_loop :: "u32 \<Rightarrow> (data \<times> data) list \<Rightarrow> fault + data" where
  "manual_loop index [] = Inr DataNull"
| "manual_loop index ((k, v) # items) =
     (case DictionaryDeserialize v of Inl e \<Rightarrow> Inl e
      | Inr details \<Rightarrow>
          (case DataGetInt (DictGetS details knownHDWalletTypeKeepKey) of Inl e \<Rightarrow> Inl e
           | Inr wtype \<Rightarrow>
               if wtype \<noteq> KeyManagerHdWalletTypeManual then manual_loop index items
               else if index \<noteq> 0 then manual_loop (index - 1) items
               else Inr (DictGetS details knownHDWalletDataKey)))"

definition KMHdWalletForManualWallets :: "u32 \<Rightarrow> data km" where
  "KMHdWalletForManualWallets index = kbind KMKnownHDWallets (\<lambda>wallets. kpure (manual_loop index (keysAndValues wallets)))"

text \<open>The path of the child and the public wallet there.\<close>

definition add_public_child :: "ecc \<Rightarrow> data \<Rightarrow> bytes \<Rightarrow> datas \<Rightarrow> datas km" where
  "add_public_child E w path array =
     kbind (kopt (hdWallet E w path)) (\<lambda>child. kbind (kpure (publicHdWallet E child)) (\<lambda>pub. kret (DatasAddCopy array pub)))"

definition add_child :: "ecc \<Rightarrow> data \<Rightarrow> bytes \<Rightarrow> datas \<Rightarrow> datas km" where
  "add_child E w path array = kbind (kopt (hdWallet E w path)) (\<lambda>child. kret (DatasAddCopy array child))"

definition wallet_paths :: "bytes list" where
  "wallet_paths = [[48, 39, 47, 48], [48, 39, 47, 49], [49, 39, 47, 48], [49, 39, 47, 49]]"

partial_function (option) phone_roots_loop :: "ecc \<Rightarrow> u32 \<Rightarrow> datas \<Rightarrow> key_manager \<Rightarrow> (fault + datas \<times> key_manager) option" where
  "phone_roots_loop E i array km =
     (case KMHdWalletIndex E i km of None \<Rightarrow> None | Some (Inl e) \<Rightarrow> Some (Inl e)
      | Some (Inr (w, km)) \<Rightarrow>
          if dlength w = 0 then Some (Inr (array, km))
          else case kfold (add_public_child E w) wallet_paths array km of None \<Rightarrow> None | Some (Inl e) \<Rightarrow> Some (Inl e)
            | Some (Inr (array, km)) \<Rightarrow> phone_roots_loop E (i + 1) array km)"

partial_function (option) manual_roots_loop :: "ecc \<Rightarrow> u32 \<Rightarrow> datas \<Rightarrow> key_manager \<Rightarrow> (fault + datas \<times> key_manager) option" where
  "manual_roots_loop E i array km =
     (case KMHdWalletForManualWallets i km of None \<Rightarrow> None | Some (Inl e) \<Rightarrow> Some (Inl e)
      | Some (Inr (w, km)) \<Rightarrow>
          if dlength w = 0 then Some (Inr (array, km))
          else case kfold (add_child E w) [[48], [49]] array km of None \<Rightarrow> None | Some (Inl e) \<Rightarrow> Some (Inl e)
            | Some (Inr (array, km)) \<Rightarrow> manual_roots_loop E (i + 1) array km)"

definition KMAllHdWalletPubRoots :: "ecc \<Rightarrow> datas km" where
  "KMAllHdWalletPubRoots E = kbind (phone_roots_loop E 0 []) (manual_roots_loop E 0)"

section \<open>Devices\<close>

definition privKeyHashForDeviceKey :: "key_manager \<Rightarrow> bytes" where
  "privKeyHashForDeviceKey km = c_lit ''privKeyHashForDeviceKey''"

definition KMPrivKeyHashForDevice :: "data \<Rightarrow> data km" where
  "KMPrivKeyHashForDevice uuid = kbind (load_dict privKeyHashForDeviceKey) (\<lambda>dict. kret (DictionaryGetValue dict uuid))"

definition KMSetPrivKeyHashForDevice :: "data \<Rightarrow> data \<Rightarrow> unit km" where
  "KMSetPrivKeyHashForDevice hash uuid =
     kbind (load_dict privKeyHashForDeviceKey) (\<lambda>dict. save_dict privKeyHashForDeviceKey (DictionaryAddCopy dict uuid hash))"

definition key_for_device :: "data \<Rightarrow> data km" where
  "key_for_device uuid = kbind (KMPrivKeyHashForDevice uuid) (\<lambda>hash. kbind (kget (\<lambda>km. km)) (\<lambda>km. kpure (KMPrivKeyForHash km hash)))"

definition KMEncKeyUuid :: "data \<Rightarrow> data km" where
  "KMEncKeyUuid uuid = kbind (key_for_device uuid) (\<lambda>privKey. kret (KMEncKey privKey))"

definition KMCommKeyUuid :: "data \<Rightarrow> data km" where
  "KMCommKeyUuid uuid = kbind (key_for_device uuid) (\<lambda>privKey. kret (KMCommPrivKey privKey))"

section \<open>Multisig wallets and vaults\<close>

definition multisigObjectsKey :: "key_manager \<Rightarrow> bytes" where
  "multisigObjectsKey km = (if testnet km then c_lit ''multisigObjectsKeyTestNet'' else c_lit ''multisigObjectsKey'')"

definition multisigObjectNameKey :: bytes where
  "multisigObjectNameKey = c_lit ''multisigObjectNameKey''"

definition multisigObjectWalletsKey :: bytes where
  "multisigObjectWalletsKey = c_lit ''multisigObjectWalletsKey''"

definition load_array :: "(key_manager \<Rightarrow> bytes) \<Rightarrow> datas km" where
  "load_array key = kbind (kget key) (\<lambda>key. kbind (load_item key) (\<lambda>d. kret (DatasDeserialize d)))"

definition save_array :: "(key_manager \<Rightarrow> bytes) \<Rightarrow> datas \<Rightarrow> unit km" where
  "save_array key array = kbind (kget key) (\<lambda>key. save_item key (DatasSerialize array))"

definition add_object :: "(key_manager \<Rightarrow> bytes) \<Rightarrow> dictionary \<Rightarrow> unit km" where
  "add_object key info = kbind (load_array key) (\<lambda>array. save_array key (DatasAddCopy array (DictionarySerialize info)))"

definition remove_object :: "(key_manager \<Rightarrow> bytes) \<Rightarrow> u32 \<Rightarrow> unit km" where
  "remove_object key index =
     kbind (load_array key) (\<lambda>array.
     kbind (kpure (if unat index < length array then DatasRemoveIndex array (int (unat index)) else Inr array)) (save_array key))"

text \<open>The value of one field of every object.\<close>

definition object_field :: "bytes \<Rightarrow> data \<Rightarrow> fault + data" where
  "object_field field d = (case DictionaryDeserialize d of Inl e \<Rightarrow> Inl e | Inr info \<Rightarrow> Inr (DictGetS info field))"

definition all_fields :: "(key_manager \<Rightarrow> bytes) \<Rightarrow> bytes \<Rightarrow> datas km" where
  "all_fields key field =
     kbind (load_array key) (\<lambda>array.
     kfold (\<lambda>d result. kbind (kpure (object_field field d)) (\<lambda>v. kret (DatasAddCopy result v))) array [])"

definition KMAddMultisig :: "datas \<Rightarrow> data \<Rightarrow> unit km" where
  "KMAddMultisig hdWallets name =
     add_object multisigObjectsKey
       (DictAddS (DictAddS DictNew multisigObjectNameKey name) multisigObjectWalletsKey (DatasSerialize (DatasCopy hdWallets)))"

definition KMRemoveMultisig :: "u32 \<Rightarrow> unit km" where
  "KMRemoveMultisig index = remove_object multisigObjectsKey index"

definition KMMultisigHdWallets :: "datas km" where
  "KMMultisigHdWallets = all_fields multisigObjectsKey multisigObjectWalletsKey"

definition KMMultisigNames :: "datas km" where
  "KMMultisigNames = all_fields multisigObjectsKey multisigObjectNameKey"

definition derive_all :: "ecc \<Rightarrow> bytes \<Rightarrow> datas \<Rightarrow> datas km" where
  "derive_all E path ws =
     kfold (\<lambda>i ws. kbind (kopt (hdWallet E (ws ! i) path)) (\<lambda>w. kpure (DatasReplaceIndexCopy ws (int i) w))) [0..<length ws] ws"

definition KMMultisigScript :: "ecc \<Rightarrow> u32 \<Rightarrow> data \<Rightarrow> data km" where
  "KMMultisigScript E index derivation =
     kbind KMMultisigHdWallets (\<lambda>all. kbind (kpure (DatasAt all (unat index))) (\<lambda>d.
     kbind (derive_all E (cstr derivation) (DatasDeserialize d)) (\<lambda>hdWallets.
     kret (multisigScript (pubKeysFromHdWallets E hdWallets)))))"

definition vaultObjectsKey :: "key_manager \<Rightarrow> bytes" where
  "vaultObjectsKey km = (if testnet km then c_lit ''vaultObjectsKeyTestNet'' else c_lit ''vaultObjectsKey'')"

definition vaultObjectNameKey :: bytes where
  "vaultObjectNameKey = c_lit ''vaultObjectNameKey''"

definition vaultObjectWalletsKey :: bytes where
  "vaultObjectWalletsKey = c_lit ''vaultObjectWalletsKey''"

definition vaultObjectMasterKey :: bytes where
  "vaultObjectMasterKey = c_lit ''vaultObjectMasterKey''"

definition vault_info :: "datas \<Rightarrow> data \<Rightarrow> dictionary" where
  "vault_info hdWallets name = DictAddS (DictAddS DictNew vaultObjectNameKey name) vaultObjectWalletsKey (DatasSerialize (DatasCopy hdWallets))"

definition KMAddVaultObserver :: "data \<Rightarrow> datas \<Rightarrow> data \<Rightarrow> unit km" where
  "KMAddVaultObserver masterHdWallet hdWallets name =
     add_object vaultObjectsKey (DictAddS (vault_info hdWallets name) vaultObjectMasterKey masterHdWallet)"

definition KMAddVault :: "datas \<Rightarrow> data \<Rightarrow> unit km" where
  "KMAddVault hdWallets name = add_object vaultObjectsKey (vault_info hdWallets name)"

definition KMRemoveVault :: "u32 \<Rightarrow> unit km" where
  "KMRemoveVault index = remove_object vaultObjectsKey index"

definition UINT32_MAX :: u32 where
  "UINT32_MAX = 0xffffffff"

text \<open>The index is an \<open>int\<close> that becomes a \<open>uint32_t\<close>.\<close>

definition smallest_index :: "datas \<Rightarrow> datas \<Rightarrow> u32 km" where
  "smallest_index hashes hdWallets =
     kfold (\<lambda>w smallest. kbind (KMUuidFromHDWallet w) (\<lambda>uuid. kbind (KMPrivKeyHashForDevice uuid) (\<lambda>hash.
       let index = of_int (DatasMatchingDataIndex hashes hash) :: u32 in kret (if smallest < index then smallest else index)))) hdWallets UINT32_MAX"

definition own_master :: "ecc \<Rightarrow> datas \<Rightarrow> data \<Rightarrow> datas \<Rightarrow> datas km" where
  "own_master E hashes info result =
     kbind (kpure (object_field vaultObjectWalletsKey info)) (\<lambda>d.
     kbind (smallest_index hashes (DatasDeserialize d)) (\<lambda>smallest.
     kbind (if smallest \<noteq> UINT32_MAX then KMVaultMasterHdWalletAtIndex E (unat smallest) else kret DataNull) (\<lambda>d.
     kret (if dlength d \<noteq> 0 then DatasAddCopy result d else result))))"

definition observer_master :: "data \<Rightarrow> datas \<Rightarrow> datas km" where
  "observer_master d result =
     kbind (kpure (object_field vaultObjectMasterKey d)) (\<lambda>masterHdWallet.
     kret (if dlength masterHdWallet \<noteq> 0 then DatasAddCopy result masterHdWallet else result))"

definition KMVaultMasterHdWallets :: "ecc \<Rightarrow> datas km" where
  "KMVaultMasterHdWallets E =
     kbind (load_array vaultObjectsKey) (\<lambda>array. kbind KMAllPrivKeyHashes (\<lambda>allPrivKeyHashes.
     kbind (kfold (own_master E allPrivKeyHashes) array []) (\<lambda>result.
     kbind (load_array vaultObjectsKey) (\<lambda>vaultObjects. kfold observer_master vaultObjects result))))"

definition KMVaultHdWallets :: "datas km" where
  "KMVaultHdWallets =
     kbind (load_array vaultObjectsKey) (\<lambda>array.
     kfold (\<lambda>info result. kbind (kpure (object_field vaultObjectWalletsKey info)) (\<lambda>d.
       kret (DatasAddCopy result (DatasSerialize (DatasDeserialize d))))) array [])"

definition KMVaultAllHdWallets :: "ecc \<Rightarrow> datas km" where
  "KMVaultAllHdWallets E =
     kbind (KMVaultMasterHdWallets E) (\<lambda>masters. kbind KMVaultHdWallets (\<lambda>hdWallets.
     kfold (\<lambda>i ws. kbind (kpure (DatasAt masters i)) (\<lambda>master.
       kpure (DatasReplaceIndexCopy ws (int i) (DatasSerialize (DatasAddCopyFront (DatasDeserialize (ws ! i)) master)))))
       [0..<length hdWallets] hdWallets))"

definition KMVaultNames :: "datas km" where
  "KMVaultNames = all_fields vaultObjectsKey vaultObjectNameKey"

definition KMVaultScriptDerivation :: "ecc \<Rightarrow> u32 \<Rightarrow> data \<Rightarrow> data km" where
  "KMVaultScriptDerivation E index path =
     kbind (KMVaultMasterHdWallets E) (\<lambda>masters. kbind (kpure (DatasAt masters (unat index))) (\<lambda>masterHdWallet.
     kbind KMVaultHdWallets (\<lambda>all. kbind (kpure (DatasAt all (unat index))) (\<lambda>d.
     kbind (kopt (hdWallet E masterHdWallet (cstr path))) (\<lambda>masterHdWallet.
     kbind (derive_all E (cstr path) (DatasDeserialize d)) (\<lambda>hdWallets.
     kret (vaultScript (pubKeyFromHdWallet E masterHdWallet) (pubKeysFromHdWallets E hdWallets))))))))"

section \<open>Sorted and hidden hashes\<close>

definition sortHashesKey :: "key_manager \<Rightarrow> bytes" where
  "sortHashesKey km = (if testnet km then c_lit ''sortHashesKeyTestNet'' else c_lit ''sortHashesKey'')"

definition hiddenHashesKey :: "key_manager \<Rightarrow> bytes" where
  "hiddenHashesKey km = (if testnet km then c_lit ''hiddenHashesKeyTestNet'' else c_lit ''hiddenHashesKey'')"

definition KMSortHashes :: "datas km" where
  "KMSortHashes = load_array sortHashesKey"

definition KMSetSortHashes :: "datas \<Rightarrow> unit km" where
  "KMSetSortHashes sortHashes = save_array sortHashesKey (DatasCopy sortHashes)"

definition KMHiddenHashes :: "datas km" where
  "KMHiddenHashes = load_array hiddenHashesKey"

definition KMSetHiddenHashes :: "datas \<Rightarrow> unit km" where
  "KMSetHiddenHashes hiddenHashes = save_array sortHashesKey (DatasCopy hiddenHashes)"

end
