(* ===== verification/Key_Manager_Props.thy ===== *)
theory Key_Manager_Props
  imports Key_Manager
begin

text \<open>
  What the key manager keeps: the list of private keys, nonces that do not repeat, hashes, and which
  master wallets vaults have.
\<close>

section \<open>Items of the storage\<close>

lemma StringCopy_terminated: "StringCopy (Bytes (key @ [0])) = Bytes (key @ [0])"
  by (simp add: StringCopy_def Let_def)

lemma save_item_works:
  assumes "storage_ok (store km)" "length key \<le> 1023" "dlength d \<le> 10485760"
  obtains s where "save_item key d km = Some (Inr ((), km\<lparr>store := s\<rparr>))" "storage_ok s" "bsLoad s key = Inr (renull d)"
    "\<And>k. length k \<le> 1023 \<Longrightarrow> k \<noteq> key \<Longrightarrow> bsLoad s k = bsLoad (store km) k"
    "\<And>n. n \<noteq> cstr (filename (store km)) \<Longrightarrow> files s n = files (store km) n"
    "filename s = filename (store km)" "writable s = writable (store km)"
proof -
  have "dlength (StringCopy (Bytes (key @ [0]))) \<le> 1024" using assms(2) by (simp add: StringCopy_terminated)
  from storage_save [OF assms(1) this assms(3)] obtain s where s: "basicStorageSave (store km) (Bytes (key @ [0])) d = (s, None)" "storage_ok s"
    "\<forall>q. dlength (StringCopy q) \<le> 1024 \<longrightarrow> basicStorageLoad s q = (if dbytes (StringCopy q) = key @ [0] then Inr (renull d) else basicStorageLoad (store km) q)"
    "\<forall>n. n \<noteq> cstr (filename (store km)) \<longrightarrow> files s n = files (store km) n" "filename s = filename (store km)" "writable s = writable (store km)"
    by (auto simp: StringCopy_terminated)
  have l: "bsLoad s k = (if k = key then Inr (renull d) else bsLoad (store km) k)" if "length k \<le> 1023" for k
    using s(3) that by (simp add: bsLoad_def StringCopy_terminated)
  show thesis
    by (rule that [of s]) (use s l assms(2) in \<open>auto simp: save_item_def bsSave_def\<close>)
qed

lemma load_item_works:
  assumes "storage_ok (store km)" "length key \<le> 1023"
  obtains d where "bsLoad (store km) key = Inr d" "load_item key km = Some (Inr (d, km))"
proof -
  obtain dict where d: "loadEverything (store km) = Inr dict" "dict_ok dict" using load_ok [OF assms(1)] by metis
  have "small_data (StringCopy (Bytes (key @ [0])))" using assms(2) by (simp add: StringCopy_terminated small_data_def)
  from load_value [OF d(1,2) this] that show thesis by (auto simp: load_item_def bsLoad_def kpure_def)
qed

section \<open>Nonces\<close>

definition nonce_counter :: "storage \<Rightarrow> u32" where
  "nonce_counter s = (case bsLoad s nonceCounterKey of Inl _ \<Rightarrow> 0 | Inr d \<Rightarrow> if dlength d = 4 then le_word (dbytes d) else 0)"

definition nonce_value :: "u32 \<Rightarrow> u32 \<Rightarrow> u64" where
  "nonce_value prefix c = le_word (le_bytes 4 prefix @ le_bytes 4 c)"

fun take_nonces :: "nat \<Rightarrow> u64 list km" where
  "take_nonces 0 = kret []"
| "take_nonces (Suc n) = kbind KMNextNonce (\<lambda>x. kbind (take_nonces n) (\<lambda>xs. kret (x # xs)))"

lemma key_lengths: "length nonceCounterKey \<le> 1023"
  by (simp add: nonceCounterKey_def c_lit_def)

lemma next_nonce:
  assumes "storage_ok (store km)"
  obtains s where "KMNextNonce km = Some (Inr (nonce_value (noncePrefix km) (nonce_counter (store km)), km\<lparr>store := s\<rparr>))"
    "storage_ok s" "nonce_counter s = nonce_counter (store km) + 1"
proof -
  obtain d where d: "bsLoad (store km) nonceCounterKey = Inr d" "load_item nonceCounterKey km = Some (Inr (d, km))"
    by (rule load_item_works [OF assms key_lengths])
  let ?c = "nonce_counter (store km)"
  obtain s where s: "save_item nonceCounterKey (Bytes (le_bytes 4 (?c + 1))) km = Some (Inr ((), km\<lparr>store := s\<rparr>))" "storage_ok s"
    "bsLoad s nonceCounterKey = Inr (renull (Bytes (le_bytes 4 (?c + 1))))"
    by (rule save_item_works [OF assms key_lengths, of "Bytes (le_bytes 4 (?c + 1))"]) (simp_all del: le_bytes_numeral)
  have c: "?c = (if dlength d = 4 then le_word (dbytes d) else 0)" by (simp add: nonce_counter_def d)
  have "KMNextNonce km = Some (Inr (nonce_value (noncePrefix km) ?c, km\<lparr>store := s\<rparr>))"
    using s(1) unfolding c by (simp add: KMNextNonce_def kbind_def d kget_def kret_def nonce_value_def Let_def del: le_bytes_numeral)
  moreover have "nonce_counter s = ?c + 1"
    by (simp add: nonce_counter_def [of s] s(3) renull_def le_word_le_bytes del: le_bytes_numeral)
  ultimately show thesis using that s(2) by blast
qed

lemma take_nonces_values:
  assumes "storage_ok (store km)"
  shows "\<exists>km'. take_nonces n km = Some (Inr (map (\<lambda>i. nonce_value (noncePrefix km) (nonce_counter (store km) + of_nat i)) [0..<n], km'))"
  using assms
proof (induction n arbitrary: km)
  case (Suc n)
  obtain s where s: "KMNextNonce km = Some (Inr (nonce_value (noncePrefix km) (nonce_counter (store km)), km\<lparr>store := s\<rparr>))"
    "storage_ok s" "nonce_counter s = nonce_counter (store km) + 1" by (rule next_nonce [OF Suc.prems])
  from Suc.IH [of "km\<lparr>store := s\<rparr>"] s(2) obtain km' where
    "take_nonces n (km\<lparr>store := s\<rparr>) = Some (Inr (map (\<lambda>i. nonce_value (noncePrefix km) (nonce_counter (store km) + 1 + of_nat i)) [0..<n], km'))"
    by (auto simp: s(3))
  then show ?case
    by (auto simp: kbind_def s(1) kret_def map_upt_Suc algebra_simps simp del: upt_Suc)
qed (simp add: kret_def)

lemma nonce_value_inj: "nonce_value p a = nonce_value p b \<Longrightarrow> a = b"
proof -
  assume "nonce_value p a = nonce_value p b"
  then have "le_bytes 8 (nonce_value p a) = le_bytes 8 (nonce_value p b)" by simp
  then have "le_bytes 4 p @ le_bytes 4 a = le_bytes 4 p @ le_bytes 4 b"
    unfolding nonce_value_def using le_bytes_le_word [of "le_bytes 4 p @ le_bytes 4 a", where 'a = 64]
      le_bytes_le_word [of "le_bytes 4 p @ le_bytes 4 b", where 'a = 64] by (simp del: le_bytes_numeral)
  then have "le_bytes 4 a = le_bytes 4 b" by (rule same_append_eq [THEN iffD1])
  then have "le_word (le_bytes 4 a) = (le_word (le_bytes 4 b) :: u32)" by (simp only:)
  then show "a = b" by (simp add: le_word_le_bytes del: le_bytes_numeral)
qed

text \<open>
  \<open>KMNextNonce\<close> does not repeat itself: up to \<open>2\<^sup>3\<^sup>2\<close> nonces taken one after the other from a
  well-formed storage are different, however many were taken before, and taking them does not fail.
\<close>

lemma nonces_distinct:
  assumes "storage_ok (store km)" and "n \<le> 2 ^ 32"
  shows "\<exists>nonces km'. take_nonces n km = Some (Inr (nonces, km')) \<and> length nonces = n \<and> distinct nonces"
proof -
  have u: "unat (of_nat i :: u32) = i" if "i < n" for i
    using unat_of_nat_small [where 'a = 32, of i] that assms(2) by simp
  have "of_nat i = (of_nat j :: u32) \<longleftrightarrow> i = j" if "i < n" "j < n" for i j
    using u [OF that(1)] u [OF that(2)] by metis
  then have "inj_on (\<lambda>i. nonce_value (noncePrefix km) (nonce_counter (store km) + of_nat i)) {0..<n}"
    by (intro inj_onI) (auto dest!: nonce_value_inj)
  then show ?thesis using take_nonces_values [OF assms(1), of n] by (auto simp: distinct_map)
qed

section \<open>Sorted and hidden hashes\<close>

text \<open>Hidden hashes are stored where the sorted ones are.\<close>

lemma hidden_hashes_misplaced:
  assumes "storage_ok (store km)" "dlength (DatasSerialize hashes) \<le> 10485760" "\<forall>d \<in> set hashes. dlength d < 2 ^ 32"
  shows "\<exists>km'. KMSetHiddenHashes hashes km = Some (Inr ((), km')) \<and> KMSortHashes km' = Some (Inr (map renull hashes, km'))
    \<and> map_option (map_sum id fst) (KMHiddenHashes km') = map_option (map_sum id fst) (KMHiddenHashes km)"
proof -
  have l: "length (sortHashesKey km) \<le> 1023" "length (hiddenHashesKey km) \<le> 1023" "hiddenHashesKey km \<noteq> sortHashesKey km"
    by (simp_all add: sortHashesKey_def hiddenHashesKey_def c_lit_def)
  obtain s where s: "save_item (sortHashesKey km) (DatasSerialize hashes) km = Some (Inr ((), km\<lparr>store := s\<rparr>))" "storage_ok s"
    "bsLoad s (sortHashesKey km) = Inr (renull (DatasSerialize hashes))"
    "\<And>k. length k \<le> 1023 \<Longrightarrow> k \<noteq> sortHashesKey km \<Longrightarrow> bsLoad s k = bsLoad (store km) k"
    using save_item_works [OF assms(1) l(1) assms(2)] by metis
  have d: "DatasDeserialize (renull (DatasSerialize hashes)) = map renull hashes"
    using assms(3) deserialize_concat [of hashes] by (simp add: DatasDeserialize_def dbytes_renull DatasSerialize_bytes)
  have k: "sortHashesKey (km\<lparr>store := s\<rparr>) = sortHashesKey km" "hiddenHashesKey (km\<lparr>store := s\<rparr>) = hiddenHashesKey km"
    by (simp_all add: sortHashesKey_def hiddenHashesKey_def)
  have "KMSetHiddenHashes hashes km = Some (Inr ((), km\<lparr>store := s\<rparr>))"
    using s(1) by (simp add: KMSetHiddenHashes_def save_array_def kbind_def kget_def)
  moreover have "KMSortHashes (km\<lparr>store := s\<rparr>) = Some (Inr (map renull hashes, km\<lparr>store := s\<rparr>))"
    using s(3) by (simp add: KMSortHashes_def load_array_def load_item_def kpure_def kbind_def kget_def kret_def k d)
  moreover have "map_option (map_sum id fst) (KMHiddenHashes (km\<lparr>store := s\<rparr>)) = map_option (map_sum id fst) (KMHiddenHashes km)"
    using s(4) [OF l(2,3)] by (simp add: KMHiddenHashes_def load_array_def load_item_def kpure_def kbind_def kget_def kret_def k split: sum.splits)
  ultimately show ?thesis by blast
qed

section \<open>The list of private keys\<close>

definition key_name :: "key_manager \<Rightarrow> nat \<Rightarrow> bytes" where
  "key_name km i = cstr (KMFilenameForIndex km i)"

definition keys_ok :: "key_manager \<Rightarrow> bytes list \<Rightarrow> bool" where
  "keys_ok km ks \<longleftrightarrow> (\<forall>i < length ks. KMPrivKeyAtIndex km i = Bytes (ks ! i)) \<and> list_all (\<lambda>k. length k = 32) ks
     \<and> KMPrivKeyAtIndex km (length ks) = DataNull \<and> length ks < 2 ^ 31
     \<and> (privKeyHashCache km = [] \<or> privKeyHashCache km = map (\<lambda>k. sha256 (Bytes k)) ks)"

lemma decimal_no_zero: "0 \<notin> set (decimal n)"
  using decimal_digits [of n] by (auto simp: list_all_iff isdigit_def)

lemma decimal_inj: "decimal m = decimal n \<Longrightarrow> m = n"
  using decimal_value by metis

lemma key_name_parts:
  assumes "0 \<notin> set (keyDirectory km)"
  shows "key_name km i = keyDirectory km @ [47] @ (if testnet km then KeyManagerAllKeysPrefixTestNet else KeyManagerAllKeysPrefix) @ decimal i"
proof -
  have p: "0 \<notin> set KeyManagerAllKeysPrefixTestNet" "0 \<notin> set KeyManagerAllKeysPrefix"
    by (simp_all add: KeyManagerAllKeysPrefixTestNet_def KeyManagerAllKeysPrefix_def c_lit_def)
  then show ?thesis
    using assms decimal_no_zero [of i]
    by (simp add: key_name_def KMFilenameForIndex_def KMDocumentsPath_def KMPrivKeyKey_def cstr_StringNewC)
qed

lemma key_name_inj: "0 \<notin> set (keyDirectory km) \<Longrightarrow> key_name km i = key_name km j \<longleftrightarrow> i = j"
  by (auto simp: key_name_parts dest: decimal_inj)

text \<open>Writing a key.\<close>

lemma set_key:
  assumes "0 \<notin> set (keyDirectory km)" "writable (store km) (key_name km i)"
  shows "KMPrivKeyAtIndex (KMSetPrivKey km d i) j
      = (if j = i then if dlength d < 32 then DataNull else Bytes (take 32 (dbytes d)) else KMPrivKeyAtIndex km j)"
    "writable (store (KMSetPrivKey km d i)) = writable (store km)" "keyDirectory (KMSetPrivKey km d i) = keyDirectory km"
    "key_name (KMSetPrivKey km d i) = key_name km" "privKeyHashCache (KMSetPrivKey km d i) = privKeyHashCache km"
    "\<And>n. n \<noteq> key_name km i \<Longrightarrow> files (store (KMSetPrivKey km d i)) n = files (store km) n"
  using assms key_name_inj [of km i j]
  by (auto simp: KMSetPrivKey_def KMPrivKeyAtIndex_def key_name_def fread_def Let_def KMFilenameForIndex_def KMDocumentsPath_def KMPrivKeyKey_def fun_eq_iff)

lemma all_keys_loop:
  assumes "i \<le> n" "n < 2 ^ 31" "\<And>j. j < n \<Longrightarrow> dlength (f j) \<noteq> 0" "\<And>j. KMPrivKeyAtIndex km j = f j" "dlength (f n) = 0"
  shows "KMAllPrivKeys_loop km i acc = Inr (acc @ map f [i..<n])"
    "KMAllPrivKeyHashes_loop km i acc = Inr (acc @ map (\<lambda>j. sha256 (f j)) [i..<n])"
  using assms
proof (induction "n - i" arbitrary: i acc)
  case 0
  {
    case 1
    with 0 show ?case by (subst KMAllPrivKeys_loop.simps) simp
  next
    case 2
    with 0 show ?case by (subst KMAllPrivKeyHashes_loop.simps) simp
  }
next
  case (Suc k)
  then have i: "i < n" "k = n - (i + 1)" "i + 1 \<le> n" by simp_all
  then have u: "[i..<n] = i # [i + 1..<n]" by (simp add: upt_conv_Cons)
  {
    case 1
    then have "\<not> 2 ^ 31 \<le> i" using i(1) by linarith
    with 1 Suc(1) [OF i(2,3), of "acc @ [f i]"] i(1) show ?case
      by (subst KMAllPrivKeys_loop.simps) (simp add: Let_def DatasAddCopy_def u)
  next
    case 2
    then have "\<not> 2 ^ 31 \<le> i" using i(1) by linarith
    with 2 Suc(2) [OF i(2,3), of "acc @ [sha256 (f i)]"] i(1) show ?case
      by (subst KMAllPrivKeyHashes_loop.simps) (simp add: Let_def DatasAddCopy_def u)
  }
qed

lemma cache_simps [simp]:
  "KMPrivKeyAtIndex (km\<lparr>privKeyHashCache := c\<rparr>) = KMPrivKeyAtIndex km" "key_name (km\<lparr>privKeyHashCache := c\<rparr>) = key_name km"
  by (simp_all add: KMPrivKeyAtIndex_def key_name_def KMFilenameForIndex_def KMDocumentsPath_def KMPrivKeyKey_def fun_eq_iff)

lemma keys_all:
  assumes "keys_ok km ks"
  shows "KMAllPrivKeys km = Inr (map Bytes ks)" "KMAllPrivKeyHashes_loop km 0 [] = Inr (map (\<lambda>k. sha256 (Bytes k)) ks)"
    "\<exists>c. KMAllPrivKeyHashes km = Some (Inr (map (\<lambda>k. sha256 (Bytes k)) ks, km\<lparr>privKeyHashCache := c\<rparr>))"
proof -
  note k = assms [unfolded keys_ok_def list_all_iff]
  have f: "dlength (KMPrivKeyAtIndex km j) \<noteq> 0" if "j < length ks" for j
  proof -
    have "ks ! j \<in> set ks" using that by simp
    then have "length (ks ! j) = 32" using k by blast
    then show ?thesis using k that by auto
  qed
  have m: "map (KMPrivKeyAtIndex km) [0..<length ks] = map Bytes ks"
    using k by (intro nth_equalityI) auto
  have m': "map (\<lambda>j. sha256 (KMPrivKeyAtIndex km j)) [0..<length ks] = map (\<lambda>k. sha256 (Bytes k)) ks"
    using k by (intro nth_equalityI) auto
  note l = all_keys_loop [of 0 "length ks" "KMPrivKeyAtIndex km" km "[]", OF _ _ f]
  show "KMAllPrivKeys km = Inr (map Bytes ks)" using l(1) k m by (simp add: KMAllPrivKeys_def)
  show h: "KMAllPrivKeyHashes_loop km 0 [] = Inr (map (\<lambda>k. sha256 (Bytes k)) ks)" using l(2) k m' by simp
  show "\<exists>c. KMAllPrivKeyHashes km = Some (Inr (map (\<lambda>k. sha256 (Bytes k)) ks, km\<lparr>privKeyHashCache := c\<rparr>))"
  proof (cases "privKeyHashCache km = []")
    case True
    then show ?thesis using h by (auto simp: KMAllPrivKeyHashes_def DatasCopy_id)
  next
    case False
    then show ?thesis using k by (intro exI [of _ "privKeyHashCache km"]) (simp add: KMAllPrivKeyHashes_def DatasCopy_id)
  qed
qed

definition keys_usable :: "key_manager \<Rightarrow> bool" where
  "keys_usable km \<longleftrightarrow> 0 \<notin> set (keyDirectory km) \<and> (\<forall>i. writable (store km) (key_name km i))"

lemma set_key_ok:
  assumes u: "keys_usable km" and k: "keys_ok km ks" "privKeyHashCache km = []" "length k = 32" "i < length ks"
  shows "keys_ok (KMSetPrivKey km (Bytes k) i) (ks[i := k])" "keys_usable (KMSetPrivKey km (Bytes k) i)"
    "privKeyHashCache (KMSetPrivKey km (Bytes k) i) = []"
proof -
  have w: "0 \<notin> set (keyDirectory km)" "writable (store km) (key_name km i)" using u by (simp_all add: keys_usable_def)
  note s = set_key [OF w, where d = "Bytes k"]
  have "list_all (\<lambda>k. length k = 32) (ks[i := k])"
    using k(1,3) set_update_subset_insert [of ks i k] by (auto simp: keys_ok_def list_all_iff)
  then show "keys_ok (KMSetPrivKey km (Bytes k) i) (ks[i := k])"
    using k s by (auto simp: keys_ok_def nth_list_update)
  show "keys_usable (KMSetPrivKey km (Bytes k) i)" using u s by (simp add: keys_usable_def)
  show "privKeyHashCache (KMSetPrivKey km (Bytes k) i) = []" using s k(2) by simp
qed

lemma add_key_ok:
  assumes u: "keys_usable km" and k: "keys_ok km ks" "length k = 32" "KMPrivKeyAtIndex km (length ks + 1) = DataNull" "length ks + 1 < 2 ^ 31"
  obtains km' where "KMAddPrivKey (Bytes k) km = Some (Inr (length ks, km'))" "keys_ok km' (ks @ [k])" "keys_usable km'" "privKeyHashCache km' = []"
    "key_name km' = key_name km" "\<And>n. n \<notin> range (key_name km) \<Longrightarrow> files (store km') n = files (store km) n"
proof -
  have w: "0 \<notin> set (keyDirectory km)" "writable (store km) (key_name km (length ks))" using u by (simp_all add: keys_usable_def)
  obtain c where c: "KMAllPrivKeyHashes km = Some (Inr (map (\<lambda>k. sha256 (Bytes k)) ks, km\<lparr>privKeyHashCache := c\<rparr>))" using keys_all(3) [OF k(1)] by blast
  let ?km = "KMSetPrivKey (km\<lparr>privKeyHashCache := []\<rparr>) (Bytes k) (length ks)"
  note s = set_key [where km = "km\<lparr>privKeyHashCache := []\<rparr>" and i = "length ks" and d = "Bytes k", simplified, OF w]
  have ok: "keys_ok ?km (ks @ [k])" using k s by (auto simp: keys_ok_def nth_append less_Suc_eq)
  have us: "keys_usable ?km" using u s by (simp add: keys_usable_def)
  have ad: "KMAddPrivKey (Bytes k) km = Some (Inr (length ks, ?km))" by (simp add: KMAddPrivKey_def kbind_def c kput_def kret_def Let_def)
  have fl: "files (store ?km) n = files (store km) n" if "n \<notin> range (key_name km)" for n
  proof -
    have "n \<noteq> key_name km (length ks)" using that by blast
    then show ?thesis using s(6) by simp
  qed
  show thesis by (rule that [OF ad ok us _ _ fl]) (use s in simp_all)
qed

text \<open>
  Importing a master key puts it in front: afterwards it is the master key, the former master
  key is the last of the private keys and the others stay where they are; no file but the key files
  changes. This holds for keys of 32 bytes, key files that can be written, and the hash cache empty
  or up to date, which the operation leaves it.
\<close>

lemma import_master_key:
  assumes u: "keys_usable km" and ks: "keys_ok km ks" "length k = 32" "KMPrivKeyAtIndex km (length ks + 1) = DataNull" "length ks + 1 < 2 ^ 31"
  shows "\<exists>km'. KMImportMasterPrivKey (Bytes k) km = Some (Inr ((), km')) \<and> KMMasterPrivKey km' = Bytes k
    \<and> KMAllPrivKeys km' = Inr (map Bytes (k # tl ks @ take 1 ks)) \<and> keys_ok km' (k # tl ks @ take 1 ks)
    \<and> (\<forall>n. n \<notin> range (key_name km) \<longrightarrow> files (store km') n = files (store km) n)"
proof -
  obtain km1 where a: "KMAddPrivKey (Bytes k) km = Some (Inr (length ks, km1))" "keys_ok km1 (ks @ [k])" "keys_usable km1" "privKeyHashCache km1 = []"
    "key_name km1 = key_name km" "\<And>n. n \<notin> range (key_name km) \<Longrightarrow> files (store km1) n = files (store km) n"
    by (rule add_key_ok [OF u ks]) blast
  let ?km = "snd (KMSwapPrivKey 0 (length ks) km1)"
  have "keys_ok ?km (k # tl ks @ take 1 ks) \<and> (\<forall>n. n \<notin> range (key_name km) \<longrightarrow> files (store ?km) n = files (store km) n)"
  proof (cases ks)
    case Nil
    then show ?thesis using a(2,6) by (simp add: KMSwapPrivKey_def Let_def)
  next
    case (Cons x xs)
    have len: "length x = 32" using ks(1) by (simp add: keys_ok_def Cons)
    have r: "KMPrivKeyAtIndex km1 0 = Bytes x" "KMPrivKeyAtIndex km1 (length ks) = Bytes k"
      using a(2) by (auto simp: keys_ok_def Cons nth_append)
    let ?km2 = "KMSetPrivKey km1 (Bytes x) (length ks)"
    have s1: "keys_ok ?km2 (ks @ [x])" "keys_usable ?km2" "privKeyHashCache ?km2 = []"
      using set_key_ok [OF a(3,2,4) len, of "length ks"] by simp_all
    have s2: "keys_ok (KMSetPrivKey ?km2 (Bytes k) 0) (k # tl ks @ take 1 ks)"
      using set_key_ok(1) [OF s1(2,1,3) ks(2), of 0] by (simp add: Cons)
    have sw: "?km = KMSetPrivKey ?km2 (Bytes k) 0" using r len ks(2) by (auto simp: KMSwapPrivKey_def Let_def Cons)
    have w: "0 \<notin> set (keyDirectory km1)" "writable (store km1) (key_name km1 i)" for i using a(3) by (simp_all add: keys_usable_def)
    note s = set_key [OF w(1) w(2) [of "length ks"], where d = "Bytes x"]
    have w2: "0 \<notin> set (keyDirectory ?km2)" "writable (store ?km2) (key_name ?km2 0)" using s1(2) by (simp_all add: keys_usable_def)
    have "files (store ?km) n = files (store km) n" if "n \<notin> range (key_name km)" for n
    proof -
      have "n \<noteq> key_name km1 i" for i using that a(5) by auto
      then show ?thesis unfolding sw using set_key(6) [OF w2, where d = "Bytes k", of n] s(4) s(6) [of n] a(6) [OF that] by simp
    qed
    then show ?thesis unfolding sw using s2 by blast
  qed
  moreover have "KMImportMasterPrivKey (Bytes k) km = Some (Inr ((), ?km))" by (simp add: KMImportMasterPrivKey_def kbind_def a(1) kput_def)
  moreover have "KMMasterPrivKey ?km = Bytes k" if "keys_ok ?km (k # tl ks @ take 1 ks)" using that by (auto simp: keys_ok_def KMMasterPrivKey_def)
  ultimately show ?thesis using keys_all(1) by blast
qed

definition fresh_keys :: key_manager where
  "fresh_keys = \<lparr>testnet = False, noncePrefix = 7, privKeyHashCache = [], vaultMasterHdWalletCache = DictNew,
     mainSeed = DataNew 0, keyDirectory = c_lit ''/tmp'', store = fresh_storage\<rparr>"

lemma fresh_facts:
  "storage_ok (store fresh_keys)" "keys_usable fresh_keys" "KMPrivKeyAtIndex fresh_keys i = DataNull" "keys_ok fresh_keys []"
proof -
  have f: "files fresh_storage = Map.empty" "writable fresh_storage = (\<lambda>_. True)"
    by (simp_all add: fresh_storage_def bsSetup_def basicStorageSetup_def)
  show k: "KMPrivKeyAtIndex fresh_keys i = DataNull" for i by (simp add: KMPrivKeyAtIndex_def fresh_keys_def f)
  show "storage_ok (store fresh_keys)" by (simp add: fresh_keys_def fresh_storage_ok)
  show "keys_usable fresh_keys" by (simp add: keys_usable_def fresh_keys_def f c_lit_def)
  show "keys_ok fresh_keys []" using k by (simp add: keys_ok_def) (simp add: fresh_keys_def)
qed

section \<open>Masters of vaults\<close>

definition vault_master :: "data \<Rightarrow> data" where
  "vault_master d = (case object_field vaultObjectMasterKey d of Inl _ \<Rightarrow> DataNull | Inr m \<Rightarrow> m)"

text \<open>An object whose fields can be read, with wallets of the usual length.\<close>

definition vault_ok :: "data \<Rightarrow> bool" where
  "vault_ok d \<longleftrightarrow> (\<exists>ws m. object_field vaultObjectWalletsKey d = Inr ws \<and> object_field vaultObjectMasterKey d = Inr m
     \<and> list_all (\<lambda>w. dlength w = 82) (DatasDeserialize ws))"

text \<open>What \<open>KMSetHDWalletForUUID\<close> stores for a wallet.\<close>

definition stored_details :: "data \<Rightarrow> bool" where
  "stored_details v \<longleftrightarrow> (\<exists>w t. length w = 82 \<and> v = renull (DictionarySerialize
     (DictTwo (StringNewC knownHDWalletDataKey) (Bytes w) (StringNewC knownHDWalletTypeKeepKey) (DataInt t))))"

lemma details_length:
  assumes "stored_details v"
  shows "dlength v = 115"
proof -
  obtain w t where w: "length w = 82" and v: "v = renull (DictionarySerialize
     (DictTwo (StringNewC knownHDWalletDataKey) (Bytes w) (StringNewC knownHDWalletTypeKeepKey) (DataInt t)))"
    using assms by (auto simp: stored_details_def)
  let ?d = "DictTwo (StringNewC knownHDWalletDataKey) (Bytes w) (StringNewC knownHDWalletTypeKeepKey) (DataInt t)"
  have "mset (keysAndValues ?d) = {#(StringNewC knownHDWalletDataKey, Bytes w), (StringNewC knownHDWalletTypeKeepKey, DataInt t)#}"
    by (simp add: DictTwo_def DictNew_def DictionaryNew_def DictionaryAddCopy_def DictionaryAddRef_def search_key_def bsearch_def
      bsearch_loop.simps insertion_index_def DataCompare_def StringNewC_def knownHDWalletDataKey_def knownHDWalletTypeKeepKey_def c_lit_def)
  then have "sum_mset (image_mset (\<lambda>(k, v). 8 + dlength k + dlength v) (mset (keysAndValues ?d))) = 115"
    by (simp add: w StringNewC_def knownHDWalletDataKey_def knownHDWalletTypeKeepKey_def c_lit_def DataInt_def)
  moreover have "length (concat (map frame (concat (map (\<lambda>(k, v). [k, v]) kvs)))) = sum_list (map (\<lambda>(k, v). 8 + dlength k + dlength v) kvs)" for kvs
    by (induction kvs) (auto simp: frame_def simp del: le_bytes_numeral)
  ultimately show ?thesis
    by (simp add: v DictionarySerialize_def DatasSerialize_bytes sum_mset_sum_list [symmetric])
qed

text \<open>What the storage holds for the vaults, the known wallets and the devices.\<close>

definition vault_storage :: "key_manager \<Rightarrow> datas \<Rightarrow> bool" where
  "vault_storage km array \<longleftrightarrow> (\<exists>vd kd known dd dev.
     bsLoad (store km) (vaultObjectsKey km) = Inr vd \<and> DatasDeserialize vd = array \<and> list_all vault_ok array
     \<and> bsLoad (store km) (knownHDWalletsKey km) = Inr kd \<and> DictionaryDeserialize kd = Inr known
     \<and> list_all (\<lambda>(k, v). stored_details v) (keysAndValues known)
     \<and> bsLoad (store km) (privKeyHashForDeviceKey km) = Inr dd \<and> DictionaryDeserialize dd = Inr dev
     \<and> DictionaryGetValue dev DataNull = DataNull)"

lemma no_uuid:
  assumes "vault_storage km array" "dlength w = 82"
  shows "KMUuidFromHDWallet w km = Some (Inr (DataNull, km))"
proof -
  from assms(1) obtain kd known where k: "bsLoad (store km) (knownHDWalletsKey km) = Inr kd" "DictionaryDeserialize kd = Inr known"
    "list_all (\<lambda>(k, v). stored_details v) (keysAndValues known)" by (auto simp: vault_storage_def)
  have "\<not> DataEqual v w" if "(u, v) \<in> set (keysAndValues known)" for u v
  proof -
    have "dlength v = 115" using k(3) that details_length by (auto simp: list_all_iff)
    then show ?thesis using assms(2) DataCompare_0_iff [of v w] by (auto simp: DataEqual_def small_data_def)
  qed
  then have "find (\<lambda>(u, v). DataEqual v w) (keysAndValues known) = None" by (auto simp: find_None_iff)
  then show ?thesis
    by (simp add: KMUuidFromHDWallet_def KMKnownHDWallets_def load_dict_def load_item_def kbind_def kget_def kpure_def kret_def k)
qed

lemma no_index:
  assumes v: "vault_storage km array" and w: "list_all (\<lambda>w. dlength w = 82) ws" and h: "list_all (\<lambda>h. dlength h = 32) hashes"
  shows "smallest_index hashes ws km = Some (Inr (UINT32_MAX, km))"
proof -
  have m: "matching_from hashes DataNull i = - 1" for i
    using h by (induction hashes arbitrary: i) (auto simp: same_content_def)
  from v obtain dd dev where d: "bsLoad (store km) (privKeyHashForDeviceKey km) = Inr dd" "DictionaryDeserialize dd = Inr dev"
     "DictionaryGetValue dev DataNull = DataNull" by (auto simp: vault_storage_def)
  have p: "KMPrivKeyHashForDevice DataNull km = Some (Inr (DataNull, km))"
    by (simp add: KMPrivKeyHashForDevice_def load_dict_def load_item_def kbind_def kget_def kpure_def kret_def d)
  have "kfold (\<lambda>w smallest. kbind (KMUuidFromHDWallet w) (\<lambda>uuid. kbind (KMPrivKeyHashForDevice uuid) (\<lambda>hash.
       let index = of_int (DatasMatchingDataIndex hashes hash) :: u32 in kret (if smallest < index then smallest else index)))) ws UINT32_MAX km
     = Some (Inr (UINT32_MAX, km))"
    using w
  proof (induction ws)
    case (Cons w ws)
    have "kbind (KMUuidFromHDWallet w) (\<lambda>uuid. kbind (KMPrivKeyHashForDevice uuid) (\<lambda>hash.
        let index = of_int (DatasMatchingDataIndex hashes hash) :: u32 in kret (if UINT32_MAX < index then UINT32_MAX else index))) km
      = Some (Inr (UINT32_MAX, km))"
      using Cons.prems no_uuid [OF v, of w] by (simp add: kbind_def p m DatasMatchingDataIndex_def kret_def UINT32_MAX_def)
    with Cons show ?case by (simp add: kbind_def [of _ "kfold _ ws"])
  qed (simp add: kret_def)
  then show ?thesis by (simp add: smallest_index_def)
qed

lemma own_masters:
  assumes v: "vault_storage km array" and h: "list_all (\<lambda>h. dlength h = 32) hashes" and a: "list_all vault_ok as"
  shows "kfold (own_master E hashes) as [] km = Some (Inr ([], km))"
  using a
proof (induction as)
  case (Cons d as)
  then obtain ws where ws: "object_field vaultObjectWalletsKey d = Inr ws" "list_all (\<lambda>w. dlength w = 82) (DatasDeserialize ws)"
    by (auto simp: vault_ok_def)
  have "own_master E hashes d [] km = Some (Inr ([], km))"
    by (simp add: own_master_def kbind_def kpure_def kret_def ws no_index [OF v ws(2) h])
  with Cons show ?case by (simp add: kbind_def)
qed (simp add: kret_def)

lemma observer_masters:
  assumes "list_all vault_ok as"
  shows "kfold observer_master as acc km = Some (Inr (acc @ filter (\<lambda>m. dlength m \<noteq> 0) (map vault_master as), km))"
  using assms
proof (induction as arbitrary: acc)
  case (Cons d as)
  then obtain m where m: "object_field vaultObjectMasterKey d = Inr m" by (auto simp: vault_ok_def)
  with Cons show ?case
    by (simp add: observer_master_def kbind_def kpure_def kret_def vault_master_def DatasAddCopy_def)
qed (simp add: kret_def)

text \<open>
  The master wallets of vaults are those of the observer vaults alone, in their order: a vault
  made by \<open>KMAddVault\<close>, whose master is meant to be derived from the private key of one of its
  devices, contributes none, because the search for its wallets compares them with the serialised
  details in which \<open>KMSetHDWalletForUUID\<close> stores wallets. The index of a vault is therefore not the
  index of its master.
\<close>

lemma masters_of_observers_only:
  assumes v: "vault_storage km array" and k: "keys_ok km ks"
  shows "\<exists>km'. KMVaultMasterHdWallets E km = Some (Inr (filter (\<lambda>m. dlength m \<noteq> 0) (map vault_master array), km'))"
proof -
  obtain c where c: "KMAllPrivKeyHashes km = Some (Inr (map (\<lambda>k. sha256 (Bytes k)) ks, km\<lparr>privKeyHashCache := c\<rparr>))" using keys_all(3) [OF k] by blast
  let ?km = "km\<lparr>privKeyHashCache := c\<rparr>"
  have v': "vault_storage ?km array" using v by (simp add: vault_storage_def vaultObjectsKey_def knownHDWalletsKey_def privKeyHashForDeviceKey_def)
  have h: "list_all (\<lambda>h. dlength h = 32) (map (\<lambda>k. sha256 (Bytes k)) ks)" by (simp add: list_all_iff sha256_eq_spec length_sha256_spec)
  have l: "load_array vaultObjectsKey km = Some (Inr (array, km))" if "vault_storage km array" for km
    using that by (auto simp: vault_storage_def load_array_def load_item_def kbind_def kget_def kpure_def kret_def)
  have a: "list_all vault_ok array" using v by (auto simp: vault_storage_def)
  show ?thesis
    by (simp add: KMVaultMasterHdWallets_def kbind_def l [OF v] l [OF v'] c own_masters [OF v' h a] observer_masters [OF a])
qed

lemma fresh_loads: "bsLoad fresh_storage key = Inr DataNull"
proof -
  have "files fresh_storage = Map.empty" "filename fresh_storage \<noteq> DataNull"
    by (simp_all add: fresh_storage_def bsSetup_def basicStorageSetup_def StringNewC_def StringCopy_def Let_def)
  then show ?thesis
    by (simp add: bsLoad_def basicStorageLoad_def loadEverything_def DictNew_def DictionaryNew_def DictionaryGetValue_def
      DictionaryGetValueFlexible_def search_key_def bsearch_def bsearch_loop.simps DataCopyData_def)
qed

definition example_vault :: data where
  "example_vault = DictionarySerialize (vault_info [Bytes (replicate 82 0)] (Bytes [110, 0]))"

lemma example_vault_entries:
  "keysAndValues (vault_info [Bytes (replicate 82 0)] (Bytes [110, 0]))
    = [(StringNewC vaultObjectNameKey, Bytes [110, 0]), (StringNewC vaultObjectWalletsKey, DatasSerialize [Bytes (replicate 82 0)])]"
  by (simp add: vault_info_def DictAddS_def DictNew_def DictionaryNew_def DictionaryAddCopy_def DictionaryAddRef_def search_key_def bsearch_def
      bsearch_loop.simps insertion_index_def DataCompare_def StringNewC_def vaultObjectNameKey_def vaultObjectWalletsKey_def c_lit_def)

lemma example_vault_field:
  "object_field vaultObjectWalletsKey (renull example_vault) = Inr (renull (DatasSerialize [Bytes (replicate 82 0)]))"
  "object_field vaultObjectMasterKey (renull example_vault) = Inr DataNull"
proof -
  have d: "DictionaryDeserialize (renull d) = DictionaryDeserialize d" for d by (simp add: DictionaryDeserialize_def DatasDeserialize_def)
  have s: "dlength (DatasSerialize [Bytes (replicate 82 0)]) < 2 ^ 32" by (simp add: DatasSerialize_bytes frame_def)
  have "\<forall>(k, v) \<in> set (keysAndValues (vault_info [Bytes (replicate 82 0)] (Bytes [110, 0]))). dlength k < 2 ^ 32 \<and> dlength v < 2 ^ 32"
    unfolding example_vault_entries using s
    by (simp add: StringNewC_def vaultObjectNameKey_def vaultObjectWalletsKey_def c_lit_def)
  from dict_serialize_roundtrip [OF this]
  have e: "DictionaryDeserialize (renull example_vault) = Inr (DictNew\<lparr>keysAndValues :=
      [(StringNewC vaultObjectNameKey, Bytes [110, 0]), (StringNewC vaultObjectWalletsKey, renull (DatasSerialize [Bytes (replicate 82 0)]))]\<rparr>)"
    unfolding d example_vault_def example_vault_entries by (simp add: renull_def StringNewC_def)
  show "object_field vaultObjectWalletsKey (renull example_vault) = Inr (renull (DatasSerialize [Bytes (replicate 82 0)]))"
    "object_field vaultObjectMasterKey (renull example_vault) = Inr DataNull"
    unfolding object_field_def e
    by (simp_all add: DictGetS_def DictNew_def DictionaryNew_def DictionaryGetValue_def DictionaryGetValueFlexible_def search_key_def bsearch_def
      bsearch_loop.simps DataCompare_def StringNewC_def vaultObjectNameKey_def vaultObjectWalletsKey_def vaultObjectMasterKey_def c_lit_def)
qed

lemma wallets_of_example: "DatasDeserialize (renull (DatasSerialize [Bytes (replicate 82 0)])) = [Bytes (replicate 82 0)]"
  using deserialize_concat [of "[Bytes (replicate 82 0)]"] by (simp add: DatasDeserialize_def DatasSerialize_bytes renull_def)

end
