(* ===== verification/Transaction_Tracker.thy ===== *)
theory Transaction_Tracker
  imports Key_Manager Transactions Bloom Notifications
begin

text \<open>
  The transaction tracker of \<open>src/code/TransactionTracker.c\<close>: the transactions that concern the
  wallet, in three parallel arrays, and the buffers it watches for. The state holds the key manager
  as well, since both keep their settings in the one basic storage. Pointers into
  \<open>allTransactions\<close> are positions in it. The sets of pushed data that transactions cache are
  computed again at every use; \<open>pushed_data_cached\<close> below shows that this is what the cache holds.
  What the database holds is an argument. The mutexes are not modelled, and the operations are
  those of a caller whose tracking scope stays open.
\<close>

section \<open>State\<close>

record tracker =
  bloomFilterDlHeight :: u32
  allTransactions :: "transaction list"
  allTransactionHashes :: datas
  allTransactionTxids :: datas
  keysAndKeyHashes :: dictionary
  scriptAndHashCache :: "bytes \<rightharpoonup> dictionary"
  masterHdWalletCache :: dictionary
  matchCount :: u32
  mismatchCount :: u32
  tt_testnet :: bool
  bloomaheadCount :: u32
  keys :: key_manager
  center :: notifications

type_synonym 'a tt = "(tracker, 'a) computation"

definition on_keys :: "'a km \<Rightarrow> 'a tt" where
  "on_keys m = (\<lambda>self. case m (keys self) of None \<Rightarrow> None | Some (Inl e) \<Rightarrow> Some (Inl e)
     | Some (Inr (x, km)) \<Rightarrow> Some (Inr (x, self\<lparr>keys := km\<rparr>)))"

section \<open>Stored settings\<close>

definition bloomFilterKey :: bytes where "bloomFilterKey = c_lit ''bloomFilterKey''"
definition lookAheadCountKey :: bytes where "lookAheadCountKey = c_lit ''lookAheadCountKey''"
definition vaultLookAheadCountKey :: bytes where "vaultLookAheadCountKey = c_lit ''vaultLookAheadCountKey''"
definition allHdWalletsKey :: bytes where "allHdWalletsKey = c_lit ''allHdWalletsKey''"
definition vaultCountKey :: bytes where "vaultCountKey = c_lit ''vaultCountKey''"
definition bloomFilterDlHeightKey :: bytes where "bloomFilterDlHeightKey = c_lit ''bloomFilterDlHeightKey''"
definition keysAndKeyHashesKey :: bytes where "keysAndKeyHashesKey = c_lit ''keysAndKeyHashesKey''"

definition testNetStr :: "tracker \<Rightarrow> bytes" where
  "testNetStr self = (if tt_testnet self then c_lit ''testnet'' else [])"

definition TTLoad :: "bytes \<Rightarrow> data tt" where
  "TTLoad key = kbind (kget testNetStr) (\<lambda>net. on_keys (load_item (key @ net)))"

definition TTSave :: "bytes \<Rightarrow> data \<Rightarrow> unit tt" where
  "TTSave key d = kbind (kget testNetStr) (\<lambda>net. on_keys (save_item (key @ net) d))"

definition TTBloomFilter :: "data tt" where
  "TTBloomFilter = TTLoad bloomFilterKey"

definition TTSetBloomFilter :: "data \<Rightarrow> unit tt" where
  "TTSetBloomFilter bloom = TTSave bloomFilterKey bloom"

definition TTLookAheadCount :: "datas tt" where
  "TTLookAheadCount = kbind (TTLoad lookAheadCountKey) (\<lambda>d. kret (DatasDeserialize d))"

definition TTSetLookAheadCount :: "datas \<Rightarrow> unit tt" where
  "TTSetLookAheadCount counts = TTSave lookAheadCountKey (DatasSerialize counts)"

definition TTVaultLookAheadCount :: "datas tt" where
  "TTVaultLookAheadCount = kbind (TTLoad vaultLookAheadCountKey) (\<lambda>d. kret (DatasDeserialize d))"

definition TTSetVaultLookAheadCount :: "datas \<Rightarrow> unit tt" where
  "TTSetVaultLookAheadCount counts = TTSave vaultLookAheadCountKey (DatasSerialize counts)"

definition TTAllHdWallets :: "datas tt" where
  "TTAllHdWallets = kbind (TTLoad allHdWalletsKey) (\<lambda>d. kret (DatasDeserialize d))"

definition TTSetAllHdWallets :: "datas \<Rightarrow> unit tt" where
  "TTSetAllHdWallets wallets = TTSave allHdWalletsKey (DatasSerialize wallets)"

definition TTVaultCount :: "u32 tt" where
  "TTVaultCount = kbind (TTLoad vaultCountKey) (\<lambda>d. kpure (DataGetInt d))"

definition TTSetVaultCount :: "u32 \<Rightarrow> unit tt" where
  "TTSetVaultCount vaultCount = TTSave vaultCountKey (DataInt vaultCount)"

definition TTBloomFilterDlHeight :: "u32 tt" where
  "TTBloomFilterDlHeight = kbind (kget bloomFilterDlHeight) (\<lambda>height.
     if height \<noteq> 0 then kret height
     else kbind (TTLoad bloomFilterDlHeightKey) (\<lambda>d. kbind (kpure (DataGetInt d)) (\<lambda>height.
       kbind (kput (\<lambda>self. self\<lparr>bloomFilterDlHeight := height\<rparr>)) (\<lambda>_. kret height))))"

definition TTSetBloomFilterDlHeight :: "u32 \<Rightarrow> unit tt" where
  "TTSetBloomFilterDlHeight param =
     kbind (kput (\<lambda>self. self\<lparr>bloomFilterDlHeight := param\<rparr>)) (\<lambda>_. TTSave bloomFilterDlHeightKey (DataInt param))"

definition TTKeysAndKeyHashes :: "dictionary tt" where
  "TTKeysAndKeyHashes = kbind (kget keysAndKeyHashes) (\<lambda>dict.
     if DictionaryCount dict \<noteq> 0 then kret dict
     else kbind (TTLoad keysAndKeyHashesKey) (\<lambda>d. kbind (kpure (DictionaryDeserialize d)) (\<lambda>dict.
       kbind (kput (\<lambda>self. self\<lparr>keysAndKeyHashes := dict\<rparr>)) (\<lambda>_. kret dict))))"

definition TTSetKeysAndKeyHashes :: "dictionary \<Rightarrow> unit tt" where
  "TTSetKeysAndKeyHashes param =
     kbind (kput (\<lambda>self. self\<lparr>keysAndKeyHashes := param\<rparr>)) (\<lambda>_. TTSave keysAndKeyHashesKey (DictionarySerialize param))"

definition resync :: "unit tt" where
  "resync = kbind (TTSetBloomFilterDlHeight 0) (\<lambda>_. TTSetVaultCount 0)"

section \<open>Which transactions concern a set of keys\<close>

definition input_pushes :: "tx_input \<Rightarrow> dictionary" where
  "input_pushes input = fst (TransactionInputGetScriptTokensPushDataSet input)"

definition output_pushes :: "tx_output \<Rightarrow> dictionary" where
  "output_pushes output = fst (TransactionOutputGetScriptTokensPushDataSet output)"

lemma pushed_data_cached:
  "input_pushes (snd (TransactionInputGetScriptTokensPushDataSet input)) = input_pushes input"
  "output_pushes (snd (TransactionOutputGetScriptTokensPushDataSet output)) = output_pushes output"
  by (simp_all add: input_pushes_def output_pushes_def TransactionInputGetScriptTokensPushDataSet_def
      TransactionOutputGetScriptTokensPushDataSet_def Let_def)

definition TTInputContainsOneOf :: "tx_input \<Rightarrow> dictionary \<Rightarrow> bool" where
  "TTInputContainsOneOf input keysAndHashes = DictionaryDoesIntersect (input_pushes input) keysAndHashes"

definition TTTransactionInputsContainsOneOf :: "transaction \<Rightarrow> dictionary \<Rightarrow> bool" where
  "TTTransactionInputsContainsOneOf tx keysAndHashes =
     list_ex (\<lambda>input. DictionaryDoesIntersect (input_pushes input) keysAndHashes
       \<or> DictionaryDoesIntersect (output_pushes (fundingOutput input)) keysAndHashes) (inputs tx)"

definition TTOutputContainsOneOf :: "tx_output \<Rightarrow> dictionary \<Rightarrow> bool" where
  "TTOutputContainsOneOf output keysAndHashes = DictionaryDoesIntersect (output_pushes output) keysAndHashes"

definition TTTransactionOutputsContainsOneOf :: "transaction \<Rightarrow> dictionary \<Rightarrow> bool" where
  "TTTransactionOutputsContainsOneOf tx keysAndHashes =
     list_ex (\<lambda>output. DictionaryDoesIntersect (output_pushes output) keysAndHashes) (outputs tx)"

definition TTTransactionContainsOneOf :: "transaction \<Rightarrow> dictionary \<Rightarrow> bool" where
  "TTTransactionContainsOneOf tx keysAndHashes \<longleftrightarrow>
     TTTransactionInputsContainsOneOf tx keysAndHashes \<or> TTTransactionOutputsContainsOneOf tx keysAndHashes"

definition TTAnyTransactionContainsOneOf :: "tracker \<Rightarrow> dictionary \<Rightarrow> bool" where
  "TTAnyTransactionContainsOneOf self keysAndHashes =
     list_ex (\<lambda>tx. TTTransactionContainsOneOf tx keysAndHashes) (allTransactions self)"

definition TTInterestingTransaction :: "transaction \<Rightarrow> bool tt" where
  "TTInterestingTransaction tx = kbind TTKeysAndKeyHashes (\<lambda>dict. kret (TTTransactionContainsOneOf tx dict))"

definition TTInterestingInput :: "tx_input \<Rightarrow> bool tt" where
  "TTInterestingInput input = kbind TTKeysAndKeyHashes (\<lambda>dict. kret (DictionaryDoesIntersect (input_pushes input) dict))"

definition TTInterestingOutput :: "tx_output \<Rightarrow> bool tt" where
  "TTInterestingOutput output = kbind TTKeysAndKeyHashes (\<lambda>dict. kret (DictionaryDoesIntersect (output_pushes output) dict))"

definition TTInterestingOutputMatches :: "tx_output \<Rightarrow> datas tt" where
  "TTInterestingOutputMatches output = kbind TTKeysAndKeyHashes (\<lambda>dict.
     kret (map fst (keysAndValues (DictionaryIntersection (output_pushes output) dict))))"

section \<open>The stored transactions\<close>

definition TTHasTransctionHash :: "tracker \<Rightarrow> data \<Rightarrow> nat" where
  "TTHasTransctionHash self hash = DatasHasMatchingData (allTransactionHashes self) hash"

text \<open>An index past the end of the array of transactions would be an access out of bounds.\<close>

definition transaction_at :: "tracker \<Rightarrow> int \<Rightarrow> fault + transaction option" where
  "transaction_at self index =
     (if index < 0 then Inr None
      else if nat index < length (allTransactions self) then Inr (Some (allTransactions self ! nat index)) else Inl Fault)"

definition TTTransactionForHash :: "tracker \<Rightarrow> data \<Rightarrow> fault + transaction option" where
  "TTTransactionForHash self hash = transaction_at self (DatasMatchingDataIndex (allTransactionHashes self) hash)"

definition TTTransactionForTxid :: "tracker \<Rightarrow> data \<Rightarrow> fault + transaction option" where
  "TTTransactionForTxid self txid = transaction_at self (DatasMatchingDataIndex (allTransactionTxids self) txid)"

definition fund_input :: "tracker \<Rightarrow> tx_input \<Rightarrow> fault + tx_input" where
  "fund_input self input =
     (case TTTransactionForTxid self (previousTransactionHash input) of Inl e \<Rightarrow> Inl e
      | Inr tx \<Rightarrow> Inr (case TransactionOutputOrNilAt tx (sint (outputIndex input)) of None \<Rightarrow> input
          | Some output \<Rightarrow> input\<lparr>fundingOutput := output\<rparr>))"

fun fund_inputs :: "tracker \<Rightarrow> tx_input list \<Rightarrow> fault + tx_input list" where
  "fund_inputs self [] = Inr []"
| "fund_inputs self (input # rest) = (case fund_input self input of Inl e \<Rightarrow> Inl e
     | Inr input \<Rightarrow> (case fund_inputs self rest of Inl e \<Rightarrow> Inl e | Inr rest \<Rightarrow> Inr (input # rest)))"

definition fund_transaction :: "tracker \<Rightarrow> transaction \<Rightarrow> fault + transaction" where
  "fund_transaction self tx = (case fund_inputs self (inputs tx) of Inl e \<Rightarrow> Inl e | Inr ins \<Rightarrow> Inr (tx\<lparr>inputs := ins\<rparr>))"

definition store_transaction :: "transaction \<Rightarrow> data \<Rightarrow> tracker \<Rightarrow> tracker" where
  "store_transaction tx hash self = self\<lparr>
     allTransactions := allTransactions self @ [tx],
     allTransactionHashes := DatasAddCopy (allTransactionHashes self) hash,
     allTransactionTxids := DatasAddCopy (allTransactionTxids self) (TransactionTxid tx)\<rparr>"

definition empty_tracker :: "bool \<Rightarrow> u32 \<Rightarrow> key_manager \<Rightarrow> notifications \<Rightarrow> tracker" where
  "empty_tracker net ahead km nt = \<lparr>bloomFilterDlHeight = 0, allTransactions = [], allTransactionHashes = [],
     allTransactionTxids = [], keysAndKeyHashes = DictNew, scriptAndHashCache = Map.empty,
     masterHdWalletCache = DictNew, matchCount = 0, mismatchCount = 0, tt_testnet = net,
     bloomaheadCount = ahead, keys = km, center = nt\<rparr>"

fun load_transactions :: "datas \<Rightarrow> tracker \<Rightarrow> fault + tracker" where
  "load_transactions [] self = Inr self"
| "load_transactions (d # ds) self = (case TransactionNew d of Inl e \<Rightarrow> Inl e
     | Inr tx \<Rightarrow> load_transactions ds (store_transaction tx (hash256 d) self))"

fun fund_all :: "nat list \<Rightarrow> tracker \<Rightarrow> fault + tracker" where
  "fund_all [] self = Inr self"
| "fund_all (i # is) self = (case fund_transaction self (allTransactions self ! i) of Inl e \<Rightarrow> Inl e
     | Inr tx \<Rightarrow> fund_all is (self\<lparr>allTransactions := (allTransactions self)[i := tx]\<rparr>))"

text \<open>\<open>array\<close> is what \<open>DatabaseAllTransactions\<close> returns.\<close>

definition TTNew :: "datas \<Rightarrow> bool \<Rightarrow> u32 \<Rightarrow> key_manager \<Rightarrow> notifications \<Rightarrow> fault + tracker" where
  "TTNew array net ahead km nt =
     (case load_transactions array (empty_tracker net ahead km nt) of Inl e \<Rightarrow> Inl e
      | Inr self \<Rightarrow> fund_all [0..<length (allTransactions self)] self)"

definition missing_of :: "transaction \<Rightarrow> datas \<Rightarrow> datas tt" where
  "missing_of tx result = kbind (TTInterestingTransaction tx) (\<lambda>interesting. kbind (kget allTransactionTxids) (\<lambda>txids.
     kret (if interesting
       then fold (\<lambda>input result. if DatasHasMatchingData txids (previousTransactionHash input) = 0
              then DatasAddCopy result (previousTransactionHash input) else result) (inputs tx) result
       else result)))"

definition TTMissingFundingTransactions :: "datas tt" where
  "TTMissingFundingTransactions = kbind (kget allTransactions) (\<lambda>txs. kfold missing_of txs [])"

definition TTInterestingTransactionHashes :: "datas tt" where
  "TTInterestingTransactionHashes = kbind (kget allTransactions) (\<lambda>txs.
     kfold (\<lambda>tx result. kbind (TTInterestingTransaction tx) (\<lambda>interesting.
       kret (if interesting then DatasAddCopy result (hash256 (TransactionData tx)) else result))) txs [])"

definition TransactionTrackerTransactionAdded :: bytes where
  "TransactionTrackerTransactionAdded = c_lit ''TransactionTrackerTransactionAdded''"

definition TTAddTransaction :: "data \<Rightarrow> int tt" where
  "TTAddTransaction d =
     kbind (kpure (TransactionNew d)) (\<lambda>tx.
     kbind (kget id) (\<lambda>self. kbind (kpure (fund_transaction self tx)) (\<lambda>tx.
     kbind (TTInterestingTransaction tx) (\<lambda>interesting.
     let hash = hash256 d in
     kbind TTMissingFundingTransactions (\<lambda>missing.
     let interesting = (interesting \<or> DatasHasMatchingData missing (TransactionTxid tx) \<noteq> 0) in
     if \<not> interesting
     then kbind (kput (\<lambda>self. self\<lparr>mismatchCount := mismatchCount self + 1\<rparr>)) (\<lambda>_. kret (- 2))
     else kbind (kget id) (\<lambda>self.
       if DatasHasMatchingData (allTransactionHashes self) hash \<noteq> 0 \<or> DatasHasMatchingData (allTransactionTxids self) hash \<noteq> 0
       then kret (- 1)
       else kbind (kput (\<lambda>self. store_transaction tx hash (self\<lparr>matchCount := matchCount self + 1\<rparr>))) (\<lambda>_.
         kbind (kput (\<lambda>self. self\<lparr>center := NotificationsFire (center self) TransactionTrackerTransactionAdded DictNew\<rparr>)) (\<lambda>_.
         kret 1))))))))"

definition searched :: "bool \<Rightarrow> tracker \<Rightarrow> datas" where
  "searched by_txid self = (if by_txid then allTransactionTxids self else allTransactionHashes self)"

text \<open>The positions past a removed one move down. The arrays are changed in this order.\<close>

definition remove_at :: "nat \<Rightarrow> tracker \<Rightarrow> fault + tracker" where
  "remove_at i self =
     (case DatasRemoveIndex (allTransactionTxids self) (int i) of Inl e \<Rightarrow> Inl e | Inr txids \<Rightarrow>
      (case DatasRemoveIndex (allTransactionHashes self) (int i) of Inl e \<Rightarrow> Inl e | Inr hashes \<Rightarrow>
       if i < length (allTransactions self)
       then Inr (self\<lparr>allTransactionTxids := txids, allTransactionHashes := hashes,
         allTransactions := take i (allTransactions self) @ drop (i + 1) (allTransactions self)\<rparr>)
       else Inl Fault))"

lemma remove_at_shorter:
  "remove_at i self = Inr self' \<Longrightarrow> length (allTransactionTxids self) = Suc (length (allTransactionTxids self')) \<and>
     length (allTransactionHashes self) = Suc (length (allTransactionHashes self'))"
  by (auto simp: remove_at_def DatasRemoveIndex_def DatasRemoveIndexTake_def split: if_splits sum.splits)

function remove_loop :: "bool \<Rightarrow> data \<Rightarrow> nat \<Rightarrow> u32 \<Rightarrow> tracker \<Rightarrow> fault + u32 \<times> tracker" where
  "remove_loop by_txid d i result self =
     (if i < length (searched by_txid self) then
        if DataEqual (searched by_txid self ! i) d then
          case remove_at i self of Inl e \<Rightarrow> Inl e | Inr self' \<Rightarrow> remove_loop by_txid d i (result + 1) self'
        else remove_loop by_txid d (i + 1) result self
      else Inr (result, self))"
  by pat_completeness auto
termination
  by (relation "measure (\<lambda>(by_txid, d, i, result, self). length (searched by_txid self) - i)")
    (auto simp: searched_def dest: remove_at_shorter)

declare remove_loop.simps [simp del]

definition TTRemoveTransactionByHash :: "data \<Rightarrow> tracker \<Rightarrow> fault + u32 \<times> tracker" where
  "TTRemoveTransactionByHash hash self = (if dlength hash = 0 then Inr (0, self) else remove_loop False hash 0 0 self)"

definition TTRemoveTransactionByTxid :: "data \<Rightarrow> tracker \<Rightarrow> fault + u32 \<times> tracker" where
  "TTRemoveTransactionByTxid txid self = (if dlength txid = 0 then Inr (0, self) else remove_loop True txid 0 0 self)"

section \<open>Fees and the failure rate\<close>

text \<open>\<open>None\<close> for an input whose funding output is not there.\<close>

fun fee_inputs :: "tracker \<Rightarrow> tx_input list \<Rightarrow> fault + tx_input list option" where
  "fee_inputs self [] = Inr (Some [])"
| "fee_inputs self (input # rest) = (case TTTransactionForTxid self (previousTransactionHash input) of Inl e \<Rightarrow> Inl e
     | Inr None \<Rightarrow> Inr None
     | Inr (Some funding) \<Rightarrow>
         if unat (outputIndex input) \<ge> length (outputs funding) then Inr None
         else (case fee_inputs self rest of Inl e \<Rightarrow> Inl e | Inr None \<Rightarrow> Inr None
           | Inr (Some rest) \<Rightarrow> Inr (Some (input\<lparr>fundingOutput := outputs funding ! unat (outputIndex input)\<rparr> # rest))))"

definition TTCalculateTransactionFee :: "tracker \<Rightarrow> data \<Rightarrow> fault + u64" where
  "TTCalculateTransactionFee self d =
     (case TransactionNew d of Inl e \<Rightarrow> Inl e
      | Inr tx \<Rightarrow> (case fee_inputs self (inputs tx) of Inl e \<Rightarrow> Inl e | Inr None \<Rightarrow> Inr 0
          | Inr (Some ins) \<Rightarrow> Inr (TransactionUsableValue (tx\<lparr>inputs := ins\<rparr>) - TransactionUsedValue tx)))"

definition BLOOM_MIN_COUNT :: int where
  "BLOOM_MIN_COUNT = 3000"

text \<open>\<open>exceeds\<close> is the comparison of the quotient, a float, with \<open>BLOOM_MAX_FAILRATE\<close>.\<close>

definition TTFailureRateTooHigh :: "(int \<Rightarrow> int \<Rightarrow> bool) \<Rightarrow> tracker \<Rightarrow> bool" where
  "TTFailureRateTooHigh exceeds self =
     (let count = sint (matchCount self + mismatchCount self)
      in if count < BLOOM_MIN_COUNT then False else exceeds (sint (mismatchCount self)) count)"

definition TTResetFailureRate :: "tracker \<Rightarrow> tracker" where
  "TTResetFailureRate self = self\<lparr>matchCount := 0, mismatchCount := 0\<rparr>"

end
