(* ===== verification/Tracker_Wallets.thy ===== *)
theory Tracker_Wallets
  imports Transaction_Tracker
begin

text \<open>
  What the transaction tracker does with wallets: scans along derived addresses that stop after a
  gap of unused ones, vault scripts and their cache, and the bloom filter. A scan takes the loop
  body as an argument; its counter is an \<open>int\<close>, so a limit past its range is an overflow.
\<close>

section \<open>Scans\<close>

definition HDWALLET_SCANAHEAD_COUNT :: nat where
  "HDWALLET_SCANAHEAD_COUNT = 10"

text \<open>One turn of a loop goes on with the last used address or leaves the loop with a result.\<close>

datatype ('a, 'r) turn = Go nat 'a | Stop 'r

function scan_loop :: "(nat \<Rightarrow> nat \<Rightarrow> 'a \<Rightarrow> ('s, ('a, 'r) turn) computation) \<Rightarrow> nat \<Rightarrow> nat \<Rightarrow> 'a \<Rightarrow> ('s, ('a, 'r) turn) computation" where
  "scan_loop body i latest acc s =
     (if 2 ^ 31 \<le> latest + HDWALLET_SCANAHEAD_COUNT then Some (Inl Fault)
      else if i < latest + HDWALLET_SCANAHEAD_COUNT then
        (case body i latest acc s of None \<Rightarrow> None
         | Some (Inl e) \<Rightarrow> Some (Inl e)
         | Some (Inr (Stop r, s)) \<Rightarrow> Some (Inr (Stop r, s))
         | Some (Inr (Go latest acc, s)) \<Rightarrow> scan_loop body (i + 1) latest acc s)
      else Some (Inr (Go latest acc, s)))"
  by pat_completeness auto
termination
  by (relation "measure (\<lambda>(body, i, latest, acc, s). 2 ^ 31 - i)") auto

declare scan_loop.simps [simp del]

definition last_of :: "('a, 'r) turn \<Rightarrow> nat" where
  "last_of t = (case t of Go latest acc \<Rightarrow> latest | Stop r \<Rightarrow> 0)"

definition TTKeysAndKeyHashesForWallet :: "ecc \<Rightarrow> data \<Rightarrow> dictionary" where
  "TTKeysAndKeyHashesForWallet E wallet =
     (let compressedPubKey = pubKeyFromHdWallet E wallet;
          fullPubKey = pubKeyExpand E compressedPubKey;
          result = DictionaryAddCopy DictNew compressedPubKey DataNull;
          result = DictionaryAddCopy result fullPubKey DataNull;
          result = DictionaryAddCopy result (hash160 fullPubKey) fullPubKey
      in DictionaryAddCopy result (hash160 compressedPubKey) compressedPubKey)"

definition TTKeysAndHashesFromHdWallets :: "ecc \<Rightarrow> datas \<Rightarrow> dictionary" where
  "TTKeysAndHashesFromHdWallets E hdWallets =
     fold (\<lambda>w set. DictAddDict set (TTKeysAndKeyHashesForWallet E w)) hdWallets DictNew"

text \<open>The wallet of the \<open>i\<close>-th address and whether a transaction mentions it.\<close>

definition address_wallet :: "ecc \<Rightarrow> data \<Rightarrow> nat \<Rightarrow> data tt" where
  "address_wallet E w i = kopt (hdWallet E w (decimal i))"

definition mentioned :: "dictionary \<Rightarrow> bool tt" where
  "mentioned items = kget (\<lambda>self. TTAnyTransactionContainsOneOf self items)"

definition last_used_turn :: "ecc \<Rightarrow> data \<Rightarrow> nat \<Rightarrow> nat \<Rightarrow> unit \<Rightarrow> (unit, unit) turn tt" where
  "last_used_turn E w i latest _ =
     kbind (address_wallet E w i) (\<lambda>d. kbind (mentioned (TTKeysAndKeyHashesForWallet E d)) (\<lambda>used.
     kret (Go (if used then i else latest) ())))"

definition TTLastUsedAddress :: "ecc \<Rightarrow> data \<Rightarrow> int tt" where
  "TTLastUsedAddress E w =
     kbind TTAllHdWallets (\<lambda>wallets.
     if DatasMatchingDataIndex wallets w = - 1 then kret (- 1)
     else kbind (scan_loop (last_used_turn E w) 0 0 ()) (\<lambda>t. kret (int (last_of t))))"

definition branch_path :: "bool \<Rightarrow> nat \<Rightarrow> bytes" where
  "branch_path change i = decimal (if change then 1 else 0) @ [47] @ decimal i"

definition DictTwoKeys :: "data \<Rightarrow> data \<Rightarrow> dictionary" where
  "DictTwoKeys key1 key2 = DictionaryAddCopy (DictionaryAddCopy DictNew key1 DataNull) key2 DataNull"

definition last_vault_turn :: "ecc \<Rightarrow> u32 \<Rightarrow> nat \<Rightarrow> nat \<Rightarrow> unit \<Rightarrow> (unit, unit) turn tt" where
  "last_vault_turn E vaultIndex i latest _ =
     kbind (on_keys (KMVaultScriptDerivation E vaultIndex (StringNewC (branch_path False i)))) (\<lambda>depositScript.
     kbind (on_keys (KMVaultScriptDerivation E vaultIndex (StringNewC (branch_path True i)))) (\<lambda>changeScript.
     kbind (mentioned (DictTwoKeys (sha256 depositScript) (sha256 changeScript))) (\<lambda>used.
     kret (Go (if used then i else latest) ()))))"

definition TTLastUsedVaultAddress :: "ecc \<Rightarrow> u32 \<Rightarrow> int tt" where
  "TTLastUsedVaultAddress E vaultIndex =
     kbind (scan_loop (last_vault_turn E vaultIndex) 0 0 ()) (\<lambda>t. kret (int (last_of t)))"

text \<open>The limit is at least 10 when the loop starts, so a negative start stops the program.\<close>

definition TTUnusedAddresses :: "ecc \<Rightarrow> data \<Rightarrow> int tt" where
  "TTUnusedAddresses E w =
     kbind TTAllHdWallets (\<lambda>wallets.
     kbind TTLookAheadCount (\<lambda>counts.
     let index = DatasMatchingDataIndex wallets w in
     if index = - 1 \<or> index \<ge> int (length counts) then kret (- 1)
     else kbind (kpure (DataGetInt (counts ! nat index))) (\<lambda>lookAheadCount.
       kbind (kget bloomaheadCount) (\<lambda>ahead.
       let start = sint lookAheadCount - sint ahead in
       if start < 0 then kpure (Inl Abort)
       else kbind (scan_loop (last_used_turn E w) (nat start) 0 ()) (\<lambda>t.
         kret (sint lookAheadCount - int (last_of t)))))))"

section \<open>Vault scripts\<close>

definition DictNull :: dictionary where
  "DictNull = DictOne DataNull DataNull"

definition cache_key :: "nat \<Rightarrow> nat \<Rightarrow> bool \<Rightarrow> data" where
  "cache_key vaultIndex derivation isChange =
     DatasSerialize [DataInt (of_nat vaultIndex), DataInt (of_nat derivation), DataInt (if isChange then 1 else 0)]"

definition TTScriptAndHashFlexible :: "ecc \<Rightarrow> nat \<Rightarrow> nat \<Rightarrow> bool \<Rightarrow> data \<Rightarrow> datas \<Rightarrow> dictionary tt" where
  "TTScriptAndHashFlexible E vaultIndex derivation isChange masterHdWallet hdWallets =
     kbind (kget scriptAndHashCache) (\<lambda>cache.
     let key = dbytes (cache_key vaultIndex derivation isChange);
         result = (case cache key of None \<Rightarrow> DictNew | Some dict \<Rightarrow> dict)
     in if DictionaryCount result \<noteq> 0 then kret (DictionaryCopy result)
        else if dlength masterHdWallet = 0 then kret DictNull
        else kbind (kopt (hdWallet E masterHdWallet (branch_path isChange derivation))) (\<lambda>masterHdWallet.
          kbind (on_keys (derive_all E (branch_path isChange derivation) (DatasCopy hdWallets))) (\<lambda>hdWallets.
          let script = vaultScript (pubKeyFromHdWallet E masterHdWallet) (pubKeysFromHdWallets E hdWallets);
              result = DictionaryAddCopy (DictionaryAddCopy DictNew script DataNull) (sha256 script) script
          in kbind (kput (\<lambda>self. self\<lparr>scriptAndHashCache := (scriptAndHashCache self)(key \<mapsto> result)\<rparr>)) (\<lambda>_. kret result))))"

definition TTScriptAndHash :: "ecc \<Rightarrow> nat \<Rightarrow> nat \<Rightarrow> bool \<Rightarrow> dictionary tt" where
  "TTScriptAndHash E vaultIndex derivation isChange =
     kbind (on_keys (KMVaultMasterHdWallets E)) (\<lambda>masters. kbind (kpure (DatasAt masters vaultIndex)) (\<lambda>masterHdWallet.
     kbind (on_keys KMVaultHdWallets) (\<lambda>all. kbind (kpure (DatasAt all vaultIndex)) (\<lambda>d.
     TTScriptAndHashFlexible E vaultIndex derivation isChange masterHdWallet (DatasDeserialize d)))))"

definition TTVaultPathDerivation :: "nat \<Rightarrow> bool \<Rightarrow> data" where
  "TTVaultPathDerivation n change = StringNewC (branch_path change n)"

definition TTVaultScriptForDerivationPath :: "ecc \<Rightarrow> nat \<Rightarrow> data \<Rightarrow> data tt" where
  "TTVaultScriptForDerivationPath E vaultIndex path =
     kbind (on_keys (KMVaultMasterHdWallets E)) (\<lambda>masters. kbind (kpure (DatasAt masters vaultIndex)) (\<lambda>d.
     kbind (kpure (publicHdWallet E d)) (\<lambda>masterHdWallet.
     kbind (on_keys KMVaultHdWallets) (\<lambda>all. kbind (kpure (DatasAt all vaultIndex)) (\<lambda>d.
     kbind (kopt (hdWallet E masterHdWallet (cstr path))) (\<lambda>masterHdWallet.
     kbind (on_keys (derive_all E (cstr path) (DatasDeserialize d))) (\<lambda>hdWallets.
     kret (vaultScript (pubKeyFromHdWallet E masterHdWallet) (pubKeysFromHdWallets E hdWallets)))))))))"

definition TTVaultScript :: "ecc \<Rightarrow> nat \<Rightarrow> nat \<Rightarrow> bool \<Rightarrow> data tt" where
  "TTVaultScript E vaultIndex nthUnusedDerivation change =
     TTVaultScriptForDerivationPath E vaultIndex (TTVaultPathDerivation nthUnusedDerivation change)"

section \<open>Unused addresses\<close>

definition paid :: "dictionary \<Rightarrow> bool tt" where
  "paid items = kget (\<lambda>self. list_ex (\<lambda>tx. TTTransactionOutputsContainsOneOf tx items) (allTransactions self))"

definition unused_wallet_turn :: "ecc \<Rightarrow> data \<Rightarrow> nat \<Rightarrow> nat \<Rightarrow> nat \<Rightarrow> unit \<Rightarrow> (unit, data) turn tt" where
  "unused_wallet_turn E w n i latest _ =
     kbind (address_wallet E w i) (\<lambda>hdWalletTmp. kbind (paid (TTKeysAndKeyHashesForWallet E hdWalletTmp)) (\<lambda>outputMatch.
     kret (if outputMatch then Go (i + 1) () else if i = latest + n then Stop hdWalletTmp else Go latest ())))"

definition stopped :: "'r \<Rightarrow> ('a, 'r) turn \<Rightarrow> 'r" where
  "stopped other t = (case t of Go latest acc \<Rightarrow> other | Stop r \<Rightarrow> r)"

definition TTUnusedWallet :: "ecc \<Rightarrow> data \<Rightarrow> u32 \<Rightarrow> data tt" where
  "TTUnusedWallet E w n =
     kbind (scan_loop (unused_wallet_turn E w (unat n mod HDWALLET_SCANAHEAD_COUNT)) 0 0 ()) (\<lambda>t. kret (stopped DataNull t))"

definition unused_vault_turn :: "ecc \<Rightarrow> nat \<Rightarrow> nat \<Rightarrow> bool \<Rightarrow> nat \<Rightarrow> nat \<Rightarrow> unit \<Rightarrow> (unit, data) turn tt" where
  "unused_vault_turn E vaultIndex n change i latest _ =
     kbind (TTScriptAndHash E vaultIndex i change) (\<lambda>items. kbind (paid items) (\<lambda>outputMatch.
     if outputMatch then kret (Go (i + 1) ())
     else if i = latest + n then kbind (TTVaultScript E vaultIndex i change) (\<lambda>script. kret (Stop script))
     else kret (Go latest ())))"

definition TTUnusedVaultScript :: "ecc \<Rightarrow> nat \<Rightarrow> u32 \<Rightarrow> bool \<Rightarrow> data tt" where
  "TTUnusedVaultScript E vaultIndex n change =
     kbind (scan_loop (unused_vault_turn E vaultIndex (unat n mod HDWALLET_SCANAHEAD_COUNT) change) 0 0 ()) (\<lambda>t.
     kret (stopped DataNull t))"

section \<open>Transactions of a wallet\<close>

definition positions :: "(transaction \<Rightarrow> bool) \<Rightarrow> tracker \<Rightarrow> nat list" where
  "positions p self = filter (\<lambda>n. p (allTransactions self ! n)) [0..<length (allTransactions self)]"

fun add_new :: "nat list \<Rightarrow> nat list \<Rightarrow> nat list" where
  "add_new array [] = array"
| "add_new array (n # ns) = add_new (if n \<in> set array then array else array @ [n]) ns"

definition all_transactions_turn :: "ecc \<Rightarrow> data \<Rightarrow> nat \<Rightarrow> nat \<Rightarrow> nat list \<times> dictionary \<Rightarrow> (nat list \<times> dictionary, unit) turn tt" where
  "all_transactions_turn E root i latest = (\<lambda>(array, used).
     kbind (address_wallet E root i) (\<lambda>d.
     let items = TTKeysAndKeyHashesForWallet E d in
     kbind (kget (positions (\<lambda>tx. TTTransactionContainsOneOf tx items))) (\<lambda>found.
     kret (Go (if found = [] then latest else i) (add_new array found, DictAddDict used items)))))"

definition gathered :: "'a \<Rightarrow> ('a, 'r) turn \<Rightarrow> 'a" where
  "gathered other t = (case t of Go latest acc \<Rightarrow> acc | Stop r \<Rightarrow> other)"

text \<open>\<open>used\<close> is the dictionary the callers pass by reference.\<close>

definition TTAllTransactionsFor :: "ecc \<Rightarrow> data \<Rightarrow> dictionary \<Rightarrow> (nat list \<times> dictionary) tt" where
  "TTAllTransactionsFor E root used =
     kbind (scan_loop (all_transactions_turn E root) 0 0 ([], used)) (\<lambda>t. kret (gathered ([], used) t))"

text \<open>Without a master wallet the array is empty; what was added to the dictionary stays.\<close>

definition vault_transactions_turn :: "ecc \<Rightarrow> nat \<Rightarrow> nat \<Rightarrow> nat \<Rightarrow> nat list \<times> dictionary \<Rightarrow> (nat list \<times> dictionary, nat list \<times> dictionary) turn tt" where
  "vault_transactions_turn E vaultIndex i latest = (\<lambda>(array, used).
     kbind (TTScriptAndHash E vaultIndex i False) (\<lambda>items.
     if DictIsNull items then kret (Stop ([], used))
     else kbind (TTScriptAndHash E vaultIndex i True) (\<lambda>change.
       let items = DictAddDict items change in
       kbind (kget (positions (\<lambda>tx. TTTransactionContainsOneOf tx items))) (\<lambda>found.
       kret (Go (if found = [] then latest else i) (add_new array found, DictAddDict used items))))))"

definition TTAllTransactionsForVault :: "ecc \<Rightarrow> nat \<Rightarrow> dictionary \<Rightarrow> (nat list \<times> dictionary) tt" where
  "TTAllTransactionsForVault E vaultIndex used =
     kbind (scan_loop (vault_transactions_turn E vaultIndex) 0 0 ([], used)) (\<lambda>t.
     kret (case t of Go latest acc \<Rightarrow> acc | Stop r \<Rightarrow> r))"

end
