(* ===== verification/Tracker_Filter.thy ===== *)
theory Tracker_Filter
  imports Tracker_Wallets
begin

text \<open>
  The rest of the transaction tracker: searches through a vault's derivations, the derivations in
  use, the dictionary of watched buffers with its bloom filter, and the transactions an analyzer
  gets. Block heights and times come from the database and are arguments.
\<close>

section \<open>Searching a vault's derivations\<close>

text \<open>A turn that looks at the deposit and then at the change branch.\<close>

definition both_branches :: "(bool \<Rightarrow> nat \<Rightarrow> 'a \<Rightarrow> ('a, 'r) turn tt) \<Rightarrow> nat \<Rightarrow> 'a \<Rightarrow> ('a, 'r) turn tt" where
  "both_branches f latest acc =
     kbind (f False latest acc) (\<lambda>t. case t of Stop r \<Rightarrow> kret (Stop r) | Go latest acc \<Rightarrow> f True latest acc)"

definition find_uuid :: "ecc \<Rightarrow> bytes \<Rightarrow> data \<Rightarrow> data \<Rightarrow> data option \<Rightarrow> data option tt" where
  "find_uuid E path forPubKey w found =
     (if found \<noteq> None then kret found
      else kbind (kopt (hdWallet E w path)) (\<lambda>child.
        if DataEqual (pubKeyFromHdWallet E child) forPubKey
        then kbind (on_keys (KMUuidFromHDWallet w)) (\<lambda>uuid. kret (Some uuid)) else kret None))"

definition uuid_turn :: "ecc \<Rightarrow> nat \<Rightarrow> data \<Rightarrow> nat \<Rightarrow> bool \<Rightarrow> nat \<Rightarrow> unit \<Rightarrow> (unit, data) turn tt" where
  "uuid_turn E vaultIndex forPubKey i change latest _ =
     kbind (TTScriptAndHash E vaultIndex i change) (\<lambda>items. kbind (paid items) (\<lambda>outputMatch.
     kbind (on_keys KMVaultHdWallets) (\<lambda>all. kbind (kpure (DatasAt all vaultIndex)) (\<lambda>d.
     kbind (kfold (find_uuid E (branch_path change i) forPubKey) (DatasDeserialize d) None) (\<lambda>found.
     kret (case found of Some uuid \<Rightarrow> Stop uuid | None \<Rightarrow> Go (if outputMatch then i else latest) ()))))))"

definition TTVaultUuid :: "ecc \<Rightarrow> nat \<Rightarrow> data \<Rightarrow> data tt" where
  "TTVaultUuid E vaultIndex forPubKey =
     kbind (scan_loop (\<lambda>i. both_branches (uuid_turn E vaultIndex forPubKey i)) 0 0 ()) (\<lambda>t. kret (stopped DataNull t))"

definition path_turn :: "ecc \<Rightarrow> nat \<Rightarrow> data \<Rightarrow> nat \<Rightarrow> bool \<Rightarrow> nat \<Rightarrow> unit \<Rightarrow> (unit, data) turn tt" where
  "path_turn E vaultIndex scriptHash i change latest _ =
     kbind (TTScriptAndHash E vaultIndex i change) (\<lambda>items.
     if DictionaryHasKey items scriptHash then kret (Stop (TTVaultPathDerivation i change))
     else kbind (paid items) (\<lambda>outputMatch. kret (Go (if outputMatch then i else latest) ())))"

definition TTVaultPathForScriptHash :: "ecc \<Rightarrow> nat \<Rightarrow> data \<Rightarrow> data tt" where
  "TTVaultPathForScriptHash E vaultIndex scriptHash =
     kbind (scan_loop (\<lambda>i. both_branches (path_turn E vaultIndex scriptHash i)) 0 0 ()) (\<lambda>t. kret (stopped DataNull t))"

definition TTVaultScriptForScriptHash :: "ecc \<Rightarrow> nat \<Rightarrow> data \<Rightarrow> data tt" where
  "TTVaultScriptForScriptHash E vaultIndex scriptHash =
     kbind (TTVaultPathForScriptHash E vaultIndex scriptHash) (\<lambda>path.
     if path = DataNull then kret DataNull else TTVaultScriptForDerivationPath E vaultIndex path)"

section \<open>Derivations in use\<close>

text \<open>A derivation is added once for every transaction that pays to it.\<close>

definition paying :: "dictionary \<Rightarrow> nat tt" where
  "paying items = kget (\<lambda>self. length (positions (\<lambda>tx. TTTransactionOutputsContainsOneOf tx items) self))"

definition active_turn :: "ecc \<Rightarrow> data \<Rightarrow> nat \<Rightarrow> nat \<Rightarrow> datas \<Rightarrow> (datas, unit) turn tt" where
  "active_turn E w i latest result =
     kbind (address_wallet E w i) (\<lambda>d. kbind (paying (TTKeysAndKeyHashesForWallet E d)) (\<lambda>n.
     kret (Go (if n > 0 then i else latest) (DatasAddDatasCopy result (replicate n d)))))"

definition TTAllActiveDerivations :: "ecc \<Rightarrow> data \<Rightarrow> datas tt" where
  "TTAllActiveDerivations E w = kbind (scan_loop (active_turn E w) 0 0 []) (\<lambda>t. kret (gathered [] t))"

definition master_item :: "ecc \<Rightarrow> nat \<Rightarrow> nat \<Rightarrow> bool \<Rightarrow> data tt" where
  "master_item E vaultIndex i change =
     (let key = cache_key vaultIndex i change in
      kbind (kget (\<lambda>self. DictionaryGetValue (masterHdWalletCache self) key)) (\<lambda>item.
      if item \<noteq> DataNull then kret item
      else kbind (on_keys (KMVaultMasterHdWallets E)) (\<lambda>masters. kbind (kpure (DatasAt masters vaultIndex)) (\<lambda>masterHdWallet.
        kbind (kopt (hdWallet E masterHdWallet (branch_path change i))) (\<lambda>item.
        kbind (kput (\<lambda>self. self\<lparr>masterHdWalletCache := DictionaryAddCopy (masterHdWalletCache self) key item\<rparr>)) (\<lambda>_.
        kret item))))))"

definition vault_active_turn :: "ecc \<Rightarrow> nat \<Rightarrow> nat \<Rightarrow> bool \<Rightarrow> nat \<Rightarrow> datas \<Rightarrow> (datas, unit) turn tt" where
  "vault_active_turn E vaultIndex i change latest result =
     kbind (TTScriptAndHash E vaultIndex i change) (\<lambda>items. kbind (paying items) (\<lambda>n.
     kbind (kfold (\<lambda>_ result. kbind (master_item E vaultIndex i change) (\<lambda>item. kret (DatasAddCopy result item))) [0..<n] result) (\<lambda>result.
     kret (Go (if n > 0 then i else latest) result))))"

definition TTAllVaultActiveDerivations :: "ecc \<Rightarrow> nat \<Rightarrow> datas tt" where
  "TTAllVaultActiveDerivations E vaultIndex =
     kbind (scan_loop (\<lambda>i. both_branches (vault_active_turn E vaultIndex i)) 0 0 []) (\<lambda>t. kret (gathered [] t))"

section \<open>The watched buffers and the bloom filter\<close>

definition count_at :: "datas \<Rightarrow> nat \<Rightarrow> fault + nat" where
  "count_at counts i = (if i \<ge> length counts then Inl Fault
     else case DataGetInt (counts ! i) of Inl e \<Rightarrow> Inl e | Inr c \<Rightarrow> Inr (nat (sint c)))"

definition add_derived :: "ecc \<Rightarrow> data \<Rightarrow> bytes \<Rightarrow> dictionary \<Rightarrow> dictionary tt" where
  "add_derived E w path watched =
     kbind (kopt (hdWallet E w path)) (\<lambda>d. kret (DictAddDict watched (TTKeysAndKeyHashesForWallet E d)))"

text \<open>An element of \<open>hdWallets\<close>, a wallet, is read as an array, under the index of the vault.\<close>

definition add_vault_derivation :: "ecc \<Rightarrow> nat \<Rightarrow> data \<Rightarrow> datas \<Rightarrow> nat \<Rightarrow> dictionary \<Rightarrow> dictionary tt" where
  "add_vault_derivation E i masterHdWallet hdWallets j watched =
     kbind (kpure (DatasAt hdWallets i)) (\<lambda>d.
     kbind (kfold (\<lambda>w watched. kbind (add_derived E w (branch_path False j) watched) (add_derived E w (branch_path True j)))
       (DatasDeserialize d) watched) (\<lambda>watched.
     kbind (TTScriptAndHashFlexible E i j False masterHdWallet hdWallets) (\<lambda>deposit.
     kbind (TTScriptAndHashFlexible E i j True masterHdWallet hdWallets) (\<lambda>change.
     kret (DictAddDict (DictAddDict watched deposit) change)))))"

definition add_vault :: "ecc \<Rightarrow> datas \<Rightarrow> datas \<Rightarrow> datas \<Rightarrow> nat \<Rightarrow> dictionary \<Rightarrow> dictionary tt" where
  "add_vault E counts masters vaults i watched =
     kbind (kpure (DatasAt masters i)) (\<lambda>masterHdWallet.
     kbind (kpure (DatasAt vaults i)) (\<lambda>d.
     kbind (kpure (count_at counts i)) (\<lambda>n.
     kfold (add_vault_derivation E i masterHdWallet (DatasDeserialize d)) [0..<n] watched)))"

definition add_wallet :: "ecc \<Rightarrow> datas \<Rightarrow> datas \<Rightarrow> nat \<Rightarrow> dictionary \<Rightarrow> dictionary tt" where
  "add_wallet E wallets counts i watched =
     kbind (kpure (count_at counts i)) (\<lambda>n. kfold (\<lambda>j. add_derived E (wallets ! i) (decimal j)) [0..<n] watched)"

definition buildKeysAndKeyHashes :: "ecc \<Rightarrow> dictionary tt" where
  "buildKeysAndKeyHashes E =
     kbind TTAllHdWallets (\<lambda>wallets. kbind TTLookAheadCount (\<lambda>counts. kbind TTVaultLookAheadCount (\<lambda>vaultCounts.
     kbind (on_keys (KMVaultMasterHdWallets E)) (\<lambda>masters. kbind (on_keys KMVaultHdWallets) (\<lambda>vaults.
     kbind (kfold (add_wallet E wallets counts) [0..<length wallets] DictNew) (\<lambda>watched.
     kbind TTVaultCount (\<lambda>vaultCount.
     kbind (kfold (add_vault E vaultCounts masters vaults) [0..<nat (sint vaultCount)] watched) (\<lambda>watched.
     kbind TTMissingFundingTransactions (\<lambda>missing.
     kbind (kget allTransactions) (\<lambda>txs.
     let watched = fold (\<lambda>d watched. DictionaryAddCopy watched d DataNull) missing watched
     in kret (fold (\<lambda>tx watched. if length (outputs tx) = 1 then DictionaryAddCopy watched (TransactionTxid tx) DataNull else watched)
          txs watched)))))))))))"

text \<open>The floating-point arguments of \<open>bloomFilterArray\<close>; the rate is \<open>BLOOM_FAILRATE\<close>.\<close>

definition BLOOM_UPDATE_ALL :: u32 where "BLOOM_UPDATE_ALL = 1"

definition look_ahead :: "int \<Rightarrow> u32 tt" where
  "look_ahead lastUsed = kget (\<lambda>self. of_int lastUsed + bloomaheadCount self)"

definition set_watched :: "(int \<Rightarrow> u32) \<Rightarrow> (int \<Rightarrow> u32) \<Rightarrow> dictionary \<Rightarrow> unit tt" where
  "set_watched sizeOf timesLog2 dict =
     kbind (TTSetKeysAndKeyHashes dict) (\<lambda>_. kbind TTKeysAndKeyHashes (\<lambda>dict.
     kbind (kpure (bloomFilterArray sizeOf timesLog2 (map fst (keysAndValues dict)) BLOOM_UPDATE_ALL)) TTSetBloomFilter))"

definition TTUpdateBloomFilter :: "ecc \<Rightarrow> (int \<Rightarrow> u32) \<Rightarrow> (int \<Rightarrow> u32) \<Rightarrow> unit tt" where
  "TTUpdateBloomFilter E sizeOf timesLog2 =
     kbind (on_keys (KMAllHdWalletPubRoots E)) (\<lambda>roots. kbind (TTSetAllHdWallets roots) (\<lambda>_.
     kbind (on_keys KMVaultNames) (\<lambda>names. kbind (TTSetVaultCount (of_nat (length names))) (\<lambda>_.
     kbind (kput (\<lambda>self. self\<lparr>scriptAndHashCache := Map.empty, masterHdWalletCache := DictNew\<rparr>)) (\<lambda>_.
     kbind TTAllHdWallets (\<lambda>wallets.
     kbind (kfold (\<lambda>w counts. kbind (TTLastUsedAddress E w) (\<lambda>u. kbind (look_ahead u) (\<lambda>c.
       kret (DatasAddCopy counts (DataInt c))))) wallets []) (\<lambda>counts.
     kbind (TTSetLookAheadCount counts) (\<lambda>_.
     kbind TTVaultCount (\<lambda>vaultCount.
     kbind (kfold (\<lambda>i counts. kbind (TTLastUsedVaultAddress E (of_nat i)) (\<lambda>u. kbind (look_ahead u) (\<lambda>c.
       kret (DatasAddCopy counts (DataInt c))))) [0..<nat (sint vaultCount)] []) (\<lambda>counts.
     kbind (TTSetVaultLookAheadCount counts) (\<lambda>_.
     kbind (buildKeysAndKeyHashes E) (set_watched sizeOf timesLog2))))))))))))"

definition TTTempBloomFilterAdd :: "data \<Rightarrow> unit tt" where
  "TTTempBloomFilterAdd element =
     kbind TTBloomFilter (\<lambda>bloom. kbind (kpure (bloomFilterAddElement bloom element)) (\<lambda>(ok, bloom). TTSetBloomFilter bloom))"

definition TTPubKeyOrScriptForKnownHash :: "data \<Rightarrow> data tt" where
  "TTPubKeyOrScriptForKnownHash hash = kbind TTKeysAndKeyHashes (\<lambda>dict. kret (DictionaryGetValue dict hash))"

definition too_few_unused :: "ecc \<Rightarrow> data \<Rightarrow> bool \<Rightarrow> bool tt" where
  "too_few_unused E w found = (if found then kret True
     else kbind (TTUnusedAddresses E w) (\<lambda>n. kret (n < int HDWALLET_SCANAHEAD_COUNT)))"

definition TTBloomFilterNeedsUpdate :: "ecc \<Rightarrow> bool tt" where
  "TTBloomFilterNeedsUpdate E =
     kbind TTBloomFilter (\<lambda>bloom. if dlength bloom = 0 then kret True
     else kbind (on_keys KMVaultNames) (\<lambda>names. kbind TTVaultCount (\<lambda>vaultCount.
       if of_nat (length names) \<noteq> vaultCount then kret True
       else kbind TTAllHdWallets (\<lambda>wallets. kbind (on_keys (KMAllHdWalletPubRoots E)) (\<lambda>roots.
         if \<not> DatasEqual wallets roots then kret True
         else kfold (too_few_unused E) wallets False)))))"

section \<open>Analyzers\<close>

definition txCompare :: "(data \<Rightarrow> u32) \<Rightarrow> (data \<Rightarrow> u32) \<Rightarrow> transaction \<Rightarrow> transaction \<Rightarrow> int" where
  "txCompare height blockTime lTx rTx =
     (let lHash = hash256 (TransactionData lTx); rHash = hash256 (TransactionData rTx);
          result = sint (height lHash - height rHash)
      in if result = 0 then sint (blockTime lHash - blockTime rHash) else result)"

definition at_positions :: "(data \<Rightarrow> u32) \<Rightarrow> (data \<Rightarrow> u32) \<Rightarrow> tracker \<Rightarrow> nat \<Rightarrow> nat \<Rightarrow> int" where
  "at_positions height blockTime self m n = txCompare height blockTime (allTransactions self ! m) (allTransactions self ! n)"

fun merge_change :: "(nat \<Rightarrow> nat \<Rightarrow> int) \<Rightarrow> nat list \<Rightarrow> nat list \<Rightarrow> nat list" where
  "merge_change cmp array [] = array"
| "merge_change cmp array (n # ns) =
     merge_change cmp (if fst (bsearch (cmp n) array) \<noteq> None then array else qsort cmp (array @ [n])) ns"

definition TTAnalyzerFor :: "ecc \<Rightarrow> (data \<Rightarrow> u32) \<Rightarrow> (data \<Rightarrow> u32) \<Rightarrow> data \<Rightarrow> (transaction list \<times> dictionary) tt" where
  "TTAnalyzerFor E height blockTime root =
     kbind (kopt (hdWallet E root (c_lit ''0''))) (\<lambda>w. kbind (TTAllTransactionsFor E w DictNew) (\<lambda>(array, items).
     kbind (kopt (hdWallet E root (c_lit ''1''))) (\<lambda>w. kbind (TTAllTransactionsFor E w items) (\<lambda>(change, items).
     kbind (kget id) (\<lambda>self.
     let cmp = at_positions height blockTime self;
         array = merge_change cmp (qsort cmp array) change
     in kret (map ((!) (allTransactions self)) array, items))))))"

definition TTAnalyzerForVault :: "ecc \<Rightarrow> (data \<Rightarrow> u32) \<Rightarrow> (data \<Rightarrow> u32) \<Rightarrow> nat \<Rightarrow> (transaction list \<times> dictionary) tt" where
  "TTAnalyzerForVault E height blockTime vaultIndex =
     kbind (TTAllTransactionsForVault E vaultIndex DictNew) (\<lambda>(array, items). kbind (kget id) (\<lambda>self.
     kret (map ((!) (allTransactions self)) (qsort (at_positions height blockTime self) array), items)))"

end
