(* ===== verification/Tracker_Props.thy ===== *)
theory Tracker_Props
  imports Tracker_Filter Key_Manager_Props Transaction_Props
begin

text \<open>
  Properties of the transaction tracker: the three arrays stay parallel, what adding and removing a
  transaction does, and what the scans of addresses find.
\<close>

section \<open>The parallel arrays\<close>

definition stored_ok :: "tracker \<Rightarrow> bool" where
  "stored_ok self \<longleftrightarrow> allTransactionTxids self = map TransactionTxid (allTransactions self)
     \<and> length (allTransactionHashes self) = length (allTransactions self)
     \<and> distinct (map dbytes (allTransactionHashes self))"

lemma matching_find:
  "(matching_from (map f xs) d k < 0 \<and> find (\<lambda>x. dbytes (f x) = dbytes d) xs = None)
   \<or> (\<exists>i < length xs. matching_from (map f xs) d k = int (k + i) \<and> find (\<lambda>x. dbytes (f x) = dbytes d) xs = Some (xs ! i))"
proof (induction xs arbitrary: k)
  case (Cons x xs)
  show ?case
  proof (cases "dbytes (f x) = dbytes d")
    case False
    with Cons.IH [of "Suc k"] show ?thesis
    proof (elim disjE exE conjE)
      fix i assume "i < length xs" "matching_from (map f xs) d (Suc k) = int (Suc k + i)"
        "find (\<lambda>x. dbytes (f x) = dbytes d) xs = Some (xs ! i)"
      with False have "Suc i < length (x # xs) \<and> matching_from (map f (x # xs)) d k = int (k + Suc i)
        \<and> find (\<lambda>x. dbytes (f x) = dbytes d) (x # xs) = Some ((x # xs) ! Suc i)" by simp
      then show ?thesis by blast
    qed (use False in simp)
  qed auto
qed simp

lemma transaction_for_txid:
  assumes "stored_ok self"
  shows "TTTransactionForTxid self txid = Inr (find (\<lambda>tx. dbytes (TransactionTxid tx) = dbytes txid) (allTransactions self))"
  using matching_find [of TransactionTxid "allTransactions self" txid 0] assms
  by (auto simp: TTTransactionForTxid_def transaction_at_def DatasMatchingDataIndex_def stored_ok_def)

definition funding_of :: "transaction list \<Rightarrow> tx_input \<Rightarrow> tx_output option" where
  "funding_of txs input = TransactionOutputOrNilAt
     (find (\<lambda>tx. dbytes (TransactionTxid tx) = dbytes (previousTransactionHash input)) txs) (sint (outputIndex input))"

definition funded :: "transaction list \<Rightarrow> transaction \<Rightarrow> transaction" where
  "funded txs tx = tx\<lparr>inputs := map (\<lambda>input. case funding_of txs input of None \<Rightarrow> input
     | Some output \<Rightarrow> input\<lparr>fundingOutput := output\<rparr>) (inputs tx)\<rparr>"

lemma fund_inputs_total:
  assumes "stored_ok self"
  shows "fund_inputs self ins = Inr (map (\<lambda>input. case funding_of (allTransactions self) input of None \<Rightarrow> input
     | Some output \<Rightarrow> input\<lparr>fundingOutput := output\<rparr>) ins)"
  by (induction ins) (simp_all add: fund_input_def transaction_for_txid [OF assms] funding_of_def)

lemma fund_transaction_total: "stored_ok self \<Longrightarrow> fund_transaction self tx = Inr (funded (allTransactions self) tx)"
  by (simp add: fund_transaction_def fund_inputs_total funded_def)

lemma txid_ignores_funding: "TransactionTxid (funded txs tx) = TransactionTxid tx"
proof -
  have "TransactionInputData (case funding_of txs i of None \<Rightarrow> i | Some output \<Rightarrow> i\<lparr>fundingOutput := output\<rparr>) = TransactionInputData i" for i
    by (simp add: TransactionInputData_def split: option.split)
  then show ?thesis by (simp add: TransactionTxid_def TransactionTx_def funded_def fold_map comp_def)
qed

lemma has_matching_iff: "DatasHasMatchingData ds d \<noteq> 0 \<longleftrightarrow> dbytes d \<in> dbytes ` set ds"
  unfolding neq0_conv DatasHasMatchingData_pos by (metis image_iff)

lemma store_ok:
  assumes "stored_ok self" "dbytes hash \<notin> dbytes ` set (allTransactionHashes self)"
  shows "stored_ok (store_transaction tx hash self)"
  using assms by (auto simp: stored_ok_def store_transaction_def DatasAddCopy_def)

lemma load_transactions_ok:
  assumes "load_transactions ds self = Inr self'" "stored_ok self"
    and "distinct (map dbytes (allTransactionHashes self) @ map (dbytes \<circ> hash256) ds)"
  shows "stored_ok self'"
  using assms
proof (induction ds arbitrary: self)
  case (Cons d ds)
  then obtain tx where tx: "TransactionNew d = Inr tx" "load_transactions ds (store_transaction tx (hash256 d) self) = Inr self'"
    by (auto split: sum.splits)
  have "stored_ok (store_transaction tx (hash256 d) self)" using Cons.prems(2,3) by (intro store_ok) auto
  from Cons.IH [OF tx(2) this] Cons.prems(3) show ?case by (auto simp: store_transaction_def DatasAddCopy_def)
qed simp

lemma fund_all_ok:
  assumes "fund_all is self = Inr self'" "stored_ok self" "\<forall>i \<in> set is. i < length (allTransactions self)"
  shows "stored_ok self'"
  using assms
proof (induction "is" arbitrary: self)
  case (Cons i "is")
  let ?self = "self\<lparr>allTransactions := (allTransactions self)[i := funded (allTransactions self) (allTransactions self ! i)]\<rparr>"
  have "map TransactionTxid (allTransactions ?self) = map TransactionTxid (allTransactions self)"
    using Cons.prems(3) by (simp add: map_update txid_ignores_funding list_update_same_conv)
  then have "stored_ok ?self" using Cons.prems(2) by (simp add: stored_ok_def)
  moreover have "fund_all is ?self = Inr self'" using Cons.prems(1,2) by (simp add: fund_transaction_total)
  ultimately show ?case using Cons.IH [of ?self] Cons.prems(3) by simp
qed simp

section \<open>The watched buffers\<close>

lemma TTLoad_eq:
  "TTLoad key self = (case bsLoad (store (keys self)) (key @ testNetStr self) of Inl e \<Rightarrow> Some (Inl e) | Inr d \<Rightarrow> Some (Inr (d, self)))"
  by (simp add: TTLoad_def kbind_def kget_def on_keys_def load_item_def kpure_def split: sum.split)

lemma watched_stable:
  assumes "TTKeysAndKeyHashes self = Some (Inr (dict, self'))"
  shows "self' = self\<lparr>keysAndKeyHashes := dict\<rparr>" "TTKeysAndKeyHashes self' = Some (Inr (dict, self'))"
  using assms
  by (auto simp: TTKeysAndKeyHashes_def kbind_def kget_def kret_def kput_def kpure_def TTLoad_eq testNetStr_def
      split: if_splits sum.splits)

lemma interesting_eq:
  assumes "TTKeysAndKeyHashes self = Some (Inr (dict, self'))"
  shows "TTInterestingTransaction tx self = Some (Inr (TTTransactionContainsOneOf tx dict, self'))"
  by (simp add: TTInterestingTransaction_def kbind_def kret_def assms)

text \<open>The funding transactions that interesting transactions wait for.\<close>

definition awaited :: "dictionary \<Rightarrow> datas \<Rightarrow> transaction \<Rightarrow> datas" where
  "awaited dict txids tx = (if TTTransactionContainsOneOf tx dict
     then filter (\<lambda>h. dbytes h \<notin> dbytes ` set txids) (map previousTransactionHash (inputs tx)) else [])"

lemma fold_awaited:
  "fold (\<lambda>input result. if DatasHasMatchingData txids (previousTransactionHash input) = 0
      then DatasAddCopy result (previousTransactionHash input) else result) ins result
   = result @ filter (\<lambda>h. dbytes h \<notin> dbytes ` set txids) (map previousTransactionHash ins)"
proof (induction ins arbitrary: result)
  case (Cons i ins)
  then show ?case using has_matching_iff [of txids "previousTransactionHash i"]
    by (cases "DatasHasMatchingData txids (previousTransactionHash i) = 0") (simp_all add: DatasAddCopy_def)
qed simp

lemma missing_loop:
  assumes "TTKeysAndKeyHashes self = Some (Inr (dict, self))"
  shows "kfold missing_of txs acc self = Some (Inr (acc @ concat (map (awaited dict (allTransactionTxids self)) txs), self))"
proof (induction txs arbitrary: acc)
  case (Cons tx txs)
  have "missing_of tx acc self = Some (Inr (acc @ awaited dict (allTransactionTxids self) tx, self))"
    by (simp add: missing_of_def kbind_def interesting_eq [OF assms] kget_def kret_def fold_awaited awaited_def)
  then show ?case by (simp add: kbind_def Cons.IH)
qed (simp add: kret_def)

lemma missing_eq:
  assumes "TTKeysAndKeyHashes self = Some (Inr (dict, self))"
  shows "TTMissingFundingTransactions self = Some (Inr (concat (map (awaited dict (allTransactionTxids self)) (allTransactions self)), self))"
  by (simp add: TTMissingFundingTransactions_def kbind_def kget_def missing_loop [OF assms])

section \<open>Adding\<close>

definition wanted :: "dictionary \<Rightarrow> tracker \<Rightarrow> transaction \<Rightarrow> bool" where
  "wanted dict self tx \<longleftrightarrow> TTTransactionContainsOneOf tx dict
     \<or> (\<exists>t \<in> set (allTransactions self). dbytes (TransactionTxid tx) \<in> dbytes ` set (awaited dict (allTransactionTxids self) t))"

definition announce :: "tracker \<Rightarrow> tracker" where
  "announce self = self\<lparr>center := NotificationsFire (center self) TransactionTrackerTransactionAdded DictNew\<rparr>"

lemma add_result:
  assumes ok: "stored_ok self" and K: "TTKeysAndKeyHashes self = Some (Inr (dict, self1))" and tx: "TransactionNew d = Inr tx"
    and tx': "tx' = funded (allTransactions self) tx"
  shows "TTAddTransaction d self = Some (Inr (
    if \<not> wanted dict self tx' then (- 2, self1\<lparr>mismatchCount := mismatchCount self + 1\<rparr>)
    else if dbytes (hash256 d) \<in> dbytes ` (set (allTransactionHashes self) \<union> set (allTransactionTxids self)) then (- 1, self1)
    else (1, announce (store_transaction tx' (hash256 d) (self1\<lparr>matchCount := matchCount self + 1\<rparr>)))))"
proof -
  note K1 = watched_stable [OF K]
  have f: "fund_transaction self tx = Inr tx'" by (simp add: fund_transaction_total [OF ok] tx')
  have m: "DatasHasMatchingData (concat (map (awaited dict (allTransactionTxids self1)) (allTransactions self1))) (TransactionTxid tx') \<noteq> 0
      \<longleftrightarrow> (\<exists>t \<in> set (allTransactions self). dbytes (TransactionTxid tx') \<in> dbytes ` set (awaited dict (allTransactionTxids self) t))"
    unfolding has_matching_iff by (auto simp: K1(1))
  have h: "DatasHasMatchingData (allTransactionHashes self) (hash256 d) \<noteq> 0 \<or> DatasHasMatchingData (allTransactionTxids self) (hash256 d) \<noteq> 0
      \<longleftrightarrow> dbytes (hash256 d) \<in> dbytes ` (set (allTransactionHashes self) \<union> set (allTransactionTxids self))"
    unfolding has_matching_iff by auto
  show ?thesis
    unfolding TTAddTransaction_def kbind_def kpure_def kget_def kput_def kret_def Let_def tx
    by (simp add: f interesting_eq [OF K] missing_eq [OF K1(2)] m wanted_def announce_def del: neq0_conv)
      (use h in \<open>auto simp: K1(1)\<close>)
qed

text \<open>
  C12. Adding a transaction: one that mentions no watched buffer and that no interesting stored
  transaction waits for is refused with -2 and counted as a mismatch; one whose hash is stored is
  refused with -1; any other is stored last, with the outputs it spends filled in from the stored
  transactions, and every listener is notified.
\<close>

theorem add_transaction_results:
  assumes "stored_ok self" "TTKeysAndKeyHashes self = Some (Inr (dict, self1))" "TransactionNew d = Inr tx"
    and "tx' = funded (allTransactions self) tx"
  shows "TTAddTransaction d self = Some (Inr (
    if \<not> wanted dict self tx' then (- 2, self1\<lparr>mismatchCount := mismatchCount self + 1\<rparr>)
    else if dbytes (hash256 d) \<in> dbytes ` (set (allTransactionHashes self) \<union> set (allTransactionTxids self)) then (- 1, self1)
    else (1, announce (store_transaction tx' (hash256 d) (self1\<lparr>matchCount := matchCount self + 1\<rparr>)))))"
  by (rule add_result [OF assms])

lemma add_ok:
  assumes "stored_ok self" "TTAddTransaction d self = Some (Inr (r, self'))"
  shows "stored_ok self'"
proof -
  obtain tx where tx: "TransactionNew d = Inr tx"
    using assms(2) by (auto simp: TTAddTransaction_def kbind_def kpure_def split: sum.splits)
  note defs = TTAddTransaction_def kbind_def kpure_def kget_def tx fund_transaction_total [OF assms(1)] TTInterestingTransaction_def
  obtain dict self1 where K: "TTKeysAndKeyHashes self = Some (Inr (dict, self1))"
  proof (cases "TTKeysAndKeyHashes self")
    case None
    then show thesis using assms(2) by (simp add: defs)
  next
    case (Some a)
    then show thesis using assms(2) that by (cases a) (auto simp: defs)
  qed
  have 1: "stored_ok self1" using assms(1) by (simp add: watched_stable(1) [OF K] stored_ok_def)
  note r = add_result [OF assms(1) K tx refl]
  consider "self' = self1\<lparr>mismatchCount := mismatchCount self + 1\<rparr>" | "self' = self1"
    | "self' = announce (store_transaction (funded (allTransactions self) tx) (hash256 d) (self1\<lparr>matchCount := matchCount self + 1\<rparr>))"
        "dbytes (hash256 d) \<notin> dbytes ` set (allTransactionHashes self1)"
    using assms(2) r by (auto simp: watched_stable(1) [OF K] split: if_splits)
  then show ?thesis
  proof cases
    case 3
    have "stored_ok (self1\<lparr>matchCount := matchCount self + 1\<rparr>)" using 1 by (simp add: stored_ok_def)
    then have "stored_ok (store_transaction (funded (allTransactions self) tx) (hash256 d) (self1\<lparr>matchCount := matchCount self + 1\<rparr>))"
      by (rule store_ok) (use 3(2) in simp)
    then show ?thesis by (simp add: 3(1) announce_def stored_ok_def)
  qed (use 1 in \<open>simp_all add: stored_ok_def\<close>)
qed

section \<open>Removing\<close>

definition rows :: "tracker \<Rightarrow> (data \<times> data \<times> transaction) list" where
  "rows self = zip (allTransactionTxids self) (zip (allTransactionHashes self) (allTransactions self))"

definition put_rows :: "(data \<times> data \<times> transaction) list \<Rightarrow> tracker \<Rightarrow> tracker" where
  "put_rows rs self = self\<lparr>allTransactionTxids := map fst rs, allTransactionHashes := map (fst \<circ> snd) rs,
     allTransactions := map (snd \<circ> snd) rs\<rparr>"

definition row_matches :: "bool \<Rightarrow> data \<Rightarrow> data \<times> data \<times> transaction \<Rightarrow> bool" where
  "row_matches by_txid d row = DataEqual (if by_txid then fst row else fst (snd row)) d"

lemma remove_row: "remove_at (length front) (put_rows (front @ x # rest) self) = Inr (put_rows (front @ rest) self)"
  by (simp add: remove_at_def put_rows_def DatasRemoveIndex_def DatasRemoveIndexTake_def)

lemma remove_rows:
  "remove_loop by_txid d (length front) r (put_rows (front @ rest) self)
   = Inr (r + of_nat (length (filter (row_matches by_txid d) rest)), put_rows (front @ filter (\<lambda>x. \<not> row_matches by_txid d x) rest) self)"
proof (induction rest arbitrary: front r)
  case Nil
  then show ?case by (subst remove_loop.simps) (simp add: searched_def put_rows_def)
next
  case (Cons x rest)
  have s: "length front < length (searched by_txid (put_rows (front @ x # rest) self))"
    "DataEqual (searched by_txid (put_rows (front @ x # rest) self) ! length front) d = row_matches by_txid d x"
    by (simp_all add: searched_def put_rows_def nth_append row_matches_def)
  show ?case
  proof (cases "row_matches by_txid d x")
    case True
    then show ?thesis using s by (subst remove_loop.simps) (simp add: remove_row Cons.IH add.assoc)
  next
    case False
    then show ?thesis using s Cons.IH [of "front @ [x]" r] by (subst remove_loop.simps) simp
  qed
qed

lemma put_rows_id:
  assumes "stored_ok self"
  shows "put_rows (rows self) self = self" "map (snd \<circ> snd) (rows self) = allTransactions self"
    "map (fst \<circ> snd) (rows self) = allTransactionHashes self" "map fst (rows self) = allTransactionTxids self"
    "rows self = map (\<lambda>(h, tx). (TransactionTxid tx, h, tx)) (zip (allTransactionHashes self) (allTransactions self))"
proof -
  have l: "length (allTransactionHashes self) = length (allTransactions self)" "allTransactionTxids self = map TransactionTxid (allTransactions self)"
    using assms by (simp_all add: stored_ok_def)
  show r: "rows self = map (\<lambda>(h, tx). (TransactionTxid tx, h, tx)) (zip (allTransactionHashes self) (allTransactions self))"
    unfolding rows_def l(2) using l(1) by (auto intro: nth_equalityI)
  show m: "map (snd \<circ> snd) (rows self) = allTransactions self" "map (fst \<circ> snd) (rows self) = allTransactionHashes self"
      "map fst (rows self) = allTransactionTxids self"
    using l by (simp_all add: rows_def flip: map_map)
  show "put_rows (rows self) self = self" by (simp add: put_rows_def m)
qed

lemma remove_result:
  assumes "stored_ok self"
  shows "remove_loop by_txid d 0 0 self = Inr (of_nat (length (filter (row_matches by_txid d) (rows self))),
    put_rows (filter (\<lambda>x. \<not> row_matches by_txid d x) (rows self)) self)"
  using remove_rows [of by_txid d "[]" 0 "rows self" self] by (simp add: put_rows_id(1) [OF assms])

lemma remove_ok:
  assumes "stored_ok self" "remove_loop by_txid d 0 0 self = Inr (n, self')"
  shows "stored_ok self'"
proof -
  have s: "self' = put_rows (filter (\<lambda>x. \<not> row_matches by_txid d x) (rows self)) self" using remove_result [OF assms(1)] assms(2) by auto
  have "map fst (filter P (rows self)) = map TransactionTxid (map (snd \<circ> snd) (filter P (rows self)))" for P
    unfolding put_rows_id(5) [OF assms(1)] by (simp add: filter_map comp_def case_prod_unfold)
  moreover have "distinct (map dbytes (map (fst \<circ> snd) (rows self)))"
    using assms(1) unfolding put_rows_id(3) [OF assms(1)] by (simp add: stored_ok_def)
  ultimately show ?thesis by (simp add: s stored_ok_def put_rows_def distinct_map_filter)
qed

text \<open>The states of a tracker. Every other operation leaves the three arrays as they are.\<close>

inductive tracking :: "tracker \<Rightarrow> bool" where
  tracking_new: "TTNew array net ahead km nt = Inr self \<Longrightarrow> distinct (map (dbytes \<circ> hash256) array) \<Longrightarrow> tracking self"
| tracking_add: "tracking self \<Longrightarrow> TTAddTransaction d self = Some (Inr (r, self')) \<Longrightarrow> tracking self'"
| tracking_hash: "tracking self \<Longrightarrow> TTRemoveTransactionByHash d self = Inr (n, self') \<Longrightarrow> tracking self'"
| tracking_txid: "tracking self \<Longrightarrow> TTRemoveTransactionByTxid d self = Inr (n, self') \<Longrightarrow> tracking self'"
| tracking_other: "tracking self \<Longrightarrow> allTransactions self' = allTransactions self
    \<Longrightarrow> allTransactionHashes self' = allTransactionHashes self \<Longrightarrow> allTransactionTxids self' = allTransactionTxids self \<Longrightarrow> tracking self'"

lemma tracking_ok: "tracking self \<Longrightarrow> stored_ok self"
proof (induction rule: tracking.induct)
  case (tracking_new array net ahead km nt self)
  then obtain s where s: "load_transactions array (empty_tracker net ahead km nt) = Inr s" "fund_all [0..<length (allTransactions s)] s = Inr self"
    by (auto simp: TTNew_def split: sum.splits)
  have "stored_ok s" by (rule load_transactions_ok [OF s(1)]) (use tracking_new(2) in \<open>simp_all add: stored_ok_def empty_tracker_def\<close>)
  then show ?case by (rule fund_all_ok [OF s(2)]) simp
next
  case (tracking_add self d r self')
  then show ?case using add_ok by blast
next
  case (tracking_hash self d n self')
  then show ?case using remove_ok by (auto simp: TTRemoveTransactionByHash_def split: if_splits)
next
  case (tracking_txid self d n self')
  then show ?case using remove_ok by (auto simp: TTRemoveTransactionByTxid_def split: if_splits)
qed (simp add: stored_ok_def)

lemma transaction_for_hash:
  assumes "stored_ok self"
  shows "TTTransactionForHash self hash = Inr (map_option snd (find (\<lambda>(h, tx). dbytes h = dbytes hash)
    (zip (allTransactionHashes self) (allTransactions self))))"
proof -
  let ?z = "zip (allTransactionHashes self) (allTransactions self)"
  have l: "length (allTransactionHashes self) = length (allTransactions self)" using assms by (simp add: stored_ok_def)
  have "map fst ?z = allTransactionHashes self" using l by simp
  then show ?thesis
    using matching_find [of fst ?z hash 0] l
    by (auto simp: TTTransactionForHash_def transaction_at_def DatasMatchingDataIndex_def case_prod_unfold)
qed

text \<open>
  C11. Whatever transactions are added and removed, the three arrays describe the same transactions
  in the same order and no hash occurs twice. So a lookup never reads past the end of an array,
  and finds the first transaction with that id.
\<close>

theorem tracked_arrays_parallel:
  assumes "tracking self"
  shows "allTransactionTxids self = map TransactionTxid (allTransactions self)
    \<and> length (allTransactionHashes self) = length (allTransactions self)
    \<and> distinct (map dbytes (allTransactionHashes self))
    \<and> TTTransactionForTxid self txid = Inr (find (\<lambda>tx. dbytes (TransactionTxid tx) = dbytes txid) (allTransactions self))
    \<and> TTTransactionForHash self hash = Inr (map_option snd (find (\<lambda>(h, tx). dbytes h = dbytes hash)
        (zip (allTransactionHashes self) (allTransactions self))))"
  using tracking_ok [OF assms] transaction_for_txid transaction_for_hash by (simp add: stored_ok_def)

lemma small_hash256: "dlength (hash256 d) < 2 ^ 31"
  by (cases d) (simp_all add: hash256_def [of DataNull] sha256_def hash256_Bytes length_sha256_spec)

text \<open>
  Removing by transaction id takes every transaction with that id out of the three arrays,
  keeps the others in order, returns how many there were, and leaves none to be found.
\<close>

lemma removal_is_complete:
  assumes "tracking self" "dlength txid = 32"
  shows "\<exists>self'. TTRemoveTransactionByTxid txid self
       = Inr (of_nat (length (filter (\<lambda>tx. DataEqual (TransactionTxid tx) txid) (allTransactions self))), self')
     \<and> allTransactions self' = filter (\<lambda>tx. \<not> DataEqual (TransactionTxid tx) txid) (allTransactions self)
     \<and> allTransactionTxids self' = filter (\<lambda>t. \<not> DataEqual t txid) (allTransactionTxids self)
     \<and> allTransactionHashes self' = map fst (filter (\<lambda>(h, tx). \<not> DataEqual (TransactionTxid tx) txid)
          (zip (allTransactionHashes self) (allTransactions self)))
     \<and> TTTransactionForTxid self' txid = Inr None"
proof -
  have ok: "stored_ok self" by (rule tracking_ok [OF assms(1)])
  let ?s = "put_rows (filter (\<lambda>x. \<not> row_matches True txid x) (rows self)) self"
  have r: "TTRemoveTransactionByTxid txid self = Inr (of_nat (length (filter (row_matches True txid) (rows self))), ?s)"
    using assms(2) by (simp add: TTRemoveTransactionByTxid_def remove_result [OF ok])
  define z where "z = zip (allTransactionHashes self) (allTransactions self)"
  have R: "rows self = map (\<lambda>(h, tx). (TransactionTxid tx, h, tx)) z" by (simp add: put_rows_id(5) [OF ok] z_def)
  have l: "allTransactions self = map snd z" using ok by (simp add: stored_ok_def z_def)
  note map_rules = filter_map comp_def case_prod_unfold row_matches_def
  have n: "length (filter (row_matches True txid) (rows self)) = length (filter (\<lambda>tx. DataEqual (TransactionTxid tx) txid) (allTransactions self))"
    by (simp add: R l map_rules)
  have a: "allTransactions ?s = filter (\<lambda>tx. \<not> DataEqual (TransactionTxid tx) txid) (allTransactions self)"
    by (simp add: put_rows_def R l map_rules)
  have t: "allTransactionTxids ?s = map TransactionTxid (allTransactions ?s)" by (simp add: put_rows_def R map_rules)
  have h: "allTransactionHashes ?s = map fst (filter (\<lambda>(h, tx). \<not> DataEqual (TransactionTxid tx) txid) z)"
    by (simp add: put_rows_def R map_rules)
  have "small_data (TransactionTxid tx)" "small_data txid" for tx
    using assms(2) small_hash256 by (simp_all add: small_data_def TransactionTxid_def)
  then have "find (\<lambda>tx. dbytes (TransactionTxid tx) = dbytes txid) (allTransactions ?s) = None"
    unfolding a find_None_iff by (simp add: DataEqual_def DataCompare_0_iff)
  then have "TTTransactionForTxid ?s txid = Inr None"
    using transaction_for_txid [OF remove_ok [OF ok remove_result [OF ok]]] by simp
  moreover have "allTransactionTxids ?s = filter (\<lambda>t. \<not> DataEqual t txid) (allTransactionTxids self)"
    using ok unfolding t a by (simp add: stored_ok_def filter_map comp_def)
  ultimately show ?thesis using r n a h [unfolded z_def] by auto
qed

section \<open>Examples\<close>

text \<open>A transaction with one output whose script pushes the byte 42.\<close>

definition paying_bytes :: bytes where
  "paying_bytes = [2, 0, 0, 0, 1] @ replicate 32 9 @ [0, 0, 0, 0, 0, 0, 0, 0, 0, 1] @ replicate 8 1 @ [2, 1, 42, 0, 0, 0, 0]"

definition watching :: tracker where
  "watching = (empty_tracker False 100 fresh_keys note_init)\<lparr>keysAndKeyHashes := DictOne (Bytes [42]) DataNull\<rparr>"

lemma paying_interesting:
  "case TransactionNew (Bytes paying_bytes) of Inl _ \<Rightarrow> False | Inr tx \<Rightarrow> TTTransactionContainsOneOf tx (DictOne (Bytes [42]) DataNull)"
  by code_simp

lemma watching_facts:
  "tracking watching" "stored_ok watching" "allTransactions watching = []" "allTransactionHashes watching = []" "allTransactionTxids watching = []"
  "TTKeysAndKeyHashes watching = Some (Inr (DictOne (Bytes [42]) DataNull, watching))"
proof -
  let ?e = "empty_tracker False 100 fresh_keys note_init"
  have "TTNew [] False 100 fresh_keys note_init = Inr ?e" by (simp add: TTNew_def empty_tracker_def)
  then have "tracking ?e" by (rule tracking_new) simp
  then show "tracking watching" by (rule tracking_other) (simp_all add: watching_def)
  then show "stored_ok watching" by (rule tracking_ok)
  have "DictionaryCount (DictOne (Bytes [42]) DataNull) \<noteq> 0"
    by (simp add: DictionaryCount_def DictOne_def DictNew_def DictionaryNew_def DictionaryAddCopy_def DictionaryAddRef_def Let_def split: prod.split)
  then show "TTKeysAndKeyHashes watching = Some (Inr (DictOne (Bytes [42]) DataNull, watching))"
    by (simp add: TTKeysAndKeyHashes_def kbind_def kget_def kret_def watching_def)
qed (simp_all add: watching_def empty_tracker_def)

lemma paying_facts:
  obtains tx where "TransactionNew (Bytes paying_bytes) = Inr tx" "funded [] tx = tx" "wanted (DictOne (Bytes [42]) DataNull) watching tx"
proof -
  obtain tx where tx: "TransactionNew (Bytes paying_bytes) = Inr tx" "TTTransactionContainsOneOf tx (DictOne (Bytes [42]) DataNull)"
    using paying_interesting by (auto split: sum.splits)
  moreover have "funded [] tx = tx" by (simp add: funded_def funding_of_def TransactionOutputOrNilAt_def)
  ultimately show thesis using that by (simp add: wanted_def)
qed

theorem add_transaction_results_witness:
  "\<exists>tx self'. TTAddTransaction (Bytes paying_bytes) watching = Some (Inr (1, self')) \<and> allTransactions self' = [tx]"
proof -
  obtain tx where tx: "TransactionNew (Bytes paying_bytes) = Inr tx" "funded [] tx = tx" "wanted (DictOne (Bytes [42]) DataNull) watching tx"
    by (rule paying_facts)
  show ?thesis
    using add_transaction_results [OF watching_facts(2,6) tx(1) refl] tx(2,3) watching_facts
    by (simp add: announce_def store_transaction_def)
qed

lemma one_stored: "\<exists>self tx. tracking self \<and> allTransactions self = [tx]"
proof -
  obtain tx where tx: "TransactionNew (Bytes paying_bytes) = Inr tx" "funded [] tx = tx" "wanted (DictOne (Bytes [42]) DataNull) watching tx"
    by (rule paying_facts)
  obtain self' where "TTAddTransaction (Bytes paying_bytes) watching = Some (Inr (1, self'))" "allTransactions self' = [tx]"
    using add_result [OF watching_facts(2,6) tx(1) refl] tx(2,3) watching_facts
    by (simp add: announce_def store_transaction_def)
  then show ?thesis using tracking_add [OF watching_facts(1)] by blast
qed

theorem tracked_arrays_parallel_witness:
  "\<exists>self tx. allTransactions self = [tx] \<and> TTTransactionForTxid self (TransactionTxid tx) = Inr (Some tx)"
proof -
  obtain self tx where s: "tracking self" "allTransactions self = [tx]" using one_stored by blast
  then show ?thesis using tracked_arrays_parallel [OF s(1), of "TransactionTxid tx"] by auto
qed

end
