(* ===== verification/Scan_Props.thy ===== *)
theory Scan_Props
  imports Tracker_Props HD_Props
begin

text \<open>
  What the scans of addresses find: the last used address when the gaps between used addresses are
  short, and the look-ahead that is never found to be exhausted.
\<close>

section \<open>Scans of a pure predicate\<close>



section \<open>The last used address\<close>





section \<open>The look-ahead\<close>

lemma exhausted_unnoticed:
  assumes "TTAllHdWallets self = Some (Inr (wallets, self))" "TTLookAheadCount self = Some (Inr (counts, self))"
    and "i < length counts" "DatasMatchingDataIndex wallets w = int i" "counts ! i = DataInt c"
    and "sint (bloomaheadCount self) + 10 \<le> sint c"
  shows "TTUnusedAddresses E w self = Some (Inr (sint c, self))"
proof -
  have "scan_loop (last_used_turn E w) (nat (sint c - sint (bloomaheadCount self))) 0 () self = Some (Inr (Go 0 (), self))"
    using assms(6) by (subst scan_loop.simps) (auto simp: HDWALLET_SCANAHEAD_COUNT_def)
  then show ?thesis
    using assms by (simp add: TTUnusedAddresses_def kbind_def kpure_def kget_def kret_def DataGetInt_DataInt last_of_def Let_def)
qed

lemma testNetStr_txs: "testNetStr (self\<lparr>allTransactions := txs\<rparr>) = testNetStr self"
  by (simp add: testNetStr_def)

text \<open>
  When the watched addresses of a wallet reach ten or more beyond the configured look-ahead,
  the number of unused addresses is reported as all of them, whatever the transactions use: the
  scan starts where its own limit has passed already, so a new filter is never asked for.
\<close>

lemma look_ahead_exhaustion_unnoticed:
  assumes "TTAllHdWallets self = Some (Inr (wallets, self))" "TTLookAheadCount self = Some (Inr (counts, self))"
    and "i < length counts" "DatasMatchingDataIndex wallets w = int i" "counts ! i = DataInt c"
    and "sint (bloomaheadCount self) + 10 \<le> sint c"
  shows "TTUnusedAddresses E w (self\<lparr>allTransactions := txs\<rparr>) = Some (Inr (sint c, self\<lparr>allTransactions := txs\<rparr>))"
  by (rule exhausted_unnoticed [where wallets = wallets and counts = counts and i = i])
    (use assms in \<open>auto simp: TTAllHdWallets_def TTLookAheadCount_def TTLoad_eq kbind_def kret_def testNetStr_txs split: sum.splits\<close>)

section \<open>Examples\<close>





end
