(* ===== verification/Transaction_Analyzer.thy ===== *)
theory Transaction_Analyzer
  imports Transaction_Props
begin

text \<open>
  The transaction analyzer of \<open>src/code/TransactionAnalyzer.c\<close>: what the transactions of a wallet
  did, as events, and the choice of events that cover a payment. A pointer to a transaction is its
  position in the analyzer's array. The cache holds one boxed array of events per transaction;
  where the code reads a box as an event, the addresses of the arrays matter and are an argument.
\<close>

section \<open>State\<close>

definition TAEventTypeDeposit :: u32 where "TAEventTypeDeposit = 1"
definition TAEventTypeWithdrawl :: u32 where "TAEventTypeWithdrawl = 2"
definition TAEventTypeChange :: u32 where "TAEventTypeChange = 4"
definition TAEventTypeUnspent :: u32 where "TAEventTypeUnspent = 8"
definition TAEventTypeTransfer :: u32 where "TAEventTypeTransfer = 16"
definition TAEventTypeFee :: u32 where "TAEventTypeFee = 32"

lemmas event_types = TAEventTypeDeposit_def TAEventTypeWithdrawl_def TAEventTypeChange_def TAEventTypeUnspent_def
  TAEventTypeTransfer_def TAEventTypeFee_def

record ta_event =
  ev_type :: u32
  ev_amount :: u64
  ev_transaction :: nat
  ev_outputIndex :: u32

record analyzer =
  an_transactions :: "transaction list"
  an_keysAndHashes :: dictionary
  eventsCache :: "ta_event list list"

fun copy_all :: "transaction list \<Rightarrow> fault + transaction list" where
  "copy_all [] = Inr []"
| "copy_all (t # ts) = (case TransactionCopy t of Inl e \<Rightarrow> Inl e
     | Inr t \<Rightarrow> (case copy_all ts of Inl e \<Rightarrow> Inl e | Inr ts \<Rightarrow> Inr (t # ts)))"

definition TANew :: "transaction list \<Rightarrow> dictionary \<Rightarrow> fault + analyzer" where
  "TANew transactions keysAndHashes =
     (case copy_all transactions of Inl e \<Rightarrow> Inl e
      | Inr array \<Rightarrow> Inr \<lparr>an_transactions = array, an_keysAndHashes = DictionaryCopy keysAndHashes, eventsCache = []\<rparr>)"

definition TAAnalyzerForTransactionsMatching :: "analyzer \<Rightarrow> (transaction \<Rightarrow> bool) \<Rightarrow> fault + analyzer" where
  "TAAnalyzerForTransactionsMatching self chooser = TANew (filter chooser (an_transactions self)) (an_keysAndHashes self)"

definition scriptDataMatches :: "dictionary \<Rightarrow> data \<Rightarrow> bool" where
  "scriptDataMatches keysAndHashes script =
     (dlength script \<noteq> 0 \<and> list_ex (\<lambda>token. dlength (tdata token) \<noteq> 0 \<and> DictionaryHasKey keysAndHashes (tdata token)) (scriptToTokens script))"

definition transactionForTxid :: "transaction list \<Rightarrow> data \<Rightarrow> transaction option" where
  "transactionForTxid txs txid = find (\<lambda>tx. DataEqual (TransactionTxid tx) txid) txs"

text \<open>Whether an input spends the output.\<close>

definition inputReferencing :: "transaction list \<Rightarrow> transaction \<Rightarrow> u32 \<Rightarrow> bool" where
  "inputReferencing txs fromTransaction index =
     list_ex (\<lambda>tx. list_ex (\<lambda>input. DataEqual (previousTransactionHash input) (TransactionTxid fromTransaction) \<and> outputIndex input = index)
       (inputs tx)) txs"

section \<open>Events\<close>

text \<open>
  Whether an input spends what belongs to the wallet. The transaction it spends from is used
  without a check that it is there; a negative index reaches in front of the array.
\<close>

definition self_funded :: "dictionary \<Rightarrow> transaction list \<Rightarrow> tx_input \<Rightarrow> fault + bool" where
  "self_funded keysAndHashes txs input =
     (case transactionForTxid txs (previousTransactionHash input) of None \<Rightarrow> Inl Fault
      | Some otherTrans \<Rightarrow>
          let index = sint (outputIndex input);
              rest = (DictionaryDoesIntersect keysAndHashes (fst (TransactionInputGetScriptTokensPushDataSet input))
                \<or> DictionaryDoesIntersect keysAndHashes (fst (TransactionOutputGetScriptTokensPushDataSet (fundingOutput input))))
          in if index < int (length (outputs otherTrans)) then
               if index < 0 then Inl Fault
               else Inr (scriptDataMatches keysAndHashes (out_script (outputs otherTrans ! nat index)) \<or> rest)
             else Inr rest)"

fun count_self_funded :: "dictionary \<Rightarrow> transaction list \<Rightarrow> tx_input list \<Rightarrow> fault + nat" where
  "count_self_funded keysAndHashes txs [] = Inr 0"
| "count_self_funded keysAndHashes txs (input # rest) = (case self_funded keysAndHashes txs input of Inl e \<Rightarrow> Inl e
     | Inr b \<Rightarrow> (case count_self_funded keysAndHashes txs rest of Inl e \<Rightarrow> Inl e | Inr n \<Rightarrow> Inr (if b then n + 1 else n)))"

definition output_event :: "analyzer \<Rightarrow> nat \<Rightarrow> bool \<Rightarrow> u32 \<Rightarrow> tx_output \<Rightarrow> ta_event" where
  "output_event self i selfFunded index output =
     (let type = (if scriptDataMatches (an_keysAndHashes self) (out_script output)
                  then (if selfFunded then TAEventTypeChange OR TAEventTypeUnspent else TAEventTypeDeposit OR TAEventTypeUnspent)
                  else if selfFunded then TAEventTypeWithdrawl else 0);
          type = (if inputReferencing (an_transactions self) (an_transactions self ! i) index then type AND NOT TAEventTypeUnspent else type)
      in \<lparr>ev_type = type, ev_amount = out_value output, ev_transaction = i, ev_outputIndex = index\<rparr>)"

fun output_events :: "analyzer \<Rightarrow> nat \<Rightarrow> bool \<Rightarrow> u32 \<Rightarrow> tx_output list \<Rightarrow> ta_event list" where
  "output_events self i selfFunded index [] = []"
| "output_events self i selfFunded index (output # rest) =
     (let event = output_event self i selfFunded index output in
      (if ev_type event \<noteq> 0 then [event] else []) @ output_events self i selfFunded (index + 1) rest)"

definition transaction_events :: "analyzer \<Rightarrow> nat \<Rightarrow> fault + ta_event list" where
  "transaction_events self i =
     (let trans = an_transactions self ! i in
      case count_self_funded (an_keysAndHashes self) (an_transactions self) (inputs trans) of Inl e \<Rightarrow> Inl e
      | Inr selfFundedInputs \<Rightarrow>
          let newEvents = output_events self i (selfFundedInputs \<noteq> 0) 0 (outputs trans);
              changeAndDepositCount = length (filter (\<lambda>output. scriptDataMatches (an_keysAndHashes self) (out_script output)) (outputs trans))
          in if changeAndDepositCount = length newEvents \<and> selfFundedInputs \<noteq> 0 then
               (case newEvents of [] \<Rightarrow> Inl Fault
                | event # _ \<Rightarrow> Inr [event\<lparr>ev_type := ev_type event OR TAEventTypeTransfer\<rparr>])
             else if selfFundedInputs \<noteq> 0 then
               Inr (newEvents @ [\<lparr>ev_type = TAEventTypeFee, ev_amount = 0, ev_transaction = i, ev_outputIndex = 0\<rparr>])
             else Inr newEvents)"

fun collect_events :: "analyzer \<Rightarrow> nat list \<Rightarrow> fault + ta_event list list" where
  "collect_events self [] = Inr []"
| "collect_events self (i # is) = (case transaction_events self i of Inl e \<Rightarrow> Inl e
     | Inr events \<Rightarrow> (case collect_events self is of Inl e \<Rightarrow> Inl e | Inr rest \<Rightarrow> Inr (events # rest)))"

definition allEvents :: "analyzer \<Rightarrow> fault + ta_event list list \<times> analyzer" where
  "allEvents self =
     (if eventsCache self \<noteq> [] then Inr (eventsCache self, self)
      else case collect_events self [0..<length (an_transactions self)] of Inl e \<Rightarrow> Inl e
        | Inr array \<Rightarrow> Inr (array, self\<lparr>eventsCache := array\<rparr>))"

text \<open>
  The elements of the cache are boxed arrays, of 16 bytes; they are read as events, of 32. The type
  is the lower half of the address of the array, and copying the event reads past the box.
\<close>

definition TAEvents :: "(ta_event list \<Rightarrow> u64) \<Rightarrow> analyzer \<Rightarrow> u32 \<Rightarrow> fault + ta_event list \<times> analyzer" where
  "TAEvents address self typeMask =
     (case allEvents self of Inl e \<Rightarrow> Inl e
      | Inr (events, self) \<Rightarrow>
          if list_ex (\<lambda>array. ucast (address array) AND typeMask \<noteq> 0) events then Inl Fault else Inr ([], self))"

definition TATotalAmount :: "ta_event list \<Rightarrow> u64" where
  "TATotalAmount events = fold (\<lambda>event amount. amount + ev_amount event) events 0"

definition TATotalBalance :: "(ta_event list \<Rightarrow> u64) \<Rightarrow> analyzer \<Rightarrow> fault + u64 \<times> analyzer" where
  "TATotalBalance address self =
     (case TAEvents address self TAEventTypeDeposit of Inl e \<Rightarrow> Inl e
      | Inr (deposits, self) \<Rightarrow> (case TAEvents address self TAEventTypeWithdrawl of Inl e \<Rightarrow> Inl e
          | Inr (withdrawals, self) \<Rightarrow> Inr (TATotalAmount deposits - TATotalAmount withdrawals, self)))"

section \<open>Covering a payment\<close>

definition DUST_LIMIT :: u64 where "DUST_LIMIT = 10000"

record payment_candidate =
  valid :: bool
  pc_events :: "ta_event list"
  pc_amount :: u64

text \<open>
  The inner loop sets the number of events to 1 and starts there; an index without an element is an
  access out of bounds. The state is the candidate's index, if any, and the surplus.
\<close>

definition try_event :: "u64 \<Rightarrow> bool \<Rightarrow> ta_event list \<Rightarrow> nat \<Rightarrow> nat option \<times> u64 \<Rightarrow> nat option \<times> u64" where
  "try_event amount second events j = (\<lambda>(candidate, extra).
     let event = events ! j in
     if ev_amount event \<ge> amount \<and> ev_amount event - amount < extra
        \<and> (second \<or> ev_amount event - amount > DUST_LIMIT \<or> ev_amount event - amount = 0)
     then (Some j, ev_amount event - amount) else (candidate, extra))"

definition candidate_pass :: "u64 \<Rightarrow> bool \<Rightarrow> ta_event list \<Rightarrow> nat option \<times> u64 \<Rightarrow> fault + nat option \<times> u64" where
  "candidate_pass amount second events st =
     (if length events < 2 then Inl Fault
      else Inr (try_event amount second events 0 (try_event amount second events 1 st)))"

definition find_candidate :: "u64 \<Rightarrow> ta_event list \<Rightarrow> fault + nat option" where
  "find_candidate amount events =
     (case candidate_pass amount False events (None, - 1) of Inl e \<Rightarrow> Inl e
      | Inr (Some j, extra) \<Rightarrow> Inr (Some j)
      | Inr (None, extra) \<Rightarrow> map_sum id fst (candidate_pass amount True events (None, extra)))"

definition no_candidate :: payment_candidate where
  "no_candidate = \<lparr>valid = False, pc_events = [], pc_amount = 0\<rparr>"

text \<open>The candidate is used before it is tested. The other events are those of an array of length 1.\<close>

function TAPaymentCandidateSearch :: "u64 \<Rightarrow> ta_event list \<Rightarrow> fault + payment_candidate" where
  "TAPaymentCandidateSearch amount events =
     (if amount = 0 \<or> events = [] then Inr no_candidate
      else case find_candidate amount events of Inl e \<Rightarrow> Inl e
        | Inr None \<Rightarrow> Inl Fault
        | Inr (Some j) \<Rightarrow>
            if ev_amount (events ! j) \<ge> amount
            then Inr \<lparr>valid = True, pc_events = [events ! j], pc_amount = amount\<rparr>
            else case TAPaymentCandidateSearch (amount - ev_amount (events ! j)) (if j = 0 then [] else take 1 events) of Inl e \<Rightarrow> Inl e
              | Inr result \<Rightarrow> Inr (result\<lparr>pc_events := pc_events result @ [events ! j], pc_amount := amount\<rparr>))"
  by pat_completeness auto
termination
proof (relation "measure (\<lambda>(amount, events). length events)")
  fix amount events v j
  assume "\<not> (amount = 0 \<or> events = [])" "find_candidate amount events = Inr v" "v = Some (j :: nat)"
  then have "2 \<le> length events" by (auto simp: find_candidate_def candidate_pass_def split: if_splits)
  then show "((amount - ev_amount (events ! j), if j = 0 then [] else take 1 events), amount, events) \<in> measure (\<lambda>(amount, events). length events)"
    by auto
qed simp

declare TAPaymentCandidateSearch.simps [simp del]

definition TAPaymentCandidateRemainder :: "payment_candidate \<Rightarrow> u64" where
  "TAPaymentCandidateRemainder self = (if pc_events self = [] then 0 else TATotalAmount (pc_events self) - pc_amount self)"

section \<open>What the events say\<close>











section \<open>The balance\<close>

lemma aligned_low_bits:
  assumes "address AND 15 = (0 :: u64)" "m AND 15 = (m :: u32)"
  shows "ucast address AND m = 0"
proof -
  have "ucast (address AND 15) = (ucast address AND 15 :: u32)" by (intro bit_word_eqI) (auto simp: bit_simps)
  then have "ucast address AND 15 = (0 :: u32)" using assms(1) by simp
  then have "(ucast address AND 15) AND m = (0 :: u32)" by simp
  then show ?thesis using assms(2) by (metis and.assoc and.commute)
qed

text \<open>
  The balance is always 0: the loop that selects events by type reads the low half of an
  address where it expects the type, and the allocator returns addresses that are multiples of 16,
  so neither deposits nor withdrawals are ever found.
\<close>

lemma balance_always_zero:
  assumes "allEvents self = Inr (events, self')" "\<forall>array. address array AND 15 = 0" "events \<noteq> []"
  shows "TATotalBalance address self = Inr (0, self')"
proof -
  have "eventsCache self' = events"
    using assms(1) by (auto simp: allEvents_def split: if_splits sum.splits)
  then have again: "allEvents self' = Inr (events, self')" using assms(3) by (simp add: allEvents_def)
  have none: "ucast (address array) AND m = (0 :: u32)" if "m = 1 \<or> m = 2" for array m
    by (rule aligned_low_bits) (use assms(2) that in auto)
  have "list_ex (\<lambda>array. ucast (address array) AND (m :: u32) \<noteq> 0) events = False" if "m = 1 \<or> m = 2" for m
    using none [OF that] by (simp add: list_ex_iff)
  then show ?thesis
    by (simp add: TATotalBalance_def TAEvents_def assms(1) again event_types TATotalAmount_def)
qed

section \<open>Payments\<close>

definition covers :: "u64 \<Rightarrow> ta_event list \<Rightarrow> nat option \<times> u64 \<Rightarrow> bool" where
  "covers amount events st = (case fst st of None \<Rightarrow> True | Some j \<Rightarrow> j < 2 \<and> amount \<le> ev_amount (events ! j))"

lemma try_event_covers:
  assumes "covers amount events st" "j < 2"
  shows "covers amount events (try_event amount second events j st)"
proof (cases st)
  case (Pair candidate extra)
  then show ?thesis
    using assms unfolding try_event_def Let_def covers_def by (simp only: prod.case split: if_split) simp
qed

lemma candidate_covers:
  assumes "find_candidate amount events = Inr (Some j)"
  shows "j < 2" "j < length events" "amount \<le> ev_amount (events ! j)"
proof -
  have l: "2 \<le> length events" using assms by (auto simp: find_candidate_def candidate_pass_def split: if_splits)
  let ?s = "\<lambda>second x. try_event amount second events 0 (try_event amount second events 1 (None, x))"
  have c: "covers amount events (?s second x)" for second x
    by (intro try_event_covers) (simp_all add: covers_def)
  have "\<not> length events < 2" using l by simp
  then have "fst (?s False (- 1)) = Some j \<or> fst (?s True (snd (?s False (- 1)))) = Some j"
    using assms unfolding find_candidate_def candidate_pass_def by (cases "?s False (- 1)") (simp split: option.splits)
  then show "j < 2" "amount \<le> ev_amount (events ! j)"
    using c [of False "- 1"] c [of True "snd (?s False (- 1))"] by (auto simp: covers_def)
  then show "j < length events" using l by simp
qed

text \<open>
  A search for events that cover a payment only ever looks at the first two: it returns one of
  them that covers the amount, and otherwise the program faults. With a single event it faults
  too, whatever that event's amount is.
\<close>

lemma payment_search_first_two:
  assumes "amount \<noteq> 0" "events \<noteq> []"
  shows "TAPaymentCandidateSearch amount events = Inl Fault \<or>
    (\<exists>j. j < 2 \<and> j < length events \<and> amount \<le> ev_amount (events ! j)
       \<and> TAPaymentCandidateSearch amount events = Inr \<lparr>valid = True, pc_events = [events ! j], pc_amount = amount\<rparr>)"
    "length events = 1 \<Longrightarrow> TAPaymentCandidateSearch amount events = Inl Fault"
    "\<forall>event \<in> set (take 2 events). ev_amount event < amount \<Longrightarrow> TAPaymentCandidateSearch amount events = Inl Fault"
proof -
  have f: "find_candidate amount events = Inl e \<Longrightarrow> e = Fault" for e
    by (auto simp: find_candidate_def candidate_pass_def split: if_splits prod.splits option.splits)
  show r: "TAPaymentCandidateSearch amount events = Inl Fault \<or>
    (\<exists>j. j < 2 \<and> j < length events \<and> amount \<le> ev_amount (events ! j)
       \<and> TAPaymentCandidateSearch amount events = Inr \<lparr>valid = True, pc_events = [events ! j], pc_amount = amount\<rparr>)"
    using assms f candidate_covers [of amount events]
    by (subst (1 2) TAPaymentCandidateSearch.simps) (auto split: sum.splits option.splits)
  show "TAPaymentCandidateSearch amount events = Inl Fault" if "length events = 1"
    using assms that by (subst TAPaymentCandidateSearch.simps) (simp add: find_candidate_def candidate_pass_def)
  show "TAPaymentCandidateSearch amount events = Inl Fault" if "\<forall>event \<in> set (take 2 events). ev_amount event < amount"
  proof -
    have "\<not> ev_amount (events ! j) \<ge> amount" if "j < 2" "j < length events" for j
    proof -
      have "events ! j \<in> set (take 2 events)" using that by (metis (no_types) in_set_conv_nth length_take min_less_iff_conj nth_take)
      then show ?thesis using \<open>\<forall>event \<in> set (take 2 events). ev_amount event < amount\<close> by (simp add: not_le)
    qed
    then show ?thesis using r by blast
  qed
qed

section \<open>Examples\<close>






lemma payment_search_example:
  "TAPaymentCandidateSearch 5 [\<lparr>ev_type = 9, ev_amount = 1, ev_transaction = 0, ev_outputIndex = 0\<rparr>,
     \<lparr>ev_type = 9, ev_amount = 2, ev_transaction = 0, ev_outputIndex = 1\<rparr>, \<lparr>ev_type = 9, ev_amount = 9, ev_transaction = 0, ev_outputIndex = 2\<rparr>] = Inl Fault"
  by (rule payment_search_first_two(3)) simp_all

end
