(* ===== verification/Node.thy ===== *)
theory Node
  imports Computations Notifications Sha256
begin

text \<open>
  One peer connection, \<open>src/code/Node.c\<close>: framing of messages, the buffers, the handshake and the
  handling of received messages. The state of a connection holds what the operating system will
  answer to the following \<open>send\<close> calls and the bytes it took. The callbacks of the delegate are an
  argument and act on the connection and on a state of their own. Buffers are contents, and a
  buffer that is freed while it is still read is a fault. Of logged errors only the number is kept.
  Opening a connection, threads and \<open>select\<close> are the operating system's; their outcomes are arguments.
\<close>

section \<open>State\<close>

text \<open>
  The answer of a non-blocking \<open>send\<close>: bytes taken, nothing for now, or an error. The fields of the struct
  that only the node manager uses are in \<open>Node_Manager\<close>.
\<close>

datatype send_result = Sent nat | Again | Failed

record node_state =
  nd_address :: data
  nd_port :: u16
  nd_testnet :: bool
  connected :: bool
  connectionReady :: bool
  curBloomFilter :: data
  verackSent :: bool
  pingSendCount :: u32
  pongRecvCount :: u32
  nd_version :: u32
  services :: u64
  connectTimestamp :: u64
  userAgent :: data
  connection :: int
  inputBuffer :: data
  outputBuffer :: data
  versionPacket :: data
  connectAttemptCount :: u32
  rejectCodes :: datas
  errors :: nat
  lastHeadersOrMerkleMessage :: u64
  sends :: "send_result list"
  wire :: bytes
  nd_center :: notifications

definition mainMagic :: bytes where "mainMagic = [0xf9, 0xbe, 0xb4, 0xd9]"
definition test3Magic :: bytes where "test3Magic = [0x0b, 0x11, 0x09, 0x07]"
definition PACKETS_PER_PROCESS :: nat where "PACKETS_PER_PROCESS = 1000"
definition NODE_VERSION :: u32 where "NODE_VERSION = 70001"
definition MAX_ALLOWED_BUFFER_BACKLOG :: nat where "MAX_ALLOWED_BUFFER_BACKLOG = 10 * 1024 * 1024"

definition NodeConnectionStatusChanged :: bytes where
  "NodeConnectionStatusChanged = c_lit ''NodeConnectionStatusChanged''"

definition NodeNew :: "data \<Rightarrow> node_state" where
  "NodeNew address = \<lparr>nd_address = DataCopyData address, nd_port = 0, nd_testnet = False, connected = False,
     connectionReady = False, curBloomFilter = DataNull, verackSent = False, pingSendCount = 0, pongRecvCount = 0,
     nd_version = 0, services = 0, connectTimestamp = 0, userAgent = DataNull, connection = - 1, inputBuffer = DataNull,
     outputBuffer = DataNull, versionPacket = DataNull, connectAttemptCount = 0, rejectCodes = [], errors = 0,
     lastHeadersOrMerkleMessage = 0, sends = [], wire = [], nd_center = note_init\<rparr>"

definition NodeReset :: "node_state \<Rightarrow> node_state" where
  "NodeReset self = self\<lparr>inputBuffer := DataNull, outputBuffer := DataNull, versionPacket := DataNull, errors := 0, rejectCodes := []\<rparr>"

definition status_changed :: "node_state \<Rightarrow> node_state" where
  "status_changed self = self\<lparr>nd_center := NotificationsFire (nd_center self) NodeConnectionStatusChanged DictNew\<rparr>"

definition NodeClose :: "node_state \<Rightarrow> node_state" where
  "NodeClose self = status_changed (NodeReset (self\<lparr>connection := - 1, connected := False, connectionReady := False,
     connectAttemptCount := connectAttemptCount self + 1\<rparr>))"

text \<open>What \<open>NodeConnect\<close> does before it starts the thread, and what the thread does with its socket.\<close>

definition NodeConnect :: "node_state \<Rightarrow> node_state" where
  "NodeConnect self = (NodeReset self)\<lparr>inputBuffer := DataNew 0, outputBuffer := DataNew 0, versionPacket := DataNew 0,
     connectAttemptCount := connectAttemptCount self + 1\<rparr>"

definition connect_port :: "node_state \<Rightarrow> u16" where
  "connect_port self = (if nd_port self \<noteq> 0 then nd_port self else if nd_testnet self then 18333 else 8333)"

definition connectionThread :: "int \<Rightarrow> u32 \<Rightarrow> node_state \<Rightarrow> node_state" where
  "connectionThread socket attemptNumber self =
     (if attemptNumber = connectAttemptCount self then status_changed (self\<lparr>connection := socket, connected := True\<rparr>) else self)"

section \<open>Sending\<close>

datatype send_end = Emptied | Blocked | Broken

text \<open>\<open>send\<close> takes at most what the buffer holds. Without a further answer it would block.\<close>

fun send_loop :: "data \<Rightarrow> send_result list \<Rightarrow> bytes \<Rightarrow> send_end \<times> data \<times> send_result list \<times> bytes" where
  "send_loop buf results out =
     (if dlength buf = 0 then (Emptied, buf, results, out)
      else case results of [] \<Rightarrow> (Blocked, buf, [], out)
        | Again # rest \<Rightarrow> (Blocked, buf, rest, out)
        | Failed # rest \<Rightarrow> (Broken, buf, rest, out)
        | Sent n # rest \<Rightarrow> (if n = 0 then (Broken, buf, rest, out)
            else send_loop (DataDelete buf 0 (min n (dlength buf))) rest (out @ take n (dbytes buf))))"

declare send_loop.simps [simp del]

definition processVersionAndOutputBuffer :: "node_state \<Rightarrow> bool \<times> node_state" where
  "processVersionAndOutputBuffer self =
     (if \<not> connected self then (False, self)
      else let (ended, buf, rest, out) = send_loop (versionPacket self) (sends self) (wire self);
               self = self\<lparr>versionPacket := buf, sends := rest, wire := out\<rparr>
        in if ended = Broken then (False, NodeClose self)
           else if dlength buf \<noteq> 0 \<or> \<not> verackSent self then (False, self)
           else let (ended, buf, rest, out) = send_loop (outputBuffer self) (sends self) (wire self);
                    self = self\<lparr>outputBuffer := buf, sends := rest, wire := out\<rparr>
             in if ended = Broken then (False, NodeClose self) else (True, self))"

definition magic_of :: "bool \<Rightarrow> bytes" where
  "magic_of net = (if net then test3Magic else mainMagic)"

definition packet_header :: "bool \<Rightarrow> bytes \<Rightarrow> data \<Rightarrow> bytes" where
  "packet_header net str payload = magic_of net @ take 12 (str @ replicate 12 0) @ le_bytes 4 (of_nat (dlength payload) :: u32)
     @ take 4 (dbytes (hash256 payload))"

definition nodeSend :: "bytes \<Rightarrow> data \<Rightarrow> node_state \<Rightarrow> bool \<times> node_state" where
  "nodeSend str payload self =
     (let payload = (if payload = DataNull then DataNew 0 else payload) in
      if length str > 12 then (False, self)
      else let header = Bytes (packet_header (nd_testnet self) str payload);
               self = (if str = c_lit ''verack'' then
                   self\<lparr>outputBuffer := DataInsert (DataInsert (outputBuffer self) 0 payload) 0 header, verackSent := True\<rparr>
                 else if str = c_lit ''version'' then
                   self\<lparr>versionPacket := DataAppend (DataAppend (versionPacket self) header) payload\<rparr>
                 else self\<lparr>outputBuffer := DataAppend (DataAppend (outputBuffer self) header) payload\<rparr>)
           in processVersionAndOutputBuffer self)"

text \<open>\<open>now\<close> is what \<open>time\<close> returns; both addresses of the header are zero.\<close>

definition NodeSendVersion :: "u64 \<Rightarrow> bool \<Rightarrow> node_state \<Rightarrow> node_state" where
  "NodeSendVersion now relayFlag self =
     snd (nodeSend (c_lit ''version'') (Bytes (le_bytes 4 NODE_VERSION @ le_bytes 8 (0 :: u64) @ le_bytes 8 now @ replicate 52 0
       @ le_bytes 8 (- 1 :: u64) @ [0] @ le_bytes 4 (0 :: u32) @ [if relayFlag then 1 else 0])) self)"

definition NodeFilterLoad :: "data \<Rightarrow> node_state \<Rightarrow> node_state" where
  "NodeFilterLoad bloom self = (snd (nodeSend (c_lit ''filterload'') bloom self))\<lparr>curBloomFilter := DataCopyData bloom\<rparr>"

definition NodeFilterClear :: "node_state \<Rightarrow> node_state" where
  "NodeFilterClear self = (snd (nodeSend (c_lit ''filterclear'') DataNull self))\<lparr>curBloomFilter := DataNull\<rparr>"

definition NodeSendTx :: "data \<Rightarrow> node_state \<Rightarrow> node_state" where
  "NodeSendTx d self = snd (nodeSend (c_lit ''tx'') d self)"

definition NodeSendHeaders :: "node_state \<Rightarrow> node_state" where
  "NodeSendHeaders self = snd (nodeSend (c_lit ''sendheaders'') DataNull self)"

definition NodeSendPing :: "node_state \<Rightarrow> node_state" where
  "NodeSendPing self =
     (let count = pingSendCount self + 1
      in (snd (nodeSend (c_lit ''ping'') (uint64D (scast count)) self))\<lparr>pingSendCount := count\<rparr>)"

definition genesis_hash :: data where
  "genesis_hash = DataFlipEndianCopy (fromHex (c_lit ''000000000019d6689c085ae165831e934ff763ae46a2a6c172b3f1b60a8ce26f''))"

definition NodeGetHeaders :: "datas \<Rightarrow> data \<Rightarrow> node_state \<Rightarrow> node_state" where
  "NodeGetHeaders knownHashes stopHash self =
     (let stopHash = (if stopHash = DataNull then DataZero 32 else stopHash);
          knownHashes = (if knownHashes = [] then [genesis_hash] else knownHashes);
          payload = DataAppend (DataNew 0) (uint32D NODE_VERSION);
          payload = DataAppend payload (varIntD (of_nat (length knownHashes)));
          payload = fold (\<lambda>h payload. DataAppend payload h) knownHashes payload;
          payload = DataAppend payload stopHash
      in snd (nodeSend (c_lit ''getheaders'') payload (self\<lparr>errors := errors self + 1\<rparr>)))"

definition NodeGetData :: "datas \<Rightarrow> node_state \<Rightarrow> node_state" where
  "NodeGetData inventoryVectors self =
     (let payload = DataAppend (DataNew 0) (varIntD (of_nat (length inventoryVectors)));
          payload = fold (\<lambda>v payload. DataAppend payload v) inventoryVectors payload
      in snd (nodeSend (c_lit ''getdata'') payload self))"

definition NodeIsEqual :: "node_state \<Rightarrow> node_state \<Rightarrow> bool" where
  "NodeIsEqual nodeOne nodeTwo = DataEqual (nd_address nodeOne) (nd_address nodeTwo)"

section \<open>Received messages\<close>

type_synonym ('s, 'a) peer = "(node_state \<times> 's, 'a) computation"

record 's delegate =
  newAddress :: "(bytes \<Rightarrow> u16 \<Rightarrow> u32 \<Rightarrow> u64 \<Rightarrow> ('s, unit) peer) option"
  merkleBlock :: "(data \<Rightarrow> ('s, unit) peer) option"
  blockHeaders :: "(datas \<Rightarrow> ('s, unit) peer) option"
  inventory :: "(datas \<Rightarrow> datas \<Rightarrow> ('s, unit) peer) option"
  tx_received :: "(data \<Rightarrow> ('s, unit) peer) option"
  message :: "(data \<Rightarrow> u8 \<Rightarrow> data \<Rightarrow> data \<Rightarrow> ('s, bool) peer) option"

definition change :: "(node_state \<Rightarrow> node_state) \<Rightarrow> ('s, unit) peer" where
  "change f = kput (apfst f)"

definition look :: "(node_state \<Rightarrow> 'a) \<Rightarrow> ('s, 'a) peer" where
  "look f = kget (\<lambda>(self, _). f self)"

definition NodeLog :: "('s, unit) peer" where
  "NodeLog = change (\<lambda>self. self\<lparr>errors := errors self + 1\<rparr>)"

definition callback :: "'f option \<Rightarrow> ('f \<Rightarrow> ('s, unit) peer) \<Rightarrow> ('s, unit) peer" where
  "callback f go = (case f of None \<Rightarrow> kret () | Some f \<Rightarrow> go f)"

text \<open>\<open>readString\<close>: the text is followed by four zero bytes; a length past the end gives null.\<close>

definition readString :: "bytes \<Rightarrow> data \<times> bytes" where
  "readString bs =
     (let (n, bs) = readVarInt bs in
      if unat n > length bs then (DataNull, bs)
      else (DataAppend (Bytes (take (unat n) bs)) (DataInt 0), drop (unat n) bs))"

definition received_version :: "bytes \<Rightarrow> ('s, unit) peer" where
  "received_version payload =
     (let (agent, rest) = readString (drop 80 payload) in
      kbind (change (\<lambda>self. self\<lparr>userAgent := agent\<rparr>)) (\<lambda>_.
      if 5 > length rest then NodeLog
      else change (\<lambda>self. snd (nodeSend (c_lit ''verack'') DataNull (self\<lparr>
        nd_version := le_word (take 4 payload), services := le_word (take 8 (drop 4 payload)),
        connectTimestamp := le_word (take 8 (drop 12 payload))\<rparr>)))))"

text \<open>The entries up to the first one that is cut short, and whether there was one.\<close>

fun read_addrs :: "nat \<Rightarrow> bytes \<Rightarrow> (u32 \<times> u64 \<times> bytes \<times> u16) list \<times> bool" where
  "read_addrs 0 bs = ([], False)"
| "read_addrs (Suc n) bs =
     (if 4 > length bs \<or> 26 > length (drop 4 bs) then ([], True)
      else let address = drop 4 bs; (rest, cut) = read_addrs n (drop 30 bs)
        in ((le_word (take 4 bs), le_word (take 8 address), take 16 (drop 8 address), le_word (rev (take 2 (drop 24 address)))) # rest, cut))"

definition received_addr :: "'s delegate \<Rightarrow> bytes \<Rightarrow> ('s, unit) peer" where
  "received_addr D payload =
     (let (count, rest) = readVarInt payload in
      if count > 1000 then NodeLog
      else let (entries, cut) = read_addrs (unat count) rest in
        kbind (kfold (\<lambda>(timestamp, services, ip, port) _. callback (newAddress D) (\<lambda>f. f ip port timestamp services)) entries ())
          (\<lambda>_. if cut then NodeLog else kret ()))"

fun read_inventory :: "nat \<Rightarrow> bytes \<Rightarrow> (data \<times> data) list option" where
  "read_inventory 0 bs = Some []"
| "read_inventory (Suc n) bs =
     (if 4 > length bs \<or> 32 > length (drop 4 bs) then None
      else map_option (\<lambda>rest. (Bytes (take 4 bs), Bytes (take 32 (drop 4 bs))) # rest) (read_inventory n (drop 36 bs)))"

definition received_inv :: "'s delegate \<Rightarrow> bytes \<Rightarrow> ('s, unit) peer" where
  "received_inv D payload =
     (let (count, rest) = readVarInt payload in
      if count > 50000 then NodeLog
      else case read_inventory (unat count) rest of None \<Rightarrow> NodeLog
        | Some items \<Rightarrow> callback (inventory D) (\<lambda>f. f (map fst items) (map snd items)))"

text \<open>The headers up to the first one that is cut short, and whether there was one.\<close>

fun read_headers :: "nat \<Rightarrow> bytes \<Rightarrow> datas \<times> bool" where
  "read_headers 0 bs = ([], False)"
| "read_headers (Suc n) bs =
     (if 80 > length bs then ([], True)
      else let rest = snd (readVarInt (drop 80 bs)) in
        if \<not> length bs - length rest > 80 then ([], True)
        else let (headers, cut) = read_headers n rest in (Bytes (take (length bs - length rest) bs) # headers, cut))"

definition received_headers :: "'s delegate \<Rightarrow> u64 \<Rightarrow> bytes \<Rightarrow> ('s, unit) peer" where
  "received_headers D now payload =
     (let (count, rest) = readVarInt payload in
      if count > 2000 then NodeLog
      else let (headers, cut) = read_headers (unat count) rest in
        kbind (change (\<lambda>self. if headers = [] then self else self\<lparr>lastHeadersOrMerkleMessage := now\<rparr>)) (\<lambda>_.
        if cut then NodeLog else callback (blockHeaders D) (\<lambda>f. f headers)))"

definition received_reject :: "'s delegate \<Rightarrow> bytes \<Rightarrow> ('s, unit) peer" where
  "received_reject D payload =
     (let (about, rest) = readString payload in
      if 1 > length rest then NodeLog
      else let ccode = rest ! 0; (reason, rest) = readString (drop 1 rest) in
        case message D of None \<Rightarrow> NodeLog
        | Some f \<Rightarrow> kbind (f about ccode reason (Bytes rest)) (\<lambda>addRejectCode.
            if addRejectCode then change (\<lambda>self. self\<lparr>rejectCodes := DatasAddCopy (rejectCodes self) (Bytes [ccode])\<rparr>) else kret ()))"

text \<open>Every entry is logged and otherwise ignored. The count is not bounded; the counter is an \<open>int\<close>.\<close>

definition received_getdata :: "bytes \<Rightarrow> ('s, unit) peer" where
  "received_getdata payload =
     (let count = fst (readVarInt payload) in
      if unat count \<ge> 2 ^ 31 then kpure (Inl Fault)
      else change (\<lambda>self. self\<lparr>errors := errors self + unat count\<rparr>))"

definition received :: "'s delegate \<Rightarrow> u64 \<Rightarrow> bytes \<Rightarrow> bytes \<Rightarrow> ('s, unit) peer" where
  "received D now command payload =
     (if command = c_lit ''version'' \<and> length payload > 80 then received_version payload
      else if command = c_lit ''verack'' then change (\<lambda>self. self\<lparr>connectionReady := True\<rparr>)
      else if command = c_lit ''ping'' then
        if 8 > length payload then NodeLog
        else change (\<lambda>self. snd (nodeSend (c_lit ''pong'') (Bytes (take 8 payload)) self))
      else if command = c_lit ''pong'' then change (\<lambda>self. self\<lparr>pongRecvCount := pongRecvCount self + 1\<rparr>)
      else if command = c_lit ''alert'' then kret ()
      else if command = c_lit ''addr'' then received_addr D payload
      else if command = c_lit ''inv'' then received_inv D payload
      else if command = c_lit ''headers'' then received_headers D now payload
      else if command = c_lit ''merkleblock'' then
        kbind (change (\<lambda>self. self\<lparr>lastHeadersOrMerkleMessage := now\<rparr>)) (\<lambda>_. callback (merkleBlock D) (\<lambda>f. f (Bytes payload)))
      else if command = c_lit ''tx'' then callback (tx_received D) (\<lambda>f. f (Bytes payload))
      else if command = c_lit ''reject'' then received_reject D payload
      else if command = c_lit ''getdata'' then received_getdata payload
      else NodeLog)"

section \<open>The input buffer\<close>

text \<open>
  Packets are read in place, in the buffer of the connection: a handler that closes the connection,
  or replaces the buffer, leaves the loop with addresses of freed memory.
\<close>

definition place :: "node_state \<Rightarrow> u32 \<times> data" where
  "place self = (connectAttemptCount self, inputBuffer self)"

definition handle :: "'s delegate \<Rightarrow> u64 \<Rightarrow> bytes \<Rightarrow> bytes \<Rightarrow> ('s, unit) peer" where
  "handle D now command payload = kbind (look place) (\<lambda>before. kbind (received D now command payload) (\<lambda>_.
     kbind (look place) (\<lambda>after. if after = before then kret () else kpure (Inl Fault))))"

fun packets_loop :: "'s delegate \<Rightarrow> u64 \<Rightarrow> nat \<Rightarrow> bytes \<Rightarrow> ('s, bytes) peer" where
  "packets_loop D now 0 bs = kret bs"
| "packets_loop D now (Suc n) bs =
     (if length bs < 24 then kret bs
      else kbind (look nd_testnet) (\<lambda>net.
        if take 4 bs \<noteq> magic_of net then packets_loop D now n (drop 1 bs)
        else let len = unat (le_word (take 4 (drop 16 bs)) :: u32) in
          if 24 + len > length bs then kret bs
          else let command = takeWhile (\<lambda>b. b \<noteq> 0) (take 12 (drop 4 bs)); payload = take len (drop 24 bs); rest = drop (24 + len) bs
            in kbind (if take 4 (drop 20 bs) \<noteq> take 4 (dbytes (hash256 (Bytes payload)))
                 then NodeLog else handle D now command payload) (\<lambda>_. packets_loop D now n rest)))"

definition processInputBuffer :: "'s delegate \<Rightarrow> u64 \<Rightarrow> ('s, unit) peer" where
  "processInputBuffer D now =
     kbind (look inputBuffer) (\<lambda>buf.
     kbind (packets_loop D now PACKETS_PER_PROCESS (dbytes buf)) (\<lambda>rest.
     change (\<lambda>self. self\<lparr>inputBuffer := DataDelete (inputBuffer self) 0 (dlength buf - length rest)\<rparr>)))"

text \<open>The answer of \<open>recv\<close>: bytes, none because the other side has closed, or an error.\<close>

definition NodeProcessRead :: "'s delegate \<Rightarrow> u64 \<Rightarrow> bytes option \<Rightarrow> ('s, unit) peer" where
  "NodeProcessRead D now answer =
     (case answer of
        Some [] \<Rightarrow> kbind NodeLog (\<lambda>_. change (\<lambda>self. status_changed (NodeClose self)))
      | None \<Rightarrow> change (\<lambda>self. status_changed (NodeClose self))
      | Some bs \<Rightarrow> kbind (look inputBuffer) (\<lambda>buf.
          if dlength buf + length bs > MAX_ALLOWED_BUFFER_BACKLOG then change NodeClose
          else kbind (change (\<lambda>self. self\<lparr>inputBuffer := DataAppend (inputBuffer self) (Bytes bs)\<rparr>)) (\<lambda>_. processInputBuffer D now)))"

text \<open>\<open>selected\<close> tells whether \<open>select\<close> found activity, and on what.\<close>

definition NodeProcessPackets :: "'s delegate \<Rightarrow> u64 \<Rightarrow> (bool \<times> bool) option \<Rightarrow> bytes option \<Rightarrow> ('s, unit) peer" where
  "NodeProcessPackets D now selected answer =
     kbind (look connection) (\<lambda>sd.
     if sd < 1 then kret ()
     else kbind (look inputBuffer) (\<lambda>buf.
       kbind (if dlength buf \<noteq> 0 then processInputBuffer D now else kret ()) (\<lambda>_.
       case selected of None \<Rightarrow> kpure (Inl Abort)
       | Some (readable, except) \<Rightarrow>
           kbind (look connection) (\<lambda>sd.
           kbind (if sd > 0 \<and> readable then NodeProcessRead D now answer else kret ()) (\<lambda>_.
           kbind (look connection) (\<lambda>sd.
           kbind (if sd > 0 \<and> except then kbind NodeLog (\<lambda>_. change NodeClose) else kret ()) (\<lambda>_.
           change (\<lambda>self. snd (processVersionAndOutputBuffer self)))))))))"

end
