(* ===== verification/Node_Props.thy ===== *)
theory Node_Props
  imports Node "HOL-Library.Sublist"
begin

text \<open>
  The wire format of a connection read back, the order of what is sent, and what goes wrong when a
  connection closes or sends its acknowledgement at a bad moment.
\<close>

section \<open>Computations\<close>

declare kret_bind [simp] bind_kret [simp] kbind_assoc [simp] kpure_bind [simp]

lemma look_bind: "kbind (look f) g (self, s) = g (f self) (self, s)"
  by (simp add: kbind_def look_def kget_def)

text \<open>A buffer that is emptied is freed, a buffer that was empty is not.\<close>

lemma DataDelete_front:
  "n \<le> length bs \<Longrightarrow> DataDelete (Bytes bs) 0 n = (if n = length bs \<and> n \<noteq> 0 then DataNull else Bytes (drop n bs))"
  by (auto simp: DataDelete_def DataShrink_def DataResize_def)

lemma look_bind_cong: "(\<And>x. g x = h x) \<Longrightarrow> kbind (look f) g = kbind (look f) h"
  by presburger

lemma change_bind: "kbind (change f) g (self, s) = g () (f self, s)"
  by (simp add: kbind_def change_def kput_def)

section \<open>Frames\<close>

text \<open>A packet on the wire: the header that \<open>nodeSend\<close> writes, and the payload.\<close>

definition frame :: "bool \<Rightarrow> bytes \<Rightarrow> bytes \<Rightarrow> bytes" where
  "frame net command payload = packet_header net command (Bytes payload) @ payload"

definition frames :: "bool \<Rightarrow> (bytes \<times> bytes) list \<Rightarrow> bytes" where
  "frames net msgs = concat (map (\<lambda>(c, p). frame net c p) msgs)"

definition good_message :: "bytes \<times> bytes \<Rightarrow> bool" where
  "good_message m = (case m of (c, p) \<Rightarrow> length c \<le> 12 \<and> 0 \<notin> set c \<and> length p < 2 ^ 32)"

text \<open>The start of a packet whose end has not been received.\<close>

definition incomplete :: "bool \<Rightarrow> bytes \<Rightarrow> bool" where
  "incomplete net bs \<longleftrightarrow> length bs < 24
     \<or> take 4 bs = magic_of net \<and> length bs < 24 + unat (le_word (take 4 (drop 16 bs)) :: u32)"

lemma length_magic [simp]: "length (magic_of net) = 4"
  by (simp add: magic_of_def mainMagic_def test3Magic_def)

lemma length_checksum [simp]: "length (dbytes (hash256 (Bytes p))) = 32"
  by (simp add: hash256_Bytes length_sha256_spec)

lemma takeWhile_padded: "0 \<notin> set c \<Longrightarrow> takeWhile (\<lambda>b. b \<noteq> 0) (c @ replicate n (0 :: u8)) = c"
  by (induction c) (auto simp: takeWhile_eq_Nil_iff)

lemma frame_parts:
  assumes "good_message (c, p)"
  shows "length (frame net c p) = 24 + length p"
    and "take 4 (frame net c p @ rest) = magic_of net"
    and "takeWhile (\<lambda>b. b \<noteq> 0) (take 12 (drop 4 (frame net c p @ rest))) = c"
    and "unat (le_word (take 4 (drop 16 (frame net c p @ rest))) :: u32) = length p"
    and "take 4 (drop 20 (frame net c p @ rest)) = take 4 (dbytes (hash256 (Bytes p)))"
    and "take (length p) (drop 24 (frame net c p @ rest)) = p"
    and "drop (24 + length p) (frame net c p @ rest) = rest"
proof -
  define name where "name = take 12 (c @ replicate 12 0)"
  define size where "size = le_bytes 4 (of_nat (length p) :: u32)"
  define sum where "sum = take 4 (dbytes (hash256 (Bytes p)))"
  have c: "length c \<le> 12" "0 \<notin> set c" "length p < 2 ^ 32" using assms by (simp_all add: good_message_def)
  have l: "length name = 12" "length size = 4" "length sum = 4" by (simp_all add: name_def size_def sum_def del: le_bytes_numeral)
  have f: "frame net c p = magic_of net @ name @ size @ sum @ p"
    by (simp add: frame_def packet_header_def name_def size_def sum_def del: le_bytes_numeral)
  have n: "takeWhile (\<lambda>b. b \<noteq> 0) name = c" using c by (simp add: name_def takeWhile_padded)
  have s: "unat (le_word size :: u32) = length p"
    using c(3) by (simp add: size_def le_word_le_bytes unat_of_nat_small del: le_bytes_numeral)
  show "length (frame net c p) = 24 + length p" using l by (simp add: f)
  show "take 4 (frame net c p @ rest) = magic_of net" by (simp add: f)
  show "takeWhile (\<lambda>b. b \<noteq> 0) (take 12 (drop 4 (frame net c p @ rest))) = c" using l n by (simp add: f)
  show "unat (le_word (take 4 (drop 16 (frame net c p @ rest))) :: u32) = length p" using l s by (simp add: f)
  show "take 4 (drop 20 (frame net c p @ rest)) = take 4 (dbytes (hash256 (Bytes p)))" using l by (simp add: f sum_def)
  show "take (length p) (drop 24 (frame net c p @ rest)) = p" using l by (simp add: f)
  show "drop (24 + length p) (frame net c p @ rest) = rest" using l by (simp add: f)
qed

lemma no_frames: "\<forall>m\<in>set msgs. good_message m \<Longrightarrow> frames net msgs = [] \<longleftrightarrow> msgs = []"
proof (cases msgs)
  case (Cons m ms)
  moreover assume "\<forall>m\<in>set msgs. good_message m"
  ultimately have "length (frame net (fst m) (snd m)) \<ge> 24" using frame_parts(1) [of "fst m" "snd m" net] by simp
  then show ?thesis by (auto simp: Cons frames_def split_beta)
qed (simp add: frames_def)

lemma loop_frame:
  assumes "good_message (c, p)" "nd_testnet self = net"
  shows "packets_loop D now (Suc n) (frame net c p @ rest) (self, s)
    = kbind (handle D now c p) (\<lambda>_. packets_loop D now n rest) (self, s)"
  using frame_parts [OF assms(1)] assms(2) by (simp add: look_bind Let_def)

lemma loop_incomplete: "incomplete (nd_testnet self) bs \<Longrightarrow> packets_loop D now n bs (self, s) = Some (Inr (bs, (self, s)))"
  by (cases n) (auto simp: look_bind Let_def incomplete_def kret_def)

text \<open>What a handler leaves alone when it succeeds, if the callbacks keep the network.\<close>

definition keeps_net :: "('s, 'a) peer \<Rightarrow> bool" where
  "keeps_net m \<longleftrightarrow> (\<forall>self s x self' s'. m (self, s) = Some (Inr (x, self', s')) \<longrightarrow> nd_testnet self' = nd_testnet self)"

definition delegate_keeps_net :: "'s delegate \<Rightarrow> bool" where
  "delegate_keeps_net D \<longleftrightarrow> pred_option (\<lambda>f. \<forall>ip port t v. keeps_net (f ip port t v)) (newAddress D)
     \<and> pred_option (\<lambda>f. \<forall>d. keeps_net (f d)) (merkleBlock D) \<and> pred_option (\<lambda>f. \<forall>hs. keeps_net (f hs)) (blockHeaders D)
     \<and> pred_option (\<lambda>f. \<forall>ts hs. keeps_net (f ts hs)) (inventory D) \<and> pred_option (\<lambda>f. \<forall>d. keeps_net (f d)) (tx_received D)
     \<and> pred_option (\<lambda>f. \<forall>m c r d. keeps_net (f m c r d)) (message D)"

named_theorems keeps

lemma keeps_kret [keeps]: "keeps_net (kret x)"
  by (simp add: keeps_net_def kret_def)

lemma keeps_kpure [keeps]: "keeps_net (kpure r)"
  by (simp add: keeps_net_def kpure_def split: sum.split)

lemma keeps_look [keeps]: "keeps_net (look f)"
  by (simp add: keeps_net_def look_def kget_def)

lemma keeps_change: "(\<And>self. nd_testnet (f self) = nd_testnet self) \<Longrightarrow> keeps_net (change f)"
  by (simp add: keeps_net_def change_def kput_def)

lemma keeps_kbind [keeps]: "keeps_net m \<Longrightarrow> (\<And>x. keeps_net (f x)) \<Longrightarrow> keeps_net (kbind m f)"
  unfolding keeps_net_def kbind_def by (fastforce split: option.splits sum.splits prod.splits)

lemma keeps_kfold [keeps]: "(\<And>x acc. keeps_net (f x acc)) \<Longrightarrow> keeps_net (kfold f xs acc)"
  by (induction xs arbitrary: acc) (auto intro: keeps)

lemma keeps_if [keeps]: "keeps_net m \<Longrightarrow> keeps_net m' \<Longrightarrow> keeps_net (if b then m else m')"
  by simp

lemma keeps_callback [keeps]: "(\<And>f. D = Some f \<Longrightarrow> keeps_net (go f)) \<Longrightarrow> keeps_net (callback D go)"
  by (simp add: callback_def keeps_kret split: option.split)

lemma net_closed [simp]: "nd_testnet (NodeClose self) = nd_testnet self" "nd_testnet (status_changed self) = nd_testnet self"
  by (simp_all add: NodeClose_def status_changed_def NodeReset_def)

lemma net_processed [simp]: "nd_testnet (snd (processVersionAndOutputBuffer self)) = nd_testnet self"
  by (simp add: processVersionAndOutputBuffer_def Let_def split: prod.split)

lemma net_sent [simp]: "nd_testnet (snd (nodeSend c p self)) = nd_testnet self"
  by (simp add: nodeSend_def Let_def)

lemma keeps_NodeLog [keeps]: "keeps_net NodeLog"
  by (simp add: NodeLog_def keeps_change)

lemma net_header_time [simp]: "nd_testnet (if b then self else self\<lparr>lastHeadersOrMerkleMessage := now\<rparr>) = nd_testnet self"
  by simp

lemma keeps_received:
  assumes "delegate_keeps_net D"
  shows "keeps_net (received D now c p)"
proof -
  have d: "\<And>f ip port t v. newAddress D = Some f \<Longrightarrow> keeps_net (f ip port t v)" "\<And>f d. merkleBlock D = Some f \<Longrightarrow> keeps_net (f d)"
    "\<And>f hs. blockHeaders D = Some f \<Longrightarrow> keeps_net (f hs)" "\<And>f ts hs. inventory D = Some f \<Longrightarrow> keeps_net (f ts hs)"
    "\<And>f d. tx_received D = Some f \<Longrightarrow> keeps_net (f d)" "\<And>f m c r d. message D = Some f \<Longrightarrow> keeps_net (f m c r d)"
    using assms by (auto simp: delegate_keeps_net_def)
  have v: "keeps_net (received_version p)"
    unfolding received_version_def by (auto intro!: keeps keeps_change split: prod.split)
  have a: "keeps_net (received_addr D p)" using d(1)
    unfolding received_addr_def by (auto simp: callback_def intro!: keeps split: prod.split option.split)
  have i: "keeps_net (received_inv D p)" using d(4)
    unfolding received_inv_def by (auto simp: callback_def intro!: keeps split: prod.split option.split)
  have h: "keeps_net (received_headers D now p)" using d(3)
    unfolding received_headers_def by (auto simp: callback_def intro!: keeps keeps_change split: prod.split option.split)
  have r: "keeps_net (received_reject D p)" using d(6)
    unfolding received_reject_def by (auto simp: Let_def intro!: keeps keeps_change split: prod.split option.split)
  have g: "keeps_net (received_getdata p)"
    unfolding received_getdata_def by (auto simp: Let_def intro!: keeps keeps_change)
  show ?thesis unfolding received_def
    by (intro keeps v a i h r g keeps_change) (simp_all add: d)
qed

lemma keeps_handle: "delegate_keeps_net D \<Longrightarrow> keeps_net (handle D now c p)"
  unfolding handle_def by (auto intro!: keeps keeps_received)

lemma loop_frames:
  assumes "delegate_keeps_net D" "\<forall>m\<in>set msgs. good_message m" "length msgs \<le> n" "incomplete net rest" "nd_testnet self = net"
  shows "packets_loop D now n (frames net msgs @ rest) (self, s)
    = kbind (kfold (\<lambda>(c, p) _. handle D now c p) msgs ()) (\<lambda>_. kret rest) (self, s)"
  using assms(2,3,5)
proof (induction msgs arbitrary: n self s)
  case Nil
  then show ?case using loop_incomplete [of self rest D now n s] assms(4) by (simp add: frames_def) (simp add: kret_def)
next
  case (Cons m msgs)
  obtain c p k where m: "m = (c, p)" "n = Suc k" using Cons.prems(2) by (cases m; cases n) auto
  have step: "packets_loop D now n (frames net (m # msgs) @ rest) (self, s)
    = kbind (handle D now c p) (\<lambda>_. packets_loop D now k (frames net msgs @ rest)) (self, s)"
    using loop_frame [of c p self net D now k "frames net msgs @ rest" s] Cons.prems by (simp add: m frames_def)
  show ?case
  proof (cases "\<exists>x self' s'. handle D now c p (self, s) = Some (Inr (x, self', s'))")
    case True
    then obtain x self' s' where r: "handle D now c p (self, s) = Some (Inr (x, self', s'))" by blast
    have "nd_testnet self' = nd_testnet self" using keeps_handle [OF assms(1)] r unfolding keeps_net_def by blast
    then have "nd_testnet self' = net" using Cons.prems(3) by simp
    with Cons.IH [of k self' s'] Cons.prems m(2) show ?thesis
      unfolding step by (simp add: kbind_run [of "handle D now c p", OF r] m(1))
  next
    case False
    then have "\<nexists>x st'. handle D now c p (self, s) = Some (Inr (x, st'))" by auto
    from kbind_stops [of "handle D now c p", OF this] show ?thesis unfolding step by (simp add: m(1))
  qed
qed

lemma handle_place: "handle D now c p (self, s) = Some (Inr (x, self', s')) \<Longrightarrow> place self' = place self"
  by (auto simp: handle_def kbind_def look_def kget_def kret_def kpure_def split: option.splits sum.splits prod.splits if_splits)

lemma handles_place:
  "kfold (\<lambda>(c, p) _. handle D now c p) msgs u (self, s) = Some (Inr (x, self', s')) \<Longrightarrow> place self' = place self"
proof (induction msgs arbitrary: u self s)
  case (Cons m msgs)
  then show ?case using handle_place
    by (cases m) (fastforce simp: kbind_def [of "handle _ _ _ _"] split: option.splits sum.splits prod.splits)
qed (simp add: kret_def)

section \<open>Framing\<close>

text \<open>
  C6. Framing. If the input buffer holds packets as \<open>nodeSend\<close> writes them, at most a thousand,
  followed by the start of a packet, then \<open>processInputBuffer\<close> handles exactly the messages that
  were framed, in order, and leaves exactly the unfinished packet in the buffer.
\<close>

theorem packets_arrive:
  assumes "delegate_keeps_net D" "\<forall>m\<in>set msgs. good_message m" "length msgs \<le> 1000" "incomplete (nd_testnet self) rest"
    and "inputBuffer self = Bytes (frames (nd_testnet self) msgs @ rest)"
  shows "processInputBuffer D now (self, s)
    = kbind (kfold (\<lambda>(c, p) _. handle D now c p) msgs ()) (\<lambda>_.
        change (\<lambda>self. self\<lparr>inputBuffer := if rest = [] \<and> msgs \<noteq> [] then DataNull else Bytes rest\<rparr>)) (self, s)"
proof -
  let ?all = "kfold (\<lambda>(c, p) _. handle D now c p) msgs ()"
  have l: "packets_loop D now PACKETS_PER_PROCESS (dbytes (inputBuffer self)) (self, s) = kbind ?all (\<lambda>_. kret rest) (self, s)"
    using loop_frames [OF assms(1,2) _ assms(4) refl, of PACKETS_PER_PROCESS now s] assms(3,5)
    by (simp add: PACKETS_PER_PROCESS_def)
  show ?thesis
  proof (cases "\<exists>x self' s'. ?all (self, s) = Some (Inr (x, self', s'))")
    case True
    then obtain x self' s' where r: "?all (self, s) = Some (Inr (x, self', s'))" by blast
    then have same: "inputBuffer self' = inputBuffer self" using handles_place [of D now msgs "()" self s] by (auto simp: place_def)
    have l': "packets_loop D now PACKETS_PER_PROCESS (dbytes (inputBuffer self)) (self, s) = Some (Inr (rest, self', s'))"
      unfolding l by (simp add: kbind_run [of ?all, OF r] kret_def)
    show ?thesis unfolding processInputBuffer_def look_bind kbind_run [of "packets_loop _ _ _ _", OF l'] kbind_run [of ?all, OF r]
      using assms(2) by (simp add: change_def kput_def same assms(5) DataDelete_front no_frames)
  next
    case False
    then have n: "\<nexists>x st'. ?all (self, s) = Some (Inr (x, st'))" by auto
    then have "\<nexists>x st'. kbind ?all (\<lambda>_. kret rest) (self, s) = Some (Inr (x, st'))"
      by (auto simp: kbind_def split: option.split sum.split)
    with n show ?thesis unfolding processInputBuffer_def look_bind
      by (auto simp: kbind_def l split: option.split sum.split)
  qed
qed

text \<open>A delegate with no callbacks, and a node with two packets and the start of a third in its buffer.\<close>

definition quiet :: "unit delegate" where
  "quiet = \<lparr>newAddress = None, merkleBlock = None, blockHeaders = None, inventory = None, tx_received = None, message = None\<rparr>"

lemma quiet_keeps: "delegate_keeps_net quiet"
  by (simp add: delegate_keeps_net_def quiet_def)

lemma handle_alert: "handle quiet now (c_lit ''alert'') p (self, s) = Some (Inr ((), self, s))"
  by (simp add: handle_def received_def look_bind c_lit_def) (simp add: kret_def)

lemma handle_pong: "handle quiet now (c_lit ''pong'') p (self, s) = Some (Inr ((), self\<lparr>pongRecvCount := pongRecvCount self + 1\<rparr>, s))"
  by (simp add: handle_def received_def look_bind change_bind c_lit_def place_def) (simp add: kret_def)

definition busy_node :: node_state where
  "busy_node = (NodeNew (Bytes []))\<lparr>inputBuffer := Bytes (frames False [(c_lit ''pong'', []), (c_lit ''alert'', [1, 2])] @ mainMagic)\<rparr>"

theorem packets_arrive_witness:
  "processInputBuffer quiet 0 (busy_node, ()) = Some (Inr ((), busy_node\<lparr>inputBuffer := Bytes mainMagic, pongRecvCount := 1\<rparr>, ()))"
proof -
  have n: "nd_testnet busy_node = False" "pongRecvCount busy_node = 0" by (simp_all add: busy_node_def NodeNew_def)
  have g: "\<forall>m\<in>set [(c_lit ''pong'', []), (c_lit ''alert'', [1, 2])]. good_message m"
    by (simp add: good_message_def) code_simp
  have i: "incomplete (nd_testnet busy_node) mainMagic" by (simp add: incomplete_def mainMagic_def)
  have b: "inputBuffer busy_node = Bytes (frames (nd_testnet busy_node) [(c_lit ''pong'', []), (c_lit ''alert'', [1, 2])] @ mainMagic)"
    unfolding n by (simp add: busy_node_def)
  show ?thesis using packets_arrive [OF quiet_keeps g _ i b, of 0 "()"]
    by (simp add: kbind_def handle_alert handle_pong change_def kput_def kret_def n mainMagic_def)
qed

section \<open>Reading in pieces\<close>










section \<open>Sending\<close>

text \<open>Everything that has been sent on the connection or waits to be, in the order of the wire.\<close>

definition stream :: "node_state \<Rightarrow> bytes" where
  "stream self = wire self @ dbytes (versionPacket self) @ dbytes (outputBuffer self)"

lemma send_loop_order:
  "send_loop buf results out = (ended, buf', rest, out') \<Longrightarrow> out' @ dbytes buf' = out @ dbytes buf"
proof (induction buf results out arbitrary: ended buf' rest out' rule: send_loop.induct)
  case (1 buf results out)
  show ?case
  proof (cases "\<exists>n rs. dlength buf \<noteq> 0 \<and> results = Sent n # rs \<and> n \<noteq> 0")
    case True
    then obtain n rs where r: "dlength buf \<noteq> 0" "results = Sent n # rs" "n \<noteq> 0" by blast
    have "out' @ dbytes buf' = (out @ take n (dbytes buf)) @ dbytes (DataDelete buf 0 (min n (dlength buf)))"
      using "1.IH" [OF r(1,2) refl r(3)] "1.prems" r by (simp add: send_loop.simps [of buf])
    also have "\<dots> = out @ dbytes buf" by (simp add: DataDelete_bytes min_def)
    finally show ?thesis .
  next
    case False
    with "1.prems" show ?thesis by (auto simp: send_loop.simps [of buf] split: if_splits list.splits send_result.splits)
  qed
qed

lemma send_loop_prefix: "send_loop buf results out = (ended, buf', rest, out') \<Longrightarrow> prefix out' (out @ dbytes buf)"
  using send_loop_order by (metis prefixI)

text \<open>Before the acknowledgement only the version packet is sent; afterwards everything is.\<close>

definition greeting :: "bytes \<Rightarrow> bytes \<Rightarrow> node_state \<Rightarrow> bool" where
  "greeting V waiting self \<longleftrightarrow> \<not> verackSent self \<and> prefix (wire self) V
     \<and> (connected self \<longrightarrow> wire self @ dbytes (versionPacket self) = V \<and> dbytes (outputBuffer self) = waiting)"

definition sending :: "bytes \<Rightarrow> node_state \<Rightarrow> bool" where
  "sending all self \<longleftrightarrow> verackSent self \<and> prefix (wire self) all \<and> (connected self \<longrightarrow> stream self = all)"

lemma closed_fields [simp]: "verackSent (NodeClose self) = verackSent self" "wire (NodeClose self) = wire self"
  "connected (NodeClose self) = False"
  by (simp_all add: NodeClose_def NodeReset_def status_changed_def)

lemma process_greeting: "greeting V waiting self \<Longrightarrow> greeting V waiting (snd (processVersionAndOutputBuffer self))"
proof -
  assume g: "greeting V waiting self"
  obtain e b r w where l: "send_loop (versionPacket self) (sends self) (wire self) = (e, b, r, w)" by (cases "send_loop (versionPacket self) (sends self) (wire self)")
  with g send_loop_order [OF l] send_loop_prefix [OF l] show ?thesis
    by (auto simp: greeting_def processVersionAndOutputBuffer_def l Let_def)
qed

lemma process_sending: "sending all self \<Longrightarrow> sending all (snd (processVersionAndOutputBuffer self))"
proof -
  assume g: "sending all self"
  obtain e b r w where l: "send_loop (versionPacket self) (sends self) (wire self) = (e, b, r, w)"
    by (cases "send_loop (versionPacket self) (sends self) (wire self)")
  obtain e' b' r' w' where l': "send_loop (outputBuffer self) r w = (e', b', r', w')" by (cases "send_loop (outputBuffer self) r w")
  have o: "w @ dbytes b @ dbytes (outputBuffer self) = stream self" "w' @ dbytes b' = w @ dbytes (outputBuffer self)"
    using send_loop_order [OF l] send_loop_order [OF l'] by (simp_all add: stream_def flip: append_assoc)
  then have p: "prefix w (stream self)" "dlength b = 0 \<Longrightarrow> prefix w' (stream self)" by (metis prefixI) (use o in \<open>metis append_Nil length_0_conv prefixI\<close>)
  show ?thesis using g o p
    by (auto simp: sending_def stream_def [of "_\<lparr>sends := _\<rparr>"] stream_def [of "_\<lparr>wire := _\<rparr>"] processVersionAndOutputBuffer_def l l' Let_def)
qed

text \<open>The messages other than those of the handshake.\<close>

definition ordinary :: "bytes \<Rightarrow> bool" where
  "ordinary c \<longleftrightarrow> length c \<le> 12 \<and> c \<noteq> c_lit ''verack'' \<and> c \<noteq> c_lit ''version''"

lemma send_greeting:
  "greeting V waiting self \<Longrightarrow> ordinary c \<Longrightarrow> greeting V (waiting @ frame (nd_testnet self) c p) (snd (nodeSend c (Bytes p) self))"
  unfolding nodeSend_def ordinary_def
  by (simp add: Let_def) (rule process_greeting, auto simp: greeting_def frame_def)

lemma send_verack:
  "greeting V waiting self
   \<Longrightarrow> sending (V @ frame (nd_testnet self) (c_lit ''verack'') [] @ waiting) (snd (nodeSend (c_lit ''verack'') DataNull self))"
  unfolding nodeSend_def
  by (simp add: Let_def c_lit_def) (rule process_sending, auto simp: greeting_def sending_def stream_def frame_def DataInsert_bytes DataNew_def)

lemma send_sending:
  "sending all self \<Longrightarrow> ordinary c \<Longrightarrow> sending (all @ frame (nd_testnet self) c p) (snd (nodeSend c (Bytes p) self))"
  unfolding nodeSend_def ordinary_def
  by (simp add: Let_def) (rule process_sending, auto simp: sending_def stream_def frame_def)

definition send_all :: "(bytes \<times> bytes) list \<Rightarrow> node_state \<Rightarrow> node_state" where
  "send_all msgs self = fold (\<lambda>(c, p) self. snd (nodeSend c (Bytes p) self)) msgs self"

lemma send_all_Cons: "send_all ((c, p) # msgs) self = send_all msgs (snd (nodeSend c (Bytes p) self))"
  by (simp add: send_all_def)

lemma send_all_net: "nd_testnet (send_all msgs self) = nd_testnet self"
proof (induction msgs arbitrary: self)
  case (Cons m msgs)
  then show ?case by (cases m) (simp add: send_all_Cons)
qed (simp add: send_all_def)

lemma all_greeting:
  "greeting V waiting self \<Longrightarrow> \<forall>(c, p)\<in>set msgs. ordinary c \<Longrightarrow> greeting V (waiting @ frames (nd_testnet self) msgs) (send_all msgs self)"
proof (induction msgs arbitrary: waiting self)
  case (Cons m msgs)
  obtain c p where m: "m = (c, p)" by (cases m)
  have "greeting V (waiting @ frame (nd_testnet self) c p) (snd (nodeSend c (Bytes p) self))" using Cons.prems by (intro send_greeting) (auto simp: m)
  from Cons.IH [OF this] Cons.prems show ?case by (simp add: m send_all_Cons frames_def)
qed (simp add: send_all_def frames_def)

lemma all_sending:
  "sending all self \<Longrightarrow> \<forall>(c, p)\<in>set msgs. ordinary c \<Longrightarrow> sending (all @ frames (nd_testnet self) msgs) (send_all msgs self)"
proof (induction msgs arbitrary: all self)
  case (Cons m msgs)
  obtain c p where m: "m = (c, p)" by (cases m)
  have "sending (all @ frame (nd_testnet self) c p) (snd (nodeSend c (Bytes p) self))" using Cons.prems by (intro send_sending) (auto simp: m)
  from Cons.IH [OF this] Cons.prems show ?case by (simp add: m send_all_Cons frames_def)
qed (simp add: send_all_def frames_def)

text \<open>A connection that has just been opened for the first time.\<close>

definition opened :: "node_state \<Rightarrow> bool" where
  "opened self \<longleftrightarrow> connected self \<and> \<not> verackSent self \<and> wire self = []
     \<and> dlength (versionPacket self) = 0 \<and> dlength (outputBuffer self) = 0"

lemma send_version:
  "opened self \<Longrightarrow> greeting (frame (nd_testnet self) (c_lit ''version'') v) [] (snd (nodeSend (c_lit ''version'') (Bytes v) self))"
  unfolding nodeSend_def
  by (simp add: Let_def c_lit_def) (rule process_greeting, auto simp: greeting_def opened_def frame_def)

text \<open>
  C7. The handshake comes first. On a new connection whatever is sent between the version and its
  acknowledgement waits: the other side receives the version packet, the acknowledgement, what was
  queued before it and what was sent after it, each packet whole and in the order of the calls,
  however few bytes the operating system takes at a time. A connection that fails has sent a prefix.
\<close>

theorem handshake_first:
  assumes "opened self" "\<forall>(c, p)\<in>set (early @ late). ordinary c"
    and "self' = send_all late (snd (nodeSend (c_lit ''verack'') DataNull
      (send_all early (snd (nodeSend (c_lit ''version'') (Bytes v) self)))))"
    and "all = frames (nd_testnet self) ((c_lit ''version'', v) # (c_lit ''verack'', []) # early @ late)"
  shows "prefix (wire self') all \<and> (connected self' \<longrightarrow> stream self' = all)"
proof -
  let ?net = "nd_testnet self" and ?v = "snd (nodeSend (c_lit ''version'') (Bytes v) self)"
  have e: "\<forall>(c, p)\<in>set early. ordinary c" and l: "\<forall>(c, p)\<in>set late. ordinary c" using assms(2) by auto
  have "greeting (frame ?net (c_lit ''version'') v) (frames ?net early) (send_all early ?v)"
    using all_greeting [OF send_version [OF assms(1), of v] e] by simp
  from send_verack [OF this] have "sending (frames ?net ((c_lit ''version'', v) # (c_lit ''verack'', []) # early))
      (snd (nodeSend (c_lit ''verack'') DataNull (send_all early ?v)))"
    by (simp add: frames_def send_all_net)
  from all_sending [OF this l] have "sending all self'" by (simp add: assms(3,4) frames_def send_all_net)
  then show ?thesis by (simp add: sending_def)
qed

definition new_node :: node_state where
  "new_node = (NodeNew (Bytes []))\<lparr>connected := True, sends := [Sent 30, Again, Sent 200, Sent 1, Again, Sent 1000]\<rparr>"

theorem handshake_first_witness:
  "let self = new_node; early = [(c_lit ''sendheaders'', [])]; late = [(c_lit ''ping'', replicate 8 7)];
       self' = send_all late (snd (nodeSend (c_lit ''verack'') DataNull
         (send_all early (snd (nodeSend (c_lit ''version'') (Bytes (replicate 86 0)) self)))));
       all = frames False ((c_lit ''version'', replicate 86 0) # (c_lit ''verack'', []) # early @ late)
   in prefix (wire self') all \<and> (connected self' \<longrightarrow> stream self' = all)"
proof -
  have o: "opened new_node" "nd_testnet new_node = False" by (simp_all add: opened_def new_node_def NodeNew_def)
  have m: "\<forall>(c, p)\<in>set ([(c_lit ''sendheaders'', [])] @ [(c_lit ''ping'', replicate 8 7)]). ordinary c"
    by (simp add: ordinary_def c_lit_def)
  show ?thesis unfolding Let_def using handshake_first [OF o(1) m refl refl, of "replicate 86 0"] unfolding o(2) .
qed

section \<open>A connection that fails, and a handshake that is repeated\<close>


lemma frame_not_empty [simp]: "frame net c p \<noteq> []"
  by (cases net) (simp_all add: frame_def packet_header_def magic_of_def mainMagic_def test3Magic_def)




text \<open>
  A second version message. The acknowledgement goes to the front of the output buffer: when
  part of a packet has been sent and the other side sends its version again, the acknowledgement
  lands inside that packet, and the other side cannot follow the stream any more.
\<close>

lemma second_version_splits_packet:
  assumes "connected self" "dlength (versionPacket self) = 0" "sends self = []"
    and "wire self = sent @ take k (frame net c p)" "dbytes (outputBuffer self) = drop k (frame net c p) @ others" "nd_testnet self = net"
    and "length payload > 80" "readString (drop 80 payload) = (agent, tail)" "length tail \<ge> 5"
  shows "\<exists>self'. received D now (c_lit ''version'') payload (self, s) = Some (Inr ((), self', s))
    \<and> stream self' = sent @ take k (frame net c p) @ frame net (c_lit ''verack'') [] @ drop k (frame net c p) @ others"
proof -
  define self1 where "self1 = self\<lparr>userAgent := agent, nd_version := le_word (take 4 payload), services := le_word (take 8 (drop 4 payload)),
    connectTimestamp := le_word (take 8 (drop 12 payload))\<rparr>"
  have r: "received D now (c_lit ''version'') payload (self, s) = Some (Inr ((), snd (nodeSend (c_lit ''verack'') DataNull self1), s))"
    using assms(7-9) by (simp add: received_def received_version_def change_bind self1_def) (simp add: change_def kput_def)
  define self2 where "self2 = self1\<lparr>outputBuffer := Bytes (frame net (c_lit ''verack'') [] @ dbytes (outputBuffer self)), verackSent := True\<rparr>"
  have i: "DataInsert (DataInsert (outputBuffer self) 0 (Bytes [])) 0 (Bytes (packet_header net (c_lit ''verack'') (Bytes [])))
    = Bytes (frame net (c_lit ''verack'') [] @ dbytes (outputBuffer self))"
  proof -
    have f: "packet_header net (c_lit ''verack'') (Bytes []) \<noteq> []" using frame_not_empty [of net "c_lit ''verack''" "[]"] by (simp add: frame_def)
    have "DataInsert d 0 (Bytes h) = Bytes (h @ dbytes d)" if "h \<noteq> []" for d h
      using that DataInsert_bytes [of 0 d "Bytes h"] by (auto simp: DataInsert_def DataGrow_def DataResize_def split: data.splits)
    from this [OF f] show ?thesis by (simp add: frame_def DataInsert_bytes)
  qed
  have "snd (nodeSend (c_lit ''verack'') DataNull self1) = snd (processVersionAndOutputBuffer self2)"
    unfolding nodeSend_def self2_def i [symmetric] by (simp add: self1_def assms(6) c_lit_def DataNew_def Let_def)
  moreover have "stream (snd (processVersionAndOutputBuffer self2)) = wire self @ frame net (c_lit ''verack'') [] @ dbytes (outputBuffer self)"
    using assms(1-3) by (simp add: processVersionAndOutputBuffer_def self2_def self1_def send_loop.simps stream_def)
  ultimately show ?thesis using r assms(4,5) by simp
qed

text \<open>
  A \<open>getdata\<close> message with a count that an \<open>int\<close> cannot hold overflows the loop's counter. Closing
  a connection does not forget that the handshake took place, and an attempt to connect that fails
  leaves the connection marked as connected.
\<close>

lemma getdata_overflows:
  "fst (readVarInt payload) \<ge> 2 ^ 31 \<Longrightarrow> received D now (c_lit ''getdata'') payload (self, s) = Some (Inl Fault)"
  by (simp add: received_def c_lit_def received_getdata_def kpure_def word_le_nat_alt)

lemma handshake_kept: "verackSent (NodeConnect (NodeClose self)) = verackSent self"
  by (simp add: NodeConnect_def NodeReset_def)

lemma failed_attempt_is_connected:
  "attempt = connectAttemptCount self \<Longrightarrow> connection (connectionThread (- 1) attempt self) = - 1 \<and> connected (connectionThread (- 1) attempt self)"
  by (simp add: connectionThread_def status_changed_def)

end
