(* ===== verification/Database.thy ===== *)
theory Database
  imports Computations Merkle_Block Notifications
begin

text \<open>
  The database of \<open>src/code/Database.c\<close>: the tables of \<open>SqlStructure.h\<close> as lists of rows in the order
  of their row ids, each SQL statement of the code as what it means on the rows, and the two caches.
  A statement fails when it violates a constraint of a table, and when it has a \<open>limit\<close> in an update
  or delete and the library was built without that extension (the field \<open>limit_clause\<close>). Other failures
  of the library, the file and the mutexes are not modelled. Rows that an order leaves equal keep the
  order of the table.
\<close>

section \<open>State\<close>

record block_row =
  b_height :: int
  b_hash :: data
  b_prefix :: u32
  b_root :: data
  b_time :: int

record tx_row =
  t_hash :: data
  t_prefix :: u32
  t_height :: int
  t_data :: data
  t_fee :: int
  t_reject :: int
  t_time :: int

record node_row =
  n_id :: int
  n_ip :: bytes
  n_port :: int
  n_services :: int
  n_date :: int
  n_testnet :: int
  n_manual :: int
  n_master :: int

record database =
  db_blocks :: "block_row list"
  db_transactions :: "tx_row list"
  db_nodes :: "node_row list"
  limit_clause :: bool
  on_testnet :: bool
  blockHeightCache :: dictionary
  nodeListCache :: "dictionary list"
  db_center :: notifications

type_synonym 'a db = "(database, 'a) computation"

definition HASH_CACHE_SIZE :: nat where "HASH_CACHE_SIZE = 15000"

definition DatabaseNewBlockNotification :: bytes where
  "DatabaseNewBlockNotification = c_lit ''DatabaseNewBlockNotification''"

definition fire :: "bytes \<Rightarrow> unit db" where
  "fire name = kput (\<lambda>db. db\<lparr>db_center := NotificationsFire (db_center db) name DictNew\<rparr>)"

text \<open>\<open>initial\<close> are the rows that the SQL text for the network inserts. A file that exists is opened as it is.\<close>

definition DatabaseNew :: "block_row list \<Rightarrow> (block_row list \<times> tx_row list \<times> node_row list) option \<Rightarrow> bool \<Rightarrow> bool \<Rightarrow> database" where
  "DatabaseNew initial file limits net =
     (let (blocks, transactions, nodes) = (case file of Some tables \<Rightarrow> tables | None \<Rightarrow> (initial, [], []))
      in \<lparr>db_blocks = blocks, db_transactions = transactions, db_nodes = nodes, limit_clause = limits, on_testnet = net,
        blockHeightCache = DictNew, nodeListCache = [], db_center = note_init\<rparr>)"

definition DatabaseResetAllBlocks :: "block_row list \<Rightarrow> database \<Rightarrow> database" where
  "DatabaseResetAllBlocks initial self = self\<lparr>db_blocks := initial, db_transactions := []\<rparr>"

section \<open>The cache of heights\<close>

definition DictRemoveIndex :: "dictionary \<Rightarrow> nat \<Rightarrow> dictionary" where
  "DictRemoveIndex dict index =
     dict\<lparr>keysAndValues := take index (keysAndValues dict) @ drop (index + 1) (keysAndValues dict)\<rparr>"

function trimBlockHeightCacheIfNeeded :: "dictionary \<Rightarrow> dictionary" where
  "trimBlockHeightCacheIfNeeded dict =
     (if DictionaryCount dict \<ge> HASH_CACHE_SIZE
      then trimBlockHeightCacheIfNeeded (DictRemoveIndex dict (DictionaryCount dict - 1)) else dict)"
  by pat_completeness auto
termination
  by (relation "measure DictionaryCount") (auto simp: DictRemoveIndex_def DictionaryCount_def HASH_CACHE_SIZE_def)

declare trimBlockHeightCacheIfNeeded.simps [simp del]

definition hash_prefix :: "data \<Rightarrow> u32" where
  "hash_prefix hash = le_word (take 4 (dbytes hash))"

text \<open>A prefix that is in the cache already gets the mark \<open>-1\<close>.\<close>

definition cache_height :: "u32 \<Rightarrow> int \<Rightarrow> unit db" where
  "cache_height prefix height = kput (\<lambda>self.
     let num = DictionaryGetValue (blockHeightCache self) (DataInt prefix);
         cache = trimBlockHeightCacheIfNeeded (blockHeightCache self)
     in self\<lparr>blockHeightCache := DictionaryAddRef cache (DataInt prefix)
          (DataInt (if dlength num \<noteq> 0 then - 1 else of_int height))\<rparr>)"

definition DatabaseFirstBlockHash :: "database \<Rightarrow> data" where
  "DatabaseFirstBlockHash self = DataFlipEndianCopy (fromHex (c_lit (if on_testnet self
     then ''000000000933ea01ad0ee984209779baaec3ced90fa3f408719526f8d77f4943''
     else ''000000000019d6689c085ae165831e934ff763ae46a2a6c172b3f1b60a8ce26f'')))"

definition block_with :: "database \<Rightarrow> data \<Rightarrow> block_row option" where
  "block_with self hash = find (\<lambda>r. DataEqual (b_hash r) hash) (filter (\<lambda>r. b_prefix r = hash_prefix hash) (db_blocks self))"

definition DatabaseHeightOf :: "data \<Rightarrow> int db" where
  "DatabaseHeightOf hash =
     (if dlength hash \<noteq> 32 then kret (- 1)
      else kbind (kget (\<lambda>self. DictionaryGetValue (blockHeightCache self) (DataInt (hash_prefix hash)))) (\<lambda>cached.
        kbind (kpure (DataGetInt cached)) (\<lambda>height.
        if sint height > 0 then kret (sint height)
        else kbind (kget (\<lambda>self. self)) (\<lambda>self.
          case block_with self hash of
            Some r \<Rightarrow> kbind (cache_height (hash_prefix hash) (b_height r)) (\<lambda>_. kret (b_height r))
          | None \<Rightarrow> kret (if DataEqual hash (DatabaseFirstBlockHash self) then 0 else - 1)))))"

definition hasBlock :: "database \<Rightarrow> data \<Rightarrow> bool" where
  "hasBlock self hash \<longleftrightarrow> dlength hash = 32 \<and> block_with self hash \<noteq> None"

section \<open>Adding blocks\<close>

definition block_at :: "database \<Rightarrow> int \<Rightarrow> block_row option" where
  "block_at self height = find (\<lambda>r. b_height r = height) (db_blocks self)"

definition store_block :: "block_row \<Rightarrow> unit db" where
  "store_block row =
     kbind (kput (\<lambda>self. self\<lparr>db_blocks := insort_key b_height row (filter (\<lambda>r. b_height r \<noteq> b_height row) (db_blocks self))\<rparr>)) (\<lambda>_.
     kbind (cache_height (b_prefix row) (b_height row)) (\<lambda>_. fire DatabaseNewBlockNotification))"

text \<open>The result comes with the block, which keeps its hash.\<close>

definition DatabaseAddBlock :: "merkle_block \<Rightarrow> (bool \<times> merkle_block) db" where
  "DatabaseAddBlock block =
     (if \<not> MerkleBlockValid block then kret (False, block)
      else kbind (DatabaseHeightOf (blockPrevHash block)) (\<lambda>prevHeight.
        if prevHeight < 0 then kbind (DatabaseHeightOf (blockPrevHash block)) (\<lambda>_. kret (False, block))
        else let height = prevHeight + 1; (hash, block) = blockHash block;
                 row = \<lparr>b_height = height, b_hash = hash, b_prefix = hash_prefix hash, b_root = merkleRoot block,
                   b_time = uint (blockTimestamp block)\<rparr>
          in kbind (kget (\<lambda>self. block_at self height)) (\<lambda>existing.
             if pred_option (\<lambda>r. DataCompare (DataFlipEndianCopy hash) (DataFlipEndianCopy (b_hash r)) < 0) existing
             then kbind (store_block row) (\<lambda>_. kret (True, block)) else kret (False, block))))"

section \<open>Questions about blocks\<close>

text \<open>\<open>max\<close> and \<open>min\<close> over no rows are null, which is read as 0.\<close>

definition sql_max :: "int list \<Rightarrow> int" where
  "sql_max xs = (if xs = [] then 0 else foldr max xs (hd xs))"

definition sql_min :: "int list \<Rightarrow> int" where
  "sql_min xs = (if xs = [] then 0 else foldr min xs (hd xs))"

definition sql_limit :: "int \<Rightarrow> 'a list \<Rightarrow> 'a list" where
  "sql_limit n xs = (if n < 0 then xs else take (nat n) xs)"

definition numBlocks :: "database \<Rightarrow> int" where
  "numBlocks self = int (length (db_blocks self))"

definition nthBlockHash :: "database \<Rightarrow> int \<Rightarrow> data \<times> int option" where
  "nthBlockHash self n = (case drop (nat n) (rev (db_blocks self)) of [] \<Rightarrow> (DataNull, None) | r # _ \<Rightarrow> (b_hash r, Some (b_height r)))"

definition DatabaseHashOf :: "database \<Rightarrow> int \<Rightarrow> data" where
  "DatabaseHashOf self height = (case block_at self height of None \<Rightarrow> DataNull | Some r \<Rightarrow> b_hash r)"

definition DatabaseHighestHeight :: "database \<Rightarrow> int" where
  "DatabaseHighestHeight self = sql_max (map b_height (db_blocks self))"

text \<open>A time is bound as a signed number.\<close>

definition DatabaseHighestBlockBeforeTime :: "database \<Rightarrow> u32 \<Rightarrow> int" where
  "DatabaseHighestBlockBeforeTime self timestamp =
     sql_max (map b_height (filter (\<lambda>r. b_time r < sint timestamp) (db_blocks self)))"

fun first_gap :: "int \<Rightarrow> int list \<Rightarrow> int option" where
  "first_gap i [] = None"
| "first_gap i (h # hs) = (if i \<noteq> h then Some (i - 1) else first_gap (i + 1) hs)"

definition DatabaseHighestHeightOrLowestMissingAfter :: "database \<Rightarrow> u32 \<Rightarrow> int" where
  "DatabaseHighestHeightOrLowestMissingAfter self timestamp =
     (let height = DatabaseHighestBlockBeforeTime self timestamp in
      case first_gap (height + 1) (map b_height (filter (\<lambda>r. b_height r > height) (db_blocks self))) of
        Some i \<Rightarrow> i | None \<Rightarrow> DatabaseHighestHeight self)"

definition timeOfHeight :: "database \<Rightarrow> int \<Rightarrow> u32" where
  "timeOfHeight self height =
     (if height < 1 then 0 else case block_at self height of None \<Rightarrow> 0 | Some r \<Rightarrow> of_int (b_time r))"

definition DatabaseNearestHeight :: "database \<Rightarrow> int \<Rightarrow> int" where
  "DatabaseNearestHeight self height =
     (let heights = map b_height (db_blocks self);
          lowerValue = sql_max (filter (\<lambda>h. h < height) heights);
          upperValue = sql_min (filter (\<lambda>h. h \<ge> height) heights)
      in if upperValue = 0 then lowerValue
         else if height - lowerValue < upperValue - height then lowerValue else upperValue)"

definition DatabaseNearestHeightToTime :: "database \<Rightarrow> u32 \<Rightarrow> int" where
  "DatabaseNearestHeightToTime self timestamp =
     (let lowerValue = DatabaseHighestBlockBeforeTime self timestamp;
          upperValue = sql_min (map b_height (filter (\<lambda>r. b_time r \<ge> sint timestamp) (db_blocks self)))
      in if upperValue = 0 then lowerValue
         else case sort_key (\<lambda>r. \<bar>sint timestamp - b_time r\<bar>)
             (filter (\<lambda>r. b_height r = lowerValue \<or> b_height r = upperValue) (db_blocks self)) of
           [] \<Rightarrow> 0 | r # _ \<Rightarrow> b_height r)"

definition DatabaseBlockHashesAbove :: "database \<Rightarrow> int \<Rightarrow> int \<Rightarrow> datas" where
  "DatabaseBlockHashesAbove self height limit =
     sql_limit limit (map b_hash (filter (\<lambda>r. b_height r > height) (db_blocks self)))"

end
