(* ===== verification/Database_Tables.thy ===== *)
theory Database_Tables
  imports Database
begin

text \<open>The tables of transactions and of nodes in \<open>src/code/Database.c\<close>, and the cached list of nodes.\<close>

section \<open>Transactions\<close>

definition DatabaseNewTxNotification :: bytes where
  "DatabaseNewTxNotification = c_lit ''DatabaseNewTxNotification''"

definition tx_matches :: "data \<Rightarrow> tx_row \<Rightarrow> bool" where
  "tx_matches hash r \<longleftrightarrow> t_prefix r = hash_prefix hash \<and> dbytes (t_hash r) = dbytes hash"

definition tx_with :: "database \<Rightarrow> data \<Rightarrow> tx_row option" where
  "tx_with self hash = find (tx_matches hash) (db_transactions self)"

text \<open>An update or delete of the row with a hash. The prefix is read from the hash without looking at its length.\<close>

definition tx_statement :: "data \<Rightarrow> (tx_row list \<Rightarrow> tx_row list) \<Rightarrow> bool db" where
  "tx_statement hash change =
     kbind (kget limit_clause) (\<lambda>ok.
     if \<not> ok then kret False
     else if dlength hash < 4 then kpure (Inl Fault)
     else kbind (kput (\<lambda>self. self\<lparr>db_transactions := change (db_transactions self)\<rparr>)) (\<lambda>_. kret True))"

definition tx_update :: "data \<Rightarrow> (tx_row \<Rightarrow> tx_row) \<Rightarrow> bool db" where
  "tx_update hash f = tx_statement hash (map (\<lambda>r. if tx_matches hash r then f r else r))"

definition DatabaseSetTransaction :: "data \<Rightarrow> int \<Rightarrow> bool db" where
  "DatabaseSetTransaction hash code = tx_update hash (\<lambda>r. r\<lparr>t_reject := code\<rparr>)"

definition DatabaseRecordTransactionFee :: "data \<Rightarrow> u64 \<Rightarrow> bool db" where
  "DatabaseRecordTransactionFee hash fee = tx_update hash (\<lambda>r. r\<lparr>t_fee := sint fee\<rparr>)"

text \<open>\<open>now\<close> is the time at which the row is inserted.\<close>

definition DatabaseAddTransaction :: "int \<Rightarrow> data \<Rightarrow> merkle_block option \<Rightarrow> bool db" where
  "DatabaseAddTransaction now d block =
     kbind (DatabaseHeightOf (case block of None \<Rightarrow> DataNull | Some b \<Rightarrow> fst (blockHash b))) (\<lambda>height.
     let hash = hash256 d in
     if hash = DataNull then kpure (Inl Fault)
     else kbind (kget (\<lambda>self. self)) (\<lambda>self.
       kbind (case find (\<lambda>r. dbytes (t_hash r) = dbytes hash) (db_transactions self) of
           None \<Rightarrow> kbind (kput (\<lambda>self. self\<lparr>db_transactions := db_transactions self @
               [\<lparr>t_hash = hash, t_prefix = hash_prefix hash, t_height = height, t_data = d, t_fee = 0, t_reject = 0, t_time = now\<rparr>]\<rparr>)) (\<lambda>_. kret True)
         | Some _ \<Rightarrow> if height > 0 then
               (case block_at self height of
                  None \<Rightarrow> kret False
                | Some b \<Rightarrow> tx_update hash (\<lambda>r. r\<lparr>t_height := height, t_time := min (t_time r) (b_time b)\<rparr>))
             else kret False) (\<lambda>added.
       if added then kbind (fire DatabaseNewTxNotification) (\<lambda>_. kret True) else kret False)))"

definition DatabaseDeleteTransaction :: "data \<Rightarrow> bool db" where
  "DatabaseDeleteTransaction hash =
     (if dlength hash < 32 then kret False
      else kbind (tx_statement hash (filter (\<lambda>r. \<not> tx_matches hash r))) (\<lambda>deleted.
        if deleted then kbind (fire DatabaseNewTxNotification) (\<lambda>_. kret True) else kret False))"

definition DatabaseTransactionForHash :: "database \<Rightarrow> data \<Rightarrow> data" where
  "DatabaseTransactionForHash self hash =
     (if dlength hash < 32 then DataNull else case tx_with self hash of None \<Rightarrow> DataNull | Some r \<Rightarrow> t_data r)"

definition DatabaseTransactionHeight :: "database \<Rightarrow> data \<Rightarrow> int" where
  "DatabaseTransactionHeight self hash =
     (if dlength hash < 32 then - 1 else case tx_with self hash of None \<Rightarrow> - 1 | Some r \<Rightarrow> t_height r)"

definition DatabaseTransactionTime :: "database \<Rightarrow> data \<Rightarrow> u32" where
  "DatabaseTransactionTime self hash =
     (if dlength hash < 32 then 0 else case tx_with self hash of None \<Rightarrow> 0 | Some r \<Rightarrow> of_int (t_time r))"

definition DatabaseAllTransactions :: "database \<Rightarrow> datas" where
  "DatabaseAllTransactions self = map t_data (db_transactions self)"

definition DatabaseTransactionsToPublish :: "int \<Rightarrow> database \<Rightarrow> datas" where
  "DatabaseTransactionsToPublish now self =
     map t_data (filter (\<lambda>r. t_height r < 1 \<and> t_time r > now - 60 * 60 * 24 * 3) (db_transactions self))"

definition DatabaseTransactionsWithNoFee :: "database \<Rightarrow> datas \<Rightarrow> datas" where
  "DatabaseTransactionsWithNoFee self hashes =
     map t_data (filter (\<lambda>r. DatasHasMatchingData hashes (t_hash r) \<noteq> 0)
       (filter (\<lambda>r. t_fee r = 0 \<and> dbytes (t_hash r) \<in> dbytes ` set hashes) (db_transactions self)))"

definition DatabaseConfirmations :: "database \<Rightarrow> data \<Rightarrow> int" where
  "DatabaseConfirmations self d =
     (let height = DatabaseTransactionHeight self d in if height < 0 then - 1 else DatabaseHighestHeight self + 1 - height)"

definition time_delta :: "int \<Rightarrow> database \<Rightarrow> tx_row \<Rightarrow> dictionary" where
  "time_delta now self r =
     (let t = t_time r; blockTime = (case block_at self (t_height r) of None \<Rightarrow> 0 | Some b \<Rightarrow> b_time b);
          confirmed = blockTime \<noteq> 0; blockTime = (if blockTime \<noteq> 0 then blockTime else now);
          dict = DictAddS DictNew (c_lit ''delta'') (DataLong (if blockTime > t then of_int (blockTime - t) else 0));
          dict = DictAddS dict (c_lit ''fee'') (DataLong (of_int (t_fee r)));
          dict = DictAddS dict (c_lit ''bytes'') (DataInt (of_nat (dlength (t_data r))))
      in DictAddS dict (c_lit ''confirmed'') (DataInt (if confirmed then 1 else 0)))"

definition DatabaseTransactionTimeDeltasFlexible :: "int \<Rightarrow> database \<Rightarrow> int \<Rightarrow> bool \<Rightarrow> dictionary list" where
  "DatabaseTransactionTimeDeltasFlexible now self limit includeRejects =
     map (time_delta now self) (sql_limit limit (sort_key (\<lambda>r. - t_time r)
       (filter (\<lambda>r. t_fee r \<noteq> 0 \<and> (includeRejects \<or> t_reject r = 0)) (db_transactions self))))"

definition DatabaseTransactionTimeDeltas :: "int \<Rightarrow> database \<Rightarrow> int \<Rightarrow> dictionary list" where
  "DatabaseTransactionTimeDeltas now self limit = DatabaseTransactionTimeDeltasFlexible now self limit True"

section \<open>Nodes\<close>

definition nodeListIndexKey :: bytes where "nodeListIndexKey = c_lit ''nodeListIndexKey''"
definition nodeListIpKey :: bytes where "nodeListIpKey = c_lit ''nodeListIpKey''"
definition nodeListPortKey :: bytes where "nodeListPortKey = c_lit ''nodeListPortKey''"
definition nodeListServicesKey :: bytes where "nodeListServicesKey = c_lit ''nodeListServicesKey''"
definition nodeListDateKey :: bytes where "nodeListDateKey = c_lit ''nodeListDateKey''"
definition nodeListTestNetKey :: bytes where "nodeListTestNetKey = c_lit ''nodeListTestNetKey''"
definition nodeListManualNodeKey :: bytes where "nodeListManualNodeKey = c_lit ''nodeListManualNodeKey''"
definition nodeListMasterNodeKey :: bytes where "nodeListMasterNodeKey = c_lit ''nodeListMasterNodeKey''"

definition DatabaseNodeListChangedNotification :: bytes where
  "DatabaseNodeListChangedNotification = c_lit ''DatabaseNodeListChangedNotification''"

definition flag :: "int \<Rightarrow> data" where
  "flag x = DataInt (if x \<noteq> 0 then 1 else 0)"

text \<open>The address gets back the zero byte that ends it.\<close>

definition node_dict :: "node_row \<Rightarrow> dictionary" where
  "node_dict r =
     (let d = Bytes (n_ip r);
          d = (if n_ip r = [] \<or> last (n_ip r) \<noteq> 0 then DataAdd d (StringNewC []) else d);
          dict = DictAddS DictNew nodeListIndexKey (DataInt (of_int (n_id r)));
          dict = DictAddS dict nodeListIpKey d;
          dict = DictAddS dict nodeListPortKey (DataInt (of_int (n_port r)));
          dict = DictAddS dict nodeListServicesKey (DataLong (of_int (n_services r)));
          dict = DictAddS dict nodeListDateKey (DataInt (of_int (n_date r)));
          dict = DictAddS dict nodeListTestNetKey (flag (n_testnet r));
          dict = DictAddS dict nodeListManualNodeKey (flag (n_manual r))
      in DictAddS dict nodeListMasterNodeKey (flag (n_master r)))"

definition on_network :: "bool \<Rightarrow> node_row \<Rightarrow> bool" where
  "on_network net r \<longleftrightarrow> n_testnet r = (if net then 1 else 0)"

definition DatabaseNodeList :: "bool \<Rightarrow> dictionary list db" where
  "DatabaseNodeList net = kbind (kget (\<lambda>self. self)) (\<lambda>self.
     if nodeListCache self \<noteq> [] then kret (map DictionaryCopy (nodeListCache self))
     else let array = map node_dict (sort_key (\<lambda>r. - n_manual r) (sort_key (\<lambda>r. - n_date r) (filter (on_network net) (db_nodes self))))
       in kbind (kput (\<lambda>self. self\<lparr>nodeListCache := array\<rparr>)) (\<lambda>_. kret array))"

definition DatabaseNodeListCount :: "database \<Rightarrow> bool \<Rightarrow> int" where
  "DatabaseNodeListCount self net =
     (if nodeListCache self \<noteq> [] then int (length (nodeListCache self)) else int (length (filter (on_network net) (db_nodes self))))"

definition int_entry :: "dictionary \<Rightarrow> bytes \<Rightarrow> fault + int" where
  "int_entry dict key = map_sum id (\<lambda>w. sint w) (DataGetInt (DictGetS dict key))"

definition long_entry :: "dictionary \<Rightarrow> bytes \<Rightarrow> fault + int" where
  "long_entry dict key = map_sum id (\<lambda>w. sint w) (DataGetLong (DictGetS dict key))"

definition next_id :: "node_row list \<Rightarrow> int" where
  "next_id rows = sql_max (map n_id rows) + 1"

definition DatabaseAddNode :: "dictionary \<Rightarrow> bool db" where
  "DatabaseAddNode node =
     (case DictGetS node nodeListIpKey of DataNull \<Rightarrow> kpure (Inl Fault) | Bytes ip \<Rightarrow>
      if 0 \<notin> set ip then kpure (Inl Fault)
      else kbind (kpure (int_entry node nodeListPortKey)) (\<lambda>port. kbind (kpure (long_entry node nodeListServicesKey)) (\<lambda>services.
        kbind (kpure (int_entry node nodeListDateKey)) (\<lambda>date. kbind (kpure (int_entry node nodeListTestNetKey)) (\<lambda>net.
        kbind (kpure (int_entry node nodeListManualNodeKey)) (\<lambda>manual. kbind (kpure (int_entry node nodeListMasterNodeKey)) (\<lambda>master.
        kbind (kput (\<lambda>self.
          let index = next_id (db_nodes self);
              row = \<lparr>n_id = index, n_ip = takeWhile (\<lambda>b. b \<noteq> 0) ip, n_port = port, n_services = services, n_date = date,
                n_testnet = net, n_manual = manual, n_master = master\<rparr>;
              dict = DictAddS (DictionaryCopy node) nodeListIndexKey (DataInt (of_int index))
          in self\<lparr>db_nodes := db_nodes self @ [row],
               nodeListCache := if manual \<noteq> 0 then dict # nodeListCache self else nodeListCache self @ [dict]\<rparr>)) (\<lambda>_.
        kbind (fire DatabaseNodeListChangedNotification) (\<lambda>_. kret True)))))))))"

text \<open>The entries of the list that have an index are dropped; reading one that is no index stops the program.\<close>

fun drop_entries :: "int \<Rightarrow> dictionary list \<Rightarrow> fault + dictionary list" where
  "drop_entries index [] = Inr []"
| "drop_entries index (dict # dicts) =
     (case int_entry dict nodeListIndexKey of Inl e \<Rightarrow> Inl e
      | Inr i \<Rightarrow> map_sum id (\<lambda>dicts. if i = index then dicts else dict # dicts) (drop_entries index dicts))"

definition DatabaseRemoveNode :: "int \<Rightarrow> bool db" where
  "DatabaseRemoveNode index =
     kbind (kget (\<lambda>self. self)) (\<lambda>self.
     if \<not> limit_clause self then kret False
     else kbind (kpure (drop_entries index (nodeListCache self))) (\<lambda>cache.
       kbind (kput (\<lambda>self. self\<lparr>db_nodes := filter (\<lambda>r. n_id r \<noteq> index) (db_nodes self), nodeListCache := cache\<rparr>)) (\<lambda>_.
       kbind (fire DatabaseNodeListChangedNotification) (\<lambda>_. kret True))))"

definition DatabaseRemoveNodeByIp :: "data \<Rightarrow> bool db" where
  "DatabaseRemoveNodeByIp ip =
     (case ip of DataNull \<Rightarrow> kpure (Inl Fault) | Bytes bs \<Rightarrow>
      if 0 \<notin> set bs then kpure (Inl Fault)
      else kbind (kput (\<lambda>self. self\<lparr>db_nodes := filter (\<lambda>r. n_ip r \<noteq> takeWhile (\<lambda>b. b \<noteq> 0) bs) (db_nodes self),
          nodeListCache := filter (\<lambda>dict. \<not> DataEqual (DictGetS dict nodeListIpKey) ip) (nodeListCache self)\<rparr>)) (\<lambda>_. kret True))"

end
