(* ===== verification/Database_Props.thy ===== *)
theory Database_Props
  imports Database_Tables
begin

text \<open>
  What the tables of the database promise, the cache of heights against the table, and where the
  caches give wrong answers.
\<close>

section \<open>The cache of heights\<close>

definition cached :: "database \<Rightarrow> u32 \<Rightarrow> int option" where
  "cached self p = map_option (\<lambda>v. sint (le_word (dbytes v) :: u32)) (dict_map (blockHeightCache self) (le_bytes 4 p))"

definition cache_ok :: "dictionary \<Rightarrow> bool" where
  "cache_ok cache \<longleftrightarrow> dict_ok cache \<and> (\<forall>v\<in>ran (dict_map cache). dlength v = 4)"

text \<open>No two stored blocks share a prefix, and what the cache says of a prefix is so in the table.\<close>

definition rows_ok :: "block_row list \<Rightarrow> bool" where
  "rows_ok rows \<longleftrightarrow> sorted_wrt (<) (map b_height rows) \<and> distinct (map b_prefix rows)
     \<and> (\<forall>r\<in>set rows. dlength (b_hash r) = 32 \<and> b_prefix r = hash_prefix (b_hash r) \<and> 0 \<le> b_height r \<and> b_height r < 2 ^ 31)"

definition truthful :: "database \<Rightarrow> bool" where
  "truthful self \<longleftrightarrow> (\<forall>p h. cached self p = Some h \<longrightarrow> h > 0 \<longrightarrow> (\<exists>r\<in>set (db_blocks self). b_prefix r = p \<and> b_height r = h))"

definition well_kept :: "database \<Rightarrow> bool" where
  "well_kept self \<longleftrightarrow> rows_ok (db_blocks self) \<and> cache_ok (blockHeightCache self) \<and> truthful self"

lemma small_prefix: "small_data (DataInt p)"
  by (simp add: small_data_def DataInt_def)

lemma DataInt_word: "le_word (dbytes (DataInt p)) = p"
  by (simp add: DataInt_def le_word_le_bytes del: le_bytes_numeral)

lemma cached_update:
  "cached (self\<lparr>blockHeightCache := cache\<rparr>) p = map_option (\<lambda>v. sint (le_word (dbytes v) :: u32)) (dict_map cache (le_bytes 4 p))"
  by (simp add: cached_def)

lemma take_entries_ok:
  assumes "cache_ok dict"
  shows "cache_ok (dict\<lparr>keysAndValues := take n (keysAndValues dict)\<rparr>)"
    and "dict_map (dict\<lparr>keysAndValues := take n (keysAndValues dict)\<rparr>) \<subseteq>\<^sub>m dict_map dict"
proof -
  let ?kvs = "keysAndValues dict" and ?d = "dict\<lparr>keysAndValues := take n (keysAndValues dict)\<rparr>"
  have o: "dict_ok dict" "\<forall>v\<in>ran (dict_map dict). dlength v = 4" using assms by (simp_all add: cache_ok_def)
  have "map_of (by_bytes (take n ?kvs)) \<subseteq>\<^sub>m map_of (by_bytes (take n ?kvs @ drop n ?kvs))"
    using sorted_keys_distinct [OF o(1)] unfolding append_take_drop_id
    by (metis (no_types, lifting) by_bytes_simps(3,5) append_take_drop_id map_add_comm map_le_map_add map_of_append
      distinct_append list.set_map map_append dom_map_of_conv_image_fst)
  then show m: "dict_map ?d \<subseteq>\<^sub>m dict_map dict" by (simp add: dict_map_def)
  have "sorted_wrt (<) (map fst (by_bytes (take n ?kvs)))"
    using o(1) sorted_wrt_take unfolding dict_ok_def by (metis by_bytes_simps(5) take_map)
  then have "dict_ok ?d" using o(1) by (auto simp: dict_ok_def dest: in_set_takeD)
  moreover have "ran (dict_map ?d) \<subseteq> ran (dict_map dict)" using m by (auto simp: map_le_def ran_def) (metis domI)
  ultimately show "cache_ok ?d" using o(2) by (auto simp: cache_ok_def)
qed

lemma trim_take: "\<exists>n. trimBlockHeightCacheIfNeeded dict = dict\<lparr>keysAndValues := take n (keysAndValues dict)\<rparr>"
proof (induction dict rule: trimBlockHeightCacheIfNeeded.induct)
  case (1 dict)
  show ?case
  proof (cases "DictionaryCount dict \<ge> HASH_CACHE_SIZE")
    case True
    let ?less = "DictRemoveIndex dict (DictionaryCount dict - 1)"
    have l: "?less = dict\<lparr>keysAndValues := take (DictionaryCount dict - 1) (keysAndValues dict)\<rparr>"
      by (simp add: DictRemoveIndex_def DictionaryCount_def)
    obtain n where t: "trimBlockHeightCacheIfNeeded ?less = ?less\<lparr>keysAndValues := take n (keysAndValues ?less)\<rparr>" using 1 [OF True] by blast
    have "trimBlockHeightCacheIfNeeded dict = trimBlockHeightCacheIfNeeded ?less"
      by (subst trimBlockHeightCacheIfNeeded.simps) (simp add: True)
    also have "\<dots> = dict\<lparr>keysAndValues := take (min n (DictionaryCount dict - 1)) (keysAndValues dict)\<rparr>"
      unfolding t unfolding l by simp
    finally show ?thesis by blast
  next
    case False
    then show ?thesis by (subst trimBlockHeightCacheIfNeeded.simps) (auto intro: exI [of _ "length (keysAndValues dict)"])
  qed
qed

lemma trim_ok:
  assumes "cache_ok dict"
  shows "cache_ok (trimBlockHeightCacheIfNeeded dict)" "dict_map (trimBlockHeightCacheIfNeeded dict) \<subseteq>\<^sub>m dict_map dict"
  using take_entries_ok [OF assms] trim_take [of dict] by metis+

lemma lookup_cached:
  assumes "cache_ok (blockHeightCache self)"
  shows "DataGetInt (DictionaryGetValue (blockHeightCache self) (DataInt p)) = Inr (of_int (case cached self p of None \<Rightarrow> 0 | Some h \<Rightarrow> h))"
    and "dlength (DictionaryGetValue (blockHeightCache self) (DataInt p)) = (case cached self p of None \<Rightarrow> 0 | Some _ \<Rightarrow> 4)"
proof -
  have k: "dbytes (DataInt p) = le_bytes 4 p" by (simp add: DataInt_def del: le_bytes_numeral)
  have d: "dict_ok (blockHeightCache self)" using assms by (simp add: cache_ok_def)
  have l: "DictionaryGetValue (blockHeightCache self) (DataInt p)
    = (case dict_map (blockHeightCache self) (le_bytes 4 p) of Some v \<Rightarrow> v | None \<Rightarrow> DataNull)"
    by (simp add: DictionaryGetValue_def lookup_map [OF d small_prefix] k del: le_bytes_numeral)
  have n: "dlength v = 4" if "dict_map (blockHeightCache self) (le_bytes 4 p) = Some v" for v
    using that assms by (auto simp: cache_ok_def ran_def)
  show "DataGetInt (DictionaryGetValue (blockHeightCache self) (DataInt p)) = Inr (of_int (case cached self p of None \<Rightarrow> 0 | Some h \<Rightarrow> h))"
    using n by (auto simp: l cached_def DataGetInt_def simp del: le_bytes_numeral split: option.split data.split)
  show "dlength (DictionaryGetValue (blockHeightCache self) (DataInt p)) = (case cached self p of None \<Rightarrow> 0 | Some _ \<Rightarrow> 4)"
    using n by (auto simp: l cached_def simp del: le_bytes_numeral split: option.split)
qed

lemma cache_height_works:
  assumes c: "cache_ok (blockHeightCache self)" and h: "0 \<le> h" "h < 2 ^ 31"
  shows "\<exists>cache. cache_height p h self = Some (Inr ((), self\<lparr>blockHeightCache := cache\<rparr>)) \<and> cache_ok cache
    \<and> cached (self\<lparr>blockHeightCache := cache\<rparr>) p = Some (if cached self p = None then h else - 1)
    \<and> (\<forall>q. q \<noteq> p \<longrightarrow> cached (self\<lparr>blockHeightCache := cache\<rparr>) q \<in> {None, cached self q})"
proof -
  let ?trim = "trimBlockHeightCacheIfNeeded (blockHeightCache self)"
  let ?v = "if cached self p = None then h else - 1"
  let ?cache = "DictionaryAddRef ?trim (DataInt p) (DataInt (of_int ?v))"
  have t: "cache_ok ?trim" "dict_map ?trim \<subseteq>\<^sub>m dict_map (blockHeightCache self)" using trim_ok [OF c] by auto
  have k: "dbytes (DataInt p) = le_bytes 4 p" by (simp add: DataInt_def del: le_bytes_numeral)
  have i: "dict_ok ?cache" "dict_map ?cache = (dict_map ?trim)(le_bytes 4 p \<mapsto> DataInt (of_int ?v))"
    using insert_ok_map [of ?trim "DataInt p"] t(1) small_prefix by (simp_all add: cache_ok_def k del: le_bytes_numeral)
  have v: "sint (of_int ?v :: u32) = ?v" using h by (auto simp: signed_of_int signed_take_bit_int_eq_self)
  have "le_word (le_bytes 4 q) = q" for q :: u32 by (rule le_word_le_bytes) simp
  then have inj: "le_bytes 4 q = le_bytes 4 p \<longleftrightarrow> q = p" for q :: u32 by metis
  have "cache_ok ?cache" using t(1) i by (auto simp: cache_ok_def ran_def DataInt_def)
  moreover have "cached (self\<lparr>blockHeightCache := ?cache\<rparr>) p = Some ?v"
  proof -
    have "cached (self\<lparr>blockHeightCache := ?cache\<rparr>) p = map_option (\<lambda>v. sint (le_word (dbytes v) :: u32)) (Some (DataInt (of_int ?v)))"
      by (simp only: cached_update i(2) fun_upd_same)
    then show ?thesis by (simp only: option.map DataInt_word v)
  qed
  moreover have "cached (self\<lparr>blockHeightCache := ?cache\<rparr>) q \<in> {None, cached self q}" if "q \<noteq> p" for q
  proof -
    have "dict_map ?cache (le_bytes 4 q) = dict_map ?trim (le_bytes 4 q)" using that by (simp add: i(2) inj del: le_bytes_numeral)
    moreover have "dict_map ?trim (le_bytes 4 q) \<in> {None, dict_map (blockHeightCache self) (le_bytes 4 q)}"
      using t(2) by (auto simp: map_le_def simp del: le_bytes_numeral split: option.splits)
    ultimately show ?thesis by (auto simp: cached_def simp del: le_bytes_numeral)
  qed
  moreover have "cache_height p h self = Some (Inr ((), self\<lparr>blockHeightCache := ?cache\<rparr>))"
    using lookup_cached(2) [OF c, of p] by (auto simp: cache_height_def kput_def Let_def split: option.splits)
  ultimately show ?thesis by blast
qed

text \<open>What the table alone says of a hash.\<close>

definition height_in :: "database \<Rightarrow> data \<Rightarrow> int" where
  "height_in self hash = (case find (\<lambda>r. dbytes (b_hash r) = dbytes hash) (db_blocks self) of
     Some r \<Rightarrow> b_height r | None \<Rightarrow> if dbytes hash = dbytes (DatabaseFirstBlockHash self) then 0 else - 1)"

definition unambiguous :: "database \<Rightarrow> data \<Rightarrow> bool" where
  "unambiguous self hash \<longleftrightarrow> (\<forall>r\<in>set (db_blocks self). b_prefix r = hash_prefix hash \<longrightarrow> dbytes (b_hash r) = dbytes hash)"

lemma DataEqual_small: "dlength a < 2 ^ 31 \<Longrightarrow> dlength b < 2 ^ 31 \<Longrightarrow> DataEqual a b \<longleftrightarrow> dbytes a = dbytes b"
  by (simp add: DataEqual_def DataCompare_0_iff small_data_def)

lemma first_hash_length: "dlength (DatabaseFirstBlockHash self) = 32"
proof -
  have "dlength (fromHex (c_lit ''000000000933ea01ad0ee984209779baaec3ced90fa3f408719526f8d77f4943'')) = 32"
    "dlength (fromHex (c_lit ''000000000019d6689c085ae165831e934ff763ae46a2a6c172b3f1b60a8ce26f'')) = 32" by code_simp+
  then show ?thesis by (simp add: DatabaseFirstBlockHash_def)
qed

lemma find_filter_sub: "(\<And>x. x \<in> set xs \<Longrightarrow> P x \<Longrightarrow> Q x) \<Longrightarrow> find P (filter Q xs) = find P xs"
  by (induction xs) auto

lemma find_cong_set: "(\<And>x. x \<in> set xs \<Longrightarrow> P x = Q x) \<Longrightarrow> find P xs = find Q xs"
  by (induction xs) auto

lemma block_with_found:
  assumes "rows_ok (db_blocks self)" "dlength hash = 32"
  shows "block_with self hash = find (\<lambda>r. dbytes (b_hash r) = dbytes hash) (db_blocks self)"
proof -
  have r: "dlength (b_hash r) = 32 \<and> b_prefix r = hash_prefix (b_hash r)" if "r \<in> set (db_blocks self)" for r
    using assms(1) that by (auto simp: rows_ok_def)
  have "block_with self hash = find (\<lambda>r. dbytes (b_hash r) = dbytes hash) (filter (\<lambda>r. b_prefix r = hash_prefix hash) (db_blocks self))"
    unfolding block_with_def by (rule find_cong_set) (use r assms(2) in \<open>auto simp: DataEqual_small\<close>)
  also have "\<dots> = find (\<lambda>r. dbytes (b_hash r) = dbytes hash) (db_blocks self)"
  proof (rule find_filter_sub)
    fix x assume x: "x \<in> set (db_blocks self)" "dbytes (b_hash x) = dbytes hash"
    show "b_prefix x = hash_prefix hash" using r [OF x(1)] x(2) by (simp add: hash_prefix_def)
  qed
  finally show ?thesis .
qed

lemma find_unique: "x \<in> set xs \<Longrightarrow> P x \<Longrightarrow> (\<And>y. y \<in> set xs \<Longrightarrow> P y \<Longrightarrow> y = x) \<Longrightarrow> find P xs = Some x"
proof (induction xs)
  case (Cons a xs)
  show ?case
  proof (cases "P a")
    case True
    have "a = x" by (rule Cons.prems(3)) (simp_all add: True)
    with True show ?thesis by simp
  next
    case False
    then have "x \<in> set xs" using Cons.prems(1,2) by auto
    then have "find P xs = Some x" using Cons.prems(2,3) by (intro Cons.IH) simp_all
    with False show ?thesis by simp
  qed
qed simp

lemma same_prefix_row:
  "rows_ok rows \<Longrightarrow> r \<in> set rows \<Longrightarrow> r' \<in> set rows \<Longrightarrow> b_prefix r = b_prefix r' \<Longrightarrow> r = r'"
  by (auto simp: rows_ok_def distinct_map inj_on_def)

lemma stored_found:
  assumes "rows_ok (db_blocks self)" "r \<in> set (db_blocks self)"
  shows "find (\<lambda>r'. dbytes (b_hash r') = dbytes (b_hash r)) (db_blocks self) = Some r"
proof (rule find_unique [OF assms(2) refl])
  fix y assume y: "y \<in> set (db_blocks self)" "dbytes (b_hash y) = dbytes (b_hash r)"
  have "b_prefix y = hash_prefix (b_hash y)" "b_prefix r = hash_prefix (b_hash r)" using assms y(1) by (simp_all add: rows_ok_def)
  then have "b_prefix y = b_prefix r" using y(2) by (simp add: hash_prefix_def)
  then show "y = r" using same_prefix_row assms y by blast
qed

lemma truthful_cache:
  assumes "truthful self" "\<forall>q. q \<noteq> p \<longrightarrow> cached (self\<lparr>blockHeightCache := cache\<rparr>) q \<in> {None, cached self q}"
    and "cached (self\<lparr>blockHeightCache := cache\<rparr>) p = Some h" "h > 0 \<Longrightarrow> \<exists>r\<in>set (db_blocks self). b_prefix r = p \<and> b_height r = h"
  shows "truthful (self\<lparr>blockHeightCache := cache\<rparr>)"
proof -
  have "\<exists>r\<in>set (db_blocks self). b_prefix r = q \<and> b_height r = k"
    if "cached (self\<lparr>blockHeightCache := cache\<rparr>) q = Some k" "k > 0" for q k
  proof (cases "q = p")
    case False
    with assms(2) that(1) have "cached self q = Some k" by force
    then show ?thesis using assms(1) that(2) by (auto simp: truthful_def)
  qed (use assms(3,4) that in auto)
  then show ?thesis by (simp add: truthful_def)
qed

text \<open>
  The cache of heights is transparent. As long as no two stored blocks share the first four
  bytes of their hashes and no block has been replaced, \<open>DatabaseHeightOf\<close> answers for every hash
  whose first four bytes are not those of another block what the table says, 0 for the first block
  of the network and -1 for an unknown hash, and it keeps the cache consistent with the table.
\<close>

lemma height_of_works:
  assumes "well_kept self" "dlength hash = 32" "unambiguous self hash"
  shows "\<exists>cache. DatabaseHeightOf hash self = Some (Inr (height_in self hash, self\<lparr>blockHeightCache := cache\<rparr>))
    \<and> well_kept (self\<lparr>blockHeightCache := cache\<rparr>)"
proof -
  let ?p = "hash_prefix hash"
  have k: "rows_ok (db_blocks self)" "cache_ok (blockHeightCache self)" "truthful self" using assms(1) by (simp_all add: well_kept_def)
  let ?c = "of_int (case cached self ?p of None \<Rightarrow> 0 | Some h \<Rightarrow> h) :: u32"
  have c: "sint ?c = (case cached self ?p of None \<Rightarrow> 0 | Some h \<Rightarrow> h)"
    by (cases "cached self ?p") (auto simp: cached_def)
  have start: "DatabaseHeightOf hash self = (if sint ?c > 0 then Some (Inr (sint ?c, self)) else
    (case block_with self hash of
       Some r \<Rightarrow> kbind (cache_height ?p (b_height r)) (\<lambda>_. kret (b_height r))
     | None \<Rightarrow> kret (if DataEqual hash (DatabaseFirstBlockHash self) then 0 else - 1)) self)"
    using assms(2) by (simp add: DatabaseHeightOf_def kbind_def kget_def kpure_def lookup_cached(1) [OF k(2)] kret_def)
  show ?thesis
  proof (cases "sint ?c > 0")
    case True
    then obtain h where h: "cached self ?p = Some h" "h > 0" by (auto simp: c split: option.splits)
    then obtain r where r: "r \<in> set (db_blocks self)" "b_prefix r = ?p" "b_height r = h" using k(3) by (auto simp: truthful_def)
    then have "dbytes (b_hash r) = dbytes hash" using assms(3) by (simp add: unambiguous_def)
    with stored_found [OF k(1) r(1)] have "height_in self hash = h" by (simp add: height_in_def r(3))
    moreover have "sint ?c = h" using c h(1) by simp
    ultimately show ?thesis using True assms(1) unfolding start by (intro exI [of _ "blockHeightCache self"]) simp
  next
    case False
    show ?thesis
    proof (cases "block_with self hash")
      case None
      have f: "dlength (DatabaseFirstBlockHash self) < 2 ^ 31" by (simp add: first_hash_length)
      have "height_in self hash = (if DataEqual hash (DatabaseFirstBlockHash self) then 0 else - 1)"
        using None block_with_found [OF k(1) assms(2)] f assms(2) by (simp add: height_in_def DataEqual_small)
      then show ?thesis unfolding start using False None assms(1)
        by (intro exI [of _ "blockHeightCache self"]) (simp add: kret_def)
    next
      case (Some r)
      then have r: "find (\<lambda>r. dbytes (b_hash r) = dbytes hash) (db_blocks self) = Some r"
        using block_with_found [OF k(1) assms(2)] by simp
      then have in_table: "r \<in> set (db_blocks self)" "dbytes (b_hash r) = dbytes hash" by (auto simp: find_Some_iff)
      then have hr: "0 \<le> b_height r" "b_height r < 2 ^ 31" "b_prefix r = hash_prefix (b_hash r)" using k(1) by (simp_all add: rows_ok_def)
      then have hp: "b_prefix r = ?p" using in_table(2) by (simp add: hash_prefix_def)
      obtain cache where cache: "cache_height ?p (b_height r) self = Some (Inr ((), self\<lparr>blockHeightCache := cache\<rparr>))" "cache_ok cache"
        "cached (self\<lparr>blockHeightCache := cache\<rparr>) ?p = Some (if cached self ?p = None then b_height r else - 1)"
        "\<forall>q. q \<noteq> ?p \<longrightarrow> cached (self\<lparr>blockHeightCache := cache\<rparr>) q \<in> {None, cached self q}"
        using cache_height_works [OF k(2) hr(1,2), of ?p] by blast
      have "truthful (self\<lparr>blockHeightCache := cache\<rparr>)"
        by (rule truthful_cache [OF k(3) cache(4,3)]) (use in_table(1) hp in \<open>auto split: if_splits\<close>)
      then have "well_kept (self\<lparr>blockHeightCache := cache\<rparr>)" using k cache(2) by (simp add: well_kept_def)
      moreover have "height_in self hash = b_height r" by (simp add: height_in_def r)
      ultimately show ?thesis unfolding start using False Some cache(1) by (auto simp: kbind_def kret_def)
    qed
  qed
qed

section \<open>Adding a chain of headers\<close>

definition header_hash :: "merkle_block \<Rightarrow> data" where
  "header_hash block = hash256 (DataCopyDataPart (mb_data block) 0 80)"

definition row_of :: "int \<Rightarrow> merkle_block \<Rightarrow> block_row" where
  "row_of height block = \<lparr>b_height = height, b_hash = header_hash block, b_prefix = hash_prefix (header_hash block),
     b_root = merkleRoot block, b_time = uint (blockTimestamp block)\<rparr>"

definition fresh_block :: "merkle_block \<Rightarrow> bool" where
  "fresh_block block \<longleftrightarrow> MerkleBlockValid block \<and> hashCache block = DataNull"

lemma valid_long: "MerkleBlockValid block \<Longrightarrow> 80 \<le> dlength (mb_data block)"
  by (auto simp: MerkleBlockValid_def Let_def split: if_splits)

lemma header_hash_length: "dlength (header_hash block) = 32"
  by (simp add: header_hash_def DataCopyDataPart_def hash256_Bytes length_sha256_spec)

lemma fresh_parts:
  assumes "fresh_block block"
  shows "fst (blockHash block) = header_hash block" "dlength (blockPrevHash block) = 32"
    "blockTimestamp (snd (blockHash block)) = blockTimestamp block" "merkleRoot (snd (blockHash block)) = merkleRoot block"
  using valid_long [of block] assms
  by (simp_all add: fresh_block_def blockHash_def header_hash_def Let_def blockPrevHash_def DataCopyDataPart_def blockTimestamp_def
      block_u32_def merkleRoot_def)

lemma insort_top: "\<forall>y\<in>set xs. f y < f x \<Longrightarrow> insort_key f x xs = xs @ [x]"
  by (induction xs) auto

lemma block_at_None: "block_at self height = None \<longleftrightarrow> (\<forall>r\<in>set (db_blocks self). b_height r \<noteq> height)"
  by (auto simp: block_at_def find_None_iff)

lemma store_on_top:
  assumes "well_kept self" "\<forall>r\<in>set (db_blocks self). b_height r < h" "0 \<le> h" "h < 2 ^ 31"
    and "\<forall>r\<in>set (db_blocks self). b_prefix r \<noteq> hash_prefix (header_hash block)"
  shows "\<exists>self'. store_block (row_of h block) self = Some (Inr ((), self')) \<and> db_blocks self' = db_blocks self @ [row_of h block]
    \<and> well_kept self' \<and> on_testnet self' = on_testnet self"
proof -
  let ?row = "row_of h block"
  let ?self = "self\<lparr>db_blocks := db_blocks self @ [?row]\<rparr>"
  have k: "rows_ok (db_blocks self)" "cache_ok (blockHeightCache self)" "truthful self" using assms(1) by (simp_all add: well_kept_def)
  have "filter (\<lambda>r. b_height r \<noteq> h) (db_blocks self) = db_blocks self" using assms(2) by (intro filter_True) auto
  moreover have bh: "b_height ?row = h" by (simp add: row_of_def)
  ultimately have ins: "insort_key b_height ?row (filter (\<lambda>r. b_height r \<noteq> h) (db_blocks self)) = db_blocks self @ [?row]"
    using assms(2) by (simp add: insort_top)
  have rows: "rows_ok (db_blocks self @ [?row])"
    using k(1) assms(2-5) by (auto simp: rows_ok_def row_of_def sorted_wrt_append header_hash_length)
  obtain cache where cache: "cache_height (b_prefix ?row) h ?self = Some (Inr ((), ?self\<lparr>blockHeightCache := cache\<rparr>))" "cache_ok cache"
    "cached (?self\<lparr>blockHeightCache := cache\<rparr>) (b_prefix ?row) = Some (if cached ?self (b_prefix ?row) = None then h else - 1)"
    "\<forall>q. q \<noteq> b_prefix ?row \<longrightarrow> cached (?self\<lparr>blockHeightCache := cache\<rparr>) q \<in> {None, cached ?self q}"
    using cache_height_works [of ?self h "b_prefix ?row"] k(2) assms(3,4) by auto
  have t: "truthful ?self" using k(3) by (auto simp: truthful_def cached_def)
  have "truthful (?self\<lparr>blockHeightCache := cache\<rparr>)"
    by (rule truthful_cache [OF t cache(4,3)]) (auto simp: row_of_def split: if_splits)
  then have w: "well_kept (?self\<lparr>blockHeightCache := cache\<rparr>)" using rows cache(2) by (simp add: well_kept_def)
  let ?final = "?self\<lparr>blockHeightCache := cache, db_center := NotificationsFire (db_center self) DatabaseNewBlockNotification DictNew\<rparr>"
  have "well_kept ?final" using w by (simp add: well_kept_def truthful_def cached_def)
  moreover have "store_block ?row self = Some (Inr ((), ?final))"
    unfolding store_block_def by (simp add: kbind_def kput_def fire_def bh ins cache(1))
  ultimately show ?thesis by (intro exI [of _ ?final]) simp
qed

lemma add_on_top:
  assumes "well_kept self" "fresh_block block" "unambiguous self (blockPrevHash block)" "height_in self (blockPrevHash block) = t" "0 \<le> t"
    and "\<forall>r\<in>set (db_blocks self). b_height r \<le> t" "t + 1 < 2 ^ 31" "\<forall>r\<in>set (db_blocks self). b_prefix r \<noteq> hash_prefix (header_hash block)"
  shows "\<exists>block' self'. DatabaseAddBlock block self = Some (Inr ((True, block'), self'))
    \<and> db_blocks self' = db_blocks self @ [row_of (t + 1) block] \<and> well_kept self' \<and> on_testnet self' = on_testnet self"
proof -
  have v: "MerkleBlockValid block" using assms(2) by (simp add: fresh_block_def)
  obtain cache where h: "DatabaseHeightOf (blockPrevHash block) self = Some (Inr (t, self\<lparr>blockHeightCache := cache\<rparr>))"
    "well_kept (self\<lparr>blockHeightCache := cache\<rparr>)"
    using height_of_works [OF assms(1) fresh_parts(2) [OF assms(2)] assms(3)] assms(4) by auto
  obtain self' where st: "store_block (row_of (t + 1) block) (self\<lparr>blockHeightCache := cache\<rparr>) = Some (Inr ((), self'))"
    "db_blocks self' = db_blocks self @ [row_of (t + 1) block]" "well_kept self'" "on_testnet self' = on_testnet self"
    using store_on_top [OF h(2), of "t + 1" block] assms(5-8) by fastforce
  have row: "(case blockHash block of (hash, b) \<Rightarrow> \<lparr>b_height = t + 1, b_hash = hash, b_prefix = hash_prefix hash, b_root = merkleRoot b,
      b_time = uint (blockTimestamp b)\<rparr>) = row_of (t + 1) block"
    using fresh_parts [OF assms(2)] by (cases "blockHash block") (simp add: row_of_def)
  have n: "block_at (self\<lparr>blockHeightCache := cache\<rparr>) (t + 1) = None" using assms(6) by (fastforce simp: block_at_None)
  obtain hash b where bh: "blockHash block = (hash, b)" by (cases "blockHash block")
  have "DatabaseAddBlock block self = Some (Inr ((True, b), self'))"
    using v assms(5) n st(1) row by (simp add: DatabaseAddBlock_def kbind_def h(1) bh kget_def Let_def kret_def)
  with st show ?thesis by blast
qed

text \<open>Blocks each of which follows the one in front of it, the first one following \<open>prev\<close>.\<close>

fun linked :: "data \<Rightarrow> merkle_block list \<Rightarrow> bool" where
  "linked prev [] \<longleftrightarrow> True"
| "linked prev (b # bs) \<longleftrightarrow> fresh_block b \<and> dbytes (blockPrevHash b) = dbytes prev \<and> linked (header_hash b) bs"

definition add_blocks :: "merkle_block list \<Rightarrow> bool list \<Rightarrow> bool list db" where
  "add_blocks = kfold (\<lambda>block results. kbind (DatabaseAddBlock block) (\<lambda>(added, _). kret (results @ [added])))"

fun chain_rows :: "int \<Rightarrow> merkle_block list \<Rightarrow> block_row list" where
  "chain_rows t [] = []"
| "chain_rows t (b # bs) = row_of (t + 1) b # chain_rows (t + 1) bs"

lemma chain_rows_nth: "i < length bs \<Longrightarrow> chain_rows t bs ! i = row_of (t + 1 + int i) (bs ! i)"
  by (induction t bs arbitrary: i rule: chain_rows.induct) (auto simp: nth_Cons algebra_simps split: nat.split)

lemma chain_rows_length [simp]: "length (chain_rows t bs) = length bs"
  by (induction t bs rule: chain_rows.induct) auto

lemma height_in_cong: "dbytes a = dbytes b \<Longrightarrow> height_in self a = height_in self b"
  by (simp add: height_in_def)

lemma unambiguous_cong: "dbytes a = dbytes b \<Longrightarrow> unambiguous self a = unambiguous self b"
  by (simp add: unambiguous_def hash_prefix_def)

lemma stored_unambiguous:
  "rows_ok (db_blocks self) \<Longrightarrow> r \<in> set (db_blocks self) \<Longrightarrow> unambiguous self (b_hash r)"
  using same_prefix_row by (fastforce simp: unambiguous_def rows_ok_def)

lemma blocks_on_top:
  assumes "well_kept self" "linked tip bs" "unambiguous self tip" "height_in self tip = t" "0 \<le> t"
    and "\<forall>r\<in>set (db_blocks self). b_height r \<le> t" "t + int (length bs) < 2 ^ 31"
    and "distinct (map b_prefix (db_blocks self) @ map (\<lambda>b. hash_prefix (header_hash b)) bs)"
  shows "\<exists>self'. add_blocks bs results self = Some (Inr (results @ replicate (length bs) True, self'))
    \<and> db_blocks self' = db_blocks self @ chain_rows t bs \<and> well_kept self' \<and> on_testnet self' = on_testnet self"
  using assms
proof (induction bs arbitrary: self tip t results)
  case Nil
  then show ?case by (auto simp: add_blocks_def kret_def)
next
  case (Cons b bs)
  have b: "fresh_block b" "dbytes (blockPrevHash b) = dbytes tip" "linked (header_hash b) bs" using Cons.prems(2) by simp_all
  have "\<forall>r\<in>set (db_blocks self). b_prefix r \<noteq> hash_prefix (header_hash b)" using Cons.prems(8) by (force simp: image_iff)
  moreover have "t + 1 < 2 ^ 31" using Cons.prems(7) by simp
  moreover have "unambiguous self (blockPrevHash b)" "height_in self (blockPrevHash b) = t"
    using Cons.prems(3,4) unambiguous_cong [OF b(2)] height_in_cong [OF b(2)] by simp_all
  ultimately obtain b' self1 where s1: "DatabaseAddBlock b self = Some (Inr ((True, b'), self1))"
    "db_blocks self1 = db_blocks self @ [row_of (t + 1) b]" "well_kept self1" "on_testnet self1 = on_testnet self"
    using add_on_top [OF Cons.prems(1) b(1) _ _ Cons.prems(5,6)] by blast
  have in_rows: "row_of (t + 1) b \<in> set (db_blocks self1)" using s1(2) by simp
  have rows: "rows_ok (db_blocks self1)" using s1(3) by (simp add: well_kept_def)
  have bh: "b_hash (row_of (t + 1) b) = header_hash b" by (simp add: row_of_def)
  have u: "unambiguous self1 (header_hash b)" using stored_unambiguous [OF rows in_rows] by (simp add: bh)
  have h: "height_in self1 (header_hash b) = t + 1" using stored_found [OF rows in_rows] by (simp add: height_in_def bh row_of_def)
  have "\<forall>r\<in>set (db_blocks self1). b_height r \<le> t + 1" using Cons.prems(6) by (force simp: s1(2) row_of_def)
  moreover have "distinct (map b_prefix (db_blocks self1) @ map (\<lambda>b. hash_prefix (header_hash b)) bs)"
    using Cons.prems(8) by (auto simp: s1(2) row_of_def)
  ultimately obtain self' where s': "add_blocks bs (results @ [True]) self1 = Some (Inr ((results @ [True]) @ replicate (length bs) True, self'))"
    "db_blocks self' = db_blocks self1 @ chain_rows (t + 1) bs" "well_kept self'" "on_testnet self' = on_testnet self1"
    using Cons.IH [OF s1(3) b(3) u h, of "results @ [True]"] Cons.prems(5,7) by (auto simp: algebra_simps)
  have "add_blocks (b # bs) results self = add_blocks bs (results @ [True]) self1"
    by (simp add: add_blocks_def kbind_def s1(1) kret_def)
  with s' s1 show ?case by simp
qed

lemma last_highest: "sorted_wrt (<) (map b_height rows) \<Longrightarrow> r \<in> set rows \<Longrightarrow> b_height r \<le> b_height (last rows)"
  by (induction rows rule: rev_induct) (auto simp: sorted_wrt_append)

lemma highest_of: "sorted_wrt (<) (map b_height rows) \<Longrightarrow> rows \<noteq> [] \<Longrightarrow> sql_max (map b_height rows) = b_height (last rows)"
proof -
  have f: "foldr max xs (m :: int) = Max (insert m (set xs))" for xs m
    by (induction xs) (auto simp: insert_commute [of m] simp flip: Max_insert)
  assume s: "sorted_wrt (<) (map b_height rows)" and n: "rows \<noteq> []"
  from last_highest [OF s] have "Max (set (map b_height rows)) = b_height (last rows)" using n by (intro Max_eqI) auto
  moreover have "insert (hd (map b_height rows)) (set (map b_height rows)) = set (map b_height rows)" using n by (cases rows) auto
  ultimately show ?thesis using n by (simp add: sql_max_def f)
qed

lemma chain_built:
  assumes "well_kept self" "linked tip bs" "unambiguous self tip" "height_in self tip = t" "0 \<le> t"
    and "\<forall>r\<in>set (db_blocks self). b_height r \<le> t" "t + int (length bs) < 2 ^ 31"
    and "distinct (map b_prefix (db_blocks self) @ map (\<lambda>b. hash_prefix (header_hash b)) bs)"
  shows "\<exists>self'. add_blocks bs [] self = Some (Inr (replicate (length bs) True, self')) \<and> well_kept self'
    \<and> DatabaseHighestHeight self' = t + int (length bs)
    \<and> (\<forall>i<length bs. DatabaseHashOf self' (t + 1 + int i) = header_hash (bs ! i)
        \<and> height_in self' (header_hash (bs ! i)) = t + 1 + int i)"
proof -
  obtain self' where s': "add_blocks bs [] self = Some (Inr (replicate (length bs) True, self'))"
    "db_blocks self' = db_blocks self @ chain_rows t bs" "well_kept self'"
    using blocks_on_top [OF assms, of "[]"] by auto
  have k: "rows_ok (db_blocks self')" using s'(3) by (simp add: well_kept_def)
  have at: "DatabaseHashOf self' (t + 1 + int i) = header_hash (bs ! i) \<and> height_in self' (header_hash (bs ! i)) = t + 1 + int i"
    if i: "i < length bs" for i
  proof -
    have r: "row_of (t + 1 + int i) (bs ! i) \<in> set (db_blocks self')"
      using nth_mem [of i "chain_rows t bs"] i by (simp add: s'(2) chain_rows_nth)
    have "block_at self' (t + 1 + int i) = Some (row_of (t + 1 + int i) (bs ! i))"
      unfolding block_at_def
    proof (rule find_unique [OF r])
      fix y assume "y \<in> set (db_blocks self')" "b_height y = t + 1 + int i"
      then show "y = row_of (t + 1 + int i) (bs ! i)"
        using k r by (auto simp: rows_ok_def strict_sorted_iff distinct_map inj_on_def row_of_def)
    qed (simp add: row_of_def)
    moreover have "height_in self' (header_hash (bs ! i)) = t + 1 + int i"
      using stored_found [OF k r] by (simp add: height_in_def row_of_def)
    ultimately show ?thesis by (simp add: DatabaseHashOf_def row_of_def)
  qed
  have "DatabaseHighestHeight self' = t + int (length bs)"
  proof (cases "db_blocks self' = []")
    case True
    then have "db_blocks self = []" "bs = []" using s'(2) by (cases bs; simp)+
    then have "t = 0" using assms(4,5) by (auto simp: height_in_def split: if_splits)
    with True \<open>bs = []\<close> show ?thesis by (simp add: DatabaseHighestHeight_def sql_max_def)
  next
    case False
    have top: "DatabaseHighestHeight self' = b_height (last (db_blocks self'))"
      using highest_of [OF _ False] k by (simp add: DatabaseHighestHeight_def rows_ok_def)
    show ?thesis
    proof (cases bs rule: rev_cases)
      case Nil
      then have same: "db_blocks self' = db_blocks self" using s'(2) by simp
      have le: "b_height r \<le> b_height (last (db_blocks self'))" if "r \<in> set (db_blocks self')" for r
        by (rule last_highest) (use that k in \<open>simp_all add: rows_ok_def\<close>)
      have l: "last (db_blocks self') \<in> set (db_blocks self')" using False by simp
      then have "b_height (last (db_blocks self')) \<le> t" "0 \<le> b_height (last (db_blocks self'))"
        using assms(6) k by (simp_all add: same rows_ok_def)
      moreover have "t \<le> b_height (last (db_blocks self'))"
      proof (cases "find (\<lambda>r. dbytes (b_hash r) = dbytes tip) (db_blocks self)")
        case None
        then have "t = 0" using assms(4,5) by (simp add: height_in_def split: if_splits)
        then show ?thesis using \<open>0 \<le> b_height (last (db_blocks self'))\<close> by simp
      next
        case (Some r)
        then have "b_height r = t" using assms(4) by (simp add: height_in_def)
        moreover have "r \<in> set (db_blocks self')" using Some by (auto simp: same find_Some_iff)
        ultimately show ?thesis using le by blast
      qed
      ultimately show ?thesis unfolding top using Nil by simp
    next
      case (snoc xs b)
      then have "last (chain_rows t bs) = row_of (t + int (length bs)) b"
        using chain_rows_nth [of "length xs" bs t] by (subst last_conv_nth) (auto simp: add.assoc simp flip: length_greater_0_conv)
      moreover have "chain_rows t bs \<noteq> []" using snoc by (simp flip: length_greater_0_conv)
      ultimately show ?thesis unfolding top s'(2) by (simp add: row_of_def)
    qed
  qed
  with s' at show ?thesis by blast
qed

text \<open>
  C8. Following the chain. Headers that arrive in order, each naming the one before it and the first
  naming the highest known block (the first block of the network if there is none), are all added:
  each at the height after its predecessor, found there by height and by hash, and the last of them
  is the highest block.
\<close>

theorem headers_build_chain:
  assumes "well_kept self" "linked tip bs" "unambiguous self tip" "height_in self tip = t" "0 \<le> t"
    and "\<forall>r\<in>set (db_blocks self). b_height r \<le> t" "t + int (length bs) < 2 ^ 31"
    and "distinct (map b_prefix (db_blocks self) @ map (\<lambda>b. hash_prefix (header_hash b)) bs)"
  shows "\<exists>self'. add_blocks bs [] self = Some (Inr (replicate (length bs) True, self')) \<and> well_kept self'
    \<and> DatabaseHighestHeight self' = t + int (length bs)
    \<and> (\<forall>i<length bs. DatabaseHashOf self' (t + 1 + int i) = header_hash (bs ! i)
        \<and> height_in self' (header_hash (bs ! i)) = t + 1 + int i)"
  by (rule chain_built [OF assms])

definition first_block :: merkle_block where
  "first_block = MerkleBlockNew (Bytes (replicate 4 1 @ rev (dbytes (fromHex (c_lit ''000000000019d6689c085ae165831e934ff763ae46a2a6c172b3f1b60a8ce26f''))) @ replicate 44 7))"

lemma first_block_ok: "MerkleBlockValid first_block" "hashCache first_block = DataNull"
  "dbytes (blockPrevHash first_block) = dbytes (DatabaseFirstBlockHash (DatabaseNew [] None False False))"
proof -
  let ?hex = "fromHex (c_lit ''000000000019d6689c085ae165831e934ff763ae46a2a6c172b3f1b60a8ce26f'')"
  have l: "dlength ?hex = 32" by code_simp
  have m: "dlength (mb_data first_block) = 80" using l by (simp add: first_block_def MerkleBlockNew_def)
  then show "MerkleBlockValid first_block" by (simp add: MerkleBlockValid_def merkleHashes_def)
  show "hashCache first_block = DataNull" by (simp add: first_block_def MerkleBlockNew_def)
  show "dbytes (blockPrevHash first_block) = dbytes (DatabaseFirstBlockHash (DatabaseNew [] None False False))"
    using m l by (simp add: blockPrevHash_def DataCopyDataPart_def DatabaseFirstBlockHash_def DatabaseNew_def)
      (simp add: first_block_def MerkleBlockNew_def)
qed

lemma new_database_kept: "well_kept (DatabaseNew [] None limits net)"
  by (simp add: well_kept_def DatabaseNew_def rows_ok_def cache_ok_def truthful_def cached_def)

theorem headers_build_chain_witness:
  "\<exists>self'. add_blocks [first_block] [] (DatabaseNew [] None False False) = Some (Inr ([True], self')) \<and> DatabaseHighestHeight self' = 1
    \<and> DatabaseHashOf self' 1 = header_hash first_block \<and> height_in self' (header_hash first_block) = 1"
proof -
  let ?self = "DatabaseNew [] None False False"
  have b: "db_blocks ?self = []" by (simp add: DatabaseNew_def)
  have "linked (blockPrevHash first_block) [first_block]" using first_block_ok by (simp add: fresh_block_def)
  moreover have "height_in ?self (blockPrevHash first_block) = 0" using first_block_ok(3) by (simp add: height_in_def b)
  moreover have "unambiguous ?self (blockPrevHash first_block)" by (simp add: unambiguous_def b)
  ultimately have "\<exists>self'. add_blocks [first_block] [] ?self = Some (Inr ([True], self')) \<and> well_kept self' \<and> DatabaseHighestHeight self' = 1
    \<and> DatabaseHashOf self' 1 = header_hash first_block \<and> height_in self' (header_hash first_block) = 1"
    using headers_build_chain [OF new_database_kept, of "blockPrevHash first_block" "[first_block]" False False 0] by (simp add: b)
  then show ?thesis by blast
qed

section \<open>Where the cache is wrong\<close>

lemma cached_answer:
  assumes "cache_ok (blockHeightCache self)" "cached self (hash_prefix hash) = Some h" "h > 0" "dlength hash = 32"
  shows "DatabaseHeightOf hash self = Some (Inr (h, self))"
proof -
  have "sint (of_int h :: u32) = h" using assms(2) by (auto simp: cached_def)
  then show ?thesis
    using assms by (simp add: DatabaseHeightOf_def kbind_def kget_def kpure_def lookup_cached(1) [OF assms(1)] kret_def)
qed

text \<open>
  C19. Four bytes decide. Once \<open>DatabaseHeightOf\<close> has looked up a stored block, every hash that
  starts with the same four bytes has that block's height, whether it is stored or not, and so does
  the block itself after \<open>DatabaseResetAllBlocks\<close> has deleted it: the cache answers without the rest
  of the hash and is not emptied.
\<close>

theorem unknown_hash_has_height:
  assumes "well_kept self" "r \<in> set (db_blocks self)" "b_height r > 0" "cached self (b_prefix r) = None"
    and "dlength hash = 32" "hash_prefix hash = b_prefix r"
  shows "\<exists>self'. DatabaseHeightOf (b_hash r) self = Some (Inr (b_height r, self'))
    \<and> DatabaseHeightOf hash self' = Some (Inr (b_height r, self'))
    \<and> DatabaseHeightOf (b_hash r) (DatabaseResetAllBlocks [] self') = Some (Inr (b_height r, DatabaseResetAllBlocks [] self'))"
proof -
  have k: "rows_ok (db_blocks self)" "cache_ok (blockHeightCache self)" using assms(1) by (simp_all add: well_kept_def)
  have r: "dlength (b_hash r) = 32" "b_prefix r = hash_prefix (b_hash r)" "0 \<le> b_height r" "b_height r < 2 ^ 31"
    using k(1) assms(2) by (auto simp: rows_ok_def)
  obtain cache where cache: "cache_height (b_prefix r) (b_height r) self = Some (Inr ((), self\<lparr>blockHeightCache := cache\<rparr>))" "cache_ok cache"
    "cached (self\<lparr>blockHeightCache := cache\<rparr>) (b_prefix r) = Some (b_height r)"
    using cache_height_works [OF k(2) r(3,4), of "b_prefix r"] assms(4) by auto
  let ?self = "self\<lparr>blockHeightCache := cache\<rparr>"
  have "block_with self (b_hash r) = Some r" using block_with_found [OF k(1) r(1)] stored_found [OF k(1) assms(2)] by simp
  then have "DatabaseHeightOf (b_hash r) self = Some (Inr (b_height r, ?self))"
    using r(1) cache(1) assms(4) by (simp add: DatabaseHeightOf_def kbind_def kget_def kpure_def lookup_cached(1) [OF k(2)] kret_def flip: r(2))
  moreover have "DatabaseHeightOf hash ?self = Some (Inr (b_height r, ?self))"
    using cache(2,3) assms(3,5,6) by (intro cached_answer) simp_all
  moreover have "DatabaseHeightOf (b_hash r) (DatabaseResetAllBlocks [] ?self) = Some (Inr (b_height r, DatabaseResetAllBlocks [] ?self))"
    using cache(2,3) assms(3) r(1,2) by (intro cached_answer) (simp_all add: DatabaseResetAllBlocks_def cached_def)
  ultimately show ?thesis by blast
qed

definition example_row :: block_row where
  "example_row = \<lparr>b_height = 7, b_hash = Bytes (replicate 32 5), b_prefix = hash_prefix (Bytes (replicate 32 5)), b_root = Bytes [], b_time = 0\<rparr>"

theorem unknown_hash_has_height_witness:
  "\<exists>self'. DatabaseHeightOf (b_hash example_row) (DatabaseNew [example_row] None False False) = Some (Inr (7, self'))
    \<and> DatabaseHeightOf (Bytes (replicate 4 5 @ replicate 28 0)) self' = Some (Inr (7, self'))"
proof -
  let ?self = "DatabaseNew [example_row] None False False"
  have w: "well_kept ?self"
    by (simp add: well_kept_def DatabaseNew_def rows_ok_def cache_ok_def truthful_def cached_def example_row_def)
  have "hash_prefix (Bytes (replicate 4 5 @ replicate 28 0)) = b_prefix example_row" by (simp add: hash_prefix_def example_row_def)
  moreover have "cached ?self p = None" for p by (simp add: cached_def DatabaseNew_def)
  ultimately show ?thesis
    using unknown_hash_has_height [OF w, of example_row "Bytes (replicate 4 5 @ replicate 28 0)"]
    by (auto simp: DatabaseNew_def example_row_def)
qed

section \<open>Gaps\<close>

lemma first_gap_Some:
  assumes "first_gap i hs = Some j" "sorted_wrt (<) hs" "\<forall>h\<in>set hs. i \<le> h"
  shows "i \<le> j + 1 \<and> (\<forall>h. i \<le> h \<longrightarrow> h \<le> j \<longrightarrow> h \<in> set hs) \<and> j + 1 \<notin> set hs"
  using assms
proof (induction i hs rule: first_gap.induct)
  case (2 i h hs)
  show ?case
  proof (cases "i = h")
    case True
    have "\<forall>x\<in>set hs. i + 1 \<le> x" using "2.prems"(2) True by auto
    with 2 True have "i + 1 \<le> j + 1 \<and> (\<forall>x. i + 1 \<le> x \<longrightarrow> x \<le> j \<longrightarrow> x \<in> set hs) \<and> j + 1 \<notin> set hs" by simp
    moreover have "x = i \<or> i + 1 \<le> x" if "i \<le> x" for x using that by arith
    ultimately show ?thesis using True "2.prems"(2) by fastforce
  next
    case False
    then show ?thesis using "2.prems" by auto
  qed
qed simp

lemma first_gap_None:
  "first_gap i hs = None \<Longrightarrow> h \<in> set hs \<Longrightarrow> i \<le> k \<Longrightarrow> k \<le> h \<Longrightarrow> k \<in> set hs"
proof (induction i hs rule: first_gap.induct)
  case (2 i h' hs)
  show ?case
  proof (cases "k = i")
    case False
    then have "i + 1 \<le> k" "h \<noteq> i" using "2.prems"(3,4) by auto
    with 2 show ?thesis by (auto split: if_splits)
  qed (use "2.prems"(1) in \<open>auto split: if_splits\<close>)
qed simp

text \<open>
  C18. Where the download continues. The height that \<open>DatabaseHighestHeightOrLowestMissingAfter\<close>
  returns is the first above the last block before the given time whose successor is missing: every
  height in between is stored and the next one is not.
\<close>

theorem download_continues_at_gap:
  assumes "rows_ok (db_blocks self)" "start = DatabaseHighestBlockBeforeTime self timestamp"
    and "result = DatabaseHighestHeightOrLowestMissingAfter self timestamp"
  shows "start \<le> result \<and> (\<forall>h. start < h \<and> h \<le> result \<longrightarrow> block_at self h \<noteq> None) \<and> block_at self (result + 1) = None"
proof -
  let ?rows = "db_blocks self" and ?above = "map b_height (filter (\<lambda>r. b_height r > start) (db_blocks self))"
  have s: "sorted_wrt (<) (map b_height ?rows)" and n: "\<forall>r\<in>set ?rows. 0 \<le> b_height r" using assms(1) by (auto simp: rows_ok_def)
  have sa: "sorted_wrt (<) ?above" using s by (induction ?rows arbitrary: self) (auto simp: sorted_wrt_map intro: sorted_wrt_filter)
  have at: "block_at self h \<noteq> None \<longleftrightarrow> h \<in> b_height ` set ?rows" for h by (auto simp: block_at_None image_iff)
  have above: "h \<in> set ?above \<longleftrightarrow> start < h \<and> h \<in> b_height ` set ?rows" for h by auto
  show ?thesis
  proof (cases "first_gap (start + 1) ?above")
    case (Some j)
    then have r: "result = j" using assms(2,3) by (simp add: DatabaseHighestHeightOrLowestMissingAfter_def)
    have "start + 1 \<le> j + 1 \<and> (\<forall>h. start + 1 \<le> h \<longrightarrow> h \<le> j \<longrightarrow> h \<in> set ?above) \<and> j + 1 \<notin> set ?above"
      by (rule first_gap_Some [OF Some sa]) auto
    then show ?thesis unfolding r above using at [of "j + 1"] at [symmetric] by auto
  next
    case None
    then have r: "result = sql_max (map b_height ?rows)" using assms(2,3) by (simp add: DatabaseHighestHeightOrLowestMissingAfter_def DatabaseHighestHeight_def)
    show ?thesis
    proof (cases "?rows = []")
      case True
      then show ?thesis using assms(2) r by (simp add: DatabaseHighestBlockBeforeTime_def sql_max_def block_at_def)
    next
      case False
      define top where "top = b_height (last ?rows)"
      have rt: "result = top" using r highest_of [OF s False] by (simp add: top_def)
      have le: "h \<le> top" if "h \<in> b_height ` set ?rows" for h using that last_highest [OF s] by (auto simp: top_def)
      have mem: "top \<in> b_height ` set ?rows" using False by (simp add: top_def)
      have "start \<in> insert 0 (b_height ` set ?rows)"
      proof -
        let ?before = "filter (\<lambda>r. b_time r < sint timestamp) ?rows"
        have "sorted_wrt (<) (map b_height ?before)" using s by (auto simp: sorted_wrt_map intro: sorted_wrt_filter)
        with highest_of [of ?before] have "?before \<noteq> [] \<Longrightarrow> start = b_height (last ?before)"
          by (simp add: assms(2) DatabaseHighestBlockBeforeTime_def)
        moreover have "?before \<noteq> [] \<Longrightarrow> last ?before \<in> set ?rows" using last_in_set [of ?before] by fastforce
        moreover have "?before = [] \<Longrightarrow> start = 0" by (simp add: assms(2) DatabaseHighestBlockBeforeTime_def sql_max_def)
        ultimately show ?thesis by blast
      qed
      then have "start \<le> top" using le mem n by auto
      moreover have "block_at self h \<noteq> None" if "start < h" "h \<le> top" for h
        using first_gap_None [OF None, of top h] that mem unfolding at above by auto
      moreover have "block_at self (top + 1) = None" using le [of "top + 1"] at [of "top + 1"] by fastforce
      ultimately show ?thesis by (simp add: rt)
    qed
  qed
qed

theorem download_continues_at_gap_witness:
  "(let self = DatabaseNew [example_row, example_row\<lparr>b_height := 9, b_hash := Bytes (replicate 32 6), b_prefix := hash_prefix (Bytes (replicate 32 6))\<rparr>] None False False
    in DatabaseHighestHeightOrLowestMissingAfter self 1 = 9 \<and> block_at self 10 = None)
    \<and> rows_ok [example_row]"
proof -
  let ?rows = "[example_row, example_row\<lparr>b_height := 9, b_hash := Bytes (replicate 32 6), b_prefix := hash_prefix (Bytes (replicate 32 6))\<rparr>]"
  let ?self = "DatabaseNew ?rows None False False"
  have k: "rows_ok (db_blocks ?self)"
    by (simp add: DatabaseNew_def rows_ok_def example_row_def hash_prefix_def) code_simp
  have "DatabaseHighestHeightOrLowestMissingAfter ?self 1 = 9"
    by (simp add: DatabaseHighestHeightOrLowestMissingAfter_def DatabaseHighestBlockBeforeTime_def DatabaseHighestHeight_def
        DatabaseNew_def example_row_def sql_max_def)
  with download_continues_at_gap [OF k refl refl, of 1] show ?thesis by (simp add: rows_ok_def example_row_def)
qed

end
