(* ===== verification/Database_Table_Props.thy ===== *)
theory Database_Table_Props
  imports Database_Props
begin

text \<open>Competing blocks, the table of transactions as a map from hashes, and the cached list of nodes.\<close>

section \<open>Two blocks of one height\<close>

lemma height_of_frame: "DatabaseHeightOf hash self = Some (Inr (h, self')) \<Longrightarrow> \<exists>cache. self' = self\<lparr>blockHeightCache := cache\<rparr>"
  by (auto simp: DatabaseHeightOf_def kbind_def kret_def kget_def kpure_def cache_height_def kput_def Let_def
      split: if_splits option.splits sum.splits prod.splits intro: exI [of _ "blockHeightCache self"])

lemma find_insort:
  "\<forall>r\<in>set rows. b_height r \<noteq> b_height row
   \<Longrightarrow> find (\<lambda>r. b_height r = h) (insort_key b_height row rows) = (if h = b_height row then Some row else find (\<lambda>r. b_height r = h) rows)"
  by (induction rows) auto

text \<open>
  C17. The smaller hash wins. A valid block that follows a known one and competes with a stored block
  of its height is added exactly if its hash, read as a number, is smaller; it then takes the place
  of the other one, and no other height changes.
\<close>

theorem smaller_hash_wins:
  assumes "well_kept self" "fresh_block block" "unambiguous self (blockPrevHash block)" "height_in self (blockPrevHash block) = t" "0 \<le> t"
    and "block_at self (t + 1) = Some r"
  shows "\<exists>block' self'. DatabaseAddBlock block self
      = Some (Inr ((rev (dbytes (header_hash block)) < rev (dbytes (b_hash r)), block'), self'))
    \<and> (\<forall>h. DatabaseHashOf self' h = (if h = t + 1 \<and> rev (dbytes (header_hash block)) < rev (dbytes (b_hash r))
         then header_hash block else DatabaseHashOf self h))"
proof -
  have v: "MerkleBlockValid block" using assms(2) by (simp add: fresh_block_def)
  have rr: "r \<in> set (db_blocks self)" "b_height r = t + 1" using assms(6) by (auto simp: block_at_def find_Some_iff)
  then have t: "t + 1 < 2 ^ 31" "dlength (b_hash r) = 32" using assms(1) by (auto simp: well_kept_def rows_ok_def)
  obtain cache where h: "DatabaseHeightOf (blockPrevHash block) self = Some (Inr (t, self\<lparr>blockHeightCache := cache\<rparr>))"
    "well_kept (self\<lparr>blockHeightCache := cache\<rparr>)"
    using height_of_works [OF assms(1) fresh_parts(2) [OF assms(2)] assms(3)] assms(4) by auto
  let ?self = "self\<lparr>blockHeightCache := cache\<rparr>" and ?new = "rev (dbytes (header_hash block)) < rev (dbytes (b_hash r))"
  obtain b where bh: "blockHash block = (header_hash block, b)" using fresh_parts(1) [OF assms(2)] by (cases "blockHash block") auto
  have at: "block_at ?self (t + 1) = Some r" using assms(6) by (simp add: block_at_def)
  have less: "DataCompare (DataFlipEndianCopy (header_hash block)) (DataFlipEndianCopy (b_hash r)) < 0 \<longleftrightarrow> ?new"
    using t(2) header_hash_length [of block] by (subst DataCompare_neg_iff) (simp_all add: small_data_def)
  show ?thesis
  proof (cases ?new)
    case False
    then have "DatabaseAddBlock block self = Some (Inr ((False, b), ?self))"
      using v assms(5) at less by (simp add: DatabaseAddBlock_def kbind_def h(1) bh kget_def Let_def kret_def)
    moreover have "DatabaseHashOf ?self h = DatabaseHashOf self h" for h by (simp add: DatabaseHashOf_def block_at_def)
    ultimately show ?thesis using False by (intro exI [of _ b] exI [of _ ?self]) simp
  next
    case True
    let ?row = "row_of (t + 1) block"
    define rows where "rows = insort_key b_height ?row (filter (\<lambda>r. b_height r \<noteq> t + 1) (db_blocks self))"
    have c: "cache_ok cache" using h(2) by (simp add: well_kept_def)
    obtain cache' where cache': "cache_height (b_prefix ?row) (t + 1) (?self\<lparr>db_blocks := rows\<rparr>)
        = Some (Inr ((), ?self\<lparr>db_blocks := rows, blockHeightCache := cache'\<rparr>))"
      using cache_height_works [of "?self\<lparr>db_blocks := rows\<rparr>" "t + 1" "b_prefix ?row"] c assms(5) t(1) by auto
    let ?final = "?self\<lparr>db_blocks := rows, blockHeightCache := cache', db_center := NotificationsFire (db_center self) DatabaseNewBlockNotification DictNew\<rparr>"
    have bt: "b_height ?row = t + 1" by (simp add: row_of_def)
    have st: "store_block ?row ?self = Some (Inr ((), ?final))"
      unfolding store_block_def using cache' by (simp add: kbind_def kput_def fire_def bt flip: rows_def)
    have row: "\<lparr>b_height = t + 1, b_hash = header_hash block, b_prefix = hash_prefix (header_hash block), b_root = merkleRoot b,
        b_time = uint (blockTimestamp b)\<rparr> = ?row"
      using fresh_parts(3,4) [OF assms(2)] bh by (simp add: row_of_def)
    have "DatabaseAddBlock block self = Some (Inr ((True, b), ?final))"
      using v assms(5) at less True st by (simp add: DatabaseAddBlock_def kbind_def h(1) bh kget_def Let_def kret_def row)
    moreover have "block_at ?final h = (if h = t + 1 then Some ?row else block_at self h)" for h
    proof -
      have "find (\<lambda>r. b_height r = h) (filter (\<lambda>r. b_height r \<noteq> t + 1) (db_blocks self)) = find (\<lambda>r. b_height r = h) (db_blocks self)" if "h \<noteq> t + 1"
        by (rule find_filter_sub) (use that in auto)
      then show ?thesis using find_insort [of "filter (\<lambda>r. b_height r \<noteq> t + 1) (db_blocks self)" ?row h]
        by (simp add: block_at_def rows_def bt)
    qed
    ultimately show ?thesis using True
      by (intro exI [of _ b] exI [of _ ?final]) (simp add: DatabaseHashOf_def row_of_def)
  qed
qed

definition rival_row :: block_row where
  "rival_row = \<lparr>b_height = 1, b_hash = Bytes (replicate 32 255), b_prefix = hash_prefix (Bytes (replicate 32 255)), b_root = Bytes [], b_time = 0\<rparr>"

theorem smaller_hash_wins_witness:
  "\<exists>block' self'. DatabaseAddBlock first_block (DatabaseNew [rival_row] None False False)
      = Some (Inr ((rev (dbytes (header_hash first_block)) < replicate 32 255, block'), self'))"
proof -
  let ?self = "DatabaseNew [rival_row] None False False" and ?gen = "DatabaseFirstBlockHash (DatabaseNew [] None False False)"
  have w: "well_kept ?self"
    by (simp add: well_kept_def DatabaseNew_def rows_ok_def cache_ok_def truthful_def cached_def rival_row_def)
  have g: "DatabaseFirstBlockHash ?self = ?gen" by (simp add: DatabaseFirstBlockHash_def DatabaseNew_def)
  have p: "dbytes (blockPrevHash first_block) = dbytes ?gen" by (rule first_block_ok(3))
  have "hash_prefix ?gen \<noteq> hash_prefix (Bytes (replicate 32 255))" "dbytes ?gen \<noteq> replicate 32 255" by code_simp+
  then have n: "hash_prefix (blockPrevHash first_block) \<noteq> b_prefix rival_row" "dbytes (blockPrevHash first_block) \<noteq> dbytes (b_hash rival_row)"
    using p by (simp_all add: hash_prefix_def rival_row_def)
  have b: "db_blocks ?self = [rival_row]" by (simp add: DatabaseNew_def)
  have "unambiguous ?self (blockPrevHash first_block)" using n(1) by (simp add: unambiguous_def b)
  moreover have "height_in ?self (blockPrevHash first_block) = 0" using n(2) p by (simp add: height_in_def b g)
  moreover have "block_at ?self (0 + 1) = Some rival_row" by (simp add: block_at_def b) (simp add: rival_row_def)
  ultimately show ?thesis using smaller_hash_wins [OF w, of first_block 0 rival_row] first_block_ok(1,2)
    by (auto simp: fresh_block_def rival_row_def)
qed

section \<open>Transactions\<close>

definition tx_map :: "database \<Rightarrow> bytes \<rightharpoonup> tx_row" where
  "tx_map self = map_of (map (\<lambda>r. (dbytes (t_hash r), r)) (db_transactions self))"

text \<open>Every transaction is stored once, under its own hash.\<close>

definition txs_ok :: "database \<Rightarrow> bool" where
  "txs_ok self \<longleftrightarrow> distinct (map (\<lambda>r. dbytes (t_hash r)) (db_transactions self))
     \<and> (\<forall>r\<in>set (db_transactions self). t_prefix r = hash_prefix (t_hash r) \<and> t_data r \<noteq> DataNull \<and> t_hash r = hash256 (t_data r))"

lemma find_map_of: "find (\<lambda>r. f r = k) rs = map_of (map (\<lambda>r. (f r, r)) rs) k"
  by (induction rs) auto

lemma matches_iff: "txs_ok self \<Longrightarrow> r \<in> set (db_transactions self) \<Longrightarrow> tx_matches hash r \<longleftrightarrow> dbytes (t_hash r) = dbytes hash"
  by (auto simp: txs_ok_def tx_matches_def hash_prefix_def)

lemma tx_with_map: "txs_ok self \<Longrightarrow> tx_with self hash = tx_map self (dbytes hash)"
  unfolding tx_with_def tx_map_def find_map_of [symmetric] by (rule find_cong_set) (simp add: matches_iff)

lemma map_of_update:
  "distinct (map f rs) \<Longrightarrow> (\<And>r. f (g r) = f r) \<Longrightarrow>
   map_of (map (\<lambda>r. (f r, r)) (map (\<lambda>r. if f r = k then g r else r) rs))
     = (map_of (map (\<lambda>r. (f r, r)) rs))(k := map_option g (map_of (map (\<lambda>r. (f r, r)) rs) k))"
  by (induction rs) (auto simp: fun_eq_iff map_of_eq_None_iff)

lemma map_of_keep: "map_of (map (\<lambda>r. (f r, r)) (filter (\<lambda>r. f r \<noteq> k) rs)) = (map_of (map (\<lambda>r. (f r, r)) rs))(k := None)"
  by (induction rs) (auto simp: fun_eq_iff)

lemma map_of_snoc: "k \<notin> fst ` set xs \<Longrightarrow> map_of (xs @ [(k, v)]) = (map_of xs)(k \<mapsto> v)"
  by (induction xs) auto

lemma update_works:
  assumes "txs_ok self" "limit_clause self" "4 \<le> dlength hash"
    and "\<And>r. t_hash (f r) = t_hash r \<and> t_prefix (f r) = t_prefix r \<and> t_data (f r) = t_data r"
  shows "\<exists>self'. tx_update hash f self = Some (Inr (True, self')) \<and> txs_ok self' \<and> limit_clause self'
    \<and> tx_map self' = (tx_map self)(dbytes hash := map_option f (tx_map self (dbytes hash)))"
proof -
  let ?rows = "map (\<lambda>r. if tx_matches hash r then f r else r) (db_transactions self)"
  let ?self = "self\<lparr>db_transactions := ?rows\<rparr>"
  have same: "?rows = map (\<lambda>r. if dbytes (t_hash r) = dbytes hash then f r else r) (db_transactions self)"
    using matches_iff [OF assms(1)] by (intro map_cong) auto
  have k: "map (\<lambda>r. dbytes (t_hash r)) ?rows = map (\<lambda>r. dbytes (t_hash r)) (db_transactions self)" using assms(4) by simp
  have d: "distinct (map (\<lambda>r. dbytes (t_hash r)) (db_transactions self))" using assms(1) by (simp add: txs_ok_def)
  have "tx_update hash f self = Some (Inr (True, ?self))"
    using assms(2,3) by (simp add: tx_update_def tx_statement_def kbind_def kget_def kput_def kret_def)
  moreover have "txs_ok ?self" using assms(1,4) d unfolding txs_ok_def by (simp add: k del: map_map) auto
  moreover have "tx_map ?self = (tx_map self)(dbytes hash := map_option f (tx_map self (dbytes hash)))"
    unfolding tx_map_def database.simps same using map_of_update [OF d, of f "dbytes hash"] assms(4) by simp
  ultimately show ?thesis using assms(2) by (intro exI [of _ ?self]) simp
qed

lemma delete_works:
  assumes "txs_ok self" "limit_clause self" "32 \<le> dlength hash"
  shows "\<exists>self'. DatabaseDeleteTransaction hash self = Some (Inr (True, self')) \<and> txs_ok self'
    \<and> tx_map self' = (tx_map self)(dbytes hash := None)"
proof -
  let ?rows = "filter (\<lambda>r. \<not> tx_matches hash r) (db_transactions self)"
  let ?self = "self\<lparr>db_transactions := ?rows, db_center := NotificationsFire (db_center self) DatabaseNewTxNotification DictNew\<rparr>"
  have same: "?rows = filter (\<lambda>r. dbytes (t_hash r) \<noteq> dbytes hash) (db_transactions self)"
    using matches_iff [OF assms(1)] by (intro filter_cong) auto
  have "DatabaseDeleteTransaction hash self = Some (Inr (True, ?self))"
    using assms(2,3) by (simp add: DatabaseDeleteTransaction_def tx_statement_def kbind_def kget_def kput_def kret_def fire_def)
  moreover have "txs_ok ?self" using assms(1) unfolding txs_ok_def by (auto intro: distinct_map_filter)
  moreover have "tx_map ?self = (tx_map self)(dbytes hash := None)"
    using map_of_keep [of "\<lambda>r. dbytes (t_hash r)"] by (simp add: tx_map_def same)
  ultimately show ?thesis by blast
qed

text \<open>
  C9. The table of transactions is a map from hashes to rows. Adding a transaction stores it under
  its hash when it is new; one that is known gets the height of its block and the earlier of the two
  times, if the block is stored, and stays as it is otherwise. Deleting and recording a fee or a
  rejection change the entry of their hash only, and a lookup returns it.
\<close>

theorem transactions_are_a_map:
  assumes "txs_ok self" "limit_clause self"
    and "DatabaseHeightOf (case block of None \<Rightarrow> DataNull | Some b \<Rightarrow> fst (blockHash b)) self = Some (Inr (h, self1))"
    and "key = dbytes (hash256 (Bytes bs))" "dlength hash = 32"
  shows "(\<exists>self'. DatabaseAddTransaction now (Bytes bs) block self
        = Some (Inr (tx_map self key = None \<or> h > 0 \<and> block_at self h \<noteq> None, self')) \<and> txs_ok self'
      \<and> tx_map self' = (tx_map self)(key := (case (tx_map self key, block_at self h) of
          (None, _) \<Rightarrow> Some \<lparr>t_hash = hash256 (Bytes bs), t_prefix = hash_prefix (hash256 (Bytes bs)), t_height = h, t_data = Bytes bs,
              t_fee = 0, t_reject = 0, t_time = now\<rparr>
        | (Some r, Some b) \<Rightarrow> Some (if h > 0 then r\<lparr>t_height := h, t_time := min (t_time r) (b_time b)\<rparr> else r)
        | (Some r, None) \<Rightarrow> Some r)))
    \<and> (\<exists>self'. DatabaseDeleteTransaction hash self = Some (Inr (True, self')) \<and> txs_ok self' \<and> tx_map self' = (tx_map self)(dbytes hash := None))
    \<and> (\<exists>self'. DatabaseRecordTransactionFee hash fee self = Some (Inr (True, self')) \<and> txs_ok self'
        \<and> tx_map self' = (tx_map self)(dbytes hash := map_option (\<lambda>r. r\<lparr>t_fee := sint fee\<rparr>) (tx_map self (dbytes hash))))
    \<and> (\<exists>self'. DatabaseSetTransaction hash code self = Some (Inr (True, self')) \<and> txs_ok self'
        \<and> tx_map self' = (tx_map self)(dbytes hash := map_option (\<lambda>r. r\<lparr>t_reject := code\<rparr>) (tx_map self (dbytes hash))))
    \<and> DatabaseTransactionForHash self hash = (case tx_map self (dbytes hash) of None \<Rightarrow> DataNull | Some r \<Rightarrow> t_data r)"
proof -
  let ?hash = "hash256 (Bytes bs)"
  obtain cache where s1: "self1 = self\<lparr>blockHeightCache := cache\<rparr>" using height_of_frame [OF assms(3)] by blast
  have l: "dlength ?hash = 32" "?hash \<noteq> DataNull" by (simp_all add: hash256_Bytes length_sha256_spec)
  have ok1: "txs_ok self1" "limit_clause self1" "tx_map self1 = tx_map self" "block_at self1 h = block_at self h"
    using assms(1,2) by (simp_all add: s1 txs_ok_def tx_map_def block_at_def)
  have f: "find (\<lambda>r. dbytes (t_hash r) = dbytes ?hash) (db_transactions self1) = tx_map self key"
    unfolding find_map_of by (simp add: s1 tx_map_def assms(4))
  let ?fired = "\<lambda>self. self\<lparr>db_center := NotificationsFire (db_center self) DatabaseNewTxNotification DictNew\<rparr>"
  have fire_map: "txs_ok (?fired self2) = txs_ok self2" "tx_map (?fired self2) = tx_map self2" for self2
    by (simp_all add: txs_ok_def tx_map_def)
  have add: "\<exists>self'. DatabaseAddTransaction now (Bytes bs) block self
        = Some (Inr (tx_map self key = None \<or> h > 0 \<and> block_at self h \<noteq> None, self')) \<and> txs_ok self'
      \<and> tx_map self' = (tx_map self)(key := (case (tx_map self key, block_at self h) of
          (None, _) \<Rightarrow> Some \<lparr>t_hash = ?hash, t_prefix = hash_prefix ?hash, t_height = h, t_data = Bytes bs, t_fee = 0, t_reject = 0, t_time = now\<rparr>
        | (Some r, Some b) \<Rightarrow> Some (if h > 0 then r\<lparr>t_height := h, t_time := min (t_time r) (b_time b)\<rparr> else r)
        | (Some r, None) \<Rightarrow> Some r))"
  proof (cases "tx_map self key")
    case None
    let ?row = "\<lparr>t_hash = ?hash, t_prefix = hash_prefix ?hash, t_height = h, t_data = Bytes bs, t_fee = 0, t_reject = 0, t_time = now\<rparr>"
    let ?self = "self1\<lparr>db_transactions := db_transactions self1 @ [?row]\<rparr>"
    have "DatabaseAddTransaction now (Bytes bs) block self = Some (Inr (True, ?fired ?self))"
      using l(2) by (simp add: DatabaseAddTransaction_def Let_def kbind_def assms(3) kget_def f None kput_def kret_def fire_def)
    moreover have n: "key \<notin> (\<lambda>r. dbytes (t_hash r)) ` set (db_transactions self1)"
      using None by (auto simp: s1 tx_map_def map_of_eq_None_iff image_iff)
    then have "txs_ok ?self" using ok1(1) by (auto simp: txs_ok_def assms(4))
    moreover have "tx_map ?self = (tx_map self)(key \<mapsto> ?row)"
      using n by (simp add: tx_map_def assms(4) s1 map_of_snoc image_image del: map_of_append)
    ultimately show ?thesis using None fire_map [of ?self] by (intro exI [of _ "?fired ?self"]) simp
  next
    case (Some r)
    show ?thesis
    proof (cases "h > 0 \<and> block_at self h \<noteq> None")
      case True
      then obtain b where b: "h > 0" "block_at self h = Some b" by blast
      obtain self2 where u: "tx_update ?hash (\<lambda>r. r\<lparr>t_height := h, t_time := min (t_time r) (b_time b)\<rparr>) self1 = Some (Inr (True, self2))"
        "txs_ok self2" "tx_map self2 = (tx_map self1)(dbytes ?hash := map_option (\<lambda>r. r\<lparr>t_height := h, t_time := min (t_time r) (b_time b)\<rparr>) (tx_map self1 (dbytes ?hash)))"
        using update_works [OF ok1(1,2), of ?hash "\<lambda>r. r\<lparr>t_height := h, t_time := min (t_time r) (b_time b)\<rparr>"] l(1) by auto
      have "DatabaseAddTransaction now (Bytes bs) block self = Some (Inr (True, ?fired self2))"
        using l(2) b ok1(4) by (simp add: DatabaseAddTransaction_def Let_def kbind_def assms(3) kget_def f Some u(1) kret_def fire_def kput_def)
      then show ?thesis using u(2,3) b Some by (intro exI [of _ "?fired self2"]) (simp add: fire_map ok1(3) assms(4))
    next
      case False
      have "DatabaseAddTransaction now (Bytes bs) block self = Some (Inr (False, self1))"
        using l(2) False ok1(4) by (auto simp: DatabaseAddTransaction_def Let_def kbind_def assms(3) kget_def f Some kret_def split: option.split)
      moreover have "tx_map self = (tx_map self)(key := Some r)" using Some by (simp add: fun_upd_idem)
      ultimately show ?thesis using False Some ok1 by (intro exI [of _ self1]) (auto split: option.split)
    qed
  qed
  moreover have "\<exists>self'. DatabaseRecordTransactionFee hash fee self = Some (Inr (True, self')) \<and> txs_ok self'
        \<and> tx_map self' = (tx_map self)(dbytes hash := map_option (\<lambda>r. r\<lparr>t_fee := sint fee\<rparr>) (tx_map self (dbytes hash)))"
    unfolding DatabaseRecordTransactionFee_def using update_works [OF assms(1,2), of hash "\<lambda>r. r\<lparr>t_fee := sint fee\<rparr>"] assms(5) by auto
  moreover have "\<exists>self'. DatabaseSetTransaction hash code self = Some (Inr (True, self')) \<and> txs_ok self'
        \<and> tx_map self' = (tx_map self)(dbytes hash := map_option (\<lambda>r. r\<lparr>t_reject := code\<rparr>) (tx_map self (dbytes hash)))"
    unfolding DatabaseSetTransaction_def using update_works [OF assms(1,2), of hash "\<lambda>r. r\<lparr>t_reject := code\<rparr>"] assms(5) by auto
  moreover have "DatabaseTransactionForHash self hash = (case tx_map self (dbytes hash) of None \<Rightarrow> DataNull | Some r \<Rightarrow> t_data r)"
    using assms(5) tx_with_map [OF assms(1)] by (simp add: DatabaseTransactionForHash_def)
  ultimately show ?thesis using delete_works [OF assms(1,2), of hash] assms(5) by simp
qed

theorem transactions_are_a_map_witness:
  "\<exists>self'. DatabaseAddTransaction 5 (Bytes [1, 2]) None (DatabaseNew [] None True False) = Some (Inr (True, self'))
    \<and> tx_map self' = [dbytes (hash256 (Bytes [1, 2])) \<mapsto> \<lparr>t_hash = hash256 (Bytes [1, 2]), t_prefix = hash_prefix (hash256 (Bytes [1, 2])),
        t_height = - 1, t_data = Bytes [1, 2], t_fee = 0, t_reject = 0, t_time = 5\<rparr>]"
proof -
  let ?self = "DatabaseNew [] None True False"
  have o: "txs_ok ?self" "limit_clause ?self" "tx_map ?self = Map.empty" by (simp_all add: txs_ok_def DatabaseNew_def tx_map_def)
  have h: "DatabaseHeightOf (case None of None \<Rightarrow> DataNull | Some b \<Rightarrow> fst (blockHash b)) ?self = Some (Inr (- 1, ?self))"
    by (simp add: DatabaseHeightOf_def kret_def)
  from transactions_are_a_map [OF o(1,2) h refl, of "Bytes (replicate 32 1)" 5 "[1, 2]"] show ?thesis
    by (auto simp: o(3))
qed

text \<open>
  A library without \<open>limit\<close> in updates and deletes refuses the statements: no fee and no rejection is
  recorded, no known transaction gets a height, and nothing is deleted.
\<close>

lemma refused_without_limit:
  assumes "\<not> limit_clause self"
  shows "DatabaseRecordTransactionFee hash fee self = Some (Inr (False, self))" "DatabaseSetTransaction hash code self = Some (Inr (False, self))"
    "DatabaseDeleteTransaction hash self = Some (Inr (False, self))" "DatabaseRemoveNode index self = Some (Inr (False, self))"
  using assms by (simp_all add: DatabaseRecordTransactionFee_def DatabaseSetTransaction_def DatabaseDeleteTransaction_def DatabaseRemoveNode_def
      tx_update_def tx_statement_def kbind_def kget_def kret_def)

section \<open>The list of nodes\<close>

lemma add_node_frame:
  assumes "DatabaseAddNode node self = Some (Inr (ok, self'))"
  shows "\<exists>row dict. db_nodes self' = db_nodes self @ [row] \<and> nodeListCache self' \<in> {dict # nodeListCache self, nodeListCache self @ [dict]}"
  using assms by (auto simp: DatabaseAddNode_def kbind_def kput_def kpure_def fire_def kret_def Let_def
      split: data.splits if_splits sum.splits)

text \<open>
  A new node hides the others. When a node is added before the list of nodes has been asked
  for, as after every start of the program, the cache holds that node alone: it is then the whole
  list for either network, however many nodes the table has.
\<close>

lemma added_node_hides_table:
  assumes "nodeListCache self = []" "DatabaseAddNode node self = Some (Inr (ok, self'))"
  shows "length (db_nodes self') = length (db_nodes self) + 1 \<and> DatabaseNodeListCount self' net = 1
    \<and> (\<exists>dict. DatabaseNodeList net self' = Some (Inr ([dict], self')))"
proof -
  obtain row dict where "db_nodes self' = db_nodes self @ [row]" "nodeListCache self' = [dict]"
    using add_node_frame [OF assms(2)] assms(1) by auto
  then show ?thesis by (simp add: DatabaseNodeListCount_def DatabaseNodeList_def kbind_def kget_def kret_def)
qed

definition known_node :: node_row where
  "known_node = \<lparr>n_id = 1, n_ip = [49, 46, 49], n_port = 8333, n_services = 13, n_date = 0, n_testnet = 0, n_manual = 0, n_master = 0\<rparr>"

text \<open>The list that the cache holds is returned for the other network too.\<close>

lemma cached_list_ignores_network:
  "nodeListCache self \<noteq> [] \<Longrightarrow> DatabaseNodeList net self = DatabaseNodeList net' self"
  by (simp add: DatabaseNodeList_def kbind_def kget_def)

end
