(* ===== verification/Node_Manager.thy ===== *)
theory Node_Manager
  imports Node Database_Tables Tracker_Filter
begin

text \<open>
  The node manager of \<open>src/code/NodeManager.c\<close>: it owns the connections, decides which one to
  download from, and moves headers, transactions and requests between the connections, the database
  and the tracker. The state holds the states of these components. A pointer to a connection is a
  number; the memory behind it is freed when the connection leaves the list, and reading it then is
  a fault. Work that one thread gives to another is a list of the calls it stands for, in the order
  in which they are executed. Mutexes are not modelled: a handler and a piece of work are one step.
  Random choices and the clock are arguments.
\<close>

section \<open>State\<close>

record link =
  conn :: node_state
  lastMerkleBlock :: merkle_block
  transactionsSinceLastMerkleBlock :: int
  lastDlHeight :: int
  lastDlSize :: int
  gotFinalHeadersMessage :: bool

text \<open>The work of the database thread, of the manager itself and of the thread for transactions.\<close>

datatype db_work =
    BlockHeadersWork nat datas
  | RequestTransactionsWorker "nat option" u64
  | RequestHeadersWorker "nat option"
  | TxWorkerAddTransaction data data
  | RemoveWork data
  | AddressWork dictionary

datatype main_work =
    BlockHeadersWorkMain nat nat data nat nat
  | RequestTransactionsWorkerMain nat nat data datas
  | RequestHeadersWorkerMain "nat option" datas
  | TxWorkerMain nat int
  | BloomFilterWorkerMain bool
  | UpdateTransactionFees

datatype tx_work = TxWorker nat data data

datatype timer = SetActiveNodeIfNone | NodeCheckup | BloomFilterCheckup

record pending_tx =
  p_txid :: data
  p_wtxid :: data
  p_onResult :: u64
  p_time :: u64
  p_nodePtrs :: data

record manager =
  nm_testnet :: bool
  blockchainSynced :: bool
  lowestSyncedHeight :: u32
  lastSyncedHeight :: u32
  walletCreationDate :: u64
  nm_bloomFilter :: data
  bloomFilterNeedsUpdate :: bool
  nodes :: "(nat \<times> link) list"
  fresh_node :: nat
  activeNode :: "nat option"
  activeConnectionsSinceCheckup :: nat
  nm_rejectCount :: int
  automaticallyPublishWaitingTransactions :: bool
  activateCount :: nat
  sendTxOnResults :: "pending_tx list"
  tx_results :: "(u64 \<times> u32) list"
  db_queue :: "db_work list"
  main_queue :: "main_work list"
  tx_queue :: "tx_work list"
  bloom_queue :: nat
  timers :: "(timer \<times> u64) list"
  nm_database :: database
  nm_tracker :: tracker
  nm_center :: notifications

type_synonym 'a nm = "(manager, 'a) computation"

text \<open>
  What the manager gets from outside: the curve, the clock, random choices (the number of the draw
  and the bound), \<open>DatasRandomSubarray\<close>, the floating-point decisions of the tracker, the blocks of
  the SQL text, the peers of \<open>PeerList.h\<close>, the address
  of an array on the heap, and \<open>inet_ntop\<close> for both kinds of address.
\<close>

record surroundings =
  w_curve :: ecc
  w_clock :: u64
  w_random :: "nat \<Rightarrow> nat \<Rightarrow> nat"
  w_draws :: "nat \<Rightarrow> nat list"
  w_subarray :: "nat list \<Rightarrow> nat \<Rightarrow> nat list"
  w_exceeds :: "int \<Rightarrow> int \<Rightarrow> bool"
  w_sizeOf :: "int \<Rightarrow> u32"
  w_timesLog2 :: "int \<Rightarrow> u32"
  w_initial :: "block_row list"
  w_peers :: "bool \<Rightarrow> bytes list"
  w_array :: u64
  w_ntop :: "bool \<Rightarrow> bytes \<Rightarrow> data"

definition CONSECUTIVE_BADBLOCKS_RESET_LIMIT :: int where "CONSECUTIVE_BADBLOCKS_RESET_LIMIT = 2000 * 5 + 1"
definition GET_DATA_BLOCK_COUNT :: int where "GET_DATA_BLOCK_COUNT = 5000"
definition InventoryTypeTx :: u32 where "InventoryTypeTx = 1"
definition InventoryTypeBlock :: u32 where "InventoryTypeBlock = 2"
definition InventoryTypeFilteredBlock :: u32 where "InventoryTypeFilteredBlock = 3"

definition NodeManagerBlockchainSyncChange :: bytes where
  "NodeManagerBlockchainSyncChange = c_lit ''NodeManagerBlockchainSyncChange''"

definition NodeManagerNew :: "u64 \<Rightarrow> database \<Rightarrow> tracker \<Rightarrow> manager" where
  "NodeManagerNew creationDate db tr =
     \<lparr>nm_testnet = False, blockchainSynced = False, lowestSyncedHeight = 0, lastSyncedHeight = 0, walletCreationDate = creationDate,
      nm_bloomFilter = DataNull, bloomFilterNeedsUpdate = False, nodes = [], fresh_node = 0, activeNode = None,
      activeConnectionsSinceCheckup = 0, nm_rejectCount = 0, automaticallyPublishWaitingTransactions = True, activateCount = 0,
      sendTxOnResults = [], tx_results = [], db_queue = [], main_queue = [], tx_queue = [], bloom_queue = 0, timers = [],
      nm_database = db, nm_tracker = tr, nm_center = note_init\<rparr>"

definition on_db :: "'a db \<Rightarrow> 'a nm" where
  "on_db m = (\<lambda>self. case m (nm_database self) of None \<Rightarrow> None | Some (Inl e) \<Rightarrow> Some (Inl e)
     | Some (Inr (x, db)) \<Rightarrow> Some (Inr (x, self\<lparr>nm_database := db\<rparr>)))"

definition on_tracker :: "'a tt \<Rightarrow> 'a nm" where
  "on_tracker m = (\<lambda>self. case m (nm_tracker self) of None \<Rightarrow> None | Some (Inl e) \<Rightarrow> Some (Inl e)
     | Some (Inr (x, tr)) \<Rightarrow> Some (Inr (x, self\<lparr>nm_tracker := tr\<rparr>)))"

definition synced_change :: "unit nm" where
  "synced_change = kput (\<lambda>self. self\<lparr>nm_center := NotificationsFire (nm_center self) NodeManagerBlockchainSyncChange DictNew\<rparr>)"

definition DatabaseExecute :: "db_work \<Rightarrow> unit nm" where
  "DatabaseExecute job = kput (\<lambda>self. self\<lparr>db_queue := db_queue self @ [job]\<rparr>)"

definition NodeManagerExecute :: "main_work \<Rightarrow> unit nm" where
  "NodeManagerExecute job = kput (\<lambda>self. self\<lparr>main_queue := main_queue self @ [job]\<rparr>)"

section \<open>Connections\<close>

definition change_link :: "nat \<Rightarrow> (link \<Rightarrow> link) \<Rightarrow> manager \<Rightarrow> manager" where
  "change_link p f self = self\<lparr>nodes := map (\<lambda>(q, l). (q, if q = p then f l else l)) (nodes self)\<rparr>"

text \<open>Reading and writing through a pointer to a connection.\<close>

definition read_node :: "nat option \<Rightarrow> (link \<Rightarrow> 'a) \<Rightarrow> 'a nm" where
  "read_node p f = (\<lambda>self. case Option.bind p (map_of (nodes self)) of None \<Rightarrow> Some (Inl Fault) | Some l \<Rightarrow> Some (Inr (f l, self)))"

definition write_node :: "nat option \<Rightarrow> (link \<Rightarrow> link) \<Rightarrow> unit nm" where
  "write_node p f = kbind (read_node p id) (\<lambda>_. kput (\<lambda>self. case p of None \<Rightarrow> self | Some p \<Rightarrow> change_link p f self))"

definition on_conn :: "(node_state \<Rightarrow> node_state) \<Rightarrow> link \<Rightarrow> link" where
  "on_conn f l = l\<lparr>conn := f (conn l)\<rparr>"

definition nodeStillValid :: "nat option \<Rightarrow> bool nm" where
  "nodeStillValid p = kbind (kget nodes) (\<lambda>ns.
     let matchCount = length (filter (\<lambda>(q, _). Some q = p) ns) in
     if matchCount = 0 then kret False else if matchCount > 1 then kpure (Inl Abort) else kret True)"

definition NodeManagerConnections :: "manager \<Rightarrow> nat" where
  "NodeManagerConnections self = length (filter (\<lambda>(_, l). connected (conn l)) (nodes self))"

definition NodeManagerIsActiveNode :: "manager \<Rightarrow> nat option \<Rightarrow> bool" where
  "NodeManagerIsActiveNode self p \<longleftrightarrow> p \<noteq> None \<and> p = activeNode self"

definition connectedNodes :: "manager \<Rightarrow> nat list" where
  "connectedNodes self = map fst (filter (\<lambda>(_, l). connected (conn l)) (nodes self))"

definition DatasRandom :: "(nat \<Rightarrow> nat) \<Rightarrow> 'a list \<Rightarrow> 'a option" where
  "DatasRandom random ps = (if ps = [] then None else Some (ps ! random (length ps)))"

definition pick_active :: "(nat \<Rightarrow> nat) \<Rightarrow> manager \<Rightarrow> nat option" where
  "pick_active random self = (case DatasRandom random (connectedNodes self) of
     Some p \<Rightarrow> Some p | None \<Rightarrow> DatasRandom random (map fst (nodes self)))"

definition removeAddress :: "data \<Rightarrow> unit nm" where
  "removeAddress ip = (if ip = DataNull then kret () else DatabaseExecute (RemoveWork ip))"

definition changeActiveNode :: "surroundings \<Rightarrow> unit nm" where
  "changeActiveNode W = kbind (kget (\<lambda>self. self)) (\<lambda>self.
     if length (nodes self) = 1 then kret ()
     else kbind (case activeNode self of None \<Rightarrow> kret ()
         | Some old \<Rightarrow> kbind (read_node (Some old) (\<lambda>l. nd_address (conn l))) (\<lambda>address. kbind (removeAddress address) (\<lambda>_.
             kput (\<lambda>self. self\<lparr>nodes := filter (\<lambda>(q, _). q \<noteq> old) (nodes self)\<rparr>)))) (\<lambda>_.
       kput (\<lambda>self. self\<lparr>activeNode := pick_active (w_random W 0) self\<rparr>)))"

section \<open>Requests for headers\<close>

text \<open>The step doubles once there are more than ten hashes; the loop ends long before it wraps.\<close>

function indicator_loop :: "database \<Rightarrow> nat \<Rightarrow> int \<Rightarrow> datas \<Rightarrow> datas" where
  "indicator_loop db step index array =
     (if index > 0 then
        let step = (if length array > 10 then step * 2 else step);
            array = DatasAddCopy array (DatabaseHashOf db (DatabaseNearestHeight db index))
        in if step = 0 then array else indicator_loop db step (index - int step) array
      else array)"
  by pat_completeness auto
termination
  by (relation "measure (\<lambda>(_, _, index, _). nat index)") auto

declare indicator_loop.simps [simp del]

definition blockIndicatorHashes :: "manager \<Rightarrow> datas" where
  "blockIndicatorHashes self =
     (let db = nm_database self;
          start = DatabaseHighestHeightOrLowestMissingAfter db (ucast (walletCreationDate self))
      in DatasAddCopy (indicator_loop db 1 start []) (DatabaseFirstBlockHash db))"

definition requestHeaders :: "nat option \<Rightarrow> unit nm" where
  "requestHeaders p = DatabaseExecute (RequestHeadersWorker p)"

definition requestHeadersWorker :: "nat option \<Rightarrow> unit nm" where
  "requestHeadersWorker p = kbind (kget blockIndicatorHashes) (\<lambda>hashes. NodeManagerExecute (RequestHeadersWorkerMain p hashes))"

definition requestHeadersWorkerMain :: "nat option \<Rightarrow> datas \<Rightarrow> unit nm" where
  "requestHeadersWorkerMain p hashes = kbind (nodeStillValid p) (\<lambda>valid.
     if valid then write_node p (on_conn (NodeGetHeaders hashes DataNull)) else kret ())"

section \<open>Requests for transactions\<close>

definition requestTransactions :: "surroundings \<Rightarrow> unit nm" where
  "requestTransactions W =
     kbind (on_tracker TTBloomFilterDlHeight) (\<lambda>dlHeight. kbind (kget (\<lambda>self. self)) (\<lambda>self.
     let highest = DatabaseHighestHeight (nm_database self) in
     if sint dlHeight \<ge> highest then
       kbind (kput (\<lambda>self. self\<lparr>nodes := map (\<lambda>(q, l). (q, l\<lparr>lastDlHeight := highest, lastDlSize := 1\<rparr>)) (nodes self)\<rparr>)) (\<lambda>_.
       if blockchainSynced self then kret () else kbind (kput (\<lambda>self. self\<lparr>blockchainSynced := True\<rparr>)) (\<lambda>_. synced_change))
     else kbind (write_node (activeNode self) (on_conn (\<lambda>node. node\<lparr>lastHeadersOrMerkleMessage := w_clock W\<rparr>))) (\<lambda>_.
       DatabaseExecute (RequestTransactionsWorker (activeNode self) (walletCreationDate self)))))"

definition requestTransactionsWorker :: "nat option \<Rightarrow> u64 \<Rightarrow> unit nm" where
  "requestTransactionsWorker p creationDate = kbind (nodeStillValid p) (\<lambda>valid. if \<not> valid then kret ()
     else kbind (kget (\<lambda>self. DatabaseHighestBlockBeforeTime (nm_database self) (ucast creationDate) - 144)) (\<lambda>start.
       kbind (kput (\<lambda>self. self\<lparr>lowestSyncedHeight := of_int start\<rparr>)) (\<lambda>_.
       kbind (on_tracker TTBloomFilterDlHeight) (\<lambda>dlHeight.
       kbind (if sint dlHeight < start then on_tracker (TTSetBloomFilterDlHeight (of_int start)) else kret ()) (\<lambda>_.
       kbind (on_tracker TTBloomFilterDlHeight) (\<lambda>dlHeight.
       kbind (kget (\<lambda>self. DatabaseBlockHashesAbove (nm_database self) (max start (sint dlHeight)) GET_DATA_BLOCK_COUNT)) (\<lambda>items.
       kbind (on_db (DatabaseHeightOf (if items = [] then DataNull else hd items))) (\<lambda>_.
       kbind (kput (\<lambda>self. self\<lparr>nm_tracker := TTResetFailureRate (nm_tracker self)\<rparr>)) (\<lambda>_.
       NodeManagerExecute (RequestTransactionsWorkerMain (the p) (length items) (if items = [] then DataNull else last items)
         (map (\<lambda>d. DataAppend (uint32D InventoryTypeFilteredBlock) d) items)))))))))))"

definition requestTransactionsWorkerMain :: "nat \<Rightarrow> nat \<Rightarrow> data \<Rightarrow> datas \<Rightarrow> unit nm" where
  "requestTransactionsWorkerMain p itemCount lastItem inventoryRequests = kbind (nodeStillValid (Some p)) (\<lambda>valid. if \<not> valid then kret ()
     else kbind (write_node (Some p) (\<lambda>l. l\<lparr>lastDlSize := int itemCount\<rparr>)) (\<lambda>_.
       kbind (on_db (DatabaseHeightOf lastItem)) (\<lambda>height.
       kbind (write_node (Some p) (\<lambda>l. l\<lparr>lastDlHeight := height\<rparr>)) (\<lambda>_.
       write_node (Some p) (on_conn (NodeGetData inventoryRequests))))))"

section \<open>Headers\<close>

text \<open>\<open>blockchainSynced\<close> is false where the code sets it to false.\<close>

definition nm_blockHeaders :: "surroundings \<Rightarrow> nat \<Rightarrow> datas \<Rightarrow> unit nm" where
  "nm_blockHeaders W p headers =
     kbind (kget blockchainSynced) (\<lambda>synced.
     kbind (if length headers > 1 \<and> \<not> synced then synced_change else kret ()) (\<lambda>_.
     kbind (write_node (Some p) (on_conn (\<lambda>node. node\<lparr>lastHeadersOrMerkleMessage := w_clock W\<rparr>))) (\<lambda>_.
     DatabaseExecute (BlockHeadersWork p headers))))"

text \<open>Nothing is reported when a header is too short.\<close>

fun add_headers :: "datas \<Rightarrow> nat \<Rightarrow> nat \<Rightarrow> (nat \<times> nat) option nm" where
  "add_headers [] addCount rejectCount = kret (Some (addCount, rejectCount))"
| "add_headers (d # ds) addCount rejectCount =
     (if dlength d < 80 then kret None
      else kbind (on_db (DatabaseAddBlock (MerkleBlockNew (DataCopyData d)))) (\<lambda>(added, _).
        if added then add_headers ds (addCount + 1) rejectCount else add_headers ds addCount (rejectCount + 1)))"

definition blockHeadersWork :: "nat \<Rightarrow> datas \<Rightarrow> unit nm" where
  "blockHeadersWork p headers =
     (let hash = fst (blockHash (MerkleBlockNew (if headers = [] then DataNull else last headers))) in
      kbind (add_headers headers 0 0) (\<lambda>counts. case counts of None \<Rightarrow> kret ()
        | Some (addCount, rejectCount) \<Rightarrow> NodeManagerExecute (BlockHeadersWorkMain p (length headers) hash addCount rejectCount)))"

definition blockHeadersWorkMain :: "surroundings \<Rightarrow> nat \<Rightarrow> nat \<Rightarrow> data \<Rightarrow> nat \<Rightarrow> nat \<Rightarrow> unit nm" where
  "blockHeadersWorkMain W p headerCount hash addCount rejectCount =
     kbind (nodeStillValid (Some p)) (\<lambda>valid. if \<not> valid then kret ()
     else kbind (write_node (Some p) (on_conn (\<lambda>node. node\<lparr>lastHeadersOrMerkleMessage := w_clock W\<rparr>))) (\<lambda>_.
       if headerCount = 1 then kput (\<lambda>self. self\<lparr>nm_rejectCount := 0\<rparr>)
       else if headerCount \<noteq> 2000 \<and> addCount = headerCount then
         kbind (kput (\<lambda>self. self\<lparr>nm_rejectCount := 0\<rparr>)) (\<lambda>_.
         kbind (write_node (Some p) (\<lambda>l. l\<lparr>gotFinalHeadersMessage := True\<rparr>)) (\<lambda>_. requestTransactions W))
       else kbind (kget (\<lambda>self. activeNode self = Some p)) (\<lambda>wasActive.
         kbind (if wasActive \<and> addCount = 0 then
             kbind (kput (\<lambda>self. self\<lparr>nm_rejectCount := nm_rejectCount self + int rejectCount\<rparr>)) (\<lambda>_.
             kbind (kget nm_rejectCount) (\<lambda>count.
             kbind (if count > CONSECUTIVE_BADBLOCKS_RESET_LIMIT
               then kbind (kput (\<lambda>self. self\<lparr>nm_database := DatabaseResetAllBlocks (w_initial W) (nm_database self)\<rparr>)) (\<lambda>_.
                 on_tracker (TTSetBloomFilterDlHeight 0)) else kret ()) (\<lambda>_.
             changeActiveNode W)))
           else kret ()) (\<lambda>_.
         if wasActive then kbind (kget activeNode) requestHeaders else kret ()))))"

end
