(* ===== verification/Node_Sync.thy ===== *)
theory Node_Sync
  imports Node_Manager
begin

text \<open>
  What \<open>src/code/NodeManager.c\<close> does with blocks and transactions that arrive, with inventories and
  rejections, and with transactions that are sent. \<open>messageWorkerDelayed\<close> is left out: it is queued only after \<open>DataGetPtr\<close> has accepted the
  stored array of connections, and it never does.
\<close>

section \<open>Blocks\<close>

definition nm_merkleBlock :: "surroundings \<Rightarrow> nat \<Rightarrow> data \<Rightarrow> unit nm" where
  "nm_merkleBlock W p blockData =
     kbind (on_db (DatabaseAddBlock (MerkleBlockNew (DataCopyData blockData)))) (\<lambda>(_, block).
     let (hash, block) = blockHash block in
     kbind (write_node (Some p) (\<lambda>l. l\<lparr>lastMerkleBlock := block, transactionsSinceLastMerkleBlock := 0\<rparr>)) (\<lambda>_.
     kbind (on_db (DatabaseHeightOf hash)) (\<lambda>height.
     kbind (kput (\<lambda>self. self\<lparr>lastSyncedHeight := of_int height\<rparr>)) (\<lambda>_.
     kbind (read_node (Some p) lastDlHeight) (\<lambda>dl.
     if dl = height then
       kbind (on_tracker (TTSetBloomFilterDlHeight (of_int height))) (\<lambda>_.
       kbind (kpure (matchingTxIdsIfValidRoot block)) (\<lambda>txids. if txids = [] then requestTransactions W else kret ()))
     else if height mod 100 = 0 then
       kbind (kpure (matchingTxIdsIfValidRoot block)) (\<lambda>txids.
         if txids = [] then on_tracker (TTSetBloomFilterDlHeight (of_int height)) else kret ())
     else kret ())))))"

section \<open>Transactions\<close>

definition updateTransactionFees :: "unit nm" where
  "updateTransactionFees =
     kbind (on_tracker TTInterestingTransactionHashes) (\<lambda>hashes.
     kbind (kget (\<lambda>self. DatabaseTransactionsWithNoFee (nm_database self) hashes)) (\<lambda>datas.
     kfold (\<lambda>d _. kbind (kget (\<lambda>self. TTCalculateTransactionFee (nm_tracker self) d)) (\<lambda>r. kbind (kpure r) (\<lambda>fee.
       if fee \<noteq> 0 then kbind (on_db (DatabaseRecordTransactionFee (hash256 d) fee)) (\<lambda>_. kret ()) else kret ()))) datas ()))"

definition NodeManagerUpdateTransactionFees :: "unit nm" where
  "NodeManagerUpdateTransactionFees = updateTransactionFees"

definition txWorkerAddTransaction :: "surroundings \<Rightarrow> data \<Rightarrow> data \<Rightarrow> unit nm" where
  "txWorkerAddTransaction W txData blockData =
     kbind (on_db (DatabaseAddTransaction (uint (w_clock W)) txData (if blockData \<noteq> DataNull then Some (MerkleBlockNew blockData) else None)))
       (\<lambda>_. updateTransactionFees)"

definition txWorkerMain :: "surroundings \<Rightarrow> nat \<Rightarrow> int \<Rightarrow> unit nm" where
  "txWorkerMain W p height = kbind (nodeStillValid (Some p)) (\<lambda>valid. if \<not> valid then kret ()
     else kbind (write_node (Some p) (\<lambda>l. l\<lparr>transactionsSinceLastMerkleBlock := transactionsSinceLastMerkleBlock l + 1\<rparr>)) (\<lambda>_.
       kbind (read_node (Some p) id) (\<lambda>l.
       if lastDlHeight l \<noteq> height then kret ()
       else kbind (kpure (matchingTxIdsIfValidRoot (lastMerkleBlock l))) (\<lambda>txids.
         if transactionsSinceLastMerkleBlock l \<noteq> int (length txids) then kret ()
         else kbind (on_tracker TTBloomFilterDlHeight) (\<lambda>dlHeight.
           kbind (if lastDlHeight l = sint dlHeight + lastDlSize l
             then on_tracker (TTSetBloomFilterDlHeight (of_int (lastDlHeight l))) else kret ()) (\<lambda>_.
           kbind (kget (\<lambda>self. TTFailureRateTooHigh (w_exceeds W) (nm_tracker self))) (\<lambda>high.
           if high then kret () else requestTransactions W)))))))"

definition txWorker :: "nat \<Rightarrow> data \<Rightarrow> data \<Rightarrow> unit nm" where
  "txWorker p txData blockData = kbind (nodeStillValid (Some p)) (\<lambda>valid. if \<not> valid then kret ()
     else kbind (kpure (TransactionNew txData)) (\<lambda>trans.
       kbind (kpure (matchingTxIdsIfValidRoot (MerkleBlockNew blockData))) (\<lambda>txids.
       let blockData = (if DatasHasMatchingData txids (TransactionTxid trans) = 0 then DataNull else blockData) in
       kbind (on_tracker (TTAddTransaction txData)) (\<lambda>result.
       kbind (if result = 1 then DatabaseExecute (TxWorkerAddTransaction txData blockData)
         else if result = - 1 then
           kbind (kget (\<lambda>self. TTTransactionForTxid (nm_tracker self) (TransactionTxid trans))) (\<lambda>r. kbind (kpure r) (\<lambda>existingTrans.
             DatabaseExecute (TxWorkerAddTransaction (case existingTrans of None \<Rightarrow> DataNull | Some t \<Rightarrow> TransactionData t) blockData)))
         else kret ()) (\<lambda>_.
       kbind (read_node (Some p) id) (\<lambda>l.
       let (hash, block) = blockHash (lastMerkleBlock l) in
       kbind (write_node (Some p) (\<lambda>l. l\<lparr>lastMerkleBlock := block\<rparr>)) (\<lambda>_.
       kbind (on_db (DatabaseHeightOf hash)) (\<lambda>height.
       if lastDlHeight l = height then NodeManagerExecute (TxWorkerMain p height)
       else if height mod 100 = 0 then
         kbind (on_tracker TTBloomFilterDlHeight) (\<lambda>dlHeight.
           if height > sint dlHeight then on_tracker (TTSetBloomFilterDlHeight (of_int height)) else kret ())
       else kret ()))))))))"

definition awaits :: "data \<Rightarrow> data \<Rightarrow> pending_tx \<Rightarrow> bool" where
  "awaits txid wtxid r \<longleftrightarrow> DataEqual (p_txid r) txid \<or> DataEqual (p_wtxid r) wtxid"

definition nm_tx :: "nat \<Rightarrow> data \<Rightarrow> unit nm" where
  "nm_tx p txUnsafe = kbind (kpure (TransactionNew txUnsafe)) (\<lambda>trans.
     let found = awaits (TransactionTxid trans) (TransactionWtxid trans) in
     kbind (kput (\<lambda>self. self\<lparr>
       tx_results := tx_results self @ map (\<lambda>r. (p_onResult r, 0)) (filter (\<lambda>r. found r \<and> p_onResult r \<noteq> 0) (sendTxOnResults self)),
       sendTxOnResults := filter (\<lambda>r. \<not> found r) (sendTxOnResults self)\<rparr>)) (\<lambda>_.
     kbind (kget (\<lambda>self. activeNode self = Some p)) (\<lambda>active. if \<not> active then kret ()
       else kbind (read_node (Some p) lastMerkleBlock) (\<lambda>block.
         kput (\<lambda>self. self\<lparr>tx_queue := tx_queue self @ [TxWorker p (DataCopyData txUnsafe) (mb_data block)]\<rparr>)))))"

text \<open>
  \<open>nodePtrs\<close> of a sent transaction is stored as the bytes of its struct, an address, a count and four
  bytes of padding, and is read back as a pointer. What the code does with the array after that is
  left out: \<open>DataGetPtr\<close> stops the program.
\<close>

definition DataGetPtr :: "data \<Rightarrow> fault + u64" where
  "DataGetPtr d = (case d of DataNull \<Rightarrow> Inr 0 | Bytes bs \<Rightarrow> if length bs \<noteq> 8 then Inl Abort else Inr (le_word bs))"

definition raw_datas :: "u64 \<Rightarrow> nat list \<Rightarrow> data" where
  "raw_datas array ps = Bytes (le_bytes 8 array @ le_bytes 4 (of_nat (length ps) :: u32) @ replicate 4 0)"

definition nodePtrs_read :: "pending_tx \<Rightarrow> fault + unit" where
  "nodePtrs_read r = (case DataGetPtr (p_nodePtrs r) of Inl e \<Rightarrow> Inl e | Inr p \<Rightarrow> Inl Fault)"

definition report :: "u32 \<Rightarrow> pending_tx \<Rightarrow> unit nm" where
  "report code r = (if p_onResult r \<noteq> 0 then kput (\<lambda>self. self\<lparr>tx_results := tx_results self @ [(p_onResult r, code)]\<rparr>) else kret ())"

definition seen_hashes :: "datas \<Rightarrow> unit nm" where
  "seen_hashes hashes = kbind (kget sendTxOnResults) (\<lambda>pending.
     kfold (\<lambda>r _. if \<exists>h\<in>set hashes. awaits h h r then kbind (report 0 r) (\<lambda>_. kpure (nodePtrs_read r)) else kret ()) pending ())"

definition filtered_block :: "data \<Rightarrow> datas" where
  "filtered_block hash = [DataAppend (uint32D InventoryTypeFilteredBlock) hash]"

definition inventory_item :: "nat \<Rightarrow> datas \<Rightarrow> data \<times> data \<Rightarrow> unit nm" where
  "inventory_item p hashes = (\<lambda>(t, hash). let type = le_word (take 4 (dbytes t)) in
     if type = InventoryTypeBlock \<or> type = InventoryTypeFilteredBlock then
       kbind (kget (\<lambda>self. activeNode self = Some p)) (\<lambda>active.
       if active then write_node (Some p) (on_conn (NodeGetData (filtered_block hash)))
       else kbind (on_db (DatabaseHeightOf hash)) (\<lambda>height.
         if height = - 1 then write_node (Some p) (on_conn (NodeGetData (filtered_block hash))) else kret ()))
     else if type = InventoryTypeTx then
       kbind (kget (\<lambda>self. TTHasTransctionHash (nm_tracker self) hash \<noteq> 0)) (\<lambda>known.
       if known then seen_hashes hashes
       else write_node (Some p) (on_conn (NodeGetData [DataAppend (uint32D InventoryTypeTx) hash])))
     else kret ())"

definition nm_inventory :: "nat \<Rightarrow> datas \<Rightarrow> datas \<Rightarrow> unit nm" where
  "nm_inventory p types hashes = kfold (\<lambda>item _. inventory_item p hashes item) (zip types hashes) ()"

definition nm_message :: "data \<Rightarrow> u8 \<Rightarrow> data \<Rightarrow> data \<Rightarrow> bool nm" where
  "nm_message about rejectCode reason d = kbind (kget sendTxOnResults) (\<lambda>pending.
     case pending of [] \<Rightarrow> kret True | r # _ \<Rightarrow> kbind (kpure (nodePtrs_read r)) (\<lambda>_. kret False))"

definition NodeManagerSendTx :: "surroundings \<Rightarrow> transaction \<Rightarrow> u64 \<Rightarrow> unit nm" where
  "NodeManagerSendTx W tx onResult =
     kbind (on_tracker (TTAddTransaction (TransactionData tx))) (\<lambda>_.
     kbind (on_db (DatabaseAddTransaction (uint (w_clock W)) (TransactionData tx) None)) (\<lambda>_.
     kbind updateTransactionFees (\<lambda>_.
     kbind (if length (outputs tx) = 1 then
         kbind (on_tracker (TTTempBloomFilterAdd (TransactionTxid tx))) (\<lambda>_.
         kbind (kget (\<lambda>self. map fst (nodes self))) (\<lambda>ps.
         kfold (\<lambda>p _. kbind (write_node (Some p) (on_conn NodeFilterClear)) (\<lambda>_.
           kbind (on_tracker TTBloomFilter) (\<lambda>bloom. write_node (Some p) (on_conn (NodeFilterLoad bloom))))) ps ()))
       else kret ()) (\<lambda>_.
     kbind (kget (\<lambda>self. w_subarray W (map fst (nodes self)) (length (nodes self) div 2))) (\<lambda>nodePtrs.
     kput (\<lambda>self. self\<lparr>sendTxOnResults := sendTxOnResults self @ (if onResult = 0 then [] else
       replicate (length nodePtrs) \<lparr>p_txid = TransactionTxid tx, p_wtxid = TransactionWtxid tx, p_onResult = onResult, p_time = w_clock W,
         p_nodePtrs = raw_datas (w_array W) nodePtrs\<rparr>)\<rparr>))))))"

definition publishedWaitingTransactions :: "surroundings \<Rightarrow> unit nm" where
  "publishedWaitingTransactions W =
     kbind (kget (\<lambda>self. DatabaseTransactionsToPublish (uint (w_clock W)) (nm_database self))) (\<lambda>datas.
     kfold (\<lambda>d _. kbind (kpure (TransactionNew d)) (\<lambda>tx. kbind (on_tracker (TTInterestingTransaction tx)) (\<lambda>interesting.
       if interesting then NodeManagerSendTx W tx 0 else kret ()))) datas ())"

end
