(* ===== verification/Node_Checkup.thy ===== *)
theory Node_Checkup
  imports Node_Sync
begin

text \<open>
  The list of known nodes, connecting and checking connections, the bloom filter of the connections,
  and the rounds that process the connections and the queued work: the rest of
  \<open>src/code/NodeManager.c\<close>. Work with a delay is a timer with its delay in milliseconds.
\<close>

section \<open>Known nodes\<close>

definition NODE_STORAGE_COUNT :: int where "NODE_STORAGE_COUNT = 2000"
definition ACTIVE_NODE_COUNT :: nat where "ACTIVE_NODE_COUNT = 8"
definition NODE_CHECKUP_INTERVAL :: u64 where "NODE_CHECKUP_INTERVAL = 15"
definition SEND_TX_TIMELIMIT :: int where "SEND_TX_TIMELIMIT = 20"
definition REQUIRED_SERVICES :: u64 where "REQUIRED_SERVICES = 12"

definition default_node :: "bool \<Rightarrow> bytes \<Rightarrow> dictionary" where
  "default_node net ip = DictAddS (DictAddS DictNew nodeListIpKey (StringNewC ip)) nodeListTestNetKey (DataInt (if net then 1 else 0))"

definition nodeList :: "surroundings \<Rightarrow> dictionary list nm" where
  "nodeList W = kbind (kget nm_testnet) (\<lambda>net. kbind (on_db (DatabaseNodeList net)) (\<lambda>array.
     if length array > 10 then kret array
     else kbind (kfold (\<lambda>ip _. kbind (on_db (DatabaseAddNode (default_node net ip))) (\<lambda>_. kret ())) (w_peers W net) ()) (\<lambda>_.
       on_db (DatabaseNodeList net))))"

definition is_flagged :: "dictionary \<Rightarrow> bytes \<Rightarrow> bool nm" where
  "is_flagged dict key = kbind (kpure (DataGetInt (DictGetS dict key))) (\<lambda>v. kret (v \<noteq> 0))"

text \<open>The stored date is negated and compared as it is; the clock is not read.\<close>

definition trim_old :: "int \<Rightarrow> dictionary \<Rightarrow> unit nm" where
  "trim_old delta dict = kbind (kpure (DataGetInt (DictGetS dict nodeListDateKey))) (\<lambda>date.
     if sint (- date) \<ge> delta then
       kbind (is_flagged dict nodeListMasterNodeKey) (\<lambda>master. if master then kret ()
         else kbind (kpure (int_entry dict nodeListIndexKey)) (\<lambda>index. kbind (on_db (DatabaseRemoveNode index)) (\<lambda>_. kret ())))
     else kret ())"

fun trim_ages :: "surroundings \<Rightarrow> dictionary list \<Rightarrow> int list \<Rightarrow> dictionary list option nm" where
  "trim_ages W tmpList [] = kret None"
| "trim_ages W tmpList (delta # deltas) =
     kbind (kfold (\<lambda>dict _. trim_old delta dict) tmpList ()) (\<lambda>_.
     kbind (kget (\<lambda>self. DatabaseNodeListCount (nm_database self) (nm_testnet self))) (\<lambda>n.
     if n < NODE_STORAGE_COUNT then kbind (nodeList W) (\<lambda>l. kret (Some l)) else trim_ages W tmpList deltas))"

text \<open>Random removals; they end when enough nodes are gone, or never (when the draws run out).\<close>

fun trim_random :: "dictionary list \<Rightarrow> nat list \<Rightarrow> unit nm" where
  "trim_random tmpList draws =
     kbind (kget (\<lambda>self. DatabaseNodeListCount (nm_database self) (nm_testnet self))) (\<lambda>n.
     if n \<le> NODE_STORAGE_COUNT div 2 then kret ()
     else case draws of [] \<Rightarrow> kopt None
       | i # draws \<Rightarrow> kbind (kpure (int_entry (tmpList ! i) nodeListIndexKey)) (\<lambda>index.
           kbind (on_db (DatabaseRemoveNode index)) (\<lambda>_. trim_random tmpList draws)))"

declare trim_random.simps [simp del]

definition trimNodeListIfNeeded :: "surroundings \<Rightarrow> dictionary list nm" where
  "trimNodeListIfNeeded W = kbind (nodeList W) (\<lambda>array.
     if int (length array) < NODE_STORAGE_COUNT then kret array
     else kbind (nodeList W) (\<lambda>tmpList.
       kbind (trim_ages W tmpList [30 * 24 * 3600, 7 * 24 * 3600, 24 * 3600, 4 * 3600]) (\<lambda>result.
       case result of Some l \<Rightarrow> kret l
       | None \<Rightarrow> kbind (trim_random tmpList (w_draws W (length tmpList))) (\<lambda>_. nodeList W))))"

definition masterNodeList :: "surroundings \<Rightarrow> dictionary list nm" where
  "masterNodeList W = kbind (nodeList W) (\<lambda>array.
     kfold (\<lambda>dict result. kbind (is_flagged dict nodeListMasterNodeKey) (\<lambda>master.
       kret (if master then result @ [dict] else result))) array [])"

definition removeWork :: "data \<Rightarrow> unit nm" where
  "removeWork ip = kbind (on_db (DatabaseRemoveNodeByIp ip)) (\<lambda>_. kret ())"

definition addressWork :: "dictionary \<Rightarrow> unit nm" where
  "addressWork dict = kbind (removeWork (DictGetS dict nodeListIpKey)) (\<lambda>_. kbind (on_db (DatabaseAddNode dict)) (\<lambda>_. kret ()))"

definition parseIp :: "surroundings \<Rightarrow> bytes \<Rightarrow> data" where
  "parseIp W ip = (if take 12 ip = replicate 10 0 @ [0xff, 0xff] then w_ntop W False (drop 12 ip) else w_ntop W True ip)"

definition nm_newAddress :: "nat \<Rightarrow> data \<Rightarrow> u16 \<Rightarrow> u32 \<Rightarrow> u64 \<Rightarrow> unit nm" where
  "nm_newAddress p ip port date svc = kbind (read_node (Some p) (\<lambda>l. nd_testnet (conn l))) (\<lambda>net.
     let entry = DictAddS DictNew nodeListIpKey ip;
         entry = DictAddS entry nodeListPortKey (DataInt (ucast port));
         entry = DictAddS entry nodeListServicesKey (DataLong svc);
         entry = DictAddS entry nodeListDateKey (DataInt date);
         entry = DictAddS entry nodeListTestNetKey (DataInt (if net then 1 else 0))
     in if svc AND REQUIRED_SERVICES \<noteq> REQUIRED_SERVICES then kret () else DatabaseExecute (AddressWork entry))"

section \<open>Connecting\<close>

definition set_timer :: "timer \<Rightarrow> u64 \<Rightarrow> unit nm" where
  "set_timer t ms = kput (\<lambda>self. self\<lparr>timers := filter (\<lambda>(u, _). u \<noteq> t) (timers self) @ [(t, ms)]\<rparr>)"

definition new_link :: "node_state \<Rightarrow> link" where
  "new_link node = \<lparr>conn = node, lastMerkleBlock = MerkleBlockNew DataNull, transactionsSinceLastMerkleBlock = 0,
     lastDlHeight = 0, lastDlSize = 0, gotFinalHeadersMessage = False\<rparr>"

definition open_node :: "surroundings \<Rightarrow> dictionary \<Rightarrow> unit nm" where
  "open_node W dict =
     kbind (kpure (DataGetInt (DictGetS dict nodeListPortKey))) (\<lambda>port.
     kbind (kget (\<lambda>self. self)) (\<lambda>self.
     let node = (NodeNew (DictGetS dict nodeListIpKey))\<lparr>services := 8, nd_testnet := nm_testnet self\<rparr>;
         node = (if port \<noteq> 0 then node\<lparr>nd_port := ucast port\<rparr> else node);
         node = NodeSendVersion (w_clock W) False (NodeConnect node);
         node = (if nm_bloomFilter self \<noteq> DataNull then NodeFilterLoad (nm_bloomFilter self) node else node)
     in kput (\<lambda>self. self\<lparr>nodes := nodes self @ [(fresh_node self, new_link node)], fresh_node := fresh_node self + 1\<rparr>)))"

fun connect_tries :: "surroundings \<Rightarrow> dictionary list \<Rightarrow> nat \<Rightarrow> nat \<Rightarrow> unit nm" where
  "connect_tries W known try 0 = kret ()"
| "connect_tries W known try (Suc left) =
     kbind (kget (\<lambda>self. length (nodes self))) (\<lambda>n. if n \<ge> ACTIVE_NODE_COUNT then kret ()
     else let dict = (case DatasRandom (w_random W try) known of None \<Rightarrow> DictNew | Some d \<Rightarrow> d) in
       kbind (kpure (DataGetLong (DictGetS dict nodeListServicesKey))) (\<lambda>svc.
       kbind (kget (\<lambda>self. list_ex (\<lambda>(_, l). DataEqual (nd_address (conn l)) (DictGetS dict nodeListIpKey)) (nodes self))) (\<lambda>hasNode.
       kbind (if svc \<noteq> 0 \<and> svc AND REQUIRED_SERVICES \<noteq> REQUIRED_SERVICES \<or> hasNode then kret () else open_node W dict) (\<lambda>_.
       connect_tries W known (try + 1) left))))"

definition fetch_bloom :: "unit nm" where
  "fetch_bloom = kbind (on_tracker TTBloomFilter) (\<lambda>bloom. kput (\<lambda>self. self\<lparr>nm_bloomFilter := bloom\<rparr>))"

definition NodeManagerConnectNodes :: "surroundings \<Rightarrow> unit nm" where
  "NodeManagerConnectNodes W =
     kbind (kget nm_bloomFilter) (\<lambda>bloom.
     kbind (if bloom \<noteq> DataNull then kret ()
       else kbind (on_tracker (TTBloomFilterNeedsUpdate (w_curve W))) (\<lambda>needed.
         kbind (if needed then on_tracker (TTUpdateBloomFilter (w_curve W) (w_sizeOf W) (w_timesLog2 W)) else kret ()) (\<lambda>_. fetch_bloom))) (\<lambda>_.
     kbind (masterNodeList W) (\<lambda>known.
     kbind (if known = [] then trimNodeListIfNeeded W else kret known) (\<lambda>known.
     kbind (connect_tries W known 1 22) (\<lambda>_.
     kbind (set_timer SetActiveNodeIfNone 2000) (\<lambda>_.
     kbind (set_timer NodeCheckup (NODE_CHECKUP_INTERVAL * 1000)) (\<lambda>_.
     set_timer BloomFilterCheckup ((NODE_CHECKUP_INTERVAL - 5) * 1000))))))))"

definition setActiveNodeIfNone :: "surroundings \<Rightarrow> unit nm" where
  "setActiveNodeIfNone W = kbind (kget activeNode) (\<lambda>active. if active \<noteq> None then kret ()
     else kbind (kput (\<lambda>self. self\<lparr>activeNode := pick_active (w_random W 0) self\<rparr>)) (\<lambda>_.
       kbind (kget activeNode) (\<lambda>active. kbind (requestHeaders active) (\<lambda>_.
       kbind (kget automaticallyPublishWaitingTransactions) (\<lambda>publish.
       if publish then publishedWaitingTransactions W else kret ())))))"

definition NodeManagerAppDidBecomeActive :: "surroundings \<Rightarrow> unit nm" where
  "NodeManagerAppDidBecomeActive W = kbind (kget activateCount) (\<lambda>count.
     kbind (kput (\<lambda>self. self\<lparr>activateCount := count + 1\<rparr>)) (\<lambda>_.
     if count = 0 then kret ()
     else kbind (kget activeNode) (\<lambda>active. kbind (requestHeaders active) (\<lambda>_.
       kbind (kget automaticallyPublishWaitingTransactions) (\<lambda>publish.
       if publish then publishedWaitingTransactions W else kret ())))))"

text \<open>The pointer to the active node stays.\<close>

definition NodeManagerDisconnectAll :: "unit nm" where
  "NodeManagerDisconnectAll = kput (\<lambda>self. self\<lparr>nodes := [], timers := [], activeConnectionsSinceCheckup := 0\<rparr>)"

definition setBloomFilter :: "data \<Rightarrow> unit nm" where
  "setBloomFilter bloom = kput (\<lambda>self.
     let clear = (\<lambda>node. if curBloomFilter node \<noteq> DataNull \<and> \<not> DataEqual (curBloomFilter node) bloom then NodeFilterClear node else node);
         load = (\<lambda>node. if curBloomFilter node = DataNull then NodeFilterLoad (DataCopyData bloom) node else node)
     in self\<lparr>nm_bloomFilter := DataCopyData bloom, nodes := map (\<lambda>(p, l). (p, on_conn (load \<circ> clear) l)) (nodes self)\<rparr>)"

definition bloomFilterCheckup :: "unit nm" where
  "bloomFilterCheckup = kput (\<lambda>self. self\<lparr>bloom_queue := bloom_queue self + 1\<rparr>)"

definition bloomFilterWorker :: "surroundings \<Rightarrow> unit nm" where
  "bloomFilterWorker W = kbind (on_tracker (TTBloomFilterNeedsUpdate (w_curve W))) (\<lambda>result. NodeManagerExecute (BloomFilterWorkerMain result))"

definition bloomFilterWorkerMain :: "bool \<Rightarrow> unit nm" where
  "bloomFilterWorkerMain result = kput (\<lambda>self. self\<lparr>bloomFilterNeedsUpdate := result\<rparr>)"

end
