(* ===== verification/Node_Rounds.thy ===== *)
theory Node_Rounds
  imports Node_Checkup
begin

text \<open>
  The periodic check of \<open>src/code/NodeManager.c\<close>, the execution of the queued work, and the round in
  which every connection processes its packets with the manager as its delegate.
\<close>

section \<open>The periodic check\<close>

definition expired :: "surroundings \<Rightarrow> pending_tx \<Rightarrow> bool" where
  "expired W r \<longleftrightarrow> sint (w_clock W - p_time r) > SEND_TX_TIMELIMIT"

definition check_pending :: "surroundings \<Rightarrow> unit nm" where
  "check_pending W = kbind (kget sendTxOnResults) (\<lambda>pending.
     kfold (\<lambda>r _. if expired W r then kbind (report 0x100 r) (\<lambda>_. kpure (nodePtrs_read r)) else kret ()) pending ())"

definition silent :: "surroundings \<Rightarrow> node_state \<Rightarrow> bool" where
  "silent W node \<longleftrightarrow> w_clock W - lastHeadersOrMerkleMessage node > NODE_CHECKUP_INTERVAL div 2"

definition unwanted :: "surroundings \<Rightarrow> dictionary list \<Rightarrow> node_state \<Rightarrow> bool" where
  "unwanted W masters node \<longleftrightarrow>
     masters \<noteq> [] \<and> \<not> list_ex (\<lambda>info. DataEqual (DictGetS info nodeListIpKey) (nd_address node)) masters
     \<or> \<not> connected node
     \<or> (if pingSendCount node \<noteq> pongRecvCount node \<and> (lastHeadersOrMerkleMessage node = 0 \<or> silent W node) then True
        else rejectCodes node \<noteq> [])"

text \<open>The last entry of the list with the address decides; nothing is forgotten while nothing is connected.\<close>

definition forget_address :: "surroundings \<Rightarrow> data \<Rightarrow> unit nm" where
  "forget_address W address = kbind (kget NodeManagerConnections) (\<lambda>n. if n = 0 then kret ()
     else kbind (nodeList W) (\<lambda>array.
       case find (\<lambda>info. DataEqual (DictGetS info nodeListIpKey) address) (rev array) of None \<Rightarrow> kret ()
       | Some info \<Rightarrow> kbind (is_flagged info nodeListMasterNodeKey) (\<lambda>master. if master then kret ()
           else kbind (is_flagged info nodeListManualNodeKey) (\<lambda>manual. if manual then kret () else removeAddress address))))"

definition drop_node :: "nat \<Rightarrow> unit nm" where
  "drop_node p = kput (\<lambda>self. self\<lparr>activeNode := (if activeNode self = Some p then None else activeNode self),
     nodes := filter (\<lambda>(q, _). q \<noteq> p) (nodes self)\<rparr>)"

definition check_node :: "surroundings \<Rightarrow> dictionary list \<Rightarrow> nat \<Rightarrow> unit nm" where
  "check_node W masters p = kbind (read_node (Some p) conn) (\<lambda>node.
     if unwanted W masters node then kbind (forget_address W (nd_address node)) (\<lambda>_. drop_node p) else kret ())"

definition refresh_bloom :: "surroundings \<Rightarrow> unit nm" where
  "refresh_bloom W =
     kbind (kget bloomFilterNeedsUpdate) (\<lambda>needed.
     kbind (if needed then on_tracker (TTSetBloomFilterDlHeight 0) else kret ()) (\<lambda>_.
     kbind (kget (\<lambda>self. TTFailureRateTooHigh (w_exceeds W) (nm_tracker self))) (\<lambda>high.
     if \<not> (needed \<or> high) then kret ()
     else kbind (kput (\<lambda>self. self\<lparr>nm_tracker := TTResetFailureRate (nm_tracker self)\<rparr>)) (\<lambda>_.
       kbind (kget activeNode) (\<lambda>active. kbind (write_node active (on_conn NodeClose)) (\<lambda>_.
       kbind (on_tracker (TTUpdateBloomFilter (w_curve W) (w_sizeOf W) (w_timesLog2 W))) (\<lambda>_.
       kbind fetch_bloom (\<lambda>_. kput (\<lambda>self. self\<lparr>bloomFilterNeedsUpdate := False\<rparr>)))))))))"

definition stuck_active :: "surroundings \<Rightarrow> bool nm" where
  "stuck_active W = kbind (kget activeNode) (\<lambda>active. if active = None then kret True
     else kbind (read_node active id) (\<lambda>l. kret (\<not> gotFinalHeadersMessage l \<and> silent W (conn l))))"

definition first_connected :: "surroundings \<Rightarrow> manager \<Rightarrow> nat option" where
  "first_connected W self = find (\<lambda>p. p \<in> set (connectedNodes self)) (w_subarray W (map fst (nodes self)) (length (nodes self)))"

definition nodeCheckup :: "surroundings \<Rightarrow> unit nm" where
  "nodeCheckup W =
     kbind (kget (\<lambda>self. length (nodes self))) (\<lambda>originalCount.
     kbind (NodeManagerExecute UpdateTransactionFees) (\<lambda>_.
     kbind (refresh_bloom W) (\<lambda>_.
     kbind (check_pending W) (\<lambda>_.
     kbind (masterNodeList W) (\<lambda>masters.
     kbind (kget (\<lambda>self. map fst (nodes self))) (\<lambda>ps.
     kbind (kfold (\<lambda>p _. check_node W masters p) ps ()) (\<lambda>_.
     kbind (stuck_active W) (\<lambda>stuck.
     kbind (if stuck then kbind (changeActiveNode W) (\<lambda>_. kbind (kget activeNode) requestHeaders) else kret ()) (\<lambda>_.
     kbind (kget (\<lambda>self. if activeNode self = None then first_connected W self else None)) (\<lambda>found.
     kbind (if found = None then kret () else kbind (kput (\<lambda>self. self\<lparr>activeNode := found\<rparr>)) (\<lambda>_. requestHeaders found)) (\<lambda>_.
     kbind (if originalCount \<noteq> 0 then NodeManagerConnectNodes W else kret ()) (\<lambda>_.
     kbind (kput (\<lambda>self. self\<lparr>activeConnectionsSinceCheckup := NodeManagerConnections self,
       nodes := map (\<lambda>(p, l). (p, on_conn NodeSendPing l)) (nodes self)\<rparr>)) (\<lambda>_.
     kbind (set_timer NodeCheckup (NODE_CHECKUP_INTERVAL * 1000)) (\<lambda>_.
     set_timer BloomFilterCheckup ((NODE_CHECKUP_INTERVAL - 5) * 1000)))))))))))))))"

section \<open>Executing work\<close>

definition run_db_work :: "surroundings \<Rightarrow> db_work \<Rightarrow> unit nm" where
  "run_db_work W job = (case job of
     BlockHeadersWork p headers \<Rightarrow> blockHeadersWork p headers
   | RequestTransactionsWorker p creationDate \<Rightarrow> requestTransactionsWorker p creationDate
   | RequestHeadersWorker p \<Rightarrow> requestHeadersWorker p
   | TxWorkerAddTransaction txData blockData \<Rightarrow> txWorkerAddTransaction W txData blockData
   | RemoveWork ip \<Rightarrow> removeWork ip
   | AddressWork dict \<Rightarrow> addressWork dict)"

definition run_main_work :: "surroundings \<Rightarrow> main_work \<Rightarrow> unit nm" where
  "run_main_work W job = (case job of
     BlockHeadersWorkMain p headerCount hash addCount rejectCount \<Rightarrow> blockHeadersWorkMain W p headerCount hash addCount rejectCount
   | RequestTransactionsWorkerMain p itemCount lastItem requests \<Rightarrow> requestTransactionsWorkerMain p itemCount lastItem requests
   | RequestHeadersWorkerMain p hashes \<Rightarrow> requestHeadersWorkerMain p hashes
   | TxWorkerMain p height \<Rightarrow> txWorkerMain W p height
   | BloomFilterWorkerMain result \<Rightarrow> bloomFilterWorkerMain result
   | UpdateTransactionFees \<Rightarrow> updateTransactionFees)"

definition run_timer :: "surroundings \<Rightarrow> timer \<Rightarrow> unit nm" where
  "run_timer W t = (case t of SetActiveNodeIfNone \<Rightarrow> setActiveNodeIfNone W | NodeCheckup \<Rightarrow> nodeCheckup W
     | BloomFilterCheckup \<Rightarrow> bloomFilterCheckup)"

text \<open>One step of each thread: the oldest work in its queue is executed.\<close>

definition db_step :: "surroundings \<Rightarrow> unit nm" where
  "db_step W = kbind (kget db_queue) (\<lambda>q. case q of [] \<Rightarrow> kret ()
     | job # rest \<Rightarrow> kbind (kput (\<lambda>self. self\<lparr>db_queue := rest\<rparr>)) (\<lambda>_. run_db_work W job))"

definition main_step :: "surroundings \<Rightarrow> unit nm" where
  "main_step W = kbind (kget main_queue) (\<lambda>q. case q of [] \<Rightarrow> kret ()
     | job # rest \<Rightarrow> kbind (kput (\<lambda>self. self\<lparr>main_queue := rest\<rparr>)) (\<lambda>_. run_main_work W job))"

definition tx_step :: "unit nm" where
  "tx_step = kbind (kget tx_queue) (\<lambda>q. case q of [] \<Rightarrow> kret ()
     | TxWorker p txData blockData # rest \<Rightarrow> kbind (kput (\<lambda>self. self\<lparr>tx_queue := rest\<rparr>)) (\<lambda>_. txWorker p txData blockData))"

definition bloom_step :: "surroundings \<Rightarrow> unit nm" where
  "bloom_step W = kbind (kget bloom_queue) (\<lambda>n. if n = 0 then kret ()
     else kbind (kput (\<lambda>self. self\<lparr>bloom_queue := n - 1\<rparr>)) (\<lambda>_. bloomFilterWorker W))"

definition timer_step :: "surroundings \<Rightarrow> timer \<Rightarrow> unit nm" where
  "timer_step W t = kbind (kput (\<lambda>self. self\<lparr>timers := filter (\<lambda>(u, _). u \<noteq> t) (timers self)\<rparr>)) (\<lambda>_. run_timer W t)"

section \<open>The connections\<close>

text \<open>
  While a connection processes its packets, its state is outside the manager; a callback puts it
  back, acts on the manager and takes it out again.
\<close>

definition by_manager :: "nat \<Rightarrow> 'a nm \<Rightarrow> (manager, 'a) peer" where
  "by_manager p m = (\<lambda>(node, self). case m (change_link p (on_conn (\<lambda>_. node)) self) of None \<Rightarrow> None | Some (Inl e) \<Rightarrow> Some (Inl e)
     | Some (Inr (x, self)) \<Rightarrow> (case map_of (nodes self) p of None \<Rightarrow> Some (Inl Fault) | Some l \<Rightarrow> Some (Inr (x, (conn l, self)))))"

definition manager_delegate :: "surroundings \<Rightarrow> nat \<Rightarrow> manager delegate" where
  "manager_delegate W p = \<lparr>
     newAddress = Some (\<lambda>ip port date svc. by_manager p (nm_newAddress p (parseIp W ip) port date svc)),
     merkleBlock = Some (\<lambda>blockData. by_manager p (nm_merkleBlock W p blockData)),
     blockHeaders = Some (\<lambda>headers. by_manager p (nm_blockHeaders W p headers)),
     inventory = Some (\<lambda>types hashes. by_manager p (nm_inventory p types hashes)),
     tx_received = Some (\<lambda>d. by_manager p (nm_tx p d)),
     message = Some (\<lambda>about code reason d. by_manager p (nm_message about code reason d))\<rparr>"

definition on_node :: "nat \<Rightarrow> (manager, unit) peer \<Rightarrow> unit nm" where
  "on_node p m = kbind (read_node (Some p) conn) (\<lambda>node. (\<lambda>self. case m (node, self) of None \<Rightarrow> None | Some (Inl e) \<Rightarrow> Some (Inl e)
     | Some (Inr (_, (node, self))) \<Rightarrow> Some (Inr ((), change_link p (on_conn (\<lambda>_. node)) self))))"

text \<open>
  \<open>select\<close> and \<open>recv\<close> answer for each connection. Then the queued work is executed; none of it
  queues more for the manager, so as many steps empty the queue as it has entries.
\<close>

definition NodeManagerProcessNodes :: "surroundings \<Rightarrow> (nat \<Rightarrow> (bool \<times> bool) option) \<Rightarrow> (nat \<Rightarrow> bytes option) \<Rightarrow> unit nm" where
  "NodeManagerProcessNodes W selected answer =
     kbind (kget (\<lambda>self. map fst (nodes self))) (\<lambda>ps.
     kbind (kfold (\<lambda>p _. on_node p (NodeProcessPackets (manager_delegate W p) (w_clock W) (selected p) (answer p))) ps ()) (\<lambda>_.
     kbind (kget (\<lambda>self. length (main_queue self))) (\<lambda>n. kfold (\<lambda>_ _. main_step W) [0..<n] ())))"

end
