(* ===== verification/Node_Manager_Props.thy ===== *)
theory Node_Manager_Props
  imports Database_Props Tracker_Props Signing_Props Node_Rounds
begin

text \<open>
  What the node manager makes of the messages of a peer: from the headers of a message to the chain
  and the next request, and what happens to a transaction that is sent.
\<close>

section \<open>Headers\<close>

lemmas nm_run = kbind_def kget_def kput_def kret_def kpure_def

lemma on_db_run: "m (nm_database self) = Some (Inr (x, db)) \<Longrightarrow> on_db m self = Some (Inr (x, self\<lparr>nm_database := db\<rparr>))"
  by (simp add: on_db_def)

lemma add_headers_run:
  assumes "add_blocks (map (\<lambda>d. MerkleBlockNew (DataCopyData d)) ds) results (nm_database self) = Some (Inr (rs, db'))"
    and "\<forall>d\<in>set ds. 80 \<le> dlength d"
  shows "\<exists>ks. rs = results @ ks \<and> length ks = length ds \<and> add_headers ds a r self
    = Some (Inr (Some (a + count_list ks True, r + count_list ks False), self\<lparr>nm_database := db'\<rparr>))"
  using assms
proof (induction ds arbitrary: results self a r)
  case Nil
  then show ?case by (simp add: add_blocks_def kret_def)
next
  case (Cons d ds)
  let ?b = "MerkleBlockNew (DataCopyData d)"
  from Cons.prems(1) obtain added b' db1 where step: "DatabaseAddBlock ?b (nm_database self) = Some (Inr ((added, b'), db1))"
    "add_blocks (map (\<lambda>d. MerkleBlockNew (DataCopyData d)) ds) (results @ [added]) db1 = Some (Inr (rs, db'))"
    by (auto simp: add_blocks_def kbind_def kret_def split: option.splits sum.splits prod.splits)
  have d: "\<not> dlength d < 80" "\<forall>d\<in>set ds. 80 \<le> dlength d" using Cons.prems(2) by auto
  have "\<exists>ks. rs = (results @ [added]) @ ks \<and> length ks = length ds
    \<and> add_headers ds (if added then a + 1 else a) (if added then r else r + 1) (self\<lparr>nm_database := db1\<rparr>)
      = Some (Inr (Some ((if added then a + 1 else a) + count_list ks True, (if added then r else r + 1) + count_list ks False),
          self\<lparr>nm_database := db1\<rparr>\<lparr>nm_database := db'\<rparr>))"
    by (rule Cons.IH) (use step(2) d(2) in simp_all)
  then obtain ks where ks: "rs = (results @ [added]) @ ks" "length ks = length ds"
    "add_headers ds (if added then a + 1 else a) (if added then r else r + 1) (self\<lparr>nm_database := db1\<rparr>)
      = Some (Inr (Some ((if added then a + 1 else a) + count_list ks True, (if added then r else r + 1) + count_list ks False),
          self\<lparr>nm_database := db'\<rparr>))" by auto
  then have "add_headers (d # ds) a r self = Some (Inr (Some (a + count_list (added # ks) True, r + count_list (added # ks) False), self\<lparr>nm_database := db'\<rparr>))"
    using d(1) on_db_run [of "DatabaseAddBlock ?b", OF step(1)] by (cases added) (simp_all add: kbind_def)
  with ks(1,2) show ?case by (intro exI [of _ "added # ks"]) simp
qed

lemma count_replicate [simp]: "count_list (replicate n x) y = (if x = y then n else 0)"
  by (induction n) auto

lemma map_of_change:
  "map_of (nodes (change_link p f self)) q = (if q = p then map_option f (map_of (nodes self) q) else map_of (nodes self) q)"
proof -
  have "map_of (map (\<lambda>(q, l). (q, if q = p then f l else l)) ns) q = (if q = p then map_option f (map_of ns q) else map_of ns q)" for ns
    by (induction ns) auto
  then show ?thesis by (simp add: change_link_def)
qed

lemma change_fst [simp]: "map fst (nodes (change_link p f self)) = map fst (nodes self)"
  by (simp add: change_link_def comp_def case_prod_beta)

lemma change_other [simp]:
  "db_queue (change_link p f self) = db_queue self" "main_queue (change_link p f self) = main_queue self"
  "nm_database (change_link p f self) = nm_database self" "nm_tracker (change_link p f self) = nm_tracker self"
  "activeNode (change_link p f self) = activeNode self" "walletCreationDate (change_link p f self) = walletCreationDate self"
  "blockchainSynced (change_link p f self) = blockchainSynced self"
  by (simp_all add: change_link_def)

lemma write_node_run:
  "map_of (nodes self) p = Some l \<Longrightarrow> write_node (Some p) f self = Some (Inr ((), change_link p f self))"
  by (simp add: write_node_def read_node_def nm_run)

lemma count_keys: "distinct (map fst ns) \<Longrightarrow> length (filter (\<lambda>(q, _). q = p) ns) = (if p \<in> fst ` set ns then 1 else 0)"
  by (induction ns) (force simp: filter_empty_conv)+

lemma still_valid:
  assumes "map_of (nodes self) p = Some l" "distinct (map fst (nodes self))"
  shows "nodeStillValid (Some p) self = Some (Inr (True, self))"
proof -
  have "p \<in> fst ` set (nodes self)" using map_of_SomeD [OF assms(1)] by force
  then show ?thesis using count_keys [OF assms(2), of p] by (auto simp: nodeStillValid_def nm_run simp flip: length_0_conv)
qed

text \<open>A message with headers, handled by the three threads in turn.\<close>

definition headers_message :: "surroundings \<Rightarrow> nat \<Rightarrow> datas \<Rightarrow> unit nm" where
  "headers_message W p headers = kbind (nm_blockHeaders W p headers) (\<lambda>_. kbind (db_step W) (\<lambda>_. main_step W))"

definition chain_of :: "datas \<Rightarrow> merkle_block list" where
  "chain_of headers = map (\<lambda>d. MerkleBlockNew (DataCopyData d)) headers"

lemma linked_long: "linked prev bs \<Longrightarrow> b \<in> set bs \<Longrightarrow> 80 \<le> dlength (mb_data b)"
  by (induction prev bs rule: linked.induct) (auto simp: fresh_block_def intro: valid_long)

lemma headers_long: "linked prev (chain_of ds) \<Longrightarrow> \<forall>d\<in>set ds. 80 \<le> dlength d"
  using linked_long [of prev "chain_of ds"] by (force simp: chain_of_def MerkleBlockNew_def)

lemma blockHeaders_queues:
  assumes "map_of (nodes self) p = Some l"
  shows "\<exists>nc. nm_blockHeaders W p ds self = Some (Inr ((),
    change_link p (on_conn (\<lambda>node. node\<lparr>lastHeadersOrMerkleMessage := w_clock W\<rparr>)) (self\<lparr>nm_center := nc\<rparr>)
      \<lparr>db_queue := db_queue self @ [BlockHeadersWork p ds]\<rparr>))"
proof -
  have w: "write_node (Some p) f (self\<lparr>nm_center := nc\<rparr>) = Some (Inr ((), change_link p f (self\<lparr>nm_center := nc\<rparr>)))" for f nc
    by (rule write_node_run) (use assms in simp)
  have e: "self = self\<lparr>nm_center := nm_center self\<rparr>" by simp
  show ?thesis
  proof (cases "length ds > 1 \<and> \<not> blockchainSynced self")
    case True
    then show ?thesis by (auto simp: nm_blockHeaders_def synced_change_def DatabaseExecute_def kbind_def kget_def kput_def w)
  next
    case False
    then show ?thesis using w [of _ "nm_center self"]
      by (auto simp: nm_blockHeaders_def DatabaseExecute_def kbind_def kget_def kput_def kret_def intro: exI [of _ "nm_center self"])
  qed
qed

lemma dl_height_kept:
  "bloomFilterDlHeight tr \<noteq> 0 \<Longrightarrow> TTBloomFilterDlHeight tr = Some (Inr (bloomFilterDlHeight tr, tr))"
  by (simp add: TTBloomFilterDlHeight_def kbind_def kget_def kret_def)

lemma requestTransactions_queues:
  assumes "map_of (nodes self) p = Some l" "activeNode self = Some p" "bloomFilterDlHeight (nm_tracker self) \<noteq> 0"
    and "sint (bloomFilterDlHeight (nm_tracker self)) < DatabaseHighestHeight (nm_database self)"
  shows "requestTransactions W self = Some (Inr ((),
    change_link p (on_conn (\<lambda>node. node\<lparr>lastHeadersOrMerkleMessage := w_clock W\<rparr>)) self
      \<lparr>db_queue := db_queue self @ [RequestTransactionsWorker (Some p) (walletCreationDate self)]\<rparr>))"
proof -
  have "on_tracker TTBloomFilterDlHeight self = Some (Inr (bloomFilterDlHeight (nm_tracker self), self))"
    by (simp add: on_tracker_def dl_height_kept [OF assms(3)])
  then show ?thesis
    using assms by (simp add: requestTransactions_def kbind_def kget_def write_node_run DatabaseExecute_def kput_def)
qed

lemma main_reaction:
  assumes "map_of (nodes self) p = Some l" "distinct (map fst (nodes self))" "activeNode self = Some p"
    and "bloomFilterDlHeight (nm_tracker self) \<noteq> 0"
    and "sint (bloomFilterDlHeight (nm_tracker self)) < DatabaseHighestHeight (nm_database self)" "n \<noteq> 0"
  shows "\<exists>self'. blockHeadersWorkMain W p n hash n 0 self = Some (Inr ((), self')) \<and> nm_database self' = nm_database self
    \<and> db_queue self' = db_queue self @ (if n = 1 then [] else if n = 2000 then [RequestHeadersWorker (Some p)]
        else [RequestTransactionsWorker (Some p) (walletCreationDate self)])
    \<and> (n \<noteq> 1 \<longrightarrow> n \<noteq> 2000 \<longrightarrow> (\<exists>l. map_of (nodes self') p = Some l \<and> gotFinalHeadersMessage l))"
proof -
  let ?clock = "on_conn (\<lambda>node. node\<lparr>lastHeadersOrMerkleMessage := w_clock W\<rparr>)"
  let ?s1 = "change_link p ?clock self"
  note start = blockHeadersWorkMain_def kbind_def still_valid [OF assms(1,2)] write_node_run [OF assms(1)]
  consider "n = 1" | "n = 2000" | "n \<noteq> 1" "n \<noteq> 2000" by blast
  then show ?thesis
  proof cases
    case 1
    then show ?thesis by (simp add: start kput_def)
  next
    case 2
    then show ?thesis using assms(3) by (simp add: start kget_def kret_def requestHeaders_def DatabaseExecute_def kput_def)
  next
    case 3
    let ?s2 = "change_link p (\<lambda>l. l\<lparr>gotFinalHeadersMessage := True\<rparr>) (?s1\<lparr>nm_rejectCount := 0\<rparr>)"
    have l: "map_of (nodes (?s1\<lparr>nm_rejectCount := 0\<rparr>)) p = Some (?clock l)" by (simp add: map_of_change assms(1))
    have l2: "map_of (nodes ?s2) p = Some ((?clock l)\<lparr>gotFinalHeadersMessage := True\<rparr>)" unfolding map_of_change l by (simp add: map_of_change assms(1))
    have "requestTransactions W ?s2 = Some (Inr ((), change_link p ?clock ?s2
        \<lparr>db_queue := db_queue ?s2 @ [RequestTransactionsWorker (Some p) (walletCreationDate ?s2)]\<rparr>))"
      by (rule requestTransactions_queues [OF l2]) (use assms(3-5) in simp_all)
    then have "blockHeadersWorkMain W p n hash n 0 self = Some (Inr ((), change_link p ?clock ?s2
        \<lparr>db_queue := db_queue ?s2 @ [RequestTransactionsWorker (Some p) (walletCreationDate ?s2)]\<rparr>))"
      using 3 by (simp add: start kput_def write_node_run [OF l])
    moreover have "map_of (nodes (change_link p ?clock ?s2)) p = Some (?clock ((?clock l)\<lparr>gotFinalHeadersMessage := True\<rparr>))"
      by (simp only: map_of_change [of p ?clock ?s2] l2 simp_thms if_True option.simps)
    ultimately show ?thesis using 3 by (simp add: on_conn_def)
  qed
qed

text \<open>
  C4. From a message to the chain. When the active peer sends up to 2000 headers that continue the
  highest known block, then, after the database thread and the manager have done the work that follows,
  all of them are in the chain, found at their heights, and the manager goes on: a full message makes it
  ask for more headers, a shorter one is the last one and makes it ask for the transactions, and a single
  header is an announcement.
\<close>

theorem headers_reach_chain:
  assumes "map_of (nodes self) p = Some l" "distinct (map fst (nodes self))" "activeNode self = Some p"
    and "db_queue self = []" "main_queue self = []" "db = nm_database self" "bs = chain_of headers"
    and "headers \<noteq> []" "length headers \<le> 2000"
    and "well_kept db" "linked tip bs" "unambiguous db tip" "height_in db tip = t" "0 \<le> t"
    and "\<forall>r\<in>set (db_blocks db). b_height r \<le> t" "t + int (length bs) < 2 ^ 31"
    and "distinct (map b_prefix (db_blocks db) @ map (\<lambda>b. hash_prefix (header_hash b)) bs)"
    and "bloomFilterDlHeight (nm_tracker self) \<noteq> 0" "sint (bloomFilterDlHeight (nm_tracker self)) \<le> t"
  shows "\<exists>self'. headers_message W p headers self = Some (Inr ((), self'))
    \<and> DatabaseHighestHeight (nm_database self') = t + int (length headers)
    \<and> (\<forall>i<length headers. DatabaseHashOf (nm_database self') (t + 1 + int i) = header_hash (bs ! i))
    \<and> db_queue self' = (if length headers = 1 then [] else if length headers = 2000 then [RequestHeadersWorker (Some p)]
        else [RequestTransactionsWorker (Some p) (walletCreationDate self)])
    \<and> (length headers \<noteq> 1 \<longrightarrow> length headers \<noteq> 2000 \<longrightarrow> (\<exists>l. map_of (nodes self') p = Some l \<and> gotFinalHeadersMessage l))"
proof -
  let ?clock = "on_conn (\<lambda>node. node\<lparr>lastHeadersOrMerkleMessage := w_clock W\<rparr>)"
  let ?n = "length headers"
  obtain db' where db': "add_blocks bs [] db = Some (Inr (replicate (length bs) True, db'))"
    "DatabaseHighestHeight db' = t + int (length bs)"
    "\<forall>i<length bs. DatabaseHashOf db' (t + 1 + int i) = header_hash (bs ! i)"
    using chain_built [OF assms(10-17)] by blast
  have len: "length bs = ?n" by (simp add: assms(7) chain_of_def)
  obtain nc where "nm_blockHeaders W p headers self = Some (Inr ((), change_link p ?clock (self\<lparr>nm_center := nc\<rparr>)
      \<lparr>db_queue := db_queue self @ [BlockHeadersWork p headers]\<rparr>))"
    using blockHeaders_queues [OF assms(1)] by blast
  moreover define self1 where "self1 = change_link p ?clock (self\<lparr>nm_center := nc\<rparr>)"
  ultimately have queued: "nm_blockHeaders W p headers self = Some (Inr ((), self1\<lparr>db_queue := [BlockHeadersWork p headers]\<rparr>))"
    by (simp add: assms(4))
  have self1: "nm_database self1 = db" "nm_tracker self1 = nm_tracker self" "activeNode self1 = Some p" "main_queue self1 = []"
    "distinct (map fst (nodes self1))" "map_of (nodes self1) p = Some (?clock l)" "walletCreationDate self1 = walletCreationDate self"
    unfolding self1_def using assms(1-6) by (simp_all add: map_of_change)
  have "\<exists>ks. replicate (length bs) True = [] @ ks \<and> length ks = ?n \<and> add_headers headers 0 0 (self1\<lparr>db_queue := []\<rparr>)
    = Some (Inr (Some (0 + count_list ks True, 0 + count_list ks False), self1\<lparr>db_queue := []\<rparr>\<lparr>nm_database := db'\<rparr>))"
    by (rule add_headers_run) (use db'(1) self1(1) headers_long [of tip headers] assms(7,11) in \<open>simp_all add: chain_of_def\<close>)
  then have added: "add_headers headers 0 0 (self1\<lparr>db_queue := []\<rparr>) = Some (Inr (Some (?n, 0), self1\<lparr>db_queue := [], nm_database := db'\<rparr>))"
    by (auto simp: len)
  define self2 where "self2 = self1\<lparr>db_queue := [], nm_database := db', main_queue := []\<rparr>"
  define hash where "hash = fst (blockHash (MerkleBlockNew (last headers)))"
  have worked: "db_step W (self1\<lparr>db_queue := [BlockHeadersWork p headers]\<rparr>)
      = Some (Inr ((), self2\<lparr>main_queue := [BlockHeadersWorkMain p ?n hash ?n 0]\<rparr>))"
    by (simp add: hash_def assms(8) db_step_def kbind_def kget_def kput_def run_db_work_def blockHeadersWork_def Let_def added NodeManagerExecute_def
        self2_def self1(4))
  have above: "sint (bloomFilterDlHeight (nm_tracker self)) < t + int ?n" using assms(8,19) by (cases headers) simp_all
  have "\<exists>self'. blockHeadersWorkMain W p ?n hash ?n 0 self2 = Some (Inr ((), self')) \<and> nm_database self' = nm_database self2
    \<and> db_queue self' = db_queue self2 @ (if ?n = 1 then [] else if ?n = 2000 then [RequestHeadersWorker (Some p)]
        else [RequestTransactionsWorker (Some p) (walletCreationDate self2)])
    \<and> (?n \<noteq> 1 \<longrightarrow> ?n \<noteq> 2000 \<longrightarrow> (\<exists>l. map_of (nodes self') p = Some l \<and> gotFinalHeadersMessage l))"
    by (rule main_reaction) (use self1 assms(8,18) above db'(2) len in \<open>simp_all add: self2_def\<close>)
  moreover have "main_step W (self2\<lparr>main_queue := [BlockHeadersWorkMain p ?n hash ?n 0]\<rparr>) = blockHeadersWorkMain W p ?n hash ?n 0 self2"
    by (simp add: main_step_def kbind_def kget_def kput_def run_main_work_def self2_def)
  ultimately show ?thesis
    using worked queued db' len self1(7) by (fastforce simp: headers_message_def kbind_def self2_def)
qed

section \<open>Transactions that are sent\<close>

definition link_part :: "manager \<Rightarrow> (nat \<times> link) list \<times> pending_tx list" where
  "link_part self = (nodes self, sendTxOnResults self)"

lemma parts_keep_links: "maintains (\<lambda>self. link_part self = v) (on_db m)" "maintains (\<lambda>self. link_part self = v) (on_tracker t)"
  by (auto simp: maintains_def on_db_def on_tracker_def link_part_def split: option.splits sum.splits prod.splits)

lemma fees_keep_links: "maintains (\<lambda>self. link_part self = v) updateTransactionFees"
  unfolding updateTransactionFees_def by (intro maintained parts_keep_links)

lemma send_result:
  assumes "NodeManagerSendTx W tx onResult self = Some (Inr ((), self'))" "length (outputs tx) \<noteq> 1"
    and "ps = w_subarray W (map fst (nodes self)) (length (nodes self) div 2)"
  shows "nodes self' = nodes self" "sendTxOnResults self' = sendTxOnResults self @ (if onResult = 0 then [] else
    replicate (length ps) \<lparr>p_txid = TransactionTxid tx, p_wtxid = TransactionWtxid tx, p_onResult = onResult, p_time = w_clock W,
      p_nodePtrs = raw_datas (w_array W) ps\<rparr>)"
proof -
  obtain x y self1 self2 self3 where run: "on_tracker (TTAddTransaction (TransactionData tx)) self = Some (Inr (x, self1))"
    "on_db (DatabaseAddTransaction (uint (w_clock W)) (TransactionData tx) None) self1 = Some (Inr (y, self2))"
    "updateTransactionFees self2 = Some (Inr ((), self3))"
    "self' = self3\<lparr>sendTxOnResults := sendTxOnResults self3 @ (if onResult = 0 then [] else
      replicate (length (w_subarray W (map fst (nodes self3)) (length (nodes self3) div 2)))
        \<lparr>p_txid = TransactionTxid tx, p_wtxid = TransactionWtxid tx, p_onResult = onResult, p_time = w_clock W,
          p_nodePtrs = raw_datas (w_array W) (w_subarray W (map fst (nodes self3)) (length (nodes self3) div 2))\<rparr>)\<rparr>"
    using assms(1,2) by (auto simp: NodeManagerSendTx_def kbind_def kret_def kget_def kput_def split: option.splits sum.splits)
  have "link_part self1 = link_part self" by (rule maintainsD [of "on_tracker (TTAddTransaction (TransactionData tx))", OF run(1) parts_keep_links(2)]) simp
  moreover have "link_part self2 = link_part self1" by (rule maintainsD [of "on_db (DatabaseAddTransaction (uint (w_clock W)) (TransactionData tx) None)", OF run(2) parts_keep_links(1)]) simp
  moreover have "link_part self3 = link_part self2" by (rule maintainsD [of updateTransactionFees, OF run(3) fees_keep_links]) simp
  ultimately have "nodes self3 = nodes self" "sendTxOnResults self3 = sendTxOnResults self" by (simp_all add: link_part_def)
  then show "nodes self' = nodes self" "sendTxOnResults self' = sendTxOnResults self @ (if onResult = 0 then [] else
    replicate (length ps) \<lparr>p_txid = TransactionTxid tx, p_wtxid = TransactionWtxid tx, p_onResult = onResult, p_time = w_clock W,
      p_nodePtrs = raw_datas (w_array W) ps\<rparr>)"
    using run(4) assms(3) by simp_all
qed

lemma raw_read: "p_nodePtrs r = raw_datas array ps \<Longrightarrow> nodePtrs_read r = Inl Abort"
  by (simp add: nodePtrs_read_def raw_datas_def DataGetPtr_def)

text \<open>
  C38. What becomes of a transaction that is sent. \<open>NodeManagerSendTx\<close> leaves every connection as it is,
  so no peer gets the transaction (the exception being one with a single output, for which the bloom
  filters are loaded again), and with a callback and at least one chosen connection the next rejection
  that any peer sends ends the program, and so does the check after the time limit.
\<close>

theorem sent_transaction_goes_nowhere:
  assumes "NodeManagerSendTx W tx onResult self = Some (Inr ((), self'))" "length (outputs tx) \<noteq> 1"
    and "sendTxOnResults self = []" "onResult \<noteq> 0" "w_subarray W (map fst (nodes self)) (length (nodes self) div 2) \<noteq> []"
    and "sint (w_clock W' - w_clock W) > 20"
  shows "nodes self' = nodes self \<and> nm_message about code reason d self' = Some (Inl Abort)
    \<and> check_pending W' self' = Some (Inl Abort)"
proof -
  let ?ps = "w_subarray W (map fst (nodes self)) (length (nodes self) div 2)"
  let ?r = "\<lparr>p_txid = TransactionTxid tx, p_wtxid = TransactionWtxid tx, p_onResult = onResult, p_time = w_clock W,
      p_nodePtrs = raw_datas (w_array W) ?ps\<rparr>"
  obtain n where n: "length ?ps = Suc n" using assms(5) by (cases ?ps) auto
  have pending: "sendTxOnResults self' = ?r # replicate n ?r" using send_result(2) [OF assms(1,2) refl] assms(3,4) n by simp
  have abort: "nodePtrs_read ?r = Inl Abort" by (rule raw_read) simp
  have "nm_message about code reason d self' = Some (Inl Abort)"
    by (simp add: nm_message_def kbind_def kget_def pending kpure_def abort)
  moreover have "expired W' ?r" using assms(6) by (simp add: expired_def SEND_TX_TIMELIMIT_def)
  then have "check_pending W' self' = Some (Inl Abort)"
    by (simp add: check_pending_def kbind_def kget_def pending report_def assms(4) kput_def kpure_def abort)
  ultimately show ?thesis using send_result(1) [OF assms(1,2) refl] by blast
qed

section \<open>Examples\<close>

definition example_link :: link where
  "example_link = new_link (NodeNew (Bytes [49]))"

definition example_manager :: manager where
  "example_manager = (NodeManagerNew 0 (DatabaseNew [] None False False) (watching\<lparr>bloomFilterDlHeight := - 1\<rparr>))
     \<lparr>nodes := [(0, example_link), (1, example_link)], activeNode := Some 0\<rparr>"

definition example_surroundings :: surroundings where
  "example_surroundings = \<lparr>w_curve = toy_ecc, w_clock = 1000, w_random = (\<lambda>_ _. 0), w_draws = (\<lambda>_. []), w_subarray = (\<lambda>ps n. take n ps),
     w_exceeds = (\<lambda>_ _. False), w_sizeOf = (\<lambda>_. 0), w_timesLog2 = (\<lambda>_. 0), w_initial = [], w_peers = (\<lambda>_. []), w_array = 4096,
     w_ntop = (\<lambda>_ _. DataNull)\<rparr>"

theorem headers_reach_chain_witness:
  "\<exists>self'. headers_message example_surroundings 0 [mb_data first_block] example_manager = Some (Inr ((), self'))
    \<and> DatabaseHighestHeight (nm_database self') = 1 \<and> DatabaseHashOf (nm_database self') 1 = header_hash first_block"
proof -
  let ?db = "DatabaseNew [] None False False" and ?tip = "blockPrevHash first_block"
  have chain: "chain_of [mb_data first_block] = [first_block]" by (simp add: chain_of_def first_block_def MerkleBlockNew_def)
  have b: "db_blocks ?db = []" by (simp add: DatabaseNew_def)
  have l: "linked ?tip [first_block]" using first_block_ok by (simp add: fresh_block_def)
  have h: "height_in ?db ?tip = 0" using first_block_ok(3) by (simp add: height_in_def b)
  have u: "unambiguous ?db ?tip" by (simp add: unambiguous_def b)
  have "\<exists>self'. headers_message example_surroundings 0 [mb_data first_block] example_manager = Some (Inr ((), self'))
    \<and> DatabaseHighestHeight (nm_database self') = 0 + int (length [mb_data first_block])
    \<and> (\<forall>i<length [mb_data first_block]. DatabaseHashOf (nm_database self') (0 + 1 + int i) = header_hash ([first_block] ! i))
    \<and> db_queue self' = (if length [mb_data first_block] = 1 then [] else if length [mb_data first_block] = 2000 then [RequestHeadersWorker (Some 0)]
        else [RequestTransactionsWorker (Some 0) (walletCreationDate example_manager)])
    \<and> (length [mb_data first_block] \<noteq> 1 \<longrightarrow> length [mb_data first_block] \<noteq> 2000
       \<longrightarrow> (\<exists>l. map_of (nodes self') 0 = Some l \<and> gotFinalHeadersMessage l))"
    by (rule headers_reach_chain [of _ _ example_link ?db])
      (use new_database_kept [of False False] chain b l h u in \<open>simp_all add: example_manager_def NodeManagerNew_def\<close>)
  then show ?thesis by auto
qed

lemma empty_parsed: "case TransactionNew (TransactionData TransactionEmpty) of Inl _ \<Rightarrow> False
    | Inr tx \<Rightarrow> inputs tx = [] \<and> \<not> TTTransactionContainsOneOf tx (DictOne (Bytes [42]) DataNull)"
  by code_simp

lemma example_add:
  "\<exists>tr. on_tracker (TTAddTransaction (TransactionData TransactionEmpty)) example_manager = Some (Inr (- 2, example_manager\<lparr>nm_tracker := tr\<rparr>))
    \<and> allTransactions tr = []"
proof -
  let ?tr = "watching\<lparr>bloomFilterDlHeight := - 1\<rparr>"
  obtain tx where tx: "TransactionNew (TransactionData TransactionEmpty) = Inr tx" "inputs tx = []"
    "\<not> TTTransactionContainsOneOf tx (DictOne (Bytes [42]) DataNull)"
    using empty_parsed by (auto split: sum.splits)
  have f: "funded (allTransactions ?tr) tx = tx" using tx(2) by (simp add: funded_def)
  have k: "TTKeysAndKeyHashes ?tr = Some (Inr (DictOne (Bytes [42]) DataNull, ?tr))"
  proof -
    have "DictionaryCount (DictOne (Bytes [42]) DataNull) \<noteq> 0" by code_simp
    then show ?thesis by (simp add: TTKeysAndKeyHashes_def kbind_def kget_def kret_def watching_def)
  qed
  have "\<not> wanted (DictOne (Bytes [42]) DataNull) ?tr tx" using tx(3) watching_facts(3) by (simp add: wanted_def)
  moreover have "stored_ok ?tr" using watching_facts(2) by (simp add: stored_ok_def)
  ultimately have "TTAddTransaction (TransactionData TransactionEmpty) ?tr = Some (Inr (- 2, ?tr\<lparr>mismatchCount := mismatchCount ?tr + 1\<rparr>))"
    using add_result [OF _ k tx(1) f [symmetric]] by simp
  then show ?thesis
    using watching_facts(3) by (intro exI [of _ "?tr\<lparr>mismatchCount := mismatchCount ?tr + 1\<rparr>"])
      (simp add: on_tracker_def example_manager_def NodeManagerNew_def)
qed

lemma example_send: "\<exists>self'. NodeManagerSendTx example_surroundings TransactionEmpty 5 example_manager = Some (Inr ((), self'))"
proof -
  obtain tr where tr: "on_tracker (TTAddTransaction (TransactionData TransactionEmpty)) example_manager
      = Some (Inr (- 2, example_manager\<lparr>nm_tracker := tr\<rparr>))" "allTransactions tr = []"
    using example_add by blast
  let ?d = "TransactionData TransactionEmpty"
  have "nm_database example_manager = DatabaseNew [] None False False" by (simp add: example_manager_def NodeManagerNew_def)
  moreover have "hash256 ?d \<noteq> DataNull"
  proof -
    have "case ?d of DataNull \<Rightarrow> False | Bytes _ \<Rightarrow> True" by code_simp
    then show ?thesis by (cases ?d) (simp_all add: hash256_Bytes)
  qed
  ultimately have "\<exists>db. DatabaseAddTransaction 1000 ?d None (nm_database example_manager) = Some (Inr (True, db))"
    by (simp add: DatabaseAddTransaction_def kbind_def kret_def kget_def kput_def DatabaseHeightOf_def DatabaseNew_def Let_def fire_def)
  then obtain db where db: "DatabaseAddTransaction 1000 ?d None (nm_database example_manager) = Some (Inr (True, db))" by blast
  let ?s = "example_manager\<lparr>nm_tracker := tr, nm_database := db\<rparr>"
  have "on_tracker TTInterestingTransactionHashes ?s = Some (Inr ([], ?s))"
    using tr(2) by (simp add: on_tracker_def TTInterestingTransactionHashes_def kbind_def kget_def kret_def)
  then have "updateTransactionFees ?s = Some (Inr ((), ?s))"
    by (simp add: updateTransactionFees_def kbind_def kget_def kret_def DatabaseTransactionsWithNoFee_def)
  moreover have "on_db (DatabaseAddTransaction 1000 ?d None) (example_manager\<lparr>nm_tracker := tr\<rparr>) = Some (Inr (True, ?s))"
    using db by (simp add: on_db_def)
  moreover have "outputs TransactionEmpty = []" by (simp add: TransactionEmpty_def)
  ultimately show ?thesis
    by (simp add: NodeManagerSendTx_def kbind_def tr(1) example_surroundings_def kget_def kput_def kret_def)
qed

theorem sent_transaction_goes_nowhere_witness:
  "\<exists>self'. NodeManagerSendTx example_surroundings TransactionEmpty 5 example_manager = Some (Inr ((), self'))
    \<and> nodes self' = [(0, example_link), (1, example_link)] \<and> nm_message DataNull 16 DataNull DataNull self' = Some (Inl Abort)"
proof -
  obtain self' where s: "NodeManagerSendTx example_surroundings TransactionEmpty 5 example_manager = Some (Inr ((), self'))"
    using example_send by blast
  have "nodes example_manager = [(0, example_link), (1, example_link)]" "sendTxOnResults example_manager = []"
    by (simp_all add: example_manager_def NodeManagerNew_def)
  then have "nodes self' = nodes example_manager \<and> nm_message DataNull 16 DataNull DataNull self' = Some (Inl Abort)
      \<and> check_pending (example_surroundings\<lparr>w_clock := 1100\<rparr>) self' = Some (Inl Abort)"
    by (intro sent_transaction_goes_nowhere [OF s]) (simp_all add: TransactionEmpty_def example_surroundings_def)
  then show ?thesis using s \<open>nodes example_manager = _\<close> by auto
qed

end
