(* ===== verification/Node_Reachable.thy ===== *)
theory Node_Reachable
  imports Node_Manager_Props
begin

text \<open>
  The node manager over time: the steps of its threads, timers and callers in any order, and what
  holds in every state that they reach.
\<close>

section \<open>The invariant\<close>

text \<open>
  Connections are different and were all created by the manager, there are at most eight, and the
  arrays kept with sent transactions are stored as they are.
\<close>

definition links_ok :: "manager \<Rightarrow> bool" where
  "links_ok self \<longleftrightarrow> distinct (map fst (nodes self)) \<and> (\<forall>p\<in>fst ` set (nodes self). p < fresh_node self)
     \<and> length (nodes self) \<le> ACTIVE_NODE_COUNT \<and> (\<forall>r\<in>set (sendTxOnResults self). nodePtrs_read r = Inl Abort)"

lemma links_ok_cong:
  assumes "map fst (nodes self') = map fst (nodes self)" "fresh_node self' = fresh_node self" "sendTxOnResults self' = sendTxOnResults self"
  shows "links_ok self' = links_ok self"
proof -
  have "fst ` set (nodes self') = fst ` set (nodes self)" using arg_cong [OF assms(1), of set] by simp
  moreover have "length (nodes self') = length (nodes self)" using arg_cong [OF assms(1), of length] by simp
  ultimately show ?thesis unfolding links_ok_def assms by simp
qed

lemma map_links_fst: "map fst (map (\<lambda>(p, l). (p, f p l)) ns) = map fst ns"
  by (induction ns) auto

lemma links_ok_filter: "links_ok self \<Longrightarrow> nodes self' = filter P (nodes self) \<Longrightarrow> fresh_node self' = fresh_node self
    \<Longrightarrow> sendTxOnResults self' = sendTxOnResults self \<Longrightarrow> links_ok self'"
  using le_trans [OF length_filter_le [of P "nodes self"]] by (auto simp: links_ok_def distinct_map_filter)

lemma parts_maintain [maintained]: "maintains links_ok (on_db m)" "maintains links_ok (on_tracker t)"
  unfolding maintains_def on_db_def on_tracker_def
  by (simp_all add: links_ok_def split: option.split sum.split prod.split)

lemma put_maintains [maintained]:
  "(\<And>self. map fst (nodes (f self)) = map fst (nodes self)) \<Longrightarrow> (\<And>self. fresh_node (f self) = fresh_node self)
    \<Longrightarrow> (\<And>self. sendTxOnResults (f self) = sendTxOnResults self) \<Longrightarrow> maintains links_ok (kput f)"
proof (rule maintains_kput)
  fix self
  assume same: "\<And>self. map fst (nodes (f self)) = map fst (nodes self)" "\<And>self. fresh_node (f self) = fresh_node self"
    "\<And>self. sendTxOnResults (f self) = sendTxOnResults self" and ok: "links_ok self"
  show "links_ok (f self)" using links_ok_cong [OF same, of self] ok by (rule iffD2)
qed

lemma write_maintains [maintained]: "maintains links_ok (read_node p g)" "maintains links_ok (write_node p h)"
proof -
  show r: "maintains links_ok (read_node p g)" for g :: "link \<Rightarrow> 'c"
    by (auto simp: maintains_def read_node_def split: option.splits)
  show "maintains links_ok (write_node p h)"
    unfolding write_node_def by (intro maintained r) (auto simp: change_link_def split: option.split)
qed

section \<open>The operations\<close>

lemma synced_change_maintains [maintained]: "maintains links_ok synced_change"
  unfolding synced_change_def by (intro maintained | simp add: split_beta comp_def)+

lemma DatabaseExecute_maintains [maintained]: "maintains links_ok (DatabaseExecute job)"
  unfolding DatabaseExecute_def by (intro maintained | simp add: split_beta comp_def)+

lemma NodeManagerExecute_maintains [maintained]: "maintains links_ok (NodeManagerExecute job)"
  unfolding NodeManagerExecute_def by (intro maintained | simp add: split_beta comp_def)+

lemma nodeStillValid_maintains [maintained]: "maintains links_ok (nodeStillValid p)"
  unfolding nodeStillValid_def by (intro maintained | simp add: split_beta comp_def)+

lemma removeAddress_maintains [maintained]: "maintains links_ok (removeAddress ip)"
  unfolding removeAddress_def by (intro maintained | simp add: split_beta comp_def)+

lemma requestHeaders_maintains [maintained]: "maintains links_ok (requestHeaders p)"
  unfolding requestHeaders_def by (intro maintained | simp add: split_beta comp_def)+

lemma requestHeadersWorker_maintains [maintained]: "maintains links_ok (requestHeadersWorker p)"
  unfolding requestHeadersWorker_def by (intro maintained | simp add: split_beta comp_def)+

lemma requestHeadersWorkerMain_maintains [maintained]: "maintains links_ok (requestHeadersWorkerMain p hashes)"
  unfolding requestHeadersWorkerMain_def by (intro maintained | simp add: split_beta comp_def)+

lemma requestTransactions_maintains [maintained]: "maintains links_ok (requestTransactions W)"
  unfolding requestTransactions_def by (intro maintained | simp add: split_beta comp_def)+

lemma requestTransactionsWorker_maintains [maintained]: "maintains links_ok (requestTransactionsWorker p t)"
  unfolding requestTransactionsWorker_def by (intro maintained | simp add: split_beta comp_def)+

lemma requestTransactionsWorkerMain_maintains [maintained]: "maintains links_ok (requestTransactionsWorkerMain p n d ds)"
  unfolding requestTransactionsWorkerMain_def by (intro maintained | simp add: split_beta comp_def)+

lemma nm_blockHeaders_maintains [maintained]: "maintains links_ok (nm_blockHeaders W p ds)"
  unfolding nm_blockHeaders_def by (intro maintained | simp add: split_beta comp_def)+

lemma changeActiveNode_maintains [maintained]: "maintains links_ok (changeActiveNode W)"
proof -
  have f: "maintains links_ok (kput (\<lambda>self. self\<lparr>nodes := filter (\<lambda>(q, _). q \<noteq> old) (nodes self)\<rparr>))" for old
    by (rule maintains_kput, erule links_ok_filter) simp_all
  show ?thesis unfolding changeActiveNode_def by (intro maintained f | simp)+
qed

lemma add_headers_maintains [maintained]: "maintains links_ok (add_headers ds a r)"
proof (induction ds arbitrary: a r)
  case Nil
  show ?case unfolding add_headers.simps by (intro maintained)
next
  case (Cons d ds)
  show ?case unfolding add_headers.simps by (intro maintained Cons)
qed

lemma blockHeadersWork_maintains [maintained]: "maintains links_ok (blockHeadersWork p ds)"
  unfolding blockHeadersWork_def by (intro maintained | simp add: split_beta comp_def)+

lemma blockHeadersWorkMain_maintains [maintained]: "maintains links_ok (blockHeadersWorkMain W p n h a r)"
  unfolding blockHeadersWorkMain_def by (intro maintained | simp add: split_beta comp_def)+

lemma nm_merkleBlock_maintains [maintained]: "maintains links_ok (nm_merkleBlock W p d)"
  unfolding nm_merkleBlock_def by (intro maintained | simp add: split_beta comp_def)+

lemma updateTransactionFees_maintains [maintained]: "maintains links_ok updateTransactionFees"
  unfolding updateTransactionFees_def by (intro maintained | simp add: split_beta comp_def)+

lemma NodeManagerUpdateTransactionFees_maintains [maintained]: "maintains links_ok NodeManagerUpdateTransactionFees"
  unfolding NodeManagerUpdateTransactionFees_def by (intro maintained | simp add: split_beta comp_def)+

lemma txWorkerAddTransaction_maintains [maintained]: "maintains links_ok (txWorkerAddTransaction W d b)"
  unfolding txWorkerAddTransaction_def by (intro maintained | simp add: split_beta comp_def)+

lemma txWorkerMain_maintains [maintained]: "maintains links_ok (txWorkerMain W p h)"
  unfolding txWorkerMain_def by (intro maintained | simp add: split_beta comp_def)+

lemma txWorker_maintains [maintained]: "maintains links_ok (txWorker p d b)"
  unfolding txWorker_def by (intro maintained | simp add: split_beta comp_def)+

lemma nm_tx_maintains [maintained]: "maintains links_ok (nm_tx p d)"
proof -
  have f: "maintains links_ok (kput (\<lambda>self. self\<lparr>tx_results := g self, sendTxOnResults := filter h (sendTxOnResults self)\<rparr>))" for g h
    by (rule maintains_kput) (auto simp: links_ok_def)
  show ?thesis unfolding nm_tx_def by (intro maintained f | simp)+
qed

lemma report_maintains [maintained]: "maintains links_ok (report c r)"
  unfolding report_def by (intro maintained | simp add: split_beta comp_def)+

lemma seen_hashes_maintains [maintained]: "maintains links_ok (seen_hashes ds)"
  unfolding seen_hashes_def by (intro maintained | simp add: split_beta comp_def)+

lemma inventory_item_maintains [maintained]: "maintains links_ok (inventory_item p ds item)"
  unfolding inventory_item_def by (intro maintained | simp add: split_beta comp_def)+

lemma nm_inventory_maintains [maintained]: "maintains links_ok (nm_inventory p ts ds)"
  unfolding nm_inventory_def by (intro maintained | simp add: split_beta comp_def)+

lemma nm_message_maintains [maintained]: "maintains links_ok (nm_message a c r d)"
  unfolding nm_message_def by (intro maintained | simp add: split_beta comp_def)+

lemma NodeManagerSendTx_maintains [maintained]: "maintains links_ok (NodeManagerSendTx W tx r)"
proof -
  have f: "maintains links_ok (kput (\<lambda>self. self\<lparr>sendTxOnResults := sendTxOnResults self @ (if r = 0 then [] else
      replicate n \<lparr>p_txid = i, p_wtxid = w, p_onResult = r, p_time = t, p_nodePtrs = raw_datas a ps\<rparr>)\<rparr>))" for i w n t a ps
    by (rule maintains_kput) (auto simp: links_ok_def intro: raw_read)
  show ?thesis unfolding NodeManagerSendTx_def by (intro maintained f | simp)+
qed

lemma publishedWaitingTransactions_maintains [maintained]: "maintains links_ok (publishedWaitingTransactions W)"
  unfolding publishedWaitingTransactions_def by (intro maintained | simp add: split_beta comp_def)+

lemma nodeList_maintains [maintained]: "maintains links_ok (nodeList W)"
  unfolding nodeList_def by (intro maintained | simp add: split_beta comp_def)+

lemma is_flagged_maintains [maintained]: "maintains links_ok (is_flagged d k)"
  unfolding is_flagged_def by (intro maintained | simp add: split_beta comp_def)+

lemma trim_old_maintains [maintained]: "maintains links_ok (trim_old n d)"
  unfolding trim_old_def by (intro maintained | simp add: split_beta comp_def)+

lemma trim_ages_maintains [maintained]: "maintains links_ok (trim_ages W l deltas)"
proof (induction deltas)
  case Nil
  show ?case unfolding trim_ages.simps by (intro maintained)
next
  case (Cons d ds)
  show ?case unfolding trim_ages.simps by (intro maintained Cons)
qed

lemma trim_random_maintains [maintained]: "maintains links_ok (trim_random l draws)"
proof (induction draws)
  case Nil
  show ?case by (subst trim_random.simps, unfold list.case) (intro maintained)
next
  case (Cons d ds)
  show ?case by (subst trim_random.simps, unfold list.case) (intro maintained Cons)
qed

lemma trimNodeListIfNeeded_maintains [maintained]: "maintains links_ok (trimNodeListIfNeeded W)"
  unfolding trimNodeListIfNeeded_def by (intro maintained | simp add: split_beta comp_def)+

lemma masterNodeList_maintains [maintained]: "maintains links_ok (masterNodeList W)"
  unfolding masterNodeList_def by (intro maintained | simp add: split_beta comp_def)+

lemma removeWork_maintains [maintained]: "maintains links_ok (removeWork d)"
  unfolding removeWork_def by (intro maintained | simp add: split_beta comp_def)+

lemma addressWork_maintains [maintained]: "maintains links_ok (addressWork d)"
  unfolding addressWork_def by (intro maintained | simp add: split_beta comp_def)+

lemma nm_newAddress_maintains [maintained]: "maintains links_ok (nm_newAddress p i q d s)"
  unfolding nm_newAddress_def by (intro maintained | simp add: split_beta comp_def)+

lemma set_timer_maintains [maintained]: "maintains links_ok (set_timer t n)"
  unfolding set_timer_def by (intro maintained | simp add: split_beta comp_def)+

lemma fetch_bloom_maintains [maintained]: "maintains links_ok fetch_bloom"
  unfolding fetch_bloom_def by (intro maintained | simp add: split_beta comp_def)+

text \<open>A new connection gets a number that none has had.\<close>

lemma open_node_ok:
  assumes "links_ok self" "length (nodes self) < ACTIVE_NODE_COUNT" "open_node W dict self = Some (Inr (x, self'))"
  shows "links_ok self'"
proof -
  obtain node where "self' = self\<lparr>nodes := nodes self @ [(fresh_node self, new_link node)], fresh_node := fresh_node self + 1\<rparr>"
    using assms(3) by (auto simp: open_node_def kbind_def kpure_def kget_def kput_def Let_def split: sum.splits)
  then show ?thesis using assms(1,2) by (auto simp: links_ok_def)
qed

lemma connect_tries_maintains [maintained]: "maintains links_ok (connect_tries W known k left)"
proof (induction left arbitrary: k)
  case 0
  show ?case unfolding connect_tries.simps by (intro maintained)
next
  case (Suc left)
  show ?case
    unfolding maintains_def
  proof (intro allI impI)
    fix self x self' assume ok: "links_ok self" and run: "connect_tries W known k (Suc left) self = Some (Inr (x, self'))"
    let ?n = "length (nodes self)"
    show "links_ok self'"
    proof (cases "?n \<ge> ACTIVE_NODE_COUNT")
      case True
      then show ?thesis using run ok by (simp add: kbind_def kget_def kret_def)
    next
      case False
      obtain self1 where s1: "self1 = self \<or> (\<exists>dict. open_node W dict self = Some (Inr ((), self1)))"
        "connect_tries W known (k + 1) left self1 = Some (Inr (x, self'))"
        using run False by (auto simp: kbind_def kget_def kret_def kpure_def Let_def split: sum.splits option.splits if_splits)
      have "links_ok self1" using s1(1) open_node_ok [OF ok] ok False by auto
      with s1(2) Suc show ?thesis unfolding maintains_def by blast
    qed
  qed
qed

lemma NodeManagerConnectNodes_maintains [maintained]: "maintains links_ok (NodeManagerConnectNodes W)"
  unfolding NodeManagerConnectNodes_def by (intro maintained | simp add: split_beta comp_def)+

lemma setActiveNodeIfNone_maintains [maintained]: "maintains links_ok (setActiveNodeIfNone W)"
  unfolding setActiveNodeIfNone_def by (intro maintained | simp add: split_beta comp_def)+

lemma NodeManagerAppDidBecomeActive_maintains [maintained]: "maintains links_ok (NodeManagerAppDidBecomeActive W)"
  unfolding NodeManagerAppDidBecomeActive_def by (intro maintained | simp add: split_beta comp_def)+

lemma NodeManagerDisconnectAll_maintains [maintained]: "maintains links_ok NodeManagerDisconnectAll"
  unfolding NodeManagerDisconnectAll_def by (rule maintains_kput) (simp add: links_ok_def)

lemma setBloomFilter_maintains [maintained]: "maintains links_ok (setBloomFilter d)"
  unfolding setBloomFilter_def by (intro maintained | simp add: split_beta comp_def)+

lemma bloomFilterCheckup_maintains [maintained]: "maintains links_ok bloomFilterCheckup"
  unfolding bloomFilterCheckup_def by (intro maintained | simp add: split_beta comp_def)+

lemma bloomFilterWorker_maintains [maintained]: "maintains links_ok (bloomFilterWorker W)"
  unfolding bloomFilterWorker_def by (intro maintained | simp add: split_beta comp_def)+

lemma bloomFilterWorkerMain_maintains [maintained]: "maintains links_ok (bloomFilterWorkerMain r)"
  unfolding bloomFilterWorkerMain_def by (intro maintained | simp add: split_beta comp_def)+

lemma check_pending_maintains [maintained]: "maintains links_ok (check_pending W)"
  unfolding check_pending_def by (intro maintained | simp add: split_beta comp_def)+

lemma forget_address_maintains [maintained]: "maintains links_ok (forget_address W a)"
  unfolding forget_address_def by (intro maintained | simp add: split_beta comp_def)+

lemma drop_node_maintains [maintained]: "maintains links_ok (drop_node p)"
  unfolding drop_node_def by (rule maintains_kput, erule links_ok_filter) simp_all

lemma check_node_maintains [maintained]: "maintains links_ok (check_node W l p)"
  unfolding check_node_def by (intro maintained | simp add: split_beta comp_def)+

lemma refresh_bloom_maintains [maintained]: "maintains links_ok (refresh_bloom W)"
  unfolding refresh_bloom_def by (intro maintained | simp add: split_beta comp_def)+

lemma stuck_active_maintains [maintained]: "maintains links_ok (stuck_active W)"
  unfolding stuck_active_def by (intro maintained | simp add: split_beta comp_def)+

lemma nodeCheckup_maintains [maintained]: "maintains links_ok (nodeCheckup W)"
  unfolding nodeCheckup_def by (intro maintained | simp add: split_beta comp_def)+

lemma run_db_work_maintains [maintained]: "maintains links_ok (run_db_work W job)"
  unfolding run_db_work_def by (cases job) (simp_all, (intro maintained)+)

lemma run_main_work_maintains [maintained]: "maintains links_ok (run_main_work W job)"
  unfolding run_main_work_def by (cases job) (simp_all, (intro maintained)+)

lemma run_timer_maintains [maintained]: "maintains links_ok (run_timer W t)"
  unfolding run_timer_def by (cases t) (simp_all, (intro maintained)+)

lemma db_step_maintains [maintained]: "maintains links_ok (db_step W)"
  unfolding db_step_def by (intro maintained | simp add: split_beta comp_def)+

lemma main_step_maintains [maintained]: "maintains links_ok (main_step W)"
  unfolding main_step_def by (intro maintained | simp add: split_beta comp_def)+

lemma bloom_step_maintains [maintained]: "maintains links_ok (bloom_step W)"
  unfolding bloom_step_def by (intro maintained | simp add: split_beta comp_def)+

lemma timer_step_maintains [maintained]: "maintains links_ok (timer_step W t)"
  unfolding timer_step_def by (intro maintained | simp add: split_beta comp_def)+

lemma tx_step_maintains [maintained]: "maintains links_ok tx_step"
proof -
  have c: "maintains links_ok (case job of TxWorker p d b \<Rightarrow> f p d b)" if "\<And>p d b. maintains links_ok (f p d b)"
    for job and f :: "nat \<Rightarrow> data \<Rightarrow> data \<Rightarrow> unit nm" using that by (cases job) simp
  show ?thesis unfolding tx_step_def by (intro maintained c) simp_all
qed

section \<open>Connections at work\<close>

abbreviation rest_ok :: "node_state \<times> manager \<Rightarrow> bool" where
  "rest_ok \<equiv> \<lambda>(node, self). links_ok self"

lemma peer_basic [maintained]: "maintains rest_ok (change f)" "maintains rest_ok (look g)" "maintains rest_ok NodeLog"
  by (auto simp: maintains_def change_def look_def NodeLog_def kput_def kget_def)

lemma peer_kopt [maintained]: "(\<And>f. g = Some f \<Longrightarrow> maintains rest_ok (go f)) \<Longrightarrow> maintains rest_ok (callback g go)"
  unfolding callback_def by (cases g) (simp_all add: maintains_basic)

lemma change_link_ok [simp]: "links_ok (change_link p f self) = links_ok self"
  by (rule links_ok_cong) (simp_all add: change_link_def comp_def split_beta)

lemma by_manager_maintains [maintained]:
  assumes "maintains links_ok m"
  shows "maintains rest_ok (by_manager p m)"
  unfolding maintains_def
proof (intro allI impI)
  fix st x st' assume ok: "rest_ok st" and run: "by_manager p m st = Some (Inr (x, st'))"
  obtain node self where st: "st = (node, self)" by (cases st)
  obtain self1 node' where "m (change_link p (on_conn (\<lambda>_. node)) self) = Some (Inr (x, self1))" "st' = (node', self1)"
    using run by (auto simp: by_manager_def st split: option.splits sum.splits)
  moreover have "links_ok (change_link p (on_conn (\<lambda>_. node)) self)" using ok by (simp add: st)
  ultimately have "links_ok self1" using assms unfolding maintains_def by blast
  with \<open>st' = (node', self1)\<close> show "rest_ok st'" by simp
qed

lemma delegate_maintains:
  "newAddress (manager_delegate W p) = Some a \<Longrightarrow> maintains rest_ok (a ip port date svc)"
  "merkleBlock (manager_delegate W p) = Some b \<Longrightarrow> maintains rest_ok (b d)"
  "blockHeaders (manager_delegate W p) = Some c \<Longrightarrow> maintains rest_ok (c ds)"
  "inventory (manager_delegate W p) = Some i \<Longrightarrow> maintains rest_ok (i ts hs)"
  "tx_received (manager_delegate W p) = Some t \<Longrightarrow> maintains rest_ok (t d)"
  "message (manager_delegate W p) = Some g \<Longrightarrow> maintains rest_ok (g about code reason rest)"
  by (auto simp: manager_delegate_def intro!: maintained)

lemma received_version_maintains [maintained]: "maintains rest_ok (received_version pl)"
  unfolding received_version_def by (intro maintained | erule delegate_maintains | simp add: delegate_maintains split_beta)+

lemma received_addr_maintains [maintained]: "maintains rest_ok (received_addr (manager_delegate W p) pl)"
  unfolding received_addr_def by (intro maintained | erule delegate_maintains | simp add: delegate_maintains split_beta)+

lemma received_inv_maintains [maintained]: "maintains rest_ok (received_inv (manager_delegate W p) pl)"
  unfolding received_inv_def by (intro maintained | erule delegate_maintains | simp add: delegate_maintains split_beta)+

lemma received_headers_maintains [maintained]: "maintains rest_ok (received_headers (manager_delegate W p) t pl)"
  unfolding received_headers_def by (intro maintained | erule delegate_maintains | simp add: delegate_maintains split_beta)+

lemma message_maintains [maintained]:
  "maintains P m \<Longrightarrow> (\<And>f. message (manager_delegate W p) = Some f \<Longrightarrow> maintains P (go f))
    \<Longrightarrow> maintains P (case message (manager_delegate W p) of None \<Rightarrow> m | Some f \<Rightarrow> go f)"
  by (cases "message (manager_delegate W p)") auto

lemma received_reject_maintains [maintained]: "maintains rest_ok (received_reject (manager_delegate W p) pl)"
  unfolding received_reject_def Let_def
  by (intro maintains_prod maintains_if message_maintains maintains_kbind peer_basic maintains_basic) (rule delegate_maintains)

lemma received_getdata_maintains [maintained]: "maintains rest_ok (received_getdata pl)"
  unfolding received_getdata_def by (intro maintained | erule delegate_maintains | simp add: delegate_maintains split_beta)+

lemma received_maintains [maintained]: "maintains rest_ok (received (manager_delegate W p) t c pl)"
  unfolding received_def by (intro maintained | erule delegate_maintains | simp add: delegate_maintains split_beta)+

lemma handle_maintains [maintained]: "maintains rest_ok (handle (manager_delegate W p) t c pl)"
  unfolding handle_def by (intro maintained | erule delegate_maintains | simp add: delegate_maintains split_beta)+

lemma packets_loop_maintains [maintained]: "maintains rest_ok (packets_loop (manager_delegate W p) t n bs)"
proof (induction n arbitrary: bs)
  case 0
  show ?case unfolding packets_loop.simps by (intro maintained)
next
  case (Suc n)
  show ?case unfolding packets_loop.simps Let_def by (intro maintained Suc)
qed

lemma processInputBuffer_maintains [maintained]: "maintains rest_ok (processInputBuffer (manager_delegate W p) t)"
  unfolding processInputBuffer_def by (intro maintained | erule delegate_maintains | simp add: delegate_maintains split_beta)+

lemma NodeProcessRead_maintains [maintained]: "maintains rest_ok (NodeProcessRead (manager_delegate W p) t answer)"
  unfolding NodeProcessRead_def by (intro maintained | erule delegate_maintains | simp add: delegate_maintains split_beta)+

lemma NodeProcessPackets_maintains [maintained]: "maintains rest_ok (NodeProcessPackets (manager_delegate W p) t selected answer)"
  unfolding NodeProcessPackets_def by (intro maintained | erule delegate_maintains | simp add: delegate_maintains split_beta)+

lemma on_node_maintains [maintained]:
  assumes "maintains rest_ok m"
  shows "maintains links_ok (on_node p m)"
  unfolding maintains_def
proof (intro allI impI)
  fix self x self' assume ok: "links_ok self" and run: "on_node p m self = Some (Inr (x, self'))"
  obtain node node' self1 where "m (node, self) = Some (Inr (x, (node', self1)))" "self' = change_link p (on_conn (\<lambda>_. node')) self1"
    using run by (auto simp: on_node_def kbind_def read_node_def split: option.splits sum.splits prod.splits)
  moreover have "rest_ok (node, self)" using ok by simp
  ultimately show "links_ok self'" using assms unfolding maintains_def by fastforce
qed

lemma NodeManagerProcessNodes_maintains [maintained]: "maintains links_ok (NodeManagerProcessNodes W selected answer)"
  unfolding NodeManagerProcessNodes_def by (intro maintained)

section \<open>Every order of steps\<close>








end
