(* ===== verification/Webserver.thy ===== *)
theory Webserver
  imports C_Strings
begin

text \<open>
  The small HTTP server of \<open>src/code/Webserver.c\<close>: clients whose requests are read until an empty line,
  the request line taken apart into a name and parameters, and responses. What the operating system
  answers is an argument, and a pointer to a client is a number. A C string is its bytes before the zero.
\<close>

section \<open>Text\<close>

text \<open>\<open>strnstr\<close>: the first position of a text in the bytes before a zero.\<close>

fun strnstr_from :: "bytes \<Rightarrow> bytes \<Rightarrow> nat option" where
  "strnstr_from needle [] = (if needle = [] then Some 0 else None)"
| "strnstr_from needle (b # bs) =
     (if take (length needle) (b # bs) = needle then Some 0 else map_option Suc (strnstr_from needle bs))"

definition strnstr :: "bytes \<Rightarrow> bytes \<Rightarrow> nat option" where
  "strnstr bs needle = strnstr_from needle (takeWhile (\<lambda>b. b \<noteq> 0) bs)"

text \<open>Without a space the null pointer is moved by one and passes the comparison: the text then begins at address 1.\<close>

definition RequestURI :: "bytes \<Rightarrow> fault + nat" where
  "RequestURI bs = (case strnstr bs [32] of None \<Rightarrow> Inl Fault | Some i \<Rightarrow> Inr (i + 1))"

definition hexToI :: "u8 \<Rightarrow> u32" where
  "hexToI c = (if 48 \<le> c \<and> c \<le> 57 then ucast c - 48
     else let c = tolower c in if 97 \<le> c \<and> c \<le> 102 then 10 + ucast c - 97 else - 1)"

text \<open>The buffer ends with a zero at \<open>final\<close>, which stays where it is while the text before it shrinks.\<close>

function clean_loop :: "nat \<Rightarrow> nat \<Rightarrow> bytes \<Rightarrow> bytes" where
  "clean_loop final p bs =
     (if p < final then
        if bs ! p = 43 then clean_loop final (p + 1) (bs[p := 32])
        else if bs ! p = 37 \<and> p + 2 < final then
          let bs = bs[p := ucast (hexToI (bs ! (p + 2)) OR push_bit 4 (hexToI (bs ! (p + 1))))]
          in clean_loop final (p + 1) (take (p + 1) bs @ take (final - p - 2) (drop (p + 3) bs) @ drop (final - 1) bs)
        else clean_loop final (p + 1) bs
      else bs)"
  by pat_completeness auto
termination
  by (relation "measure (\<lambda>(final, p, _). final - p)") auto

declare clean_loop.simps [simp del]

definition cleanURISpaces :: "bytes \<Rightarrow> bytes" where
  "cleanURISpaces str = takeWhile (\<lambda>b. b \<noteq> 0) (clean_loop (length str) 0 (str @ [0]))"

section \<open>Requests\<close>

record web_client =
  requestName :: "bytes option"
  parameters :: "bytes list"
  clientSocket :: int
  web_input :: "bytes option"

definition add_part :: "bytes \<Rightarrow> web_client \<Rightarrow> web_client" where
  "add_part part client =
     (let dest = cleanURISpaces (takeWhile (\<lambda>b. b \<noteq> 0) part)
      in if requestName client = None then client\<lparr>requestName := Some dest\<rparr> else client\<lparr>parameters := parameters client @ [dest]\<rparr>)"

text \<open>\<open>part\<close> is the text from \<open>start\<close> on, if there is a start.\<close>

fun parts_loop :: "bytes option \<Rightarrow> bytes \<Rightarrow> web_client \<Rightarrow> web_client" where
  "parts_loop part [] client = client"
| "parts_loop part (b # bs) client =
     (let client' = (case part of None \<Rightarrow> client | Some s \<Rightarrow> add_part s client) in
      if b = 32 then client'
      else if b = 47 then parts_loop None bs client'
      else parts_loop (Some ((case part of None \<Rightarrow> [] | Some s \<Rightarrow> s) @ [b])) bs client)"

definition PrepareWebserverClient :: "web_client \<Rightarrow> fault + web_client" where
  "PrepareWebserverClient client =
     (let bs = (case web_input client of None \<Rightarrow> [] | Some bs \<Rightarrow> bs)
      in map_sum id (\<lambda>uri. parts_loop None (drop uri bs) client) (RequestURI bs))"

section \<open>The server\<close>

record webserver =
  errorCode :: int
  serverSocket :: int
  pendingClients :: "(nat \<times> web_client) list"
  fresh_client :: nat

definition SINGLE_READ_BUFFER :: nat where "SINGLE_READ_BUFFER = 10 * 1024"
definition MAX_CLIENT_BACKLOG :: nat where "MAX_CLIENT_BACKLOG = 10 * 1024 * 1024"

text \<open>\<open>code\<close> is what the uninitialised field happens to hold; \<open>socket\<close> what \<open>socket\<close> returns if \<open>getaddrinfo\<close> succeeds.\<close>

definition WebserverStart :: "int \<Rightarrow> int option \<Rightarrow> webserver option" where
  "WebserverStart code socket =
     map_option (\<lambda>s. \<lparr>errorCode = code, serverSocket = s, pendingClients = [], fresh_client = 0\<rparr>) socket"

definition ProcessAccept :: "int \<Rightarrow> webserver \<Rightarrow> webserver" where
  "ProcessAccept result webserver =
     (if result < 0 then webserver
      else webserver\<lparr>fresh_client := fresh_client webserver + 1, pendingClients := pendingClients webserver @
        [(fresh_client webserver, \<lparr>requestName = None, parameters = [], clientSocket = result, web_input = None\<rparr>)]\<rparr>)"

text \<open>\<open>recv\<close> gives bytes, none when the other side has closed, or an error. The result tells whether the client stays.\<close>

definition ProcessClientRead :: "bytes option \<Rightarrow> web_client \<Rightarrow> bool \<times> web_client" where
  "ProcessClientRead answer client =
     (case answer of None \<Rightarrow> (False, client)
      | Some bs \<Rightarrow> let bs = take SINGLE_READ_BUFFER bs; old = (case web_input client of None \<Rightarrow> [] | Some old \<Rightarrow> old) in
          if bs = [] then (False, client)
          else if length old + length bs > MAX_CLIENT_BACKLOG then (False, client)
          else (True, client\<lparr>web_input := Some (old @ bs)\<rparr>))"

text \<open>After a removal the entry that moved into its place is skipped.\<close>

fun remove_entries :: "nat \<Rightarrow> (nat \<times> web_client) list \<Rightarrow> (nat \<times> web_client) list" where
  "remove_entries p [] = []"
| "remove_entries p ((q, c) # rest) =
     (if q \<noteq> p then (q, c) # remove_entries p rest
      else case rest of [] \<Rightarrow> [] | r # rest \<Rightarrow> r # remove_entries p rest)"

definition RemoveClient :: "nat \<Rightarrow> webserver \<Rightarrow> webserver" where
  "RemoveClient p webserver = webserver\<lparr>pendingClients := remove_entries p (pendingClients webserver)\<rparr>"

definition request_complete :: "web_client \<Rightarrow> bool" where
  "request_complete client = (case web_input client of None \<Rightarrow> False | Some bs \<Rightarrow> strnstr bs [13, 10, 13, 10] \<noteq> None)"

definition FirstReadyClient :: "webserver \<Rightarrow> fault + web_client option \<times> webserver" where
  "FirstReadyClient webserver =
     (case find (\<lambda>(_, client). request_complete client) (pendingClients webserver) of
        None \<Rightarrow> Inr (None, webserver)
      | Some (p, client) \<Rightarrow>
          map_sum id (\<lambda>client. (Some client, RemoveClient p webserver))
            (PrepareWebserverClient (client\<lparr>web_input := map_option (\<lambda>bs. bs @ [0]) (web_input client)\<rparr>)))"

text \<open>
  A client whose reading fails is ended and leaves the list. If its socket has an exception as well, it
  is ended again, with pointers that were overwritten the first time.
\<close>

definition serve_client :: "(int \<Rightarrow> bool) \<Rightarrow> (int \<Rightarrow> bool) \<Rightarrow> (int \<Rightarrow> bytes option) \<Rightarrow> web_client \<Rightarrow> fault + web_client option" where
  "serve_client readable except answer client =
     (let fd = clientSocket client;
          (stays, client) = (if readable fd then ProcessClientRead (answer fd) client else (True, client))
      in if \<not> stays then if except fd then Inl Fault else Inr None
         else Inr (if except fd then None else Some client))"

fun serve_clients :: "(int \<Rightarrow> bool) \<Rightarrow> (int \<Rightarrow> bool) \<Rightarrow> (int \<Rightarrow> bytes option) \<Rightarrow> (nat \<times> web_client) list \<Rightarrow> fault + (nat \<times> web_client) list" where
  "serve_clients readable except answer [] = Inr []"
| "serve_clients readable except answer ((p, client) # rest) =
     (case serve_client readable except answer client of Inl e \<Rightarrow> Inl e
      | Inr result \<Rightarrow> map_sum id (\<lambda>rest. (case result of None \<Rightarrow> rest | Some client \<Rightarrow> (p, client) # rest))
          (serve_clients readable except answer rest))"

datatype activity = NoActivity | SelectFailed | Activity "int \<Rightarrow> bool" "int \<Rightarrow> bool"

text \<open>\<open>errno\<close> is the error number at the time; \<open>accepted\<close> is the answer of \<open>accept\<close>.\<close>

definition WebserverWaitForClient ::
  "bool \<Rightarrow> activity \<Rightarrow> int \<Rightarrow> int \<Rightarrow> (int \<Rightarrow> bytes option) \<Rightarrow> webserver \<Rightarrow> fault + web_client option \<times> webserver" where
  "WebserverWaitForClient waits selected errno accepted answer webserver =
     (case FirstReadyClient webserver of Inl e \<Rightarrow> Inl e
      | Inr (Some client, webserver) \<Rightarrow> Inr (Some client, webserver)
      | Inr (None, webserver) \<Rightarrow>
          (case selected of
             NoActivity \<Rightarrow> FirstReadyClient (if waits then webserver else webserver\<lparr>errorCode := errno\<rparr>)
           | SelectFailed \<Rightarrow> FirstReadyClient (webserver\<lparr>errorCode := errno\<rparr>)
           | Activity readable except \<Rightarrow>
               let webserver = (if readable (serverSocket webserver) then ProcessAccept accepted webserver else webserver);
                   webserver = (if except (serverSocket webserver) then webserver\<lparr>errorCode := if errno \<noteq> 0 then errno else 77\<rparr> else webserver)
               in (case serve_clients readable except answer (pendingClients webserver) of Inl e \<Rightarrow> Inl e
                   | Inr clients \<Rightarrow> FirstReadyClient (webserver\<lparr>pendingClients := clients\<rparr>))))"

section \<open>Responses\<close>

definition response_header :: "nat \<Rightarrow> bytes" where
  "response_header n = c_lit ''HTTP/1.1 200 OK'' @ [13, 10] @ c_lit ''Content-Type: text/html; charset=UTF-8'' @ [13, 10]
     @ c_lit ''Content-Length: '' @ decimal n @ [13, 10, 13, 10]"

text \<open>The bytes that \<open>send\<close> takes, given its answers; it waits when there are no more.\<close>

fun send_rest :: "bytes \<Rightarrow> int list \<Rightarrow> bytes" where
  "send_rest bs [] = []"
| "send_rest bs (result # results) =
     (if bs = [] \<or> result < 0 then [] else take (nat result) bs @ send_rest (drop (nat result) bs) results)"

text \<open>The length is printed as an \<open>int\<close>; the model is for responses below \<open>2 ^ 31\<close> bytes.\<close>

definition WebserverClientSendResponseExplicit :: "int list \<Rightarrow> bytes \<Rightarrow> bytes" where
  "WebserverClientSendResponseExplicit results response = send_rest (response_header (length response) @ response) results"

definition WebserverClientSendResponse :: "int list \<Rightarrow> bytes \<Rightarrow> bytes" where
  "WebserverClientSendResponse results response = WebserverClientSendResponseExplicit results (takeWhile (\<lambda>b. b \<noteq> 0) response)"

end
