(* ===== verification/Webserver_Props.thy ===== *)
theory Webserver_Props
  imports Webserver
begin

text \<open>What the server makes of requests: names and parameters arrive as they were encoded, and a request that ends it.\<close>

section \<open>Encoded text\<close>

definition plain :: "u8 \<Rightarrow> bool" where
  "plain b \<longleftrightarrow> 48 \<le> b \<and> b \<le> 57 \<or> 65 \<le> b \<and> b \<le> 90 \<or> 97 \<le> b \<and> b \<le> 122"

definition hex_char :: "u8 \<Rightarrow> u8" where
  "hex_char n = (if n < 10 then 48 + n else 55 + n)"

definition encode_byte :: "u8 \<Rightarrow> bytes" where
  "encode_byte b = (if plain b then [b] else if b = 32 then [43] else [37, hex_char (drop_bit 4 b), hex_char (b AND 15)])"

definition url_encode :: "bytes \<Rightarrow> bytes" where
  "url_encode s = concat (map encode_byte s)"

lemma byte_cases: "list_all P (map of_nat [0..<256]) \<Longrightarrow> P (b :: u8)"
proof -
  assume all: "list_all P (map of_nat [0..<256])"
  have "unat b < 256" using unsigned_less [of b, where ?'a = nat] by simp
  then have "of_nat (unat b) \<in> set (map of_nat [0..<256] :: u8 list)" unfolding set_map by (intro imageI) simp
  then have "P (of_nat (unat b))" using all unfolding list_all_iff by blast
  then show ?thesis by simp
qed

lemma escape_decodes: "ucast (hexToI (hex_char (b AND 15)) OR push_bit 4 (hexToI (hex_char (drop_bit 4 b)))) = (b :: u8)"
  by (rule byte_cases [of "\<lambda>b. ucast (hexToI (hex_char (b AND 15)) OR push_bit 4 (hexToI (hex_char (drop_bit 4 b)))) = b"]) code_simp

lemma encoded_bytes: "list_all (\<lambda>x. x \<noteq> 0 \<and> x \<noteq> 32 \<and> x \<noteq> 47) (encode_byte b)"
  by (rule byte_cases [of "\<lambda>b. list_all (\<lambda>x. x \<noteq> 0 \<and> x \<noteq> 32 \<and> x \<noteq> 47) (encode_byte b)"]) code_simp

lemma encoded_safe: "x \<in> set (url_encode s) \<Longrightarrow> x \<noteq> 0 \<and> x \<noteq> 32 \<and> x \<noteq> 47"
  using encoded_bytes by (fastforce simp: url_encode_def list_all_iff)

lemma encode_nonempty: "s \<noteq> [] \<Longrightarrow> url_encode s \<noteq> []"
  by (cases s) (auto simp: url_encode_def encode_byte_def)

lemma clean_keeps: "length bs = final + 1 \<Longrightarrow> take p (clean_loop final p bs) = take p bs"
proof (induction final p bs rule: clean_loop.induct)
  case (1 final p bs)
  have step: "take p (clean_loop final (p + 1) bs') = take p bs"
    if "length bs' = final + 1" "take p bs' = take p bs" "take (p + 1) (clean_loop final (p + 1) bs') = take (p + 1) bs'" for bs'
  proof -
    have "take p (take (p + 1) (clean_loop final (p + 1) bs')) = take p (take (p + 1) bs')" using that(3) by simp
    then show ?thesis using that(2) by simp
  qed
  show ?case
  proof (cases "p < final")
    case False
    then show ?thesis by (subst clean_loop.simps) simp
  next
    case True
    let ?v = "bs[p := ucast (hexToI (bs ! (p + 2)) OR push_bit 4 (hexToI (bs ! (p + 1))))]"
    let ?m = "take (p + 1) ?v @ take (final - p - 2) (drop (p + 3) ?v) @ drop (final - 1) ?v"
    consider "bs ! p = 43" | "bs ! p \<noteq> 43" "bs ! p = 37 \<and> p + 2 < final" | "bs ! p \<noteq> 43" "\<not> (bs ! p = 37 \<and> p + 2 < final)" by blast
    then show ?thesis
    proof cases
      case 1
      have "take p (clean_loop final (p + 1) (bs[p := 32])) = take p bs"
        by (rule step) (use "1.IH"(1) [OF True 1] "1.prems" in simp_all)
      then show ?thesis using True 1 by (subst clean_loop.simps) simp
    next
      case 2
      have "2 < final" using 2(2) by simp
      then obtain k where "final = k + 2" by (metis add.commute less_imp_add_positive)
      then have len: "length ?m = final + 1" using "1.prems" 2(2) by simp
      have "take p (clean_loop final (p + 1) ?m) = take p bs"
        by (rule step [OF len]) (use "1.IH"(2) [OF True 2 refl] len "1.prems" 2(2) in simp_all)
      then show ?thesis using True 2 by (subst clean_loop.simps) (simp add: Let_def)
    next
      case 3
      have "take p (clean_loop final (p + 1) bs) = take p bs"
        by (rule step) (use "1.IH"(3) [OF True 3] "1.prems" in simp_all)
      then show ?thesis using True 3 by (subst clean_loop.simps) auto
    qed
  qed
qed

lemma clean_stays:
  assumes "length bs = final + 1" "bs ! p = 0" "p \<le> final"
  shows "take (p + 1) (clean_loop final p bs) = take (p + 1) bs"
proof (cases "p < final")
  case True
  then show ?thesis using assms clean_keeps [of bs final "p + 1"] by (subst clean_loop.simps) simp
qed (subst clean_loop.simps, simp)

lemma clean_encoded:
  assumes "length bs = final + 1" "bs = d @ url_encode s @ 0 # junk"
  shows "take (length d + length s + 1) (clean_loop final (length d) bs) = d @ s @ [0]"
  using assms
proof (induction s arbitrary: d bs junk)
  case Nil
  then have "bs ! length d = 0" "length d \<le> final" by (simp_all add: url_encode_def)
  from clean_stays [OF Nil.prems(1) this] show ?case by (simp add: Nil.prems(2) url_encode_def)
next
  case (Cons b s)
  let ?p = "length d"
  have split: "url_encode (b # s) = encode_byte b @ url_encode s" by (simp add: url_encode_def)
  have p: "?p < final"
    using arg_cong [OF Cons.prems(2), of length] Cons.prems(1) by (auto simp: split encode_byte_def)
  have goal: ?case if "clean_loop final ?p bs = clean_loop final (?p + 1) bs'" "length bs' = final + 1"
    "bs' = (d @ [b]) @ url_encode s @ 0 # junk'" for bs' junk'
    using Cons.IH [OF that(2,3)] that(1) by simp
  consider "plain b" | "\<not> plain b" "b = 32" | "\<not> plain b" "b \<noteq> 32" by blast
  then show ?case
  proof cases
    case 1
    then have bs: "bs = (d @ [b]) @ url_encode s @ 0 # junk" by (simp add: Cons.prems(2) split encode_byte_def)
    then have "bs ! ?p = b" by (simp add: nth_append)
    moreover have "b \<noteq> 43" "b \<noteq> 37" using 1 by (auto simp: plain_def)
    ultimately show ?thesis using p by (intro goal [OF _ Cons.prems(1) bs]) (subst clean_loop.simps, simp)
  next
    case 2
    then have "encode_byte b = [43]" by (simp add: encode_byte_def)
    then have bs: "bs = d @ 43 # url_encode s @ 0 # junk" by (simp add: Cons.prems(2) split)
    have "clean_loop final ?p bs = clean_loop final (?p + 1) (bs[?p := 32])"
      using p by (subst clean_loop.simps) (simp add: bs)
    then show ?thesis by (intro goal [of "bs[?p := 32]" junk]) (use Cons.prems(1) in \<open>simp_all add: bs 2\<close>)
  next
    case 3
    let ?h1 = "hex_char (drop_bit 4 b)" and ?h2 = "hex_char (b AND 15)"
    have bs: "bs = d @ 37 # ?h1 # ?h2 # url_encode s @ 0 # junk" using 3 by (simp add: Cons.prems(2) split encode_byte_def)
    have at: "bs ! ?p = 37" "bs ! Suc ?p = ?h1" "bs ! Suc (Suc ?p) = ?h2" by (simp_all add: bs nth_append)
    have len: "length bs = final + 1" by (rule Cons.prems(1))
    have r: "?p + 2 < final" "length (url_encode s) + length junk + ?p + 3 = final" using len by (simp_all add: bs)
    let ?v = "bs[?p := b]"
    have v: "?v = d @ b # ?h1 # ?h2 # url_encode s @ 0 # junk" by (simp add: bs)
    let ?m = "take (?p + 1) ?v @ take (final - ?p - 2) (drop (?p + 3) ?v) @ drop (final - 1) ?v"
    have "clean_loop final ?p bs = clean_loop final (?p + 1) ?m"
      using p r(1) by (subst clean_loop.simps) (simp add: at escape_decodes Let_def)
    moreover have "?m = (d @ [b]) @ url_encode s @ 0 # (junk @ drop (final - 1) ?v)"
    proof -
      have "drop (?p + 3) ?v = url_encode s @ 0 # junk" by (simp add: v)
      moreover have "length (url_encode s @ 0 # junk) \<le> final - ?p - 2" using r(2) by simp
      moreover have "take (?p + 1) ?v = d @ [b]" by (simp add: v)
      ultimately show ?thesis by simp
    qed
    moreover have "length ?m = final + 1" using r(1) len by simp
    ultimately show ?thesis by (intro goal)
  qed
qed

lemma clean_decodes:
  assumes "0 \<notin> set s"
  shows "cleanURISpaces (url_encode s) = s"
proof -
  let ?c = "clean_loop (length (url_encode s)) 0 (url_encode s @ [0])"
  have "take (length s + 1) ?c = s @ [0]"
    using clean_encoded [of "url_encode s @ [0]" "length (url_encode s)" "[]" s "[]"] by simp
  then have "?c = s @ 0 # drop (length s + 1) ?c" by (metis append.assoc append_Cons append_Nil append_take_drop_id)
  then have "takeWhile (\<lambda>b. b \<noteq> 0) ?c = takeWhile (\<lambda>b. b \<noteq> 0) (s @ 0 # drop (length s + 1) ?c)" by simp
  also have "\<dots> = s" using assms by (subst takeWhile_append2) auto
  finally show ?thesis by (simp add: cleanURISpaces_def)
qed

section \<open>Requests\<close>

definition request_path :: "bytes list \<Rightarrow> bytes" where
  "request_path segments = concat (map (\<lambda>s. 47 # url_encode s) segments)"

lemma parts_some: "\<forall>x\<in>set e. x \<noteq> 32 \<and> x \<noteq> 47 \<Longrightarrow> parts_loop (Some s) (e @ rest) c = parts_loop (Some (s @ e)) rest c"
  by (induction e arbitrary: s) simp_all

lemma parts_none: "e \<noteq> [] \<Longrightarrow> \<forall>x\<in>set e. x \<noteq> 32 \<and> x \<noteq> 47 \<Longrightarrow> parts_loop None (e @ rest) c = parts_loop (Some e) rest c"
  by (cases e) (simp_all add: parts_some)

lemma parts_of_path:
  assumes "\<forall>s\<in>set segments. s \<noteq> []"
  shows "parts_loop (Some e) (request_path segments @ 32 # rest) c = fold add_part (e # map url_encode segments) c"
  using assms
proof (induction segments arbitrary: e c)
  case Nil
  then show ?case by (simp add: request_path_def Let_def)
next
  case (Cons s segments)
  have "parts_loop (Some e) (request_path (s # segments) @ 32 # rest) c
      = parts_loop None (url_encode s @ (request_path segments @ 32 # rest)) (add_part e c)"
    by (simp add: request_path_def Let_def)
  also have "\<dots> = parts_loop (Some (url_encode s)) (request_path segments @ 32 # rest) (add_part e c)"
    using Cons.prems encode_nonempty encoded_safe by (intro parts_none) auto
  also have "\<dots> = fold add_part (map url_encode (s # segments)) (add_part e c)" using Cons by simp
  finally show ?case by simp
qed

lemma add_encoded: "0 \<notin> set s \<Longrightarrow> add_part (url_encode s) c
    = (if requestName c = None then c\<lparr>requestName := Some s\<rparr> else c\<lparr>parameters := parameters c @ [s]\<rparr>)"
proof -
  assume z: "0 \<notin> set s"
  have t: "takeWhile (\<lambda>b. b \<noteq> 0) (url_encode s) = url_encode s" using encoded_safe by (auto simp: takeWhile_eq_all_conv)
  show ?thesis unfolding add_part_def t clean_decodes [OF z] Let_def by simp
qed

lemma add_parameters:
  "\<forall>s\<in>set segments. 0 \<notin> set s \<Longrightarrow> requestName c \<noteq> None
    \<Longrightarrow> fold add_part (map url_encode segments) c = c\<lparr>parameters := parameters c @ segments\<rparr>"
  by (induction segments arbitrary: c) (simp_all add: add_encoded)

lemma strnstr_first:
  "b \<notin> set xs \<Longrightarrow> strnstr_from [b] (xs @ b # ys) = Some (length xs)"
  by (induction xs) auto

lemma remove_absent: "p \<notin> fst ` set cs \<Longrightarrow> remove_entries p cs = cs"
  by (induction p cs rule: remove_entries.induct) (auto split: list.split)

lemma remove_first: "p \<notin> fst ` set cs \<Longrightarrow> remove_entries p ((p, c) # cs) = cs"
  by (cases cs) (auto simp: remove_absent)

lemma no_zero_after: "0 \<notin> set bs \<Longrightarrow> takeWhile (\<lambda>b. b \<noteq> 0) (bs @ [0]) = bs"
  by (subst takeWhile_append2) auto

text \<open>
  C28. A request gets through. From a client that has sent a verb, a path of encoded segments, and the
  rest of a request up to the empty line, \<open>WebserverWaitForClient\<close> returns the first segment as the name
  and the others as the parameters, decoded, and the client leaves the list.
\<close>

theorem request_roundtrip:
  assumes "pendingClients webserver = (p, client) # others" "p \<notin> fst ` set others"
    and "requestName client = None" "parameters client = []"
    and "web_input client = Some (verb @ [32] @ request_path (name # params) @ [32] @ rest)"
    and "32 \<notin> set verb" "0 \<notin> set verb" "0 \<notin> set rest" "\<forall>s\<in>set (name # params). s \<noteq> [] \<and> 0 \<notin> set s"
    and "request_complete client"
  shows "\<exists>served. WebserverWaitForClient waits selected errno accepted answer webserver
      = Inr (Some served, webserver\<lparr>pendingClients := others\<rparr>) \<and> requestName served = Some name \<and> parameters served = params"
proof -
  let ?path = "request_path (name # params)"
  let ?bs = "verb @ [32] @ ?path @ [32] @ rest"
  let ?c = "client\<lparr>web_input := Some (?bs @ [0])\<rparr>"
  have "0 \<notin> set (url_encode s)" for s using encoded_safe [of 0 s] by blast
  then have "0 \<notin> set ?path" by (auto simp: request_path_def)
  then have z: "0 \<notin> set ?bs" using assms(7,8) by simp
  have "strnstr (?bs @ [0]) [32] = strnstr_from [32] (verb @ 32 # (?path @ [32] @ rest))"
    unfolding strnstr_def no_zero_after [OF z] by simp
  also have "\<dots> = Some (length verb)" by (rule strnstr_first [OF assms(6)])
  finally have "RequestURI (?bs @ [0]) = Inr (length verb + 1)" by (simp add: RequestURI_def)
  then have prepared: "PrepareWebserverClient ?c = Inr (parts_loop None (?path @ 32 # rest @ [0]) ?c)"
    by (simp add: PrepareWebserverClient_def)
  have "parts_loop None (?path @ 32 # rest @ [0]) ?c
      = parts_loop None (url_encode name @ (request_path params @ 32 # rest @ [0])) ?c"
    by (simp add: request_path_def Let_def)
  also have "\<dots> = parts_loop (Some (url_encode name)) (request_path params @ 32 # rest @ [0]) ?c"
    using assms(9) encode_nonempty encoded_safe by (intro parts_none) auto
  also have "\<dots> = fold add_part (url_encode name # map url_encode params) ?c"
    using assms(9) by (intro parts_of_path) simp
  also have "\<dots> = ?c\<lparr>requestName := Some name, parameters := params\<rparr>"
    using assms(3,4,9) by (simp add: add_encoded add_parameters)
  finally have "PrepareWebserverClient ?c = Inr (?c\<lparr>requestName := Some name, parameters := params\<rparr>)" using prepared by simp
  then have "FirstReadyClient webserver = Inr (Some (?c\<lparr>requestName := Some name, parameters := params\<rparr>), webserver\<lparr>pendingClients := others\<rparr>)"
    using assms(5,10) by (simp add: FirstReadyClient_def assms(1) RemoveClient_def remove_first [OF assms(2)] del: remove_entries.simps)
  then show ?thesis by (simp add: WebserverWaitForClient_def)
qed

text \<open>
  C36. A request that ends the server. If the first complete request has no space, as the four bytes of an
  empty line have not, the null pointer that \<open>strnstr\<close> returns is moved and read.
\<close>

theorem spaceless_request_faults:
  assumes "pendingClients webserver = (p, client) # others" "request_complete client"
    and "web_input client = Some bs" "32 \<notin> set bs"
  shows "WebserverWaitForClient waits selected errno accepted answer webserver = Inl Fault"
proof -
  have none: "strnstr_from [32] xs = None" if "32 \<notin> set xs" for xs :: bytes using that by (induction xs) auto
  have "32 \<notin> set (takeWhile (\<lambda>b. b \<noteq> 0) (bs @ [0]))" using assms(4) by (auto dest: set_takeWhileD)
  then have "RequestURI (bs @ [0]) = Inl Fault" by (simp add: RequestURI_def strnstr_def none)
  then have "FirstReadyClient webserver = Inl Fault"
    using assms by (simp add: FirstReadyClient_def PrepareWebserverClient_def)
  then show ?thesis by (simp add: WebserverWaitForClient_def)
qed

section \<open>Examples\<close>

definition asking :: "bytes \<Rightarrow> webserver" where
  "asking bs = \<lparr>errorCode = 0, serverSocket = 3,
     pendingClients = [(0, \<lparr>requestName = None, parameters = [], clientSocket = 4, web_input = Some bs\<rparr>)], fresh_client = 1\<rparr>"

theorem request_roundtrip_witness:
  "\<exists>served. WebserverWaitForClient True NoActivity 0 0 (\<lambda>_. None)
      (asking ([71] @ [32] @ request_path [[97], [98, 32, 47]] @ [32] @ [72, 13, 10, 13, 10])) = Inr (Some served, (asking [])\<lparr>pendingClients := []\<rparr>)
    \<and> requestName served = Some [97] \<and> parameters served = [[98, 32, 47]]"
proof -
  let ?bs = "[71] @ [32] @ request_path [[97], [98, 32, 47]] @ [32] @ [72, 13, 10, 13, 10]"
  let ?c = "\<lparr>requestName = None, parameters = [], clientSocket = 4, web_input = Some ?bs\<rparr>"
  have "\<exists>served. WebserverWaitForClient True NoActivity 0 0 (\<lambda>_. None) (asking ?bs)
      = Inr (Some served, (asking ?bs)\<lparr>pendingClients := []\<rparr>) \<and> requestName served = Some [97] \<and> parameters served = [[98, 32, 47]]"
  proof (rule request_roundtrip [where p = 0 and client = ?c and verb = "[71]" and rest = "[72, 13, 10, 13, 10]"])
    show "request_complete ?c" by code_simp
  qed (simp_all add: asking_def)
  then show ?thesis by (simp add: asking_def)
qed

theorem spaceless_request_faults_witness:
  "WebserverWaitForClient True NoActivity 0 0 (\<lambda>_. None) (asking [13, 10, 13, 10]) = Inl Fault"
  by (rule spaceless_request_faults [where bs = "[13, 10, 13, 10]" and p = 0 and others = "[]"
      and client = "\<lparr>requestName = None, parameters = [], clientSocket = 4, web_input = Some [13, 10, 13, 10]\<rparr>"]) (simp_all add: asking_def request_complete_def strnstr_def)

end
