(* ===== verification/Formatting.thy ===== *)
theory Formatting
  imports Opcode_Names Transactions Sha256
begin

text \<open>
  Text that the core prints (scripts, amounts, transactions), the identifiers of \<open>makeUuid\<close>, \<open>implode\<close>,
  and the wrappers around the AES library in \<open>src/code/BTCUtil.c\<close>. A text is its bytes before the zero.
\<close>

section \<open>Text\<close>

definition hex_text :: "data \<Rightarrow> bytes" where
  "hex_text d = takeWhile (\<lambda>b. b \<noteq> 0) (dbytes (toHex d))"

text \<open>The length of \<open>result\<close> counts the final zero, so it is never 0 and every token gets a space in front.\<close>

definition scriptToString :: "data \<Rightarrow> data" where
  "scriptToString script = fold (\<lambda>token result.
     let result = (if dlength result \<noteq> 0 then StringNewC (butlast (dbytes result) @ [32]) else result)
     in StringNewC (butlast (dbytes result) @ butlast (dbytes (ScriptTokenDescription token)))) (scriptToTokens script) (StringNewC [])"

definition text_of :: "data \<Rightarrow> bytes" where
  "text_of s = takeWhile (\<lambda>b. b \<noteq> 0) (dbytes s)"

definition zero_filled :: "nat \<Rightarrow> nat \<Rightarrow> bytes" where
  "zero_filled width n = replicate (width - length (decimal n)) 48 @ decimal n"

definition formatBitcoinAmount :: "u64 \<Rightarrow> bytes" where
  "formatBitcoinAmount amount =
     (let a = sint amount; sign = (if a < 0 then [45] else []);
          value1 = \<bar>a\<bar> div 100000000; value2 = \<bar>a\<bar> mod 100000000
      in sign @ decimal (nat value1) @ [46] @ zero_filled 8 (nat value2))"

definition end_line :: bytes where "end_line = [10]"
definition tab :: bytes where "tab = [9]"

fun stack_text :: "nat \<Rightarrow> datas \<Rightarrow> bytes" where
  "stack_text i [] = []"
| "stack_text i (d # ds) = (if i \<noteq> 0 then c_lit '', '' else []) @ [91] @ hex_text d @ [93] @ stack_text (i + 1) ds"

definition input_text :: "nat \<Rightarrow> tx_input \<Rightarrow> fault + bytes" where
  "input_text counter input =
     (let start = c_lit ''[Input '' @ decimal counter @ [93] @ end_line
            @ tab @ c_lit ''Previous Transaction Hash: ['' @ hex_text (DataFlipEndianCopy (previousTransactionHash input)) @ [93] @ end_line
            @ tab @ c_lit ''Output Index: '' @ decimal (unat (outputIndex input)) @ end_line;
          finish = tab @ c_lit ''Sequence: '' @ hex_text (uint32D (sequence input)) @ end_line;
          stack = witnessStack input
      in if length stack > 2 then
           Inr (start @ tab @ c_lit ''Witness Stack: '' @ stack_text 0 (butlast stack) @ end_line
             @ tab @ c_lit ''Witness Script: '' @ text_of (scriptToString (DatasLast stack)) @ end_line @ finish)
         else
           let key = TransactionInputPublicKey input; script = TransactionInputValidationScript input
           in map_sum id (\<lambda>sigs. start
                @ (if key \<noteq> DataNull then tab @ c_lit ''Public Key: ['' @ hex_text key @ [93] @ end_line else [])
                @ (if script \<noteq> DataNull then tab @ c_lit ''Validation Script: '' @ text_of (scriptToString script) @ end_line else [])
                @ concat (map (\<lambda>s. tab @ c_lit ''Signature: ['' @ hex_text s @ [93] @ end_line) sigs)
                @ (if stack \<noteq> [] then tab @ c_lit ''Witness stack: '' @ decimal (length stack) @ c_lit '' element(s)'' @ end_line else [])
                @ finish) (TransactionInputSignatures input))"

fun inputs_text :: "nat \<Rightarrow> tx_input list \<Rightarrow> fault + bytes" where
  "inputs_text counter [] = Inr []"
| "inputs_text counter (input # rest) = (case input_text counter input of Inl e \<Rightarrow> Inl e
     | Inr t \<Rightarrow> map_sum id ((@) t) (inputs_text (counter + 1) rest))"

definition output_text :: "nat \<Rightarrow> tx_output \<Rightarrow> bytes" where
  "output_text counter output = c_lit ''[Output '' @ decimal counter @ [93] @ end_line
     @ tab @ c_lit ''Value: '' @ formatBitcoinAmount (out_value output) @ end_line
     @ tab @ c_lit ''Script: '' @ text_of (scriptToString (out_script output)) @ end_line"

fun outputs_text :: "nat \<Rightarrow> tx_output list \<Rightarrow> bytes" where
  "outputs_text counter [] = []"
| "outputs_text counter (output # rest) = output_text counter output @ outputs_text (counter + 1) rest"

definition TransactionDescription :: "transaction \<Rightarrow> fault + data" where
  "TransactionDescription tx =
     (let used = TransactionUsedValue tx; usable = TransactionUsableValue tx;
          start = c_lit ''Ver: '' @ decimal (unat (version tx)) @ c_lit '', locktime: '' @ decimal (unat (locktime tx))
            @ c_lit '', value: '' @ decimal (unat used)
            @ (if usable \<noteq> 0 then c_lit '', fee: '' @ decimal (unat (usable - used)) else []) @ end_line
      in map_sum id (\<lambda>ins. StringNewC (start @ ins @ outputs_text 1 (outputs tx))) (inputs_text 1 (inputs tx)))"

text \<open>The branch for Android; the other one calls a library. Every part is taken from the start of the random bytes.\<close>

definition makeUuid :: "bytes \<Rightarrow> data" where
  "makeUuid entropy = StringNewC (hex_text (Bytes (take 4 entropy)) @ [45] @ hex_text (Bytes (take 2 entropy)) @ [45]
     @ hex_text (Bytes (take 2 entropy)) @ [45] @ hex_text (Bytes (take 2 entropy)) @ [45] @ hex_text (Bytes (take 6 entropy)))"

text \<open>The results of the calls are dropped.\<close>

definition implode_datas :: "datas \<Rightarrow> data" where
  "implode_datas items = fold (\<lambda>item d. let dropped = DataAddCopy d item in d) items (DataNew 0)"

section \<open>Encryption\<close>

text \<open>\<open>cbc\<close> is the library's pass over a buffer, given the key, the sixteen bytes it reads of the vector, and the buffer.\<close>

type_synonym cipher = "bytes \<Rightarrow> bytes \<Rightarrow> bytes \<Rightarrow> bytes"

definition aes_vector :: "u64 \<Rightarrow> bytes" where
  "aes_vector nonce = take 16 (dbytes (sha256 (uint64D nonce)))"

definition encryptAES :: "cipher \<Rightarrow> data \<Rightarrow> data \<Rightarrow> u64 \<Rightarrow> data" where
  "encryptAES cbc d privKey nonce =
     (let paddedData = padData16 d in
      if dlength paddedData mod 16 \<noteq> 0 then DataNull
      else if dlength privKey \<noteq> 32 then DataNull
      else Bytes (cbc (dbytes privKey) (aes_vector nonce) (dbytes paddedData)))"

definition decryptAES :: "cipher \<Rightarrow> data \<Rightarrow> data \<Rightarrow> u64 \<Rightarrow> data" where
  "decryptAES cbc d privKey nonce =
     (if dlength d mod 16 \<noteq> 0 then DataNull
      else if dlength privKey \<noteq> 32 then DataNull
      else unpadData16 (Bytes (cbc (dbytes privKey) (aes_vector nonce) (dbytes d))))"

text \<open>What the library documents: on whole blocks, decryption undoes encryption and keeps the length.\<close>

definition aes_correct :: "cipher \<Rightarrow> cipher \<Rightarrow> bool" where
  "aes_correct enc dec \<longleftrightarrow> (\<forall>key iv bs. length key = 32 \<longrightarrow> length iv = 16 \<longrightarrow> length bs mod 16 = 0 \<longrightarrow>
     length (enc key iv bs) = length bs \<and> dec key iv (enc key iv bs) = bs)"

section \<open>What the functions give\<close>

lemma aes_roundtrip:
  assumes "aes_correct enc dec" "dlength privKey = 32"
  shows "decryptAES dec (encryptAES enc d privKey nonce) privKey nonce = Bytes (dbytes d)"
proof -
  have pad: "dlength (padData16 d) mod 16 = 0" "unpadData16 (padData16 d) = Bytes (dbytes d)" using pad_roundtrip [of d] by simp_all
  have iv: "length (aes_vector nonce) = 16" by (simp add: aes_vector_def uint64D_def sha256_eq_spec length_sha256_spec)
  have "enc (dbytes privKey) (aes_vector nonce) (dbytes (padData16 d)) = enc (dbytes privKey) (aes_vector nonce) (dbytes (padData16 d))
    \<and> length (enc (dbytes privKey) (aes_vector nonce) (dbytes (padData16 d))) = dlength (padData16 d)
    \<and> dec (dbytes privKey) (aes_vector nonce) (enc (dbytes privKey) (aes_vector nonce) (dbytes (padData16 d))) = dbytes (padData16 d)"
    using assms pad(1) iv by (simp add: aes_correct_def)
  moreover have "Bytes (dbytes (padData16 d)) = padData16 d" using pad_roundtrip [of d] by (cases "padData16 d") simp_all
  ultimately show ?thesis using pad assms(2) by (simp add: encryptAES_def decryptAES_def)
qed

lemma implode_empty: "implode_datas items = DataNew 0"
proof -
  have "fold (\<lambda>item d. let dropped = DataAddCopy d item in d) items d = d" for d by (induction items) simp_all
  then show ?thesis by (simp add: implode_datas_def)
qed

text \<open>An identifier repeats the first six random bytes; the other ten are not used.\<close>

lemma uuid_has_six_bytes: "take 6 a = take 6 b \<Longrightarrow> makeUuid a = makeUuid b"
proof -
  assume same: "take 6 a = take 6 b"
  have "take k a = take k b" if "k \<le> 6" for k using arg_cong [OF same, of "take k"] that by (simp add: min_absorb1)
  then show ?thesis by (simp add: makeUuid_def)
qed

lemma decimal_short: "n < 10 ^ Suc k \<Longrightarrow> length (decimal n) \<le> Suc k"
proof (induction k arbitrary: n)
  case 0
  then show ?case by (subst decimal.simps) simp
next
  case (Suc k)
  have "n div 10 < 10 ^ Suc k" using Suc.prems by (simp add: less_mult_imp_div_less)
  then show ?case using Suc.IH [of "n div 10"] by (subst decimal.simps) simp
qed

text \<open>The two numbers of a printed amount are the amount.\<close>

lemma amount_reads_back:
  "\<exists>sign whole fraction. formatBitcoinAmount amount = sign @ whole @ [46] @ fraction \<and> length fraction = 8
    \<and> int (digits_value whole * 100000000 + digits_value fraction) = \<bar>sint amount\<bar> \<and> (sign = [45] \<longleftrightarrow> sint amount < 0)"
proof -
  let ?a = "\<bar>sint amount\<bar>" and ?sign = "if sint amount < 0 then [45] else [] :: bytes"
  have zeros: "digits_value (replicate k 48 @ ds) = digits_value ds" for k ds
    by (induction k) (simp_all add: digits_value_def)
  have len: "length (decimal n) \<le> 8" if "n < 100000000" for n
    using decimal_short [of n 7] that by simp
  have "nat (?a mod 100000000) < 100000000" by (simp add: nat_less_iff)
  then have "length (zero_filled 8 (nat (?a mod 100000000))) = 8" using len by (simp add: zero_filled_def)
  moreover have "int (digits_value (decimal (nat (?a div 100000000))) * 100000000
      + digits_value (zero_filled 8 (nat (?a mod 100000000)))) = ?a"
  proof -
    have "0 \<le> ?a div 100000000" "0 \<le> ?a mod 100000000" by (simp_all add: pos_imp_zdiv_nonneg_iff)
    then show ?thesis by (simp add: zero_filled_def zeros decimal_value)
  qed
  moreover have "formatBitcoinAmount amount = ?sign @ decimal (nat (?a div 100000000)) @ [46] @ zero_filled 8 (nat (?a mod 100000000))"
    unfolding formatBitcoinAmount_def Let_def ..
  moreover have "?sign = [45] \<longleftrightarrow> sint amount < 0" by simp
  ultimately show ?thesis by blast
qed

end
