(* ===== verification/Spec2Isabelle.thy ===== *)
theory Spec2Isabelle
  imports Merkle_Props Signing_Flow HD_Props Bloom Addresses Memory_Breaks Notifications Key_Manager_Props Scan_Props Transaction_Analyzer Node_Props Database_Table_Props Node_Reachable Webserver_Props Formatting
begin

text \<open>
  \<^bold>\<open>BitcoinSpoon: a model of the wallet.\<close>

  BitcoinSpoon is a Bitcoin wallet library in C. Its core, under \<open>src/code\<close>, is a stack of
  components: byte buffers and arrays of buffers (\<open>Data.c\<close>), dictionaries and strings built on
  them (\<open>Data.c\<close>), readers, writers, hashing, keys, wallets and script building (\<open>BTCUtil.c\<close>),
  transactions (\<open>Transaction.c\<close>) and partial Merkle trees (\<open>MerkleBlock.c\<close>). It calls hash
  functions and text encodings under \<open>src/libraries\<close>. On the core rest the stored secrets and settings
  (\<open>KeyManager.c\<close>, \<open>BasicStorage.c\<close>), the transactions of the wallet (\<open>TransactionTracker.c\<close>,
  \<open>TransactionAnalyzer.c\<close>) and the chain of headers (\<open>Database.c\<close>). The node manager
  (\<open>NodeManager.c\<close>) owns the peer connections (\<open>Node.c\<close>) and moves headers and transactions between
  them, the database and the tracker, over work queues (\<open>WorkQueue.c\<close>) and notifications
  (\<open>Notifications.c\<close>). A small web server (\<open>Webserver.c\<close>) stands beside it.

  \<^bold>\<open>Theories: the core.\<close>
  \<^item> \<open>Prelude\<close>: byte and word types, little-endian lemmas, the C library's \<open>qsort\<close> and \<open>bsearch\<close>,
    the locale \<open>comparison\<close> of comparison functions.
  \<^item> \<open>Data_Values\<close>, \<open>Data_Lists\<close>: the type \<open>data\<close> (a null pointer or bytes) and arrays of it, with
    the operations of \<open>Data.c\<close>. \<open>fault\<close> names an abort and an access outside an array.
  \<^item> \<open>C_Strings\<close>: the null-terminated strings of \<open>Data.c\<close>.
  \<^item> \<open>Dictionaries\<close>: sorted arrays of key-value pairs; the locale \<open>keyed_store\<close> is the map
    interface they implement.
  \<^item> \<open>Memory\<close>, \<open>Memory_Scopes\<close>, \<open>Memory_Functions\<close>, \<open>Memory_Refine\<close>, \<open>Memory_Flow\<close>, \<open>Memory_Props\<close>,
    \<open>Memory_Breaks\<close>: the heap below the buffers: allocations, track stacks and scopes, the functions of
    the core that use them, and how the contents of the heap are those of \<open>Data_Values\<close>.
  \<^item> \<open>Byte_IO\<close>: integer readers and writers, variable-length integers, hexadecimal, padding.
  \<^item> \<open>Scripts\<close>, \<open>Script_Props\<close>: pushes, the tokeniser, script templates, the analysis of
    signature checks. \<open>Opcode_Names\<close>, \<open>Formatting\<close>: names of operators, printed text, identifiers and
    the wrappers around AES.
  \<^item> \<open>Block_Hash\<close>, \<open>Sha256\<close>, \<open>Sha512\<close>, \<open>Ripemd160\<close>: the locale \<open>block_chain\<close> of block-wise hashing
    and the three hash implementations that interpret it.
  \<^item> \<open>Hmac\<close>: the HMAC and PBKDF2 macros over the locale \<open>stream_hash\<close>, interpreted by both SHA-2
    implementations.
  \<^item> \<open>English_Words\<close>, \<open>Mnemonic\<close>, \<open>Sentences\<close>: word lists, sentences for entropy and back, seeds.
  \<^item> \<open>Merkle_Block\<close>, \<open>Merkle_Props\<close>: headers and partial Merkle trees.
  \<^item> \<open>Transactions\<close>, \<open>Transaction_Props\<close>, \<open>Transaction_Order\<close>: parsing and serialisation (the
    locale \<open>element_codec\<close>), ids, digests, BIP 69 order, input classification.
  \<^item> \<open>Keys\<close>, \<open>Signing\<close>, \<open>Signing_Props\<close>, \<open>Signing_Flow\<close>: keys and signatures over the curve
    library as a parameter, signing and validation.
  \<^item> \<open>HD_Wallets\<close>, \<open>HD_Props\<close>: serialised wallets, child key derivation and derivation paths.
  \<^item> \<open>Base58\<close>, \<open>Segwit\<close>, \<open>Segwit_Props\<close>, \<open>Addresses\<close>: the two text encodings of addresses (the locale
    \<open>radix\<close> is the conversion between two bases, interpreted for both directions) and the
    functions between output scripts and addresses.
  \<^item> \<open>Bloom\<close>: MurmurHash3 and bloom filters, with the locale \<open>membership_filter\<close>.

  \<^bold>\<open>Theories: above the core.\<close>
  \<^item> \<open>Computations\<close>: operations on a shared state that may stop with a fault or not return, their laws,
    and rules for what they maintain.
  \<^item> \<open>Basic_Storage\<close>, \<open>Key_Manager\<close>, \<open>Key_Manager_Props\<close>: the file of settings and the key manager.
  \<^item> \<open>Work_Queue\<close>, \<open>Notifications\<close>: queued work, a thread that executes it as a step relation, listeners.
  \<^item> \<open>Transaction_Tracker\<close>, \<open>Tracker_Wallets\<close>, \<open>Tracker_Filter\<close>, \<open>Tracker_Props\<close>, \<open>Scan_Props\<close>: the stored
    transactions, the scans of wallets and vaults, the watched keys and the bloom filter.
  \<^item> \<open>Transaction_Analyzer\<close>: the events of transactions and balances.
  \<^item> \<open>Database\<close>, \<open>Database_Tables\<close>, \<open>Database_Props\<close>, \<open>Database_Table_Props\<close>: the tables of blocks,
    transactions and nodes, and the caches.
  \<^item> \<open>Node\<close>, \<open>Node_Props\<close>: one connection: framing, buffers, handshake, messages.
  \<^item> \<open>Node_Manager\<close> (state, requests, headers), \<open>Node_Sync\<close> (blocks and transactions), \<open>Node_Checkup\<close>
    (known nodes, connecting, filters), \<open>Node_Rounds\<close> (the periodic check, queued work, the rounds),
    \<open>Node_Manager_Props\<close>, and \<open>Node_Reachable\<close> with the step relation of its threads.
  \<^item> \<open>Webserver\<close>, \<open>Webserver_Props\<close>: requests, their decoding, responses.

  \<^bold>\<open>Correspondence.\<close> Definitions keep the C names, with a prefix where a name is taken. A function that
  fails by aborting or by an access outside an array returns a sum with \<open>fault\<close> on the left. A reader
  that moves a pointer takes and returns the remaining bytes. An update through a pointer returns the
  updated value. Operations on a shared object are computations: a function from its state to nothing
  (it does not return), a fault, or a result with the new state. Loops are structural recursion, folds
  over index ranges or functions with a termination proof, so no fuel is used anywhere; the bound
  \<open>PACKETS_PER_PROCESS\<close> is the code's own. What may not return is child key derivation, which retries
  with the next index, the loops of the key manager over it, \<open>WorkQueueExecuteAll\<close> when handlers keep
  adding work, and the random trimming of the node list; there \<open>None\<close> stands for not returning. Threads
  are step relations (\<open>wq_step\<close>, \<open>node_step\<close>) or sequences of the pieces of work that they give to each
  other, each piece one step.

  \<^bold>\<open>Parameters.\<close> The curve library secp256k1 is the record \<open>ecc\<close> of its calls; what a theorem needs
  of it is a named hypothesis (\<open>ecc_correct\<close>, \<open>ecc_sized\<close>, \<open>ecc_homomorphic\<close>), and each witness
  gives a concrete record that satisfies it. The floating-point formulas of the bloom filter and of the
  failure rate, the clock, random numbers, the handlers of work, the addresses that the allocator returns,
  the answers of \<open>send\<close>, \<open>recv\<close>, \<open>accept\<close> and \<open>select\<close>, the AES library, the starting blocks of the
  database and whether SQLite knows the limit clause are arguments. SQL statements are written out as
  what they mean on the rows.

  \<^bold>\<open>What is shown.\<close> Round trips of transactions, scripts, addresses, sentences, dictionaries, integers,
  packets and web requests; equivalence of the streaming hashes, HMAC and PBKDF2 with their definitions
  over whole messages; dictionaries, the storage file and the table of transactions refine maps; memory
  scopes leave only their result; partial Merkle trees decode and authenticate; signing leads to
  validation; key derivation is well formed, commutes with taking public keys and returns exactly
  when some index gives a key; bloom filters have no false negatives; scans find the last used address;
  headers of a peer reach the chain and lead to the next request; the invariants of the tracker, of the
  work queue and of the node manager hold in every reachable state. Where the code departs from what it
  means to do, a theorem states what it does.

  \<^bold>\<open>Not modelled.\<close> The vendored libraries secp256k1 and AES; the command line tool and the tests; opening
  sockets, the creation of threads and the registry of named ones, mutexes (each operation is one step);
  in \<open>Database.c\<close> the floating-point fee estimate, \<open>nodeForIp\<close>, which takes a mutex it already holds, and
  \<open>transactionsAtHeight\<close>, which drops its rows; in \<open>NodeManager.c\<close> the handler \<open>messageWorkerDelayed\<close>, which
  is never queued, and \<open>NodeManagerFree\<close>; the allocation tracking of arrays, and debugging output.
\<close>

end
